(* ===== verification/Prelude.thy ===== *)
theory Prelude
  imports Main "HOL-Library.List_Lexorder" "HOL-Library.Char_ord"
begin

text \<open>
  Shared ground of the development: the JavaScript idioms the Runtime's TypeScript uses
  (\<open>??\<close>, truthiness of a string, \<open>trim\<close>, \<open>join\<close>, \<open>includes\<close>, \<open>slice\<close>, numbers as text),
  the exception-and-state computations in which the effectful code is written, and the
  collections of facts (\<open>js\<close>, \<open>keeps\<close>) that the component theories share.

  A JavaScript string is a HOL \<open>string\<close>, read as its UTF-8 bytes. The code compares
  strings with \<open><\<close> only where they are ISO timestamps or keys of ASCII text; there the byte
  order of \<open>HOL-Library.List_Lexorder\<close> is the order of the code units. \<open>trim\<close> removes the ASCII
  white space.
\<close>

named_theorems js \<open>unfolding rules of the JavaScript idioms\<close>
named_theorems keeps \<open>rules that push an invariant through a computation\<close>

section \<open>Optional values and strings\<close>

text \<open>\<open>a ?? b\<close>: the default is taken only when the left side is undefined.\<close>

definition coalesce :: "'a option \<Rightarrow> 'a \<Rightarrow> 'a" where
  "coalesce a b = (case a of None \<Rightarrow> b | Some x \<Rightarrow> x)"

lemma coalesce_simps [simp, js]:
  "coalesce None b = b"
  "coalesce (Some x) b = x"
  by (simp_all add: coalesce_def)

text \<open>\<open>a ?? b\<close> where both sides may be undefined.\<close>

definition or_else :: "'a option \<Rightarrow> 'a option \<Rightarrow> 'a option" where
  "or_else a b = (case a of None \<Rightarrow> b | Some x \<Rightarrow> Some x)"

lemma or_else_simps [simp, js]:
  "or_else None b = b"
  "or_else (Some x) b = Some x"
  by (simp_all add: or_else_def)

lemma or_else_eq_None [simp]: "or_else a b = None \<longleftrightarrow> a = None \<and> b = None"
  by (cases a) simp_all

text \<open>An optional string is truthy when it is there and not empty.\<close>

definition truthy :: "string option \<Rightarrow> bool" where
  "truthy s = (case s of None \<Rightarrow> False | Some t \<Rightarrow> t \<noteq> [])"

lemma truthy_simps [simp, js]:
  "\<not> truthy None"
  "truthy (Some t) \<longleftrightarrow> t \<noteq> []"
  by (simp_all add: truthy_def)

lemma truthy_iff: "truthy s \<longleftrightarrow> (\<exists>c cs. s = Some (c # cs))"
  by (cases s) (auto simp: neq_Nil_conv)

definition is_space :: "char \<Rightarrow> bool" where
  "is_space c \<longleftrightarrow> c = CHR '' '' \<or> (9 \<le> (of_char c :: nat) \<and> (of_char c :: nat) \<le> 13)"

definition trim :: "string \<Rightarrow> string" where
  "trim s = rev (dropWhile is_space (rev (dropWhile is_space s)))"

definition blank :: "string option \<Rightarrow> bool" where
  "blank s \<longleftrightarrow> trim (coalesce s []) = []"

fun join :: "string \<Rightarrow> string list \<Rightarrow> string" where
  "join sep [] = []"
| "join sep [x] = x"
| "join sep (x # y # ys) = x @ sep @ join sep (y # ys)"

definition nl :: string where
  "nl = [CHR 0x0A]"

definition starts_with :: "string \<Rightarrow> string \<Rightarrow> bool" where
  "starts_with p s \<longleftrightarrow> take (length p) s = p"

fun contains :: "string \<Rightarrow> string \<Rightarrow> bool" where
  "contains p [] \<longleftrightarrow> p = []"
| "contains p (c # cs) \<longleftrightarrow> starts_with p (c # cs) \<or> contains p cs"

definition quoted :: "string \<Rightarrow> string" where
  "quoted s = [CHR 0x22] @ s @ [CHR 0x22]"

text \<open>\<open>s.slice(0, s.indexOf(c))\<close> and \<open>s.slice(s.indexOf(c) + 1)\<close> of a string that has a \<open>c\<close>.\<close>

definition before_char :: "char \<Rightarrow> string \<Rightarrow> string" where
  "before_char c s = takeWhile (\<lambda>x. x \<noteq> c) s"

definition after_char :: "char \<Rightarrow> string \<Rightarrow> string" where
  "after_char c s = drop 1 (dropWhile (\<lambda>x. x \<noteq> c) s)"

lemma before_after_char:
  "c \<in> set s \<Longrightarrow> before_char c s @ c # after_char c s = s"
  by (induction s) (auto simp: before_char_def after_char_def)

lemma after_char_append: "c \<notin> set m \<Longrightarrow> after_char c (m @ c # i) = i"
  by (induction m) (auto simp: after_char_def)

lemma before_char_append: "c \<notin> set m \<Longrightarrow> before_char c (m @ c # i) = m"
  by (induction m) (auto simp: before_char_def)

lemma starts_with_append [simp]: "starts_with p (p @ s)"
  by (simp add: starts_with_def)

section \<open>Numbers as text\<close>

fun digits_of :: "nat \<Rightarrow> string" where
  "digits_of n =
     (if n < 10 then [char_of (n + 48)] else digits_of (n div 10) @ [char_of (n mod 10 + 48)])"

declare digits_of.simps [simp del]

definition string_of_int :: "int \<Rightarrow> string" where
  "string_of_int i = (if i < 0 then CHR ''-'' # digits_of (nat (- i)) else digits_of (nat i))"

definition string_of_nat :: "nat \<Rightarrow> string" where
  "string_of_nat n = string_of_int (int n)"

definition digit_val :: "char \<Rightarrow> nat option" where
  "digit_val c = (let n = of_char c in if 48 \<le> n \<and> n \<le> 57 then Some (n - 48) else None)"

fun nat_of_digits :: "nat \<Rightarrow> string \<Rightarrow> nat option" where
  "nat_of_digits acc [] = Some acc"
| "nat_of_digits acc (c # cs) =
     (case digit_val c of None \<Rightarrow> None | Some d \<Rightarrow> nat_of_digits (10 * acc + d) cs)"

lemma of_char_digit [simp]:
  "d < 10 \<Longrightarrow> (of_char (char_of (d + 48) :: char) :: nat) = d + 48"
  by (simp add: of_char_of)

lemma digit_val_char [simp]: "d < 10 \<Longrightarrow> digit_val (char_of (d + 48)) = Some d"
  by (simp add: digit_val_def Let_def)

lemma nat_of_digits_append:
  "nat_of_digits acc (xs @ ys) =
     (case nat_of_digits acc xs of None \<Rightarrow> None | Some m \<Rightarrow> nat_of_digits m ys)"
  by (induction xs arbitrary: acc) (auto split: option.split)

lemma digits_of_not_Nil [simp]: "digits_of n \<noteq> []"
  by (subst digits_of.simps) simp

lemma nat_of_digits_digits_of: "nat_of_digits 0 (digits_of n) = Some n"
proof (induction n rule: less_induct)
  case (less n)
  show ?case
  proof (cases "n < 10")
    case True
    then show ?thesis by (subst digits_of.simps) simp
  next
    case False
    then have "nat_of_digits 0 (digits_of (n div 10)) = Some (n div 10)"
      by (intro less.IH) simp
    with False show ?thesis
      by (subst digits_of.simps) (simp add: nat_of_digits_append)
  qed
qed

text \<open>Decimal text of a fixed width, padded with zeros on the left.\<close>

fun pad_nat :: "nat \<Rightarrow> nat \<Rightarrow> string" where
  "pad_nat 0 n = []"
| "pad_nat (Suc w) n = pad_nat w (n div 10) @ [char_of (n mod 10 + 48)]"

lemma length_pad_nat [simp]: "length (pad_nat w n) = w"
  by (induction w arbitrary: n) simp_all

lemma pad_nat_eq_Nil [simp]: "pad_nat w n = [] \<longleftrightarrow> w = 0"
  by (metis length_pad_nat length_0_conv)

lemma nat_of_digits_pad: "n < 10 ^ w \<Longrightarrow> nat_of_digits 0 (pad_nat w n) = Some n"
proof (induction w arbitrary: n)
  case 0
  then show ?case by simp
next
  case (Suc w)
  then have "n div 10 < 10 ^ w" by auto
  then have "nat_of_digits 0 (pad_nat w (n div 10)) = Some (n div 10)" by (rule Suc.IH)
  then show ?case by (simp add: nat_of_digits_append)
qed

section \<open>Exceptions and effects\<close>

text \<open>
  What the code throws: an \<open>Error\<close> with a name and a message, the \<open>TransientLlmError\<close> the loop
  tells apart, or a value that is no \<open>Error\<close>.
\<close>

datatype js_error =
    JsError string string
  | TransientLlmError string
  | Thrown string

text \<open>
  A computation runs from a state and either throws or returns; the state it leaves is kept
  in both cases, as an exception does not undo what was done before it.
\<close>

type_synonym 'a result = "js_error + 'a"
type_synonym ('s, 'a) io = "'s \<Rightarrow> 'a result \<times> 's"

definition returnE :: "'a \<Rightarrow> ('s, 'a) io" where
  "returnE x = (\<lambda>s. (Inr x, s))"

definition throwE :: "js_error \<Rightarrow> ('s, 'a) io" where
  "throwE e = (\<lambda>s. (Inl e, s))"

definition bindE :: "('s, 'a) io \<Rightarrow> ('a \<Rightarrow> ('s, 'b) io) \<Rightarrow> ('s, 'b) io" where
  "bindE m k = (\<lambda>s. case m s of (Inl e, s') \<Rightarrow> (Inl e, s') | (Inr x, s') \<Rightarrow> k x s')"

definition catchE :: "('s, 'a) io \<Rightarrow> (js_error \<Rightarrow> ('s, 'a) io) \<Rightarrow> ('s, 'a) io" where
  "catchE m h = (\<lambda>s. case m s of (Inl e, s') \<Rightarrow> h e s' | (Inr x, s') \<Rightarrow> (Inr x, s'))"

text \<open>\<open>try { ... } catch\<close> whose handler continues with the rest: the outcome as a value.\<close>

definition attemptE :: "('s, 'a) io \<Rightarrow> ('s, 'a result) io" where
  "attemptE m = (\<lambda>s. case m s of (r, s') \<Rightarrow> (Inr r, s'))"

definition getE :: "('s \<Rightarrow> 'a) \<Rightarrow> ('s, 'a) io" where
  "getE f = (\<lambda>s. (Inr (f s), s))"

definition modifyE :: "('s \<Rightarrow> 's) \<Rightarrow> ('s, unit) io" where
  "modifyE f = (\<lambda>s. (Inr (), f s))"

lemmas io_defs = returnE_def throwE_def bindE_def catchE_def attemptE_def getE_def modifyE_def

lemma bindE_returnE [simp]: "bindE (returnE x) k = k x"
  by (simp add: io_defs)

lemma bindE_throwE [simp]: "bindE (throwE e) k = throwE e"
  by (simp add: io_defs)

lemma bindE_assoc: "bindE (bindE m k) l = bindE m (\<lambda>x. bindE (k x) l)"
  by (rule ext) (simp add: io_defs split: prod.split sum.split)

text \<open>\<open>map\<close> over a list with effects, in order, stopping at the first exception.\<close>

fun mapE :: "('a \<Rightarrow> ('s, 'b) io) \<Rightarrow> 'a list \<Rightarrow> ('s, 'b list) io" where
  "mapE f [] = returnE []"
| "mapE f (x # xs) = bindE (f x) (\<lambda>y. bindE (mapE f xs) (\<lambda>ys. returnE (y # ys)))"

text \<open>\<open>for (const x of xs)\<close> over local variables \<open>a\<close>, with effects.\<close>

fun foldE :: "('a \<Rightarrow> 'b \<Rightarrow> ('s, 'b) io) \<Rightarrow> 'a list \<Rightarrow> 'b \<Rightarrow> ('s, 'b) io" where
  "foldE f [] a = returnE a"
| "foldE f (x # xs) a = bindE (f x a) (\<lambda>b. foldE f xs b)"

text \<open>
  \<open>triple P m Q E\<close>: from a state in \<open>P\<close>, a return leaves a value and a state in \<open>Q\<close>, and an
  exception leaves a state in \<open>E\<close>. \<open>keeps I m\<close> is the special case of an invariant.
\<close>

definition triple ::
  "('s \<Rightarrow> bool) \<Rightarrow> ('s, 'a) io \<Rightarrow> ('a \<Rightarrow> 's \<Rightarrow> bool) \<Rightarrow> (js_error \<Rightarrow> 's \<Rightarrow> bool) \<Rightarrow> bool" where
  "triple P m Q E \<longleftrightarrow>
     (\<forall>s. P s \<longrightarrow> (case m s of (Inl e, s') \<Rightarrow> E e s' | (Inr x, s') \<Rightarrow> Q x s'))"

definition keeps :: "('s \<Rightarrow> bool) \<Rightarrow> ('s, 'a) io \<Rightarrow> bool" where
  "keeps I m \<longleftrightarrow> (\<forall>s. I s \<longrightarrow> I (snd (m s)))"

lemma keepsI: "(\<And>s. I s \<Longrightarrow> I (snd (m s))) \<Longrightarrow> keeps I m"
  by (simp add: keeps_def)

lemma keepsD: "keeps I m \<Longrightarrow> I s \<Longrightarrow> I (snd (m s))"
  by (simp add: keeps_def)

lemma keeps_triple: "keeps I m \<longleftrightarrow> triple I m (\<lambda>_. I) (\<lambda>_. I)"
proof -
  have "I (snd (m s)) \<longleftrightarrow> (case m s of (Inl e, s') \<Rightarrow> I s' | (Inr x, s') \<Rightarrow> I s')" for s
    by (cases "m s"; cases "fst (m s)") auto
  then show ?thesis by (simp add: keeps_def triple_def)
qed

lemma keeps_returnE [keeps]: "keeps I (returnE x)"
  by (simp add: keeps_def io_defs)

lemma keeps_throwE [keeps]: "keeps I (throwE e)"
  by (simp add: keeps_def io_defs)

lemma keeps_getE [keeps]: "keeps I (getE f)"
  by (simp add: keeps_def io_defs)

lemma keeps_modifyE [keeps]: "(\<And>s. I s \<Longrightarrow> I (f s)) \<Longrightarrow> keeps I (modifyE f)"
  by (simp add: keeps_def io_defs)

lemma keeps_bindE [keeps]:
  assumes "keeps I m" and "\<And>x. keeps I (k x)"
  shows "keeps I (bindE m k)"
proof (rule keepsI)
  fix s
  assume "I s"
  with assms(1) have "I (snd (m s))" by (rule keepsD)
  then show "I (snd (bindE m k s))"
    using assms(2) by (cases "m s"; cases "fst (m s)") (auto simp: bindE_def dest: keepsD)
qed

lemma keeps_catchE [keeps]:
  assumes "keeps I m" and "\<And>e. keeps I (h e)"
  shows "keeps I (catchE m h)"
proof (rule keepsI)
  fix s
  assume "I s"
  with assms(1) have "I (snd (m s))" by (rule keepsD)
  then show "I (snd (catchE m h s))"
    using assms(2) by (cases "m s"; cases "fst (m s)") (auto simp: catchE_def dest: keepsD)
qed

lemma keeps_attemptE [keeps]: "keeps I m \<Longrightarrow> keeps I (attemptE m)"
  by (auto simp: keeps_def attemptE_def split: prod.split)

lemma keeps_if [keeps]:
  "(b \<Longrightarrow> keeps I m) \<Longrightarrow> (\<not> b \<Longrightarrow> keeps I n) \<Longrightarrow> keeps I (if b then m else n)"
  by simp

lemma keeps_option [keeps]:
  "(x = None \<Longrightarrow> keeps I m) \<Longrightarrow> (\<And>y. x = Some y \<Longrightarrow> keeps I (k y)) \<Longrightarrow>
   keeps I (case x of None \<Rightarrow> m | Some y \<Rightarrow> k y)"
  by (cases x) simp_all

lemma keeps_sum [keeps]:
  "(\<And>e. x = Inl e \<Longrightarrow> keeps I (m e)) \<Longrightarrow> (\<And>y. x = Inr y \<Longrightarrow> keeps I (k y)) \<Longrightarrow>
   keeps I (case x of Inl e \<Rightarrow> m e | Inr y \<Rightarrow> k y)"
  by (cases x) simp_all

lemma keeps_prod [keeps]:
  "(\<And>a b. x = (a, b) \<Longrightarrow> keeps I (k a b)) \<Longrightarrow> keeps I (case x of (a, b) \<Rightarrow> k a b)"
  by (cases x) simp

lemma keeps_Let [keeps]: "(\<And>x. x = e \<Longrightarrow> keeps I (k x)) \<Longrightarrow> keeps I (let x = e in k x)"
  by simp

lemma keeps_mapE [keeps]: "(\<And>x. keeps I (f x)) \<Longrightarrow> keeps I (mapE f xs)"
  by (induction xs) (auto intro!: keeps)

lemma keeps_foldE [keeps]: "(\<And>x a. keeps I (f x a)) \<Longrightarrow> keeps I (foldE f xs a)"
  by (induction xs arbitrary: a) (auto intro!: keeps)

subsection \<open>Weakest preconditions\<close>

text \<open>
  What has to hold before a computation for a return to leave \<open>Q\<close> and an exception to leave \<open>E\<close>.
  The rules compute it along the code; a component's operation gets a rule of its own, used with
  \<open>wp_mono\<close>.
\<close>

named_theorems wp \<open>weakest preconditions of the basic computations\<close>

definition wp_of :: "('s, 'a) io \<Rightarrow> ('a \<Rightarrow> 's \<Rightarrow> bool) \<Rightarrow> (js_error \<Rightarrow> 's \<Rightarrow> bool) \<Rightarrow> 's \<Rightarrow> bool" where
  "wp_of m Q E s = (case m s of (Inl e, s') \<Rightarrow> E e s' | (Inr x, s') \<Rightarrow> Q x s')"

lemma wp_triple: "triple P m Q E \<longleftrightarrow> (\<forall>s. P s \<longrightarrow> wp_of m Q E s)"
  by (simp add: triple_def wp_of_def)

lemma wp_basic [wp]:
  "wp_of (returnE x) Q E s = Q x s"
  "wp_of (throwE e) Q E s = E e s"
  "wp_of (getE f) Q E s = Q (f s) s"
  by (simp_all add: wp_of_def io_defs)

lemma wp_modifyE [wp]: "wp_of (modifyE g) Q E s = Q () (g s)"
  by (simp add: wp_of_def io_defs)

lemma wp_bindE [wp]: "wp_of (bindE m k) Q E s = wp_of m (\<lambda>x. wp_of (k x) Q E) E s"
  by (simp add: wp_of_def bindE_def split: prod.split sum.split)

lemma wp_attemptE [wp]: "wp_of (attemptE m) Q E s = wp_of m (\<lambda>x. Q (Inr x)) (\<lambda>e. Q (Inl e)) s"
  by (simp add: wp_of_def attemptE_def split: prod.split sum.split)

lemma wp_catchE [wp]: "wp_of (catchE m h) Q E s = wp_of m Q (\<lambda>e. wp_of (h e) Q E) s"
  by (simp add: wp_of_def catchE_def split: prod.split sum.split)

lemma wp_mono:
  assumes "wp_of m Q E s" and "\<And>x s'. Q x s' \<Longrightarrow> Q' x s'" and "\<And>e s'. E e s' \<Longrightarrow> E' e s'"
  shows "wp_of m Q' E' s"
  using assms by (auto simp: wp_of_def split: prod.splits sum.splits)

lemma wp_conj:
  "wp_of m Q E s \<Longrightarrow> wp_of m Q' E' s \<Longrightarrow> wp_of m (\<lambda>x s. Q x s \<and> Q' x s) (\<lambda>e s. E e s \<and> E' e s) s"
  by (auto simp: wp_of_def split: prod.splits sum.splits)

lemma wp_return: "m s = (Inr x, s') \<Longrightarrow> wp_of m Q E s \<Longrightarrow> Q x s'"
  by (simp add: wp_of_def)

lemma wp_final: "wp_of m (\<lambda>_. Q) (\<lambda>_. Q) s \<Longrightarrow> Q (snd (m s))"
  by (auto simp: wp_of_def split: prod.splits sum.splits)

text \<open>A loop keeps what every round keeps, over the elements of its list.\<close>

lemma wp_foldE:
  assumes "Q a s" and "\<And>x a s. x \<in> set xs \<Longrightarrow> Q a s \<Longrightarrow> wp_of (f x a) Q E s"
  shows "wp_of (foldE f xs a) Q E s"
  using assms
proof (induction xs arbitrary: a s)
  case Nil
  then show ?case by (simp add: wp)
next
  case (Cons x xs)
  have "wp_of (f x a) (\<lambda>b. wp_of (foldE f xs b) Q E) E s"
  proof (rule wp_mono)
    show "wp_of (f x a) Q E s" using Cons.prems by simp
    show "wp_of (foldE f xs b) Q E s'" if "Q b s'" for b s'
      by (rule Cons.IH [OF that]) (simp add: Cons.prems(2))
  qed
  then show ?case by (simp add: wp)
qed

section \<open>Lists\<close>

text \<open>The code's \<open>filter(p).at(-1)\<close>: the last element that satisfies \<open>p\<close>.\<close>

definition last_match :: "('a \<Rightarrow> bool) \<Rightarrow> 'a list \<Rightarrow> 'a option" where
  "last_match p xs = (let ys = filter p xs in if ys = [] then None else Some (last ys))"

lemma last_match_None: "last_match p xs = None \<longleftrightarrow> (\<forall>x \<in> set xs. \<not> p x)"
  by (simp add: last_match_def Let_def filter_empty_conv)

lemma last_match_Nil [simp]: "last_match p [] = None"
  by (simp add: last_match_None)

lemma last_match_snoc [simp]:
  "last_match p (xs @ [x]) = (if p x then Some x else last_match p xs)"
  by (simp add: last_match_def Let_def)

lemma last_match_append:
  "last_match p (xs @ ys) = or_else (last_match p ys) (last_match p xs)"
  by (auto simp: last_match_def Let_def or_else_def)

lemma last_match_SomeD:
  assumes "last_match p xs = Some x"
  shows "x \<in> set xs \<and> p x"
proof -
  from assms have "filter p xs \<noteq> []" and "x = last (filter p xs)"
    by (auto simp: last_match_def Let_def split: if_splits)
  then have "x \<in> set (filter p xs)" using last_in_set by metis
  then show ?thesis by simp
qed

lemma find_append: "find p (xs @ ys) = or_else (find p xs) (find p ys)"
  by (induction xs) auto

lemma find_SomeD: "find p xs = Some x \<Longrightarrow> x \<in> set xs \<and> p x"
  by (auto simp: find_Some_iff)

end
