(* ===== verification/Json.thy ===== *)
theory Json
  imports Prelude "HOL-Library.Multiset"
begin

text \<open>
  The JSON values the Runtime moves between the model, the Operations and the ThingStore, with
  \<open>JSON.stringify\<close>, \<open>JSON.parse\<close> and \<open>String(...)\<close> of the language, and the canonical form
  (\<open>canonicalJson\<close> of \<open>loop/advance.ts\<close>) that an approval is bound to.

  A number is the double that its shortest decimal \<open>m * 10 ^ e\<close> names, which is what
  \<open>Number::toString\<close> prints; decimals of more than 15 digits, where a literal and the shortest
  decimal of its double may differ, are not rounded. An object is the list of its own properties
  in enumeration order.
\<close>

section \<open>Values\<close>

datatype js_num = Fin int int | Infinite bool | NaN

datatype json =
    JUndef
  | JNull
  | JBool bool
  | JNum js_num
  | JStr string
  | JArr "json list"
  | JObj "(string \<times> json) list"

type_synonym props = "(string \<times> json) list"

definition pget :: "props \<Rightarrow> string \<Rightarrow> json" where
  "pget ps k = (case map_of ps k of None \<Rightarrow> JUndef | Some v \<Rightarrow> v)"

lemma pget_Nil [simp]: "pget [] k = JUndef"
  by (simp add: pget_def)

lemma pget_Cons [simp]: "pget ((k', v) # ps) k = (if k = k' then v else pget ps k)"
  by (simp add: pget_def)

definition has_key :: "props \<Rightarrow> string \<Rightarrow> bool" where
  "has_key ps k \<longleftrightarrow> k \<in> set (map fst ps)"

lemma has_key_simps [simp]:
  "\<not> has_key [] k"
  "has_key ((k', v) # ps) k \<longleftrightarrow> k = k' \<or> has_key ps k"
  "has_key (ps @ qs) k \<longleftrightarrow> has_key ps k \<or> has_key qs k"
  by (auto simp: has_key_def)

lemma pget_absent: "\<not> has_key ps k \<Longrightarrow> pget ps k = JUndef"
  by (induction ps) auto

lemma pget_append: "pget (xs @ ys) k = (if has_key xs k then pget xs k else pget ys k)"
  by (induction xs) auto

subsection \<open>Numbers\<close>

function strip_zeros :: "nat \<Rightarrow> int \<Rightarrow> nat \<times> int" where
  "strip_zeros n e =
     (if n = 0 then (0, 0) else if n mod 10 = 0 then strip_zeros (n div 10) (e + 1) else (n, e))"
  by pat_completeness auto
termination
  by (relation "measure fst") auto

declare strip_zeros.simps [simp del]

text \<open>The normal form of \<open>m * 10 ^ e\<close>: no trailing zero in the mantissa.\<close>

definition mk_num :: "int \<Rightarrow> int \<Rightarrow> js_num" where
  "mk_num m e = (case strip_zeros (nat \<bar>m\<bar>) e of (n, e') \<Rightarrow> Fin (sgn m * int n) e')"

definition num_of_int :: "int \<Rightarrow> js_num" where
  "num_of_int i = mk_num i 0"

fun int_of_num :: "js_num \<Rightarrow> int option" where
  "int_of_num (Fin m e) = (if 0 \<le> e then Some (m * 10 ^ nat e) else None)"
| "int_of_num _ = None"

lemma strip_zeros_value:
  "0 \<le> e \<Longrightarrow> strip_zeros n e = (n', e') \<Longrightarrow> 0 \<le> e' \<and> n' * 10 ^ nat e' = n * 10 ^ nat e"
proof (induction n e arbitrary: n' e' rule: strip_zeros.induct)
  case (1 n e)
  show ?case
  proof (cases "n = 0 \<or> n mod 10 \<noteq> 0")
    case True
    with "1.prems" show ?thesis
      by (auto simp: strip_zeros.simps [of n e] split: if_splits)
  next
    case False
    with "1.prems" have rec: "strip_zeros (n div 10) (e + 1) = (n', e')"
      by (simp add: strip_zeros.simps [of n e])
    with "1.IH" "1.prems"(1) False
    have "0 \<le> e' \<and> n' * 10 ^ nat e' = n div 10 * 10 ^ nat (e + 1)" by simp
    moreover have "nat (e + 1) = Suc (nat e)" using "1.prems"(1) by simp
    moreover have "n div 10 * 10 = n" using False by auto
    ultimately show ?thesis by simp
  qed
qed

lemma int_of_num_of_int [simp]: "int_of_num (num_of_int i) = Some i"
proof -
  obtain n e where s: "strip_zeros (nat \<bar>i\<bar>) 0 = (n, e)" by fastforce
  with strip_zeros_value [of 0 "nat \<bar>i\<bar>"] have e: "0 \<le> e" and v: "n * 10 ^ nat e = nat \<bar>i\<bar>"
    by auto
  have "int n * 10 ^ nat e = \<bar>i\<bar>"
    using v by (metis int_nat_eq abs_ge_zero of_nat_mult of_nat_numeral of_nat_power)
  then have "sgn i * int n * 10 ^ nat e = i"
    by (simp add: mult.assoc) (metis mult_sgn_abs)
  with e s show ?thesis
    by (simp add: num_of_int_def mk_num_def)
qed

fun num_add :: "js_num \<Rightarrow> js_num \<Rightarrow> js_num" where
  "num_add (Fin m e) (Fin n f) =
     (let d = min e f in mk_num (m * 10 ^ nat (e - d) + n * 10 ^ nat (f - d)) d)"
| "num_add (Infinite b) (Infinite c) = (if b = c then Infinite b else NaN)"
| "num_add NaN _ = NaN"
| "num_add _ NaN = NaN"
| "num_add (Infinite b) _ = Infinite b"
| "num_add _ (Infinite b) = Infinite b"

fun is_finite_num :: "js_num \<Rightarrow> bool" where
  "is_finite_num (Fin m e) = True"
| "is_finite_num _ = False"

fun num_negative :: "js_num \<Rightarrow> bool" where
  "num_negative (Fin m e) = (m < 0)"
| "num_negative (Infinite b) = b"
| "num_negative NaN = False"

text \<open>\<open>Number::toString\<close> of ECMA-262: \<open>s\<close> are the \<open>k\<close> digits and \<open>n\<close> the place of the point.\<close>

definition string_of_fin :: "nat \<Rightarrow> int \<Rightarrow> string" where
  "string_of_fin m e =
     (let s = digits_of m; k = int (length s); n = k + e
      in if m = 0 then ''0''
         else if k \<le> n \<and> n \<le> 21 then s @ replicate (nat (n - k)) (CHR ''0'')
         else if 0 < n \<and> n \<le> 21 then take (nat n) s @ ''.'' @ drop (nat n) s
         else if -6 < n \<and> n \<le> 0 then ''0.'' @ replicate (nat (- n)) (CHR ''0'') @ s
         else take 1 s @ (if k = 1 then [] else ''.'' @ drop 1 s) @ ''e''
              @ (if n - 1 < 0 then ''-'' else ''+'') @ digits_of (nat \<bar>n - 1\<bar>))"

fun string_of_num :: "js_num \<Rightarrow> string" where
  "string_of_num (Fin m e) = (if m < 0 then ''-'' else []) @ string_of_fin (nat \<bar>m\<bar>) e"
| "string_of_num (Infinite neg) = (if neg then ''-Infinity'' else ''Infinity'')"
| "string_of_num NaN = ''NaN''"

section \<open>JSON.stringify\<close>

definition hex_digit :: "nat \<Rightarrow> char" where
  "hex_digit n = (if n < 10 then char_of (n + 48) else char_of (n + 87))"

definition escape_char :: "char \<Rightarrow> string" where
  "escape_char c =
     (let n = of_char c :: nat in
      if n = 34 then [CHR 0x5C, c]
      else if n = 92 then [CHR 0x5C, CHR 0x5C]
      else if n = 8 then [CHR 0x5C, CHR ''b'']
      else if n = 9 then [CHR 0x5C, CHR ''t'']
      else if n = 10 then [CHR 0x5C, CHR ''n'']
      else if n = 12 then [CHR 0x5C, CHR ''f'']
      else if n = 13 then [CHR 0x5C, CHR ''r'']
      else if n < 32 then [CHR 0x5C, CHR ''u'', CHR ''0'', CHR ''0'', hex_digit (n div 16), hex_digit (n mod 16)]
      else [c])"

definition quote :: "string \<Rightarrow> string" where
  "quote s = CHR 0x22 # concat (map escape_char s) @ [CHR 0x22]"

definition present :: "props \<Rightarrow> props" where
  "present ps = filter (\<lambda>(k, v). v \<noteq> JUndef) ps"

lemma present_subset: "set (present ps) \<subseteq> set ps"
  by (auto simp: present_def)

function (sequential) stringify :: "json \<Rightarrow> string" where
  "stringify JUndef = ''null''"
| "stringify JNull = ''null''"
| "stringify (JBool b) = (if b then ''true'' else ''false'')"
| "stringify (JNum n) = (if is_finite_num n then string_of_num n else ''null'')"
| "stringify (JStr s) = quote s"
| "stringify (JArr xs) = ''['' @ join '','' (map stringify xs) @ '']''"
| "stringify (JObj ps) =
     ''{'' @ join '','' (map (\<lambda>(k, v). quote k @ '':'' @ stringify v) (present ps)) @ ''}''"
  by pat_completeness auto

lemma size_arr_elem: "x \<in> set xs \<Longrightarrow> size x < size (JArr xs)"
  by (induction xs) auto

lemma size_obj_elem: "(k, v) \<in> set ps \<Longrightarrow> size v < size (JObj ps)"
  by (induction ps) auto

lemma size_present_elem: "(k, v) \<in> set (present ps) \<Longrightarrow> size v < size (JObj ps)"
  using present_subset [of ps] size_obj_elem [of k v ps] by blast

termination stringify
  by (relation "measure size") (auto dest: size_arr_elem size_present_elem simp del: json.size)

text \<open>\<open>JSON.stringify(value, null, 2)\<close>: the same with line breaks, \<open>ind\<close> spaces deep.\<close>

function (sequential) stringify_pretty :: "nat \<Rightarrow> json \<Rightarrow> string" where
  "stringify_pretty ind (JArr xs) =
     (if xs = [] then ''[]''
      else ''['' @ nl @ join ('','' @ nl)
             (map (\<lambda>x. replicate (ind + 2) (CHR '' '') @ stringify_pretty (ind + 2) x) xs)
           @ nl @ replicate ind (CHR '' '') @ '']'')"
| "stringify_pretty ind (JObj ps) =
     (if present ps = [] then ''{}''
      else ''{'' @ nl @ join ('','' @ nl)
             (map (\<lambda>(k, v). replicate (ind + 2) (CHR '' '') @ quote k @ '': '' @ stringify_pretty (ind + 2) v)
                  (present ps))
           @ nl @ replicate ind (CHR '' '') @ ''}'')"
| "stringify_pretty ind v = stringify v"
  by pat_completeness auto
termination
  by (relation "measure (\<lambda>(_, v). size v)")
    (auto dest: size_arr_elem size_present_elem simp del: json.size)

section \<open>The canonical form of a call's arguments\<close>

text \<open>Keys sorted at every depth, absent and undefined keys alike, array order kept.\<close>

function (sequential) canonicalJson :: "json \<Rightarrow> string" where
  "canonicalJson (JArr xs) = ''['' @ join '','' (map canonicalJson xs) @ '']''"
| "canonicalJson (JObj ps) =
     ''{'' @ join '','' (map (\<lambda>(k, v). quote k @ '':'' @ canonicalJson v)
                          (sort_key fst (present ps))) @ ''}''"
| "canonicalJson v = stringify v"
  by pat_completeness auto
termination
  by (relation "measure size") (auto dest: size_arr_elem size_present_elem simp del: json.size)

text \<open>
  Two values are the same call when they differ only in the order of object keys and in keys
  set to undefined, at any depth.
\<close>

inductive same_call :: "json \<Rightarrow> json \<Rightarrow> bool" where
  same_scalar: "same_call v v"
| same_undef: "same_call JUndef JNull"
| same_arr: "list_all2 same_call xs ys \<Longrightarrow> same_call (JArr xs) (JArr ys)"
| same_obj: "mset (map fst (present ps)) = mset (map fst (present qs)) \<Longrightarrow>
    distinct (map fst ps) \<Longrightarrow> distinct (map fst qs) \<Longrightarrow>
    (\<forall>k v w. (k, v) \<in> set (present ps) \<longrightarrow> (k, w) \<in> set (present qs) \<longrightarrow> same_call v w) \<Longrightarrow>
    same_call (JObj ps) (JObj qs)"

monos list_all2_mono

text \<open>Sorting by key forgets the order of the keys, as the keys of an object are distinct.\<close>

lemma sort_keys_unique:
  assumes m: "mset (map g ps) = mset (map g qs)"
    and g: "\<And>p. fst (g p) = fst p"
    and d: "distinct (map fst qs)"
  shows "map g (sort_key fst ps) = map g (sort_key fst qs)"
proof -
  have fst_g: "map fst (map g xs) = map fst xs" for xs
    by (simp add: g)
  have "inj_on fst (set (map g qs))"
    using d by (metis fst_g distinct_map)
  moreover have "set (map g qs) = set (map g ps)"
    using m by (metis set_mset_mset)
  ultimately have inj: "inj_on fst (set (map g ps))" "inj_on fst (set (map g qs))" by simp_all
  have "sort_key fst (map g ps) = map g (sort_key fst ps)"
    using inj(1) by (intro sort_key_inj_key_eq) (simp_all add: g comp_def)
  moreover have "sort_key fst (map g ps) = map g (sort_key fst qs)"
    using inj(1) m by (intro sort_key_inj_key_eq) (simp_all add: g comp_def)
  ultimately show ?thesis by simp
qed

lemma map_fst_present: "set (map fst (present ps)) \<subseteq> set (map fst ps)"
  using present_subset by fastforce

lemma distinct_present: "distinct (map fst ps) \<Longrightarrow> distinct (map fst (present ps))"
  by (simp add: present_def distinct_map_filter)

lemma mset_by_key:
  assumes keys: "mset (map fst ps) = mset (map fst qs)" and d: "distinct (map fst ps)"
    and vals: "\<And>k v w. (k, v) \<in> set ps \<Longrightarrow> (k, w) \<in> set qs \<Longrightarrow> f v = f w"
  shows "mset (map (\<lambda>(k, v). (k, f v)) ps) = mset (map (\<lambda>(k, v). (k, f v)) qs)"
proof -
  let ?g = "\<lambda>(k, v). (k, f v)"
  have dq: "distinct (map fst qs)"
    using keys d by (metis mset_eq_imp_distinct_iff)
  have fst_g: "map fst (map ?g xs) = map fst xs" for xs
    by (auto simp: case_prod_unfold)
  have keyset: "fst ` set ps = fst ` set qs"
    using keys by (metis mset_eq_setD set_map)
  have "set (map ?g ps) = set (map ?g qs)"
  proof (rule set_eqI, rule iffI)
    fix x assume "x \<in> set (map ?g ps)"
    then obtain k v where x: "x = (k, f v)" and kv: "(k, v) \<in> set ps" by auto
    then obtain w where kw: "(k, w) \<in> set qs" using keyset by force
    then show "x \<in> set (map ?g qs)" using x vals [OF kv kw] by force
  next
    fix x assume "x \<in> set (map ?g qs)"
    then obtain k w where x: "x = (k, f w)" and kw: "(k, w) \<in> set qs" by auto
    then obtain v where kv: "(k, v) \<in> set ps" using keyset by force
    then show "x \<in> set (map ?g ps)" using x vals [OF kv kw] by force
  qed
  moreover have "distinct (map ?g ps)" "distinct (map ?g qs)"
    using d dq fst_g by (metis distinct_map)+
  ultimately show ?thesis using set_eq_iff_mset_eq_distinct by blast
qed

text \<open>Values that are the same call have one canonical form.\<close>

lemma canonicalJson_same: "same_call v w \<Longrightarrow> canonicalJson v = canonicalJson w"
proof (induction rule: same_call.induct)
  case (same_arr xs ys)
  then have "map canonicalJson xs = map canonicalJson ys"
    by (induction rule: list_all2_induct) auto
  then show ?case by simp
next
  case (same_obj ps qs)
  let ?g = "\<lambda>(k, v). (k, canonicalJson v)"
  have "map ?g (sort_key fst (present ps)) = map ?g (sort_key fst (present qs))"
  proof (rule sort_keys_unique)
    show "mset (map ?g (present ps)) = mset (map ?g (present qs))"
      using same_obj by (intro mset_by_key) (auto intro: distinct_present)
    show "fst (?g p) = fst p" for p by (cases p) simp
    show "distinct (map fst (present qs))" using same_obj by (intro distinct_present)
  qed
  then have "map (\<lambda>(k, t). quote k @ '':'' @ t) (map ?g (sort_key fst (present ps)))
      = map (\<lambda>(k, t). quote k @ '':'' @ t) (map ?g (sort_key fst (present qs)))" by simp
  then show ?case by (simp add: comp_def case_prod_unfold)
qed simp_all

section \<open>JSON.parse\<close>

definition skip_ws :: "string \<Rightarrow> string" where
  "skip_ws s = dropWhile (\<lambda>c. c = CHR '' '' \<or> c = CHR 0x09 \<or> c = CHR 0x0A \<or> c = CHR 0x0D) s"

definition hex_val :: "char \<Rightarrow> nat option" where
  "hex_val c =
     (let n = of_char c in
      if 48 \<le> n \<and> n \<le> 57 then Some (n - 48)
      else if 97 \<le> n \<and> n \<le> 102 then Some (n - 87)
      else if 65 \<le> n \<and> n \<le> 70 then Some (n - 55) else None)"

fun hex4 :: "string \<Rightarrow> (nat \<times> string) option" where
  "hex4 (a # b # c # d # rest) =
     (case (hex_val a, hex_val b, hex_val c, hex_val d) of
        (Some w, Some x, Some y, Some z) \<Rightarrow> Some (((w * 16 + x) * 16 + y) * 16 + z, rest)
      | _ \<Rightarrow> None)"
| "hex4 _ = None"

text \<open>The UTF-8 bytes of a code point.\<close>

definition utf8 :: "nat \<Rightarrow> string" where
  "utf8 n =
     (if n < 128 then [char_of n]
      else if n < 2048 then [char_of (192 + n div 64), char_of (128 + n mod 64)]
      else if n < 65536
        then [char_of (224 + n div 4096), char_of (128 + n div 64 mod 64), char_of (128 + n mod 64)]
      else [char_of (240 + n div 262144), char_of (128 + n div 4096 mod 64),
            char_of (128 + n div 64 mod 64), char_of (128 + n mod 64)])"

text \<open>A \<open>\u\<close> escape, and the second half of a surrogate pair when one follows.\<close>

definition unescape_u :: "string \<Rightarrow> (string \<times> string) option" where
  "unescape_u s =
     (case hex4 s of None \<Rightarrow> None
      | Some (hi, rest) \<Rightarrow>
          if 55296 \<le> hi \<and> hi < 56320 \<and> take 2 rest = [CHR 0x5C, CHR ''u''] then
            (case hex4 (drop 2 rest) of
               Some (lo, rest') \<Rightarrow>
                 if 56320 \<le> lo \<and> lo < 57344
                 then Some (utf8 (65536 + (hi - 55296) * 1024 + (lo - 56320)), rest')
                 else Some (utf8 hi, rest)
             | None \<Rightarrow> None)
          else Some (utf8 hi, rest))"

definition unescape1 :: "char \<Rightarrow> char option" where
  "unescape1 c =
     (if c = CHR 0x22 \<or> c = CHR 0x5C \<or> c = CHR ''/'' then Some c
      else if c = CHR ''b'' then Some (CHR 0x08)
      else if c = CHR ''f'' then Some (CHR 0x0C)
      else if c = CHR ''n'' then Some (CHR 0x0A)
      else if c = CHR ''r'' then Some (CHR 0x0D)
      else if c = CHR ''t'' then Some (CHR 0x09) else None)"

lemma hex4_length: "hex4 s = Some (n, r) \<Longrightarrow> length r < length s"
  by (induction s rule: hex4.induct) (auto split: option.splits)

lemma unescape_u_length: "unescape_u s = Some (t, r) \<Longrightarrow> length r < length s"
  by (auto simp: unescape_u_def split: option.splits if_splits dest!: hex4_length)

text \<open>The characters of a string literal after its opening quote.\<close>

function (sequential) p_string :: "string \<Rightarrow> (string \<times> string) option" where
  "p_string [] = None"
| "p_string (c # cs) =
     (if c = CHR 0x22 then Some ([], cs)
      else if c = CHR 0x5C then
        (case cs of [] \<Rightarrow> None
         | d # ds \<Rightarrow>
             if d = CHR ''u'' then
               (case unescape_u ds of None \<Rightarrow> None
                | Some (t, r) \<Rightarrow> map_option (\<lambda>(u, r'). (t @ u, r')) (p_string r))
             else (case unescape1 d of None \<Rightarrow> None
                   | Some e \<Rightarrow> map_option (\<lambda>(u, r'). (e # u, r')) (p_string ds)))
      else if (of_char c :: nat) < 32 then None
      else map_option (\<lambda>(u, r'). (c # u, r')) (p_string cs))"
  by pat_completeness auto
termination
  by (relation "measure length") (auto dest!: unescape_u_length)

definition take_digits :: "string \<Rightarrow> string \<times> string" where
  "take_digits s = (takeWhile (\<lambda>c. digit_val c \<noteq> None) s, dropWhile (\<lambda>c. digit_val c \<noteq> None) s)"

definition nat_of :: "string \<Rightarrow> nat" where
  "nat_of ds = coalesce (nat_of_digits 0 ds) 0"

definition p_fraction :: "string \<Rightarrow> (string \<times> string) option" where
  "p_fraction s =
     (case s of
        [] \<Rightarrow> Some ([], [])
      | c # cs \<Rightarrow>
          if c = CHR ''.'' then
            (case take_digits cs of (ds, r) \<Rightarrow> if ds = [] then None else Some (ds, r))
          else Some ([], s))"

definition p_exponent :: "string \<Rightarrow> (int \<times> string) option" where
  "p_exponent s =
     (case s of
        [] \<Rightarrow> Some (0, [])
      | c # cs \<Rightarrow>
          if c = CHR ''e'' \<or> c = CHR ''E'' then
            (let signed = cs \<noteq> [] \<and> (hd cs = CHR ''+'' \<or> hd cs = CHR ''-'');
                 neg = cs \<noteq> [] \<and> hd cs = CHR ''-''
             in case take_digits (if signed then tl cs else cs) of (ds, r) \<Rightarrow>
                  if ds = [] then None
                  else Some (if neg then - int (nat_of ds) else int (nat_of ds), r))
          else Some (0, s))"

definition p_number :: "string \<Rightarrow> (js_num \<times> string) option" where
  "p_number s =
     (let neg = s \<noteq> [] \<and> hd s = CHR ''-'' in
      case take_digits (if neg then tl s else s) of (ds, r) \<Rightarrow>
        if ds = [] \<or> (hd ds = CHR ''0'' \<and> tl ds \<noteq> []) then None
        else (case p_fraction r of None \<Rightarrow> None
              | Some (fs, r') \<Rightarrow>
                  (case p_exponent r' of None \<Rightarrow> None
                   | Some (x, r'') \<Rightarrow>
                       (let m = int (nat_of (ds @ fs))
                        in Some (mk_num (if neg then - m else m) (x - int (length fs)), r'')))))"

text \<open>
  Setting a property: an existing key keeps its place, and keys that are array indices come
  first in ascending order, as the language enumerates them.
\<close>

definition array_index :: "string \<Rightarrow> nat option" where
  "array_index k =
     (case nat_of_digits 0 k of
        Some n \<Rightarrow> if k = digits_of n \<and> int n < 4294967295 then Some n else None
      | None \<Rightarrow> None)"

definition enumerates_before :: "string \<Rightarrow> string \<Rightarrow> bool" where
  "enumerates_before k k' =
     (case (array_index k, array_index k') of
        (Some m, Some n) \<Rightarrow> m < n
      | (None, Some n) \<Rightarrow> False
      | _ \<Rightarrow> True)"

fun add_prop :: "string \<Rightarrow> json \<Rightarrow> props \<Rightarrow> props" where
  "add_prop k v [] = [(k, v)]"
| "add_prop k v ((k', v') # ps) =
     (if array_index k \<noteq> None \<and> \<not> enumerates_before k' k then (k, v) # (k', v') # ps
      else (k', v') # add_prop k v ps)"

fun set_prop :: "string \<Rightarrow> json \<Rightarrow> props \<Rightarrow> props" where
  "set_prop k v ps =
     (if has_key ps k then map (\<lambda>(k', v'). if k' = k then (k, v) else (k', v')) ps
      else add_prop k v ps)"

lemma pget_add_prop: "\<not> has_key ps k \<Longrightarrow> pget (add_prop k v ps) k' = (if k' = k then v else pget ps k')"
  by (induction ps) auto

lemma pget_map_prop:
  "pget (map (\<lambda>(k', v'). if k' = k then (k, v) else (k', v')) ps) k'
     = (if k' = k \<and> has_key ps k then v else pget ps k')"
  by (induction ps) auto

lemma pget_set_prop [simp]: "pget (set_prop k v ps) k' = (if k' = k then v else pget ps k')"
  by (auto simp: pget_add_prop pget_map_prop)

declare set_prop.simps [simp del]

text \<open>\<open>{ ...a, ...b }\<close>.\<close>

definition spread :: "props \<Rightarrow> props \<Rightarrow> props" where
  "spread a b = fold (\<lambda>(k, v) ps. set_prop k v ps) b a"

lemma spread_simps [simp]:
  "spread a [] = a"
  "spread a ((k, v) # b) = spread (set_prop k v a) b"
  by (simp_all add: spread_def)

lemma pget_spread:
  "distinct (map fst b) \<Longrightarrow> pget (spread a b) k = (if has_key b k then pget b k else pget a k)"
proof (induction b arbitrary: a)
  case (Cons p b)
  obtain k' v where p: "p = (k', v)" by fastforce
  with Cons.prems have "\<not> has_key b k'" "distinct (map fst b)" by (auto simp: has_key_def)
  with Cons.IH [of "set_prop k' v a"] show ?case by (auto simp: p pget_absent)
qed simp

definition obj_of :: "props \<Rightarrow> json" where
  "obj_of ms = JObj (spread [] ms)"

text \<open>
  Recursive descent; each nested call spends one unit of fuel, and a value is at least one
  character long, so the length of the text is enough.
\<close>

fun p_value :: "nat \<Rightarrow> string \<Rightarrow> (json \<times> string) option"
  and p_elems :: "nat \<Rightarrow> string \<Rightarrow> (json list \<times> string) option"
  and p_members :: "nat \<Rightarrow> string \<Rightarrow> (props \<times> string) option" where
  "p_value 0 s = None"
| "p_value (Suc n) s =
     (case skip_ws s of [] \<Rightarrow> None
      | c # cs \<Rightarrow>
          if c = CHR 0x22 then map_option (\<lambda>(t, r). (JStr t, r)) (p_string cs)
          else if c = CHR ''['' then
            (if starts_with '']'' (skip_ws cs) then Some (JArr [], tl (skip_ws cs))
             else map_option (\<lambda>(xs, r). (JArr xs, r)) (p_elems n cs))
          else if c = CHR ''{'' then
            (if starts_with ''}'' (skip_ws cs) then Some (JObj [], tl (skip_ws cs))
             else map_option (\<lambda>(ms, r). (obj_of ms, r)) (p_members n cs))
          else if starts_with ''true'' (c # cs) then Some (JBool True, drop 4 (c # cs))
          else if starts_with ''false'' (c # cs) then Some (JBool False, drop 5 (c # cs))
          else if starts_with ''null'' (c # cs) then Some (JNull, drop 4 (c # cs))
          else map_option (\<lambda>(m, r). (JNum m, r)) (p_number (c # cs)))"
| "p_elems 0 s = None"
| "p_elems (Suc n) s =
     (case p_value n s of None \<Rightarrow> None
      | Some (v, r) \<Rightarrow>
          (case skip_ws r of [] \<Rightarrow> None
           | c # cs \<Rightarrow>
               if c = CHR '']'' then Some ([v], cs)
               else if c = CHR '','' then map_option (\<lambda>(vs, r'). (v # vs, r')) (p_elems n cs)
               else None))"
| "p_members 0 s = None"
| "p_members (Suc n) s =
     (case skip_ws s of [] \<Rightarrow> None
      | q # qs \<Rightarrow>
          if q \<noteq> CHR 0x22 then None
          else (case p_string qs of None \<Rightarrow> None
                | Some (k, r) \<Rightarrow>
                    if \<not> starts_with '':'' (skip_ws r) then None
                    else (case p_value n (tl (skip_ws r)) of None \<Rightarrow> None
                          | Some (v, r') \<Rightarrow>
                              (case skip_ws r' of [] \<Rightarrow> None
                               | c # cs \<Rightarrow>
                                   if c = CHR ''}'' then Some ([(k, v)], cs)
                                   else if c = CHR '','' then
                                     map_option (\<lambda>(ms, r''). ((k, v) # ms, r'')) (p_members n cs)
                                   else None))))"

definition json_parse :: "string \<Rightarrow> json option" where
  "json_parse s =
     (case p_value (2 * length s + 2) s of
        Some (v, r) \<Rightarrow> if skip_ws r = [] then Some v else None
      | None \<Rightarrow> None)"

text \<open>\<open>String(value)\<close>.\<close>

fun js_string :: "json \<Rightarrow> string" where
  "js_string JUndef = ''undefined''"
| "js_string JNull = ''null''"
| "js_string (JBool b) = (if b then ''true'' else ''false'')"
| "js_string (JNum n) = string_of_num n"
| "js_string (JStr s) = s"
| "js_string (JArr xs) =
     join '','' (map (\<lambda>x. if x = JUndef \<or> x = JNull then [] else js_string x) xs)"
| "js_string (JObj ps) = ''[object Object]''"

end
