(* ===== verification/IsoTime.thy ===== *)
theory IsoTime
  imports Prelude
begin

text \<open>
  The timestamps of the Runtime (\<open>nowIso\<close> and \<open>parseIso\<close> of \<open>a12/things.ts\<close>) over the
  milliseconds of the epoch: \<open>Date.toISOString\<close> and \<open>Date.parse\<close> written out on the Gregorian
  calendar. Proved here: a stamp read back is its instant to the second, and the order of the
  stamps as strings, on which watermarks and cursors rest, is the order of the instants.

  Years have four digits, which are the instants \<open>iso_range\<close>. \<open>Date.parse\<close> is modelled on the
  date-time form of ECMA-262, with or without seconds and fractions; the texts an engine may read
  beyond that form are taken as not a date.
\<close>

section \<open>The calendar\<close>

definition days_from_civil :: "int \<Rightarrow> int \<Rightarrow> int \<Rightarrow> int" where
  "days_from_civil y m d =
     (let Y = (if m \<le> 2 then y - 1 else y); mp = (if m \<le> 2 then m + 9 else m - 3)
      in 365 * Y + Y div 4 - Y div 100 + Y div 400 + (153 * mp + 2) div 5 + (d - 1) - 719468)"

text \<open>The year that starts in March, and the day within it.\<close>

definition year_day :: "int \<Rightarrow> int \<times> int" where
  "year_day days =
     (let z = days + 719468; era = z div 146097; doe = z mod 146097;
          c = min 3 (doe div 36524); r = doe - 36524 * c;
          q = r div 1461; s = r mod 1461; a = min 3 (s div 365)
      in (400 * era + 100 * c + 4 * q + a, s - 365 * a))"

definition civil_from_days :: "int \<Rightarrow> int \<times> int \<times> int" where
  "civil_from_days days =
     (case year_day days of (Y, doy) \<Rightarrow>
        let mp = (5 * doy + 2) div 153
        in (if mp < 10 then Y else Y + 1, if mp < 10 then mp + 3 else mp - 9,
            doy - (153 * mp + 2) div 5 + 1))"

definition year_start :: "int \<Rightarrow> int" where
  "year_start Y = 365 * Y + Y div 4 - Y div 100 + Y div 400 - 719468"

lemma year_day:
  assumes "year_day days = (Y, doy)"
  shows year_day_sum: "days = year_start Y + doy"
    and year_day_nonneg: "0 \<le> doy" and year_day_le: "doy \<le> 365"
    and year_day_less: "doy < year_start (Y + 1) - year_start Y"
proof -
  define z era doe c r q s a where defs:
    "z = days + 719468" "era = z div 146097" "doe = z mod 146097"
    "c = min 3 (doe div 36524)" "r = doe - 36524 * c" "q = r div 1461" "s = r mod 1461"
    "a = min 3 (s div 365)"
  have Y: "Y = 400 * era + 100 * c + 4 * q + a" and doy: "doy = s - 365 * a"
    using assms unfolding year_day_def Let_def defs [symmetric] by simp_all
  have z: "z = 146097 * era + doe" "0 \<le> doe" "doe \<le> 146096" by (simp_all add: defs)
  have c: "0 \<le> c" "c \<le> 3" "0 \<le> r" "r \<le> 36524" "c < 3 \<longrightarrow> r < 36524"
  proof -
    define k where "k = doe div 36524"
    have k: "0 \<le> k" "36524 * k \<le> doe" "doe < 36524 * k + 36524" using z(2) by (simp_all add: k_def)
    have "c = min 3 k" "r = doe - 36524 * c" by (simp_all add: defs(4,5) k_def)
    with k z(3) show "0 \<le> c" "c \<le> 3" "0 \<le> r" "r \<le> 36524" "c < 3 \<longrightarrow> r < 36524"
      by (auto simp: min_def)
  qed
  have q: "r = 1461 * q + s" "0 \<le> s" "s \<le> 1460" by (simp_all add: defs)
  with c have q': "0 \<le> q" "q \<le> 24" by linarith+
  have a: "0 \<le> a" "a \<le> 3" "0 \<le> doy" "doy \<le> 365" "a < 3 \<longrightarrow> doy < 365"
  proof -
    define k where "k = s div 365"
    have k: "0 \<le> k" "365 * k \<le> s" "s < 365 * k + 365" using q(2) by (simp_all add: k_def)
    have "a = min 3 k" by (simp add: defs(8) k_def)
    with k q(3) show "0 \<le> a" "a \<le> 3" "0 \<le> doy" "doy \<le> 365" "a < 3 \<longrightarrow> doy < 365"
      by (auto simp: min_def doy)
  qed
  have d4: "Y div 4 = 100 * era + 25 * c + q" and d100: "Y div 100 = 4 * era + c"
    and d400: "Y div 400 = era"
    using Y a c q' by linarith+
  show "days = year_start Y + doy"
    using z(1) q(1) by (simp add: year_start_def d4 d100 d400) (simp add: Y doy defs(1,5))
  show "0 \<le> doy" "doy \<le> 365" by (fact a)+
  show "doy < year_start (Y + 1) - year_start Y"
  proof (cases "doy = 365")
    case True
    then have "a = 3" "s = 1460" using a doy q by linarith+
    with q c have q24: "q = 24 \<longrightarrow> c = 3" by linarith
    have "Y + 1 = (100 * era + 25 * c + q + 1) * 4" using Y \<open>a = 3\<close> by simp
    then have "(Y + 1) div 4 = 100 * era + 25 * c + q + 1" by (metis nonzero_mult_div_cancel_right zero_neq_numeral)
    then have "(Y + 1) div 4 = Y div 4 + 1" by (simp add: d4)
    moreover have "(Y + 1) div 100 - (Y + 1) div 400 = Y div 100 - Y div 400"
    proof (cases "q = 24")
      case True
      with q24 \<open>a = 3\<close> Y have c3: "c = 3" and "Y + 1 = (era + 1) * 400" "Y + 1 = (4 * era + 4) * 100"
        by simp_all
      then have "(Y + 1) div 400 = era + 1" "(Y + 1) div 100 = 4 * era + 4"
        by (metis nonzero_mult_div_cancel_right zero_neq_numeral)+
      then show ?thesis by (simp add: d100 d400 c3)
    next
      case False
      with q' \<open>a = 3\<close> c Y have "(Y + 1) div 100 = 4 * era + c" "(Y + 1) div 400 = era" by linarith+
      then show ?thesis by (simp add: d100 d400)
    qed
    ultimately show ?thesis using True by (simp add: year_start_def)
  next
    case False
    with a have "doy < 365" by simp
    moreover have mono: "Y div 4 \<le> (Y + 1) div 4" "Y div 400 \<le> (Y + 1) div 400"
      by (simp_all add: zdiv_mono1)
    moreover have "(Y + 1) div 100 - Y div 100 \<le> (Y + 1) div 4 - Y div 4"
    proof (cases "q = 24 \<and> a = 3")
      case True
      with Y have "Y + 1 = (4 * era + c + 1) * 100" "Y + 1 = (100 * era + 25 * c + 25) * 4" by simp_all
      then have "(Y + 1) div 100 = 4 * era + c + 1" "(Y + 1) div 4 = 100 * era + 25 * c + 25"
        by (metis nonzero_mult_div_cancel_right zero_neq_numeral)+
      with True show ?thesis by (simp add: d4 d100)
    next
      case False
      define k where "k = 4 * q + a + 1"
      have "0 \<le> k" "k \<le> 99" using False q' a by (auto simp: k_def)
      moreover have "Y + 1 = k + (4 * era + c) * 100" using Y by (simp add: k_def)
      ultimately have "(Y + 1) div 100 = 4 * era + c" by simp
      with mono show ?thesis by (simp add: d100)
    qed
    ultimately show ?thesis by (simp add: year_start_def)
  qed
qed

lemma civil_parts:
  assumes "civil_from_days days = (y, m, d)"
  obtains Y doy mp where "year_day days = (Y, doy)" "days = year_start Y + doy"
    "0 \<le> doy" "doy \<le> 365" "doy < year_start (Y + 1) - year_start Y"
    "mp = (5 * doy + 2) div 153" "0 \<le> mp" "mp \<le> 11"
    "y = (if mp < 10 then Y else Y + 1)" "m = (if mp < 10 then mp + 3 else mp - 9)"
    "d = doy - (153 * mp + 2) div 5 + 1" "12 * y + m = 12 * Y + mp + 3"
proof -
  obtain Y doy where yd: "year_day days = (Y, doy)" by fastforce
  define mp where "mp = (5 * doy + 2) div 153"
  note D = year_day [OF yd]
  have mp: "0 \<le> mp" "mp \<le> 11" using D by (simp_all add: mp_def)
  have eqs: "y = (if mp < 10 then Y else Y + 1)" "m = (if mp < 10 then mp + 3 else mp - 9)"
    "d = doy - (153 * mp + 2) div 5 + 1"
    using assms by (auto simp: civil_from_days_def yd mp_def Let_def)
  moreover have "12 * y + m = 12 * Y + mp + 3" by (simp add: eqs(1,2))
  ultimately show ?thesis using that [of Y doy mp] yd D mp by (simp add: mp_def)
qed

lemma civil_bounds:
  assumes "civil_from_days days = (y, m, d)"
  shows "1 \<le> m" "m \<le> 12" "1 \<le> d" "d \<le> 31"
proof -
  from assms obtain Y doy mp where p: "0 \<le> doy" "doy \<le> 365" "mp = (5 * doy + 2) div 153"
    "0 \<le> mp" "mp \<le> 11" "m = (if mp < 10 then mp + 3 else mp - 9)"
    "d = doy - (153 * mp + 2) div 5 + 1" by (rule civil_parts)
  have mp: "153 * mp \<le> 5 * doy + 2" "5 * doy + 2 < 153 * mp + 153"
    using p(3) by simp_all
  show "1 \<le> m" "m \<le> 12" using p by auto
  show "1 \<le> d" "d \<le> 31" using p(7) mp by linarith+
qed

lemma days_from_civil_from_days:
  assumes "civil_from_days days = (y, m, d)"
  shows "days_from_civil y m d = days"
proof -
  from assms obtain Y doy mp where p: "days = year_start Y + doy" "0 \<le> mp" "mp \<le> 11"
    "y = (if mp < 10 then Y else Y + 1)" "m = (if mp < 10 then mp + 3 else mp - 9)"
    "d = doy - (153 * mp + 2) div 5 + 1" by (rule civil_parts)
  have "(if m \<le> 2 then y - 1 else y) = Y" "(if m \<le> 2 then m + 9 else m - 3) = mp"
    using p(2,3) by (auto simp: p(4,5))
  then show ?thesis
    by (simp add: days_from_civil_def Let_def p(1,6) year_start_def del: if_split)
qed

lemma year_start_mono: "Y \<le> Y' \<Longrightarrow> year_start Y \<le> year_start Y'"
proof -
  assume "Y \<le> Y'"
  then have "Y div 4 \<le> Y' div 4" "Y div 400 \<le> Y' div 400" "Y' div 100 - Y div 100 \<le> Y' - Y"
    by (auto intro: zdiv_mono1)
  with \<open>Y \<le> Y'\<close> show ?thesis by (simp add: year_start_def)
qed

text \<open>A later day has a later date: the months counted from year 0, then the day.\<close>

lemma civil_mono:
  assumes "days < days'"
    and "civil_from_days days = (y, m, d)" and "civil_from_days days' = (y', m', d')"
  shows "12 * y + m < 12 * y' + m' \<or> (y = y' \<and> m = m' \<and> d < d')"
proof -
  from assms(2) obtain Y doy mp where p: "days = year_start Y + doy" "0 \<le> doy"
    "mp = (5 * doy + 2) div 153" "0 \<le> mp" "mp \<le> 11" "12 * y + m = 12 * Y + mp + 3"
    "y = (if mp < 10 then Y else Y + 1)" "m = (if mp < 10 then mp + 3 else mp - 9)"
    "d = doy - (153 * mp + 2) div 5 + 1" by (rule civil_parts)
  from assms(3) obtain Y' doy' mp' where p': "days' = year_start Y' + doy'"
    "doy' < year_start (Y' + 1) - year_start Y'"
    "mp' = (5 * doy' + 2) div 153" "0 \<le> mp'" "mp' \<le> 11" "12 * y' + m' = 12 * Y' + mp' + 3"
    "y' = (if mp' < 10 then Y' else Y' + 1)" "m' = (if mp' < 10 then mp' + 3 else mp' - 9)"
    "d' = doy' - (153 * mp' + 2) div 5 + 1" by (rule civil_parts)
  have "Y \<le> Y'"
  proof (rule ccontr)
    assume "\<not> Y \<le> Y'"
    then have "year_start (Y' + 1) \<le> year_start Y" by (intro year_start_mono) simp
    with p(1,2) p'(1,2) assms(1) show False by linarith
  qed
  then consider "Y < Y'" | "Y = Y'" by linarith
  then show ?thesis
  proof cases
    case 1
    with p(4-6) p'(4-6) show ?thesis by linarith
  next
    case 2
    with p(1) p'(1) assms(1) have "doy < doy'" by simp
    then have "mp \<le> mp'" by (simp add: p(3) p'(3) zdiv_mono1)
    then consider "mp < mp'" | "mp = mp'" by linarith
    then show ?thesis
    proof cases
      case 1
      with 2 p(6) p'(6) show ?thesis by simp
    next
      case same: 2
      have "y = y'" "m = m'" by (simp_all only: p(7,8) p'(7,8) 2 same)
      moreover have "d < d'" using \<open>doy < doy'\<close> by (simp add: p(9) p'(9) same)
      ultimately show ?thesis by simp
    qed
  qed
qed

section \<open>Stamps\<close>

text \<open>\<open>new Date(ms).toISOString()\<close> without its fraction and zone, as \<open>nowIso\<close> leaves it.\<close>

definition iso_date :: "int \<Rightarrow> int \<Rightarrow> int \<Rightarrow> string" where
  "iso_date y m d =
     (if 0 \<le> y \<and> y \<le> 9999 then pad_nat 4 (nat y)
      else (if y < 0 then ''-'' else ''+'') @ pad_nat 6 (nat \<bar>y\<bar>))
     @ ''-'' @ pad_nat 2 (nat m) @ ''-'' @ pad_nat 2 (nat d)"

definition iso_time :: "int \<Rightarrow> string" where
  "iso_time sod =
     pad_nat 2 (nat (sod div 3600)) @ '':'' @ pad_nat 2 (nat (sod div 60 mod 60))
     @ '':'' @ pad_nat 2 (nat (sod mod 60))"

definition iso_of_ms :: "int \<Rightarrow> string" where
  "iso_of_ms ms =
     (let secs = ms div 1000 in
      case civil_from_days (secs div 86400) of (y, m, d) \<Rightarrow>
        iso_date y m d @ ''T'' @ iso_time (secs mod 86400))"

text \<open>\<open>nowIso(date)\<close>.\<close>

definition nowIso :: "int \<Rightarrow> string" where
  "nowIso ms = iso_of_ms ms"

text \<open>\<open>Date.parse\<close> of a text that ends in \<open>Z\<close>: the date and the time of day, split at \<open>T\<close>.\<close>

definition num_in :: "string \<Rightarrow> int \<Rightarrow> int \<Rightarrow> int option" where
  "num_in s lo hi =
     (if s = [] then None else
      case nat_of_digits 0 s of
        Some n \<Rightarrow> if lo \<le> int n \<and> int n \<le> hi then Some (int n) else None
      | None \<Rightarrow> None)"

definition parse_date_part :: "string \<Rightarrow> int option" where
  "parse_date_part s =
     (if length s = 10 \<and> s ! 4 = CHR ''-'' \<and> s ! 7 = CHR ''-'' then
        (case (num_in (take 4 s) 0 9999, num_in (take 2 (drop 5 s)) 1 12, num_in (drop 8 s) 1 31) of
           (Some y, Some m, Some d) \<Rightarrow> Some (days_from_civil y m d)
         | _ \<Rightarrow> None)
      else None)"

text \<open>The milliseconds of the day of \<open>HH:mm\<close>, \<open>HH:mm:ss\<close> or \<open>HH:mm:ss.f...\<close>.\<close>

definition parse_seconds :: "string \<Rightarrow> int option" where
  "parse_seconds s =
     (if s = [] then Some 0
      else if hd s \<noteq> CHR '':'' then None
      else if length s = 3 then map_option (\<lambda>x. x * 1000) (num_in (drop 1 s) 0 59)
      else if 4 < length s \<and> s ! 3 = CHR ''.'' then
        (case (num_in (take 2 (drop 1 s)) 0 59, nat_of_digits 0 (take 3 (drop 4 s @ ''00'')),
               nat_of_digits 0 (drop 4 s)) of
           (Some x, Some f, Some _) \<Rightarrow> Some (x * 1000 + int f)
         | _ \<Rightarrow> None)
      else None)"

definition parse_time_part :: "string \<Rightarrow> int option" where
  "parse_time_part s =
     (if 5 \<le> length s \<and> s ! 2 = CHR '':'' then
        (case (num_in (take 2 s) 0 24, num_in (take 2 (drop 3 s)) 0 59, parse_seconds (drop 5 s)) of
           (Some h, Some mi, Some ms) \<Rightarrow>
             if h = 24 \<and> (mi \<noteq> 0 \<or> ms \<noteq> 0) then None
             else Some (h * 3600000 + mi * 60000 + ms)
         | _ \<Rightarrow> None)
      else None)"

definition date_parse :: "string \<Rightarrow> int option" where
  "date_parse s =
     (if length s = 0 \<or> last s \<noteq> CHR ''Z'' \<or> length s < 12 \<or> s ! 10 \<noteq> CHR ''T'' then None
      else (case (parse_date_part (take 10 s), parse_time_part (drop 11 (butlast s))) of
              (Some days, Some ms) \<Rightarrow> Some (days * 86400000 + ms)
            | _ \<Rightarrow> None))"

text \<open>\<open>parseIso(value)\<close>: a missing zone is read as UTC.\<close>

definition parseIso :: "string option \<Rightarrow> int option" where
  "parseIso value =
     (if \<not> truthy value then None
      else let v = the value in date_parse (if last v = CHR ''Z'' then v else v @ ''Z''))"

lemma parseIso_unset [simp]: "parseIso None = None" "parseIso (Some []) = None"
  by (simp_all add: parseIso_def)

text \<open>The instants whose year has four digits.\<close>

definition iso_range :: "int \<Rightarrow> bool" where
  "iso_range ms \<longleftrightarrow> -62167219200000 \<le> ms \<and> ms < 253402300800000"

lemma civil_year_range:
  assumes "civil_from_days days = (y, m, d)" and "-719528 \<le> days" and "days < 2932897"
  shows "0 \<le> y" "y \<le> 9999"
proof -
  have first: "civil_from_days (-719528) = (0, 1, 1)" and last: "civil_from_days 2932896 = (9999, 12, 31)"
    by code_simp+
  have m: "1 \<le> m" "m \<le> 12" using civil_bounds [OF assms(1)] by simp_all
  show "0 \<le> y"
  proof (cases "days = -719528")
    case True
    with first assms(1) show ?thesis by simp
  next
    case False
    with assms(2) have "-719528 < days" by simp
    from civil_mono [OF this first assms(1)] m show ?thesis by auto
  qed
  show "y \<le> 9999"
  proof (cases "days = 2932896")
    case True
    with last assms(1) show ?thesis by simp
  next
    case False
    with assms(3) have "days < 2932896" by simp
    from civil_mono [OF this assms(1) last] m show ?thesis by auto
  qed
qed

lemma iso_range_days:
  "iso_range ms \<Longrightarrow> -719528 \<le> ms div 1000 div 86400 \<and> ms div 1000 div 86400 < 2932897"
  by (auto simp: iso_range_def zdiv_zmult2_eq [symmetric])

lemma num_in_pad:
  assumes "int n \<le> hi" "lo \<le> int n" "n < 10 ^ w" "0 < w"
  shows "num_in (pad_nat w n) lo hi = Some (int n)"
  using assms by (simp add: num_in_def nat_of_digits_pad)

subsection \<open>Fixed-width text is ordered as its numbers\<close>

lemma append_less_head:
  "length u = length u' \<Longrightarrow> (u :: string) < u' \<Longrightarrow> u @ v < u' @ v'"
  by (simp add: list_less_def lexord_sufI)

lemma append_less_tail: "(v :: string) < v' \<Longrightarrow> u @ v < u @ v'"
  by (simp add: list_less_def lexord_append_leftI)

lemma Cons_less_tail: "(v :: string) < v' \<Longrightarrow> c # v < c # v'"
  using append_less_tail [of v v' "[c]"] by simp

lemma pad_nat_less: "m < n \<Longrightarrow> n < 10 ^ w \<Longrightarrow> pad_nat w m < pad_nat w n"
proof (induction w arbitrary: m n)
  case 0
  then show ?case by simp
next
  case (Suc w)
  have n: "n div 10 < 10 ^ w" using Suc.prems(2) by auto
  consider "m div 10 < n div 10" | "m div 10 = n div 10" "m mod 10 < n mod 10"
    using Suc.prems(1) by (metis div_mult_mod_eq div_le_mono linorder_less_linear nat_add_left_cancel_less not_less order_less_imp_le)
  then show ?case
  proof cases
    case 1
    with n have "pad_nat w (m div 10) < pad_nat w (n div 10)" by (intro Suc.IH)
    then show ?thesis by (simp add: append_less_head)
  next
    case 2
    have "(char_of (m mod 10 + 48) :: char) < char_of (n mod 10 + 48)"
      using 2(2) by (simp add: less_char_def)
    with 2(1) show ?thesis by (simp add: append_less_tail)
  qed
qed

lemma pad_nat_less_int:
  "0 \<le> i \<Longrightarrow> i < j \<Longrightarrow> j < 10 ^ w \<Longrightarrow> pad_nat w (nat i) < pad_nat w (nat j)"
  by (rule pad_nat_less) (simp_all add: nat_less_iff)

lemma iso_date_less:
  assumes "12 * y + m < 12 * y' + m' \<or> (y = y' \<and> m = m' \<and> d < d')"
    and "0 \<le> y" "y' \<le> 9999" "1 \<le> m" "m \<le> 12" "1 \<le> m'" "m' \<le> 12" "1 \<le> d" "d' \<le> 31"
  shows "iso_date y m d @ u < iso_date y' m' d' @ u'"
proof -
  have y: "0 \<le> y'" "y \<le> 9999" using assms by auto
  consider "y < y'" | "y = y'" "m < m'" | "y = y'" "m = m'" "d < d'"
    using assms by linarith
  then show ?thesis
  proof cases
    case 1
    with assms y have "pad_nat 4 (nat y) < pad_nat 4 (nat y')" by (intro pad_nat_less_int) simp_all
    with assms y show ?thesis by (simp add: iso_date_def append_less_head)
  next
    case 2
    with assms have "pad_nat 2 (nat m) < pad_nat 2 (nat m')" by (intro pad_nat_less_int) simp_all
    with assms y 2 show ?thesis
      by (simp add: iso_date_def append_less_head append_less_tail Cons_less_tail)
  next
    case 3
    with assms have "pad_nat 2 (nat d) < pad_nat 2 (nat d')" by (intro pad_nat_less_int) simp_all
    with assms y 3 show ?thesis
      by (simp add: iso_date_def append_less_head append_less_tail Cons_less_tail)
  qed
qed

lemma sod_parts: "(s :: int) = 3600 * (s div 3600) + 60 * (s div 60 mod 60) + s mod 60"
proof -
  have "s div 3600 = s div 60 div 60" using zdiv_zmult2_eq [of 60 s 60] by simp
  moreover have "s = 60 * (s div 60) + s mod 60" by simp
  moreover have "s div 60 = 60 * (s div 60 div 60) + s div 60 mod 60" by simp
  ultimately show ?thesis by linarith
qed

lemma iso_time_less:
  assumes "0 \<le> s" "s < s'" "s' < 86400"
  shows "iso_time s < iso_time s'"
proof -
  define h h' where "h = s div 3600" and "h' = s' div 3600"
  define mi mi' where "mi = s div 60 mod 60" and "mi' = s' div 60 mod 60"
  define x x' where "x = s mod 60" and "x' = s' mod 60"
  have s: "s = 3600 * h + 60 * mi + x" "s' = 3600 * h' + 60 * mi' + x'"
    unfolding h_def h'_def mi_def mi'_def x_def x'_def by (rule sod_parts)+
  have b: "0 \<le> h" "h' \<le> 23" "0 \<le> mi" "mi < 60" "0 \<le> mi'" "mi' < 60" "0 \<le> x" "x < 60" "0 \<le> x'" "x' < 60"
    using assms by (simp_all add: h_def h'_def mi_def mi'_def x_def x'_def)
  consider "h < h'" | "h = h'" "mi < mi'" | "h = h'" "mi = mi'" "x < x'"
    using s b assms(2) by linarith
  then have "pad_nat 2 (nat h) @ '':'' @ pad_nat 2 (nat mi) @ '':'' @ pad_nat 2 (nat x)
      < pad_nat 2 (nat h') @ '':'' @ pad_nat 2 (nat mi') @ '':'' @ pad_nat 2 (nat x')"
  proof cases
    case 1
    with b have "pad_nat 2 (nat h) < pad_nat 2 (nat h')" by (intro pad_nat_less_int) simp_all
    then show ?thesis by (simp add: append_less_head)
  next
    case 2
    with b have "pad_nat 2 (nat mi) < pad_nat 2 (nat mi')" by (intro pad_nat_less_int) simp_all
    with 2 show ?thesis by (simp add: append_less_head append_less_tail Cons_less_tail)
  next
    case 3
    with b have "pad_nat 2 (nat x) < pad_nat 2 (nat x')" by (intro pad_nat_less_int) simp_all
    with 3 show ?thesis by (simp add: append_less_tail Cons_less_tail)
  qed
  then show ?thesis
    unfolding iso_time_def h_def h'_def mi_def mi'_def x_def x'_def .
qed

text \<open>An earlier second has a smaller stamp.\<close>

lemma nowIso_less:
  assumes a: "iso_range a" and b: "iso_range b" and less: "a div 1000 < b div 1000"
  shows "nowIso a < nowIso b"
proof -
  obtain y m d where c: "civil_from_days (a div 1000 div 86400) = (y, m, d)" by (metis prod_cases3)
  obtain y' m' d' where c': "civil_from_days (b div 1000 div 86400) = (y', m', d')" by (metis prod_cases3)
  note range = civil_year_range [OF c] iso_range_days [OF a] civil_year_range [OF c'] iso_range_days [OF b]
  have le: "a div 1000 div 86400 \<le> b div 1000 div 86400" using less by (simp add: zdiv_mono1)
  show ?thesis
  proof (cases "a div 1000 div 86400 = b div 1000 div 86400")
    case True
    have "a div 1000 mod 86400 < b div 1000 mod 86400"
      using less True by (metis add_less_cancel_left div_mult_mod_eq mult.commute)
    then have "iso_time (a div 1000 mod 86400) < iso_time (b div 1000 mod 86400)"
      by (intro iso_time_less) simp_all
    with True c c' show ?thesis
      by (simp add: nowIso_def iso_of_ms_def Let_def append_less_tail Cons_less_tail)
  next
    case False
    with le have "a div 1000 div 86400 < b div 1000 div 86400" by simp
    from civil_mono [OF this c c'] range civil_bounds [OF c] civil_bounds [OF c'] c c'
    show ?thesis
      by (simp add: nowIso_def iso_of_ms_def Let_def iso_date_less)
  qed
qed

lemma nowIso_same_second: "a div 1000 = b div 1000 \<Longrightarrow> nowIso a = nowIso b"
  by (simp add: nowIso_def iso_of_ms_def)

lemma nowIso_less_iff:
  "iso_range a \<Longrightarrow> iso_range b \<Longrightarrow> nowIso a < nowIso b \<longleftrightarrow> a div 1000 < b div 1000"
  using nowIso_less [of a b] nowIso_less [of b a] nowIso_same_second [of a b]
  by (metis linorder_less_linear order_less_asym order_less_irrefl)

subsection \<open>A stamp read back\<close>

lemma nth_append_at: "length u = n \<Longrightarrow> (u @ c # v) ! n = c"
  by (simp add: nth_append)

lemma parse_iso_date:
  assumes "0 \<le> y" "y \<le> 9999" "1 \<le> m" "m \<le> 12" "1 \<le> d" "d \<le> 31"
  shows "parse_date_part (iso_date y m d) = Some (days_from_civil y m d)"
proof -
  have eq: "iso_date y m d = pad_nat 4 (nat y) @ CHR ''-'' # pad_nat 2 (nat m) @ CHR ''-'' # pad_nat 2 (nat d)"
    using assms by (simp add: iso_date_def)
  have n: "num_in (pad_nat 4 (nat y)) 0 9999 = Some y" "num_in (pad_nat 2 (nat m)) 1 12 = Some m"
    "num_in (pad_nat 2 (nat d)) 1 31 = Some d"
    using assms by (subst num_in_pad; simp)+
  have "iso_date y m d ! 4 = CHR ''-''" "iso_date y m d ! 7 = CHR ''-''"
    using nth_append_at [of "pad_nat 4 (nat y) @ CHR ''-'' # pad_nat 2 (nat m)" 7]
    by (simp_all add: eq nth_append_at)
  then show ?thesis
    by (simp add: parse_date_part_def n) (simp add: eq n)
qed

lemma parse_iso_time:
  assumes "0 \<le> s" "s < 86400"
  shows "parse_time_part (iso_time s) = Some (s * 1000)"
proof -
  define h mi x where "h = s div 3600" and "mi = s div 60 mod 60" and "x = s mod 60"
  have s: "s = 3600 * h + 60 * mi + x"
    unfolding h_def mi_def x_def by (rule sod_parts)
  have b: "0 \<le> h" "h \<le> 23" "0 \<le> mi" "mi < 60" "0 \<le> x" "x < 60"
    using assms by (simp_all add: h_def mi_def x_def)
  have n: "num_in (pad_nat 2 (nat h)) 0 24 = Some h" "num_in (pad_nat 2 (nat mi)) 0 59 = Some mi"
    "num_in (pad_nat 2 (nat x)) 0 59 = Some x"
    using b by (subst num_in_pad; simp)+
  have eq: "iso_time s = pad_nat 2 (nat h) @ CHR '':'' # pad_nat 2 (nat mi) @ CHR '':'' # pad_nat 2 (nat x)"
    by (simp add: iso_time_def h_def mi_def x_def)
  have "parse_seconds (CHR '':'' # pad_nat 2 (nat x)) = Some (x * 1000)"
    by (simp add: parse_seconds_def n)
  moreover have "iso_time s ! 2 = CHR '':''" by (simp add: eq nth_append_at)
  ultimately have "parse_time_part (iso_time s) = Some (h * 3600000 + mi * 60000 + x * 1000)"
    using b by (simp add: parse_time_part_def) (simp add: eq n)
  then show ?thesis by (simp add: s)
qed

lemma last_iso_time: "last (iso_time s) \<noteq> CHR ''Z''"
proof -
  have "last (iso_time s) = char_of (nat (s mod 60) mod 10 + 48)"
    by (simp add: iso_time_def numeral_2_eq_2)
  moreover have "char_of (k mod 10 + 48) \<noteq> CHR ''Z''" for k :: nat
  proof
    assume "char_of (k mod 10 + 48) = CHR ''Z''"
    then have "(of_char (char_of (k mod 10 + 48) :: char) :: nat) = of_char (CHR ''Z'')" by simp
    then show False by simp
  qed
  ultimately show ?thesis by simp
qed

lemma length_iso_time [simp]: "length (iso_time s) = 8"
  by (simp add: iso_time_def)

lemma parseIso_nowIso:
  assumes "iso_range ms"
  shows "parseIso (Some (nowIso ms)) = Some (ms div 1000 * 1000)"
proof -
  obtain y m d where c: "civil_from_days (ms div 1000 div 86400) = (y, m, d)" by (metis prod_cases3)
  note y = civil_year_range [OF c] iso_range_days [OF assms]
  note b = civil_bounds [OF c]
  define D T where "D = iso_date y m d" and "T = iso_time (ms div 1000 mod 86400)"
  have v: "nowIso ms = D @ CHR ''T'' # T"
    by (simp add: nowIso_def iso_of_ms_def Let_def c D_def T_def)
  have len: "length D = 10" "length T = 8" using y by (simp_all add: D_def T_def iso_date_def)
  have "T \<noteq> []" using len(2) by auto
  then have z: "last (nowIso ms) \<noteq> CHR ''Z''"
    using last_iso_time by (simp add: v T_def)
  have "date_parse (nowIso ms @ ''Z'')
      = Some (days_from_civil y m d * 86400000 + ms div 1000 mod 86400 * 1000)"
    using len y b parse_iso_date [of y m d] parse_iso_time [of "ms div 1000 mod 86400"]
    by (simp add: date_parse_def v butlast_append nth_append_at) (simp add: D_def T_def)
  moreover have "days_from_civil y m d * 86400000 + ms div 1000 mod 86400 * 1000 = ms div 1000 * 1000"
    unfolding days_from_civil_from_days [OF c]
    using div_mult_mod_eq [of "ms div 1000" 86400] by linarith
  ultimately show ?thesis using z by (simp add: parseIso_def v)
qed

end
