(* ===== verification/Domain.thy ===== *)
theory Domain
  imports Json IsoTime
begin

text \<open>
  The data of the Runtime (\<open>runtime/src/domain/types.ts\<close>): the Things as records, with an
  optional field as an \<open>option\<close>, the closed enumerations of the state machine as datatypes, and
  the identifiers of a Thing. Field names are the source's; where two records share a name, the
  record's initial is put before it.
\<close>

section \<open>Models and identifiers\<close>

datatype thing_model =
    Party_DM | Document_DM | Invoice_DM | Process_DM | Assistant_DM | Operation_DM
  | Conversation_DM | OpenQuestion_DM | RuntimeState_DM

fun model_name :: "thing_model \<Rightarrow> string" where
  "model_name Party_DM = ''Party_DM''"
| "model_name Document_DM = ''Document_DM''"
| "model_name Invoice_DM = ''Invoice_DM''"
| "model_name Process_DM = ''Process_DM''"
| "model_name Assistant_DM = ''Assistant_DM''"
| "model_name Operation_DM = ''Operation_DM''"
| "model_name Conversation_DM = ''Conversation_DM''"
| "model_name OpenQuestion_DM = ''OpenQuestion_DM''"
| "model_name RuntimeState_DM = ''RuntimeState_DM''"

lemma model_name_inject [simp]: "model_name m = model_name n \<longleftrightarrow> m = n"
  by (cases m; cases n) simp_all

text \<open>The Models whose Things may give birth to a Conversation.\<close>

definition TRIGGER_ELIGIBLE_MODELS :: "thing_model list" where
  "TRIGGER_ELIGIBLE_MODELS = [Document_DM, Invoice_DM, Process_DM, Party_DM]"

definition isTriggerEligible :: "string \<Rightarrow> bool" where
  "isTriggerEligible m \<longleftrightarrow> m \<in> set (map model_name TRIGGER_ELIGIBLE_MODELS)"

text \<open>\<open>Model/thingId\<close> and its two halves.\<close>

definition thingIdOf :: "string \<Rightarrow> string" where
  "thingIdOf docRef = (if CHR ''/'' \<in> set docRef then after_char (CHR ''/'') docRef else docRef)"

definition modelOf :: "string \<Rightarrow> string" where
  "modelOf docRef = (if CHR ''/'' \<in> set docRef then before_char (CHR ''/'') docRef else [])"

definition docRefOf :: "string \<Rightarrow> string \<Rightarrow> string" where
  "docRefOf m thingId = m @ ''/'' @ thingId"

lemma thingIdOf_docRefOf: "CHR ''/'' \<notin> set m \<Longrightarrow> thingIdOf (docRefOf m i) = i"
  by (simp add: thingIdOf_def docRefOf_def after_char_append)

lemma modelOf_docRefOf: "CHR ''/'' \<notin> set m \<Longrightarrow> modelOf (docRefOf m i) = m"
  by (simp add: modelOf_def docRefOf_def before_char_append)

lemma docRefOf_parts: "CHR ''/'' \<in> set r \<Longrightarrow> docRefOf (modelOf r) (thingIdOf r) = r"
  using before_after_char by (simp add: thingIdOf_def modelOf_def docRefOf_def)

section \<open>Things\<close>

record machine_fields =
  idempotencyKey :: "string option"
  createdByConversationId :: "string option"
  createdAt :: "string option"
  updatedAt :: "string option"

record party = machine_fields +
  p_kind :: "string option"
  p_role :: "string option"
  p_name :: "string option"
  legalName :: "string option"
  email :: "string option"
  phone :: "string option"
  street :: "string option"
  postcode :: "string option"
  city :: "string option"
  country :: "string option"
  iban :: "string option"
  p_notes :: "string option"

record document_thing = machine_fields +
  d_title :: "string option"
  receivedAt :: "string option"
  d_source :: "string option"
  mediaType :: "string option"
  externalRef :: "string option"
  extractedText :: "string option"
  classification :: "string option"
  classifiedThingId :: "string option"
  classifiedModel :: "string option"
  classificationNote :: "string option"

record invoice = machine_fields +
  invoiceNumber :: "string option"
  issuedByPartyThingId :: "string option"
  issuerName :: "string option"
  issueDate :: "string option"
  dueDate :: "string option"
  serviceDate :: "string option"
  amountGross :: "js_num option"
  amountNet :: "js_num option"
  currency :: "string option"
  i_subject :: "string option"
  recipientName :: "string option"
  documentThingId :: "string option"
  processThingId :: "string option"
  i_notes :: "string option"

record process_step =
  step_seq :: "int option"
  step_title :: "string option"
  step_state :: "string option"
  step_note :: "string option"
  doneAt :: "string option"

record process_related =
  related_thingId :: "string option"
  related_model :: "string option"
  related_note :: "string option"

record process_thing = machine_fields +
  pr_title :: "string option"
  pr_kind :: "string option"
  pr_status :: "string option"
  pr_summary :: "string option"
  steps :: "process_step list option"
  related :: "process_related list option"

subsection \<open>Assistants\<close>

record skill =
  sk_name :: "string option"
  instructions :: "string option"

record trigger =
  t_kind :: "string option"
  modelFilter :: "string option"
  cron :: "string option"

record grant =
  operationKey :: "string option"

record assistant = machine_fields +
  a_key :: "string option"
  a_name :: "string option"
  a_description :: "string option"
  systemPrompt :: "string option"
  llmModel :: "string option"
  a_enabled :: "bool option"
  a_maxTurns :: "int option"
  skills :: "skill list option"
  triggers :: "trigger list option"
  grants :: "grant list option"

subsection \<open>The Operation catalogue\<close>

datatype implementation_kind = BuiltIn | Dynamic
datatype operation_language = Typescript | Javascript

record operation = machine_fields +
  o_key :: "string option"
  o_name :: "string option"
  o_system :: "string option"
  o_kind :: "string option"
  o_description :: "string option"
  o_parameters :: "string option"
  o_mutating :: "bool option"
  o_requiresApproval :: "bool option"
  o_enabled :: "bool option"
  o_notes :: "string option"
  o_implementation :: "implementation_kind option"
  o_source :: "string option"
  o_language :: "operation_language option"
  o_egress :: "string option"
  o_timeoutMs :: "int option"
  o_clientReadable :: "bool option"

subsection \<open>Conversations\<close>

datatype conversation_status = Running | Waiting | Done | Failed

text \<open>\<open>WF_None\<close> is the empty string that clears the field; an unset field is \<open>None\<close>.\<close>

datatype waiting_for = WF_None | WF_User | WF_Tool | WF_Assistant

datatype finish_reason = FR_None | Answered | WantsTools | LengthReached | Limit | ErrorReason

record entry =
  e_seq :: "int option"
  e_at :: "string option"
  e_role :: "string option"
  e_kind :: "string option"
  e_text :: "string option"
  e_toolName :: "string option"
  e_toolArgs :: "string option"
  e_toolResult :: "string option"
  e_idempotencyKey :: "string option"
  e_questionId :: "string option"
  e_argsHash :: "string option"
  e_promptTokens :: "js_num option"
  e_completionTokens :: "js_num option"

definition blank_entry :: entry where
  "blank_entry = \<lparr>e_seq = None, e_at = None, e_role = None, e_kind = None, e_text = None,
     e_toolName = None, e_toolArgs = None, e_toolResult = None, e_idempotencyKey = None,
     e_questionId = None, e_argsHash = None, e_promptTokens = None, e_completionTokens = None\<rparr>"

record conversation = machine_fields +
  assistantKey :: "string option"
  c_title :: "string option"
  subjectThingId :: "string option"
  subjectModel :: "string option"
  scheduledFor :: "string option"
  status :: "conversation_status option"
  waitingFor :: "waiting_for option"
  finishReason :: "finish_reason option"
  turnCount :: "int option"
  maxTurns :: "int option"
  wakeAt :: "string option"
  leaseUntil :: "string option"
  parentConversationId :: "string option"
  currentQuestionId :: "string option"
  resultDeliveredAt :: "string option"
  escalationCount :: "int option"
  c_result :: "string option"
  c_lastError :: "string option"
  entries :: "entry list option"

text \<open>A Conversation none of whose fields is set.\<close>

definition blank_conversation :: conversation where
  "blank_conversation = \<lparr>idempotencyKey = None, createdByConversationId = None, createdAt = None,
     updatedAt = None, assistantKey = None, c_title = None, subjectThingId = None,
     subjectModel = None, scheduledFor = None, status = None, waitingFor = None,
     finishReason = None, turnCount = None, maxTurns = None, wakeAt = None, leaseUntil = None,
     parentConversationId = None, currentQuestionId = None, resultDeliveredAt = None,
     escalationCount = None, c_result = None, c_lastError = None, entries = None\<rparr>"

abbreviation entry_list :: "conversation \<Rightarrow> entry list" where
  "entry_list c \<equiv> coalesce (entries c) []"

subsection \<open>Open Questions and the Runtime's own state\<close>

record question_option =
  qo_value :: "string option"
  qo_label :: "string option"

record open_question = machine_fields +
  q_conversationId :: "string option"
  q_assistantKey :: "string option"
  q_seq :: "int option"
  q_kind :: "string option"
  q_subjectThingId :: "string option"
  q_prompt :: "string option"
  q_options :: "question_option list option"
  q_text :: "string option"
  q_choice :: "string option"
  q_confirmed :: "bool option"
  q_answeredAt :: "string option"

record runtime_state = machine_fields +
  singletonKey :: "string option"
  watermark :: "string option"
  watermarkDocRefs :: "string option list option"
  paused :: "bool option"
  birthsThisHour :: "int option"
  birthWindowStartedAt :: "string option"
  heartbeatAt :: "string option"
  rs_lastError :: "string option"

text \<open>A Thing as loaded: its identity with its fields.\<close>

record 'a stored =
  docRef :: string
  thingId :: string
  model :: string
  data :: 'a

definition map_stored :: "('a \<Rightarrow> 'b) \<Rightarrow> 'a stored \<Rightarrow> 'b stored" where
  "map_stored f s = \<lparr>docRef = docRef s, thingId = thingId s, model = model s, data = f (data s)\<rparr>"

lemma map_stored_simps [simp]:
  "docRef (map_stored f s) = docRef s" "thingId (map_stored f s) = thingId s"
  "model (map_stored f s) = model s" "data (map_stored f s) = f (data s)"
  by (simp_all add: map_stored_def)

end
