(* ===== verification/Documents.thy ===== *)
theory Documents
  imports Domain
begin

text \<open>
  How a Model maps onto an A12 document (first half of \<open>runtime/src/a12/things.ts\<close>): the table
  \<open>SPECS\<close>, the query path of a field, and the translation of a Thing's data into the nested
  document and back. A Thing's data travel as properties (\<open>props\<close>), as in the code.
\<close>

section \<open>Models as documents\<close>

record model_spec =
  ms_model :: thing_model
  ms_root :: string
  ms_fields :: "(string \<times> string) list"
  ms_groups :: "(string \<times> string \<times> (string \<times> string) list) list"

definition EXACT_MATCH_MAX_LENGTH :: nat where
  "EXACT_MATCH_MAX_LENGTH = 100"

definition MACHINE_FIELDS :: "(string \<times> string) list" where
  "MACHINE_FIELDS =
     [(''idempotencyKey'', ''IdempotencyKey''),
      (''createdByConversationId'', ''CreatedByConversationId''),
      (''createdAt'', ''CreatedAt''), (''updatedAt'', ''UpdatedAt'')]"

definition Party_spec :: model_spec where
  "Party_spec = \<lparr>ms_model = Party_DM, ms_root = ''Party'', ms_fields =
     [(''kind'', ''Kind''), (''role'', ''Role''), (''name'', ''Name''), (''legalName'', ''LegalName''),
      (''email'', ''Email''), (''phone'', ''Phone''), (''street'', ''Street''),
      (''postcode'', ''Postcode''), (''city'', ''City''), (''country'', ''Country''),
      (''iban'', ''Iban''), (''notes'', ''Notes'')] @ MACHINE_FIELDS, ms_groups = []\<rparr>"

definition Document_spec :: model_spec where
  "Document_spec = \<lparr>ms_model = Document_DM, ms_root = ''Document'', ms_fields =
     [(''title'', ''Title''), (''receivedAt'', ''ReceivedAt''), (''source'', ''Source''),
      (''mediaType'', ''MediaType''), (''externalRef'', ''ExternalRef''),
      (''extractedText'', ''ExtractedText''), (''classification'', ''Classification''),
      (''classifiedThingId'', ''ClassifiedThingId''), (''classifiedModel'', ''ClassifiedModel''),
      (''classificationNote'', ''ClassificationNote'')] @ MACHINE_FIELDS, ms_groups = []\<rparr>"

definition Invoice_spec :: model_spec where
  "Invoice_spec = \<lparr>ms_model = Invoice_DM, ms_root = ''Invoice'', ms_fields =
     [(''invoiceNumber'', ''InvoiceNumber''), (''issuedByPartyThingId'', ''IssuedByPartyThingId''),
      (''issuerName'', ''IssuerName''), (''issueDate'', ''IssueDate''), (''dueDate'', ''DueDate''),
      (''serviceDate'', ''ServiceDate''), (''amountGross'', ''AmountGross''),
      (''amountNet'', ''AmountNet''), (''currency'', ''Currency''), (''subject'', ''Subject''),
      (''recipientName'', ''RecipientName''), (''documentThingId'', ''DocumentThingId''),
      (''processThingId'', ''ProcessThingId''), (''notes'', ''Notes'')] @ MACHINE_FIELDS,
     ms_groups = []\<rparr>"

definition Process_spec :: model_spec where
  "Process_spec = \<lparr>ms_model = Process_DM, ms_root = ''Process'', ms_fields =
     [(''title'', ''Title''), (''kind'', ''Kind''), (''status'', ''Status''),
      (''summary'', ''Summary'')] @ MACHINE_FIELDS,
     ms_groups =
     [(''steps'', ''Steps'', [(''seq'', ''Seq''), (''title'', ''Title''), (''state'', ''State''),
         (''note'', ''Note''), (''doneAt'', ''DoneAt'')]),
      (''related'', ''Related'', [(''thingId'', ''ThingId''), (''model'', ''Model''), (''note'', ''Note'')])]\<rparr>"

definition Assistant_spec :: model_spec where
  "Assistant_spec = \<lparr>ms_model = Assistant_DM, ms_root = ''Assistant'', ms_fields =
     [(''key'', ''Key''), (''name'', ''Name''), (''description'', ''Description''),
      (''systemPrompt'', ''SystemPrompt''), (''llmModel'', ''LlmModel''), (''enabled'', ''Enabled''),
      (''maxTurns'', ''MaxTurns'')] @ MACHINE_FIELDS,
     ms_groups =
     [(''skills'', ''Skills'', [(''name'', ''SkillName''), (''instructions'', ''SkillInstructions'')]),
      (''triggers'', ''Triggers'', [(''kind'', ''TriggerKind''),
         (''modelFilter'', ''TriggerModelFilter''), (''cron'', ''TriggerCron'')]),
      (''grants'', ''Grants'', [(''operationKey'', ''OperationKey'')])]\<rparr>"

definition Operation_spec :: model_spec where
  "Operation_spec = \<lparr>ms_model = Operation_DM, ms_root = ''Operation'', ms_fields =
     [(''key'', ''Key''), (''name'', ''Name''), (''system'', ''System''), (''kind'', ''Kind''),
      (''description'', ''Description''), (''mutating'', ''Mutating''),
      (''requiresApproval'', ''RequiresApproval''), (''enabled'', ''Enabled''), (''notes'', ''Notes''),
      (''parameters'', ''Parameters''), (''implementation'', ''Implementation''),
      (''source'', ''Source''), (''language'', ''Language''), (''egress'', ''Egress''),
      (''timeoutMs'', ''TimeoutMs''), (''clientReadable'', ''ClientReadable'')] @ MACHINE_FIELDS,
     ms_groups = []\<rparr>"

definition entry_fields :: "(string \<times> string) list" where
  "entry_fields =
     [(''seq'', ''Seq''), (''at'', ''At''), (''role'', ''Role''), (''kind'', ''Kind''),
      (''text'', ''Text''), (''toolName'', ''ToolName''), (''toolArgs'', ''ToolArgs''),
      (''toolResult'', ''ToolResult''), (''idempotencyKey'', ''IdempotencyKey''),
      (''questionId'', ''QuestionId''), (''argsHash'', ''ArgsHash''),
      (''promptTokens'', ''PromptTokens''), (''completionTokens'', ''CompletionTokens'')]"

definition Conversation_spec :: model_spec where
  "Conversation_spec = \<lparr>ms_model = Conversation_DM, ms_root = ''Conversation'', ms_fields =
     [(''assistantKey'', ''AssistantKey''), (''title'', ''Title''),
      (''subjectThingId'', ''SubjectThingId''), (''subjectModel'', ''SubjectModel''),
      (''scheduledFor'', ''ScheduledFor''), (''status'', ''Status''), (''waitingFor'', ''WaitingFor''),
      (''finishReason'', ''FinishReason''), (''turnCount'', ''TurnCount''), (''maxTurns'', ''MaxTurns''),
      (''wakeAt'', ''WakeAt''), (''leaseUntil'', ''LeaseUntil''),
      (''parentConversationId'', ''ParentConversationId''),
      (''currentQuestionId'', ''CurrentQuestionId''), (''resultDeliveredAt'', ''ResultDeliveredAt''),
      (''escalationCount'', ''EscalationCount''), (''result'', ''Result''),
      (''lastError'', ''LastError'')] @ MACHINE_FIELDS,
     ms_groups = [(''entries'', ''Entries'', entry_fields)]\<rparr>"

definition OpenQuestion_spec :: model_spec where
  "OpenQuestion_spec = \<lparr>ms_model = OpenQuestion_DM, ms_root = ''OpenQuestion'', ms_fields =
     [(''conversationId'', ''ConversationId''), (''assistantKey'', ''AssistantKey''), (''seq'', ''Seq''),
      (''kind'', ''Kind''), (''subjectThingId'', ''SubjectThingId''), (''prompt'', ''Prompt''),
      (''text'', ''Text''), (''choice'', ''Choice''), (''confirmed'', ''Confirmed''),
      (''answeredAt'', ''AnsweredAt'')] @ MACHINE_FIELDS,
     ms_groups = [(''options'', ''Options'', [(''value'', ''OptionValue''), (''label'', ''OptionLabel'')])]\<rparr>"

definition RuntimeState_spec :: model_spec where
  "RuntimeState_spec = \<lparr>ms_model = RuntimeState_DM, ms_root = ''RuntimeState'', ms_fields =
     [(''singletonKey'', ''SingletonKey''), (''watermark'', ''Watermark''), (''paused'', ''Paused''),
      (''birthsThisHour'', ''BirthsThisHour''), (''birthWindowStartedAt'', ''BirthWindowStartedAt''),
      (''heartbeatAt'', ''HeartbeatAt''), (''lastError'', ''LastError'')] @ MACHINE_FIELDS,
     ms_groups = [(''watermarkDocRefs'', ''WatermarkDocRefs'', [(''docRef'', ''DocRef'')])]\<rparr>"

fun SPECS :: "thing_model \<Rightarrow> model_spec" where
  "SPECS Party_DM = Party_spec"
| "SPECS Document_DM = Document_spec"
| "SPECS Invoice_DM = Invoice_spec"
| "SPECS Process_DM = Process_spec"
| "SPECS Assistant_DM = Assistant_spec"
| "SPECS Operation_DM = Operation_spec"
| "SPECS Conversation_DM = Conversation_spec"
| "SPECS OpenQuestion_DM = OpenQuestion_spec"
| "SPECS RuntimeState_DM = RuntimeState_spec"

lemmas spec_defs =
  Party_spec_def Document_spec_def Invoice_spec_def Process_spec_def Assistant_spec_def
  Operation_spec_def Conversation_spec_def OpenQuestion_spec_def RuntimeState_spec_def
  MACHINE_FIELDS_def entry_fields_def

text \<open>The query path of a scalar field, \<open>/Party/Name\<close>; a property without one is an error.\<close>

definition path :: "model_spec \<Rightarrow> string \<Rightarrow> string result" where
  "path spec property =
     (case map_of (ms_fields spec) property of
        Some f \<Rightarrow> Inr (''/'' @ ms_root spec @ ''/'' @ f)
      | None \<Rightarrow> Inl (JsError ''Error''
          (model_name (ms_model spec) @ '' has no scalar field '' @ [CHR 0x27] @ property @ [CHR 0x27])))"

text \<open>The path where the code names a property its spec has.\<close>

definition fieldPath :: "model_spec \<Rightarrow> string \<Rightarrow> string" where
  "fieldPath spec property = (case path spec property of Inr p \<Rightarrow> p | Inl _ \<Rightarrow> [])"

subsection \<open>Writing and reading a document\<close>

text \<open>The properties of a row that are set, under the names of the document.\<close>

definition rename :: "(string \<times> string) list \<Rightarrow> props \<Rightarrow> props" where
  "rename fs ps = concat (map (\<lambda>(a, b). case pget ps a of JUndef \<Rightarrow> [] | v \<Rightarrow> [(b, v)]) fs)"

definition flip_pairs :: "('a \<times> 'b) list \<Rightarrow> ('b \<times> 'a) list" where
  "flip_pairs fs = map (\<lambda>(a, b). (b, a)) fs"

text \<open>The properties of a value that is an object; any other value has none of ours.\<close>

definition obj_props :: "json \<Rightarrow> props" where
  "obj_props v = (case v of JObj ps \<Rightarrow> ps | _ \<Rightarrow> [])"

definition group_row :: "(string \<times> string) list \<Rightarrow> json \<Rightarrow> json" where
  "group_row fs row = JObj (rename fs (obj_props row))"

definition toDocument :: "model_spec \<Rightarrow> props \<Rightarrow> props" where
  "toDocument spec d =
     [(ms_root spec, JObj (rename (ms_fields spec) d
        @ concat (map (\<lambda>(property, name, fs).
              case pget d property of JArr rows \<Rightarrow> [(name, JArr (map (group_row fs) rows))] | _ \<Rightarrow> [])
            (ms_groups spec))))]"

definition fromDocument :: "model_spec \<Rightarrow> props \<Rightarrow> props" where
  "fromDocument spec document =
     (let body = obj_props (pget document (ms_root spec)) in
      rename (flip_pairs (ms_fields spec)) body
      @ concat (map (\<lambda>(property, name, fs).
            case pget body name of JArr rows \<Rightarrow> [(property, JArr (map (group_row (flip_pairs fs)) rows))] | _ \<Rightarrow> [])
          (ms_groups spec)))"

subsection \<open>What a document keeps of the data\<close>

definition wf_spec :: "model_spec \<Rightarrow> bool" where
  "wf_spec spec \<longleftrightarrow>
     distinct (map fst (ms_fields spec) @ map fst (ms_groups spec)) \<and>
     distinct (map snd (ms_fields spec) @ map (\<lambda>(_, g, _). g) (ms_groups spec)) \<and>
     list_all (\<lambda>(_, _, fs). distinct (map fst fs) \<and> distinct (map snd fs)) (ms_groups spec)"

lemma wf_SPECS_1: "wf_spec Party_spec" by code_simp
lemma wf_SPECS_2: "wf_spec Document_spec" by code_simp
lemma wf_SPECS_3: "wf_spec Invoice_spec" by code_simp
lemma wf_SPECS_4: "wf_spec Process_spec" by code_simp
lemma wf_SPECS_5: "wf_spec Assistant_spec" by code_simp
lemma wf_SPECS_6: "wf_spec Operation_spec" by code_simp
lemma wf_SPECS_7: "wf_spec Conversation_spec" by code_simp
lemma wf_SPECS_8: "wf_spec OpenQuestion_spec" by code_simp
lemma wf_SPECS_9: "wf_spec RuntimeState_spec" by code_simp

lemma wf_SPECS: "wf_spec (SPECS m)"
  by (cases m) (simp_all add: wf_SPECS_1 wf_SPECS_2 wf_SPECS_3 wf_SPECS_4 wf_SPECS_5 wf_SPECS_6
    wf_SPECS_7 wf_SPECS_8 wf_SPECS_9)

lemma rename_Nil [simp]: "rename [] ps = []"
  by (simp add: rename_def)

lemma rename_Cons:
  "rename ((a, b) # fs) ps = (if pget ps a = JUndef then [] else [(b, pget ps a)]) @ rename fs ps"
  by (simp add: rename_def split: json.split)

lemma keys_rename: "has_key (rename fs ps) b \<Longrightarrow> b \<in> snd ` set fs"
  by (induction fs) (auto simp: rename_Cons split: if_splits)

lemma rename_set: "has_key (rename fs ps) b \<Longrightarrow> distinct (map snd fs) \<Longrightarrow> pget (rename fs ps) b \<noteq> JUndef"
proof (induction fs)
  case (Cons f fs)
  then show ?case by (cases f) (auto simp: rename_Cons pget_append split: if_splits)
qed simp

lemma distinct_rename: "distinct (map snd fs) \<Longrightarrow> distinct (map fst (rename fs ps))"
proof (induction fs)
  case (Cons f fs)
  obtain a b where f: "f = (a, b)" by (cases f)
  from Cons.prems f have "\<not> has_key (rename fs ps) b" using keys_rename by auto
  with Cons f show ?case by (auto simp: rename_Cons has_key_def)
qed simp

lemma pget_rename_other: "b \<notin> snd ` set fs \<Longrightarrow> pget (rename fs ps) b = JUndef"
  using keys_rename by (intro pget_absent) blast

lemma pget_rename:
  "distinct (map snd fs) \<Longrightarrow> (a, b) \<in> set fs \<Longrightarrow> pget (rename fs ps) b = pget ps a"
proof (induction fs)
  case (Cons f fs)
  obtain a' b' where f: "f = (a', b')" by (cases f)
  show ?case
  proof (cases "(a, b) = f")
    case True
    with Cons.prems f have "b \<notin> snd ` set fs" by auto
    then have "pget (rename fs ps) b = JUndef" by (rule pget_rename_other)
    with True f show ?thesis by (auto simp: rename_Cons pget_append)
  next
    case False
    with Cons.prems have m: "(a, b) \<in> set fs" by simp
    moreover from m have "b \<noteq> b'" using Cons.prems(1) f by force
    ultimately show ?thesis using Cons f by (auto simp: rename_Cons pget_append)
  qed
qed simp

lemma flip_pairs_simps [simp]:
  "map fst (flip_pairs fs) = map snd fs" "map snd (flip_pairs fs) = map fst fs"
  "(b, a) \<in> set (flip_pairs fs) \<longleftrightarrow> (a, b) \<in> set fs"
  "snd ` set (flip_pairs fs) = fst ` set fs"
  by (force simp: flip_pairs_def)+

lemma pget_rename_flip:
  assumes "distinct (map fst fs)" "distinct (map snd fs)" "(a, b) \<in> set fs"
    and "pget body b = pget (rename fs ps) b"
  shows "pget (rename (flip_pairs fs) body) a = pget ps a"
  using assms pget_rename [of "flip_pairs fs" b a body] pget_rename [of fs a b ps] by simp

text \<open>The groups of a document, as \<open>toDocument\<close> and \<open>fromDocument\<close> both write them.\<close>

definition groups_part ::
  "props \<Rightarrow> (string \<times> string \<times> (json \<Rightarrow> json)) list \<Rightarrow> props" where
  "groups_part ps gs = concat (map (\<lambda>(src, dst, f).
     case pget ps src of JArr rows \<Rightarrow> [(dst, JArr (map f rows))] | _ \<Rightarrow> []) gs)"

definition group_value :: "(json \<Rightarrow> json) \<Rightarrow> json \<Rightarrow> json" where
  "group_value f v = (case v of JArr rows \<Rightarrow> JArr (map f rows) | _ \<Rightarrow> JUndef)"

lemma groups_part_Nil [simp]: "groups_part ps [] = []"
  by (simp add: groups_part_def)

lemma groups_part_Cons:
  "groups_part ps ((src, dst, f) # gs) =
     (if group_value f (pget ps src) = JUndef then [] else [(dst, group_value f (pget ps src))])
     @ groups_part ps gs"
  by (simp add: groups_part_def group_value_def split: json.split)

lemma keys_groups_part: "has_key (groups_part ps gs) k \<Longrightarrow> k \<in> (\<lambda>(_, dst, _). dst) ` set gs"
  by (induction gs) (auto simp: groups_part_Cons split: if_splits)

lemma distinct_groups_part:
  "distinct (map (\<lambda>(_, dst, _). dst) gs) \<Longrightarrow> distinct (map fst (groups_part ps gs))"
proof (induction gs)
  case (Cons g gs)
  obtain src dst f where g: "g = (src, dst, f)" by (metis prod_cases3)
  from Cons.prems g have "\<not> has_key (groups_part ps gs) dst" using keys_groups_part by auto
  with Cons g show ?case by (auto simp: groups_part_Cons has_key_def)
qed simp

lemma pget_groups_part_other:
  "k \<notin> (\<lambda>(_, dst, _). dst) ` set gs \<Longrightarrow> pget (groups_part ps gs) k = JUndef"
  using keys_groups_part by (intro pget_absent) blast

lemma pget_groups_part:
  "distinct (map (\<lambda>(_, dst, _). dst) gs) \<Longrightarrow> (src, dst, f) \<in> set gs \<Longrightarrow>
   pget (groups_part ps gs) dst = group_value f (pget ps src)"
proof (induction gs)
  case (Cons g gs)
  obtain src' dst' f' where g: "g = (src', dst', f')" by (metis prod_cases3)
  show ?case
  proof (cases "(src, dst, f) = g")
    case True
    then have "dst \<notin> (\<lambda>(_, dst, _). dst) ` set gs" using Cons.prems(1) g by auto
    then have "pget (groups_part ps gs) dst = JUndef" by (rule pget_groups_part_other)
    with True g show ?thesis by (auto simp: groups_part_Cons pget_append)
  next
    case False
    with Cons.prems have m: "(src, dst, f) \<in> set gs" by simp
    moreover from m have "dst \<noteq> dst'" using Cons.prems(1) g by force
    ultimately show ?thesis using Cons g by (auto simp: groups_part_Cons pget_append)
  qed
qed simp

definition document_body :: "model_spec \<Rightarrow> props \<Rightarrow> props" where
  "document_body spec d = rename (ms_fields spec) d
     @ groups_part d (map (\<lambda>(p, g, fs). (p, g, group_row fs)) (ms_groups spec))"

definition body_data :: "model_spec \<Rightarrow> props \<Rightarrow> props" where
  "body_data spec body = rename (flip_pairs (ms_fields spec)) body
     @ groups_part body (map (\<lambda>(p, g, fs). (g, p, group_row (flip_pairs fs))) (ms_groups spec))"

lemma toDocument_alt: "toDocument spec d = [(ms_root spec, JObj (document_body spec d))]"
  by (auto simp: toDocument_def document_body_def groups_part_def intro!: arg_cong [where f = concat])

lemma fromDocument_alt:
  "fromDocument spec doc = body_data spec (obj_props (pget doc (ms_root spec)))"
  by (auto simp: fromDocument_def body_data_def groups_part_def Let_def intro!: arg_cong [where f = concat])

subsection \<open>Reading back what was written\<close>

lemma wf_specD:
  assumes "wf_spec spec"
  shows "distinct (map fst (ms_fields spec))" "distinct (map snd (ms_fields spec))"
    "distinct (map fst (ms_groups spec))" "distinct (map (\<lambda>(_, g, _). g) (ms_groups spec))"
    "fst ` set (ms_fields spec) \<inter> fst ` set (ms_groups spec) = {}"
    "snd ` set (ms_fields spec) \<inter> (\<lambda>(_, g, _). g) ` set (ms_groups spec) = {}"
    "(p, g, fs) \<in> set (ms_groups spec) \<Longrightarrow> distinct (map fst fs) \<and> distinct (map snd fs)"
  using assms by (auto simp: wf_spec_def list_all_iff)

lemma comp_third: "(\<lambda>(_, dst, _). dst) \<circ> (\<lambda>(p, g, fs). (p, g, h fs)) = (\<lambda>(_, g, _). g)"
  "(\<lambda>(_, dst, _). dst) \<circ> (\<lambda>(p, g, fs). (g, p, h fs)) = fst"
  by (auto simp: fun_eq_iff)

lemma document_body_field:
  assumes "wf_spec spec" "(a, b) \<in> set (ms_fields spec)"
  shows "pget (document_body spec d) b = pget d a"
proof -
  from assms have "b \<notin> (\<lambda>(_, g, _). g) ` set (ms_groups spec)" using wf_specD(6) by force
  then have "pget (groups_part d (map (\<lambda>(p, g, fs). (p, g, group_row fs)) (ms_groups spec))) b = JUndef"
    by (intro pget_groups_part_other) force
  then show ?thesis
    using assms pget_rename [OF wf_specD(2)] pget_absent [of "rename (ms_fields spec) d" b]
    by (auto simp: document_body_def pget_append)
qed

lemma document_body_group:
  assumes "wf_spec spec" "(p, g, fs) \<in> set (ms_groups spec)"
  shows "pget (document_body spec d) g = group_value (group_row fs) (pget d p)"
proof -
  from assms have "g \<notin> snd ` set (ms_fields spec)" using wf_specD(6) by force
  then have "\<not> has_key (rename (ms_fields spec) d) g" using keys_rename by blast
  moreover have "pget (groups_part d (map (\<lambda>(p, g, fs). (p, g, group_row fs)) (ms_groups spec))) g
      = group_value (group_row fs) (pget d p)"
    using assms wf_specD(4) by (intro pget_groups_part) (force simp: comp_third)+
  ultimately show ?thesis by (simp add: document_body_def pget_append)
qed

lemma body_data_field:
  assumes "wf_spec spec" "(a, b) \<in> set (ms_fields spec)"
  shows "pget (body_data spec body) a = pget body b"
proof -
  from assms have "a \<notin> fst ` set (ms_groups spec)" using wf_specD(5) by force
  then have "pget (groups_part body
      (map (\<lambda>(p, g, fs). (g, p, group_row (flip_pairs fs))) (ms_groups spec))) a = JUndef"
    by (intro pget_groups_part_other) force
  moreover have "pget (rename (flip_pairs (ms_fields spec)) body) a = pget body b"
    using assms wf_specD(1) by (intro pget_rename) auto
  ultimately show ?thesis
    using pget_absent [of "rename (flip_pairs (ms_fields spec)) body" a]
    by (auto simp: body_data_def pget_append)
qed

lemma body_data_group:
  assumes "wf_spec spec" "(p, g, fs) \<in> set (ms_groups spec)"
  shows "pget (body_data spec body) p = group_value (group_row (flip_pairs fs)) (pget body g)"
proof -
  from assms have "p \<notin> fst ` set (ms_fields spec)" using wf_specD(5) by force
  then have "\<not> has_key (rename (flip_pairs (ms_fields spec)) body) p"
    using keys_rename [of "flip_pairs (ms_fields spec)" body p] by auto
  moreover have "pget (groups_part body
      (map (\<lambda>(p, g, fs). (g, p, group_row (flip_pairs fs))) (ms_groups spec))) p
      = group_value (group_row (flip_pairs fs)) (pget body g)"
    using assms wf_specD(3) by (intro pget_groups_part) (force simp: comp_third)+
  ultimately show ?thesis by (simp add: body_data_def pget_append)
qed

text \<open>A row read back has the row's own values under every property the Model knows.\<close>

lemma group_row_back:
  assumes "distinct (map fst fs)" "distinct (map snd fs)" "(a, b) \<in> set fs"
  shows "pget (obj_props (group_row (flip_pairs fs) (group_row fs row))) a = pget (obj_props row) a"
  using assms by (simp add: group_row_def obj_props_def [of "JObj _"] pget_rename_flip)

lemma document_body_other:
  assumes "k \<notin> snd ` set (ms_fields spec)" "k \<notin> (\<lambda>(_, g, _). g) ` set (ms_groups spec)"
  shows "\<not> has_key (document_body spec d) k"
  using assms keys_rename [of "ms_fields spec" d k]
    keys_groups_part [of d "map (\<lambda>(p, g, fs). (p, g, group_row fs)) (ms_groups spec)" k]
  by (force simp: document_body_def)

lemma distinct_document_body:
  assumes "wf_spec spec"
  shows "distinct (map fst (document_body spec d))"
proof -
  let ?gs = "map (\<lambda>(p, g, fs). (p, g, group_row fs)) (ms_groups spec)"
  have "distinct (map fst (groups_part d ?gs))"
    using wf_specD(4) [OF assms] by (intro distinct_groups_part) (simp add: comp_third)
  moreover have "distinct (map fst (rename (ms_fields spec) d))"
    using wf_specD(2) [OF assms] by (rule distinct_rename)
  moreover have "k \<notin> set (map fst (groups_part d ?gs))"
    if "k \<in> set (map fst (rename (ms_fields spec) d))" for k
  proof -
    from that have "k \<in> snd ` set (ms_fields spec)"
      using keys_rename [of "ms_fields spec" d k] by (simp add: has_key_def)
    then show ?thesis
      using keys_groups_part [of d ?gs k] wf_specD(6) [OF assms] by (force simp: has_key_def)
  qed
  ultimately show ?thesis by (auto simp: document_body_def)
qed

end
