(* ===== verification/Codecs.thy ===== *)
theory Codecs
  imports Documents
begin

text \<open>
  The typed records of \<open>Domain\<close> as the properties a document is made of, and back: what the casts
  \<open>as T\<close> and \<open>as Record<string, unknown>\<close> of \<open>runtime/src/a12/things.ts\<close> leave implicit. A field
  that is unset is the property \<open>undefined\<close>, which a document omits; a stored value of a type the
  Model does not declare for the field reads as unset.
\<close>

section \<open>Fields\<close>

definition j_str :: "string option \<Rightarrow> json" where
  "j_str v = (case v of None \<Rightarrow> JUndef | Some s \<Rightarrow> JStr s)"

definition j_int :: "int option \<Rightarrow> json" where
  "j_int v = (case v of None \<Rightarrow> JUndef | Some i \<Rightarrow> JNum (num_of_int i))"

definition j_num :: "js_num option \<Rightarrow> json" where
  "j_num v = (case v of None \<Rightarrow> JUndef | Some x \<Rightarrow> JNum x)"

definition j_bool :: "bool option \<Rightarrow> json" where
  "j_bool v = (case v of None \<Rightarrow> JUndef | Some b \<Rightarrow> JBool b)"

definition j_rows :: "('a \<Rightarrow> props) \<Rightarrow> 'a list option \<Rightarrow> json" where
  "j_rows f v = (case v of None \<Rightarrow> JUndef | Some xs \<Rightarrow> JArr (map (\<lambda>x. JObj (f x)) xs))"

definition as_str :: "json \<Rightarrow> string option" where
  "as_str v = (case v of JStr s \<Rightarrow> Some s | _ \<Rightarrow> None)"

definition as_num :: "json \<Rightarrow> js_num option" where
  "as_num v = (case v of JNum x \<Rightarrow> Some x | _ \<Rightarrow> None)"

definition as_int :: "json \<Rightarrow> int option" where
  "as_int v = (case v of JNum x \<Rightarrow> int_of_num x | _ \<Rightarrow> None)"

definition as_bool :: "json \<Rightarrow> bool option" where
  "as_bool v = (case v of JBool b \<Rightarrow> Some b | _ \<Rightarrow> None)"

definition as_rows :: "(props \<Rightarrow> 'a) \<Rightarrow> json \<Rightarrow> 'a list option" where
  "as_rows f v = (case v of JArr rows \<Rightarrow> Some (map (\<lambda>r. f (obj_props r)) rows) | _ \<Rightarrow> None)"

lemma as_j [simp]:
  "as_str (j_str s) = s" "as_int (j_int i) = i" "as_num (j_num x) = x" "as_bool (j_bool b) = b"
  by (simp_all add: as_str_def j_str_def as_int_def j_int_def as_num_def j_num_def as_bool_def
      j_bool_def split: option.split)

lemma as_rows_j [simp]:
  "(\<And>x. f (g x) = x) \<Longrightarrow> as_rows f (j_rows g v) = v"
  by (simp add: as_rows_def j_rows_def obj_props_def comp_def split: option.split)

text \<open>An enumeration travels as its text; a text outside it reads as unset.\<close>

fun status_name :: "conversation_status \<Rightarrow> string" where
  "status_name Running = ''running''"
| "status_name Waiting = ''waiting''"
| "status_name Done = ''done''"
| "status_name Failed = ''failed''"

fun waiting_name :: "waiting_for \<Rightarrow> string" where
  "waiting_name WF_None = ''''"
| "waiting_name WF_User = ''user''"
| "waiting_name WF_Tool = ''tool''"
| "waiting_name WF_Assistant = ''assistant''"

fun finish_name :: "finish_reason \<Rightarrow> string" where
  "finish_name FR_None = ''''"
| "finish_name Answered = ''answered''"
| "finish_name WantsTools = ''wants-tools''"
| "finish_name LengthReached = ''length''"
| "finish_name Limit = ''limit''"
| "finish_name ErrorReason = ''error''"

fun implementation_name :: "implementation_kind \<Rightarrow> string" where
  "implementation_name BuiltIn = ''built-in''"
| "implementation_name Dynamic = ''dynamic''"

fun language_name :: "operation_language \<Rightarrow> string" where
  "language_name Typescript = ''typescript''"
| "language_name Javascript = ''javascript''"

definition of_name :: "('a \<Rightarrow> string) \<Rightarrow> 'a list \<Rightarrow> string \<Rightarrow> 'a option" where
  "of_name f xs s = find (\<lambda>x. f x = s) xs"

definition status_of :: "string \<Rightarrow> conversation_status option" where
  "status_of = of_name status_name [Running, Waiting, Done, Failed]"

definition waiting_of :: "string \<Rightarrow> waiting_for option" where
  "waiting_of = of_name waiting_name [WF_None, WF_User, WF_Tool, WF_Assistant]"

definition finish_of :: "string \<Rightarrow> finish_reason option" where
  "finish_of = of_name finish_name [FR_None, Answered, WantsTools, LengthReached, Limit, ErrorReason]"

definition implementation_of :: "string \<Rightarrow> implementation_kind option" where
  "implementation_of = of_name implementation_name [BuiltIn, Dynamic]"

definition language_of :: "string \<Rightarrow> operation_language option" where
  "language_of = of_name language_name [Typescript, Javascript]"

lemma status_of_name [simp]: "status_of (status_name a) = Some a"
  by (cases a) (simp_all add: status_of_def of_name_def)

lemma waiting_of_name [simp]: "waiting_of (waiting_name a) = Some a"
  by (cases a) (simp_all add: waiting_of_def of_name_def)

lemma finish_of_name [simp]: "finish_of (finish_name a) = Some a"
  by (cases a) (simp_all add: finish_of_def of_name_def)

definition j_enum :: "('a \<Rightarrow> string) \<Rightarrow> 'a option \<Rightarrow> json" where
  "j_enum f v = j_str (map_option f v)"

definition as_enum :: "(string \<Rightarrow> 'a option) \<Rightarrow> json \<Rightarrow> 'a option" where
  "as_enum f v = Option.bind (as_str v) f"

lemma as_enum_j [simp]: "(\<And>x. f (g x) = Some x) \<Longrightarrow> as_enum f (j_enum g v) = v"
  by (cases v) (simp_all add: as_enum_def j_enum_def)

section \<open>Records\<close>

definition machine_data :: "'a machine_fields_scheme \<Rightarrow> props" where
  "machine_data m = [(''idempotencyKey'', j_str (idempotencyKey m)),
     (''createdByConversationId'', j_str (createdByConversationId m)),
     (''createdAt'', j_str (createdAt m)), (''updatedAt'', j_str (updatedAt m))]"

definition machine_of :: "props \<Rightarrow> machine_fields" where
  "machine_of ps = \<lparr>idempotencyKey = as_str (pget ps ''idempotencyKey''),
     createdByConversationId = as_str (pget ps ''createdByConversationId''),
     createdAt = as_str (pget ps ''createdAt''), updatedAt = as_str (pget ps ''updatedAt'')\<rparr>"

definition entry_data :: "entry \<Rightarrow> props" where
  "entry_data e = [(''seq'', j_int (e_seq e)), (''at'', j_str (e_at e)), (''role'', j_str (e_role e)),
     (''kind'', j_str (e_kind e)), (''text'', j_str (e_text e)), (''toolName'', j_str (e_toolName e)),
     (''toolArgs'', j_str (e_toolArgs e)), (''toolResult'', j_str (e_toolResult e)),
     (''idempotencyKey'', j_str (e_idempotencyKey e)), (''questionId'', j_str (e_questionId e)),
     (''argsHash'', j_str (e_argsHash e)), (''promptTokens'', j_num (e_promptTokens e)),
     (''completionTokens'', j_num (e_completionTokens e))]"

definition entry_of :: "props \<Rightarrow> entry" where
  "entry_of ps = \<lparr>e_seq = as_int (pget ps ''seq''), e_at = as_str (pget ps ''at''),
     e_role = as_str (pget ps ''role''), e_kind = as_str (pget ps ''kind''),
     e_text = as_str (pget ps ''text''), e_toolName = as_str (pget ps ''toolName''),
     e_toolArgs = as_str (pget ps ''toolArgs''), e_toolResult = as_str (pget ps ''toolResult''),
     e_idempotencyKey = as_str (pget ps ''idempotencyKey''),
     e_questionId = as_str (pget ps ''questionId''), e_argsHash = as_str (pget ps ''argsHash''),
     e_promptTokens = as_num (pget ps ''promptTokens''),
     e_completionTokens = as_num (pget ps ''completionTokens'')\<rparr>"

definition conversation_data :: "conversation \<Rightarrow> props" where
  "conversation_data c = [(''assistantKey'', j_str (assistantKey c)), (''title'', j_str (c_title c)),
     (''subjectThingId'', j_str (subjectThingId c)), (''subjectModel'', j_str (subjectModel c)),
     (''scheduledFor'', j_str (scheduledFor c)), (''status'', j_enum status_name (status c)),
     (''waitingFor'', j_enum waiting_name (waitingFor c)),
     (''finishReason'', j_enum finish_name (finishReason c)), (''turnCount'', j_int (turnCount c)),
     (''maxTurns'', j_int (maxTurns c)), (''wakeAt'', j_str (wakeAt c)),
     (''leaseUntil'', j_str (leaseUntil c)), (''parentConversationId'', j_str (parentConversationId c)),
     (''currentQuestionId'', j_str (currentQuestionId c)),
     (''resultDeliveredAt'', j_str (resultDeliveredAt c)),
     (''escalationCount'', j_int (escalationCount c)), (''result'', j_str (c_result c)),
     (''lastError'', j_str (c_lastError c)), (''entries'', j_rows entry_data (entries c))]
     @ machine_data c"

definition conversation_of :: "props \<Rightarrow> conversation" where
  "conversation_of ps = machine_fields.extend (machine_of ps)
     (conversation.fields (as_str (pget ps ''assistantKey'')) (as_str (pget ps ''title''))
       (as_str (pget ps ''subjectThingId'')) (as_str (pget ps ''subjectModel''))
       (as_str (pget ps ''scheduledFor'')) (as_enum status_of (pget ps ''status''))
       (as_enum waiting_of (pget ps ''waitingFor'')) (as_enum finish_of (pget ps ''finishReason''))
       (as_int (pget ps ''turnCount'')) (as_int (pget ps ''maxTurns'')) (as_str (pget ps ''wakeAt''))
       (as_str (pget ps ''leaseUntil'')) (as_str (pget ps ''parentConversationId''))
       (as_str (pget ps ''currentQuestionId'')) (as_str (pget ps ''resultDeliveredAt''))
       (as_int (pget ps ''escalationCount'')) (as_str (pget ps ''result''))
       (as_str (pget ps ''lastError'')) (as_rows entry_of (pget ps ''entries'')))"

definition option_data :: "question_option \<Rightarrow> props" where
  "option_data q = [(''value'', j_str (qo_value q)), (''label'', j_str (qo_label q))]"

definition option_of :: "props \<Rightarrow> question_option" where
  "option_of ps = \<lparr>qo_value = as_str (pget ps ''value''), qo_label = as_str (pget ps ''label'')\<rparr>"

definition question_data :: "open_question \<Rightarrow> props" where
  "question_data q = [(''conversationId'', j_str (q_conversationId q)),
     (''assistantKey'', j_str (q_assistantKey q)), (''seq'', j_int (q_seq q)),
     (''kind'', j_str (q_kind q)), (''subjectThingId'', j_str (q_subjectThingId q)),
     (''prompt'', j_str (q_prompt q)), (''options'', j_rows option_data (q_options q)),
     (''text'', j_str (q_text q)), (''choice'', j_str (q_choice q)),
     (''confirmed'', j_bool (q_confirmed q)), (''answeredAt'', j_str (q_answeredAt q))]
     @ machine_data q"

definition question_of :: "props \<Rightarrow> open_question" where
  "question_of ps = machine_fields.extend (machine_of ps)
     (open_question.fields (as_str (pget ps ''conversationId'')) (as_str (pget ps ''assistantKey''))
       (as_int (pget ps ''seq'')) (as_str (pget ps ''kind'')) (as_str (pget ps ''subjectThingId''))
       (as_str (pget ps ''prompt'')) (as_rows option_of (pget ps ''options''))
       (as_str (pget ps ''text'')) (as_str (pget ps ''choice'')) (as_bool (pget ps ''confirmed''))
       (as_str (pget ps ''answeredAt'')))"

definition docref_data :: "string option \<Rightarrow> props" where
  "docref_data r = [(''docRef'', j_str r)]"

definition docref_of :: "props \<Rightarrow> string option" where
  "docref_of ps = as_str (pget ps ''docRef'')"

definition runtime_state_data :: "runtime_state \<Rightarrow> props" where
  "runtime_state_data r = [(''singletonKey'', j_str (singletonKey r)),
     (''watermark'', j_str (watermark r)),
     (''watermarkDocRefs'', j_rows docref_data (watermarkDocRefs r)), (''paused'', j_bool (paused r)),
     (''birthsThisHour'', j_int (birthsThisHour r)),
     (''birthWindowStartedAt'', j_str (birthWindowStartedAt r)),
     (''heartbeatAt'', j_str (heartbeatAt r)), (''lastError'', j_str (rs_lastError r))]
     @ machine_data r"

definition runtime_state_of :: "props \<Rightarrow> runtime_state" where
  "runtime_state_of ps = machine_fields.extend (machine_of ps)
     (runtime_state.fields (as_str (pget ps ''singletonKey'')) (as_str (pget ps ''watermark''))
       (as_rows docref_of (pget ps ''watermarkDocRefs'')) (as_bool (pget ps ''paused''))
       (as_int (pget ps ''birthsThisHour'')) (as_str (pget ps ''birthWindowStartedAt''))
       (as_str (pget ps ''heartbeatAt'')) (as_str (pget ps ''lastError'')))"

definition skill_of :: "props \<Rightarrow> skill" where
  "skill_of ps = \<lparr>sk_name = as_str (pget ps ''name''), instructions = as_str (pget ps ''instructions'')\<rparr>"

definition trigger_of :: "props \<Rightarrow> trigger" where
  "trigger_of ps = \<lparr>t_kind = as_str (pget ps ''kind''), modelFilter = as_str (pget ps ''modelFilter''),
     cron = as_str (pget ps ''cron'')\<rparr>"

definition grant_of :: "props \<Rightarrow> grant" where
  "grant_of ps = \<lparr>operationKey = as_str (pget ps ''operationKey'')\<rparr>"

definition assistant_of :: "props \<Rightarrow> assistant" where
  "assistant_of ps = machine_fields.extend (machine_of ps)
     (assistant.fields (as_str (pget ps ''key'')) (as_str (pget ps ''name''))
       (as_str (pget ps ''description'')) (as_str (pget ps ''systemPrompt''))
       (as_str (pget ps ''llmModel'')) (as_bool (pget ps ''enabled'')) (as_int (pget ps ''maxTurns''))
       (as_rows skill_of (pget ps ''skills'')) (as_rows trigger_of (pget ps ''triggers''))
       (as_rows grant_of (pget ps ''grants'')))"

definition operation_of :: "props \<Rightarrow> operation" where
  "operation_of ps = machine_fields.extend (machine_of ps)
     (operation.fields (as_str (pget ps ''key'')) (as_str (pget ps ''name''))
       (as_str (pget ps ''system'')) (as_str (pget ps ''kind'')) (as_str (pget ps ''description''))
       (as_str (pget ps ''parameters'')) (as_bool (pget ps ''mutating''))
       (as_bool (pget ps ''requiresApproval'')) (as_bool (pget ps ''enabled''))
       (as_str (pget ps ''notes'')) (as_enum implementation_of (pget ps ''implementation''))
       (as_str (pget ps ''source'')) (as_enum language_of (pget ps ''language''))
       (as_str (pget ps ''egress'')) (as_int (pget ps ''timeoutMs''))
       (as_bool (pget ps ''clientReadable'')))"

subsection \<open>Nothing is lost\<close>

lemma machine_of_data: "machine_of (machine_data m) = machine_fields.truncate m"
  by (simp add: machine_of_def machine_data_def machine_fields.truncate_def)

lemma entry_of_data [simp]: "entry_of (entry_data e) = e"
  by (simp add: entry_of_def entry_data_def)

lemma option_of_data [simp]: "option_of (option_data q) = q"
  by (simp add: option_of_def option_data_def)

lemma docref_of_data [simp]: "docref_of (docref_data r) = r"
  by (simp add: docref_of_def docref_data_def)

lemma conversation_of_data [simp]: "conversation_of (conversation_data c) = c"
  by (simp add: conversation_of_def conversation_data_def machine_of_def machine_data_def
      machine_fields.defs conversation.defs)

lemma question_of_data [simp]: "question_of (question_data q) = q"
  by (simp add: question_of_def question_data_def machine_of_def machine_data_def
      machine_fields.defs open_question.defs)

lemma runtime_state_of_data [simp]: "runtime_state_of (runtime_state_data r) = r"
  by (simp add: runtime_state_of_def runtime_state_data_def machine_of_def machine_data_def
      machine_fields.defs runtime_state.defs)

section \<open>A Thing through the store\<close>

lemma stored_field:
  assumes "wf_spec spec" "(a, b) \<in> set (ms_fields spec)"
  shows "pget (fromDocument spec (toDocument spec d)) a = pget d a"
  using assms by (simp add: fromDocument_alt toDocument_alt obj_props_def [of "JObj _"]
      body_data_field document_body_field)

lemma stored_group:
  assumes "wf_spec spec" "(p, g, fs) \<in> set (ms_groups spec)"
  shows "pget (fromDocument spec (toDocument spec d)) p
    = group_value (\<lambda>row. group_row (flip_pairs fs) (group_row fs row)) (pget d p)"
  using assms by (simp add: fromDocument_alt toDocument_alt obj_props_def [of "JObj _"]
      body_data_group document_body_group group_value_def split: json.split)

lemma entry_fields_distinct: "distinct (map fst entry_fields)" "distinct (map snd entry_fields)"
  using wf_specD(7) [OF wf_SPECS_7, of "''entries''" "''Entries''" entry_fields]
  by (simp_all add: Conversation_spec_def)

lemma entry_stored:
  "entry_of (obj_props (group_row (flip_pairs entry_fields) (group_row entry_fields (JObj (entry_data e))))) = e"
proof -
  have "pget (obj_props (group_row (flip_pairs entry_fields) (group_row entry_fields (JObj (entry_data e))))) a
      = pget (entry_data e) a" if "a \<in> fst ` set entry_fields" for a
    using that group_row_back [OF entry_fields_distinct] by (auto simp: obj_props_def [of "JObj (entry_data e)"])
  then have "entry_of (obj_props (group_row (flip_pairs entry_fields) (group_row entry_fields (JObj (entry_data e)))))
      = entry_of (entry_data e)"
    by (simp add: entry_of_def entry_fields_def)
  then show ?thesis by simp
qed

definition conversation_names :: "string list" where
  "conversation_names = [''assistantKey'', ''title'', ''subjectThingId'', ''subjectModel'', ''scheduledFor'',
     ''status'', ''waitingFor'', ''finishReason'', ''turnCount'', ''maxTurns'', ''wakeAt'', ''leaseUntil'',
     ''parentConversationId'', ''currentQuestionId'', ''resultDeliveredAt'', ''escalationCount'', ''result'',
     ''lastError'', ''idempotencyKey'', ''createdByConversationId'', ''createdAt'', ''updatedAt'']"

lemma conversation_names_mapped: "set conversation_names \<subseteq> fst ` set (ms_fields Conversation_spec)"
proof -
  have "list_all (\<lambda>a. a \<in> set (map fst (ms_fields Conversation_spec))) conversation_names" by code_simp
  then show ?thesis by (auto simp: list_all_iff)
qed

lemma conversation_fields_back:
  assumes "list_all (\<lambda>a. pget d a = pget (conversation_data c) a) conversation_names"
    and "as_rows entry_of (pget d ''entries'') = entries c"
  shows "conversation_of d = c"
proof -
  have "conversation_of d = conversation_of (conversation_data c)"
    using assms by (simp add: conversation_of_def machine_of_def conversation_data_def machine_data_def
        conversation_names_def)
  then show ?thesis by simp
qed

text \<open>A Conversation read back is the Conversation that was written.\<close>

lemma conversation_stored:
  "conversation_of (fromDocument Conversation_spec (toDocument Conversation_spec (conversation_data c))) = c"
proof (rule conversation_fields_back)
  show "list_all (\<lambda>a. pget (fromDocument Conversation_spec (toDocument Conversation_spec (conversation_data c))) a
      = pget (conversation_data c) a) conversation_names"
    using conversation_names_mapped stored_field [OF wf_SPECS_7] by (auto simp: list_all_iff)
next
  have g: "pget (fromDocument Conversation_spec (toDocument Conversation_spec (conversation_data c))) ''entries''
      = group_value (\<lambda>row. group_row (flip_pairs entry_fields) (group_row entry_fields row)) (j_rows entry_data (entries c))"
    using stored_group [OF wf_SPECS_7, of "''entries''" "''Entries''" entry_fields "conversation_data c"]
    by (simp add: Conversation_spec_def conversation_data_def)
  show "as_rows entry_of (pget (fromDocument Conversation_spec (toDocument Conversation_spec (conversation_data c))) ''entries'')
      = entries c"
    unfolding g
    by (cases "entries c") (simp_all add: group_value_def j_rows_def as_rows_def entry_stored comp_def)
qed

end
