(* ===== verification/Things.thy ===== *)
theory Things
  imports Codecs
begin

text \<open>
  The query constraints and \<open>ThingRepository\<close> of \<open>runtime/src/a12/things.ts\<close>, over the operations of
  \<open>A12Client\<close> (\<open>a12/client.ts\<close>). The client is a parameter, a record of its operations on a state
  of any type, with the clock the code reads. \<open>thing_client\<close> is the contract the repository relies
  on, with the lemmas that follow from it for every client; the in-memory store of the test support
  provides it (theory \<open>MemoryStore\<close>).
\<close>

section \<open>Queries\<close>

datatype constraint =
    ExactMatch string string
  | UndefinedMatch string
  | CNot constraint
  | CAnd "constraint list"
  | COr "constraint list"
  | DateRange string "string option" "string option"

datatype direction = ASC | DESC

record sort_term =
  st_field :: string
  st_direction :: direction
  st_nulls_last :: bool
  st_ignoreCase :: bool

record query_spec =
  qs_target :: string
  qs_constraint :: "constraint option"
  qs_sort :: "sort_term list"
  qs_pageNumber :: nat
  qs_pageSize :: nat

definition eq :: "string \<Rightarrow> json \<Rightarrow> constraint" where
  "eq field v = ExactMatch field (js_string v)"

definition byField :: "model_spec \<Rightarrow> string \<Rightarrow> direction \<Rightarrow> sort_term list" where
  "byField spec field d =
     [\<lparr>st_field = fieldPath spec field, st_direction = d, st_nulls_last = True, st_ignoreCase = False\<rparr>]"

definition byCreatedAt :: "model_spec \<Rightarrow> direction \<Rightarrow> sort_term list" where
  "byCreatedAt spec d = byField spec ''createdAt'' d"

definition unset :: "string \<Rightarrow> constraint" where
  "unset field = UndefinedMatch field"

definition c_not :: "constraint \<Rightarrow> constraint" where
  "c_not operand = CNot operand"

definition c_and :: "constraint list \<Rightarrow> constraint" where
  "c_and operands = CAnd operands"

definition c_or :: "constraint list \<Rightarrow> constraint" where
  "c_or operands = COr operands"

definition setButNot :: "string \<Rightarrow> string \<Rightarrow> constraint" where
  "setButNot setField notField = c_and [c_not (unset setField), unset notField]"

lemmas query_defs = eq_def byField_def byCreatedAt_def unset_def c_not_def c_and_def c_or_def setButNot_def

section \<open>The repository\<close>

record doc_spec =
  ds_docRef :: string
  ds_model :: string
  ds_document :: props

record 'w a12_client =
  cl_getDocument :: "string \<Rightarrow> ('w, doc_spec) io"
  cl_modifyDocument :: "string \<Rightarrow> props \<Rightarrow> ('w, unit) io"
  cl_addDocument :: "string \<Rightarrow> props \<Rightarrow> ('w, string) io"
  cl_deleteDocument :: "string \<Rightarrow> ('w, unit) io"
  cl_query :: "query_spec \<Rightarrow> ('w, doc_spec list) io"
  cl_now :: "'w \<Rightarrow> int"

definition toStored :: "model_spec \<Rightarrow> doc_spec \<Rightarrow> props stored" where
  "toStored spec e = \<lparr>docRef = ds_docRef e, thingId = thingIdOf (ds_docRef e),
     model = model_name (ms_model spec), data = fromDocument spec (ds_document e)\<rparr>"

definition repo_get :: "'w a12_client \<Rightarrow> model_spec \<Rightarrow> string \<Rightarrow> ('w, props stored) io" where
  "repo_get cl spec ref = bindE (cl_getDocument cl ref) (\<lambda>found. returnE (toStored spec found))"

text \<open>The document that \<open>update\<close> sends: the mapped fields over the stored ones.\<close>

definition merged_document :: "model_spec \<Rightarrow> props \<Rightarrow> string \<Rightarrow> props \<Rightarrow> props" where
  "merged_document spec current stamp d =
     (let rawRoot = obj_props (pget current (ms_root spec));
          mapped = toDocument spec (spread d [(''updatedAt'', JStr stamp)]);
          mappedRoot = obj_props (pget mapped (ms_root spec))
      in spread current [(ms_root spec, JObj (spread rawRoot mappedRoot))])"

definition repo_update :: "'w a12_client \<Rightarrow> model_spec \<Rightarrow> string \<Rightarrow> props \<Rightarrow> ('w, unit) io" where
  "repo_update cl spec ref d =
     bindE (cl_getDocument cl ref) (\<lambda>current.
     bindE (getE (cl_now cl)) (\<lambda>now.
       cl_modifyDocument cl ref (merged_document spec (ds_document current) (nowIso now) d)))"

definition repo_search :: "'w a12_client \<Rightarrow> model_spec \<Rightarrow> constraint option \<Rightarrow> nat \<Rightarrow> sort_term list
    \<Rightarrow> ('w, props stored list) io" where
  "repo_search cl spec c pageSize srt =
     bindE (cl_query cl \<lparr>qs_target = model_name (ms_model spec), qs_constraint = c, qs_sort = srt,
              qs_pageNumber = 0, qs_pageSize = pageSize\<rparr>)
       (\<lambda>rows. returnE (map (toStored spec) rows))"

definition findByIdempotencyKey :: "'w a12_client \<Rightarrow> model_spec \<Rightarrow> string \<Rightarrow> ('w, props stored option) io" where
  "findByIdempotencyKey cl spec key =
     bindE (repo_search cl spec (Some (eq (fieldPath spec ''idempotencyKey'') (JStr key))) 2 [])
       (\<lambda>rows. returnE (case rows of [] \<Rightarrow> None | first # _ \<Rightarrow> Some first))"

text \<open>
  \<open>[...all].sort((a, b) => a.docRef.localeCompare(b.docRef))[0]\<close>. The docRefs of one Model are a
  common prefix and an identifier of lower-case letters, digits and hyphens, on which the
  collation is the order of the characters.
\<close>

definition least_docRef :: "'a stored list \<Rightarrow> 'a stored" where
  "least_docRef all = hd (sort_key docRef all)"

definition check_key :: "model_spec \<Rightarrow> string \<Rightarrow> unit result" where
  "check_key spec key =
     (if trim key = [] then Inl (JsError ''Error''
        (''Creating a '' @ model_name (ms_model spec) @ '' with a blank idempotency key would silently skip ''
         @ ''deduplication. Omit the field if there genuinely is no key.''))
      else if EXACT_MATCH_MAX_LENGTH < length key then Inl (JsError ''Error''
        (''An idempotency key may be at most '' @ string_of_nat EXACT_MATCH_MAX_LENGTH @ '' characters (this one is ''
         @ string_of_nat (length key) @ ''); the store cannot search for a longer one.''))
      else Inr ())"

text \<open>\<open>{ ...data, createdAt: data["createdAt"] ?? stamp, updatedAt: stamp }\<close>\<close>

definition with_stamps :: "string \<Rightarrow> props \<Rightarrow> props" where
  "with_stamps stamp d = spread d
     [(''createdAt'', (case pget d ''createdAt'' of JUndef \<Rightarrow> JStr stamp | JNull \<Rightarrow> JStr stamp | v \<Rightarrow> v)),
      (''updatedAt'', JStr stamp)]"

text \<open>
  The half of \<open>create\<close> after the lookup: write, then converge on one row if the key turns out to be
  held by several; a failed check never loses the created Thing.
\<close>

definition add_and_converge ::
  "'w a12_client \<Rightarrow> model_spec \<Rightarrow> props \<Rightarrow> string option \<Rightarrow> ('w, props stored) io" where
  "add_and_converge cl spec d key =
     bindE (getE (cl_now cl)) (\<lambda>now.
       let withStamps = with_stamps (nowIso now) d in
       bindE (cl_addDocument cl (model_name (ms_model spec)) (toDocument spec withStamps)) (\<lambda>ref.
         let created = \<lparr>docRef = ref, thingId = thingIdOf ref,
                        model = model_name (ms_model spec), data = withStamps\<rparr> in
         case key of None \<Rightarrow> returnE created
         | Some k \<Rightarrow>
             bindE (attemptE (repo_search cl spec (Some (eq (fieldPath spec ''idempotencyKey'') (JStr k))) 5 []))
               (\<lambda>checked. case checked of
                  Inr all \<Rightarrow> if 1 < length all then returnE (least_docRef all) else returnE created
                | Inl e \<Rightarrow> returnE created)))"

definition repo_create :: "'w a12_client \<Rightarrow> model_spec \<Rightarrow> props \<Rightarrow> ('w, props stored) io" where
  "repo_create cl spec d =
     (let key = as_str (pget d ''idempotencyKey'') in
      case key of
        None \<Rightarrow> add_and_converge cl spec d None
      | Some k \<Rightarrow>
          (case check_key spec k of
             Inl e \<Rightarrow> throwE e
           | Inr _ \<Rightarrow>
               bindE (findByIdempotencyKey cl spec k) (\<lambda>existing.
                 case existing of Some t \<Rightarrow> returnE t | None \<Rightarrow> add_and_converge cl spec d key)))"

definition repo_delete :: "'w a12_client \<Rightarrow> string \<Rightarrow> ('w, unit) io" where
  "repo_delete cl ref = cl_deleteDocument cl ref"

section \<open>Constraints on a document\<close>

text \<open>A query path (\<open>/Conversation/Status\<close>) resolved against a document.\<close>

fun split_on :: "char \<Rightarrow> string \<Rightarrow> string list" where
  "split_on c [] = [[]]"
| "split_on c (x # xs) =
     (if x = c then [] # split_on c xs
      else (case split_on c xs of [] \<Rightarrow> [[x]] | w # ws \<Rightarrow> (x # w) # ws))"

fun walk :: "json \<Rightarrow> string list \<Rightarrow> json" where
  "walk node [] = node"
| "walk node (s # ss) = (case node of JObj ps \<Rightarrow> walk (pget ps s) ss | JArr _ \<Rightarrow> walk JUndef ss | _ \<Rightarrow> JUndef)"

definition valueAt :: "props \<Rightarrow> string \<Rightarrow> json" where
  "valueAt document p = walk (JObj document) (filter (\<lambda>s. s \<noteq> []) (split_on (CHR ''/'') p))"

fun matches :: "props \<Rightarrow> constraint \<Rightarrow> bool" where
  "matches doc (CAnd cs) \<longleftrightarrow> list_all (matches doc) cs"
| "matches doc (COr cs) \<longleftrightarrow> list_ex (matches doc) cs"
| "matches doc (CNot c) \<longleftrightarrow> \<not> matches doc c"
| "matches doc (ExactMatch f v) \<longleftrightarrow> valueAt doc f \<noteq> JUndef \<and> js_string (valueAt doc f) = v"
| "matches doc (UndefinedMatch f) \<longleftrightarrow> valueAt doc f \<in> {JUndef, JNull, JStr []}"
| "matches doc (DateRange f from to) \<longleftrightarrow>
     (case valueAt doc f of
        JStr actual \<Rightarrow> actual \<noteq> [] \<and> \<not> (truthy from \<and> actual < coalesce from [])
          \<and> \<not> (truthy to \<and> coalesce to [] < actual)
      | _ \<Rightarrow> False)"

text \<open>A field of a Model's document, where its query path points.\<close>

definition path_ok :: "model_spec \<Rightarrow> bool" where
  "path_ok spec \<longleftrightarrow> list_all (\<lambda>s. s \<noteq> [] \<and> CHR ''/'' \<notin> set s) (ms_root spec # map snd (ms_fields spec))"

lemma split_on_noc: "c \<notin> set s \<Longrightarrow> split_on c s = [s]"
  by (induction s) auto

lemma split_on_append: "c \<notin> set s \<Longrightarrow> split_on c (s @ c # t) = s # split_on c t"
  by (induction s) auto

lemma valueAt_path:
  assumes "path_ok spec" and "wf_spec spec" and "(a, b) \<in> set (ms_fields spec)"
  shows "valueAt doc (fieldPath spec a) = pget (obj_props (pget doc (ms_root spec))) b"
proof -
  from assms have r: "ms_root spec \<noteq> []" "CHR ''/'' \<notin> set (ms_root spec)" "b \<noteq> []" "CHR ''/'' \<notin> set b"
    by (force simp: path_ok_def list_all_iff)+
  have "map_of (ms_fields spec) a = Some b"
    using assms wf_specD(1) by (intro map_of_is_SomeI)
  then have "fieldPath spec a = ''/'' @ ms_root spec @ ''/'' @ b"
    by (simp add: fieldPath_def path_def)
  then have "filter (\<lambda>s. s \<noteq> []) (split_on (CHR ''/'') (fieldPath spec a)) = [ms_root spec, b]"
    using r by (simp add: split_on_append split_on_noc)
  then show ?thesis
    by (simp add: valueAt_def obj_props_def split: json.split)
qed

lemma path_ok_SPECS: "path_ok (SPECS m)"
  by (cases m) (simp_all add: path_ok_def spec_defs)

section \<open>What an update leaves of the stored document\<close>

text \<open>The body of a Model's root group in a document.\<close>

definition body_of :: "model_spec \<Rightarrow> props \<Rightarrow> props" where
  "body_of spec doc = obj_props (pget doc (ms_root spec))"

lemma body_of_merged:
  "body_of spec (merged_document spec doc t d)
     = spread (body_of spec doc) (document_body spec (spread d [(''updatedAt'', JStr t)]))"
  by (simp add: body_of_def merged_document_def Let_def toDocument_alt obj_props_def [of "JObj _"])

lemma merged_other_root:
  "r \<noteq> ms_root spec \<Longrightarrow> pget (merged_document spec doc t d) r = pget doc r"
  by (simp add: merged_document_def Let_def)

lemma merged_unmapped:
  assumes "wf_spec spec" "k \<notin> snd ` set (ms_fields spec)" "k \<notin> (\<lambda>(_, g, _). g) ` set (ms_groups spec)"
  shows "pget (body_of spec (merged_document spec doc t d)) k = pget (body_of spec doc) k"
  using document_body_other [OF assms(2,3)]
  by (simp add: body_of_merged pget_spread distinct_document_body [OF assms(1)])

lemma merged_field:
  assumes "wf_spec spec" "(a, b) \<in> set (ms_fields spec)" "a \<noteq> ''updatedAt''"
  shows "pget (body_of spec (merged_document spec doc t d)) b
    = (if pget d a = JUndef then pget (body_of spec doc) b else pget d a)"
proof -
  let ?u = "spread d [(''updatedAt'', JStr t)]"
  have v: "pget (document_body spec ?u) b = pget d a"
    using document_body_field [OF assms(1,2), of ?u] assms(3) by simp
  have k: "has_key (document_body spec ?u) b \<longleftrightarrow> pget d a \<noteq> JUndef"
  proof
    assume "pget d a \<noteq> JUndef"
    with v show "has_key (document_body spec ?u) b" using pget_absent by metis
  next
    assume h: "has_key (document_body spec ?u) b"
    have "\<not> has_key (groups_part ?u (map (\<lambda>(p, g, fs). (p, g, group_row fs)) (ms_groups spec))) b"
      using assms(1,2) wf_specD(6)
        keys_groups_part [of ?u "map (\<lambda>(p, g, fs). (p, g, group_row fs)) (ms_groups spec)" b]
      by force
    with h have "has_key (rename (ms_fields spec) ?u) b" by (simp add: document_body_def)
    then have "pget (rename (ms_fields spec) ?u) b \<noteq> JUndef" by (intro rename_set wf_specD(2) [OF assms(1)])
    then show "pget d a \<noteq> JUndef"
      using pget_rename [OF wf_specD(2) [OF assms(1)] assms(2), of ?u] assms(3) by simp
  qed
  from v k show ?thesis
    by (simp add: body_of_merged pget_spread distinct_document_body [OF assms(1)])
qed

lemma key_stored:
  assumes "wf_spec spec" and "path_ok spec" and "(''idempotencyKey'', b) \<in> set (ms_fields spec)"
    and "as_str (pget d ''idempotencyKey'') = Some k"
  shows "matches (toDocument spec (with_stamps stamp d)) (eq (fieldPath spec ''idempotencyKey'') (JStr k))"
proof -
  have "pget (with_stamps stamp d) ''idempotencyKey'' = pget d ''idempotencyKey''"
    by (simp add: with_stamps_def pget_spread)
  moreover have "pget d ''idempotencyKey'' = JStr k"
    using assms(4) by (simp add: as_str_def split: json.splits)
  ultimately have "valueAt (toDocument spec (with_stamps stamp d)) (fieldPath spec ''idempotencyKey'') = JStr k"
    using document_body_field [OF assms(1,3)]
    by (simp add: valueAt_path [OF assms(2,1,3)] toDocument_alt obj_props_def [of "JObj _"])
  then show ?thesis by (simp add: eq_def)
qed

section \<open>The contract of a client\<close>

type_synonym view = "string \<Rightarrow> (string \<times> props) option"

definition satisfies :: "query_spec \<Rightarrow> string \<Rightarrow> props \<Rightarrow> bool" where
  "satisfies q m doc \<longleftrightarrow> m = qs_target q \<and>
     (case qs_constraint q of None \<Rightarrow> True | Some c \<Rightarrow> matches doc c)"

text \<open>What a reader relies on: a query changes nothing, and a page that is not full has every match.\<close>

locale thing_reader =
  fixes cl :: "'w a12_client"
    and view :: "'w \<Rightarrow> view"
  assumes query_frame: "view (snd (cl_query cl q w)) = view w"
    and query_full: "cl_query cl q w = (Inr rows, w') \<Longrightarrow> qs_pageNumber q = 0 \<Longrightarrow>
          length rows < qs_pageSize q \<Longrightarrow> view w ref = Some (m, doc) \<Longrightarrow> satisfies q m doc \<Longrightarrow>
          \<exists>r \<in> set rows. ds_docRef r = ref"
begin

lemma search_frame: "view (snd (repo_search cl spec c n srt w)) = view w"
  using query_frame [of _ w] by (auto simp: repo_search_def io_defs split: prod.split sum.split) (metis snd_conv)+

lemma search_nothing:
  assumes "repo_search cl spec (Some c) (Suc n) srt w = (Inr [], w')"
    and "view w ref = Some (model_name (ms_model spec), doc)"
  shows "\<not> matches doc c"
proof
  assume m: "matches doc c"
  let ?q = "\<lparr>qs_target = model_name (ms_model spec), qs_constraint = Some c, qs_sort = srt,
    qs_pageNumber = 0, qs_pageSize = Suc n\<rparr>"
  from assms(1) have "cl_query cl ?q w = (Inr [], w')"
    by (auto simp: repo_search_def io_defs split: prod.splits sum.splits)
  from query_full [OF this _ _ assms(2)] m show False by (simp add: satisfies_def)
qed

end

locale thing_client = thing_reader cl view
  for cl :: "'w a12_client" and view :: "'w \<Rightarrow> view" +
  fixes inv :: "'w \<Rightarrow> bool"
  assumes get_frame: "view (snd (cl_getDocument cl ref w)) = view w"
    and get_found: "cl_getDocument cl ref w = (Inr d, w') \<Longrightarrow>
          ds_docRef d = ref \<and> view w ref = Some (ds_model d, ds_document d)"
    and modify_ok: "cl_modifyDocument cl ref doc w = (Inr u, w') \<Longrightarrow>
          (\<exists>m d. view w ref = Some (m, d) \<and> view w' = (view w)(ref \<mapsto> (m, doc)))"
    and add_ok: "inv w \<Longrightarrow> cl_addDocument cl m doc w = (Inr ref, w') \<Longrightarrow>
          view w ref = None \<and> view w' = (view w)(ref \<mapsto> (m, doc))"
    and delete_ok: "cl_deleteDocument cl ref w = (Inr u, w') \<Longrightarrow> view w' = (view w)(ref := None)"
    and query_sound: "inv w \<Longrightarrow> cl_query cl q w = (Inr rows, w') \<Longrightarrow> r \<in> set rows \<Longrightarrow>
          view w (ds_docRef r) = Some (ds_model r, ds_document r) \<and> satisfies q (ds_model r) (ds_document r)"
    and query_page: "cl_query cl q w = (Inr rows, w') \<Longrightarrow> length rows \<le> qs_pageSize q"
    and inv_get: "keeps inv (cl_getDocument cl ref)"
    and inv_modify: "keeps inv (cl_modifyDocument cl ref doc)"
    and inv_add: "keeps inv (cl_addDocument cl m doc)"
    and inv_delete: "keeps inv (cl_deleteDocument cl ref)"
    and inv_query: "keeps inv (cl_query cl q)"
begin

lemmas inv_client [keeps] = inv_get inv_modify inv_add inv_delete inv_query

lemma inv_repo [keeps]:
  "keeps inv (repo_get cl spec ref)" "keeps inv (repo_update cl spec ref d)"
  "keeps inv (repo_search cl spec c n srt)" "keeps inv (findByIdempotencyKey cl spec k)"
  by (auto simp: repo_get_def repo_update_def repo_search_def findByIdempotencyKey_def intro!: keeps)

lemma inv_add_and_converge [keeps]: "keeps inv (add_and_converge cl spec d key)"
  by (auto simp: add_and_converge_def intro!: keeps)

lemma inv_create [keeps]: "keeps inv (repo_create cl spec d)"
  by (auto simp: repo_create_def intro!: keeps)

lemma get_result:
  assumes "repo_get cl spec ref w = (Inr t, w')"
  shows "view w' = view w \<and> (\<exists>m doc. view w ref = Some (m, doc) \<and>
    t = \<lparr>docRef = ref, thingId = thingIdOf ref, model = model_name (ms_model spec), data = fromDocument spec doc\<rparr>)"
proof -
  from assms obtain d where g: "cl_getDocument cl ref w = (Inr d, w')" and t: "t = toStored spec d"
    by (auto simp: repo_get_def io_defs split: prod.splits sum.splits)
  from g have "view w' = view w" using get_frame [of ref w] by simp
  with get_found [OF g] t show ?thesis by (auto simp: toStored_def)
qed

lemma update_result:
  assumes "repo_update cl spec ref d w = (Inr u, w')"
  shows "\<exists>m doc t. view w ref = Some (m, doc) \<and>
    view w' = (view w)(ref \<mapsto> (m, merged_document spec doc t d))"
proof -
  from assms obtain cur w1 where g: "cl_getDocument cl ref w = (Inr cur, w1)"
    and m: "cl_modifyDocument cl ref (merged_document spec (ds_document cur) (nowIso (cl_now cl w1)) d) w1
      = (Inr u, w')"
    by (auto simp: repo_update_def io_defs split: prod.splits sum.splits)
  from g have v: "view w1 = view w" using get_frame [of ref w] by simp
  from modify_ok [OF m] get_found [OF g] v show ?thesis by fastforce
qed

lemma search_result:
  assumes "inv w" and "repo_search cl spec c n srt w = (Inr rows, w')"
  shows "view w' = view w" "length rows \<le> n"
    and "t \<in> set rows \<Longrightarrow> (\<exists>doc. view w (docRef t) = Some (model_name (ms_model spec), doc)
          \<and> data t = fromDocument spec doc \<and> (\<forall>k. c = Some k \<longrightarrow> matches doc k))"
    and "length rows < n \<Longrightarrow> view w ref = Some (model_name (ms_model spec), doc) \<Longrightarrow>
          (\<forall>k. c = Some k \<longrightarrow> matches doc k) \<Longrightarrow> \<exists>t \<in> set rows. docRef t = ref"
proof -
  let ?q = "\<lparr>qs_target = model_name (ms_model spec), qs_constraint = c, qs_sort = srt,
      qs_pageNumber = 0, qs_pageSize = n\<rparr>"
  from assms(2) obtain ds where q: "cl_query cl ?q w = (Inr ds, w')" and rows: "rows = map (toStored spec) ds"
    by (auto simp: repo_search_def io_defs split: prod.splits sum.splits)
  show "view w' = view w" using q query_frame [of ?q w] by simp
  show "length rows \<le> n" using query_page [OF q] rows by simp
  show "\<exists>doc. view w (docRef t) = Some (model_name (ms_model spec), doc)
      \<and> data t = fromDocument spec doc \<and> (\<forall>k. c = Some k \<longrightarrow> matches doc k)" if "t \<in> set rows"
    using that query_sound [OF assms(1) q] rows by (auto simp: toStored_def satisfies_def)
  show "\<exists>t \<in> set rows. docRef t = ref" if "length rows < n"
    "view w ref = Some (model_name (ms_model spec), doc)" "\<forall>k. c = Some k \<longrightarrow> matches doc k"
    using query_full [OF q, of ref "model_name (ms_model spec)" doc] that rows
    by (auto simp: toStored_def satisfies_def split: option.split)
qed

lemma find_result:
  assumes "inv w" and "findByIdempotencyKey cl spec k w = (Inr r, w')"
  shows "view w' = view w"
    and "r = Some t \<Longrightarrow> (\<exists>doc. view w (docRef t) = Some (model_name (ms_model spec), doc)
          \<and> data t = fromDocument spec doc
          \<and> matches doc (eq (fieldPath spec ''idempotencyKey'') (JStr k)))"
    and "r = None \<Longrightarrow> view w ref = Some (model_name (ms_model spec), doc) \<Longrightarrow>
          \<not> matches doc (eq (fieldPath spec ''idempotencyKey'') (JStr k))"
proof -
  let ?c = "eq (fieldPath spec ''idempotencyKey'') (JStr k)"
  from assms(2) obtain rows where s: "repo_search cl spec (Some ?c) 2 [] w = (Inr rows, w')"
    and r: "r = (case rows of [] \<Rightarrow> None | first # _ \<Rightarrow> Some first)"
    by (auto simp: findByIdempotencyKey_def io_defs split: prod.splits sum.splits)
  note res = search_result [OF assms(1) s]
  show "view w' = view w" by (rule res(1))
  show "\<exists>doc. view w (docRef t) = Some (model_name (ms_model spec), doc)
      \<and> data t = fromDocument spec doc \<and> matches doc ?c" if "r = Some t"
  proof -
    from that r have "t \<in> set rows" by (auto split: list.splits)
    from res(3) [OF this] show ?thesis by auto
  qed
  show "\<not> matches doc ?c" if "r = None" "view w ref = Some (model_name (ms_model spec), doc)"
    using that r res(4) [of ref doc] by (auto split: list.splits)
qed

text \<open>A second \<open>create\<close> under a key some Thing of the Model already carries creates nothing.\<close>

lemma create_existing:
  assumes "inv w" and "repo_create cl spec d w = (Inr t, w')" and "as_str (pget d ''idempotencyKey'') = Some k"
    and "view w ref = Some (model_name (ms_model spec), doc)"
    and "matches doc (eq (fieldPath spec ''idempotencyKey'') (JStr k))"
  shows "view w' = view w \<and> (\<exists>doc'. view w (docRef t) = Some (model_name (ms_model spec), doc')
    \<and> data t = fromDocument spec doc'
    \<and> matches doc' (eq (fieldPath spec ''idempotencyKey'') (JStr k)))"
proof -
  from assms(2,3) obtain r w1 where f: "findByIdempotencyKey cl spec k w = (Inr r, w1)"
    and c: "(case r of Some t \<Rightarrow> returnE t | None \<Rightarrow> add_and_converge cl spec d (Some k)) w1 = (Inr t, w')"
    by (auto simp: repo_create_def Let_def bindE_def throwE_def split: prod.splits sum.splits)
  note res = find_result [OF assms(1) f]
  from res(3) [OF _ assms(4)] assms(5) have "r \<noteq> None" by blast
  then obtain t' where r: "r = Some t'" by blast
  with c have "t = t'" "w' = w1" by (auto simp: returnE_def)
  with res(1) res(2) [OF r] show ?thesis by simp
qed

text \<open>Otherwise exactly one document is added, and whatever \<open>create\<close> returns carries the key.\<close>

lemma add_and_converge_result:
  assumes "inv w" and "add_and_converge cl spec d key w = (Inr t, w')"
  shows "\<exists>now ref. view w ref = None \<and>
    view w' = (view w)(ref \<mapsto> (model_name (ms_model spec), toDocument spec (with_stamps (nowIso now) d)))
    \<and> (docRef t = ref \<or> (\<exists>k doc. key = Some k \<and> view w' (docRef t) = Some (model_name (ms_model spec), doc)
         \<and> matches doc (eq (fieldPath spec ''idempotencyKey'') (JStr k))))"
proof -
  let ?d = "with_stamps (nowIso (cl_now cl w)) d"
  from assms(2) obtain ref w1 where a: "cl_addDocument cl (model_name (ms_model spec)) (toDocument spec ?d) w = (Inr ref, w1)"
    and rest: "(case key of None \<Rightarrow> returnE \<lparr>docRef = ref, thingId = thingIdOf ref,
                        model = model_name (ms_model spec), data = ?d\<rparr>
         | Some k \<Rightarrow>
             bindE (attemptE (repo_search cl spec (Some (eq (fieldPath spec ''idempotencyKey'') (JStr k))) 5 []))
               (\<lambda>checked. case checked of
                  Inr all \<Rightarrow> if 1 < length all then returnE (least_docRef all) else returnE \<lparr>docRef = ref, thingId = thingIdOf ref,
                        model = model_name (ms_model spec), data = ?d\<rparr>
                | Inl e \<Rightarrow> returnE \<lparr>docRef = ref, thingId = thingIdOf ref,
                        model = model_name (ms_model spec), data = ?d\<rparr>)) w1 = (Inr t, w')"
    by (auto simp: add_and_converge_def Let_def bindE_def getE_def split: prod.splits sum.splits)
  note added = add_ok [OF assms(1) a]
  from a inv_add assms(1) have inv1: "inv w1" by (metis keepsD snd_conv)
  show ?thesis
  proof (cases key)
    case None
    with rest added show ?thesis by (auto simp: returnE_def)
  next
    case (Some k)
    let ?c = "eq (fieldPath spec ''idempotencyKey'') (JStr k)"
    obtain checked w2 where s: "repo_search cl spec (Some ?c) 5 [] w1 = (checked, w2)" by fastforce
    from s have v2: "view w2 = view w1"
      using query_frame by (auto simp: repo_search_def io_defs split: prod.splits sum.splits)
        (metis snd_conv)+
    from rest Some s have w': "w' = w2"
      and t: "docRef t = ref \<or> (\<exists>all. checked = Inr all \<and> 1 < length all \<and> t = least_docRef all)"
      by (auto simp: io_defs split: sum.splits if_splits)
    from t show ?thesis
    proof
      assume "docRef t = ref"
      with added v2 w' show ?thesis by auto
    next
      assume "\<exists>all. checked = Inr all \<and> 1 < length all \<and> t = least_docRef all"
      then obtain all where all: "checked = Inr all" "1 < length all" "t = least_docRef all" by blast
      then have "sort_key docRef all \<noteq> []" by (metis length_greater_0_conv length_sort less_trans zero_less_one)
      with all(3) have "t \<in> set all" by (metis hd_in_set least_docRef_def set_sort)
      with search_result(3) [OF inv1 s [unfolded all(1)]] added v2 w' Some show ?thesis
        by metis
    qed
  qed
qed

text \<open>A second \<open>create\<close> under the key of a first leaves the ThingStore as it is.\<close>

lemma create_holds_key:
  assumes "inv w" and "wf_spec spec" and "path_ok spec" and "(''idempotencyKey'', b) \<in> set (ms_fields spec)"
    and "as_str (pget d ''idempotencyKey'') = Some k" and "repo_create cl spec d w = (Inr t, w')"
  shows "\<exists>ref doc. view w' ref = Some (model_name (ms_model spec), doc) \<and>
    matches doc (eq (fieldPath spec ''idempotencyKey'') (JStr k))"
proof -
  from assms(5,6) obtain r w1 where f: "findByIdempotencyKey cl spec k w = (Inr r, w1)"
    and c: "(case r of Some t \<Rightarrow> returnE t | None \<Rightarrow> add_and_converge cl spec d (Some k)) w1 = (Inr t, w')"
    by (auto simp: repo_create_def Let_def bindE_def throwE_def split: prod.splits sum.splits)
  note res = find_result [OF assms(1) f]
  show ?thesis
  proof (cases r)
    case None
    have "inv w1" using inv_repo(4) assms(1) f by (metis keepsD snd_conv)
    from None c have "add_and_converge cl spec d (Some k) w1 = (Inr t, w')" by simp
    from add_and_converge_result [OF \<open>inv w1\<close> this] obtain now ref where
      "view w' = (view w1)(ref \<mapsto> (model_name (ms_model spec), toDocument spec (with_stamps (nowIso now) d)))" by blast
    then show ?thesis using key_stored [OF assms(2-5)] by auto
  next
    case (Some x)
    with c have "w' = w1" by (simp add: returnE_def)
    with res(1) res(2) [OF Some] show ?thesis by auto
  qed
qed

lemma create_twice:
  assumes "inv w" and "wf_spec spec" and "path_ok spec" and "(''idempotencyKey'', b) \<in> set (ms_fields spec)"
    and "as_str (pget d ''idempotencyKey'') = Some k" and "repo_create cl spec d w = (Inr t, w1)"
    and "as_str (pget d' ''idempotencyKey'') = Some k" and "repo_create cl spec d' w1 = (Inr t', w2)"
  shows "view w2 = view w1"
proof -
  obtain ref doc where "view w1 ref = Some (model_name (ms_model spec), doc)"
    "matches doc (eq (fieldPath spec ''idempotencyKey'') (JStr k))"
    using create_holds_key [OF assms(1-6)] by blast
  moreover have "inv w1" using inv_create assms(1,6) by (metis keepsD snd_conv)
  ultimately show ?thesis using create_existing [OF _ assms(8,7)] by blast
qed

end

end
