(* ===== verification/MemoryStore.thy ===== *)
theory MemoryStore
  imports Things "HOL-Library.AList"
begin

text \<open>
  The in-memory ThingStore of the test support (\<open>runtime/test/support/memory-store.ts\<close>): the same
  surface as \<open>A12Client\<close>, on a map of rows in insertion order. It provides the contract
  \<open>thing_client\<close> of the repository, and it is the store on which the facts of the other theories
  are evaluated.
\<close>

section \<open>The store\<close>

record mem_store =
  rows :: "(string \<times> string \<times> props) list"
  writes :: "(string \<times> string) list"
  failNextAdd :: "js_error option"
  counter :: nat
  clock :: int

definition empty_store :: "int \<Rightarrow> mem_store" where
  "empty_store now = \<lparr>rows = [], writes = [], failNextAdd = None, counter = 0, clock = now\<rparr>"

definition lower_char :: "char \<Rightarrow> char" where
  "lower_char c = (let n = of_char c :: nat in if 65 \<le> n \<and> n \<le> 90 then char_of (n + 32) else c)"

definition toLowerCase :: "string \<Rightarrow> string" where
  "toLowerCase s = map lower_char s"

definition seed_ref :: "string \<Rightarrow> nat \<Rightarrow> string" where
  "seed_ref m n = m @ ''/'' @ toLowerCase m @ ''-'' @ string_of_nat n"

definition seed :: "string \<Rightarrow> props \<Rightarrow> (mem_store, string) io" where
  "seed m document = (\<lambda>s.
     let n = counter s + 1; ref = seed_ref m n
     in (Inr ref, s\<lparr>counter := n, rows := AList.update ref (m, document) (rows s)\<rparr>))"

definition log_write :: "string \<Rightarrow> string \<Rightarrow> (mem_store, unit) io" where
  "log_write method ref = modifyE (\<lambda>s. s\<lparr>writes := writes s @ [(method, ref)]\<rparr>)"

definition mem_addDocument :: "string \<Rightarrow> props \<Rightarrow> (mem_store, string) io" where
  "mem_addDocument m document =
     bindE (getE failNextAdd) (\<lambda>failure. case failure of
       Some e \<Rightarrow> bindE (modifyE (\<lambda>s. s\<lparr>failNextAdd := None\<rparr>)) (\<lambda>_. throwE e)
     | None \<Rightarrow>
         bindE (seed m document) (\<lambda>ref.
         bindE (log_write ''ADD_DOCUMENT'' ref) (\<lambda>_. returnE ref)))"

definition no_document :: "string \<Rightarrow> js_error" where
  "no_document ref = JsError ''Error'' (''No document '' @ ref)"

definition mem_getDocument :: "string \<Rightarrow> (mem_store, doc_spec) io" where
  "mem_getDocument ref =
     bindE (getE (\<lambda>s. map_of (rows s) ref)) (\<lambda>row. case row of
       None \<Rightarrow> throwE (no_document ref)
     | Some (m, document) \<Rightarrow> returnE \<lparr>ds_docRef = ref, ds_model = m, ds_document = document\<rparr>)"

definition mem_modifyDocument :: "string \<Rightarrow> props \<Rightarrow> (mem_store, unit) io" where
  "mem_modifyDocument ref document =
     bindE (getE (\<lambda>s. map_of (rows s) ref)) (\<lambda>row. case row of
       None \<Rightarrow> throwE (no_document ref)
     | Some (m, _) \<Rightarrow>
         bindE (modifyE (\<lambda>s. s\<lparr>rows := AList.update ref (m, document) (rows s)\<rparr>)) (\<lambda>_.
           log_write ''MODIFY_DOCUMENT'' ref))"

definition mem_deleteDocument :: "string \<Rightarrow> (mem_store, unit) io" where
  "mem_deleteDocument ref =
     bindE (modifyE (\<lambda>s. s\<lparr>rows := AList.delete ref (rows s)\<rparr>)) (\<lambda>_.
       log_write ''DELETE_DOCUMENT'' ref)"

subsection \<open>Sorting\<close>

definition missing :: "json \<Rightarrow> bool" where
  "missing v \<longleftrightarrow> v \<in> {JUndef, JNull, JStr []}"

text \<open>
  The comparison of two documents under the sort terms: negative, zero or positive as in the
  code; the collation is the order of the characters.
\<close>

definition collate :: "string \<Rightarrow> string \<Rightarrow> int" where
  "collate a b = (if a < b then -1 else if b < a then 1 else 0)"

definition sort_text :: "bool \<Rightarrow> json \<Rightarrow> string" where
  "sort_text ignore v = (if ignore then toLowerCase (js_string v) else js_string v)"

fun compareRows :: "sort_term list \<Rightarrow> props \<Rightarrow> props \<Rightarrow> int" where
  "compareRows [] l r = 0"
| "compareRows (t # ts) l r =
     (let a = valueAt l (st_field t); b = valueAt r (st_field t) in
      if missing a \<or> missing b then
        (if missing a \<and> missing b then compareRows ts l r
         else (if missing a then 1 else -1) * (if st_nulls_last t then 1 else -1))
      else
        (let c = collate (sort_text (st_ignoreCase t) a) (sort_text (st_ignoreCase t) b);
             compared = (case st_direction t of DESC \<Rightarrow> - c | ASC \<Rightarrow> c)
         in if compared \<noteq> 0 then compared else compareRows ts l r))"

text \<open>\<open>Array.prototype.sort\<close> is stable: equal rows keep their order.\<close>

fun insert_row :: "('a \<Rightarrow> 'a \<Rightarrow> int) \<Rightarrow> 'a \<Rightarrow> 'a list \<Rightarrow> 'a list" where
  "insert_row cmp x [] = [x]"
| "insert_row cmp x (y # ys) = (if cmp x y \<le> 0 then x # y # ys else y # insert_row cmp x ys)"

definition stable_sort :: "('a \<Rightarrow> 'a \<Rightarrow> int) \<Rightarrow> 'a list \<Rightarrow> 'a list" where
  "stable_sort cmp xs = foldr (insert_row cmp) xs []"

lemma set_insert_row [simp]: "set (insert_row cmp x xs) = insert x (set xs)"
  by (induction xs) auto

lemma set_stable_sort [simp]: "set (stable_sort cmp xs) = set xs"
  by (induction xs) (simp_all add: stable_sort_def)

definition sortRows :: "sort_term list \<Rightarrow> (string \<times> string \<times> props) list \<Rightarrow> (string \<times> string \<times> props) list" where
  "sortRows srt rs =
     (if srt = [] then rs else stable_sort (\<lambda>(_, _, l) (_, _, r). compareRows srt l r) rs)"

lemma set_sortRows [simp]: "set (sortRows srt rs) = set rs"
  by (simp add: sortRows_def)

definition mem_query :: "query_spec \<Rightarrow> (mem_store, doc_spec list) io" where
  "mem_query q = getE (\<lambda>s.
     let all = filter (\<lambda>(_, m, _). m = qs_target q) (rows s);
         matching = filter (\<lambda>(_, _, doc).
           case qs_constraint q of None \<Rightarrow> True | Some c \<Rightarrow> matches doc c) all;
         sorted = sortRows (qs_sort q) matching
     in map (\<lambda>(ref, m, doc). \<lparr>ds_docRef = ref, ds_model = m, ds_document = doc\<rparr>)
          (take (qs_pageSize q) (drop (qs_pageNumber q * qs_pageSize q) sorted)))"

definition memory_client :: "mem_store a12_client" where
  "memory_client = \<lparr>cl_getDocument = mem_getDocument, cl_modifyDocument = mem_modifyDocument,
     cl_addDocument = mem_addDocument, cl_deleteDocument = mem_deleteDocument,
     cl_query = mem_query, cl_now = clock\<rparr>"

lemmas mem_defs = mem_getDocument_def mem_modifyDocument_def mem_addDocument_def mem_deleteDocument_def
  mem_query_def seed_def log_write_def no_document_def

section \<open>The contract\<close>

definition store_view :: "mem_store \<Rightarrow> view" where
  "store_view s = map_of (rows s)"

text \<open>Every row was named by \<open>seed\<close>, under a number the counter has passed.\<close>

definition store_ok :: "mem_store \<Rightarrow> bool" where
  "store_ok s \<longleftrightarrow> distinct (map fst (rows s)) \<and>
     (\<forall>ref \<in> set (map fst (rows s)). \<exists>m n. n \<le> counter s \<and> ref = seed_ref m n)"

lemma digits_no_dash: "CHR ''-'' \<notin> set (digits_of n)"
proof (induction n rule: digits_of.induct)
  case (1 n)
  have "CHR ''-'' \<noteq> char_of (d + 48)" if "d < 10" for d :: nat
  proof
    assume "CHR ''-'' = char_of (d + 48)"
    then have "(of_char (CHR ''-'') :: nat) = d + 48" using that by (metis of_char_digit)
    then show False by simp
  qed
  with 1 show ?case by (subst digits_of.simps) auto
qed

lemma seed_ref_inject: "seed_ref m n = seed_ref m' n' \<Longrightarrow> n = n'"
proof -
  have suffix: "takeWhile (\<lambda>c. c \<noteq> CHR ''-'') (rev (seed_ref m n)) = rev (digits_of n)" for m n
  proof -
    have "rev (seed_ref m n) = rev (digits_of n) @ CHR ''-'' # rev (m @ ''/'' @ toLowerCase m)"
      by (simp add: seed_ref_def string_of_nat_def string_of_int_def)
    then show ?thesis
      using digits_no_dash [of n] by (simp, subst takeWhile_append2) auto
  qed
  assume "seed_ref m n = seed_ref m' n'"
  with suffix [of m n] suffix [of m' n'] have "digits_of n = digits_of n'" by simp
  then show "n = n'" using nat_of_digits_digits_of by (metis option.inject)
qed

lemma store_ok_fresh:
  assumes "store_ok s"
  shows "map_of (rows s) (seed_ref m (Suc (counter s))) = None"
proof -
  have "seed_ref m (Suc (counter s)) \<notin> set (map fst (rows s))"
  proof
    assume "seed_ref m (Suc (counter s)) \<in> set (map fst (rows s))"
    with assms obtain m' n' where "n' \<le> counter s" "seed_ref m (Suc (counter s)) = seed_ref m' n'"
      by (auto simp: store_ok_def)
    then show False using seed_ref_inject by fastforce
  qed
  then show ?thesis by (simp add: map_of_eq_None_iff)
qed

lemma store_ok_empty: "store_ok (empty_store now)"
  by (simp add: store_ok_def empty_store_def)

lemma store_ok_update:
  assumes "store_ok s" and "map_of (rows s) ref = Some y"
  shows "store_ok (s\<lparr>rows := AList.update ref x (rows s)\<rparr>)"
proof -
  from assms(2) have "ref \<in> fst ` set (rows s)" by (force dest: map_of_SomeD)
  then have "set (map fst (AList.update ref x (rows s))) = set (map fst (rows s))"
    by (auto simp: dom_update)
  with assms(1) show ?thesis unfolding store_ok_def by (simp add: distinct_update del: set_map)
qed

lemma store_ok_writes [simp]: "store_ok (s\<lparr>writes := ws\<rparr>) = store_ok s"
  by (simp add: store_ok_def)

lemma store_ok_failNextAdd [simp]: "store_ok (s\<lparr>failNextAdd := f\<rparr>) = store_ok s"
  by (simp add: store_ok_def)

lemma update_keys_cases:
  "x \<in> set (AList.update k v al) \<Longrightarrow> fst x = k \<or> fst x \<in> set (map fst al)"
  using dom_update [of k v al] by (simp add: set_eq_iff image_iff) blast

lemma keeps_seed [keeps]: "keeps store_ok (seed m document)"
proof (rule keepsI)
  fix s
  assume ok: "store_ok s"
  let ?ref = "seed_ref m (Suc (counter s))"
  let ?s = "s\<lparr>counter := Suc (counter s), rows := AList.update ?ref (m, document) (rows s)\<rparr>"
  have "\<exists>m' n. n \<le> counter ?s \<and> r = seed_ref m' n" if "r \<in> set (map fst (rows ?s))" for r
  proof (cases "r = ?ref")
    case True
    then show ?thesis by (auto intro!: exI [of _ m] exI [of _ "Suc (counter s)"])
  next
    case False
    with that have "r \<in> set (map fst (rows s))" using update_keys_cases by fastforce
    with ok obtain m' n where "n \<le> counter s" "r = seed_ref m' n" unfolding store_ok_def by blast
    then show ?thesis by (auto intro!: exI [of _ m'] exI [of _ n])
  qed
  moreover have "distinct (map fst (rows ?s))" using ok by (simp add: store_ok_def distinct_update)
  ultimately have "store_ok ?s" unfolding store_ok_def by blast
  then show "store_ok (snd (seed m document s))" by (simp add: seed_def Let_def)
qed

interpretation mem: thing_client memory_client store_view store_ok
proof (unfold_locales, goal_cases)
  case 3
  show ?case by (simp add: memory_client_def mem_defs io_defs split: option.split prod.split)
next
  case (4 ref w d w')
  then show ?case
    by (auto simp: memory_client_def mem_defs io_defs store_view_def split: option.splits prod.splits)
next
  case (5 ref doc w u w')
  then show ?case
    by (auto simp: memory_client_def mem_defs io_defs store_view_def update_conv'
        split: option.splits prod.splits)
next
  case (6 w m doc ref w')
  then show ?case
    using store_ok_fresh [of w m]
    by (auto simp: memory_client_def mem_defs io_defs store_view_def update_conv' Let_def
        split: option.splits prod.splits)
next
  case (7 ref w u w')
  then show ?case
    by (auto simp: memory_client_def mem_defs io_defs store_view_def delete_conv' split: prod.splits)
next
  case 1
  show ?case by (simp add: memory_client_def mem_defs io_defs)
next
  case (8 w q rs w' r)
  have "distinct (map fst (rows w))" using 8(1) by (simp add: store_ok_def)
  with 8(2,3) show ?case
    by (auto simp: memory_client_def mem_defs io_defs store_view_def satisfies_def Let_def
        split: option.splits dest!: in_set_takeD in_set_dropD)
next
  case (9 q w rs w')
  then show ?case by (auto simp: memory_client_def mem_defs io_defs Let_def)
next
  case (2 q w rs w' ref m doc)
  let ?all = "filter (\<lambda>(_, _, doc). case qs_constraint q of None \<Rightarrow> True | Some c \<Rightarrow> matches doc c)
      (filter (\<lambda>(_, m, _). m = qs_target q) (rows w))"
  from 2(1,2) have rs: "rs = map (\<lambda>(ref, m, doc). \<lparr>ds_docRef = ref, ds_model = m, ds_document = doc\<rparr>)
      (take (qs_pageSize q) (sortRows (qs_sort q) ?all))"
    by (auto simp: memory_client_def mem_defs io_defs Let_def)
  with 2(3) have "take (qs_pageSize q) (sortRows (qs_sort q) ?all) = sortRows (qs_sort q) ?all"
    by (simp add: min_def split: if_splits)
  moreover have "(ref, m, doc) \<in> set (sortRows (qs_sort q) ?all)"
    using 2(4,5) by (auto simp: store_view_def satisfies_def dest: map_of_SomeD)
  ultimately show ?case using rs by force
next
  case (10 ref)
  show ?case by (auto simp: memory_client_def mem_getDocument_def intro!: keeps)
next
  case (11 ref doc)
  show ?case
    by (rule keepsI)
      (auto simp: memory_client_def mem_defs io_defs store_ok_update split: option.splits prod.splits)
next
  case (12 m doc)
  show ?case
    by (auto simp: memory_client_def mem_addDocument_def log_write_def intro!: keeps)
next
  case (13 ref)
  show ?case
    by (rule keepsI)
      (auto simp: memory_client_def mem_defs io_defs store_ok_def distinct_delete
        AList.delete_eq distinct_map_filter split: prod.splits)
next
  case (14 q)
  show ?case by (auto simp: memory_client_def mem_query_def intro!: keeps)
qed

end
