(* ===== verification/Llm.thy ===== *)
theory Llm
  imports Json
begin

text \<open>
  The language model behind its interface (\<open>runtime/src/llm/provider.ts\<close>) and the provider that
  replays a script (\<open>runtime/src/llm/scripted.ts\<close>). A real provider is a parameter of the loop; the
  scripted one is modelled in full, with the counter and the context it reads as its state.
\<close>

section \<open>The interface\<close>

record tool_schema =
  ts_name :: string
  ts_description :: string
  ts_parameters :: json

record llm_tool_call =
  tc_id :: string
  tc_name :: string
  tc_arguments :: json

datatype llm_finish = LAnswered | LWantsTools | LLength | LError

record llm_usage =
  promptTokens :: js_num
  completionTokens :: js_num

record llm_error =
  le_message :: string
  le_transient :: bool

record llm_response =
  r_text :: string
  r_toolCalls :: "llm_tool_call list"
  r_finishReason :: llm_finish
  r_error :: "llm_error option"
  r_usage :: "llm_usage option"

record llm_message =
  m_role :: string
  m_content :: string
  m_toolCallId :: "string option"
  m_toolName :: "string option"
  m_toolCalls :: "llm_tool_call list option"

definition plain_message :: "string \<Rightarrow> string \<Rightarrow> llm_message" where
  "plain_message role content =
     \<lparr>m_role = role, m_content = content, m_toolCallId = None, m_toolName = None, m_toolCalls = None\<rparr>"

record llm_request =
  rq_model :: string
  rq_messages :: "llm_message list"
  rq_tools :: "tool_schema list"

definition isTransientStatus :: "int \<Rightarrow> bool" where
  "isTransientStatus st \<longleftrightarrow> st = 408 \<or> st = 409 \<or> st = 429 \<or> 500 \<le> st"

section \<open>The scripted provider\<close>

record scripted_step =
  sc_assistant :: "string option"
  sc_turn :: "int option"
  sc_whenContains :: "string option"
  sc_text :: "string option"
  sc_toolCalls :: "(string \<times> json) list option"
  sc_finishReason :: "llm_finish option"

record scripted_state =
  callCount :: nat
  ctx_assistantKey :: string
  ctx_turn :: int

definition step_matches :: "scripted_state \<Rightarrow> string \<Rightarrow> scripted_step \<Rightarrow> bool" where
  "step_matches s lastContent c \<longleftrightarrow>
     (sc_assistant c = None \<or> sc_assistant c = Some (ctx_assistantKey s)) \<and>
     (sc_turn c = None \<or> sc_turn c = Some (ctx_turn s)) \<and>
     (case sc_whenContains c of None \<Rightarrow> True | Some w \<Rightarrow> contains w lastContent)"

definition no_step_response :: "scripted_state \<Rightarrow> llm_response" where
  "no_step_response s =
     \<lparr>r_text = [], r_toolCalls = [], r_finishReason = LError, r_error = Some
        \<lparr>le_message = ''The scripted language model has no step for assistant '' @ quote (ctx_assistantKey s)
           @ '' turn '' @ string_of_int (ctx_turn s) @ ''. This stack is running the ''
           @ quote ''scripted'' @ '' profile; point '' @ quote ''active''
           @ '' in llm.json at a real model and restart the Runtime.'',
         le_transient = False\<rparr>,
      r_usage = None\<rparr>"

definition scripted_call :: "nat \<Rightarrow> nat \<Rightarrow> string \<times> json \<Rightarrow> llm_tool_call" where
  "scripted_call n index c =
     \<lparr>tc_id = ''scripted-'' @ string_of_nat n @ ''-'' @ string_of_nat index,
      tc_name = fst c, tc_arguments = snd c\<rparr>"

definition step_response :: "nat \<Rightarrow> scripted_step \<Rightarrow> llm_response" where
  "step_response n step =
     (let toolCalls = map (\<lambda>(i, c). scripted_call n i c) (enumerate 0 (coalesce (sc_toolCalls step) []))
      in \<lparr>r_text = coalesce (sc_text step) [], r_toolCalls = toolCalls,
          r_finishReason = coalesce (sc_finishReason step)
            (if 0 < length toolCalls then LWantsTools else LAnswered),
          r_error = None,
          r_usage = Some \<lparr>promptTokens = num_of_int 0, completionTokens = num_of_int 0\<rparr>\<rparr>)"

definition scripted_complete :: "scripted_step list \<Rightarrow> llm_request \<Rightarrow> (scripted_state, llm_response) io" where
  "scripted_complete script request = (\<lambda>s0.
     let s = s0\<lparr>callCount := callCount s0 + 1\<rparr>;
         lastContent = (if rq_messages request = [] then [] else m_content (last (rq_messages request)))
     in (Inr (case find (step_matches s lastContent) script of
                None \<Rightarrow> no_step_response s
              | Some step \<Rightarrow> step_response (callCount s) step), s))"

text \<open>A call the script does not cover is an error, never an answer.\<close>

lemma scripted_uncovered:
  assumes "\<forall>step \<in> set script. \<not> step_matches (s\<lparr>callCount := callCount s + 1\<rparr>)
      (if rq_messages request = [] then [] else m_content (last (rq_messages request))) step"
  shows "\<exists>resp. fst (scripted_complete script request s) = Inr resp \<and> r_finishReason resp = LError
    \<and> r_toolCalls resp = [] \<and> r_usage resp = None"
proof -
  from assms have "find (step_matches (s\<lparr>callCount := callCount s + 1\<rparr>)
      (if rq_messages request = [] then [] else m_content (last (rq_messages request)))) script = None"
    by (simp add: find_None_iff)
  then show ?thesis by (simp add: scripted_complete_def Let_def no_step_response_def)
qed

end
