(* ===== verification/Registry.thy ===== *)
theory Registry
  imports Codecs Llm
begin

text \<open>
  The Operation registry (\<open>runtime/src/operations/registry.ts\<close>) with the approval renderers
  (\<open>operations/describers.ts\<close>): which Operations an Assistant may use, resolved from its grants, the
  catalogue and what is implemented, and the two vocabularies of names. The Operation Host that
  compiles and runs stored Source is a parameter, as is every Implementation's own code; the
  once-per-process log warnings have no effect on a result and are left out.
\<close>

section \<open>Operations\<close>

datatype outcome =
    OValue json
  | OError string
  | OPending waiting_for "string option" "string option" "string option"

record op_context =
  ctx_conversation :: "conversation stored"
  ctx_assistant :: "assistant stored"
  ctx_idempotencyKey :: string

type_synonym describer = "json \<Rightarrow> string result"

record 'w granted_operation =
  g_name :: string
  g_description :: string
  g_parameters :: props
  g_mutating :: bool
  g_requiresApproval :: bool
  g_describeCall :: "describer option"
  g_execute :: "json \<Rightarrow> op_context \<Rightarrow> ('w, outcome) io"
  g_reconcile :: "(json \<Rightarrow> op_context \<Rightarrow> ('w, outcome option) io) option"

record operation_seed =
  sd_name :: string
  sd_system :: string
  sd_kind :: string
  sd_description :: string
  sd_parameters :: props
  sd_requiresApproval :: "bool option"

record 'w operation_implementation =
  i_name :: string
  i_mutating :: bool
  i_clientReadable :: bool
  i_execute :: "json \<Rightarrow> op_context \<Rightarrow> ('w, outcome) io"
  i_reconcile :: "(json \<Rightarrow> op_context \<Rightarrow> ('w, outcome option) io) option"
  i_describeCall :: "describer option"
  i_seed :: operation_seed

datatype drop_reason =
    Absent | Disabled | Unimplemented | Unparseable | SelfCall | BareCall
  | Ambiguous | Uncompilable | UnconfiguredEgress

record dropped_grant =
  dg_key :: string
  dg_reason :: drop_reason

record 'w resolution =
  granted :: "'w granted_operation list"
  dropped :: "dropped_grant list"

text \<open>What the registry uses of the Operation Host.\<close>

record compiled_module =
  cm_hash :: string
  cm_code :: string
  cm_language :: operation_language

record run_target =
  rt_key :: string
  rt_egress :: "string option"
  rt_timeoutMs :: "int option"

datatype sandbox_mode = ExecuteMode | ReconcileMode

record 'w operation_host =
  h_compile :: "string \<Rightarrow> operation_language option \<Rightarrow> compiled_module result"
  h_hasEgress :: "string \<Rightarrow> bool"
  h_declaresReconcile :: "compiled_module \<Rightarrow> bool"
  h_run :: "compiled_module \<Rightarrow> sandbox_mode \<Rightarrow> json \<Rightarrow> op_context \<Rightarrow> run_target \<Rightarrow> ('w, outcome option) io"

record 'w registry =
  operations :: "(string \<times> 'w operation_implementation) list"
  rg_host :: "'w operation_host option"
  describers :: "(string \<times> describer) list"

section \<open>Names on the wire\<close>

definition toolNameForLlm :: "string \<Rightarrow> string" where
  "toolNameForLlm name = concat (map (\<lambda>c. if c = CHR ''.'' \<or> c = CHR '':'' then ''__'' else [c]) name)"

fun operationFromLlm :: "string \<Rightarrow> string" where
  "operationFromLlm (a # b # cs) =
     (if a = CHR ''_'' \<and> b = CHR ''_'' then CHR ''.'' # operationFromLlm cs
      else a # operationFromLlm (b # cs))"
| "operationFromLlm s = s"

text \<open>The reverse mapping restores a name of words separated by dots; it never gives back a colon.\<close>

definition dotted :: "string \<Rightarrow> bool" where
  "dotted name \<longleftrightarrow> CHR '':'' \<notin> set name \<and> CHR ''_'' \<notin> set name"

lemma toolName_simps [simp]:
  "toolNameForLlm [] = []"
  "toolNameForLlm (c # cs) = (if c = CHR ''.'' \<or> c = CHR '':'' then ''__'' else [c]) @ toolNameForLlm cs"
  by (simp_all add: toolNameForLlm_def)

lemma operationFromLlm_Cons: "c \<noteq> CHR ''_'' \<Longrightarrow> operationFromLlm (c # cs) = c # operationFromLlm cs"
  by (cases cs) simp_all

lemma toolName_roundtrip_dotted: "dotted name \<Longrightarrow> operationFromLlm (toolNameForLlm name) = name"
  by (induction name) (auto simp: dotted_def operationFromLlm_Cons)

lemma operationFromLlm_no_colon: "CHR '':'' \<notin> set s \<Longrightarrow> CHR '':'' \<notin> set (operationFromLlm s)"
  by (induction s rule: operationFromLlm.induct) auto

lemma toolName_no_colon: "CHR '':'' \<notin> set (toolNameForLlm name)" "CHR ''.'' \<notin> set (toolNameForLlm name)"
  by (induction name) auto

section \<open>How an approval reads\<close>

definition json_truthy :: "json \<Rightarrow> bool" where
  "json_truthy v = (case v of JUndef \<Rightarrow> False | JNull \<Rightarrow> False | JBool b \<Rightarrow> b
     | JNum n \<Rightarrow> n \<noteq> NaN \<and> (case n of Fin m _ \<Rightarrow> m \<noteq> 0 | _ \<Rightarrow> True)
     | JStr s \<Rightarrow> s \<noteq> [] | _ \<Rightarrow> True)"

definition nullish :: "json \<Rightarrow> bool" where
  "nullish v \<longleftrightarrow> v = JUndef \<or> v = JNull"

definition upper_char :: "char \<Rightarrow> char" where
  "upper_char c = (let n = of_char c :: nat in if 97 \<le> n \<and> n \<le> 122 then char_of (n - 32) else c)"

definition toUpperCase :: "string \<Rightarrow> string" where
  "toUpperCase s = map upper_char s"

text \<open>The euro sign, in UTF-8.\<close>

definition euro :: string where
  "euro = [CHR 0xE2, CHR 0x82, CHR 0xAC]"

definition money :: "json \<Rightarrow> json \<Rightarrow> string" where
  "money amount currencyCode =
     (let v = js_string (if nullish amount then JStr ''?'' else amount);
          cur = toUpperCase (js_string (if nullish currencyCode then JStr ''EUR'' else currencyCode))
      in if cur = ''EUR'' then euro @ v else v @ '' '' @ cur)"

definition posting :: "json \<Rightarrow> string" where
  "posting s =
     (let f = pget (obj_props s);
          account = (\<lambda>k missing. if json_truthy (f k) then js_string (f k) else missing)
      in join '', '' (filter (\<lambda>t. t \<noteq> [])
           [money (f ''amount'') (f ''currencyCode'') @ '' from *'' @ account ''sourceAccount'' ''(no source)''
              @ ''* to *'' @ account ''destinationAccount'' ''(no destination)'' @ ''*'',
            (if json_truthy (f ''date'') then ''dated '' @ js_string (f ''date'') else []),
            (if json_truthy (f ''description'') then ''for '' @ js_string (f ''description'') else [])]))"

text \<open>
  A split that is \<open>null\<close> is no object to read an amount from: the renderer throws. Every other
  value that is not an object reads as one without properties.
\<close>

definition describePosting :: describer where
  "describePosting args =
     (let splits = (case pget (obj_props args) ''splits'' of JArr xs \<Rightarrow> xs | _ \<Rightarrow> []);
          title = pget (obj_props args) ''groupTitle''
      in if splits = [] then Inr []
         else if \<exists>s \<in> set splits. nullish s
         then Inl (JsError ''TypeError''
             (''Cannot read properties of null (reading '' @ [CHR 0x27] @ ''amount'' @ [CHR 0x27] @ '')''))
         else if length splits = 1 then Inr (''Book '' @ posting (hd splits) @ ''?'')
         else Inr (join nl ([''Book '' @ string_of_nat (length splits) @ '' postings''
                @ (if json_truthy title then '' under *'' @ js_string title @ ''*'' else []) @ ''?'', []]
              @ map (\<lambda>s. ''- '' @ posting s) splits)))"

definition dynamicDescribers :: "(string \<times> describer) list" where
  "dynamicDescribers = [(''bookkeeping.postTransaction'', describePosting)]"

section \<open>Registering\<close>

definition register :: "'w operation_implementation \<Rightarrow> 'w registry \<Rightarrow> 'w registry result" where
  "register imp rg =
     (if map_of (operations rg) (i_name imp) \<noteq> None
      then Inl (JsError ''Error'' (''Operation '' @ i_name imp @ '' is already registered''))
      else Inr (rg\<lparr>operations := operations rg @ [(i_name imp, imp)]\<rparr>))"

fun registerAll :: "'w operation_implementation list \<Rightarrow> 'w registry \<Rightarrow> 'w registry result" where
  "registerAll [] rg = Inr rg"
| "registerAll (imp # imps) rg =
     (case register imp rg of Inl e \<Rightarrow> Inl e | Inr rg' \<Rightarrow> registerAll imps rg')"

definition rg_get :: "'w registry \<Rightarrow> string \<Rightarrow> 'w operation_implementation option" where
  "rg_get rg name = map_of (operations rg) name"

definition rg_all :: "'w registry \<Rightarrow> 'w operation_implementation list" where
  "rg_all rg = map snd (operations rg)"

section \<open>Resolving the grants\<close>

text \<open>The join: prose and approval from the Thing, behaviour from the Implementation.\<close>

definition resolve :: "'w operation_implementation \<Rightarrow> operation \<Rightarrow> props \<Rightarrow> 'w granted_operation" where
  "resolve imp thing params =
     \<lparr>g_name = i_name imp,
      g_description = coalesce (o_description thing) (sd_description (i_seed imp)),
      g_parameters = params,
      g_mutating = i_mutating imp,
      g_requiresApproval =
        coalesce (o_requiresApproval thing) (coalesce (sd_requiresApproval (i_seed imp)) False),
      g_describeCall = i_describeCall imp,
      g_execute = i_execute imp,
      g_reconcile = i_reconcile imp\<rparr>"

definition resolveDynamic :: "'w operation_host \<Rightarrow> (string \<times> describer) list \<Rightarrow> string \<Rightarrow> compiled_module
    \<Rightarrow> operation \<Rightarrow> props \<Rightarrow> 'w granted_operation" where
  "resolveDynamic host ds base m thing params =
     (let target = \<lparr>rt_key = base, rt_egress = o_egress thing, rt_timeoutMs = o_timeoutMs thing\<rparr> in
      \<lparr>g_name = base,
       g_description = coalesce (o_description thing) [],
       g_parameters = params,
       g_mutating = (o_mutating thing = Some True),
       g_requiresApproval = (o_requiresApproval thing = Some True),
       g_describeCall = map_of ds base,
       g_execute = (\<lambda>args context.
         bindE (h_run host m ExecuteMode args context target) (\<lambda>r.
           returnE (coalesce r (OError (''Operation '' @ base @ '' produced no outcome''))))),
       g_reconcile = (if h_declaresReconcile host m
         then Some (\<lambda>args context. h_run host m ReconcileMode args context target) else None)\<rparr>)"

text \<open>The own properties that \<open>{ ...v }\<close> copies: of an array or a string, its elements by index.\<close>

definition spreadable :: "json \<Rightarrow> props" where
  "spreadable v = (case v of JObj ps \<Rightarrow> ps
     | JArr xs \<Rightarrow> map (\<lambda>(i, x). (string_of_nat i, x)) (enumerate 0 xs)
     | JStr s \<Rightarrow> map (\<lambda>(i, c). (string_of_nat i, JStr [c])) (enumerate 0 s)
     | _ \<Rightarrow> [])"

definition with_assistantKey :: "string \<Rightarrow> json \<Rightarrow> json" where
  "with_assistantKey callee args = JObj (spread (spreadable args) [(''assistantKey'', JStr callee)])"

definition callee_schema :: "string \<Rightarrow> json" where
  "callee_schema callee = JObj [(''type'', JStr ''string''), (''const'', JStr callee),
     (''description'', JStr (''Always '' @ [CHR 0x22] @ callee @ [CHR 0x22] @ ''.''))]"

definition withCalleeBound :: "'w granted_operation \<Rightarrow> string \<Rightarrow> 'w granted_operation" where
  "withCalleeBound operation callee =
     operation\<lparr>g_name := g_name operation @ '':'' @ callee,
       g_description := g_description operation @ '' Calls the '' @ [CHR 0x22] @ callee @ [CHR 0x22] @ '' Assistant.'',
       g_parameters := spread (g_parameters operation)
         [(''properties'', JObj (spread (spreadable (pget (g_parameters operation) ''properties''))
            [(''assistantKey'', callee_schema callee)]))],
       g_execute := (\<lambda>args context. g_execute operation (with_assistantKey callee args) context),
       g_reconcile := map_option (\<lambda>r args context. r (with_assistantKey callee args) context)
         (g_reconcile operation)\<rparr>"

text \<open>The code half of one grant: which kind, and whether there is something to run.\<close>

datatype runnable = RunBuiltIn | RunDynamic compiled_module

definition has_source :: "operation \<Rightarrow> bool" where
  "has_source thing \<longleftrightarrow> \<not> blank (o_source thing)"

definition find_runnable :: "'w registry \<Rightarrow> string \<Rightarrow> operation \<Rightarrow> drop_reason + runnable" where
  "find_runnable rg base thing =
     (if o_implementation thing \<noteq> Some Dynamic then
        (if rg_get rg base = None then Inl Unimplemented
         else if has_source thing then Inl Ambiguous
         else Inr RunBuiltIn)
      else if rg_get rg base \<noteq> None then Inl Ambiguous
      else if \<not> has_source thing then Inl Unimplemented
      else (case rg_host rg of None \<Rightarrow> Inl Unimplemented
        | Some host \<Rightarrow>
            (case h_compile host (coalesce (o_source thing) []) (o_language thing) of
               Inl _ \<Rightarrow> Inl Uncompilable
             | Inr m \<Rightarrow>
                 if truthy (o_egress thing) \<and> \<not> h_hasEgress host (coalesce (o_egress thing) [])
                 then Inl UnconfiguredEgress else Inr (RunDynamic m))))"

text \<open>A parameter schema is the text of a JSON object.\<close>

definition parse_parameters :: "string option \<Rightarrow> props option" where
  "parse_parameters text = (case json_parse (coalesce text []) of Some (JObj ps) \<Rightarrow> Some ps | _ \<Rightarrow> None)"

definition join_operation :: "'w registry \<Rightarrow> string \<Rightarrow> operation \<Rightarrow> runnable \<Rightarrow> props \<Rightarrow> 'w granted_operation" where
  "join_operation rg base thing r params =
     (case r of
        RunDynamic m \<Rightarrow> resolveDynamic (the (rg_host rg)) (describers rg) base m thing params
      | RunBuiltIn \<Rightarrow> resolve (the (rg_get rg base)) thing params)"

definition grant_base :: "string \<Rightarrow> string" where
  "grant_base key = (if CHR '':'' \<in> set key then before_char (CHR '':'') key else key)"

text \<open>One turn of the loop over the declared grants: an Operation, or why there is none.\<close>

definition resolve_grant :: "'w registry \<Rightarrow> assistant \<Rightarrow> operation list \<Rightarrow> string
    \<Rightarrow> drop_reason + 'w granted_operation" where
  "resolve_grant rg assistant catalogue key =
     (let base = grant_base key in
      case find (\<lambda>t. o_key t = Some base) catalogue of
        None \<Rightarrow> Inl Absent
      | Some thing \<Rightarrow>
          if o_enabled thing = Some False then Inl Disabled
          else (case find_runnable rg base thing of
                  Inl reason \<Rightarrow> Inl reason
                | Inr r \<Rightarrow>
                    (case parse_parameters (o_parameters thing) of
                       None \<Rightarrow> Inl Unparseable
                     | Some params \<Rightarrow>
                         let operation = join_operation rg base thing r params in
                         if base = ''assistant.call'' then
                           (if CHR '':'' \<notin> set key then Inl BareCall
                            else let callee = after_char (CHR '':'') key in
                              if callee = [] \<or> Some callee = a_key assistant then Inl SelfCall
                              else Inr (withCalleeBound operation callee))
                         else Inr operation)))"

definition declared_grants :: "assistant \<Rightarrow> string list" where
  "declared_grants assistant =
     filter (\<lambda>k. k \<noteq> []) (map (\<lambda>g. trim (coalesce (operationKey g) [])) (coalesce (grants assistant) []))"

definition push_operation :: "'w granted_operation \<Rightarrow> 'w resolution \<Rightarrow> 'w resolution" where
  "push_operation operation res =
     (if list_ex (\<lambda>e. g_name e = g_name operation) (granted res) then res
      else res\<lparr>granted := granted res @ [operation]\<rparr>)"

definition drop_grant :: "string \<Rightarrow> drop_reason \<Rightarrow> 'w resolution \<Rightarrow> 'w resolution" where
  "drop_grant key reason res = res\<lparr>dropped := dropped res @ [\<lparr>dg_key = key, dg_reason = reason\<rparr>]\<rparr>"

fun resolve_all :: "'w registry \<Rightarrow> assistant \<Rightarrow> operation list \<Rightarrow> string list \<Rightarrow> 'w resolution \<Rightarrow> 'w resolution" where
  "resolve_all rg assistant catalogue [] res = res"
| "resolve_all rg assistant catalogue (key # keys) res =
     resolve_all rg assistant catalogue keys
       (case resolve_grant rg assistant catalogue key of
          Inl reason \<Rightarrow> drop_grant key reason res
        | Inr operation \<Rightarrow> push_operation operation res)"

definition grantedTo :: "'w registry \<Rightarrow> assistant \<Rightarrow> operation list \<Rightarrow> 'w resolution" where
  "grantedTo rg assistant catalogue =
     resolve_all rg assistant catalogue (declared_grants assistant) \<lparr>granted = [], dropped = []\<rparr>"

definition calleesOf :: "assistant \<Rightarrow> string list" where
  "calleesOf assistant =
     filter (\<lambda>callee. callee \<noteq> [] \<and> Some callee \<noteq> a_key assistant)
       (map (\<lambda>key. drop (length ''assistant.call:'') key)
         (filter (\<lambda>key. starts_with ''assistant.call:'' key)
           (map (\<lambda>g. coalesce (operationKey g) []) (coalesce (grants assistant) []))))"

definition toolSchemas :: "'w granted_operation list \<Rightarrow> tool_schema list" where
  "toolSchemas gs = map (\<lambda>g. \<lparr>ts_name = toolNameForLlm (g_name g), ts_description = g_description g,
     ts_parameters = JObj (g_parameters g)\<rparr>) gs"

definition schemasFor :: "'w registry \<Rightarrow> assistant \<Rightarrow> operation list \<Rightarrow> tool_schema list" where
  "schemasFor rg assistant catalogue = toolSchemas (granted (grantedTo rg assistant catalogue))"

definition clientExecutable :: "'w registry \<Rightarrow> operation \<Rightarrow> 'w granted_operation option" where
  "clientExecutable rg thing =
     (case rg_host rg of None \<Rightarrow> None
      | Some host \<Rightarrow>
          if \<not> has_source thing then None
          else if truthy (o_egress thing) \<and> \<not> h_hasEgress host (coalesce (o_egress thing) []) then None
          else (case h_compile host (coalesce (o_source thing) []) (o_language thing) of
                  Inl _ \<Rightarrow> None
                | Inr m \<Rightarrow>
                    let params = (case json_parse (coalesce (o_parameters thing) ''{}'') of
                                    Some (JObj ps) \<Rightarrow> ps | _ \<Rightarrow> [])
                    in Some (resolveDynamic host (describers rg) (coalesce (o_key thing) []) m thing params)))"

section \<open>What the registry keeps\<close>

text \<open>Implementations are held under their own name, once.\<close>

definition registry_ok :: "'w registry \<Rightarrow> bool" where
  "registry_ok rg \<longleftrightarrow> distinct (map fst (operations rg)) \<and>
     list_all (\<lambda>(n, imp). n = i_name imp) (operations rg)"

lemma registry_ok_register:
  assumes "registry_ok rg" and "register imp rg = Inr rg'"
  shows "registry_ok rg'"
  using assms by (auto simp: registry_ok_def register_def map_of_eq_None_iff split: if_splits)

lemma registry_ok_registerAll:
  "registry_ok rg \<Longrightarrow> registerAll imps rg = Inr rg' \<Longrightarrow> registry_ok rg'"
proof (induction imps arbitrary: rg)
  case (Cons imp imps)
  then obtain rg1 where "register imp rg = Inr rg1" "registerAll imps rg1 = Inr rg'"
    by (auto split: sum.splits)
  with Cons show ?case using registry_ok_register by blast
qed simp

lemma rg_get_name: "registry_ok rg \<Longrightarrow> rg_get rg n = Some imp \<Longrightarrow> i_name imp = n"
  by (force simp: registry_ok_def rg_get_def list_all_iff dest: map_of_SomeD)

section \<open>What resolving the grants gives\<close>

lemma resolve_grant_cases:
  assumes "resolve_grant rg assistant catalogue key = Inr g"
  obtains thing r params where "find (\<lambda>t. o_key t = Some (grant_base key)) catalogue = Some thing"
    and "o_enabled thing \<noteq> Some False" and "find_runnable rg (grant_base key) thing = Inr r"
    and "parse_parameters (o_parameters thing) = Some params"
    and "g = join_operation rg (grant_base key) thing r params \<and> grant_base key \<noteq> ''assistant.call''
         \<or> (grant_base key = ''assistant.call'' \<and> CHR '':'' \<in> set key \<and> after_char (CHR '':'') key \<noteq> []
            \<and> Some (after_char (CHR '':'') key) \<noteq> a_key assistant
            \<and> g = withCalleeBound (join_operation rg (grant_base key) thing r params) (after_char (CHR '':'') key))"
  using assms
  by (fastforce simp: resolve_grant_def Let_def split: option.splits if_splits sum.splits)

lemma resolve_all_snoc:
  "resolve_all rg a cat (keys @ [key]) res =
     (let r = resolve_all rg a cat keys res in
      case resolve_grant rg a cat key of
        Inl reason \<Rightarrow> drop_grant key reason r | Inr operation \<Rightarrow> push_operation operation r)"
  by (induction keys arbitrary: res) (simp_all add: Let_def)

lemma push_drop_simps [simp]:
  "dropped (push_operation operation res) = dropped res"
  "granted (drop_grant key reason res) = granted res"
  "dropped (drop_grant key reason res) = dropped res @ [\<lparr>dg_key = key, dg_reason = reason\<rparr>]"
  by (simp_all add: push_operation_def drop_grant_def)

lemma granted_push:
  "granted (push_operation operation res)
     = (if g_name operation \<in> g_name ` set (granted res) then granted res else granted res @ [operation])"
  by (auto simp: push_operation_def list_ex_iff) (metis image_eqI)

lemma granted_from:
  assumes "g \<in> set (granted (resolve_all rg a cat keys \<lparr>granted = [], dropped = []\<rparr>))"
  shows "\<exists>key \<in> set keys. resolve_grant rg a cat key = Inr g"
  using assms
proof (induction keys rule: rev_induct)
  case (snoc key keys)
  then show ?case
    by (cases "resolve_grant rg a cat key")
      (auto simp: resolve_all_snoc Let_def granted_push split: if_splits)
qed simp

lemma granted_distinct:
  "distinct (map g_name (granted (resolve_all rg a cat keys \<lparr>granted = [], dropped = []\<rparr>)))"
proof (induction keys rule: rev_induct)
  case (snoc key keys)
  then show ?case
    by (cases "resolve_grant rg a cat key") (auto simp: resolve_all_snoc Let_def granted_push)
qed simp

lemma granted_or_dropped:
  assumes "key \<in> set keys"
  shows "case resolve_grant rg a cat key of
      Inr g \<Rightarrow> g_name g \<in> g_name ` set (granted (resolve_all rg a cat keys \<lparr>granted = [], dropped = []\<rparr>))
    | Inl reason \<Rightarrow> \<lparr>dg_key = key, dg_reason = reason\<rparr>
        \<in> set (dropped (resolve_all rg a cat keys \<lparr>granted = [], dropped = []\<rparr>))"
  using assms
proof (induction keys rule: rev_induct)
  case (snoc k keys)
  then show ?case
    by (cases "resolve_grant rg a cat k"; cases "resolve_grant rg a cat key")
      (auto simp: resolve_all_snoc Let_def granted_push)
qed simp

lemma dropped_from:
  assumes "d \<in> set (dropped (resolve_all rg a cat keys \<lparr>granted = [], dropped = []\<rparr>))"
  shows "dg_key d \<in> set keys \<and> resolve_grant rg a cat (dg_key d) = Inl (dg_reason d)"
  using assms
proof (induction keys rule: rev_induct)
  case (snoc key keys)
  then show ?case
    by (cases "resolve_grant rg a cat key") (auto simp: resolve_all_snoc Let_def)
qed simp

lemma granted_thing:
  assumes "g \<in> set (granted (grantedTo rg a cat))"
  obtains key thing where "key \<in> set (declared_grants a)" "thing \<in> set cat"
    "o_key thing = Some (grant_base key)" "o_enabled thing \<noteq> Some False"
    "resolve_grant rg a cat key = Inr g"
    "find (\<lambda>t. o_key t = Some (grant_base key)) cat = Some thing"
proof -
  from granted_from assms obtain key where k: "key \<in> set (declared_grants a)" "resolve_grant rg a cat key = Inr g"
    unfolding grantedTo_def by blast
  from k(2) obtain thing where "find (\<lambda>t. o_key t = Some (grant_base key)) cat = Some thing"
    "o_enabled thing \<noteq> Some False" by (rule resolve_grant_cases)
  with k find_SomeD [of "\<lambda>t. o_key t = Some (grant_base key)" cat thing] that show thesis by blast
qed

lemma grant_base_split:
  "CHR '':'' \<in> set key \<Longrightarrow> grant_base key @ '':'' @ after_char (CHR '':'') key = key"
  "CHR '':'' \<notin> set key \<Longrightarrow> grant_base key = key"
  using before_after_char [of "CHR '':''" key] by (simp_all add: grant_base_def)

lemma find_runnable_builtin:
  "find_runnable rg base thing = Inr RunBuiltIn \<Longrightarrow> o_implementation thing \<noteq> Some Dynamic \<and> rg_get rg base \<noteq> None"
  by (auto simp: find_runnable_def split: if_splits option.splits sum.splits)

lemma find_runnable_dynamic:
  "find_runnable rg base thing = Inr (RunDynamic m) \<Longrightarrow>
     o_implementation thing = Some Dynamic \<and> rg_get rg base = None \<and> has_source thing \<and>
     (\<exists>host. rg_host rg = Some host
        \<and> h_compile host (coalesce (o_source thing) []) (o_language thing) = Inr m
        \<and> (truthy (o_egress thing) \<longrightarrow> h_hasEgress host (coalesce (o_egress thing) [])))"
  by (auto simp: find_runnable_def split: if_splits option.splits sum.splits)

lemma withCalleeBound_simps [simp]:
  "g_name (withCalleeBound g c) = g_name g @ '':'' @ c"
  "g_mutating (withCalleeBound g c) = g_mutating g"
  "g_requiresApproval (withCalleeBound g c) = g_requiresApproval g"
  by (simp_all add: withCalleeBound_def)

lemma resolve_simps [simp]:
  "g_name (resolve imp thing ps) = i_name imp"
  "g_mutating (resolve imp thing ps) = i_mutating imp"
  "g_name (resolveDynamic host ds base m thing ps) = base"
  "g_mutating (resolveDynamic host ds base m thing ps) \<longleftrightarrow> o_mutating thing = Some True"
  "g_requiresApproval (resolveDynamic host ds base m thing ps) \<longleftrightarrow> o_requiresApproval thing = Some True"
  by (simp_all add: resolve_def resolveDynamic_def Let_def)

lemma join_name:
  assumes "registry_ok rg" and "find_runnable rg base thing = Inr r"
  shows "g_name (join_operation rg base thing r ps) = base"
proof (cases r)
  case RunBuiltIn
  with assms(2) obtain imp where "rg_get rg base = Some imp" using find_runnable_builtin by fastforce
  with assms(1) RunBuiltIn show ?thesis using rg_get_name by (fastforce simp: join_operation_def)
qed (simp add: join_operation_def)

subsection \<open>A registry to evaluate on\<close>

definition sample_seed :: operation_seed where
  "sample_seed = \<lparr>sd_name = ''Call'', sd_system = ''runtime'', sd_kind = ''internal'',
     sd_description = ''Call another Assistant.'', sd_parameters = [], sd_requiresApproval = Some True\<rparr>"

definition sample_implementation :: "string \<Rightarrow> bool \<Rightarrow> 'w operation_implementation" where
  "sample_implementation name mutates = \<lparr>i_name = name, i_mutating = mutates, i_clientReadable = \<not> mutates,
     i_execute = (\<lambda>args context. returnE (OValue args)), i_reconcile = None, i_describeCall = None,
     i_seed = sample_seed\<rparr>"

definition sample_registry :: "'w registry" where
  "sample_registry = \<lparr>operations = [(''assistant.call'', sample_implementation ''assistant.call'' True),
       (''document.read'', sample_implementation ''document.read'' False)],
     rg_host = None, describers = []\<rparr>"

definition sample_operation :: "string \<Rightarrow> operation" where
  "sample_operation key = \<lparr>idempotencyKey = None, createdByConversationId = None, createdAt = None,
     updatedAt = None, o_key = Some key, o_name = None, o_system = None, o_kind = None,
     o_description = None, o_parameters = Some ''{}'', o_mutating = Some False,
     o_requiresApproval = None, o_enabled = None, o_notes = None, o_implementation = None,
     o_source = None, o_language = None, o_egress = None, o_timeoutMs = None, o_clientReadable = None\<rparr>"

definition sample_assistant :: "string \<Rightarrow> string list \<Rightarrow> assistant" where
  "sample_assistant key ks = \<lparr>idempotencyKey = None, createdByConversationId = None, createdAt = None,
     updatedAt = None, a_key = Some key, a_name = None, a_description = None, systemPrompt = None,
     llmModel = None, a_enabled = None, a_maxTurns = None, skills = None, triggers = None,
     grants = Some (map (\<lambda>k. \<lparr>operationKey = Some k\<rparr>) ks)\<rparr>"

definition sample_catalogue :: "operation list" where
  "sample_catalogue = [sample_operation ''assistant.call'', sample_operation ''document.read'']"

lemma sample_registry_ok: "registry_ok sample_registry"
  by (simp add: registry_ok_def sample_registry_def sample_implementation_def)

definition sample_resolution :: "unit resolution" where
  "sample_resolution = grantedTo sample_registry (sample_assistant ''clerk''
     [''assistant.call:accountant'', ''assistant.call:clerk'', ''assistant.call'', ''mail.send'',
      '' document.read '', ''document.read'']) sample_catalogue"

lemma sample_granted:
  "map g_name (granted sample_resolution) = [''assistant.call:accountant'', ''document.read'']"
  by code_simp

lemma sample_dropped:
  "dropped sample_resolution = [\<lparr>dg_key = ''assistant.call:clerk'', dg_reason = SelfCall\<rparr>,
     \<lparr>dg_key = ''assistant.call'', dg_reason = BareCall\<rparr>, \<lparr>dg_key = ''mail.send'', dg_reason = Absent\<rparr>]"
  by code_simp

section \<open>The promises of the registry\<close>

lemma granted_declared:
  assumes "registry_ok rg" and "g \<in> set (granted (grantedTo rg a cat))"
  shows "\<exists>key \<in> set (declared_grants a). \<exists>thing \<in> set cat.
     o_key thing = Some (grant_base key) \<and> o_enabled thing \<noteq> Some False \<and>
     g_name g = (if grant_base key = ''assistant.call'' then key else grant_base key)"
proof -
  from assms(2) obtain key thing where k: "key \<in> set (declared_grants a)" "thing \<in> set cat"
    "o_key thing = Some (grant_base key)" "o_enabled thing \<noteq> Some False"
    and r: "resolve_grant rg a cat key = Inr g" by (rule granted_thing)
  from r have "g_name g = (if grant_base key = ''assistant.call'' then key else grant_base key)"
    by (rule resolve_grant_cases) (auto simp: join_name [OF assms(1)] dest: grant_base_split(1))
  with k show ?thesis by blast
qed

text \<open>
  C32. An Operation an Assistant is offered stands behind one of the grants the Assistant declares: the
  catalogue holds the Operation under the grant's key and has not switched it off, and the offered
  name is the grant itself for a bound callee and the catalogue key otherwise.
\<close>

theorem granted_sound:
  assumes "registry_ok rg" and "g \<in> set (granted (grantedTo rg a cat))"
  shows "\<exists>key \<in> set (declared_grants a). \<exists>thing \<in> set cat.
     o_key thing = Some (grant_base key) \<and> o_enabled thing \<noteq> Some False \<and>
     g_name g = (if grant_base key = ''assistant.call'' then key else grant_base key)"
  using assms by (rule granted_declared)

theorem granted_sound_witness:
  "\<exists>key \<in> set (declared_grants (sample_assistant ''clerk'' [''assistant.call:accountant''])).
     \<exists>thing \<in> set sample_catalogue. o_key thing = Some (grant_base key) \<and> o_enabled thing \<noteq> Some False \<and>
     g_name (hd (granted (grantedTo (sample_registry :: unit registry)
        (sample_assistant ''clerk'' [''assistant.call:accountant'']) sample_catalogue)))
       = (if grant_base key = ''assistant.call'' then key else grant_base key)"
proof -
  let ?gs = "granted (grantedTo (sample_registry :: unit registry)
      (sample_assistant ''clerk'' [''assistant.call:accountant'']) sample_catalogue)"
  have "length ?gs = 1" by code_simp
  then have "?gs \<noteq> []" by (metis list.size(3) zero_neq_one)
  then show ?thesis by (intro granted_sound [OF sample_registry_ok] hd_in_set)
qed

text \<open>
  Resolving the grants loses none and doubles none: every declared grant either names an
  Operation that is offered or is reported as dropped with the reason for which it resolves to
  nothing, every report is of such a grant, and no two Operations are offered under one name.
\<close>
theorem grants_accounted_for:
  "(\<forall>key \<in> set (declared_grants a). case resolve_grant rg a cat key of
       Inr g \<Rightarrow> g_name g \<in> g_name ` set (granted (grantedTo rg a cat))
     | Inl reason \<Rightarrow> \<lparr>dg_key = key, dg_reason = reason\<rparr> \<in> set (dropped (grantedTo rg a cat))) \<and>
   (\<forall>d \<in> set (dropped (grantedTo rg a cat)).
       dg_key d \<in> set (declared_grants a) \<and> resolve_grant rg a cat (dg_key d) = Inl (dg_reason d)) \<and>
   distinct (map g_name (granted (grantedTo rg a cat)))"
  using granted_or_dropped [of _ "declared_grants a" rg a cat] dropped_from granted_distinct
  unfolding grantedTo_def by blast

theorem grants_accounted_for_witness:
  "''assistant.call:accountant'' \<in> g_name ` set (granted sample_resolution) \<and>
   \<lparr>dg_key = ''mail.send'', dg_reason = Absent\<rparr> \<in> set (dropped sample_resolution) \<and>
   distinct (map g_name (granted sample_resolution))"
proof -
  have d: "distinct (map g_name (granted sample_resolution))"
    using grants_accounted_for unfolding sample_resolution_def by blast
  have "''assistant.call:accountant'' \<in> set (map g_name (granted sample_resolution))"
    unfolding sample_granted by simp
  moreover have "\<lparr>dg_key = ''mail.send'', dg_reason = Absent\<rparr> \<in> set (dropped sample_resolution)"
    unfolding sample_dropped by simp
  ultimately show ?thesis using d by simp
qed

text \<open>
  Whether a built-in Operation changes anything, and how it is executed and reconciled, is taken
  from its registered Implementation whatever the Thing in the catalogue says; its approval is the
  Thing's own where that is set, and the shipped one where it is not.
\<close>
theorem builtin_authoritative:
  assumes "resolve_grant rg a cat key = Inr g" and "grant_base key \<noteq> ''assistant.call''"
    and "find (\<lambda>t. o_key t = Some (grant_base key)) cat = Some thing"
    and "o_implementation thing \<noteq> Some Dynamic"
  shows "\<exists>imp. rg_get rg (grant_base key) = Some imp \<and> g_mutating g = i_mutating imp \<and>
     g_execute g = i_execute imp \<and> g_reconcile g = i_reconcile imp \<and>
     g_requiresApproval g = (case o_requiresApproval thing of Some b \<Rightarrow> b
        | None \<Rightarrow> sd_requiresApproval (i_seed imp) = Some True)"
proof -
  from assms(1) obtain r params where r: "find_runnable rg (grant_base key) thing = Inr r"
    and g: "g = join_operation rg (grant_base key) thing r params"
    by (rule resolve_grant_cases) (use assms(2,3) in auto)
  have "r = RunBuiltIn"
    using r assms(4) find_runnable_dynamic by (cases r) fastforce+
  moreover from this obtain imp where "rg_get rg (grant_base key) = Some imp"
    using find_runnable_builtin r by fastforce
  ultimately show ?thesis
    using g by (auto simp: join_operation_def resolve_def coalesce_def split: option.split)
qed

theorem builtin_authoritative_witness:
  "\<exists>imp. rg_get (sample_registry :: unit registry) ''document.read'' = Some imp \<and> \<not> i_mutating imp"
proof -
  let ?a = "sample_assistant ''clerk'' [''document.read'']"
  have "case resolve_grant (sample_registry :: unit registry) ?a sample_catalogue ''document.read'' of
      Inl _ \<Rightarrow> False | Inr g \<Rightarrow> \<not> g_mutating g" by code_simp
  then obtain g where g: "resolve_grant (sample_registry :: unit registry) ?a sample_catalogue ''document.read'' = Inr g"
    and m: "\<not> g_mutating g" by (auto split: sum.splits)
  have b: "grant_base ''document.read'' = ''document.read''" by code_simp
  have f: "find (\<lambda>t. o_key t = Some ''document.read'') sample_catalogue = Some (sample_operation ''document.read'')"
    by (simp add: sample_catalogue_def sample_operation_def)
  have "\<exists>imp. rg_get (sample_registry :: unit registry) ''document.read'' = Some imp \<and> g_mutating g = i_mutating imp"
    using builtin_authoritative [OF g, of "sample_operation ''document.read''"] f
    by (auto simp: b sample_operation_def)
  with m show ?thesis by auto
qed

text \<open>
  A name of words separated by dots survives the trip through the model's wire format; a name
  with a callee, which has a colon, is never given back by the reverse mapping, which is why a call
  is resolved by comparing wire names.
\<close>
theorem wire_names:
  "(dotted name \<longrightarrow> operationFromLlm (toolNameForLlm name) = name) \<and>
   (CHR '':'' \<in> set name \<longrightarrow> operationFromLlm (toolNameForLlm name) \<noteq> name)"
  using toolName_roundtrip_dotted operationFromLlm_no_colon toolName_no_colon(1) by metis

theorem wire_names_witness:
  "operationFromLlm (toolNameForLlm ''bookkeeping.postTransaction'') = ''bookkeeping.postTransaction'' \<and>
   operationFromLlm (toolNameForLlm ''assistant.call:accountant'') \<noteq> ''assistant.call:accountant''"
proof -
  have "dotted ''bookkeeping.postTransaction''" by code_simp
  then show ?thesis
    using wire_names [of "''bookkeeping.postTransaction''"] wire_names [of "''assistant.call:accountant''"]
    by simp
qed

end
