(* ===== verification/Transcript.thy ===== *)
theory Transcript
  imports Registry
begin

text \<open>
  The record of a Conversation, as \<open>runtime/src/loop/advance.ts\<close> reads and writes it: how an entry
  is numbered and appended, when the record is full, which approval a call has, what the model is
  sent, which interrupted call is outstanding, and what a Turn is charged. Everything here is a
  function of the Conversation; the loop that uses it is in theory \<open>Loop\<close>.
\<close>

section \<open>Entries\<close>

definition MAX_ENTRIES :: nat where
  "MAX_ENTRIES = 100"

definition ENTRY_HEADROOM :: nat where
  "ENTRY_HEADROOM = 5"

definition nextSeq :: "conversation \<Rightarrow> int" where
  "nextSeq c = fold (\<lambda>e m. max m (coalesce (e_seq e) 0)) (entry_list c) 0 + 1"

definition isFull :: "conversation \<Rightarrow> bool" where
  "isFull c \<longleftrightarrow> MAX_ENTRIES < length (entry_list c) + ENTRY_HEADROOM"

definition appendEntry :: "int \<Rightarrow> entry \<Rightarrow> conversation \<Rightarrow> conversation" where
  "appendEntry now e c =
     c\<lparr>entries := Some (entry_list c @ [e\<lparr>e_seq := Some (nextSeq c), e_at := Some (nowIso now)\<rparr>])\<rparr>"

text \<open>
  The code keeps a reference to an entry it appended and writes to it later; here the reference is
  the entry's place in the record, which only grows during a Turn.
\<close>

definition modify_entry :: "nat \<Rightarrow> (entry \<Rightarrow> entry) \<Rightarrow> conversation \<Rightarrow> conversation" where
  "modify_entry i f c =
     c\<lparr>entries := Some (map (\<lambda>(j, e). if j = i then f e else e) (enumerate 0 (entry_list c)))\<rparr>"

section \<open>Approvals\<close>

definition canonicalArgsHash :: "(string \<Rightarrow> string) \<Rightarrow> json \<Rightarrow> string" where
  "canonicalArgsHash sha256 args = sha256 (canonicalJson args)"

datatype approval_state =
    AMissing
  | AWaiting string
  | ADeclined string string
  | AConsumed string
  | AValid string

definition is_request :: "string \<Rightarrow> string \<Rightarrow> entry \<Rightarrow> bool" where
  "is_request operation argsHash e \<longleftrightarrow> e_kind e = Some ''approval-request'' \<and>
     e_toolName e = Some operation \<and> e_argsHash e = Some argsHash"

definition approvalRequestsFor :: "conversation \<Rightarrow> string \<Rightarrow> string \<Rightarrow> entry list" where
  "approvalRequestsFor c operation argsHash = filter (is_request operation argsHash) (entry_list c)"

definition is_answer :: "string \<Rightarrow> entry \<Rightarrow> bool" where
  "is_answer questionId e \<longleftrightarrow> e_kind e = Some ''answer'' \<and> e_questionId e = Some questionId"

definition spends :: "string \<Rightarrow> string \<Rightarrow> entry \<Rightarrow> entry \<Rightarrow> bool" where
  "spends operation argsHash answer e \<longleftrightarrow> e_kind e = Some ''tool-result'' \<and>
     e_toolName e = Some operation \<and> e_argsHash e = Some argsHash \<and>
     coalesce (e_seq answer) 0 < coalesce (e_seq e) 0"

definition DECLINED :: string where
  "DECLINED = ''The User declined this booking.''"

definition ANSWERED_WITHOUT_CONFIRMING :: string where
  "ANSWERED_WITHOUT_CONFIRMING =
     ''The User answered without confirming, which is not an approval. Nothing was ''
     @ ''booked. If you still believe it should be, say so and let them decide.''"

text \<open>The verdict once the question of the last request is read.\<close>

definition judge_question ::
  "conversation \<Rightarrow> string \<Rightarrow> string \<Rightarrow> string \<Rightarrow> open_question option \<Rightarrow> approval_state" where
  "judge_question c operation argsHash questionId question =
     (case question of
        None \<Rightarrow> AMissing
      | Some q \<Rightarrow>
          if q_confirmed q \<noteq> Some True then
            (if q_confirmed q = Some False then ADeclined questionId DECLINED
             else if \<not> blank (q_text q) \<or> \<not> blank (q_choice q) \<or> truthy (q_answeredAt q)
             then ADeclined questionId ANSWERED_WITHOUT_CONFIRMING
             else AWaiting questionId)
          else (case find (is_answer questionId) (entry_list c) of
                  None \<Rightarrow> AWaiting questionId
                | Some answer \<Rightarrow>
                    if list_ex (spends operation argsHash answer) (entry_list c)
                    then AConsumed questionId else AValid questionId))"

definition findApproval :: "conversation \<Rightarrow> string \<Rightarrow> string
    \<Rightarrow> (string \<Rightarrow> ('s, open_question option) io) \<Rightarrow> ('s, approval_state) io" where
  "findApproval c operation argsHash loadQuestion =
     (case last_match (is_request operation argsHash) (entry_list c) of
        None \<Rightarrow> returnE AMissing
      | Some request \<Rightarrow>
          let questionId = coalesce (e_questionId request) [] in
          bindE (loadQuestion questionId) (\<lambda>question.
            returnE (judge_question c operation argsHash questionId question)))"

definition stampSpentApproval :: "string \<Rightarrow> entry \<Rightarrow> entry" where
  "stampSpentApproval argsHash result = result\<lparr>e_argsHash := Some argsHash\<rparr>"

definition backticks :: string where
  "backticks = [CHR 0x60, CHR 0x60, CHR 0x60]"

definition renderApprovalPrompt :: "'w granted_operation \<Rightarrow> json \<Rightarrow> string result" where
  "renderApprovalPrompt operation args =
     (case (case g_describeCall operation of None \<Rightarrow> Inr [] | Some describe \<Rightarrow> describe args) of
        Inl e \<Rightarrow> Inl e
      | Inr text \<Rightarrow>
          let described = trim text;
              body = (if described \<noteq> [] then described
                else join nl [''Approve calling **'' @ g_name operation @ ''** with these arguments?'', [],
                       backticks @ ''json'', stringify_pretty 0 args, backticks])
          in Inr (join nl [''**Approval needed.**'', [], body, [],
                    ''Confirm to let it go ahead. Nothing happens unless you do.'']))"

section \<open>What the model is sent\<close>

definition safeParse :: "string option \<Rightarrow> json" where
  "safeParse raw =
     (if truthy raw then (case json_parse (coalesce raw []) of
         Some (JObj ps) \<Rightarrow> JObj ps | Some (JArr xs) \<Rightarrow> JArr xs | _ \<Rightarrow> JObj [])
      else JObj [])"

definition call_id :: "entry \<Rightarrow> string" where
  "call_id e = coalesce (e_idempotencyKey e) (string_of_int (coalesce (e_seq e) 0))"

definition entry_messages :: "entry \<Rightarrow> llm_message list" where
  "entry_messages e =
     (let kind = coalesce (e_kind e) []; text = coalesce (e_text e) [] in
      if kind = ''prompt'' then [plain_message ''user'' text]
      else if kind = ''assistant'' then [plain_message ''assistant'' text]
      else if kind = ''tool-intent'' then
        [(plain_message ''assistant'' text)\<lparr>m_toolCalls := Some
            [\<lparr>tc_id = call_id e, tc_name = toolNameForLlm (coalesce (e_toolName e) []),
              tc_arguments = safeParse (e_toolArgs e)\<rparr>]\<rparr>]
      else if kind = ''tool-result'' then
        [(plain_message ''tool'' (coalesce (e_toolResult e) []))
            \<lparr>m_toolCallId := Some (call_id e), m_toolName := Some (coalesce (e_toolName e) [])\<rparr>]
      else if kind \<in> {''answer'', ''timeout'', ''note'', ''error''} then [plain_message ''user'' text]
      else if text \<noteq> [] then [plain_message ''user'' text] else [])"

definition skill_text :: "skill \<Rightarrow> string" where
  "skill_text s = nl @ ''## Skill: '' @ coalesce (sk_name s) ''unnamed'' @ nl @ nl @ coalesce (instructions s) []"

definition system_prompt :: "assistant \<Rightarrow> string" where
  "system_prompt a = join nl (filter (\<lambda>t. t \<noteq> [])
     (trim (coalesce (systemPrompt a) [])
      # map skill_text (filter (\<lambda>s. \<not> blank (instructions s)) (coalesce (skills a) []))))"

definition buildMessages :: "assistant \<Rightarrow> conversation \<Rightarrow> llm_message list" where
  "buildMessages a c =
     plain_message ''system'' (system_prompt a) # concat (map entry_messages (entry_list c))"

section \<open>The interrupted call\<close>

definition unresolvedIntent :: "conversation \<Rightarrow> entry option" where
  "unresolvedIntent c =
     (let resolved = map (\<lambda>e. coalesce (e_idempotencyKey e) [])
            (filter (\<lambda>e. e_kind e = Some ''tool-result'') (entry_list c))
      in find (\<lambda>e. coalesce (e_idempotencyKey e) [] \<notin> set resolved)
           (filter (\<lambda>e. e_kind e = Some ''tool-intent'') (entry_list c)))"

section \<open>What the model is told of a call that resolves to nothing\<close>

fun DROP_REASONS :: "drop_reason \<Rightarrow> string \<Rightarrow> string" where
  "DROP_REASONS Disabled n = n @ '' is switched off. The User has disabled it, so nothing was done; ask them if you need it.''"
| "DROP_REASONS Unimplemented n = n @ '' is no longer implemented, so there is nothing to call.''"
| "DROP_REASONS Absent n = n @ '' is granted to you, but no such Operation exists in this system.''"
| "DROP_REASONS Unparseable n = n @ '' is misconfigured: its parameters are not valid JSON, so it cannot be called.''"
| "DROP_REASONS SelfCall n = n @ '' would call yourself, which is not permitted.''"
| "DROP_REASONS BareCall n = n @ '' is not a wildcard: name the Assistant you mean, as ''
     @ [CHR 0x22] @ ''assistant.call:<key>'' @ [CHR 0x22] @ ''.''"
| "DROP_REASONS Ambiguous n = n @ '' resolves to both a built-in and a stored Implementation, so the Runtime ''
     @ ''will not guess which is authoritative; the User must resolve it.''"
| "DROP_REASONS Uncompilable n = n @ [CHR 0x27]
     @ ''s stored code does not compile, so there is nothing to call; the User must fix its Source.''"
| "DROP_REASONS UnconfiguredEgress n = n @ '' names an egress this deployment has not configured, so it cannot reach anything.''"

definition unresolvedCallMessage ::
  "string \<Rightarrow> string \<Rightarrow> dropped_grant list \<Rightarrow> 'w granted_operation list \<Rightarrow> string" where
  "unresolvedCallMessage operation wireName ds gs =
     (let drop = or_else (find (\<lambda>d. toolNameForLlm (dg_key d) = wireName) ds)
                         (find (\<lambda>d. dg_key d = operation) ds);
          named = [CHR 0x22] @ (case drop of Some d \<Rightarrow> dg_key d | None \<Rightarrow> operation) @ [CHR 0x22];
          reason = (case drop of Some d \<Rightarrow> DROP_REASONS (dg_reason d) named
                    | None \<Rightarrow> named @ '' is not granted to you.'');
          available = map g_name gs
      in ''Error: '' @ reason @ '' '' @
         (if available \<noteq> [] then ''Available: '' @ join '', '' available
          else ''You have no Operations available at all.''))"

section \<open>What a Turn is charged\<close>

definition recordUsage :: "llm_usage option \<Rightarrow> entry \<Rightarrow> entry" where
  "recordUsage usage e = (case usage of None \<Rightarrow> e
     | Some u \<Rightarrow> e\<lparr>e_promptTokens := Some (promptTokens u), e_completionTokens := Some (completionTokens u)\<rparr>)"

definition plausible_count :: "json \<Rightarrow> js_num option" where
  "plausible_count v = (case v of
     JNum n \<Rightarrow> if is_finite_num n \<and> \<not> num_negative n then Some n else None | _ \<Rightarrow> None)"

definition operationUsage :: "json \<Rightarrow> llm_usage option" where
  "operationUsage v = (case pget (obj_props v) ''usage'' of
     JObj usage \<Rightarrow>
       (case (plausible_count (pget usage ''promptTokens''), plausible_count (pget usage ''completionTokens'')) of
          (Some p, Some c) \<Rightarrow> Some \<lparr>promptTokens = p, completionTokens = c\<rparr>
        | _ \<Rightarrow> None)
   | _ \<Rightarrow> None)"

definition addUsage :: "llm_usage option \<Rightarrow> entry \<Rightarrow> entry" where
  "addUsage usage e = (case usage of None \<Rightarrow> e
     | Some u \<Rightarrow> e\<lparr>
         e_promptTokens := Some (num_add (coalesce (e_promptTokens e) (num_of_int 0)) (promptTokens u)),
         e_completionTokens := Some (num_add (coalesce (e_completionTokens e) (num_of_int 0)) (completionTokens u))\<rparr>)"

section \<open>Numbering\<close>

abbreviation seq_of :: "entry \<Rightarrow> int" where
  "seq_of e \<equiv> coalesce (e_seq e) 0"

lemma fold_max_seq: "fold (\<lambda>e m. max m (seq_of e)) es k = Max (insert k (seq_of ` set es))"
proof (induction es arbitrary: k)
  case (Cons e es)
  then show ?case by (cases "es = []") (auto simp: max.commute max.left_commute)
qed simp

lemma nextSeq_greater: "e \<in> set (entry_list c) \<Longrightarrow> seq_of e < nextSeq c"
  and nextSeq_pos: "0 < nextSeq c"
proof -
  have n: "nextSeq c = Max (insert 0 (seq_of ` set (entry_list c))) + 1"
    by (simp add: nextSeq_def fold_max_seq)
  have f: "finite (insert 0 (seq_of ` set (entry_list c)))" by simp
  show "0 < nextSeq c" using Max_ge [OF f, of 0] n by simp
  show "seq_of e < nextSeq c" if "e \<in> set (entry_list c)"
    using Max_ge [OF f, of "seq_of e"] n that by simp
qed

lemma entry_list_append [simp]:
  "entry_list (appendEntry t e c)
     = entry_list c @ [e\<lparr>e_seq := Some (nextSeq c), e_at := Some (nowIso t)\<rparr>]"
  by (simp add: appendEntry_def)

text \<open>An append changes nothing but the record.\<close>

lemma appendEntry_frame [simp]:
  "status (appendEntry t e c) = status c" "waitingFor (appendEntry t e c) = waitingFor c"
  "leaseUntil (appendEntry t e c) = leaseUntil c" "turnCount (appendEntry t e c) = turnCount c"
  "escalationCount (appendEntry t e c) = escalationCount c" "maxTurns (appendEntry t e c) = maxTurns c"
  "currentQuestionId (appendEntry t e c) = currentQuestionId c" "c_lastError (appendEntry t e c) = c_lastError c"
  "finishReason (appendEntry t e c) = finishReason c" "wakeAt (appendEntry t e c) = wakeAt c"
  by (simp_all add: appendEntry_def)

lemma entry_list_modify:
  "entry_list (modify_entry i f c) = map (\<lambda>(j, e). if j = i then f e else e) (enumerate 0 (entry_list c))"
  by (simp add: modify_entry_def)

lemma length_modify [simp]: "length (entry_list (modify_entry i f c)) = length (entry_list c)"
  by (simp add: entry_list_modify)

lemma nth_modify:
  "j < length (entry_list c) \<Longrightarrow>
     entry_list (modify_entry i f c) ! j = (if j = i then f (entry_list c ! j) else entry_list c ! j)"
  by (simp add: entry_list_modify nth_enumerate_eq)

lemma modify_entry_update:
  "entry_list (modify_entry i f c) = (entry_list c)[i := f (entry_list c ! i)]"
  by (rule nth_equalityI) (auto simp: nth_modify nth_list_update)

lemma modify_entry_frame [simp]:
  "status (modify_entry i f c) = status c" "waitingFor (modify_entry i f c) = waitingFor c"
  "leaseUntil (modify_entry i f c) = leaseUntil c" "turnCount (modify_entry i f c) = turnCount c"
  "escalationCount (modify_entry i f c) = escalationCount c" "maxTurns (modify_entry i f c) = maxTurns c"
  "currentQuestionId (modify_entry i f c) = currentQuestionId c" "c_lastError (modify_entry i f c) = c_lastError c"
  "finishReason (modify_entry i f c) = finishReason c" "wakeAt (modify_entry i f c) = wakeAt c"
  by (simp_all add: modify_entry_def)

text \<open>Stamping the entry just appended is appending the stamped entry.\<close>

lemma modify_last:
  assumes "\<And>x. e_seq (f x) = e_seq x" "\<And>x s t. f (x\<lparr>e_seq := s, e_at := t\<rparr>) = (f x)\<lparr>e_seq := s, e_at := t\<rparr>"
  shows "entry_list (modify_entry (length (entry_list c)) f (appendEntry t e c)) = entry_list (appendEntry t (f e) c)"
  by (simp add: modify_entry_update assms)

text \<open>Entries are numbered from 1 in the order of the record.\<close>

definition numbered :: "conversation \<Rightarrow> bool" where
  "numbered c \<longleftrightarrow> sorted_wrt (<) (0 # map seq_of (entry_list c))"

lemma numbered_append: "numbered c \<Longrightarrow> numbered (appendEntry t e c)"
  using nextSeq_greater [of _ c] nextSeq_pos [of c] by (auto simp: numbered_def sorted_wrt_append)

lemma numbered_distinct: "numbered c \<Longrightarrow> distinct (map seq_of (entry_list c))"
  by (simp add: numbered_def strict_sorted_iff)

lemma string_of_int_inject:
  assumes "0 < m" "0 < n" "string_of_int m = string_of_int n"
  shows "m = n"
proof -
  from assms have "digits_of (nat m) = digits_of (nat n)" by (simp add: string_of_int_def)
  then have "Some (nat m) = Some (nat n)" using nat_of_digits_digits_of by metis
  with assms show ?thesis by simp
qed

section \<open>Approvals are spent once\<close>

lemma findApproval_result:
  "fst (findApproval c op h load s) = Inr (AValid q) \<longleftrightarrow>
     (\<exists>request question. last_match (is_request op h) (entry_list c) = Some request \<and>
        q = coalesce (e_questionId request) [] \<and> fst (load q s) = Inr (Some question) \<and>
        q_confirmed question = Some True \<and>
        (\<exists>answer. find (is_answer q) (entry_list c) = Some answer \<and>
           \<not> list_ex (spends op h answer) (entry_list c)))"
proof (cases "last_match (is_request op h) (entry_list c)")
  case None
  then show ?thesis by (simp add: findApproval_def io_defs)
next
  case (Some r)
  obtain qr s' where l: "load (coalesce (e_questionId r) []) s = (qr, s')" by fastforce
  show ?thesis
  proof (cases qr)
    case (Inl e)
    with l Some show ?thesis by (auto simp: findApproval_def Let_def io_defs)
  next
    case (Inr question)
    with l Some show ?thesis
      by (auto simp: findApproval_def judge_question_def Let_def io_defs split: option.splits if_splits)
  qed
qed

text \<open>
  C31. Once a call that an approval allowed has its result stamped, the approval is never valid again for
  that call, whatever is recorded after it, until the User is asked anew.
\<close>

theorem approval_spent:
  assumes valid: "fst (findApproval c op h load s) = Inr (AValid q)"
    and entries: "entry_list c' = entry_list (appendEntry t result c) @ later"
    and result: "e_kind result = Some ''tool-result''" "e_toolName result = Some op" "e_argsHash result = Some h"
    and later: "\<forall>e \<in> set later. \<not> is_request op h e"
  shows "fst (findApproval c' op h load' s') \<noteq> Inr (AValid q')"
proof
  assume v': "fst (findApproval c' op h load' s') = Inr (AValid q')"
  from valid obtain request answer where r: "last_match (is_request op h) (entry_list c) = Some request"
    and q: "q = coalesce (e_questionId request) []"
    and a: "find (is_answer q) (entry_list c) = Some answer"
    unfolding findApproval_result by blast
  let ?e = "result\<lparr>e_seq := Some (nextSeq c), e_at := Some (nowIso t)\<rparr>"
  have c': "entry_list c' = entry_list c @ ?e # later" using entries by simp
  have "last_match (is_request op h) (?e # later) = None"
    using later result(1) by (auto simp: last_match_None is_request_def)
  then have r': "last_match (is_request op h) (entry_list c') = Some request"
    unfolding c' last_match_append using r by simp
  from v' r' q have "q' = q" unfolding findApproval_result by auto
  moreover have "find (is_answer q) (entry_list c') = Some answer"
    unfolding c' find_append using a by simp
  ultimately have "\<not> list_ex (spends op h answer) (entry_list c')"
    using v' unfolding findApproval_result by auto
  moreover have "spends op h answer ?e"
    using result nextSeq_greater find_SomeD [OF a] by (simp add: spends_def)
  ultimately show False unfolding c' by simp
qed

section \<open>Calls and their results\<close>

definition is_intent :: "entry \<Rightarrow> bool" where
  "is_intent e \<longleftrightarrow> e_kind e = Some ''tool-intent''"

definition is_result :: "entry \<Rightarrow> bool" where
  "is_result e \<longleftrightarrow> e_kind e = Some ''tool-result''"

text \<open>
  The record read in order: an intent opens a call under its key, its result closes it, and while a
  call is open nothing else is recorded than a request for approval, which has no text.
\<close>

definition scan_entry :: "string option \<Rightarrow> entry \<Rightarrow> string option option" where
  "scan_entry st e =
     (case st of
        None \<Rightarrow> if is_intent e then map_option Some (e_idempotencyKey e)
                else if is_result e then None else Some None
      | Some k \<Rightarrow> if is_result e then (if e_idempotencyKey e = Some k then Some None else None)
                else if e_kind e = Some ''approval-request'' \<and> \<not> truthy (e_text e) then Some (Some k) else None)"

fun scan :: "string option \<Rightarrow> entry list \<Rightarrow> string option option" where
  "scan st [] = Some st"
| "scan st (e # es) = (case scan_entry st e of None \<Rightarrow> None | Some st' \<Rightarrow> scan st' es)"

lemma scan_append: "scan st (xs @ ys) = (case scan st xs of None \<Rightarrow> None | Some st' \<Rightarrow> scan st' ys)"
  by (induction xs arbitrary: st) (auto split: option.splits)

text \<open>
  \<open>record_ok i st c\<close>: the entries of the Conversation \<open>i\<close> are numbered, an intent carries the key
  made of \<open>i\<close> and its number, and reading the record ends with the call \<open>st\<close> open, if any.
\<close>

definition call_key :: "string \<Rightarrow> int \<Rightarrow> string" where
  "call_key i n = i @ '':'' @ string_of_int n"

definition record_ok :: "string \<Rightarrow> string option \<Rightarrow> conversation \<Rightarrow> bool" where
  "record_ok i st c \<longleftrightarrow> numbered c \<and> scan None (entry_list c) = Some st \<and>
     (\<forall>e \<in> set (entry_list c). is_intent e \<longrightarrow> e_idempotencyKey e = Some (call_key i (seq_of e)))"

lemma scan_keys:
  "scan st es = Some st' \<Longrightarrow>
     (case st of None \<Rightarrow> [] | Some k \<Rightarrow> [k]) @ map (\<lambda>e. coalesce (e_idempotencyKey e) []) (filter is_intent es)
     = map (\<lambda>e. coalesce (e_idempotencyKey e) []) (filter is_result es) @ (case st' of None \<Rightarrow> [] | Some k \<Rightarrow> [k])"
proof (induction es arbitrary: st)
  case (Cons e es)
  then obtain st1 where s1: "scan_entry st e = Some st1" and s2: "scan st1 es = Some st'"
    by (auto split: option.splits)
  from Cons.IH [OF s2] s1 show ?case
    by (auto simp: scan_entry_def is_intent_def is_result_def split: option.splits if_splits)
qed simp

lemma record_keys_distinct:
  assumes "record_ok i st c"
  shows "distinct (map (\<lambda>e. coalesce (e_idempotencyKey e) []) (filter is_intent (entry_list c)))"
proof -
  have n: "numbered c" using assms by (simp add: record_ok_def)
  have "map (\<lambda>e. coalesce (e_idempotencyKey e) []) (filter is_intent (entry_list c))
      = map (call_key i) (map seq_of (filter is_intent (entry_list c)))"
    using assms by (auto simp: record_ok_def)
  moreover have "distinct (map seq_of (filter is_intent (entry_list c)))"
    using numbered_distinct [OF n] by (rule distinct_map_filter)
  moreover have "inj_on (call_key i) (set (map seq_of (filter is_intent (entry_list c))))"
  proof (rule inj_onI)
    fix m n'
    assume "m \<in> set (map seq_of (filter is_intent (entry_list c)))"
      "n' \<in> set (map seq_of (filter is_intent (entry_list c)))" "call_key i m = call_key i n'"
    then show "m = n'" using n by (auto simp: numbered_def call_key_def intro!: string_of_int_inject)
  qed
  ultimately show ?thesis by (simp only: distinct_map [of "call_key i"])
qed

lemma unresolvedIntent_alt:
  "unresolvedIntent c = find (\<lambda>e. coalesce (e_idempotencyKey e) []
      \<notin> set (map (\<lambda>e. coalesce (e_idempotencyKey e) []) (filter is_result (entry_list c))))
      (filter is_intent (entry_list c))"
  by (simp add: unresolvedIntent_def is_intent_def [abs_def] is_result_def Let_def)

lemma unresolved_none:
  assumes "record_ok i None c"
  shows "unresolvedIntent c = None"
proof -
  let ?key = "\<lambda>e. coalesce (e_idempotencyKey e) []"
  have keys: "map ?key (filter is_intent (entry_list c)) = map ?key (filter is_result (entry_list c))"
    using assms scan_keys [of None "entry_list c" None] by (simp add: record_ok_def)
  have "?key e \<in> set (map ?key (filter is_result (entry_list c)))" if "e \<in> set (filter is_intent (entry_list c))" for e
    unfolding keys [symmetric] using that by simp
  then show ?thesis unfolding unresolvedIntent_alt find_None_iff by blast
qed

lemma unresolved_some:
  assumes "record_ok i (Some k) c"
  shows "\<exists>e. unresolvedIntent c = Some e \<and> e_idempotencyKey e = Some k"
proof -
  let ?key = "\<lambda>e. coalesce (e_idempotencyKey e) []"
  have keys: "map ?key (filter is_intent (entry_list c)) = map ?key (filter is_result (entry_list c)) @ [k]"
    using assms scan_keys [of None "entry_list c" "Some k"] by (simp add: record_ok_def)
  with record_keys_distinct [OF assms] have "k \<notin> set (map ?key (filter is_result (entry_list c)))" by simp
  moreover from keys have "k \<in> set (map ?key (filter is_intent (entry_list c)))" by simp
  ultimately have "unresolvedIntent c \<noteq> None" unfolding unresolvedIntent_alt find_None_iff by auto
  then obtain e where u: "unresolvedIntent c = Some e" by blast
  then have e: "e \<in> set (filter is_intent (entry_list c))"
    "?key e \<notin> set (map ?key (filter is_result (entry_list c)))"
    unfolding unresolvedIntent_alt by (auto dest: find_SomeD)
  then have "?key e \<in> set (map ?key (filter is_intent (entry_list c)))" by simp
  with e(2) keys have "?key e = k" by auto
  with e(1) assms u show ?thesis by (auto simp: record_ok_def)
qed

subsection \<open>How the record grows\<close>

text \<open>The keys under which the record has called an Operation.\<close>

definition intent_keys :: "conversation \<Rightarrow> string set" where
  "intent_keys c = set (map (\<lambda>e. coalesce (e_idempotencyKey e) []) (filter is_intent (entry_list c)))"

lemma intent_keys_append:
  "intent_keys (appendEntry t e c)
     = (if is_intent e then insert (coalesce (e_idempotencyKey e) []) (intent_keys c) else intent_keys c)"
  by (auto simp: intent_keys_def is_intent_def)

text \<open>The key of the next call has never been used.\<close>

lemma fresh_call_key:
  assumes "record_ok i st c"
  shows "call_key i (nextSeq c) \<notin> intent_keys c"
proof
  assume "call_key i (nextSeq c) \<in> intent_keys c"
  then obtain e where e: "e \<in> set (entry_list c)" "is_intent e"
    "coalesce (e_idempotencyKey e) [] = call_key i (nextSeq c)" by (auto simp: intent_keys_def)
  with assms have k: "call_key i (seq_of e) = call_key i (nextSeq c)" by (auto simp: record_ok_def)
  have "0 < seq_of e" using assms e(1) by (auto simp: record_ok_def numbered_def)
  with k nextSeq_pos [of c] have "seq_of e = nextSeq c"
    by (auto simp: call_key_def intro!: string_of_int_inject)
  with nextSeq_greater [OF e(1)] show False by simp
qed

lemma record_ok_append:
  assumes "record_ok i st c" and "scan_entry st (e\<lparr>e_seq := Some (nextSeq c), e_at := Some (nowIso t)\<rparr>) = Some st'"
    and "is_intent e \<Longrightarrow> e_idempotencyKey e = Some (call_key i (nextSeq c))"
  shows "record_ok i st' (appendEntry t e c)"
  using assms numbered_append [of c t e] by (auto simp: record_ok_def scan_append is_intent_def)

lemma record_ok_plain:
  "record_ok i None c \<Longrightarrow> \<not> is_intent e \<Longrightarrow> \<not> is_result e \<Longrightarrow> record_ok i None (appendEntry t e c)"
  by (rule record_ok_append) (auto simp: scan_entry_def is_intent_def is_result_def)

lemma record_ok_intent:
  "record_ok i None c \<Longrightarrow> is_intent e \<Longrightarrow> e_idempotencyKey e = Some (call_key i (nextSeq c)) \<Longrightarrow>
     record_ok i (Some (call_key i (nextSeq c))) (appendEntry t e c)"
  by (rule record_ok_append) (auto simp: scan_entry_def is_intent_def)

lemma record_ok_result:
  "record_ok i (Some k) c \<Longrightarrow> is_result e \<Longrightarrow> e_idempotencyKey e = Some k \<Longrightarrow>
     record_ok i None (appendEntry t e c)"
  by (rule record_ok_append) (auto simp: scan_entry_def is_intent_def is_result_def)

lemma record_ok_request:
  "record_ok i (Some k) c \<Longrightarrow> e_kind e = Some ''approval-request'' \<Longrightarrow> e_text e = None \<Longrightarrow>
     record_ok i (Some k) (appendEntry t e c)"
  by (rule record_ok_append) (auto simp: scan_entry_def is_intent_def is_result_def)

text \<open>Stamping an approval or a cost on an entry leaves the shape of the record as it is.\<close>

definition keeps_shape :: "(entry \<Rightarrow> entry) \<Rightarrow> bool" where
  "keeps_shape f \<longleftrightarrow> (\<forall>e. e_kind (f e) = e_kind e \<and> e_seq (f e) = e_seq e \<and>
     e_idempotencyKey (f e) = e_idempotencyKey e \<and> e_text (f e) = e_text e)"

lemma keeps_shape_simps [simp]:
  "keeps_shape (recordUsage u)" "keeps_shape (addUsage u)" "keeps_shape (stampSpentApproval h)"
  by (simp_all add: keeps_shape_def recordUsage_def addUsage_def stampSpentApproval_def split: option.split)

lemma scan_shape:
  "list_all2 (\<lambda>e f. e_kind f = e_kind e \<and> e_idempotencyKey f = e_idempotencyKey e \<and> e_text f = e_text e) es fs
     \<Longrightarrow> scan st fs = scan st es"
proof (induction arbitrary: st rule: list_all2_induct)
  case (Cons e es f fs)
  then have "scan_entry st f = scan_entry st e"
    by (simp add: scan_entry_def is_intent_def is_result_def cong: option.case_cong if_cong)
  with Cons show ?case by (simp split: option.split)
qed simp

lemma intent_keys_modify [simp]:
  assumes "keeps_shape f"
  shows "intent_keys (modify_entry n f c) = intent_keys c"
proof -
  let ?es = "entry_list c" and ?fs = "entry_list (modify_entry n f c)"
  have nth: "e_kind (?fs ! j) = e_kind (?es ! j) \<and> e_idempotencyKey (?fs ! j) = e_idempotencyKey (?es ! j)"
    if "j < length ?es" for j
    using that assms by (simp add: nth_modify keeps_shape_def)
  have "(\<exists>e \<in> set ?fs. is_intent e \<and> k = coalesce (e_idempotencyKey e) [])
      \<longleftrightarrow> (\<exists>e \<in> set ?es. is_intent e \<and> k = coalesce (e_idempotencyKey e) [])" for k
    unfolding Bex_def in_set_conv_nth by (auto simp: nth is_intent_def)
  then show ?thesis by (auto simp: intent_keys_def image_iff)
qed

lemma record_ok_modify:
  assumes "record_ok i st c" and "keeps_shape f"
  shows "record_ok i st (modify_entry n f c)"
proof -
  let ?es = "entry_list c" and ?fs = "entry_list (modify_entry n f c)"
  have nth: "e_kind (?fs ! j) = e_kind (?es ! j) \<and> e_idempotencyKey (?fs ! j) = e_idempotencyKey (?es ! j)
      \<and> e_text (?fs ! j) = e_text (?es ! j) \<and> e_seq (?fs ! j) = e_seq (?es ! j)" if "j < length ?es" for j
    using that assms(2) by (simp add: nth_modify keeps_shape_def)
  have "map seq_of ?fs = map seq_of ?es" by (rule nth_equalityI) (simp_all add: nth)
  then have "numbered (modify_entry n f c)" using assms(1) by (simp add: record_ok_def numbered_def)
  moreover have "scan None ?fs = scan None ?es"
    by (rule scan_shape) (simp add: list_all2_conv_all_nth nth)
  moreover have "e_idempotencyKey e = Some (call_key i (seq_of e))" if "e \<in> set ?fs" "is_intent e" for e
  proof -
    from that(1) obtain j where j: "j < length ?es" "e = ?fs ! j" by (auto simp: in_set_conv_nth)
    with nth [of j] that(2) have "is_intent (?es ! j)" by (simp add: is_intent_def)
    with assms(1) j nth [of j] show ?thesis by (auto simp: record_ok_def)
  qed
  ultimately show ?thesis using assms(1) by (simp add: record_ok_def)
qed

section \<open>The messages a provider accepts\<close>

text \<open>
  Every tool call of an assistant message is answered, in order, by the tool messages that directly
  follow it, and no other message has the role of a tool. Providers reject anything else.
\<close>

fun answered :: "string list \<Rightarrow> llm_message list \<Rightarrow> bool" where
  "answered pending [] \<longleftrightarrow> pending = []"
| "answered [] (m # ms) \<longleftrightarrow> m_role m \<noteq> ''tool'' \<and> answered (map tc_id (coalesce (m_toolCalls m) [])) ms"
| "answered (p # ps) (m # ms) \<longleftrightarrow> m_role m = ''tool'' \<and> m_toolCallId m = Some p \<and> answered ps ms"

lemma entry_messages_intent:
  "is_intent e \<Longrightarrow> e_idempotencyKey e = Some k \<Longrightarrow>
     \<exists>m tc. entry_messages e = [m] \<and> m_role m = ''assistant'' \<and> m_toolCalls m = Some [tc] \<and> tc_id tc = k"
  by (simp add: is_intent_def entry_messages_def Let_def plain_message_def call_id_def)

lemma entry_messages_result:
  "is_result e \<Longrightarrow> e_idempotencyKey e = Some k \<Longrightarrow>
     \<exists>m. entry_messages e = [m] \<and> m_role m = ''tool'' \<and> m_toolCallId m = Some k"
  by (simp add: is_result_def entry_messages_def Let_def plain_message_def call_id_def)

lemma entry_messages_request:
  "e_kind e = Some ''approval-request'' \<Longrightarrow> \<not> truthy (e_text e) \<Longrightarrow> entry_messages e = []"
  by (simp add: entry_messages_def Let_def truthy_def split: option.splits)

lemma entry_messages_plain:
  assumes "\<not> is_intent e" "\<not> is_result e"
  shows "entry_messages e = [] \<or>
    (\<exists>m. entry_messages e = [m] \<and> m_role m \<noteq> ''tool'' \<and> m_toolCalls m = None)"
proof -
  from assms have "coalesce (e_kind e) [] \<noteq> ''tool-intent''" "coalesce (e_kind e) [] \<noteq> ''tool-result''"
    by (cases "e_kind e"; simp add: is_intent_def is_result_def)+
  then show ?thesis by (simp add: entry_messages_def Let_def plain_message_def)
qed

lemma answered_scan:
  "scan st es = Some None \<Longrightarrow> answered (case st of None \<Rightarrow> [] | Some k \<Rightarrow> [k]) (concat (map entry_messages es))"
proof (induction es arbitrary: st)
  case (Cons e es)
  then obtain st1 where s1: "scan_entry st e = Some st1" and s2: "scan st1 es = Some None"
    by (auto split: option.splits)
  note ih = Cons.IH [OF s2]
  show ?case
  proof (cases st)
    case None
    show ?thesis
    proof (cases "is_intent e")
      case True
      with None s1 obtain k where "e_idempotencyKey e = Some k" "st1 = Some k"
        by (auto simp: scan_entry_def)
      with entry_messages_intent [OF True] ih None show ?thesis by force
    next
      case False
      with None s1 have "\<not> is_result e" "st1 = None" by (auto simp: scan_entry_def split: if_splits)
      with entry_messages_plain [OF False] ih None show ?thesis by auto
    qed
  next
    case (Some k)
    show ?thesis
    proof (cases "is_result e")
      case True
      with Some s1 have "e_idempotencyKey e = Some k" "st1 = None" by (auto simp: scan_entry_def split: if_splits)
      with entry_messages_result [OF True] ih Some show ?thesis by force
    next
      case False
      with Some s1 have "e_kind e = Some ''approval-request''" "\<not> truthy (e_text e)" "st1 = Some k"
        by (auto simp: scan_entry_def split: if_splits)
      with entry_messages_request ih Some show ?thesis by simp
    qed
  qed
qed simp

lemma answered_messages: "record_ok i None c \<Longrightarrow> answered [] (buildMessages a c)"
  using answered_scan [of None "entry_list c"]
  by (simp add: record_ok_def buildMessages_def plain_message_def)


end
