(* ===== verification/StoreProperties.thy ===== *)
theory StoreProperties
  imports MemoryStore Transcript Llm
begin

text \<open>
  What the repository of Things, the codec of the documents, the pure parts of the loop and the recorded
  model guarantee (\<open>a12/things.ts\<close>, \<open>loop/advance.ts\<close>, \<open>llm/scripted.ts\<close>). The properties of the
  repository are the facts of the contract \<open>thing_client\<close>, on the in-memory ThingStore.
\<close>

section \<open>The repository\<close>

text \<open>The smallest Thing with a key, and a store that holds one document of the User's.\<close>

definition keyed :: "string \<Rightarrow> props" where
  "keyed k = [(''title'', JStr ''scan''), (''idempotencyKey'', JStr k)]"

definition one_document :: mem_store where
  "one_document = (empty_store 0)\<lparr>counter := 1, rows := [(seed_ref ''Document_DM'' 1, ''Document_DM'',
     [(''Document'', JObj [(''Title'', JStr ''scan''), (''Attachment'', JStr ''pdf'')])])]\<rparr>"

lemma one_document_ok: "store_ok one_document"
  unfolding store_ok_def one_document_def by (auto intro!: exI [of _ "''Document_DM''"] exI [of _ 1])

text \<open>
  C34. An update replaces the whole document and yet loses nothing it does not know: every other Thing is
  as it was, every field of the document's root group that the map of the Model does not name is kept,
  so is every mapped field the data does not mention, and every mentioned field is as given.
\<close>

theorem update_keeps_the_rest:
  assumes "repo_update memory_client (SPECS m) ref d w = (Inr u, w')"
  shows "\<exists>n doc doc'. store_view w ref = Some (n, doc) \<and> store_view w' = (store_view w)(ref \<mapsto> (n, doc')) \<and>
     (\<forall>r. r \<noteq> ms_root (SPECS m) \<longrightarrow> pget doc' r = pget doc r) \<and>
     (\<forall>k. k \<notin> snd ` set (ms_fields (SPECS m)) \<and> k \<notin> (\<lambda>(_, g, _). g) ` set (ms_groups (SPECS m)) \<longrightarrow>
        pget (body_of (SPECS m) doc') k = pget (body_of (SPECS m) doc) k) \<and>
     (\<forall>(a, b) \<in> set (ms_fields (SPECS m)). a \<noteq> ''updatedAt'' \<longrightarrow> pget (body_of (SPECS m) doc') b
        = (if pget d a = JUndef then pget (body_of (SPECS m) doc) b else pget d a))"
proof -
  obtain n doc t where v: "store_view w ref = Some (n, doc)"
    "store_view w' = (store_view w)(ref \<mapsto> (n, merged_document (SPECS m) doc t d))"
    using mem.update_result [OF assms] by blast
  have wf: "wf_spec (SPECS m)" by (rule wf_SPECS)
  show ?thesis
    using v merged_other_root [of _ "SPECS m"] merged_unmapped [OF wf] merged_field [OF wf] by blast
qed

theorem update_keeps_the_rest_witness:
  "\<exists>w' n doc'. repo_update memory_client (SPECS Document_DM) (seed_ref ''Document_DM'' 1)
       [(''classification'', JStr ''invoice'')] one_document = (Inr (), w') \<and>
     store_view w' (seed_ref ''Document_DM'' 1) = Some (n, doc') \<and>
     pget (body_of (SPECS Document_DM) doc') ''Attachment'' = JStr ''pdf''"
proof -
  let ?r = "seed_ref ''Document_DM'' 1"
  have "\<exists>w'. repo_update memory_client (SPECS Document_DM) ?r [(''classification'', JStr ''invoice'')] one_document = (Inr (), w')"
    by (simp add: repo_update_def memory_client_def mem_defs io_defs one_document_def)
  then obtain w' where run: "repo_update memory_client (SPECS Document_DM) ?r
      [(''classification'', JStr ''invoice'')] one_document = (Inr (), w')" by blast
  have v: "store_view one_document ?r = Some (''Document_DM'',
      [(''Document'', JObj [(''Title'', JStr ''scan''), (''Attachment'', JStr ''pdf'')])])"
    by (simp add: store_view_def one_document_def)
  have k: "''Attachment'' \<notin> snd ` set (ms_fields (SPECS Document_DM))"
    "''Attachment'' \<notin> (\<lambda>(_, g, _). g) ` set (ms_groups (SPECS Document_DM))" by code_simp+
  have b: "pget (body_of (SPECS Document_DM) [(''Document'', JObj [(''Title'', JStr ''scan''), (''Attachment'', JStr ''pdf'')])])
      ''Attachment'' = JStr ''pdf''" by code_simp
  from update_keeps_the_rest [OF run] v k b run show ?thesis by auto
qed

text \<open>The in-memory store refuses no creation under a searchable key, unless it was told to.\<close>

lemma mem_create_total:
  assumes "failNextAdd w = None" and "as_str (pget d ''idempotencyKey'') = Some k" and "check_key spec k = Inr u"
  shows "\<exists>t w'. repo_create memory_client spec d w = (Inr t, w') \<and> failNextAdd w' = None"
proof -
  have "\<exists>t w'. add_and_converge memory_client spec d (Some k) w = (Inr t, w') \<and> failNextAdd w' = None"
    using assms(1)
    by (simp add: add_and_converge_def repo_search_def memory_client_def mem_defs io_defs Let_def split: if_split)
  then show ?thesis
    using assms by (simp add: repo_create_def findByIdempotencyKey_def repo_search_def memory_client_def mem_defs
        io_defs Let_def split: list.split)
qed

text \<open>
  C33. Creation is idempotent under a key: when a Thing has been created under an idempotency key, creating
  again under that key, with whatever other data, adds nothing to the ThingStore and changes nothing in it.
\<close>

theorem create_idempotent:
  assumes "store_ok w" and "repo_create memory_client (SPECS m) d w = (Inr t, w1)"
    and "repo_create memory_client (SPECS m) d' w1 = (Inr t', w2)"
    and "as_str (pget d ''idempotencyKey'') = Some k" and "as_str (pget d' ''idempotencyKey'') = Some k"
  shows "store_view w2 = store_view w1"
  by (rule mem.create_twice [OF assms(1) wf_SPECS path_ok_SPECS _ assms(4,2,5,3), of "''IdempotencyKey''"])
    (cases m, simp_all add: spec_defs)

theorem create_idempotent_witness:
  "\<exists>t w1 t' w2. repo_create memory_client (SPECS Document_DM) (keyed ''k'') (empty_store 0) = (Inr t, w1) \<and>
     repo_create memory_client (SPECS Document_DM) (keyed ''k'') w1 = (Inr t', w2) \<and> store_view w2 = store_view w1"
proof -
  have k: "as_str (pget (keyed ''k'') ''idempotencyKey'') = Some ''k''" by code_simp
  have c: "check_key (SPECS Document_DM) ''k'' = Inr ()" by code_simp
  obtain t w1 where r1: "repo_create memory_client (SPECS Document_DM) (keyed ''k'') (empty_store 0) = (Inr t, w1)"
    "failNextAdd w1 = None" using mem_create_total [OF _ k c, of "empty_store 0"] by (auto simp: empty_store_def)
  obtain t' w2 where r2: "repo_create memory_client (SPECS Document_DM) (keyed ''k'') w1 = (Inr t', w2)"
    using mem_create_total [OF r1(2) k c] by blast
  from create_idempotent [OF store_ok_empty r1(1) r2 k k] r1 r2 show ?thesis by blast
qed

section \<open>The record of a Conversation\<close>

text \<open>
  C40. A Conversation survives its document: written with the map of its Model and read back, it is the
  Conversation it was, its entries, enumerations and counters included.
\<close>

theorem conversation_round_trip:
  "conversation_of (fromDocument Conversation_spec (toDocument Conversation_spec (conversation_data c))) = c"
  by (rule conversation_stored)

text \<open>
  Stamps are read back to the second and are ordered as strings as the instants are, which is what
  lets the ThingStore compare and sort them as text.
\<close>

theorem stamps_order_and_read_back:
  assumes "iso_range a" and "iso_range b"
  shows "parseIso (Some (nowIso a)) = Some (a div 1000 * 1000) \<and> (nowIso a < nowIso b \<longleftrightarrow> a div 1000 < b div 1000)"
  using parseIso_nowIso [OF assms(1)] nowIso_less_iff [OF assms] by blast

theorem stamps_order_and_read_back_witness:
  "parseIso (Some (nowIso 1500)) = Some 1000 \<and> nowIso 1500 < nowIso 2000"
proof -
  have "iso_range 1500" "iso_range 2000" by (simp_all add: iso_range_def)
  from stamps_order_and_read_back [OF this] show ?thesis by simp
qed

text \<open>
  Two calls that differ only in the order of their keys, at any depth, or in keys set to undefined,
  have one hash, so that an approval given to one is found for the other.
\<close>

theorem one_hash_for_one_call:
  assumes "same_call args args'"
  shows "canonicalArgsHash sha args = canonicalArgsHash sha args'"
  using canonicalJson_same [OF assms] by (simp add: canonicalArgsHash_def)

theorem one_hash_for_one_call_witness:
  "canonicalArgsHash id (JObj [(''a'', JBool True), (''b'', JNull)]) = canonicalArgsHash id (JObj [(''b'', JNull), (''a'', JBool True)])"
  by (rule one_hash_for_one_call, rule same_obj) (auto simp: present_def intro: same_scalar)

text \<open>
  What an Operation reports as its own spending is added to a Turn only as two finite numbers that are
  not negative; anything else an Operation may return counts as no report.
\<close>

theorem reported_usage_is_plausible:
  assumes "operationUsage v = Some u"
  shows "is_finite_num (promptTokens u) \<and> \<not> num_negative (promptTokens u) \<and>
    is_finite_num (completionTokens u) \<and> \<not> num_negative (completionTokens u)"
  using assms by (auto simp: operationUsage_def plausible_count_def split: json.splits if_splits option.splits)

theorem reported_usage_is_plausible_witness:
  "\<exists>u. operationUsage (JObj [(''usage'', JObj [(''promptTokens'', JNum (Fin 12 0)), (''completionTokens'', JNum (Fin 3 0))])]) = Some u \<and>
     \<not> num_negative (promptTokens u)"
proof -
  have "operationUsage (JObj [(''usage'', JObj [(''promptTokens'', JNum (Fin 12 0)), (''completionTokens'', JNum (Fin 3 0))])])
      = Some \<lparr>promptTokens = Fin 12 0, completionTokens = Fin 3 0\<rparr>" by code_simp
  with reported_usage_is_plausible [OF this] show ?thesis by blast
qed

text \<open>
  A call the recording does not cover is an error that calls no tool and reports no usage, never an
  answer: a Conversation cannot run off the end of the recording and report success.
\<close>

theorem recording_never_answers_uncovered:
  assumes "\<forall>step \<in> set script. \<not> step_matches (s\<lparr>callCount := callCount s + 1\<rparr>)
      (if rq_messages request = [] then [] else m_content (last (rq_messages request))) step"
  shows "\<exists>resp. fst (scripted_complete script request s) = Inr resp \<and> r_finishReason resp = LError
    \<and> r_toolCalls resp = [] \<and> r_usage resp = None"
  using assms by (rule scripted_uncovered)

theorem recording_never_answers_uncovered_witness:
  "\<exists>resp. fst (scripted_complete [] \<lparr>rq_model = [], rq_messages = [], rq_tools = []\<rparr>
     \<lparr>callCount = 0, ctx_assistantKey = [], ctx_turn = 0\<rparr>) = Inr resp \<and> r_finishReason resp = LError"
  using recording_never_answers_uncovered [of "[]"] by auto

end
