(* ===== verification/Loop.thy ===== *)
theory Loop
  imports Things Transcript
begin

text \<open>
  The loop driver (\<open>LoopDriver\<close> of \<open>runtime/src/loop/advance.ts\<close>): \<open>advance\<close> takes one Conversation
  one Turn forward. Its state is the loaded Conversation, which it mutates and writes back, and the
  world beyond it: the ThingStore, the model, the Operations and the clock, which are parameters. A
  trace records, in order, what the loop did to that world: the Conversation it loaded, those it wrote, the model
  calls, the Operations it executed or asked about, the questions it raised. The trace is read by no
  definition of the loop.
\<close>

section \<open>State and effects\<close>

datatype event =
    EvLoaded conversation
  | EvWrote conversation
  | EvLlm "llm_message list"
  | EvExecute string json string
  | EvReconcile string json string
  | EvAsk string string
  | EvSleep int

record 'w turn =
  tw_world :: 'w
  tw_conv :: conversation
  tw_events :: "event list"

record question_input =
  qi_conversation :: "conversation stored"
  qi_assistantKey :: string
  qi_kind :: string
  qi_prompt :: string
  qi_idempotencyKey :: string

record 'w advance_deps =
  ad_things :: "'w a12_client"
  ad_registry :: "'w registry"
  ad_llm :: "llm_request \<Rightarrow> ('w, llm_response) io"
  ad_setLlmContext :: "string \<Rightarrow> int \<Rightarrow> 'w \<Rightarrow> 'w"
  leaseSeconds :: int
  maxEscalations :: int
  llmMaxAttempts :: nat
  defaultModel :: string
  ad_raiseQuestion :: "question_input \<Rightarrow> ('w, string) io"
  ad_sha256 :: "string \<Rightarrow> string"
  ad_sleep :: "int \<Rightarrow> 'w \<Rightarrow> 'w"

record advance_result =
  ar_status :: "conversation_status option"
  ar_turnsRun :: int
  ar_note :: "string option"

definition onWorld :: "('w, 'a) io \<Rightarrow> ('w turn, 'a) io" where
  "onWorld m = (\<lambda>s. case m (tw_world s) of (r, w) \<Rightarrow> (r, s\<lparr>tw_world := w\<rparr>))"

definition emit :: "event \<Rightarrow> ('w turn, unit) io" where
  "emit ev = modifyE (\<lambda>s. s\<lparr>tw_events := tw_events s @ [ev]\<rparr>)"

definition conv :: "('w turn, conversation) io" where
  "conv = getE tw_conv"

definition setConv :: "(conversation \<Rightarrow> conversation) \<Rightarrow> ('w turn, unit) io" where
  "setConv f = modifyE (\<lambda>s. s\<lparr>tw_conv := f (tw_conv s)\<rparr>)"

definition now :: "'w advance_deps \<Rightarrow> ('w turn, int) io" where
  "now deps = getE (\<lambda>s. cl_now (ad_things deps) (tw_world s))"

text \<open>\<open>appendEntry\<close> on the Conversation of the Turn; the value is where the entry stands.\<close>

definition append :: "'w advance_deps \<Rightarrow> entry \<Rightarrow> ('w turn, nat) io" where
  "append deps e =
     bindE (now deps) (\<lambda>t. bindE conv (\<lambda>c.
     bindE (setConv (appendEntry t e)) (\<lambda>_. returnE (length (entry_list c)))))"

text \<open>The loaded Thing as it stands: its identity and the Conversation as mutated so far.\<close>

definition live :: "conversation stored \<Rightarrow> ('w turn, conversation stored) io" where
  "live st = bindE conv (\<lambda>c. returnE (st\<lparr>data := c\<rparr>))"

definition write_back :: "'w advance_deps \<Rightarrow> conversation stored \<Rightarrow> ('w turn, unit) io" where
  "write_back deps st =
     bindE conv (\<lambda>c.
     bindE (onWorld (repo_update (ad_things deps) Conversation_spec (docRef st) (conversation_data c)))
       (\<lambda>_. emit (EvWrote c)))"

definition raise :: "'w advance_deps \<Rightarrow> conversation stored \<Rightarrow> string \<Rightarrow> string \<Rightarrow> string \<Rightarrow> string
    \<Rightarrow> ('w turn, string) io" where
  "raise deps st akey kind prompt key =
     bindE (live st) (\<lambda>stored.
     bindE (emit (EvAsk kind key)) (\<lambda>_.
       onWorld (ad_raiseQuestion deps \<lparr>qi_conversation = stored, qi_assistantKey = akey,
         qi_kind = kind, qi_prompt = prompt, qi_idempotencyKey = key\<rparr>)))"

definition describeForModel :: "js_error \<Rightarrow> string" where
  "describeForModel e = (case e of
     JsError n m \<Rightarrow> if m \<noteq> [] then m else n
   | TransientLlmError m \<Rightarrow> if m \<noteq> [] then m else ''TransientLlmError''
   | Thrown s \<Rightarrow> s)"

definition bold :: "string \<Rightarrow> string" where
  "bold s = ''**'' @ s @ ''**''"

definition shown :: "string option \<Rightarrow> string" where
  "shown s = coalesce s ''undefined''"

section \<open>Leases, suspension and the terminal tier\<close>

definition TURN_GRANT_ON_ESCALATION :: int where
  "TURN_GRANT_ON_ESCALATION = 5"

definition CATALOGUE_PAGE_SIZE :: nat where
  "CATALOGUE_PAGE_SIZE = 100"

definition EMPTY_CATALOGUE :: string where
  "EMPTY_CATALOGUE =
     ''The Operation catalogue is empty: no Operation_DM Thing exists, so no Assistant can be ''
     @ ''offered anything and no Turn can be taken. Bootstrap has not run ''
     @ [CHR 0xE2, CHR 0x80, CHR 0x94] @ '' run '' @ [CHR 0x60] @ ''just bootstrap'' @ [CHR 0x60] @ ''.''"

definition REFUSED_PENDING_APPROVAL :: string where
  "REFUSED_PENDING_APPROVAL =
     ''Refused pending approval, not queued. Nothing was booked and nothing is waiting to be. The ''
     @ ''User has been asked to approve this exact call; when they answer you will be resumed, and you ''
     @ ''must make the same call again '' @ [CHR 0xE2, CHR 0x80, CHR 0x94]
     @ '' with the same arguments, or you will be asked again.''"

definition claimLease :: "'w advance_deps \<Rightarrow> ('w turn, bool) io" where
  "claimLease deps =
     bindE conv (\<lambda>c. bindE (now deps) (\<lambda>t.
       if (case parseIso (leaseUntil c) of Some l \<Rightarrow> t < l | None \<Rightarrow> False) then returnE False
       else bindE (setConv (\<lambda>c. c\<lparr>leaseUntil := Some (nowIso (t + leaseSeconds deps * 1000))\<rparr>))
              (\<lambda>_. returnE True)))"

definition suspended :: "waiting_for \<Rightarrow> string option \<Rightarrow> string option \<Rightarrow> conversation \<Rightarrow> conversation" where
  "suspended wfor wake qid c = c\<lparr>status := Some Waiting, waitingFor := Some wfor,
     wakeAt := Some (coalesce wake []), currentQuestionId := Some (coalesce qid []), leaseUntil := Some []\<rparr>"

definition suspend :: "'w advance_deps \<Rightarrow> conversation stored \<Rightarrow> string \<Rightarrow> waiting_for \<Rightarrow> string option
    \<Rightarrow> string option \<Rightarrow> int \<Rightarrow> ('w turn, advance_result) io" where
  "suspend deps st operation wfor wake qid turnsRun =
     bindE (setConv (suspended wfor wake qid)) (\<lambda>_.
     bindE (write_back deps st) (\<lambda>_.
       returnE \<lparr>ar_status = Some Waiting, ar_turnsRun = turnsRun, ar_note = Some (''pending '' @ operation)\<rparr>))"

definition error_entry :: "string \<Rightarrow> entry" where
  "error_entry text = blank_entry\<lparr>e_role := Some ''system'', e_kind := Some ''error'', e_text := Some text\<rparr>"

definition escalation_prompt :: "string \<Rightarrow> string" where
  "escalation_prompt message = join nl [''**This conversation is stuck and needs you.**'', [], message, [],
     ''Answer to tell it what to do next, or leave it '' @ [CHR 0xE2, CHR 0x80, CHR 0x94]
       @ '' nothing else will happen until you do.'']"

definition given_up :: "int \<Rightarrow> string \<Rightarrow> string" where
  "given_up asked message = message @ nl @ nl @ ''I have asked '' @ string_of_int asked
     @ '' times and stopped. This conversation will not continue on its own '' @ [CHR 0xE2, CHR 0x80, CHR 0x94]
     @ '' start a new one if the work still needs doing.''"

definition escalateByKey :: "'w advance_deps \<Rightarrow> conversation stored \<Rightarrow> string \<Rightarrow> finish_reason \<Rightarrow> string
    \<Rightarrow> ('w turn, unit) io" where
  "escalateByKey deps st akey reason message =
     bindE (setConv (\<lambda>c. c\<lparr>c_lastError := Some message, finishReason := Some reason,
              escalationCount := Some (coalesce (escalationCount c) 0 + 1)\<rparr>)) (\<lambda>_.
     bindE (append deps (error_entry message)) (\<lambda>_.
     bindE conv (\<lambda>c.
       let escalations = coalesce (escalationCount c) 0 in
       if maxEscalations deps < escalations then
         bindE (setConv (\<lambda>c. c\<lparr>status := Some Failed, finishReason := Some reason, leaseUntil := Some [],
                  currentQuestionId := Some [], c_lastError := Some (given_up (maxEscalations deps) message)\<rparr>))
           (\<lambda>_. write_back deps st)
       else
         bindE (raise deps st akey ''perform'' (escalation_prompt message)
                  (thingId st @ '':escalation:'' @ string_of_int escalations)) (\<lambda>questionId.
         bindE (setConv (\<lambda>c. c\<lparr>status := Some Waiting, waitingFor := Some WF_User,
                  currentQuestionId := Some questionId, leaseUntil := Some []\<rparr>)) (\<lambda>_.
           write_back deps st)))))"

definition escalate :: "'w advance_deps \<Rightarrow> conversation stored \<Rightarrow> assistant stored \<Rightarrow> finish_reason \<Rightarrow> string
    \<Rightarrow> ('w turn, unit) io" where
  "escalate deps st a reason message = escalateByKey deps st (coalesce (a_key (data a)) []) reason message"

definition full_reason :: "nat \<Rightarrow> string" where
  "full_reason held = ''This conversation filled up: it holds '' @ string_of_nat held @ '' of the ''
     @ string_of_nat MAX_ENTRIES @ '' entries a conversation can record, so nothing further can be written to it. ''
     @ ''It has stopped here. Start a new one if the work still needs doing.''"

definition endBecauseFull :: "'w advance_deps \<Rightarrow> conversation stored \<Rightarrow> ('w turn, unit) io" where
  "endBecauseFull deps st =
     bindE conv (\<lambda>c.
       let held = length (entry_list c); reason = full_reason held in
       bindE (if held < MAX_ENTRIES then bindE (append deps (error_entry reason)) (\<lambda>_. returnE ())
              else returnE ()) (\<lambda>_.
       bindE (setConv (\<lambda>c. c\<lparr>status := Some Failed, finishReason := Some Limit, waitingFor := Some WF_None,
                leaseUntil := Some [], currentQuestionId := Some [], c_lastError := Some reason\<rparr>)) (\<lambda>_.
         write_back deps st)))"

section \<open>What a Turn reads\<close>

definition loadAssistant :: "'w advance_deps \<Rightarrow> string \<Rightarrow> ('w turn, assistant stored option) io" where
  "loadAssistant deps key =
     (if key = [] then returnE None
      else bindE (onWorld (repo_search (ad_things deps) Assistant_spec (Some (ExactMatch ''/Assistant/Key'' key)) 2 []))
             (\<lambda>found. returnE (case found of [] \<Rightarrow> None | a # _ \<Rightarrow> Some (map_stored assistant_of a))))"

definition loadCatalogue :: "'w advance_deps \<Rightarrow> ('w turn, operation list) io" where
  "loadCatalogue deps =
     bindE (onWorld (repo_search (ad_things deps) Operation_spec None CATALOGUE_PAGE_SIZE [])) (\<lambda>found.
       if found = [] then throwE (JsError ''Error'' EMPTY_CATALOGUE)
       else returnE (map (\<lambda>t. operation_of (data t)) found))"

definition loadQuestion :: "'w advance_deps \<Rightarrow> string \<Rightarrow> ('w turn, open_question option) io" where
  "loadQuestion deps questionId =
     (if questionId = [] then returnE None
      else bindE (attemptE (onWorld (repo_get (ad_things deps) OpenQuestion_spec (''OpenQuestion_DM/'' @ questionId))))
             (\<lambda>r. returnE (case r of Inl _ \<Rightarrow> None | Inr t \<Rightarrow> Some (question_of (data t)))))"

section \<open>Approvals in the loop\<close>

definition request_entry :: "string \<Rightarrow> string \<Rightarrow> string \<Rightarrow> entry" where
  "request_entry operation argsHash questionId = blank_entry\<lparr>e_role := Some ''system'',
     e_kind := Some ''approval-request'', e_toolName := Some operation, e_argsHash := Some argsHash,
     e_questionId := Some questionId\<rparr>"

definition raiseApproval :: "'w advance_deps \<Rightarrow> conversation stored \<Rightarrow> assistant stored
    \<Rightarrow> 'w granted_operation \<Rightarrow> json \<Rightarrow> string \<Rightarrow> ('w turn, string) io" where
  "raiseApproval deps st a operation args argsHash =
     bindE conv (\<lambda>c.
       let attempt = int (length (approvalRequestsFor c (g_name operation) argsHash)) + 1 in
       case renderApprovalPrompt operation args of
         Inl e \<Rightarrow> throwE e
       | Inr prompt \<Rightarrow>
           bindE (raise deps st (coalesce (a_key (data a)) []) ''confirm'' prompt
                    (''approval:'' @ thingId st @ '':'' @ take 16 argsHash @ '':'' @ string_of_int attempt))
             (\<lambda>questionId.
           bindE (append deps (request_entry (g_name operation) argsHash questionId)) (\<lambda>_.
             returnE questionId)))"

definition gateOnApproval :: "'w advance_deps \<Rightarrow> conversation stored \<Rightarrow> assistant stored
    \<Rightarrow> 'w granted_operation \<Rightarrow> json \<Rightarrow> string \<Rightarrow> ('w turn, outcome option) io" where
  "gateOnApproval deps st a operation args argsHash =
     bindE conv (\<lambda>c.
     bindE (findApproval c (g_name operation) argsHash (loadQuestion deps)) (\<lambda>approval.
       case approval of
         AValid _ \<Rightarrow> returnE None
       | ADeclined _ reason \<Rightarrow> returnE (Some (OError reason))
       | AWaiting q \<Rightarrow> returnE (Some (OPending WF_User None (Some q) (Some REFUSED_PENDING_APPROVAL)))
       | _ \<Rightarrow>
           bindE (raiseApproval deps st a operation args argsHash) (\<lambda>q.
             returnE (Some (OPending WF_User None (Some q) (Some REFUSED_PENDING_APPROVAL))))))"

section \<open>Recovery\<close>

definition result_entry :: "string \<Rightarrow> string \<Rightarrow> string \<Rightarrow> entry" where
  "result_entry operation text key = blank_entry\<lparr>e_role := Some ''tool'', e_kind := Some ''tool-result'',
     e_toolName := Some operation, e_toolResult := Some text, e_idempotencyKey := Some key\<rparr>"

definition waiting_json :: "waiting_for \<Rightarrow> json" where
  "waiting_json wfor = JStr (waiting_name wfor)"

definition settled_text :: "outcome \<Rightarrow> string" where
  "settled_text v = (case v of
     OError m \<Rightarrow> ''Error: '' @ m
   | OPending wfor _ _ _ \<Rightarrow> stringify (JObj [(''pending'', JBool True), (''waitingFor'', waiting_json wfor)])
   | OValue v \<Rightarrow> stringify v)"

definition settle :: "'w advance_deps \<Rightarrow> string \<Rightarrow> string \<Rightarrow> string option \<Rightarrow> 'w granted_operation option
    \<Rightarrow> outcome \<Rightarrow> string \<Rightarrow> ('w turn, outcome) io" where
  "settle deps operation key toolArgs resolved verdict text =
     bindE (append deps (result_entry operation text key)) (\<lambda>i.
     bindE (case (resolved, verdict) of
              (Some g, OValue _) \<Rightarrow>
                if g_requiresApproval g
                then setConv (modify_entry i (stampSpentApproval (canonicalArgsHash (ad_sha256 deps) (safeParse toolArgs))))
                else returnE ()
            | _ \<Rightarrow> returnE ()) (\<lambda>_.
       returnE verdict))"

definition reconcile :: "'w advance_deps \<Rightarrow> conversation stored \<Rightarrow> assistant stored \<Rightarrow> entry
    \<Rightarrow> 'w resolution \<Rightarrow> ('w turn, outcome option) io" where
  "reconcile deps st a intent resolution =
     (let operation = coalesce (e_toolName intent) [];
          key = coalesce (e_idempotencyKey intent) [];
          resolved = find (\<lambda>g. g_name g = operation) (granted resolution);
          settled = (\<lambda>verdict text. bindE (settle deps operation key (e_toolArgs intent) resolved verdict text)
                       (\<lambda>v. returnE (Some v)))
      in case resolved of
           None \<Rightarrow> settled (OError (quoted operation @ '' is no longer available''))
             (''Error: this call was interrupted, and '' @ quoted operation
                @ '' is no longer available, so it did not take effect.'')
         | Some g \<Rightarrow>
             if \<not> g_mutating g then settled (OValue JNull)
               (''This call was interrupted. It only reads, so nothing was changed '' @ [CHR 0xE2, CHR 0x80, CHR 0x94]
                  @ '' ask again if you still need it.'')
             else (case g_reconcile g of
                     None \<Rightarrow> returnE None
                   | Some ask \<Rightarrow>
                       bindE (live st) (\<lambda>stored.
                       bindE (emit (EvReconcile operation (safeParse (e_toolArgs intent)) key)) (\<lambda>_.
                       bindE (attemptE (onWorld (ask (safeParse (e_toolArgs intent))
                                \<lparr>ctx_conversation = stored, ctx_assistant = a, ctx_idempotencyKey = key\<rparr>)))
                         (\<lambda>r. case r of
                            Inl _ \<Rightarrow> returnE None
                          | Inr None \<Rightarrow> returnE None
                          | Inr (Some v) \<Rightarrow> settled v (settled_text v))))))"

definition UNKNOWN_NOTE :: string where
  "UNKNOWN_NOTE =
     ''This call was interrupted and nothing can say whether it took effect. ''
     @ ''Treat it as unknown '' @ [CHR 0xE2, CHR 0x80, CHR 0x94]
     @ '' it may have completed. Do not call it again: the ''
     @ ''User has been asked to check, and their answer will arrive as a message.''"

definition unknown_result :: string where
  "unknown_result = stringify (JObj [(''interrupted'', JBool True), (''outcome'', JStr ''unknown''),
     (''retry'', JBool False), (''note'', JStr UNKNOWN_NOTE)])"

definition unknown_message :: "entry \<Rightarrow> string" where
  "unknown_message intent = ''This conversation was interrupted while calling '' @ bold (shown (e_toolName intent))
     @ '', and I cannot tell whether that call took effect. Repeating it might do ''
     @ ''the work twice, so I have stopped instead.'' @ nl @ nl @ ''Check whether it happened, ''
     @ ''then answer to tell me what to do.''"

definition result_of :: "(conversation_status option) \<Rightarrow> conversation_status \<Rightarrow> int \<Rightarrow> string \<Rightarrow> advance_result" where
  "result_of st dflt turns note =
     \<lparr>ar_status = Some (coalesce st dflt), ar_turnsRun = turns, ar_note = Some note\<rparr>"

text \<open>The status a guard returns: the Conversation's own as it stands.\<close>

definition finish_with :: "conversation_status \<Rightarrow> int \<Rightarrow> string \<Rightarrow> ('w turn, advance_result) io" where
  "finish_with dflt turns note =
     bindE conv (\<lambda>c. returnE (result_of (status c) dflt turns note))"

text \<open>Recovery of an interrupted call, before a new Turn: a result means that the Turn ends here.\<close>

definition recover :: "'w advance_deps \<Rightarrow> conversation stored \<Rightarrow> assistant stored \<Rightarrow> 'w resolution
    \<Rightarrow> ('w turn, advance_result option) io" where
  "recover deps st a resolution =
     bindE conv (\<lambda>c.
       case unresolvedIntent c of
         None \<Rightarrow> returnE None
       | Some intent \<Rightarrow>
           bindE (reconcile deps st a intent resolution) (\<lambda>verdict.
             case verdict of
               None \<Rightarrow>
                 bindE (append deps (result_entry (coalesce (e_toolName intent) []) unknown_result
                          (coalesce (e_idempotencyKey intent) []))) (\<lambda>_.
                 bindE (escalate deps st a ErrorReason (unknown_message intent)) (\<lambda>_.
                 bindE (finish_with Waiting 0 ''unreconcilable intent'') (\<lambda>r. returnE (Some r))))
             | Some (OPending wfor wake qid note) \<Rightarrow>
                 bindE (suspend deps st (coalesce (e_toolName intent) []) wfor wake qid 0) (\<lambda>r. returnE (Some r))
             | Some _ \<Rightarrow> bindE (write_back deps st) (\<lambda>_. returnE None)))"

section \<open>The model call\<close>

definition transient_entry :: "nat \<Rightarrow> js_error \<Rightarrow> entry" where
  "transient_entry attempt e = error_entry
     (''Transient model error on attempt '' @ string_of_nat attempt @ '': '' @ describeForModel e)"

text \<open>\<open>left\<close> attempts remain; \<open>attempt\<close> is the number of the next one.\<close>

fun llm_attempts :: "'w advance_deps \<Rightarrow> llm_request \<Rightarrow> nat \<Rightarrow> nat \<Rightarrow> js_error \<Rightarrow> ('w turn, llm_response) io" where
  "llm_attempts deps rq 0 attempt lastError = throwE lastError"
| "llm_attempts deps rq (Suc left) attempt lastError =
     bindE (emit (EvLlm (rq_messages rq))) (\<lambda>_.
     bindE (attemptE (onWorld (ad_llm deps rq))) (\<lambda>r.
       case r of
         Inr response \<Rightarrow> returnE response
       | Inl (TransientLlmError m) \<Rightarrow>
           bindE (append deps (transient_entry attempt (TransientLlmError m))) (\<lambda>_.
           bindE (if 0 < left then
                    (let ms = 250 * 2 ^ (attempt - 1) in
                     bindE (emit (EvSleep ms)) (\<lambda>_. onWorld (\<lambda>w. (Inr (), ad_sleep deps ms w))))
                  else returnE ()) (\<lambda>_.
             llm_attempts deps rq left (attempt + 1) (TransientLlmError m)))
       | Inl e \<Rightarrow> throwE e))"

definition callLlmWithRetries :: "'w advance_deps \<Rightarrow> assistant \<Rightarrow> 'w resolution \<Rightarrow> ('w turn, llm_response) io" where
  "callLlmWithRetries deps a resolution =
     bindE conv (\<lambda>c.
       llm_attempts deps
         \<lparr>rq_model = (if truthy (llmModel a) then coalesce (llmModel a) [] else defaultModel deps),
          rq_messages = buildMessages a c, rq_tools = toolSchemas (granted resolution)\<rparr>
         (llmMaxAttempts deps) 1 (Thrown ''undefined''))"

section \<open>The tool calls of a Turn\<close>

definition resolve_call :: "'w resolution \<Rightarrow> string \<Rightarrow> 'w granted_operation option" where
  "resolve_call resolution wire =
     or_else (find (\<lambda>g. toolNameForLlm (g_name g) = wire) (granted resolution))
             (find (\<lambda>g. g_name g = operationFromLlm wire) (granted resolution))"

definition call_name :: "'w resolution \<Rightarrow> string \<Rightarrow> string" where
  "call_name resolution wire =
     (case resolve_call resolution wire of
        Some g \<Rightarrow> g_name g
      | None \<Rightarrow> (case find (\<lambda>d. toolNameForLlm (dg_key d) = wire) (dropped resolution) of
                   Some d \<Rightarrow> dg_key d | None \<Rightarrow> operationFromLlm wire))"

definition intent_entry :: "string \<Rightarrow> string \<Rightarrow> json \<Rightarrow> string \<Rightarrow> entry" where
  "intent_entry text operation args key = blank_entry\<lparr>e_role := Some ''assistant'', e_kind := Some ''tool-intent'',
     e_text := Some text, e_toolName := Some operation, e_toolArgs := Some (stringify args),
     e_idempotencyKey := Some key\<rparr>"

definition pending_text :: "waiting_for \<Rightarrow> string option \<Rightarrow> string" where
  "pending_text wfor note = stringify (JObj [(''pending'', JBool True), (''waitingFor'', waiting_json wfor),
     (''note'', JStr (coalesce note ''Suspended; the answer will arrive as a later message.''))])"

definition execute_call :: "'w advance_deps \<Rightarrow> conversation stored \<Rightarrow> assistant stored \<Rightarrow> 'w granted_operation
    \<Rightarrow> json \<Rightarrow> string \<Rightarrow> ('w turn, outcome) io" where
  "execute_call deps st a g args key =
     bindE (live st) (\<lambda>stored.
     bindE (emit (EvExecute (g_name g) args key)) (\<lambda>_.
     bindE (attemptE (onWorld (g_execute g args
              \<lparr>ctx_conversation = stored, ctx_assistant = a, ctx_idempotencyKey = key\<rparr>))) (\<lambda>r.
       returnE (case r of Inr outcome \<Rightarrow> outcome | Inl e \<Rightarrow> OError (describeForModel e)))))"

text \<open>
  The intent of one call, written before anything runs; the first of the Turn carries its cost. The
  value is the call's key and the entry that carries the cost.
\<close>

definition record_intent :: "'w advance_deps \<Rightarrow> conversation stored \<Rightarrow> llm_response \<Rightarrow> string \<Rightarrow> json
    \<Rightarrow> nat option \<Rightarrow> ('w turn, string \<times> nat) io" where
  "record_intent deps st response operation args costEntry =
     bindE conv (\<lambda>c.
       let key = call_key (thingId st) (nextSeq c) in
       bindE (append deps (intent_entry (if costEntry \<noteq> None then [] else r_text response) operation args key))
         (\<lambda>i.
       bindE (if costEntry = None then setConv (modify_entry i (recordUsage (r_usage response))) else returnE ())
         (\<lambda>_.
       bindE (write_back deps st) (\<lambda>_. returnE (key, coalesce costEntry i)))))"

text \<open>What a resolved call leaves: a Turn that ends suspended, or nothing and the loop goes on.\<close>

definition record_outcome :: "'w advance_deps \<Rightarrow> conversation stored \<Rightarrow> string \<Rightarrow> string \<Rightarrow> string option
    \<Rightarrow> bool \<Rightarrow> nat \<Rightarrow> outcome \<Rightarrow> ('w turn, advance_result option) io" where
  "record_outcome deps st operation key argsHash refused cost outcome =
     (case outcome of
        OPending wfor wake qid note \<Rightarrow>
          bindE (append deps (result_entry operation (pending_text wfor note) key)) (\<lambda>_.
          bindE (suspend deps st operation wfor wake qid 1) (\<lambda>r. returnE (Some r)))
      | OError m \<Rightarrow>
          bindE (append deps (result_entry operation (''Error: '' @ m) key)) (\<lambda>_. returnE None)
      | OValue v \<Rightarrow>
          bindE (append deps (result_entry operation (stringify v) key)) (\<lambda>i.
          bindE (if truthy argsHash \<and> \<not> refused
                 then setConv (modify_entry i (stampSpentApproval (coalesce argsHash []))) else returnE ()) (\<lambda>_.
          bindE (setConv (modify_entry cost (addUsage (operationUsage v)))) (\<lambda>_. returnE None))))"

definition run_resolved :: "'w advance_deps \<Rightarrow> conversation stored \<Rightarrow> assistant stored \<Rightarrow> 'w granted_operation
    \<Rightarrow> string \<Rightarrow> json \<Rightarrow> string \<Rightarrow> nat \<Rightarrow> ('w turn, advance_result option) io" where
  "run_resolved deps st a g operation args key cost =
     (let argsHash = (if g_requiresApproval g then Some (canonicalArgsHash (ad_sha256 deps) args) else None) in
      bindE (if truthy argsHash then gateOnApproval deps st a g args (coalesce argsHash []) else returnE None)
        (\<lambda>refusal.
      bindE (case refusal of Some outcome \<Rightarrow> returnE outcome | None \<Rightarrow> execute_call deps st a g args key) (\<lambda>outcome.
        record_outcome deps st operation key argsHash (refusal \<noteq> None) cost outcome)))"

definition run_call :: "'w advance_deps \<Rightarrow> conversation stored \<Rightarrow> assistant stored \<Rightarrow> 'w resolution
    \<Rightarrow> llm_response \<Rightarrow> llm_tool_call \<Rightarrow> nat option \<Rightarrow> ('w turn, advance_result option \<times> nat) io" where
  "run_call deps st a resolution response call costEntry =
     (let resolved = resolve_call resolution (tc_name call);
          operation = call_name resolution (tc_name call)
      in bindE (record_intent deps st response operation (tc_arguments call) costEntry) (\<lambda>(key, cost).
           case resolved of
             None \<Rightarrow>
               bindE (append deps (result_entry operation
                        (unresolvedCallMessage operation (tc_name call) (dropped resolution) (granted resolution)) key))
                 (\<lambda>_. returnE (None, cost))
           | Some g \<Rightarrow>
               bindE (run_resolved deps st a g operation (tc_arguments call) key cost) (\<lambda>r. returnE (r, cost))))"

fun run_calls :: "'w advance_deps \<Rightarrow> conversation stored \<Rightarrow> assistant stored \<Rightarrow> 'w resolution
    \<Rightarrow> llm_response \<Rightarrow> llm_tool_call list \<Rightarrow> nat option \<Rightarrow> ('w turn, advance_result option) io" where
  "run_calls deps st a resolution response [] costEntry = returnE None"
| "run_calls deps st a resolution response (call # calls) costEntry =
     bindE (run_call deps st a resolution response call costEntry) (\<lambda>(r, cost).
       case r of Some result \<Rightarrow> returnE (Some result)
       | None \<Rightarrow> run_calls deps st a resolution response calls (Some cost))"

section \<open>A Turn\<close>

definition finish_of_llm :: "llm_finish \<Rightarrow> finish_reason" where
  "finish_of_llm f = (case f of LAnswered \<Rightarrow> Answered | LWantsTools \<Rightarrow> WantsTools
     | LLength \<Rightarrow> LengthReached | LError \<Rightarrow> ErrorReason)"

definition conclude :: "'w advance_deps \<Rightarrow> conversation stored \<Rightarrow> llm_response \<Rightarrow> ('w turn, advance_result) io" where
  "conclude deps st response =
     bindE (append deps (blank_entry\<lparr>e_role := Some ''assistant'', e_kind := Some ''assistant'',
              e_text := Some (r_text response)\<rparr>)) (\<lambda>i.
     bindE (setConv (modify_entry i (recordUsage (r_usage response)))) (\<lambda>_.
     bindE (setConv (\<lambda>c. c\<lparr>status := Some Done, finishReason := Some (finish_of_llm (r_finishReason response)),
              c_result := Some (r_text response), leaseUntil := Some []\<rparr>)) (\<lambda>_.
     bindE (write_back deps st) (\<lambda>_.
       returnE \<lparr>ar_status = Some Done, ar_turnsRun = 1, ar_note = None\<rparr>))))"

definition unreachable_message :: "js_error \<Rightarrow> string" where
  "unreachable_message e = ''The language model could not be reached: '' @ describeForModel e"

definition llm_error_message :: "llm_response \<Rightarrow> string" where
  "llm_error_message response = ''The language model returned an error: ''
     @ (case r_error response of Some e \<Rightarrow> le_message e | None \<Rightarrow> ''unknown'')"

definition act_on_response :: "'w advance_deps \<Rightarrow> conversation stored \<Rightarrow> assistant stored \<Rightarrow> 'w resolution
    \<Rightarrow> llm_response \<Rightarrow> ('w turn, advance_result) io" where
  "act_on_response deps st a resolution response =
     bindE (setConv (\<lambda>c. c\<lparr>turnCount := Some (coalesce (turnCount c) 0 + 1)\<rparr>)) (\<lambda>_.
       if r_finishReason response = LError then
         bindE (escalate deps st a ErrorReason (llm_error_message response)) (\<lambda>_.
           finish_with Waiting 1 ''llm error'')
       else if r_finishReason response \<noteq> LWantsTools then conclude deps st response
       else
         bindE (run_calls deps st a resolution response (r_toolCalls response) None) (\<lambda>r.
           case r of
             Some result \<Rightarrow> returnE result
           | None \<Rightarrow>
               bindE (setConv (\<lambda>c. c\<lparr>leaseUntil := Some [], status := Some Running\<rparr>)) (\<lambda>_.
               bindE (write_back deps st) (\<lambda>_.
                 returnE \<lparr>ar_status = Some Running, ar_turnsRun = 1, ar_note = None\<rparr>))))"

definition heed_answer :: "'w advance_deps \<Rightarrow> conversation stored \<Rightarrow> assistant stored \<Rightarrow> 'w resolution
    \<Rightarrow> llm_response result \<Rightarrow> ('w turn, advance_result) io" where
  "heed_answer deps st a resolution r =
     (case r of
        Inl e \<Rightarrow>
          bindE (escalate deps st a ErrorReason (unreachable_message e)) (\<lambda>_.
            finish_with Waiting 0 ''llm unreachable'')
      | Inr response \<Rightarrow> act_on_response deps st a resolution response)"

definition take_turn :: "'w advance_deps \<Rightarrow> conversation stored \<Rightarrow> assistant stored \<Rightarrow> 'w resolution
    \<Rightarrow> ('w turn, advance_result) io" where
  "take_turn deps st a resolution =
     bindE conv (\<lambda>c.
     bindE (onWorld (\<lambda>w. (Inr (), ad_setLlmContext deps (coalesce (a_key (data a)) []) (coalesce (turnCount c) 0) w)))
       (\<lambda>_.
     bindE (attemptE (callLlmWithRetries deps (data a) resolution)) (heed_answer deps st a resolution)))"

definition turn_with :: "'w advance_deps \<Rightarrow> conversation stored \<Rightarrow> assistant stored \<Rightarrow> ('w turn, advance_result) io" where
  "turn_with deps st a =
     bindE (setConv (\<lambda>c. c\<lparr>status := Some Running, waitingFor := Some WF_None\<rparr>)) (\<lambda>_.
     bindE (loadCatalogue deps) (\<lambda>catalogue.
       let resolution = grantedTo (ad_registry deps) (data a) catalogue in
       bindE (recover deps st a resolution) (\<lambda>ended.
         case ended of Some r \<Rightarrow> returnE r | None \<Rightarrow> take_turn deps st a resolution)))"

definition unknown_assistant :: "conversation \<Rightarrow> string" where
  "unknown_assistant c = ''This conversation names the Assistant '' @ quoted (shown (assistantKey c))
     @ '', and no Assistant with that key exists. It was probably renamed or deleted. ''
     @ ''Restore it, or abandon this conversation.''"

definition turns_exhausted :: "int \<Rightarrow> string" where
  "turns_exhausted m = ''This conversation reached its limit of '' @ string_of_int m @ '' turns without finishing.''
     @ nl @ nl @ ''Answer to let it run '' @ string_of_int TURN_GRANT_ON_ESCALATION
     @ '' more turns, or leave it to stop here.''"

definition turn_limit :: "conversation \<Rightarrow> assistant \<Rightarrow> int" where
  "turn_limit c a = coalesce (maxTurns c) (coalesce (a_maxTurns a) 20)"

definition with_assistant :: "'w advance_deps \<Rightarrow> conversation stored \<Rightarrow> assistant stored
    \<Rightarrow> ('w turn, advance_result) io" where
  "with_assistant deps st a =
     bindE conv (\<lambda>c.
       if a_enabled (data a) = Some False then
         bindE (setConv (\<lambda>c. c\<lparr>leaseUntil := Some []\<rparr>)) (\<lambda>_.
         bindE (write_back deps st) (\<lambda>_. finish_with Waiting 0 ''assistant disabled''))
       else
         let m = turn_limit c (data a) in
         if m \<le> coalesce (turnCount c) 0 then
           bindE (setConv (\<lambda>c. c\<lparr>maxTurns := Some (m + TURN_GRANT_ON_ESCALATION)\<rparr>)) (\<lambda>_.
           bindE (escalate deps st a Limit (turns_exhausted m)) (\<lambda>_. finish_with Waiting 0 ''max turns''))
         else turn_with deps st a)"

definition leased :: "'w advance_deps \<Rightarrow> conversation stored \<Rightarrow> ('w turn, advance_result) io" where
  "leased deps st =
     bindE conv (\<lambda>c.
       if isFull c then
         bindE (endBecauseFull deps st) (\<lambda>_.
           returnE \<lparr>ar_status = Some Failed, ar_turnsRun = 0, ar_note = Some ''entries full''\<rparr>)
       else
         bindE (loadAssistant deps (coalesce (assistantKey c) [])) (\<lambda>assistant.
           case assistant of
             None \<Rightarrow>
               bindE (escalateByKey deps st (coalesce (assistantKey c) ''(none)'') ErrorReason (unknown_assistant c)) (\<lambda>_.
                 finish_with Waiting 0 ''unknown assistant'')
           | Some a \<Rightarrow> with_assistant deps st a))"

definition load :: "'w advance_deps \<Rightarrow> string \<Rightarrow> ('w turn, conversation stored) io" where
  "load deps ref =
     bindE (onWorld (repo_get (ad_things deps) Conversation_spec ref)) (\<lambda>t.
       let st = map_stored conversation_of t in
       bindE (setConv (\<lambda>_. data st)) (\<lambda>_.
       bindE (emit (EvLoaded (data st))) (\<lambda>_. returnE st)))"

definition advance :: "'w advance_deps \<Rightarrow> string \<Rightarrow> ('w turn, advance_result) io" where
  "advance deps ref =
     bindE (load deps ref) (\<lambda>st.
     bindE conv (\<lambda>c.
       if status c = Some Done \<or> status c = Some Failed then
         returnE \<lparr>ar_status = status c, ar_turnsRun = 0, ar_note = Some ''already finished''\<rparr>
       else
         bindE (claimLease deps) (\<lambda>claimed.
           if \<not> claimed then finish_with Running 0 ''leased elsewhere'' else leased deps st)))"

end
