(* ===== verification/LoopFacts.thy ===== *)
theory LoopFacts
  imports Loop
begin

text \<open>
  What holds of \<open>advance\<close> in every world: for any ThingStore, any model, any Operations and any
  clock. The invariants speak of the Conversation of the Turn and of the trace of its effects; each
  step of the loop has a rule that pushes them through it.
\<close>

section \<open>Rules for the steps of a Turn\<close>

lemma wp_onWorld:
  "(\<And>x w. Q x (s\<lparr>tw_world := w\<rparr>)) \<Longrightarrow> (\<And>e w. E e (s\<lparr>tw_world := w\<rparr>)) \<Longrightarrow> wp_of (onWorld m) Q E s"
  by (auto simp: wp_of_def onWorld_def split: prod.split sum.split)

lemma wp_conv [wp]: "wp_of conv Q E s = Q (tw_conv s) s"
  by (simp add: conv_def wp)

lemma wp_setConv [wp]: "wp_of (setConv f) Q E s = Q () (s\<lparr>tw_conv := f (tw_conv s)\<rparr>)"
  by (simp add: setConv_def wp)

lemma wp_emit [wp]: "wp_of (emit ev) Q E s = Q () (s\<lparr>tw_events := tw_events s @ [ev]\<rparr>)"
  by (simp add: emit_def wp)

lemma wp_now [wp]: "wp_of (now deps) Q E s = Q (cl_now (ad_things deps) (tw_world s)) s"
  by (simp add: now_def wp)

lemma wp_live [wp]: "wp_of (live st) Q E s = Q (st\<lparr>data := tw_conv s\<rparr>) s"
  by (simp add: live_def wp)

lemma wp_append [wp]:
  "wp_of (append deps e) Q E s = Q (length (entry_list (tw_conv s)))
     (s\<lparr>tw_conv := appendEntry (cl_now (ad_things deps) (tw_world s)) e (tw_conv s)\<rparr>)"
  by (simp add: append_def wp)

lemma wp_write:
  "(\<And>w. Q () (s\<lparr>tw_world := w, tw_events := tw_events s @ [EvWrote (tw_conv s)]\<rparr>)) \<Longrightarrow>
   (\<And>e w. E e (s\<lparr>tw_world := w\<rparr>)) \<Longrightarrow> wp_of (write_back deps st) Q E s"
  by (auto simp: write_back_def wp intro!: wp_onWorld)

lemma wp_raise:
  "(\<And>q w. Q q (s\<lparr>tw_events := tw_events s @ [EvAsk kind key], tw_world := w\<rparr>)) \<Longrightarrow>
   (\<And>e w. E e (s\<lparr>tw_events := tw_events s @ [EvAsk kind key], tw_world := w\<rparr>)) \<Longrightarrow>
   wp_of (raise deps st akey kind prompt key) Q E s"
  by (auto simp: raise_def wp intro!: wp_onWorld)

section \<open>The record and the trace\<close>

lemma record_ok_update [simp]:
  "record_ok i k (c\<lparr>status := a\<rparr>) = record_ok i k c"
  "record_ok i k (c\<lparr>waitingFor := b\<rparr>) = record_ok i k c"
  "record_ok i k (c\<lparr>finishReason := d\<rparr>) = record_ok i k c"
  "record_ok i k (c\<lparr>turnCount := e\<rparr>) = record_ok i k c"
  "record_ok i k (c\<lparr>maxTurns := f\<rparr>) = record_ok i k c"
  "record_ok i k (c\<lparr>wakeAt := g\<rparr>) = record_ok i k c"
  "record_ok i k (c\<lparr>leaseUntil := h\<rparr>) = record_ok i k c"
  "record_ok i k (c\<lparr>currentQuestionId := j\<rparr>) = record_ok i k c"
  "record_ok i k (c\<lparr>escalationCount := l\<rparr>) = record_ok i k c"
  "record_ok i k (c\<lparr>c_result := m\<rparr>) = record_ok i k c"
  "record_ok i k (c\<lparr>c_lastError := n\<rparr>) = record_ok i k c"
  by (simp_all add: record_ok_def numbered_def)

lemma intent_keys_update [simp]:
  "intent_keys (c\<lparr>status := a\<rparr>) = intent_keys c"
  "intent_keys (c\<lparr>waitingFor := b\<rparr>) = intent_keys c"
  "intent_keys (c\<lparr>finishReason := d\<rparr>) = intent_keys c"
  "intent_keys (c\<lparr>turnCount := e\<rparr>) = intent_keys c"
  "intent_keys (c\<lparr>maxTurns := f\<rparr>) = intent_keys c"
  "intent_keys (c\<lparr>wakeAt := g\<rparr>) = intent_keys c"
  "intent_keys (c\<lparr>leaseUntil := h\<rparr>) = intent_keys c"
  "intent_keys (c\<lparr>currentQuestionId := j\<rparr>) = intent_keys c"
  "intent_keys (c\<lparr>escalationCount := l\<rparr>) = intent_keys c"
  "intent_keys (c\<lparr>c_result := m\<rparr>) = intent_keys c"
  "intent_keys (c\<lparr>c_lastError := n\<rparr>) = intent_keys c"
  by (simp_all add: intent_keys_def)

declare intent_keys_append [simp]

definition last_written :: "event list \<Rightarrow> conversation option" where
  "last_written evs = fold (\<lambda>ev w. case ev of EvWrote c \<Rightarrow> Some c | _ \<Rightarrow> w) evs None"

lemma last_written_simps [simp]:
  "last_written [] = None"
  "last_written (evs @ [ev]) = (case ev of EvWrote c \<Rightarrow> Some c | _ \<Rightarrow> last_written evs)"
  by (simp_all add: last_written_def split: event.split)

lemma last_written_two [simp]:
  "last_written (evs @ [a, b]) = (case b of EvWrote c \<Rightarrow> Some c | _ \<Rightarrow> last_written (evs @ [a]))"
  using last_written_simps(2) [of "evs @ [a]" b] by simp

text \<open>The record has the call \<open>key\<close> open, of the Operation \<open>op\<close> with the arguments \<open>args\<close>.\<close>

definition call_open :: "string \<Rightarrow> string \<Rightarrow> json \<Rightarrow> string \<Rightarrow> conversation \<Rightarrow> bool" where
  "call_open i op args key c \<longleftrightarrow> record_ok i (Some key) c \<and>
     (\<exists>e. unresolvedIntent c = Some e \<and> e_idempotencyKey e = Some key \<and> e_toolName e = Some op
        \<and> e_toolArgs e = Some (stringify args))"

text \<open>
  What may happen next, given what has happened: a record that is written is in order; the model is
  sent messages a provider accepts; an Operation is executed when the record last written has its
  call open, so that a crash after this point leaves the intent to be found, and under a key that no
  call of the loaded record and no earlier execution had.
\<close>

definition in_order :: "string \<Rightarrow> conversation \<Rightarrow> bool" where
  "in_order i c \<longleftrightarrow> (\<exists>k. record_ok i k c)"

lemma in_orderI [simp, intro]:
  "record_ok i None c \<Longrightarrow> in_order i c" "record_ok i (Some k) c \<Longrightarrow> in_order i c"
  by (auto simp: in_order_def)

text \<open>The keys that were in use when the record was loaded, or under which something was executed.\<close>

definition known_keys :: "event list \<Rightarrow> string set" where
  "known_keys evs = (\<Union>ev \<in> set evs. case ev of
     EvLoaded c \<Rightarrow> intent_keys c | EvExecute op args key \<Rightarrow> {key} | _ \<Rightarrow> {})"

lemma known_keys_simps [simp]:
  "known_keys [] = {}"
  "known_keys (ev # evs) = (case ev of
     EvLoaded c \<Rightarrow> intent_keys c | EvExecute op args key \<Rightarrow> {key} | _ \<Rightarrow> {}) \<union> known_keys evs"
  "known_keys (xs @ ys) = known_keys xs \<union> known_keys ys"
  by (simp_all add: known_keys_def)

definition event_ok :: "string \<Rightarrow> event list \<Rightarrow> event \<Rightarrow> bool" where
  "event_ok i before ev =
     (case ev of
        EvWrote c \<Rightarrow> in_order i c
      | EvLlm ms \<Rightarrow> answered [] ms
      | EvExecute op args key \<Rightarrow> key \<notin> known_keys before \<and>
          (\<exists>c. last_written before = Some c \<and> call_open i op args key c)
      | _ \<Rightarrow> True)"

definition trace_ok :: "string \<Rightarrow> event list \<Rightarrow> bool" where
  "trace_ok i evs \<longleftrightarrow> (\<forall>before ev after. evs = before @ ev # after \<longrightarrow> event_ok i before ev)"

lemma trace_ok_Nil [simp]: "trace_ok i []"
  by (simp add: trace_ok_def)

lemma trace_ok_snoc [simp]: "trace_ok i (evs @ [ev]) \<longleftrightarrow> trace_ok i evs \<and> event_ok i evs ev"
proof
  assume t: "trace_ok i (evs @ [ev])"
  have "event_ok i b x" if "evs = b @ x # a" for b x a
    using t that unfolding trace_ok_def by (metis append.assoc append_Cons)
  moreover have "event_ok i evs ev" using t unfolding trace_ok_def by simp
  ultimately show "trace_ok i evs \<and> event_ok i evs ev" by (simp add: trace_ok_def)
next
  assume t: "trace_ok i evs \<and> event_ok i evs ev"
  have "event_ok i b x" if "evs @ [ev] = b @ x # a" for b x a
  proof (cases a rule: rev_cases)
    case Nil
    with that t show ?thesis by simp
  next
    case (snoc a' y)
    with that have "evs = b @ x # a'" by simp
    with t show ?thesis unfolding trace_ok_def by blast
  qed
  then show "trace_ok i (evs @ [ev])" by (simp add: trace_ok_def)
qed

lemma trace_ok_two [simp]:
  "trace_ok i (evs @ [a, b]) \<longleftrightarrow> trace_ok i evs \<and> event_ok i evs a \<and> event_ok i (evs @ [a]) b"
  using trace_ok_snoc [of i "evs @ [a]" b] by simp

lemma event_ok_simps [simp]:
  "event_ok i evs (EvWrote c) \<longleftrightarrow> in_order i c"
  "event_ok i evs (EvLlm ms) \<longleftrightarrow> answered [] ms"
  "event_ok i evs (EvExecute op args key) \<longleftrightarrow> key \<notin> known_keys evs \<and>
     (\<exists>c. last_written evs = Some c \<and> call_open i op args key c)"
  "event_ok i evs (EvReconcile op args key)" "event_ok i evs (EvAsk kind k)" "event_ok i evs (EvSleep n)" "event_ok i evs (EvLoaded c)"
  by (simp_all add: event_ok_def)

definition tracing :: "string \<Rightarrow> 'w turn \<Rightarrow> bool" where
  "tracing i s \<longleftrightarrow> trace_ok i (tw_events s)"

definition settled :: "string \<Rightarrow> 'w turn \<Rightarrow> bool" where
  "settled i s \<longleftrightarrow> record_ok i None (tw_conv s) \<and> trace_ok i (tw_events s)
     \<and> (\<forall>x \<in> known_keys (tw_events s). x \<in> intent_keys (tw_conv s))"

definition opened :: "string \<Rightarrow> string \<Rightarrow> 'w turn \<Rightarrow> bool" where
  "opened i k s \<longleftrightarrow> record_ok i (Some k) (tw_conv s) \<and> trace_ok i (tw_events s)
     \<and> (\<forall>x \<in> known_keys (tw_events s). x \<in> intent_keys (tw_conv s))"

lemmas state_defs = tracing_def settled_def opened_def

text \<open>A call is opened and the record written: from here on it may be executed.\<close>

definition ready :: "string \<Rightarrow> string \<Rightarrow> json \<Rightarrow> string \<Rightarrow> 'w turn \<Rightarrow> bool" where
  "ready i op args key s \<longleftrightarrow> opened i key s \<and> key \<in> intent_keys (tw_conv s) \<and> key \<notin> known_keys (tw_events s) \<and>
     (\<exists>c. last_written (tw_events s) = Some c \<and> call_open i op args key c)"

lemma call_openI:
  assumes r: "record_ok i (Some key) c" and e: "e \<in> set (entry_list c)" "is_intent e"
    and k: "e_idempotencyKey e = Some key" "e_toolName e = Some op" "e_toolArgs e = Some (stringify args)"
  shows "call_open i op args key c"
proof -
  let ?key = "\<lambda>e. coalesce (e_idempotencyKey e) []"
  obtain e' where u: "unresolvedIntent c = Some e'" and k': "e_idempotencyKey e' = Some key"
    using unresolved_some [OF r] by blast
  have e': "e' \<in> set (filter is_intent (entry_list c))"
    using u by (auto simp: unresolvedIntent_alt dest!: find_SomeD)
  have "inj_on ?key (set (filter is_intent (entry_list c)))"
    using record_keys_distinct [OF r] by (simp add: distinct_map)
  then have "e' = e" using e e' k(1) k' by (auto simp: inj_on_def)
  with r u k show ?thesis by (auto simp: call_open_def)
qed

section \<open>Each step keeps the record and the trace\<close>

lemma wp_suspend:
  assumes "settled i s"
  shows "wp_of (suspend deps st operation wfor wake qid n) (\<lambda>_ s. settled i s) (\<lambda>_ s. tracing i s) s"
  using assms by (auto simp: suspend_def wp state_defs suspended_def intro!: wp_write)

lemma error_entry_plain [simp]: "\<not> is_intent (error_entry t)" "\<not> is_result (error_entry t)"
  by (simp_all add: error_entry_def is_intent_def is_result_def)

lemma wp_escalateByKey:
  assumes "settled i s"
  shows "wp_of (escalateByKey deps st akey reason message) (\<lambda>_ s. settled i s) (\<lambda>_ s. tracing i s) s"
proof -
  have "record_ok i None (appendEntry t (error_entry message) (c\<lparr>c_lastError := a, finishReason := b, escalationCount := d\<rparr>))"
    if "record_ok i None c" for t c a b d
    using that by (intro record_ok_plain) simp_all
  with assms show ?thesis
    by (auto simp: escalateByKey_def wp Let_def state_defs intro!: wp_write wp_raise)
qed

lemma wp_escalate:
  "settled i s \<Longrightarrow> wp_of (escalate deps st a reason message) (\<lambda>_ s. settled i s) (\<lambda>_ s. tracing i s) s"
  unfolding escalate_def by (rule wp_escalateByKey)

lemma wp_endBecauseFull:
  assumes "settled i s"
  shows "wp_of (endBecauseFull deps st) (\<lambda>_ s. settled i s) (\<lambda>_ s. tracing i s) s"
proof -
  have "record_ok i None (appendEntry t (error_entry message) c)" if "record_ok i None c" for t c message
    using that by (intro record_ok_plain) simp_all
  with assms show ?thesis
    by (auto simp: endBecauseFull_def wp Let_def state_defs intro!: wp_write)
qed

lemma wp_loadQuestion:
  "(\<And>q w. Q q (s\<lparr>tw_world := w\<rparr>)) \<Longrightarrow> Q None s \<Longrightarrow> wp_of (loadQuestion deps qid) Q E s"
  by (auto simp: loadQuestion_def wp intro!: wp_onWorld)

lemma wp_findApproval:
  assumes "\<And>a w. Q a (s\<lparr>tw_world := w\<rparr>)" and "\<And>a. Q a s"
  shows "wp_of (findApproval c op h (loadQuestion deps)) Q E s"
  using assms by (auto simp: findApproval_def Let_def wp split: option.split intro!: wp_loadQuestion)

lemma ready_world [simp]: "ready i op args key (s\<lparr>tw_world := w\<rparr>) = ready i op args key s"
  by (simp add: ready_def opened_def)

lemma settled_world [simp]: "settled i (s\<lparr>tw_world := w\<rparr>) = settled i s"
  by (simp add: settled_def)

lemma tracing_world [simp]: "tracing i (s\<lparr>tw_world := w\<rparr>) = tracing i s"
  by (simp add: tracing_def)

lemma tracing_of: "ready i op args key s \<Longrightarrow> tracing i s" "settled i s \<Longrightarrow> tracing i s"
    "opened i key s \<Longrightarrow> tracing i s"
  by (simp_all add: ready_def state_defs)

lemma request_entry_fields [simp]:
  "e_kind (request_entry op h q) = Some ''approval-request''" "e_text (request_entry op h q) = None"
  by (simp_all add: request_entry_def blank_entry_def)

lemma wp_raiseApproval:
  assumes "ready i op args key s"
  shows "wp_of (raiseApproval deps st a g args' h) (\<lambda>_ s. ready i op args key s) (\<lambda>_ s. tracing i s) s"
proof -
  have "record_ok i (Some key) (appendEntry t (request_entry o' h' q) (tw_conv s))" for t o' h' q
    using assms by (intro record_ok_request) (simp_all add: ready_def opened_def)
  with assms show ?thesis
    by (auto simp: raiseApproval_def Let_def wp ready_def state_defs split: sum.split intro!: wp_raise)
qed

lemma wp_gateOnApproval:
  assumes "ready i op args key s"
  shows "wp_of (gateOnApproval deps st a g args' h) (\<lambda>_ s. ready i op args key s) (\<lambda>_ s. tracing i s) s"
proof -
  have "wp_of (case approval of AValid _ \<Rightarrow> returnE None
       | ADeclined _ reason \<Rightarrow> returnE (Some (OError reason))
       | AWaiting q \<Rightarrow> returnE (Some (OPending WF_User None (Some q) (Some REFUSED_PENDING_APPROVAL)))
       | _ \<Rightarrow> bindE (raiseApproval deps st a g args' h)
           (\<lambda>q. returnE (Some (OPending WF_User None (Some q) (Some REFUSED_PENDING_APPROVAL)))))
     (\<lambda>_ s. ready i op args key s) (\<lambda>_ s. tracing i s) s'" if "ready i op args key s'" for approval s'
    using that by (auto simp: wp split: approval_state.split intro!: wp_mono [OF wp_raiseApproval])
  with assms show ?thesis by (auto simp: gateOnApproval_def wp intro!: wp_findApproval)
qed

lemma wp_execute_call:
  assumes "ready i (g_name g) args key s"
  shows "wp_of (execute_call deps st a g args key) (\<lambda>_ s. opened i key s) (\<lambda>_ s. False) s"
  using assms by (auto simp: execute_call_def wp ready_def state_defs intro!: wp_onWorld)

lemma result_entry_fields [simp]:
  "is_result (result_entry op t key)" "e_idempotencyKey (result_entry op t key) = Some key"
  by (simp_all add: result_entry_def is_result_def)

lemma wp_record_outcome:
  assumes "opened i key s"
  shows "wp_of (record_outcome deps st operation key h refused cost outcome) (\<lambda>_ s. settled i s) (\<lambda>_ s. tracing i s) s"
proof -
  have r: "record_ok i None (appendEntry t (result_entry o' x key) (tw_conv s))" for t o' x
    using assms by (intro record_ok_result) (simp_all add: opened_def)
  have m: "record_ok i None (modify_entry n f (appendEntry t (result_entry o' x key) (tw_conv s)))"
    if "keeps_shape f" for n f t o' x
    using that r by (simp add: record_ok_modify)
  show ?thesis
  proof (cases outcome)
    case (OPending wfor wake qid nt)
    then show ?thesis
      using assms r by (auto simp: record_outcome_def wp opened_def settled_def intro!: wp_mono [OF wp_suspend])
  next
    case (OError m)
    then show ?thesis using assms r by (auto simp: record_outcome_def wp state_defs)
  next
    case (OValue v)
    then show ?thesis using assms r m by (auto simp: record_outcome_def wp state_defs record_ok_modify)
  qed
qed

lemma wp_run_resolved:
  assumes "ready i (g_name g) args key s"
  shows "wp_of (run_resolved deps st a g operation args key cost) (\<lambda>_ s. settled i s) (\<lambda>_ s. tracing i s) s"
proof -
  let ?h = "if g_requiresApproval g then Some (canonicalArgsHash (ad_sha256 deps) args) else None"
  have x: "wp_of (bindE (case refusal of Some outcome \<Rightarrow> returnE outcome | None \<Rightarrow> execute_call deps st a g args key)
        (record_outcome deps st operation key ?h (refusal \<noteq> None) cost))
      (\<lambda>_ s. settled i s) (\<lambda>_ s. tracing i s) s'" if "ready i (g_name g) args key s'" for refusal s'
  proof (cases refusal)
    case None
    then show ?thesis
      using that by (auto simp: wp intro!: wp_mono [OF wp_execute_call] wp_record_outcome)
  next
    case (Some outcome)
    with that show ?thesis by (auto simp: wp ready_def intro!: wp_record_outcome)
  qed
  show ?thesis
    using assms x [where refusal = None] x
    by (auto simp: run_resolved_def Let_def wp intro!: wp_mono [OF wp_gateOnApproval])
qed

lemma intent_entry_fields [simp]:
  "is_intent (intent_entry t op args key)" "e_idempotencyKey (intent_entry t op args key) = Some key"
  "e_toolName (intent_entry t op args key) = Some op"
  "e_toolArgs (intent_entry t op args key) = Some (stringify args)"
  by (simp_all add: intent_entry_def is_intent_def)


lemma wp_record_intent:
  assumes "settled i s" and "thingId st = i"
  shows "wp_of (record_intent deps st response operation args costEntry)
    (\<lambda>(key, cost) s. ready i operation args key s) (\<lambda>_ s. tracing i s) s"
proof -
  let ?k = "call_key i (nextSeq (tw_conv s))"
  let ?a = "\<lambda>t x. appendEntry t (intent_entry x operation args ?k) (tw_conv s)"
  have o: "record_ok i (Some ?k) (?a t x)" for t x
    using assms by (intro record_ok_intent) (simp_all add: settled_def)
  have o': "record_ok i (Some ?k) (modify_entry n (recordUsage u) (?a t x))" for t x n u
    using o by (intro record_ok_modify) simp_all
  have open1: "call_open i operation args ?k (?a t x)" for t x
    by (rule call_openI [OF o, where e = "intent_entry x operation args ?k\<lparr>e_seq := Some (nextSeq (tw_conv s)), e_at := Some (nowIso t)\<rparr>"])
      (simp_all add: is_intent_def intent_entry_def)
  have open2: "call_open i operation args ?k (modify_entry (length (entry_list (tw_conv s))) (recordUsage u) (?a t x))" for t x u
    by (rule call_openI [OF o', where e = "recordUsage u (intent_entry x operation args ?k\<lparr>e_seq := Some (nextSeq (tw_conv s)), e_at := Some (nowIso t)\<rparr>)"])
      (simp_all add: is_intent_def intent_entry_def modify_entry_update recordUsage_def split: option.split)
  have fresh: "?k \<notin> intent_keys (tw_conv s)"
    using assms(1) by (auto simp: settled_def dest: fresh_call_key)
  show ?thesis
    using assms o o' open1 open2 fresh in_orderI(2) [OF o] in_orderI(2) [OF o']
    by (auto simp: record_intent_def Let_def wp ready_def state_defs intro!: wp_write)
qed

lemma wp_run_call:
  assumes "settled i s" and "thingId st = i"
  shows "wp_of (run_call deps st a resolution response call costEntry) (\<lambda>_ s. settled i s) (\<lambda>_ s. tracing i s) s"
proof -
  let ?op = "call_name resolution (tc_name call)"
  have x: "wp_of (case resolve_call resolution (tc_name call) of
             None \<Rightarrow> bindE (append deps (result_entry ?op (unresolvedCallMessage ?op (tc_name call)
                 (dropped resolution) (granted resolution)) key)) (\<lambda>_. returnE (None, cost))
           | Some g \<Rightarrow> bindE (run_resolved deps st a g ?op (tc_arguments call) key cost) (\<lambda>r. returnE (r, cost)))
      (\<lambda>_ s. settled i s) (\<lambda>_ s. tracing i s) s'" if r: "ready i ?op (tc_arguments call) key s'" for key cost s'
  proof (cases "resolve_call resolution (tc_name call)")
    case None
    have "record_ok i None (appendEntry t (result_entry ?op y key) (tw_conv s'))" for t y
      using r by (intro record_ok_result) (simp_all add: ready_def opened_def)
    with None r show ?thesis by (auto simp: wp ready_def state_defs)
  next
    case (Some g)
    then have "?op = g_name g" by (simp add: call_name_def)
    with r Some show ?thesis by (auto simp: wp intro!: wp_mono [OF wp_run_resolved])
  qed
  show ?thesis
    unfolding run_call_def Let_def
    by (subst wp_bindE) (rule wp_mono [OF wp_record_intent [OF assms]], auto simp: x split: prod.splits)
qed

lemma wp_run_calls:
  "settled i s \<Longrightarrow> thingId st = i \<Longrightarrow>
   wp_of (run_calls deps st a resolution response calls costEntry) (\<lambda>_ s. settled i s) (\<lambda>_ s. tracing i s) s"
proof (induction calls arbitrary: costEntry s)
  case Nil
  then show ?case by (simp add: wp)
next
  case (Cons call calls)
  have "wp_of (case r of Some result \<Rightarrow> returnE (Some result)
      | None \<Rightarrow> run_calls deps st a resolution response calls (Some cost))
      (\<lambda>_ s. settled i s) (\<lambda>_ s. tracing i s) s'" if "settled i s'" for r cost s'
    using that Cons.IH [OF that Cons.prems(2)] by (auto simp: wp split: option.split)
  then show ?case
    by (auto simp: wp intro!: wp_mono [OF wp_run_call [OF Cons.prems]])
qed

section \<open>A Turn keeps the record and the trace\<close>

lemma wp_llm_attempts:
  "settled i s \<Longrightarrow> answered [] (rq_messages rq) \<Longrightarrow>
   wp_of (llm_attempts deps rq n attempt e) (\<lambda>_ s. settled i s) (\<lambda>_ s. settled i s) s"
proof (induction deps rq n attempt e arbitrary: s rule: llm_attempts.induct)
  case (1 deps rq attempt e)
  then show ?case by (simp add: wp)
next
  case (2 deps rq n attempt e)
  have plain: "record_ok i None (appendEntry t (transient_entry attempt err) c)" if "record_ok i None c" for t err c
    using that unfolding transient_entry_def by (intro record_ok_plain) simp_all
  have ih: "wp_of (llm_attempts deps rq n (Suc attempt) (TransientLlmError m)) (\<lambda>_ s. settled i s) (\<lambda>_ s. settled i s) s'"
    if "settled i s'" for s' m using "2.IH" that "2.prems"(2) by simp
  show ?case
    using "2.prems" plain
    by (auto simp: wp settled_def Let_def split: sum.split js_error.split
        intro!: wp_onWorld ih [unfolded settled_def])
qed

lemma wp_callLlm:
  assumes "settled i s"
  shows "wp_of (callLlmWithRetries deps a resolution) (\<lambda>_ s. settled i s) (\<lambda>_ s. settled i s) s"
  using assms answered_messages
  by (auto simp: callLlmWithRetries_def wp settled_def intro!: wp_llm_attempts [unfolded settled_def])


text \<open>Neither the account of an answered Turn nor a tool result opens a call.\<close>

lemma assistant_entry_plain [simp]:
  "\<not> is_intent (blank_entry\<lparr>e_role := r, e_kind := Some ''assistant'', e_text := t\<rparr>)"
  "\<not> is_result (blank_entry\<lparr>e_role := r, e_kind := Some ''assistant'', e_text := t\<rparr>)"
  by (simp_all add: is_intent_def is_result_def blank_entry_def)

lemma wp_conclude:
  assumes "settled i s"
  shows "wp_of (conclude deps st response) (\<lambda>_ s. settled i s) (\<lambda>_ s. tracing i s) s"
proof -
  have "record_ok i None (modify_entry n (recordUsage u) (appendEntry t
      (blank_entry\<lparr>e_role := r, e_kind := Some ''assistant'', e_text := x\<rparr>) (tw_conv s)))" for n u t r x
    using assms by (intro record_ok_modify record_ok_plain) (simp_all add: settled_def)
  with assms show ?thesis by (auto simp: conclude_def wp state_defs intro!: wp_write)
qed

lemma wp_finish [wp]: "wp_of (finish_with d n t) Q E s = Q (result_of (status (tw_conv s)) d n t) s"
  by (simp add: finish_with_def wp)

lemma wp_act_on_response:
  assumes "settled i s" and "thingId st = i"
  shows "wp_of (act_on_response deps st a resolution response) (\<lambda>_ s. settled i s) (\<lambda>_ s. tracing i s) s"
proof -
  have w: "wp_of (case r of Some result \<Rightarrow> returnE result
      | None \<Rightarrow> bindE (setConv (\<lambda>c. c\<lparr>leaseUntil := Some [], status := Some Running\<rparr>)) (\<lambda>_.
               bindE (write_back deps st) (\<lambda>_.
                 returnE \<lparr>ar_status = Some Running, ar_turnsRun = 1, ar_note = None\<rparr>)))
      (\<lambda>_ s. settled i s) (\<lambda>_ s. tracing i s) s'" if "settled i s'" for r s'
    using that by (auto simp: wp state_defs split: option.split intro!: wp_write)
  let ?s = "s\<lparr>tw_conv := (tw_conv s)\<lparr>turnCount := Some (coalesce (turnCount (tw_conv s)) 0 + 1)\<rparr>\<rparr>"
  have s': "settled i ?s" using assms(1) by (simp add: settled_def)
  show ?thesis
    using s' assms(2) w
    by (auto simp: act_on_response_def wp
        intro!: wp_mono [OF wp_escalate] wp_conclude wp_mono [OF wp_run_calls])
qed

lemma wp_heed_answer:
  assumes "settled i s" and "thingId st = i"
  shows "wp_of (heed_answer deps st a resolution r) (\<lambda>_ s. settled i s) (\<lambda>_ s. tracing i s) s"
  using assms
  by (auto simp: heed_answer_def wp split: sum.split intro!: wp_mono [OF wp_escalate] wp_act_on_response)

lemma wp_take_turn:
  assumes "settled i s" and "thingId st = i"
  shows "wp_of (take_turn deps st a resolution) (\<lambda>_ s. settled i s) (\<lambda>_ s. tracing i s) s"
proof -
  have "wp_of (bindE (attemptE (callLlmWithRetries deps (data a) resolution)) (heed_answer deps st a resolution))
      (\<lambda>_ s. settled i s) (\<lambda>_ s. tracing i s) s'" if "settled i s'" for s'
    using wp_heed_answer assms(2)
    by (simp only: wp_bindE wp_attemptE) (rule wp_mono [OF wp_callLlm [OF that]])
  then show ?thesis
    using assms(1) tracing_of(2) [OF assms(1)]
    by (subst take_turn_def, subst wp_bindE, subst wp_conv, subst wp_bindE)
      (auto intro!: wp_onWorld)
qed

section \<open>Recovery keeps the record and the trace\<close>

lemma wp_settle:
  assumes "opened i key s"
  shows "wp_of (settle deps operation key toolArgs resolved verdict text) (\<lambda>v s. v = verdict \<and> settled i s) (\<lambda>_ s. False) s"
proof -
  have r: "record_ok i None (appendEntry t (result_entry o' x key) (tw_conv s))" for t o' x
    using assms by (intro record_ok_result) (simp_all add: opened_def)
  show ?thesis
    using assms r
    by (auto simp: settle_def wp state_defs split: option.split outcome.split intro!: record_ok_modify)
qed

text \<open>After a question about a call: still open without a verdict, settled with one.\<close>

definition verdict_state :: "string \<Rightarrow> string \<Rightarrow> outcome option \<Rightarrow> 'w turn \<Rightarrow> bool" where
  "verdict_state i key v s = (case v of None \<Rightarrow> opened i key s | Some _ \<Rightarrow> settled i s)"

lemma verdict_state_simps [simp]:
  "verdict_state i key None s = opened i key s" "verdict_state i key (Some v) s = settled i s"
  by (simp_all add: verdict_state_def)

lemma wp_settled_verdict:
  assumes "opened i key s"
  shows "wp_of (bindE (settle deps operation key ta resolved verdict tx) (\<lambda>v. returnE (Some v)))
      (\<lambda>v s. verdict_state i key v s) (\<lambda>_ s. False) s"
  using assms by (auto simp: wp intro!: wp_mono [OF wp_settle])

lemma wp_reconcile:
  assumes "opened i key s" and "e_idempotencyKey intent = Some key"
  shows "wp_of (reconcile deps st a intent resolution) (\<lambda>v s. verdict_state i key v s) (\<lambda>_ s. False) s"
proof -
  have c: "wp_of (case r of Inl _ \<Rightarrow> returnE None | Inr None \<Rightarrow> returnE None
        | Inr (Some v) \<Rightarrow> bindE (settle deps operation key ta resolved v (tx v)) (\<lambda>v. returnE (Some v)))
      (\<lambda>v s. verdict_state i key v s) (\<lambda>_ s. False) s'"
    if "opened i key s'" for r operation ta resolved tx s'
    using that wp_settled_verdict [OF that] by (auto simp: wp_basic split: sum.split option.split)
  have s1: "opened i key (s\<lparr>tw_events := tw_events s @ [EvReconcile op args k], tw_world := x\<rparr>)" for op args k x
    using assms(1) by (simp add: opened_def)
  have k: "coalesce (e_idempotencyKey intent) [] = key" using assms(2) by simp
  show ?thesis
  proof (cases "find (\<lambda>g. g_name g = coalesce (e_toolName intent) []) (granted resolution)")
    case None
    then show ?thesis
      using wp_settled_verdict [OF assms(1)] by (simp only: reconcile_def Let_def k option.case)
  next
    case (Some g)
    have asked: "wp_of (bindE (live st) (\<lambda>stored. bindE (emit (EvReconcile op args key)) (\<lambda>_.
          bindE (attemptE (onWorld (ask stored))) (\<lambda>r. case r of Inl _ \<Rightarrow> returnE None | Inr None \<Rightarrow> returnE None
            | Inr (Some v) \<Rightarrow> bindE (settle deps op key ta res v (tx v)) (\<lambda>v. returnE (Some v))))))
        (\<lambda>v s. verdict_state i key v s) (\<lambda>_ s. False) s" for op args ask ta res tx
      by (simp only: wp_bindE wp_live wp_emit wp_attemptE) (intro wp_onWorld c s1)
    show ?thesis
      using wp_settled_verdict [OF assms(1)] asked assms(1) Some
      by (simp only: reconcile_def Let_def k option.case split: if_split option.split)
        (simp add: wp_basic)
  qed
qed

lemma wp_recover_settled:
  assumes "settled i s"
  shows "wp_of (recover deps st a resolution) (\<lambda>r s. r = None \<and> settled i s) (\<lambda>_ s. False) s"
  using assms unresolved_none [of i "tw_conv s"] by (simp add: recover_def wp settled_def)

lemma wp_recover_opened:
  assumes "opened i key s"
  shows "wp_of (recover deps st a resolution) (\<lambda>r s. settled i s) (\<lambda>_ s. tracing i s) s"
proof -
  obtain e where u: "unresolvedIntent (tw_conv s) = Some e" and k: "e_idempotencyKey e = Some key"
    using unresolved_some assms by (fastforce simp: opened_def)
  have unknown: "settled i (s'\<lparr>tw_conv := appendEntry t (result_entry op x key) (tw_conv s')\<rparr>)"
    if "opened i key s'" for s' t op x
    using that record_ok_result [of i key "tw_conv s'" "result_entry op x key" t] by (simp add: state_defs)
  have w: "wp_of (write_back deps st) (\<lambda>_ s. settled i s) (\<lambda>_ s. tracing i s) s'" if "settled i s'" for s'
    using that by (auto simp: state_defs intro!: wp_write)
  have v: "wp_of (case verdict of
               None \<Rightarrow>
                 bindE (append deps (result_entry op unknown_result key)) (\<lambda>_.
                 bindE (escalate deps st a ErrorReason (unknown_message e)) (\<lambda>_.
                 bindE (finish_with Waiting 0 ''unreconcilable intent'') (\<lambda>r. returnE (Some r))))
             | Some (OPending wfor wake qid note) \<Rightarrow>
                 bindE (suspend deps st op wfor wake qid 0) (\<lambda>r. returnE (Some r))
             | Some _ \<Rightarrow> bindE (write_back deps st) (\<lambda>_. returnE None))
        (\<lambda>r s. settled i s) (\<lambda>_ s. tracing i s) s'"
    if "verdict_state i key verdict s'" for verdict op s'
    using that unknown
    by (auto simp: wp split: option.split outcome.split
        intro!: wp_mono [OF wp_escalate] wp_mono [OF wp_suspend] wp_mono [OF w])
  show ?thesis
    using v k
    by (simp only: recover_def wp_bindE wp_conv u option.case k coalesce_simps)
      (rule wp_mono [OF wp_reconcile [OF assms k]], simp_all only: wp_bindE)
qed

lemma wp_loadCatalogue:
  "(\<And>cat w. Q cat (s\<lparr>tw_world := w\<rparr>)) \<Longrightarrow> (\<And>e w. E e (s\<lparr>tw_world := w\<rparr>)) \<Longrightarrow> wp_of (loadCatalogue deps) Q E s"
  unfolding loadCatalogue_def by (subst wp_bindE, rule wp_onWorld) (auto simp: wp_basic)

lemma opened_world [simp]: "opened i k (s\<lparr>tw_world := w\<rparr>) = opened i k s"
  by (simp add: opened_def)

lemma wp_turn_with:
  assumes "settled i s \<or> opened i key s" and "thingId st = i"
  shows "wp_of (turn_with deps st a) (\<lambda>_ s. settled i s) (\<lambda>_ s. tracing i s) s"
proof -
  let ?s = "s\<lparr>tw_conv := (tw_conv s)\<lparr>status := Some Running, waitingFor := Some WF_None\<rparr>\<rparr>"
  have s1: "settled i ?s \<or> opened i key ?s" using assms(1) by (auto simp: settled_def opened_def)
  have t: "wp_of (case ended of Some r \<Rightarrow> returnE r | None \<Rightarrow> take_turn deps st a resolution)
      (\<lambda>_ s. settled i s) (\<lambda>_ s. tracing i s) s'" if "settled i s'" for ended resolution s'
    using that wp_take_turn [OF that assms(2)] by (simp add: wp_basic split: option.split)
  have r: "wp_of (recover deps st a resolution) (\<lambda>r s. settled i s) (\<lambda>_ s. tracing i s) s'"
    if "settled i s' \<or> opened i key s'" for resolution s'
    using that by (auto intro: wp_mono [OF wp_recover_settled] wp_mono [OF wp_recover_opened])
  have rt: "wp_of (bindE (recover deps st a resolution)
        (\<lambda>ended. case ended of Some r \<Rightarrow> returnE r | None \<Rightarrow> take_turn deps st a resolution))
      (\<lambda>_ s. settled i s) (\<lambda>_ s. tracing i s) s'" if "settled i s' \<or> opened i key s'" for resolution s'
    by (subst wp_bindE) (rule wp_mono [OF r [OF that] t])
  show ?thesis
    unfolding turn_with_def Let_def
    by (subst wp_bindE, subst wp_setConv, subst wp_bindE, rule wp_loadCatalogue)
      (use s1 in \<open>auto intro!: rt dest: tracing_of\<close>)
qed

section \<open>A whole call of \<open>advance\<close>\<close>

text \<open>The part of a trace that does not speak of what was written.\<close>

definition trace_acts :: "string \<Rightarrow> event list \<Rightarrow> bool" where
  "trace_acts i evs \<longleftrightarrow> (\<forall>before ev after. evs = before @ ev # after \<longrightarrow>
     (case ev of EvWrote c \<Rightarrow> True | _ \<Rightarrow> event_ok i before ev))"

lemma trace_acts_of_ok: "trace_ok i evs \<Longrightarrow> trace_acts i evs"
proof -
  assume t: "trace_ok i evs"
  have "case ev of EvWrote c \<Rightarrow> True | _ \<Rightarrow> event_ok i b ev" if "evs = b @ ev # a" for b ev a
  proof -
    from t that have "event_ok i b ev" unfolding trace_ok_def by blast
    then show ?thesis by (cases ev) simp_all
  qed
  then show ?thesis unfolding trace_acts_def by blast
qed

text \<open>Only records written and questions asked.\<close>

definition quiet :: "event \<Rightarrow> bool" where
  "quiet ev = (case ev of EvLoaded c \<Rightarrow> True | EvWrote c \<Rightarrow> True | EvAsk k q \<Rightarrow> True | _ \<Rightarrow> False)"

lemma trace_acts_quiet:
  assumes "list_all quiet evs"
  shows "trace_acts i evs"
proof -
  have "case ev of EvWrote c \<Rightarrow> True | _ \<Rightarrow> event_ok i b ev" if "evs = b @ ev # a" for b ev a
  proof -
    from that assms have "quiet ev" by simp
    then show ?thesis by (simp add: quiet_def split: event.splits)
  qed
  then show ?thesis unfolding trace_acts_def by blast
qed

lemma quiet_simps [simp]: "quiet (EvWrote c)" "quiet (EvAsk k q)" "quiet (EvLoaded c)"
  by (simp_all add: quiet_def)

lemma quiet_escalate:
  "list_all quiet (tw_events s) \<Longrightarrow> wp_of (escalateByKey deps st akey reason message)
     (\<lambda>_ s. list_all quiet (tw_events s)) (\<lambda>_ s. list_all quiet (tw_events s)) s"
  by (auto simp: escalateByKey_def wp Let_def intro!: wp_write wp_raise)

lemma quiet_endBecauseFull:
  "list_all quiet (tw_events s) \<Longrightarrow> wp_of (endBecauseFull deps st)
     (\<lambda>_ s. list_all quiet (tw_events s)) (\<lambda>_ s. list_all quiet (tw_events s)) s"
  by (auto simp: endBecauseFull_def wp Let_def intro!: wp_write)

lemma wp_load:
  assumes "\<And>t w. repo_get (ad_things deps) Conversation_spec ref (tw_world s) = (Inr t, w) \<Longrightarrow>
      Q (map_stored conversation_of t) (s\<lparr>tw_world := w, tw_conv := conversation_of (data t),
          tw_events := tw_events s @ [EvLoaded (conversation_of (data t))]\<rparr>)"
    and "\<And>e w. E e (s\<lparr>tw_world := w\<rparr>)"
  shows "wp_of (load deps ref) Q E s"
proof (cases "repo_get (ad_things deps) Conversation_spec ref (tw_world s)")
  case (Pair r w)
  then show ?thesis
    using assms by (cases r) (simp_all add: load_def wp_of_def onWorld_def bindE_def setConv_def emit_def Let_def io_defs)
qed

text \<open>A Turn about to start on a record in order, with the call \<open>k\<close> open if any.\<close>

definition fresh_turn :: "string \<Rightarrow> string option \<Rightarrow> 'w turn \<Rightarrow> bool" where
  "fresh_turn i k s \<longleftrightarrow> record_ok i k (tw_conv s) \<and>
     (\<exists>c. tw_events s = [EvLoaded c] \<and> intent_keys c = intent_keys (tw_conv s))"

definition acts_ok :: "string \<Rightarrow> 'w turn \<Rightarrow> bool" where
  "acts_ok i s \<longleftrightarrow> trace_acts i (tw_events s)"

lemma acts_of_quiet: "list_all quiet (tw_events s) \<Longrightarrow> acts_ok i s"
  by (simp add: acts_ok_def trace_acts_quiet)

lemma acts_of_tracing: "tracing i s \<Longrightarrow> acts_ok i s"
  by (simp add: acts_ok_def tracing_def trace_acts_of_ok)

lemma fresh_quiet: "fresh_turn i k s \<Longrightarrow> list_all quiet (tw_events s)"
  by (auto simp: fresh_turn_def)

lemma fresh_world [simp]: "fresh_turn i k (s\<lparr>tw_world := w\<rparr>) = fresh_turn i k s"
  by (simp add: fresh_turn_def)

lemma fresh_cases: "fresh_turn i k s \<Longrightarrow> settled i s \<or> (\<exists>key. opened i key s)"
proof -
  assume f: "fresh_turn i k s"
  then obtain c where "tw_events s = [EvLoaded c]" "intent_keys c = intent_keys (tw_conv s)"
    by (auto simp: fresh_turn_def)
  moreover have "trace_ok i [EvLoaded c]" using trace_ok_snoc [of i "[]" "EvLoaded c"] by simp
  ultimately show ?thesis using f by (cases k) (auto simp: fresh_turn_def settled_def opened_def)
qed

lemma acts_turn_with:
  assumes "fresh_turn i k s" and "thingId st = i"
  shows "wp_of (turn_with deps st a) (\<lambda>_ s. acts_ok i s) (\<lambda>_ s. acts_ok i s) s"
proof -
  from fresh_cases [OF assms(1)] obtain key where "settled i s \<or> opened i key s" by blast
  from wp_turn_with [OF this assms(2)] show ?thesis
    by (rule wp_mono) (auto intro: acts_of_tracing tracing_of)
qed

lemma acts_escalate:
  "list_all quiet (tw_events s) \<Longrightarrow>
     wp_of (escalateByKey deps st akey reason message) (\<lambda>_ s. acts_ok i s) (\<lambda>_ s. acts_ok i s) s"
  by (rule wp_mono [OF quiet_escalate]) (auto intro: acts_of_quiet)

lemma acts_with_assistant:
  assumes "fresh_turn i k s" and "thingId st = i"
  shows "wp_of (with_assistant deps st a) (\<lambda>_ s. acts_ok i s) (\<lambda>_ s. acts_ok i s) s"
proof -
  note q = fresh_quiet [OF assms(1)]
  let ?off = "bindE (setConv (\<lambda>c. c\<lparr>leaseUntil := Some []\<rparr>)) (\<lambda>_.
      bindE (write_back deps st) (\<lambda>_. finish_with Waiting 0 ''assistant disabled''))"
  have off: "wp_of ?off (\<lambda>_ s. acts_ok i s) (\<lambda>_ s. acts_ok i s) s"
    using q by (auto simp: wp intro!: wp_write acts_of_quiet)
  have limit: "wp_of (bindE (setConv f) (\<lambda>_. bindE (escalate deps st a Limit m) (\<lambda>_. finish_with Waiting 0 n)))
      (\<lambda>_ s. acts_ok i s) (\<lambda>_ s. acts_ok i s) s" for f m n
    using q unfolding escalate_def by (auto simp: wp intro!: wp_mono [OF acts_escalate])
  show ?thesis
    unfolding with_assistant_def Let_def
    by (simp only: wp_bindE [of conv] wp_conv split: if_split)
      (intro conjI impI off limit acts_turn_with [OF assms])
qed

lemma acts_leased:
  assumes "fresh_turn i k s" and "thingId st = i"
  shows "wp_of (leased deps st) (\<lambda>_ s. acts_ok i s) (\<lambda>_ s. acts_ok i s) s"
proof -
  note q = fresh_quiet [OF assms(1)]
  have full: "wp_of (bindE (endBecauseFull deps st) (\<lambda>_. returnE x)) (\<lambda>_ s. acts_ok i s) (\<lambda>_ s. acts_ok i s) s" for x
    by (subst wp_bindE) (rule wp_mono [OF quiet_endBecauseFull [OF q]], auto simp: wp_basic intro: acts_of_quiet)
  have with_a: "wp_of (case a of
         None \<Rightarrow> bindE (escalateByKey deps st akey ErrorReason m) (\<lambda>_. finish_with Waiting 0 n)
       | Some a \<Rightarrow> with_assistant deps st a) (\<lambda>_ s. acts_ok i s) (\<lambda>_ s. acts_ok i s) s'"
    if "fresh_turn i k s'" for a akey m n s'
  proof (cases a)
    case None
    then show ?thesis
      by (simp only: option.case wp_bindE)
        (rule wp_mono [OF acts_escalate [OF fresh_quiet [OF that]]], simp_all add: wp_finish)
  next
    case (Some b)
    then show ?thesis using acts_with_assistant [OF that assms(2)] by simp
  qed
  have la: "wp_of (loadAssistant deps key) (\<lambda>a s. fresh_turn i k s) (\<lambda>_ s. acts_ok i s) s" for key
    using assms(1) q by (auto simp: loadAssistant_def wp intro!: wp_onWorld acts_of_quiet)
  have search: "wp_of (bindE (loadAssistant deps key) (\<lambda>a. case a of
         None \<Rightarrow> bindE (escalateByKey deps st akey ErrorReason m) (\<lambda>_. finish_with Waiting 0 n)
       | Some a \<Rightarrow> with_assistant deps st a)) (\<lambda>_ s. acts_ok i s) (\<lambda>_ s. acts_ok i s) s" for key akey m n
    by (subst wp_bindE) (rule wp_mono [OF la with_a])
  show ?thesis
    unfolding leased_def
    by (simp only: wp_bindE [of conv] wp_conv split: if_split) (intro conjI impI full search)
qed

lemma advance_acts:
  assumes "tw_events s = []"
    and "\<And>t w. repo_get (ad_things deps) Conversation_spec ref (tw_world s) = (Inr t, w) \<Longrightarrow>
      thingId t = i \<and> record_ok i k (conversation_of (data t))"
  shows "trace_acts i (tw_events (snd (advance deps ref s)))"
proof -
  have claim: "wp_of (claimLease deps) (\<lambda>_ s. fresh_turn i k s) (\<lambda>_ s. False) s'" if "fresh_turn i k s'" for s'
    using that by (auto simp: claimLease_def wp fresh_turn_def split: option.split)
  have rest: "wp_of (bindE conv (\<lambda>c.
       if status c = Some Done \<or> status c = Some Failed then
         returnE \<lparr>ar_status = status c, ar_turnsRun = 0, ar_note = n\<rparr>
       else bindE (claimLease deps) (\<lambda>claimed.
           if \<not> claimed then finish_with Running 0 m else leased deps st)))
      (\<lambda>_ s. acts_ok i s) (\<lambda>_ s. acts_ok i s) s'" if "fresh_turn i k s'" "thingId st = i" for s' st n m
  proof -
    have c: "wp_of (if \<not> claimed then finish_with Running 0 m else leased deps st)
        (\<lambda>_ s. acts_ok i s) (\<lambda>_ s. acts_ok i s) s''" if "fresh_turn i k s''" for claimed s''
      using acts_leased [OF that \<open>thingId st = i\<close>] acts_of_quiet [OF fresh_quiet [OF that]]
      by (simp add: wp_finish)
    have d: "acts_ok i s'" using that(1) by (intro acts_of_quiet fresh_quiet)
    show ?thesis
      by (simp only: wp_bindE wp_conv split: if_split)
        (intro conjI impI, simp add: wp_basic d, rule wp_mono [OF claim [OF that(1)] c], simp_all)
  qed
  have "wp_of (advance deps ref) (\<lambda>_ s. acts_ok i s) (\<lambda>_ s. acts_ok i s) s"
  proof (unfold advance_def, subst wp_bindE, rule wp_load)
    fix t :: "props stored" and w
    let ?s = "s\<lparr>tw_world := w, tw_conv := conversation_of (data t),
        tw_events := tw_events s @ [EvLoaded (conversation_of (data t))]\<rparr>"
    assume "repo_get (ad_things deps) Conversation_spec ref (tw_world s) = (Inr t, w)"
    from assms(2) [OF this] assms(1)
    have "fresh_turn i k ?s" "thingId (map_stored conversation_of t) = i" by (simp_all add: fresh_turn_def)
    then show "wp_of (bindE conv (\<lambda>c.
       if status c = Some Done \<or> status c = Some Failed then
         returnE \<lparr>ar_status = status c, ar_turnsRun = 0, ar_note = Some ''already finished''\<rparr>
       else bindE (claimLease deps) (\<lambda>claimed.
           if \<not> claimed then finish_with Running 0 ''leased elsewhere''
           else leased deps (map_stored conversation_of t))))
      (\<lambda>_ s. acts_ok i s) (\<lambda>_ s. acts_ok i s) ?s"
      by (rule rest)
  next
    fix e w
    show "acts_ok i (s\<lparr>tw_world := w\<rparr>)" using assms(1) by (simp add: acts_of_quiet)
  qed
  then show ?thesis by (simp add: wp_final acts_ok_def [symmetric])
qed

end
