(* ===== verification/LoopEffects.thy ===== *)
theory LoopEffects
  imports LoopFacts
begin

text \<open>
  How much a call of \<open>advance\<close> may do to the world, and what it leaves behind. A budget bounds how
  often an event of some kind is emitted, and composes over the steps of the loop; what a call leaves
  is that the record last written is the one the result speaks of, with its lease released.
\<close>

section \<open>Budgets of events\<close>

definition within :: "(event \<Rightarrow> bool) \<Rightarrow> nat \<Rightarrow> ('w turn, 'a) io \<Rightarrow> bool" where
  "within P n m \<longleftrightarrow> (\<forall>s. \<exists>evs. tw_events (snd (m s)) = tw_events s @ evs \<and> length (filter P evs) \<le> n)"

named_theorems budget \<open>budgets of the steps of the loop\<close>

lemma withinI:
  "(\<And>s. \<exists>evs. tw_events (snd (m s)) = tw_events s @ evs \<and> length (filter P evs) \<le> n) \<Longrightarrow> within P n m"
  by (simp add: within_def)

lemma within_silent: "(\<And>s. tw_events (snd (m s)) = tw_events s) \<Longrightarrow> within P n m"
  by (auto simp: within_def)

lemma within_more: "within P a m \<Longrightarrow> a \<le> b \<Longrightarrow> within P b m"
  unfolding within_def by (meson order_trans)

lemma within_bind:
  assumes "within P a m" and "\<And>x. within P b (k x)"
  shows "within P (a + b) (bindE m k)"
proof (rule withinI)
  fix s
  obtain evs where e: "tw_events (snd (m s)) = tw_events s @ evs" "length (filter P evs) \<le> a"
    using assms(1) unfolding within_def by blast
  show "\<exists>evs. tw_events (snd (bindE m k s)) = tw_events s @ evs \<and> length (filter P evs) \<le> a + b"
  proof (cases "m s")
    case (Pair r s')
    show ?thesis
    proof (cases r)
      case (Inl err)
      with Pair e show ?thesis by (auto simp: bindE_def intro!: exI [of _ evs])
    next
      case (Inr x)
      obtain evs' where "tw_events (snd (k x s')) = tw_events s' @ evs'" "length (filter P evs') \<le> b"
        using assms(2) unfolding within_def by blast
      with Pair Inr e show ?thesis by (auto simp: bindE_def intro!: exI [of _ "evs @ evs'"])
    qed
  qed
qed

lemma within_bind_free [budget]:
  "within P 0 m \<Longrightarrow> (\<And>x. within P n (k x)) \<Longrightarrow> within P n (bindE m k)"
  using within_bind [of P 0 m n k] by simp

lemma within_bind_last: "within P n m \<Longrightarrow> (\<And>x. within P 0 (k x)) \<Longrightarrow> within P n (bindE m k)"
  using within_bind [of P n m 0 k] by simp

lemma within_attempt [budget]: "within P n m \<Longrightarrow> within P n (attemptE m)"
  by (auto simp: within_def attemptE_def split: prod.split) (metis snd_conv)

lemma within_basic [budget]:
  "within P n (returnE x)" "within P n (throwE e)" "within P n conv" "within P n (setConv f)"
  "within P n (now deps)" "within P n (live st)" "within P n (append deps en)"
  by (rule within_silent; simp add: io_defs conv_def setConv_def now_def live_def append_def)+

lemma within_onWorld [budget]: "within P n (onWorld m)"
  by (rule within_silent) (simp add: onWorld_def split: prod.split)

lemma within_emit [budget]: "\<not> P ev \<Longrightarrow> within P n (emit ev)"
  by (rule withinI) (auto simp: emit_def io_defs)

lemma within_emit_one [budget]: "within P (Suc n) (emit ev)"
  by (rule withinI) (auto simp: emit_def io_defs)

lemma within_if [budget]: "(b \<Longrightarrow> within P n m) \<Longrightarrow> (\<not> b \<Longrightarrow> within P n m') \<Longrightarrow> within P n (if b then m else m')"
  by simp

lemma within_option [budget]:
  "(x = None \<Longrightarrow> within P n m) \<Longrightarrow> (\<And>y. x = Some y \<Longrightarrow> within P n (k y)) \<Longrightarrow>
     within P n (case x of None \<Rightarrow> m | Some y \<Rightarrow> k y)"
  by (simp split: option.split)

lemma within_sum [budget]:
  "(\<And>e. x = Inl e \<Longrightarrow> within P n (h e)) \<Longrightarrow> (\<And>y. x = Inr y \<Longrightarrow> within P n (k y)) \<Longrightarrow>
     within P n (case x of Inl e \<Rightarrow> h e | Inr y \<Rightarrow> k y)"
  by (simp split: sum.split)

lemma within_pair [budget]:
  "(\<And>a b. x = (a, b) \<Longrightarrow> within P n (k a b)) \<Longrightarrow> within P n (case x of (a, b) \<Rightarrow> k a b)"
  by (simp split: prod.split)

lemma within_outcome [budget]:
  "(\<And>v. within P n (f v)) \<Longrightarrow> (\<And>m. within P n (g m)) \<Longrightarrow> (\<And>w x y z. within P n (h w x y z)) \<Longrightarrow>
     within P n (case oc of OValue v \<Rightarrow> f v | OError m \<Rightarrow> g m | OPending w x y z \<Rightarrow> h w x y z)"
  by (simp split: outcome.split)

lemma within_approval [budget]:
  "within P n f \<Longrightarrow> (\<And>q. within P n (g q)) \<Longrightarrow> (\<And>q. within P n (h q)) \<Longrightarrow>
   (\<And>q r. within P n (i q r)) \<Longrightarrow> (\<And>q. within P n (j q)) \<Longrightarrow>
     within P n (case a of AMissing \<Rightarrow> f | AWaiting q \<Rightarrow> g q | AConsumed q \<Rightarrow> h q
        | ADeclined q r \<Rightarrow> i q r | AValid q \<Rightarrow> j q)"
  by (simp split: approval_state.split)

text \<open>Kinds of events: a model call, an execution.\<close>

definition is_llm :: "event \<Rightarrow> bool" where
  "is_llm ev = (case ev of EvLlm ms \<Rightarrow> True | _ \<Rightarrow> False)"

definition is_execution :: "event \<Rightarrow> bool" where
  "is_execution ev = (case ev of EvExecute op args key \<Rightarrow> True | _ \<Rightarrow> False)"

definition acts :: "(event \<Rightarrow> bool) \<Rightarrow> bool" where
  "acts P \<longleftrightarrow> (\<forall>ev. P ev \<longrightarrow> is_llm ev \<or> is_execution ev)"

lemma acts_simps [simp]: "acts is_llm" "acts is_execution"
  by (simp_all add: acts_def)

lemma acts_other [simp]:
  assumes "acts P"
  shows "\<not> P (EvWrote c)" "\<not> P (EvLoaded c)" "\<not> P (EvAsk k q)" "\<not> P (EvSleep n)" "\<not> P (EvReconcile op args key)"
  using assms by (auto simp: acts_def is_llm_def is_execution_def)

lemma kind_simps [simp]: "\<not> is_llm (EvExecute op args key)" "\<not> is_execution (EvLlm ms)"
  "is_execution (EvExecute op args key)" "is_llm (EvLlm ms)"
  by (simp_all add: is_llm_def is_execution_def)

lemma budget_writes [budget]:
  "acts P \<Longrightarrow> within P n (write_back deps st)" "acts P \<Longrightarrow> within P n (raise deps st akey kind prompt key)"
  by (auto simp: write_back_def raise_def intro!: budget)

lemma budget_guards [budget]:
  "acts P \<Longrightarrow> within P n (suspend deps st op wfor wake qid t)"
  "acts P \<Longrightarrow> within P n (escalateByKey deps st akey reason m)"
  "acts P \<Longrightarrow> within P n (escalate deps st a reason m)"
  "acts P \<Longrightarrow> within P n (endBecauseFull deps st)"
  "within P n (loadAssistant deps akey)" "within P n (loadCatalogue deps)" "within P n (loadQuestion deps q)"
  "within P n (finish_with d t note)" "within P n (claimLease deps)"
  "acts P \<Longrightarrow> within P n (load deps ref)"
  by (auto simp: suspend_def escalate_def escalateByKey_def endBecauseFull_def loadAssistant_def loadCatalogue_def
      loadQuestion_def finish_with_def claimLease_def load_def Let_def intro!: budget)

lemma budget_raiseApproval [budget]: "acts P \<Longrightarrow> within P n (raiseApproval deps st a g args h)"
  by (auto simp: raiseApproval_def Let_def intro!: budget)

lemma budget_gate [budget]: "acts P \<Longrightarrow> within P n (gateOnApproval deps st a g args h)"
  by (auto simp: gateOnApproval_def findApproval_def Let_def intro!: budget)

lemma budget_settle [budget]: "within P n (settle deps op key ta g v t)"
  by (auto simp: settle_def intro!: budget)

lemma budget_reconcile [budget]: "acts P \<Longrightarrow> within P n (reconcile deps st a intent resolution)"
  by (auto simp: reconcile_def Let_def intro!: budget)

lemma budget_recover [budget]: "acts P \<Longrightarrow> within P n (recover deps st a resolution)"
  by (auto simp: recover_def intro!: budget)

lemma budget_run_resolved [budget]:
  "acts P \<Longrightarrow> (\<And>op args key. \<not> P (EvExecute op args key)) \<Longrightarrow> within P n (run_resolved deps st a g op args key cost)"
  by (auto simp: run_resolved_def execute_call_def record_outcome_def Let_def intro!: budget)

lemma budget_run_call [budget]:
  "acts P \<Longrightarrow> (\<And>op args key. \<not> P (EvExecute op args key)) \<Longrightarrow> within P n (run_call deps st a resolution response call c)"
  by (auto simp: run_call_def record_intent_def Let_def intro!: budget)

lemma budget_run_calls [budget]:
  "acts P \<Longrightarrow> (\<And>op args key. \<not> P (EvExecute op args key)) \<Longrightarrow> within P n (run_calls deps st a resolution response calls c)"
  by (induction calls arbitrary: c) (auto intro!: budget)

text \<open>An Operation is executed at most once for each call, and a call of the model is tried so often.\<close>

lemma within_emit_1: "within P 1 (emit ev)"
  using within_emit_one [of P 0] by simp

lemma executions_run_resolved: "within is_execution 1 (run_resolved deps st a g op args key cost)"
proof -
  have x: "within is_execution 1 (execute_call deps st a g args key)"
    unfolding execute_call_def
    by (rule within_bind_free [OF within_basic(6)], rule within_bind_last [OF within_emit_1]) (auto intro!: budget)
  have o: "within is_execution 0 (record_outcome deps st op key h refused cost outcome)" for h refused outcome
    by (auto simp: record_outcome_def intro!: budget)
  have r: "within is_execution 1 (bindE (case refusal of Some outcome \<Rightarrow> returnE outcome
      | None \<Rightarrow> execute_call deps st a g args key) (record_outcome deps st op key h (refusal \<noteq> None) cost))"
    for refusal h
    by (rule within_bind_last [OF _ o]) (use x in \<open>auto intro: budget split: option.split\<close>)
  show ?thesis
    unfolding run_resolved_def Let_def by (rule within_bind_free [OF _ r]) (auto intro!: budget)
qed

lemma executions_run_calls: "within is_execution (length calls) (run_calls deps st a resolution response calls c)"
proof (induction calls arbitrary: c)
  case Nil
  then show ?case by (auto intro!: budget)
next
  case (Cons call calls)
  have g: "within is_execution 1 (bindE (run_resolved deps st a g op args key cost) (\<lambda>r. returnE (r, cost)))"
    for g op args key and cost :: nat
    by (rule within_bind_last [OF executions_run_resolved]) (rule budget)
  have y: "within is_execution 1 (case resolve_call resolution (tc_name call) of
       None \<Rightarrow> bindE (append deps en) (\<lambda>_. returnE (None, cost))
     | Some g \<Rightarrow> bindE (run_resolved deps st a g op args key cost) (\<lambda>r. returnE (r, cost)))"
    for en op args key and cost :: nat
    by (rule within_option [OF _ g]) (auto intro!: budget)
  have i: "within is_execution 0 (record_intent deps st response op args c)" for op args c
    by (auto simp: record_intent_def Let_def intro!: budget)
  have x: "within is_execution 1 (run_call deps st a resolution response call c)" for c
    unfolding run_call_def Let_def
    by (rule within_bind_free [OF i], rule within_pair) (rule y)
  have "within is_execution (1 + length calls) (run_calls deps st a resolution response (call # calls) c)" for c
    unfolding run_calls.simps by (rule within_bind [OF x]) (auto intro!: budget Cons.IH)
  then show ?case by simp
qed

lemma attempts_llm: "within is_llm n (llm_attempts deps rq n attempt e)"
proof (induction deps rq n attempt e rule: llm_attempts.induct)
  case (1 deps rq attempt e)
  then show ?case by (auto intro!: budget)
next
  case (2 deps rq n attempt e)
  have rest: "within is_llm n (bindE (attemptE (onWorld (ad_llm deps rq))) (\<lambda>r.
       case r of
         Inr response \<Rightarrow> returnE response
       | Inl (TransientLlmError m) \<Rightarrow>
           bindE (append deps (transient_entry attempt (TransientLlmError m))) (\<lambda>_.
           bindE (if 0 < n then
                    (let ms = 250 * 2 ^ (attempt - 1) in
                     bindE (emit (EvSleep ms)) (\<lambda>_. onWorld (\<lambda>w. (Inr (), ad_sleep deps ms w))))
                  else returnE ()) (\<lambda>_.
             llm_attempts deps rq n (attempt + 1) (TransientLlmError m)))
       | Inl e \<Rightarrow> throwE e))"
    using "2.IH" by (auto simp: Let_def intro!: budget split: js_error.split)
  have one: "within is_llm 1 (emit (EvLlm (rq_messages rq)))" by (simp add: budget)
  show ?case
    unfolding llm_attempts.simps(2) by (rule within_bind [OF one rest, unfolded plus_1_eq_Suc])
qed

lemma attempts_take_turn: "within is_llm (llmMaxAttempts deps) (take_turn deps st a resolution)"
proof -
  have h: "within is_llm 0 (heed_answer deps st a resolution r)" for r
    by (auto simp: heed_answer_def act_on_response_def conclude_def intro!: budget)
  have c: "within is_llm (llmMaxAttempts deps) (callLlmWithRetries deps (data a) resolution)"
    by (auto simp: callLlmWithRetries_def intro!: budget attempts_llm)
  show ?thesis
    unfolding take_turn_def
    by (intro within_bind_free budget within_bind_last within_attempt c h)
qed

lemma attempts_advance: "within is_llm (llmMaxAttempts deps) (advance deps ref)"
  by (auto simp: advance_def leased_def with_assistant_def turn_with_def Let_def
      intro!: budget attempts_take_turn)

section \<open>What a call leaves behind\<close>

definition turns :: "conversation \<Rightarrow> int" where
  "turns c = coalesce (turnCount c) 0"

lemma turns_frame [simp]:
  "turns (c\<lparr>status := a\<rparr>) = turns c" "turns (c\<lparr>waitingFor := b\<rparr>) = turns c"
  "turns (c\<lparr>finishReason := d\<rparr>) = turns c" "turns (c\<lparr>maxTurns := e\<rparr>) = turns c"
  "turns (c\<lparr>wakeAt := f\<rparr>) = turns c" "turns (c\<lparr>leaseUntil := g\<rparr>) = turns c"
  "turns (c\<lparr>currentQuestionId := h\<rparr>) = turns c" "turns (c\<lparr>escalationCount := i\<rparr>) = turns c"
  "turns (c\<lparr>c_result := j\<rparr>) = turns c" "turns (c\<lparr>c_lastError := k\<rparr>) = turns c"
  "turns (appendEntry t en c) = turns c" "turns (modify_entry n m c) = turns c"
  "turns (suspended wfor wake qid c) = turns c" "turns (c\<lparr>turnCount := Some l\<rparr>) = l"
  by (simp_all add: turns_def suspended_def)

text \<open>
  The Conversation as it stands is the one last written, its lease is released, and \<open>n\<close> is its count
  of Turns.
\<close>

definition written :: "int \<Rightarrow> 'w turn \<Rightarrow> bool" where
  "written n s \<longleftrightarrow> last_written (tw_events s) = Some (tw_conv s) \<and> leaseUntil (tw_conv s) = Some []
     \<and> turns (tw_conv s) = n"

definition counted :: "int \<Rightarrow> 'w turn \<Rightarrow> bool" where
  "counted n s \<longleftrightarrow> turns (tw_conv s) = n"

text \<open>The result speaks of the Conversation written, and reports the Turns added to \<open>n\<close>.\<close>

definition closed :: "int \<Rightarrow> advance_result \<Rightarrow> 'w turn \<Rightarrow> bool" where
  "closed n r s \<longleftrightarrow> written (n + ar_turnsRun r) s \<and> (\<exists>st. status (tw_conv s) = Some st \<and> ar_status r = Some st)"

lemmas left_defs = written_def counted_def

lemma counted_simps [simp]:
  "counted n (s\<lparr>tw_world := w\<rparr>) = counted n s" "counted n (s\<lparr>tw_events := evs\<rparr>) = counted n s"
  "counted n (s\<lparr>tw_conv := c\<rparr>) \<longleftrightarrow> turns c = n"
  by (simp_all add: counted_def)

lemma left_write:
  assumes "leaseUntil (tw_conv s) = Some []" and "counted n s"
    and "\<And>w. written n (s\<lparr>tw_world := w, tw_events := tw_events s @ [EvWrote (tw_conv s)]\<rparr>) \<Longrightarrow>
      Q () (s\<lparr>tw_world := w, tw_events := tw_events s @ [EvWrote (tw_conv s)]\<rparr>)"
  shows "wp_of (write_back deps st) Q (\<lambda>_ _. True) s"
  using assms by (intro wp_write assms(3)) (simp_all add: left_defs)

lemma left_suspend:
  "counted (n + t) s \<Longrightarrow> wp_of (suspend deps st op wfor wake qid t) (closed n) (\<lambda>_ _. True) s"
  by (auto simp: suspend_def wp closed_def left_defs suspended_def intro!: wp_write)

lemma left_escalate:
  "counted n s \<Longrightarrow> wp_of (escalateByKey deps st akey reason m)
     (\<lambda>_ s. written n s \<and> status (tw_conv s) \<noteq> None) (\<lambda>_ _. True) s"
  by (auto simp: escalateByKey_def wp Let_def left_defs intro!: wp_write wp_raise)

lemma left_full:
  "counted n s \<Longrightarrow> wp_of (endBecauseFull deps st) (\<lambda>_ s. written n s \<and> status (tw_conv s) = Some Failed) (\<lambda>_ _. True) s"
  by (auto simp: endBecauseFull_def wp Let_def left_defs intro!: wp_write)

lemma closed_result [simp]:
  "closed n (result_of (status (tw_conv s)) d t nt) s \<longleftrightarrow> written (n + t) s \<and> status (tw_conv s) \<noteq> None"
  by (auto simp: closed_def result_of_def)

lemma closed_some [simp]:
  "status (tw_conv s) = Some x \<Longrightarrow> closed n (result_of (Some x) d t nt) s \<longleftrightarrow> written (n + t) s"
  using closed_result [of n s d t nt] by simp

lemma counted_raise:
  "counted n s \<Longrightarrow> wp_of (raiseApproval deps st a g args h) (\<lambda>_ s. counted n s) (\<lambda>_ _. True) s"
  by (auto simp: raiseApproval_def wp Let_def left_defs split: sum.split intro!: wp_raise)

lemma counted_gate:
  "counted n s \<Longrightarrow> wp_of (gateOnApproval deps st a g args h) (\<lambda>_ s. counted n s) (\<lambda>_ _. True) s"
  by (auto simp: gateOnApproval_def wp split: approval_state.split
      intro!: wp_findApproval wp_mono [OF counted_raise])

lemma counted_execute:
  "counted n s \<Longrightarrow> wp_of (execute_call deps st a g args key) (\<lambda>_ s. counted n s) (\<lambda>_ _. True) s"
  by (auto simp: execute_call_def wp intro!: wp_onWorld)

text \<open>A suspended Turn is closed; otherwise the loop goes on.\<close>

definition ended_or_counted :: "int \<Rightarrow> advance_result option \<Rightarrow> 'w turn \<Rightarrow> bool" where
  "ended_or_counted n r s = (case r of None \<Rightarrow> counted (n + 1) s | Some x \<Rightarrow> closed n x s)"

lemma ended_simps [simp]:
  "ended_or_counted n None s = counted (n + 1) s" "ended_or_counted n (Some x) s = closed n x s"
  by (simp_all add: ended_or_counted_def)

lemma left_outcome:
  "counted (n + 1) s \<Longrightarrow> wp_of (record_outcome deps st op key h refused cost outcome)
     (ended_or_counted n) (\<lambda>_ _. True) s"
  by (auto simp: record_outcome_def wp left_defs split: outcome.split intro!: wp_mono [OF left_suspend [where n = n]])

lemma left_resolved:
  assumes "counted (n + 1) s"
  shows "wp_of (run_resolved deps st a g op args key cost) (ended_or_counted n) (\<lambda>_ _. True) s"
proof -
  have x: "wp_of (bindE (case refusal of Some outcome \<Rightarrow> returnE outcome | None \<Rightarrow> execute_call deps st a g args key)
        (record_outcome deps st op key h (refusal \<noteq> None) cost)) (ended_or_counted n) (\<lambda>_ _. True) s'"
    if "counted (n + 1) s'" for refusal h s'
    using that left_outcome by (auto simp: wp split: option.split intro!: wp_mono [OF counted_execute])
  have g: "wp_of (if b then gateOnApproval deps st a g args h else returnE None) (\<lambda>_ s. counted (n + 1) s) (\<lambda>_ _. True) s" for b h
    using assms by (auto simp: wp intro: counted_gate)
  show ?thesis
    unfolding run_resolved_def Let_def by (subst wp_bindE) (rule wp_mono [OF g x], simp_all)
qed

lemma left_run_call:
  assumes "counted (n + 1) s"
  shows "wp_of (run_call deps st a resolution response call c) (\<lambda>(r, _). ended_or_counted n r) (\<lambda>_ _. True) s"
proof -
  have i: "wp_of (record_intent deps st response op args c) (\<lambda>_ s. counted (n + 1) s) (\<lambda>_ _. True) s" for op args
    using assms by (auto simp: record_intent_def wp Let_def counted_def intro!: wp_write)
  have "wp_of (case resolve_call resolution (tc_name call) of
       None \<Rightarrow> bindE (append deps en) (\<lambda>_. returnE (None, cost))
     | Some g \<Rightarrow> bindE (run_resolved deps st a g op args key cost) (\<lambda>r. returnE (r, cost)))
     (\<lambda>(r, _). ended_or_counted n r) (\<lambda>_ _. True) s'" if "counted (n + 1) s'" for en op args key cost s'
    using that by (auto simp: wp counted_def split: option.split intro!: wp_mono [OF left_resolved])
  then show ?thesis
    unfolding run_call_def Let_def
    by (subst wp_bindE) (rule wp_mono [OF i], auto split: prod.split)
qed

lemma left_run_calls:
  "counted (n + 1) s \<Longrightarrow> wp_of (run_calls deps st a resolution response calls c) (ended_or_counted n) (\<lambda>_ _. True) s"
proof (induction calls arbitrary: c s)
  case (Cons call calls)
  have "wp_of (case r of Some result \<Rightarrow> returnE (Some result)
      | None \<Rightarrow> run_calls deps st a resolution response calls (Some cost)) (ended_or_counted n) (\<lambda>_ _. True) s'"
    if "ended_or_counted n r s'" for r cost s'
    using that Cons.IH by (cases r) (auto simp: wp)
  then show ?case
    by (auto simp: wp intro!: wp_mono [OF left_run_call [OF Cons.prems]])
qed (simp add: wp)

lemma counted_attempts:
  "counted n s \<Longrightarrow> wp_of (llm_attempts deps rq m attempt e) (\<lambda>_ s. counted n s) (\<lambda>_ s. counted n s) s"
proof (induction deps rq m attempt e arbitrary: s rule: llm_attempts.induct)
  case (2 deps rq m attempt e)
  have "wp_of (llm_attempts deps rq m (Suc attempt) (TransientLlmError x)) (\<lambda>_ s. counted n s) (\<lambda>_ s. counted n s) s'"
    if "counted n s'" for s' x using "2.IH" that by simp
  then show ?case
    using "2.prems" by (auto simp: wp Let_def counted_def split: sum.split js_error.split intro!: wp_onWorld)
qed (simp add: wp)

lemma left_heed:
  assumes "counted n s"
  shows "wp_of (heed_answer deps st a resolution r) (closed n) (\<lambda>_ _. True) s"
proof -
  have c: "wp_of (conclude deps st response) (closed n) (\<lambda>_ _. True) s'" if "counted (n + 1) s'" for s' response
    using that by (auto simp: conclude_def wp closed_def left_defs intro!: wp_write)
  have go: "wp_of (case r of Some result \<Rightarrow> returnE result
      | None \<Rightarrow> bindE (setConv (\<lambda>c. c\<lparr>leaseUntil := Some [], status := Some Running\<rparr>)) (\<lambda>_.
               bindE (write_back deps st) (\<lambda>_.
                 returnE \<lparr>ar_status = Some Running, ar_turnsRun = 1, ar_note = None\<rparr>)))
      (closed n) (\<lambda>_ _. True) s'" if "ended_or_counted n r s'" for r s'
    using that by (cases r) (auto simp: wp closed_def left_defs intro!: wp_write)
  have main: "wp_of (if r_finishReason response = LError
      then bindE (escalate deps st a ErrorReason (llm_error_message response)) (\<lambda>_. finish_with Waiting 1 nt)
      else if r_finishReason response \<noteq> LWantsTools then conclude deps st response
      else bindE (run_calls deps st a resolution response (r_toolCalls response) None) (\<lambda>r.
        case r of Some result \<Rightarrow> returnE result
        | None \<Rightarrow> bindE (setConv (\<lambda>c. c\<lparr>leaseUntil := Some [], status := Some Running\<rparr>)) (\<lambda>_.
            bindE (write_back deps st) (\<lambda>_.
              returnE \<lparr>ar_status = Some Running, ar_turnsRun = 1, ar_note = None\<rparr>))))
      (closed n) (\<lambda>_ _. True) s'" if k: "counted (n + 1) s'" for s' response nt
  proof -
    have "wp_of (bindE (run_calls deps st a resolution response (r_toolCalls response) None) (\<lambda>r.
        case r of Some result \<Rightarrow> returnE result
        | None \<Rightarrow> bindE (setConv (\<lambda>c. c\<lparr>leaseUntil := Some [], status := Some Running\<rparr>)) (\<lambda>_.
            bindE (write_back deps st) (\<lambda>_.
              returnE \<lparr>ar_status = Some Running, ar_turnsRun = 1, ar_note = None\<rparr>))))
        (closed n) (\<lambda>_ _. True) s'"
      by (subst wp_bindE) (rule wp_mono [OF left_run_calls [OF k] go], simp_all)
    moreover have "wp_of (bindE (escalate deps st a ErrorReason (llm_error_message response))
        (\<lambda>_. finish_with Waiting 1 nt)) (closed n) (\<lambda>_ _. True) s'"
      unfolding escalate_def by (subst wp_bindE, rule wp_mono [OF left_escalate [OF k]]) (simp_all add: wp_finish)
    ultimately show ?thesis using c [OF k] by simp
  qed
  have "wp_of (act_on_response deps st a resolution response) (closed n) (\<lambda>_ _. True) s" for response
    unfolding act_on_response_def
    by (subst wp_bindE, subst wp_setConv, rule main) (use assms in \<open>simp add: counted_def turns_def\<close>)
  then show ?thesis
    using assms
    by (auto simp: heed_answer_def wp escalate_def split: sum.split intro!: wp_mono [OF left_escalate])
qed

lemma left_take_turn:
  assumes "counted n s"
  shows "wp_of (take_turn deps st a resolution) (closed n) (\<lambda>_ _. True) s"
proof -
  have "wp_of (callLlmWithRetries deps b resolution) (\<lambda>_ s. counted n s) (\<lambda>_ s. counted n s) s'" if "counted n s'" for b s'
    using that by (auto simp: callLlmWithRetries_def wp intro!: counted_attempts)
  then have "wp_of (bindE (attemptE (callLlmWithRetries deps (data a) resolution)) (heed_answer deps st a resolution))
      (closed n) (\<lambda>_ _. True) s'" if "counted n s'" for s'
    using that left_heed by (simp only: wp_bindE wp_attemptE) (rule wp_mono)
  then show ?thesis
    using assms by (simp only: take_turn_def wp_bindE [of conv] wp_conv wp_bindE [of "onWorld m" for m])
      (rule wp_onWorld, simp_all)
qed

lemma counted_settle:
  "counted n s \<Longrightarrow> wp_of (settle deps op key ta g v t) (\<lambda>_ s. counted n s) (\<lambda>_ _. False) s"
  by (auto simp: settle_def wp counted_def split: option.split outcome.split)

lemma counted_reconcile:
  assumes "counted n s"
  shows "wp_of (reconcile deps st a intent resolution) (\<lambda>_ s. counted n s) (\<lambda>_ _. False) s"
proof -
  have "wp_of (bindE (settle deps op key ta g v t) (\<lambda>v. returnE (Some v))) (\<lambda>_ s. counted n s) (\<lambda>_ _. False) s'"
    if "counted n s'" for op key ta g v t s'
    by (subst wp_bindE) (rule wp_mono [OF counted_settle [OF that]], simp_all add: wp_basic)
  then show ?thesis
    using assms
    by (auto simp: reconcile_def Let_def wp_basic wp_live wp_emit wp_attemptE wp_bindE [of "live st"]
        wp_bindE [of "emit e" for e] wp_bindE [of "attemptE m" for m] split: option.split sum.split intro!: wp_onWorld)
qed

lemma left_recover:
  assumes "counted n s"
  shows "wp_of (recover deps st a resolution)
    (\<lambda>r s. case r of None \<Rightarrow> counted n s | Some x \<Rightarrow> closed n x s) (\<lambda>_ _. True) s"
proof -
  let ?Q = "\<lambda>r s. case r of None \<Rightarrow> counted n s | Some x \<Rightarrow> closed n x s"
  have w: "wp_of (write_back deps st) (\<lambda>_ s. counted n s) (\<lambda>_ _. True) s'" if "counted n s'" for s'
    using that by (auto intro!: wp_write)
  have u: "wp_of (bindE (append deps en) (\<lambda>_. bindE (escalate deps st a ErrorReason m) (\<lambda>_.
      bindE (finish_with Waiting 0 nt) (\<lambda>r. returnE (Some r))))) ?Q (\<lambda>_ _. True) s'"
    if "counted n s'" for en m nt s'
    using that by (auto simp: wp escalate_def counted_def intro!: wp_mono [OF left_escalate [where n = n]])
  have "wp_of (case verdict of
               None \<Rightarrow> bindE (append deps en) (\<lambda>_. bindE (escalate deps st a ErrorReason m) (\<lambda>_.
                 bindE (finish_with Waiting 0 nt) (\<lambda>r. returnE (Some r))))
             | Some (OPending wfor wake qid nt) \<Rightarrow>
                 bindE (suspend deps st op wfor wake qid 0) (\<lambda>r. returnE (Some r))
             | Some _ \<Rightarrow> bindE (write_back deps st) (\<lambda>_. returnE None)) ?Q (\<lambda>_ _. True) s'"
    if "counted n s'" for verdict en m nt op s'
  proof (cases verdict)
    case None
    then show ?thesis using u [OF that] by simp
  next
    case (Some v)
    have r: "wp_of (bindE (write_back deps st) (\<lambda>_. returnE None)) ?Q (\<lambda>_ _. True) s'"
      by (subst wp_bindE) (rule wp_mono [OF w [OF that]], simp_all add: wp_basic)
    have p: "wp_of (bindE (suspend deps st op wfor wake qid 0) (\<lambda>r. returnE (Some r))) ?Q (\<lambda>_ _. True) s'"
      for wfor wake qid
      by (subst wp_bindE, rule wp_mono [OF left_suspend [where n = n and t = 0]])
        (use that in \<open>simp_all add: wp_basic\<close>)
    show ?thesis using Some r p by (simp split: outcome.split)
  qed
  note v = this
  show ?thesis
  proof (cases "unresolvedIntent (tw_conv s)")
    case None
    then show ?thesis using assms by (simp add: recover_def wp_bindE [of conv] wp_conv wp_basic)
  next
    case (Some intent)
    show ?thesis
      by (simp only: recover_def wp_bindE [of conv] wp_conv Some option.case wp_bindE [of "reconcile deps st a intent r" for r])
        (rule wp_mono [OF counted_reconcile [OF assms] v], simp_all)
  qed
qed

lemma left_turn_with:
  assumes "counted n s"
  shows "wp_of (turn_with deps st a) (closed n) (\<lambda>_ _. True) s"
proof -
  have t: "wp_of (case ended of Some r \<Rightarrow> returnE r | None \<Rightarrow> take_turn deps st a resolution) (closed n) (\<lambda>_ _. True) s'"
    if "case ended of None \<Rightarrow> counted n s' | Some x \<Rightarrow> closed n x s'" for ended resolution s'
    using that left_take_turn by (auto simp: wp split: option.splits)
  show ?thesis
    unfolding turn_with_def Let_def
    by (subst wp_bindE, subst wp_setConv, subst wp_bindE, rule wp_loadCatalogue, subst wp_bindE,
        rule wp_mono [OF left_recover t]) (use assms in \<open>simp_all add: counted_def\<close>)
qed

lemma left_with_assistant:
  assumes "counted n s" and "status (tw_conv s) \<noteq> None"
  shows "wp_of (with_assistant deps st a) (closed n) (\<lambda>_ _. True) s"
proof -
  have limit: "wp_of (bindE (setConv (\<lambda>c. c\<lparr>maxTurns := x\<rparr>)) (\<lambda>_. bindE (escalate deps st a Limit m)
      (\<lambda>_. finish_with Waiting 0 nt))) (closed n) (\<lambda>_ _. True) s" for x m nt
    using assms by (auto simp: wp escalate_def counted_def intro!: wp_mono [OF left_escalate [where n = n]])
  show ?thesis
    using assms limit left_turn_with [OF assms(1)]
    by (auto simp: with_assistant_def Let_def wp_bindE [of conv] wp_conv)
      (auto simp: wp left_defs intro!: wp_write)
qed

lemma left_leased:
  assumes "counted n s" and "status (tw_conv s) \<noteq> None"
  shows "wp_of (leased deps st) (closed n) (\<lambda>_ _. True) s"
proof -
  let ?u = "\<lambda>akey m nt. bindE (escalateByKey deps st akey ErrorReason m) (\<lambda>_. finish_with Waiting 0 nt)"
  have u: "wp_of (?u akey m nt) (closed n) (\<lambda>_ _. True) s'" if "counted n s'" for akey m nt s'
    using that by (auto simp: wp intro!: wp_mono [OF left_escalate [where n = n]])
  have a: "wp_of (loadAssistant deps key) (\<lambda>_ s. counted n s \<and> status (tw_conv s) \<noteq> None) (\<lambda>_ _. True) s" for key
    using assms by (auto simp: loadAssistant_def wp intro!: wp_onWorld)
  have l: "wp_of (bindE (loadAssistant deps key) (\<lambda>x. case x of None \<Rightarrow> ?u akey m nt
      | Some a \<Rightarrow> with_assistant deps st a)) (closed n) (\<lambda>_ _. True) s" for key akey m nt
    by (subst wp_bindE, rule wp_mono [OF a]) (auto split: option.split intro: u left_with_assistant)
  have f: "wp_of (bindE (endBecauseFull deps st)
      (\<lambda>_. returnE \<lparr>ar_status = Some Failed, ar_turnsRun = 0, ar_note = nt\<rparr>)) (closed n) (\<lambda>_ _. True) s" for nt
    using assms by (auto simp: wp closed_def intro!: wp_mono [OF left_full])
  show ?thesis
    unfolding leased_def by (simp only: wp_bindE [of conv] wp_conv split: if_split) (intro conjI impI f l)
qed

section \<open>What a call of \<open>advance\<close> leaves\<close>

text \<open>Whether a Conversation is held by another Runtime at a time.\<close>

definition held :: "conversation \<Rightarrow> int \<Rightarrow> bool" where
  "held c t = (case parseIso (leaseUntil c) of Some l \<Rightarrow> t < l | None \<Rightarrow> False)"

definition finished :: "conversation \<Rightarrow> bool" where
  "finished c \<longleftrightarrow> status c = Some Done \<or> status c = Some Failed"

lemma claimLease_free:
  "\<not> held (tw_conv s) (cl_now (ad_things deps) (tw_world s)) \<Longrightarrow>
   claimLease deps s = (Inr True, s\<lparr>tw_conv := (tw_conv s)\<lparr>leaseUntil :=
     Some (nowIso (cl_now (ad_things deps) (tw_world s) + leaseSeconds deps * 1000))\<rparr>\<rparr>)"
  by (simp add: claimLease_def held_def io_defs conv_def now_def setConv_def)

lemma claimLease_held:
  "held (tw_conv s) (cl_now (ad_things deps) (tw_world s)) \<Longrightarrow> claimLease deps s = (Inr False, s)"
  by (simp add: claimLease_def held_def io_defs conv_def now_def)

lemma load_run:
  "repo_get (ad_things deps) Conversation_spec ref (tw_world s) = (Inr t, w) \<Longrightarrow>
   load deps ref s = (Inr (map_stored conversation_of t), s\<lparr>tw_world := w, tw_conv := conversation_of (data t),
     tw_events := tw_events s @ [EvLoaded (conversation_of (data t))]\<rparr>)"
  by (simp add: load_def onWorld_def bindE_def setConv_def emit_def io_defs Let_def)

lemma advance_run:
  assumes "repo_get (ad_things deps) Conversation_spec ref (tw_world s) = (Inr t, w)"
    and "c = conversation_of (data t)" and "\<not> finished c" and "\<not> held c (cl_now (ad_things deps) w)"
  shows "advance deps ref s = leased deps (map_stored conversation_of t)
    (s\<lparr>tw_world := w, tw_events := tw_events s @ [EvLoaded c],
       tw_conv := c\<lparr>leaseUntil := Some (nowIso (cl_now (ad_things deps) w + leaseSeconds deps * 1000))\<rparr>\<rparr>)"
  using assms by (simp add: advance_def bindE_def load_run conv_def io_defs claimLease_free finished_def)

lemma advance_left:
  assumes "repo_get (ad_things deps) Conversation_spec ref (tw_world s) = (Inr t, w)"
    and "c = conversation_of (data t)" and "\<not> finished c" and "\<not> held c (cl_now (ad_things deps) w)"
    and "status c \<noteq> None" and "advance deps ref s = (Inr r, s')"
  shows "closed (turns c) r s'"
proof -
  let ?s = "s\<lparr>tw_world := w, tw_events := tw_events s @ [EvLoaded c],
       tw_conv := c\<lparr>leaseUntil := Some (nowIso (cl_now (ad_things deps) w + leaseSeconds deps * 1000))\<rparr>\<rparr>"
  have "wp_of (leased deps (map_stored conversation_of t)) (closed (turns c)) (\<lambda>_ _. True) ?s"
    by (rule left_leased) (simp_all add: counted_def assms(5))
  then show ?thesis
    using assms(6) advance_run [OF assms(1-4)] by (simp add: wp_of_def)
qed

end
