(* ===== verification/Sample.thy ===== *)
theory Sample
  imports LoopFacts
begin

text \<open>
  A small deployment to apply the theorems about the loop in: a ThingStore that holds still, with one
  Conversation, one Assistant and a catalogue of two Operations, a registry that implements both, and
  a model with one answer. The theorems hold in every world; here they are used in this one.
\<close>

section \<open>The deployment\<close>

definition pay_seed :: operation_seed where
  "pay_seed = \<lparr>sd_name = ''Pay'', sd_system = ''bank'', sd_kind = ''connector'',
     sd_description = ''Pay.'', sd_parameters = [], sd_requiresApproval = Some True\<rparr>"

definition read_seed :: operation_seed where
  "read_seed = \<lparr>sd_name = ''Read'', sd_system = ''runtime'', sd_kind = ''internal'',
     sd_description = ''Read.'', sd_parameters = [], sd_requiresApproval = None\<rparr>"

definition pay_implementation :: "unit operation_implementation" where
  "pay_implementation = \<lparr>i_name = ''pay'', i_mutating = True, i_clientReadable = False,
     i_execute = (\<lambda>args context. returnE (OValue (JStr ''paid''))), i_reconcile = None,
     i_describeCall = None, i_seed = pay_seed\<rparr>"

definition read_implementation :: "unit operation_implementation" where
  "read_implementation = \<lparr>i_name = ''read'', i_mutating = False, i_clientReadable = True,
     i_execute = (\<lambda>args context. returnE (OValue args)), i_reconcile = None,
     i_describeCall = None, i_seed = read_seed\<rparr>"

definition deployed_registry :: "unit registry" where
  "deployed_registry = \<lparr>operations = [(''pay'', pay_implementation), (''read'', read_implementation)],
     rg_host = None, describers = dynamicDescribers\<rparr>"

definition prompt_entry :: "int \<Rightarrow> string \<Rightarrow> entry" where
  "prompt_entry n t = blank_entry\<lparr>e_seq := Some n, e_role := Some ''user'', e_kind := Some ''prompt'', e_text := Some t\<rparr>"

definition started :: conversation where
  "started = blank_conversation\<lparr>assistantKey := Some ''clerk'', status := Some Running,
     entries := Some [prompt_entry 1 ''go'']\<rparr>"

definition document_of :: "model_spec \<Rightarrow> props \<Rightarrow> props" where
  "document_of spec body = [(ms_root spec, JObj body)]"

definition operation_doc :: "string \<Rightarrow> doc_spec" where
  "operation_doc key = \<lparr>ds_docRef = ''Operation_DM/'' @ key, ds_model = ''Operation_DM'', ds_document =
     document_of Operation_spec [(''Key'', JStr key), (''Parameters'', JStr ''{}'')]\<rparr>"

definition assistant_doc :: doc_spec where
  "assistant_doc = \<lparr>ds_docRef = ''Assistant_DM/a'', ds_model = ''Assistant_DM'', ds_document =
     document_of Assistant_spec [(''Key'', JStr ''clerk''),
       (''Grants'', JArr (map (\<lambda>k. JObj [(''OperationKey'', JStr k)]) [''pay'', ''read'']))]\<rparr>"

definition still_client :: "conversation \<Rightarrow> doc_spec list \<Rightarrow> unit a12_client" where
  "still_client c assistants = \<lparr>
     cl_getDocument = (\<lambda>ref. returnE \<lparr>ds_docRef = ref, ds_model = ''Conversation_DM'',
         ds_document = toDocument Conversation_spec (conversation_data c)\<rparr>),
     cl_modifyDocument = (\<lambda>ref doc. returnE ()),
     cl_addDocument = (\<lambda>m doc. returnE ''m/new''),
     cl_deleteDocument = (\<lambda>ref. returnE ()),
     cl_query = (\<lambda>q. returnE (if qs_target q = ''Assistant_DM'' then assistants
         else if qs_target q = ''Operation_DM'' then [operation_doc ''pay'', operation_doc ''read''] else [])),
     cl_now = (\<lambda>_. 0)\<rparr>"

definition calls_response :: "string list \<Rightarrow> llm_response" where
  "calls_response names = \<lparr>r_text = ''ok'', r_toolCalls = map (\<lambda>n. \<lparr>tc_id = n, tc_name = n, tc_arguments = JObj []\<rparr>) names,
     r_finishReason = LWantsTools, r_error = None, r_usage = None\<rparr>"

definition still_deps :: "conversation \<Rightarrow> doc_spec list \<Rightarrow> llm_response result \<Rightarrow> unit advance_deps" where
  "still_deps c assistants response = \<lparr>ad_things = still_client c assistants, ad_registry = deployed_registry,
     ad_llm = (\<lambda>rq w. (response, w)), ad_setLlmContext = (\<lambda>k n w. w),
     leaseSeconds = 60, maxEscalations = 3, llmMaxAttempts = 3, defaultModel = ''scripted'',
     ad_raiseQuestion = (\<lambda>qi. returnE ''q-1''), ad_sha256 = (\<lambda>s. ''h'' @ s), ad_sleep = (\<lambda>ms w. w)\<rparr>"

definition still_turn :: "unit turn" where
  "still_turn = \<lparr>tw_world = (), tw_conv = blank_conversation, tw_events = []\<rparr>"

section \<open>What the deployment holds\<close>

definition clerk :: "assistant stored" where
  "clerk = map_stored assistant_of (toStored Assistant_spec assistant_doc)"

definition thing_of :: "string \<Rightarrow> operation" where
  "thing_of key = operation_of (data (toStored Operation_spec (operation_doc key)))"

abbreviation still_catalogue :: "operation list" where
  "still_catalogue \<equiv> [thing_of ''pay'', thing_of ''read'']"

lemma clerk_values:
  "declared_grants (data clerk) = [''pay'', ''read'']" "a_enabled (data clerk) = None"
  "a_maxTurns (data clerk) = None" "a_key (data clerk) = Some ''clerk''"
  by code_simp+

lemma thing_values:
  "o_key (thing_of ''pay'') = Some ''pay''" "o_key (thing_of ''read'') = Some ''read''"
  "o_enabled (thing_of ''pay'') = None" "o_enabled (thing_of ''read'') = None"
  "o_parameters (thing_of ''pay'') = Some ''{}''" "o_parameters (thing_of ''read'') = Some ''{}''"
  "o_requiresApproval (thing_of ''pay'') = None" "o_requiresApproval (thing_of ''read'') = None"
  by code_simp+

lemma runnable_values:
  "find_runnable deployed_registry ''pay'' (thing_of ''pay'') = Inr RunBuiltIn"
  "find_runnable deployed_registry ''read'' (thing_of ''read'') = Inr RunBuiltIn"
  "parse_parameters (Some ''{}'') = Some []"
  by code_simp+

definition pay :: "unit granted_operation" where
  "pay = resolve pay_implementation (thing_of ''pay'') []"

definition read :: "unit granted_operation" where
  "read = resolve read_implementation (thing_of ''read'') []"

lemma deployed_get:
  "rg_get deployed_registry ''pay'' = Some pay_implementation"
  "rg_get deployed_registry ''read'' = Some read_implementation"
  by (simp_all add: rg_get_def deployed_registry_def)

lemma resolve_values:
  "resolve_grant deployed_registry (data clerk) still_catalogue ''pay'' = Inr pay"
  "resolve_grant deployed_registry (data clerk) still_catalogue ''read'' = Inr read"
  by (simp_all add: resolve_grant_def grant_base_def thing_values runnable_values join_operation_def
      deployed_get pay_def read_def)

lemma pay_read_values:
  "g_name pay = ''pay''" "g_name read = ''read''" "g_requiresApproval pay" "\<not> g_requiresApproval read"
  "g_execute read = (\<lambda>args context. returnE (OValue args))"
  by (simp_all add: pay_def read_def resolve_def pay_implementation_def read_implementation_def pay_seed_def
      read_seed_def thing_values)

lemma still_resolution:
  "grantedTo deployed_registry (data clerk) still_catalogue = \<lparr>granted = [pay, read], dropped = []\<rparr>"
  by (simp add: grantedTo_def clerk_values resolve_values push_operation_def pay_read_values)

section \<open>A Turn of the deployment\<close>

lemma run_basic:
  "returnE x s = (Inr x, s)" "throwE e s = (Inl e, s)"
  "bindE m k s = (case m s of (Inl e, s') \<Rightarrow> (Inl e, s') | (Inr x, s') \<Rightarrow> k x s')"
  "getE f s = (Inr (f s), s)" "attemptE m s = (case m s of (r, s') \<Rightarrow> (Inr r, s'))"
  by (simp_all add: io_defs)

lemma run_modify: "modifyE g s = (Inr (), g s)"
  by (simp add: io_defs)

lemma run_turn:
  "conv s = (Inr (tw_conv s), s)" "setConv f s = (Inr (), s\<lparr>tw_conv := f (tw_conv s)\<rparr>)"
  "emit ev s = (Inr (), s\<lparr>tw_events := tw_events s @ [ev]\<rparr>)"
  "now deps s = (Inr (cl_now (ad_things deps) (tw_world s)), s)"
  "live st s = (Inr (st\<lparr>data := tw_conv s\<rparr>), s)"
  "onWorld m s = (case m (tw_world s) of (r, w) \<Rightarrow> (r, s\<lparr>tw_world := w\<rparr>))"
  "append deps e s = (Inr (length (entry_list (tw_conv s))),
     s\<lparr>tw_conv := appendEntry (cl_now (ad_things deps) (tw_world s)) e (tw_conv s)\<rparr>)"
  by (simp_all add: conv_def setConv_def emit_def now_def live_def onWorld_def append_def run_basic run_modify)

lemma still_get:
  "repo_get (ad_things (still_deps c as r)) Conversation_spec ref w
     = (Inr \<lparr>docRef = ref, thingId = thingIdOf ref, model = ''Conversation_DM'',
         data = fromDocument Conversation_spec (toDocument Conversation_spec (conversation_data c))\<rparr>, w)"
  by (simp add: repo_get_def still_deps_def still_client_def run_basic toStored_def Conversation_spec_def)

lemma still_write:
  "write_back (still_deps c as r) st s = (Inr (), s\<lparr>tw_events := tw_events s @ [EvWrote (tw_conv s)]\<rparr>)"
  by (simp add: write_back_def repo_update_def still_deps_def still_client_def run_basic run_turn)

lemma still_assistant:
  "key \<noteq> [] \<Longrightarrow> loadAssistant (still_deps c [assistant_doc] r) key s = (Inr (Some clerk), s)"
  by (simp add: loadAssistant_def repo_search_def still_deps_def still_client_def run_basic run_turn
      Assistant_spec_def clerk_def)

lemma still_catalogue:
  "loadCatalogue (still_deps c as r) s = (Inr still_catalogue, s)"
  by (simp add: loadCatalogue_def repo_search_def still_deps_def still_client_def run_basic run_turn
      Operation_spec_def thing_of_def CATALOGUE_PAGE_SIZE_def)

lemma still_simps:
  "cl_now (ad_things (still_deps c as r)) w = 0" "leaseSeconds (still_deps c as r) = 60"
  "ad_registry (still_deps c as r) = deployed_registry" "llmMaxAttempts (still_deps c as r) = 3"
  "ad_llm (still_deps c as r) rq w = (r, w)" "ad_setLlmContext (still_deps c as r) k n w = w"
  "maxEscalations (still_deps c as r) = 3" "ad_sha256 (still_deps c as r) = (\<lambda>s. ''h'' @ s)"
  "ad_raiseQuestion (still_deps c as r) qi = returnE ''q-1''" "ad_sleep (still_deps c as r) n w = w"
  by (simp_all add: still_deps_def still_client_def)

lemma still_load:
  "load (still_deps c as r) ref s = (Inr \<lparr>docRef = ref, thingId = thingIdOf ref,
       model = ''Conversation_DM'', data = c\<rparr>, s\<lparr>tw_conv := c, tw_events := tw_events s @ [EvLoaded c]\<rparr>)"
  by (simp add: load_def run_basic run_turn still_get map_stored_def conversation_stored Let_def)

lemma started_fields:
  "status started = Some Running" "leaseUntil started = None" "assistantKey started = Some ''clerk''"
  "entry_list started = [prompt_entry 1 ''go'']" "maxTurns started = None" "turnCount started = None"
  by (simp_all add: started_def blank_conversation_def)

lemma deployed_start:
  "advance (still_deps started [assistant_doc] r) ''Conversation_DM/c'' still_turn
   = turn_with (still_deps started [assistant_doc] r)
      \<lparr>docRef = ''Conversation_DM/c'', thingId = ''c'', model = ''Conversation_DM'', data = started\<rparr> clerk
      \<lparr>tw_world = (), tw_conv = started\<lparr>leaseUntil := Some (nowIso 60000)\<rparr>, tw_events = [EvLoaded started]\<rparr>"
  by (simp add: advance_def run_basic run_turn still_load still_turn_def started_fields claimLease_def parseIso_def
     still_simps leased_def isFull_def MAX_ENTRIES_def ENTRY_HEADROOM_def still_assistant with_assistant_def
     clerk_values turn_limit_def Let_def thingIdOf_def after_char_def)

lemma deployed_turn:
  "turn_with (still_deps c0 [assistant_doc] r) st clerk s =
   bindE (recover (still_deps c0 [assistant_doc] r) st clerk \<lparr>granted = [pay, read], dropped = []\<rparr>)
     (\<lambda>ended. case ended of Some r' \<Rightarrow> returnE r' | None \<Rightarrow>
        take_turn (still_deps c0 [assistant_doc] r) st clerk \<lparr>granted = [pay, read], dropped = []\<rparr>)
     (s\<lparr>tw_conv := (tw_conv s)\<lparr>status := Some Running, waitingFor := Some WF_None\<rparr>\<rparr>)"
  by (simp add: turn_with_def run_basic run_turn still_catalogue still_simps Let_def still_resolution)

lemma recover_none: "unresolvedIntent (tw_conv s) = None \<Longrightarrow> recover deps st a res s = (Inr None, s)"
  by (simp add: recover_def run_basic run_turn)

lemma still_llm:
  "callLlmWithRetries (still_deps c0 as (Inr response)) a res s = (Inr response,
     s\<lparr>tw_events := tw_events s @ [EvLlm (buildMessages a (tw_conv s))]\<rparr>)"
  by (simp add: callLlmWithRetries_def run_basic run_turn still_simps numeral_3_eq_3)

lemma world_unit: "(s::unit turn)\<lparr>tw_world := w\<rparr> = s"
  by (cases s) simp

lemma deployed_model:
  "take_turn (still_deps c0 as (Inr response)) st a res s
   = act_on_response (still_deps c0 as (Inr response)) st a res response
       (s\<lparr>tw_events := tw_events s @ [EvLlm (buildMessages (data a) (tw_conv s))]\<rparr>)"
  by (simp add: take_turn_def run_basic run_turn still_llm still_simps heed_answer_def world_unit)

lemma call_values:
  "resolve_call \<lparr>granted = [pay, read], dropped = []\<rparr> ''read'' = Some read"
  "resolve_call \<lparr>granted = [pay, read], dropped = []\<rparr> ''pay'' = Some pay"
  "call_name \<lparr>granted = [pay, read], dropped = []\<rparr> ''read'' = ''read''"
  "call_name \<lparr>granted = [pay, read], dropped = []\<rparr> ''pay'' = ''pay''"
  by (simp_all add: resolve_call_def call_name_def pay_read_values toolNameForLlm_def or_else_def)

lemma started_open:
  "unresolvedIntent started = None" "nextSeq started = 2" "turnCount started = None"
  by code_simp+

lemma unresolved_upd:
  "unresolvedIntent (c\<lparr>status := a\<rparr>) = unresolvedIntent c" "unresolvedIntent (c\<lparr>waitingFor := b\<rparr>) = unresolvedIntent c"
  "unresolvedIntent (c\<lparr>turnCount := d\<rparr>) = unresolvedIntent c" "unresolvedIntent (c\<lparr>leaseUntil := e\<rparr>) = unresolvedIntent c"
  by (simp_all add: unresolvedIntent_def)

lemma nextSeq_upd:
  "nextSeq (c\<lparr>status := a\<rparr>) = nextSeq c" "nextSeq (c\<lparr>waitingFor := b\<rparr>) = nextSeq c"
  "nextSeq (c\<lparr>turnCount := d\<rparr>) = nextSeq c" "nextSeq (c\<lparr>leaseUntil := e\<rparr>) = nextSeq c"
  by (simp_all add: nextSeq_def)

lemmas run_steps = run_basic run_turn run_modify still_simps still_write world_unit Let_def

lemma run_read:
  "\<exists>ms c1 c2 r. advance (still_deps started [assistant_doc] (Inr (calls_response [''read'']))) ''Conversation_DM/c'' still_turn =
     (Inr r, \<lparr>tw_world = (), tw_conv = c2, tw_events =
        [EvLoaded started, EvLlm ms, EvWrote c1, EvExecute ''read'' (JObj []) (call_key ''c'' 2), EvWrote c2]\<rparr>)"
  by (subst deployed_start)
    (simp add: run_steps deployed_turn deployed_model act_on_response_def calls_response_def run_call_def
      record_intent_def call_values run_resolved_def execute_call_def pay_read_values record_outcome_def
      recover_none unresolved_upd started_open nextSeq_upd)

end
