(* ===== verification/LoopSafety.thy ===== *)
theory LoopSafety
  imports LoopEffects Sample
begin

text \<open>
  What \<open>LoopDriver.advance\<close> (\<open>runtime/src/loop/advance.ts\<close>) may do, in every world: what is executed,
  when, under which key, how often and on whose word, and what the model is sent. Each property is
  applied to a run of the deployment of the theory \<open>Sample\<close>.
\<close>

section \<open>Runs that start from a record in order\<close>

text \<open>The Conversation the ThingStore holds under \<open>ref\<close> is in order, with the call \<open>k\<close> open, if any.\<close>

definition stored_in_order :: "'w advance_deps \<Rightarrow> string \<Rightarrow> string option \<Rightarrow> 'w \<Rightarrow> bool" where
  "stored_in_order deps ref k w \<longleftrightarrow>
     (case fst (repo_get (ad_things deps) Conversation_spec ref w) of
        Inl e \<Rightarrow> True
      | Inr t \<Rightarrow> record_ok (thingId t) k (conversation_of (data t)))"

lemma advance_trace:
  assumes "tw_events s = []" and "stored_in_order deps ref k (tw_world s)"
  obtains i where "trace_acts i (tw_events (snd (advance deps ref s)))"
proof -
  let ?g = "repo_get (ad_things deps) Conversation_spec ref (tw_world s)"
  define i where "i = (case fst ?g of Inr t \<Rightarrow> thingId t | Inl e \<Rightarrow> [])"
  have "trace_acts i (tw_events (snd (advance deps ref s)))"
    using assms by (intro advance_acts [of s deps ref i k]) (auto simp: stored_in_order_def i_def)
  then show ?thesis by (rule that)
qed

lemma advance_event:
  assumes "tw_events s = []" and "stored_in_order deps ref k (tw_world s)"
    and "tw_events (snd (advance deps ref s)) = before @ ev # after" and "\<And>c. ev \<noteq> EvWrote c"
  obtains i where "event_ok i before ev"
proof -
  obtain i where "trace_acts i (tw_events (snd (advance deps ref s)))"
    using advance_trace [OF assms(1,2)] .
  with assms(3) have "case ev of EvWrote c \<Rightarrow> True | _ \<Rightarrow> event_ok i before ev"
    unfolding trace_acts_def by blast
  with assms(4) have "event_ok i before ev" by (cases ev) auto
  then show ?thesis by (rule that)
qed

definition clerk_deps :: "unit advance_deps" where
  "clerk_deps = still_deps started [assistant_doc] (Inr (calls_response [''read'']))"

lemma still_turn_empty: "tw_events still_turn = []"
  by (simp add: still_turn_def)

lemma clerk_in_order: "stored_in_order clerk_deps ''Conversation_DM/c'' None (tw_world still_turn)"
proof -
  have "record_ok ''c'' None started" by code_simp
  then show ?thesis
    by (simp add: stored_in_order_def clerk_deps_def still_get conversation_stored thingIdOf_def after_char_def)
qed

lemma clerk_run:
  "\<exists>ms c1 c2. tw_events (snd (advance clerk_deps ''Conversation_DM/c'' still_turn))
     = [EvLoaded started, EvLlm ms, EvWrote c1, EvExecute ''read'' (JObj []) (call_key ''c'' 2), EvWrote c2]"
  using run_read unfolding clerk_deps_def by (metis snd_conv turn.select_convs(3))

lemma clerk_executes:
  "\<exists>before after. tw_events (snd (advance clerk_deps ''Conversation_DM/c'' still_turn))
      = before @ EvExecute ''read'' (JObj []) (call_key ''c'' 2) # after"
  using clerk_run by (metis append_Cons append_Nil)

lemma clerk_asks_model:
  "\<exists>ms. EvLlm ms \<in> set (tw_events (snd (advance clerk_deps ''Conversation_DM/c'' still_turn)))"
  using clerk_run by (metis list.set_intros)

text \<open>
  C1. An Operation is executed only when the Conversation last written to the ThingStore already
  holds the intent of that very call (its key, its Operation and its arguments) as its unresolved
  intent: a crash at any later point leaves the intent to be found.
\<close>

theorem intent_written_before_execution:
  assumes "tw_events s = []" and "stored_in_order deps ref k (tw_world s)"
    and "tw_events (snd (advance deps ref s)) = before @ EvExecute op args key # after"
  shows "\<exists>c e. last_written before = Some c \<and> unresolvedIntent c = Some e \<and>
    e_idempotencyKey e = Some key \<and> e_toolName e = Some op \<and> e_toolArgs e = Some (stringify args)"
proof -
  obtain i where "event_ok i before (EvExecute op args key)" using advance_event [OF assms] by blast
  then show ?thesis by (auto simp: call_open_def)
qed

theorem intent_written_before_execution_witness:
  "\<exists>before after c. tw_events (snd (advance clerk_deps ''Conversation_DM/c'' still_turn))
       = before @ EvExecute ''read'' (JObj []) (call_key ''c'' 2) # after \<and>
     last_written before = Some c \<and> unresolvedIntent c \<noteq> None"
proof -
  obtain before after where "tw_events (snd (advance clerk_deps ''Conversation_DM/c'' still_turn))
      = before @ EvExecute ''read'' (JObj []) (call_key ''c'' 2) # after" using clerk_executes by blast
  with intent_written_before_execution [OF still_turn_empty clerk_in_order this] show ?thesis by blast
qed

text \<open>
  C10. No two Operations are ever executed under the same idempotency key: the key of an execution is
  the key of no earlier execution of the Turn, and of no intent of the Conversation that was loaded.
\<close>

theorem executed_under_a_fresh_key:
  assumes "tw_events s = []" and "stored_in_order deps ref k (tw_world s)"
    and "tw_events (snd (advance deps ref s)) = before @ EvExecute op args key # after"
  shows "(\<forall>op' args'. EvExecute op' args' key \<notin> set before) \<and> (\<forall>c. EvLoaded c \<in> set before \<longrightarrow> key \<notin> intent_keys c)"
proof -
  obtain i where "event_ok i before (EvExecute op args key)" using advance_event [OF assms] by blast
  then have "key \<notin> known_keys before" by simp
  then show ?thesis by (force simp: known_keys_def)
qed

theorem executed_under_a_fresh_key_witness:
  "\<exists>before after. tw_events (snd (advance clerk_deps ''Conversation_DM/c'' still_turn))
       = before @ EvExecute ''read'' (JObj []) (call_key ''c'' 2) # after \<and>
     EvExecute ''pay'' JNull (call_key ''c'' 2) \<notin> set before"
proof -
  obtain before after where "tw_events (snd (advance clerk_deps ''Conversation_DM/c'' still_turn))
      = before @ EvExecute ''read'' (JObj []) (call_key ''c'' 2) # after" using clerk_executes by blast
  with executed_under_a_fresh_key [OF still_turn_empty clerk_in_order this] show ?thesis by blast
qed



section \<open>Who may be executed\<close>

definition foreign :: "string set \<Rightarrow> event \<Rightarrow> bool" where
  "foreign names ev = (case ev of EvExecute op args key \<Rightarrow> op \<notin> names | _ \<Rightarrow> False)"

lemma foreign_simps [simp]:
  "acts (foreign names)" "foreign names (EvExecute op args key) \<longleftrightarrow> op \<notin> names" "\<not> foreign names (EvLlm ms)"
proof -
  have "foreign names ev \<Longrightarrow> is_execution ev" for ev by (cases ev) (simp_all add: foreign_def)
  then show "acts (foreign names)" by (simp add: acts_def)
qed (simp_all add: foreign_def)

lemma within_none:
  assumes "within P 0 m" and "tw_events (snd (m s)) = tw_events s @ evs" and "ev \<in> set evs"
  shows "\<not> P ev"
proof -
  obtain evs' where "tw_events (snd (m s)) = tw_events s @ evs'" "length (filter P evs') \<le> 0"
    using assms(1) unfolding within_def by blast
  with assms(2,3) show ?thesis by (auto simp: filter_empty_conv)
qed

lemma foreign_run_resolved:
  assumes "g_name g \<in> names"
  shows "within (foreign names) 0 (run_resolved deps st a g op args key cost)"
  using assms
  by (auto simp: run_resolved_def execute_call_def record_outcome_def Let_def intro!: budget)

lemma resolve_call_granted: "resolve_call resolution wire = Some g \<Longrightarrow> g \<in> set (granted resolution)"
  by (auto simp: resolve_call_def or_else_def split: option.splits dest: find_SomeD)

lemma foreign_run_calls:
  assumes "g_name ` set (granted resolution) \<subseteq> names"
  shows "within (foreign names) 0 (run_calls deps st a resolution response calls c)"
proof (induction calls arbitrary: c)
  case Nil
  then show ?case by (auto intro!: budget)
next
  case (Cons call calls)
  have "within (foreign names) 0 (run_call deps st a resolution response call c)"
    using assms
    by (auto simp: run_call_def record_intent_def Let_def image_subset_iff
        intro!: budget foreign_run_resolved dest!: resolve_call_granted)
  with Cons show ?case by (auto intro!: within_bind_free within_option within_pair within_basic)
qed

lemma foreign_take_turn:
  assumes "g_name ` set (granted resolution) \<subseteq> names"
  shows "within (foreign names) 0 (take_turn deps st a resolution)"
proof -
  have l: "within (foreign names) 0 (llm_attempts deps rq n attempt e)" for rq n attempt e
    by (induction deps rq n attempt e rule: llm_attempts.induct)
      (auto simp: Let_def intro!: budget split: js_error.split)
  show ?thesis
    by (auto simp: take_turn_def callLlmWithRetries_def heed_answer_def act_on_response_def conclude_def
        intro!: budget l foreign_run_calls [OF assms])
qed

lemma foreign_turn_with:
  assumes "\<And>cat. g_name ` set (granted (grantedTo (ad_registry deps) (data a) cat)) \<subseteq> names"
  shows "within (foreign names) 0 (turn_with deps st a)"
  by (auto simp: turn_with_def Let_def intro!: budget foreign_take_turn assms)

text \<open>
  C18. A Turn executes only what the Assistant declares: an Operation that is executed goes by the
  name, or by the name without the callee, of one of the Assistant's grants, whatever the model asks
  for and whatever the catalogue holds.
\<close>

theorem only_declared_operations_execute:
  assumes "registry_ok (ad_registry deps)"
    and "tw_events (snd (turn_with deps st a s)) = tw_events s @ evs" and "EvExecute op args key \<in> set evs"
  shows "\<exists>grant \<in> set (declared_grants (data a)). op = grant \<or> op = grant_base grant"
proof -
  let ?names = "{op. \<exists>grant \<in> set (declared_grants (data a)). op = grant \<or> op = grant_base grant}"
  have "g_name g \<in> ?names" if g: "g \<in> set (granted (grantedTo (ad_registry deps) (data a) cat))" for g cat
  proof -
    obtain key where "key \<in> set (declared_grants (data a))" "g_name g = key \<or> g_name g = grant_base key"
      using granted_declared [OF assms(1) g] by metis
    then show ?thesis by (simp only: mem_Collect_eq) (rule bexI)
  qed
  then have "g_name ` set (granted (grantedTo (ad_registry deps) (data a) cat)) \<subseteq> ?names" for cat
    by (rule image_subsetI)
  then have "within (foreign ?names) 0 (turn_with deps st a)" by (rule foreign_turn_with)
  from within_none [OF this assms(2,3)] have "op \<in> ?names" by simp
  then show ?thesis by (simp only: mem_Collect_eq)
qed

lemma registry_ok_deployed: "registry_ok deployed_registry"
  by (simp add: registry_ok_def deployed_registry_def pay_implementation_def read_implementation_def)

text \<open>The Turn of the deployment, from the record just loaded.\<close>

definition clerk_thing :: "conversation stored" where
  "clerk_thing = \<lparr>docRef = ''Conversation_DM/c'', thingId = ''c'', model = ''Conversation_DM'', data = started\<rparr>"

definition clerk_turn :: "unit turn" where
  "clerk_turn = \<lparr>tw_world = (), tw_conv = started\<lparr>leaseUntil := Some (nowIso 60000)\<rparr>, tw_events = [EvLoaded started]\<rparr>"

lemma clerk_turn_run:
  "\<exists>evs. tw_events (snd (turn_with clerk_deps clerk_thing clerk clerk_turn)) = tw_events clerk_turn @ evs \<and>
     EvExecute ''read'' (JObj []) (call_key ''c'' 2) \<in> set evs"
proof -
  have "advance clerk_deps ''Conversation_DM/c'' still_turn = turn_with clerk_deps clerk_thing clerk clerk_turn"
    unfolding clerk_deps_def clerk_thing_def clerk_turn_def by (rule deployed_start)
  with clerk_run obtain ms c1 c2 where "tw_events (snd (turn_with clerk_deps clerk_thing clerk clerk_turn))
      = [EvLoaded started, EvLlm ms, EvWrote c1, EvExecute ''read'' (JObj []) (call_key ''c'' 2), EvWrote c2]"
    by auto
  then show ?thesis by (simp add: clerk_turn_def)
qed

theorem only_declared_operations_execute_witness:
  "\<exists>evs. EvExecute ''read'' (JObj []) (call_key ''c'' 2) \<in> set evs \<and>
     (\<exists>grant \<in> set (declared_grants (data clerk)). ''read'' = grant \<or> ''read'' = grant_base grant)"
proof -
  have r: "registry_ok (ad_registry clerk_deps)" by (simp add: clerk_deps_def still_simps registry_ok_deployed)
  obtain evs where e: "tw_events (snd (turn_with clerk_deps clerk_thing clerk clerk_turn)) = tw_events clerk_turn @ evs"
    "EvExecute ''read'' (JObj []) (call_key ''c'' 2) \<in> set evs" using clerk_turn_run by blast
  show ?thesis by (rule exI [of _ evs], rule conjI [OF e(2) only_declared_operations_execute [OF r e]])
qed

text \<open>
  Recovery never executes an Operation and never calls the model: an interrupted call is asked
  about, at most, and what the recovery adds to the trace holds neither.
\<close>

theorem recovery_executes_nothing:
  "\<exists>evs. tw_events (snd (recover deps st a resolution s)) = tw_events s @ evs \<and>
     filter is_execution evs = [] \<and> filter is_llm evs = []"
proof -
  have "within is_execution 0 (recover deps st a resolution)" "within is_llm 0 (recover deps st a resolution)"
    by (auto intro!: budget)
  then show ?thesis unfolding within_def by (metis le_zero_eq length_0_conv same_append_eq)
qed

text \<open>
  The retries are bounded: one call of \<open>advance\<close> asks the model at most as often as the
  configuration allows, and executes at most one Operation for each call in the model's answer.
\<close>

theorem effects_bounded:
  "(\<exists>evs. tw_events (snd (advance deps ref s)) = tw_events s @ evs \<and>
      length (filter is_llm evs) \<le> llmMaxAttempts deps) \<and>
   (\<exists>evs. tw_events (snd (act_on_response deps st a resolution response s)) = tw_events s @ evs \<and>
      length (filter is_execution evs) \<le> length (r_toolCalls response))"
proof -
  have "within is_execution (length (r_toolCalls response)) (act_on_response deps st a resolution response)"
    unfolding act_on_response_def conclude_def escalate_def
    by (intro budget within_bind_last executions_run_calls) (auto intro!: budget)
  then show ?thesis using attempts_advance [of deps ref] unfolding within_def by blast
qed

section \<open>Approval\<close>

lemma gate_passes:
  assumes "gateOnApproval deps st a g args h s = (Inr None, s')"
  shows "\<exists>q. fst (findApproval (tw_conv s) (g_name g) h (loadQuestion deps) s) = Inr (AValid q)"
proof -
  obtain r s1 where f: "findApproval (tw_conv s) (g_name g) h (loadQuestion deps) s = (r, s1)" by fastforce
  show ?thesis
  proof (cases r)
    case (Inl e)
    with f assms show ?thesis by (simp add: gateOnApproval_def conv_def io_defs)
  next
    case (Inr x)
    with f assms show ?thesis
      by (cases x) (auto simp: gateOnApproval_def conv_def io_defs split: prod.splits sum.splits)
  qed
qed

lemma resolved_without_execution:
  assumes "h = canonicalArgsHash (ad_sha256 deps) args" "g_requiresApproval g" "h \<noteq> []"
    and "gateOnApproval deps st a g args h s = (r, s1)" "r \<noteq> Inr None"
  shows "\<exists>evs. tw_events (snd (run_resolved deps st a g op args key cost s)) = tw_events s @ evs \<and> filter is_execution evs = []"
proof -
  have "within is_execution 0 (gateOnApproval deps st a g args h)" by (auto intro!: budget)
  then obtain e1 where e1: "tw_events s1 = tw_events s @ e1" "filter is_execution e1 = []"
    using assms(4) unfolding within_def by (metis le_zero_eq length_0_conv snd_conv)
  show ?thesis
  proof (cases r)
    case (Inl e)
    with assms e1 show ?thesis by (auto simp: run_resolved_def Let_def bindE_def truthy_def)
  next
    case (Inr refusal)
    with assms(5) obtain oc where o: "refusal = Some oc" by auto
    have "within is_execution 0 (record_outcome deps st op key (Some h) True cost oc)"
      by (auto simp: record_outcome_def intro!: budget)
    then obtain e2 where e2: "tw_events (snd (record_outcome deps st op key (Some h) True cost oc s1)) = tw_events s1 @ e2"
      "filter is_execution e2 = []" unfolding within_def by (metis le_zero_eq length_0_conv)
    have "run_resolved deps st a g op args key cost s = record_outcome deps st op key (Some h) True cost oc s1"
      using assms Inr o by (simp add: run_resolved_def Let_def bindE_def truthy_def returnE_def)
    with e1 e2 show ?thesis by auto
  qed
qed

text \<open>
  C2. An Operation that requires approval is executed only on a User's yes to that very call: the last
  request the record holds for the Operation and the hash of its arguments names a question that is
  stored as confirmed, the record holds the answer to it, and no result of the call has been recorded
  since that answer.
\<close>

theorem approval_required:
  assumes "g_requiresApproval g" and "h = canonicalArgsHash (ad_sha256 deps) args" and "h \<noteq> []"
    and "tw_events (snd (run_resolved deps st a g op args key cost s)) = tw_events s @ evs"
    and "EvExecute op' args' key' \<in> set evs"
  shows "\<exists>request question answer q.
     last_match (is_request (g_name g) h) (entry_list (tw_conv s)) = Some request \<and>
     q = coalesce (e_questionId request) [] \<and> fst (loadQuestion deps q s) = Inr (Some question) \<and>
     q_confirmed question = Some True \<and> find (is_answer q) (entry_list (tw_conv s)) = Some answer \<and>
     \<not> list_ex (spends (g_name g) h answer) (entry_list (tw_conv s))"
proof -
  obtain r s1 where g: "gateOnApproval deps st a g args h s = (r, s1)" by fastforce
  have "r = Inr None"
  proof (rule ccontr)
    assume "r \<noteq> Inr None"
    from resolved_without_execution [OF assms(2,1,3) g this, of op key cost] assms(4)
    have "filter is_execution evs = []" by auto
    with assms(5) show False by (auto simp: filter_empty_conv)
  qed
  with g obtain q where "fst (findApproval (tw_conv s) (g_name g) h (loadQuestion deps) s) = Inr (AValid q)"
    using gate_passes by blast
  then show ?thesis unfolding findApproval_result by blast
qed

text \<open>A User's yes to a payment: the request, the answer, and the question stored as confirmed.\<close>

definition spent_hash :: string where
  "spent_hash = ''h'' @ ''{}''"

definition yes_request :: entry where
  "yes_request = blank_entry\<lparr>e_seq := Some 1, e_kind := Some ''approval-request'', e_toolName := Some ''pay'',
     e_argsHash := Some spent_hash, e_questionId := Some ''q''\<rparr>"

definition yes_answer :: entry where
  "yes_answer = blank_entry\<lparr>e_seq := Some 2, e_kind := Some ''answer'', e_questionId := Some ''q'', e_text := Some ''yes''\<rparr>"

definition yes_entries :: "entry list" where
  "yes_entries = [yes_request, yes_answer]"

definition yes_turn :: "unit turn" where
  "yes_turn = still_turn\<lparr>tw_conv := blank_conversation\<lparr>entries := Some yes_entries\<rparr>\<rparr>"

definition yes_deps :: "unit advance_deps" where
  "yes_deps = clerk_deps\<lparr>ad_things := (still_client started [])\<lparr>cl_getDocument := (\<lambda>ref. returnE
     \<lparr>ds_docRef = ref, ds_model = ''OpenQuestion_DM'',
      ds_document = document_of OpenQuestion_spec [(''Confirmed'', JBool True)]\<rparr>)\<rparr>\<rparr>"

definition yes_question :: open_question where
  "yes_question = question_of (fromDocument OpenQuestion_spec (document_of OpenQuestion_spec [(''Confirmed'', JBool True)]))"

lemma yes_hash: "canonicalArgsHash (ad_sha256 yes_deps) (JObj []) = spent_hash"
proof -
  have "canonicalJson (JObj []) = ''{}''" by code_simp
  then show ?thesis
    by (simp add: canonicalArgsHash_def yes_deps_def clerk_deps_def still_simps spent_hash_def)
qed

lemma yes_confirmed: "q_confirmed yes_question = Some True"
  by code_simp

lemma yes_values:
  "last_match (is_request ''pay'' spent_hash) yes_entries = Some yes_request"
  "find (is_answer ''q'') yes_entries = Some yes_answer"
  "list_ex (spends ''pay'' spent_hash yes_answer) yes_entries = False"
  "e_questionId yes_request = Some ''q''"
  by (simp_all add: yes_entries_def last_match_def is_request_def yes_request_def yes_answer_def is_answer_def
      spends_def blank_entry_def)

lemma yes_load: "loadQuestion yes_deps ''q'' s = (Inr (Some yes_question), s)"
  by (simp add: loadQuestion_def repo_get_def yes_deps_def run_basic run_turn toStored_def yes_question_def world_unit)

lemma yes_find:
  "findApproval (tw_conv yes_turn) ''pay'' spent_hash (loadQuestion yes_deps) s = (Inr (AValid ''q''), s)"
proof -
  have "entry_list (tw_conv yes_turn) = yes_entries" by (simp add: yes_turn_def)
  then show ?thesis
    using yes_values yes_confirmed
    by (simp add: findApproval_def judge_question_def yes_load run_basic Let_def del: append.simps append_Cons append_Nil)
qed


lemma yes_empty: "tw_events yes_turn = []"
  by (simp add: yes_turn_def still_turn_def)

lemma yes_run:
  "run_resolved yes_deps clerk_thing clerk pay ''pay'' (JObj []) ''k'' 0 yes_turn
   = record_outcome yes_deps clerk_thing ''pay'' ''k'' (Some spent_hash) False 0 (OValue (JStr ''paid''))
       (yes_turn\<lparr>tw_events := [EvExecute ''pay'' (JObj []) ''k'']\<rparr>)"
proof -
  have g: "gateOnApproval yes_deps clerk_thing clerk pay (JObj []) spent_hash yes_turn = (Inr None, yes_turn)"
    by (simp add: gateOnApproval_def run_basic run_turn yes_find pay_read_values)
  have x: "g_execute pay = (\<lambda>args context. returnE (OValue (JStr ''paid'')))"
    by (simp add: pay_def resolve_def pay_implementation_def)
  have "spent_hash \<noteq> []" by (simp add: spent_hash_def)
  then show ?thesis
    by (simp add: run_resolved_def yes_hash pay_read_values truthy_def run_basic run_turn g execute_call_def x
        world_unit yes_empty)
qed

theorem approval_required_witness:
  "\<exists>question. fst (loadQuestion yes_deps ''q'' yes_turn) = Inr (Some question) \<and> q_confirmed question = Some True"
proof -
  have "\<exists>evs. tw_events (snd (record_outcome yes_deps clerk_thing ''pay'' ''k'' (Some spent_hash) False 0 (OValue (JStr ''paid''))
       (yes_turn\<lparr>tw_events := [EvExecute ''pay'' (JObj []) ''k'']\<rparr>))) = [EvExecute ''pay'' (JObj []) ''k''] @ evs"
    by (simp add: record_outcome_def run_basic run_turn run_modify)
  then obtain evs where "tw_events (snd (run_resolved yes_deps clerk_thing clerk pay ''pay'' (JObj []) ''k'' 0 yes_turn))
      = tw_events yes_turn @ EvExecute ''pay'' (JObj []) ''k'' # evs"
    unfolding yes_run by (auto simp: yes_turn_def still_turn_def)
  note e = this
  have n: "spent_hash \<noteq> []" by (simp add: spent_hash_def)
  have m: "EvExecute ''pay'' (JObj []) ''k'' \<in> set (EvExecute ''pay'' (JObj []) ''k'' # evs)" by simp
  from approval_required [OF pay_read_values(3) yes_hash [symmetric] n e m]
  obtain request question q where "last_match (is_request (g_name pay) spent_hash) (entry_list (tw_conv yes_turn)) = Some request"
      "q = coalesce (e_questionId request) []" "fst (loadQuestion yes_deps q yes_turn) = Inr (Some question)"
      "q_confirmed question = Some True" by blast
  moreover have "entry_list (tw_conv yes_turn) = yes_entries" by (simp add: yes_turn_def)
  ultimately show ?thesis using yes_values pay_read_values by auto
qed

theorem approval_spent_witness:
  "fst (findApproval (appendEntry 0 (result_entry ''pay'' ''paid'' ''k''\<lparr>e_argsHash := Some spent_hash\<rparr>) (tw_conv yes_turn))
     ''pay'' spent_hash (loadQuestion yes_deps) yes_turn) \<noteq> Inr (AValid ''q'')"
  by (rule approval_spent [where c = "tw_conv yes_turn" and load = "loadQuestion yes_deps" and s = yes_turn and q = "''q''"
        and t = 0 and later = "[]" and result = "result_entry ''pay'' ''paid'' ''k''\<lparr>e_argsHash := Some spent_hash\<rparr>"])
    (simp_all add: yes_find result_entry_def)

end
