(* ===== verification/LoopOutcome.thy ===== *)
theory LoopOutcome
  imports LoopSafety
begin

text \<open>
  How a call of \<open>LoopDriver.advance\<close> ends and what it leaves in the ThingStore: the result, the status,
  the lease and the count of Turns, the record and its order, the escalations, and two places where the
  code does less than it says.
\<close>

section \<open>How a Conversation ends\<close>

text \<open>
  A Conversation that has finished, and one whose lease another Runtime holds, is left exactly as
  it was loaded: nothing is written, asked, executed or sent, and the result says its status.
\<close>

theorem finished_or_leased_untouched:
  assumes "repo_get (ad_things deps) Conversation_spec ref (tw_world s) = (Inr t, w)"
    and "c = conversation_of (data t)" and "finished c \<or> held c (cl_now (ad_things deps) w)"
  shows "\<exists>note. advance deps ref s = (Inr \<lparr>ar_status = Some (coalesce (status c) Running), ar_turnsRun = 0, ar_note = note\<rparr>,
     s\<lparr>tw_world := w, tw_conv := c, tw_events := tw_events s @ [EvLoaded c]\<rparr>)"
proof (cases "finished c")
  case True
  then show ?thesis
    using assms(1,2) by (auto simp: advance_def bindE_def load_run conv_def io_defs finished_def)
next
  case False
  then have "status c \<noteq> Some Done" "status c \<noteq> Some Failed" by (auto simp: finished_def)
  with assms show ?thesis
    by (auto simp: advance_def bindE_def load_run conv_def io_defs finish_with_def result_of_def
        claimLease_held finished_def)
qed

text \<open>
  C17. When a call of \<open>advance\<close> returns, what it says is what the ThingStore holds: the Conversation as it
  stands is the one last written, its lease is released, its status is the one reported, and its Turn
  count has grown by the number of Turns reported.
\<close>

theorem result_speaks_of_the_record:
  assumes "repo_get (ad_things deps) Conversation_spec ref (tw_world s) = (Inr t, w)"
    and "c = conversation_of (data t)" and "status c = Some Running \<or> status c = Some Waiting"
    and "\<not> held c (cl_now (ad_things deps) w)" and "advance deps ref s = (Inr r, s')"
  shows "last_written (tw_events s') = Some (tw_conv s') \<and> leaseUntil (tw_conv s') = Some [] \<and>
    ar_status r = status (tw_conv s') \<and>
    coalesce (turnCount (tw_conv s')) 0 = coalesce (turnCount c) 0 + ar_turnsRun r"
proof -
  have "closed (turns c) r s'"
    by (rule advance_left [OF assms(1,2) _ assms(4) _ assms(5)]) (use assms(3) in \<open>auto simp: finished_def\<close>)
  then show ?thesis by (auto simp: closed_def written_def turns_def)
qed

text \<open>
  A Conversation whose record is full ends, and says so, without a model call or an execution: it is
  written as failed with its reason, the reason is recorded where there is room for it, and the record
  never grows past what the Model can hold.
\<close>

theorem full_conversation_ends:
  assumes "isFull (tw_conv s)" and "leased deps st s = (Inr r, s')"
  shows "ar_status r = Some Failed \<and> last_written (tw_events s') = Some (tw_conv s') \<and>
    status (tw_conv s') = Some Failed \<and> finishReason (tw_conv s') = Some Limit \<and>
    c_lastError (tw_conv s') = Some (full_reason (length (entry_list (tw_conv s)))) \<and>
    length (entry_list (tw_conv s')) \<le> max MAX_ENTRIES (length (entry_list (tw_conv s))) \<and>
    (\<exists>c. tw_events s' = tw_events s @ [EvWrote c])"
proof -
  have "wp_of (leased deps st) (\<lambda>r s'. ar_status r = Some Failed \<and> last_written (tw_events s') = Some (tw_conv s') \<and>
    status (tw_conv s') = Some Failed \<and> finishReason (tw_conv s') = Some Limit \<and>
    c_lastError (tw_conv s') = Some (full_reason (length (entry_list (tw_conv s)))) \<and>
    length (entry_list (tw_conv s')) \<le> max MAX_ENTRIES (length (entry_list (tw_conv s))) \<and>
    (\<exists>c. tw_events s' = tw_events s @ [EvWrote c])) (\<lambda>_ _. True) s"
    using assms(1) by (auto simp: leased_def endBecauseFull_def wp Let_def intro!: wp_write)
  then show ?thesis using assms(2) by (simp add: wp_of_def)
qed

text \<open>
  C39. Nothing ends silently, and asking is capped: an escalation that is returned from has put a question
  to the User, under a key of its own, and left the Conversation waiting on it, or it was one more than
  the configuration allows and the Conversation is written as failed, with the account of it.
\<close>

theorem escalation_asks_or_gives_up:
  assumes "escalateByKey deps st akey reason message s = (Inr u, s')"
  shows "last_written (tw_events s') = Some (tw_conv s') \<and>
    (let n = coalesce (escalationCount (tw_conv s)) 0 + 1 in
     escalationCount (tw_conv s') = Some n \<and>
     (if n \<le> maxEscalations deps
      then EvAsk ''perform'' (thingId st @ '':escalation:'' @ string_of_int n) \<in> set (tw_events s') \<and>
        status (tw_conv s') = Some Waiting \<and> waitingFor (tw_conv s') = Some WF_User
      else (\<exists>c. tw_events s' = tw_events s @ [EvWrote c]) \<and> status (tw_conv s') = Some Failed \<and>
        c_lastError (tw_conv s') = Some (given_up (maxEscalations deps) message)))"
proof -
  have "wp_of (escalateByKey deps st akey reason message) (\<lambda>_ s'. last_written (tw_events s') = Some (tw_conv s') \<and>
    (let n = coalesce (escalationCount (tw_conv s)) 0 + 1 in
     escalationCount (tw_conv s') = Some n \<and>
     (if n \<le> maxEscalations deps
      then EvAsk ''perform'' (thingId st @ '':escalation:'' @ string_of_int n) \<in> set (tw_events s') \<and>
        status (tw_conv s') = Some Waiting \<and> waitingFor (tw_conv s') = Some WF_User
      else (\<exists>c. tw_events s' = tw_events s @ [EvWrote c]) \<and> status (tw_conv s') = Some Failed \<and>
        c_lastError (tw_conv s') = Some (given_up (maxEscalations deps) message)))) (\<lambda>_ _. True) s"
    by (auto simp: escalateByKey_def wp Let_def intro!: wp_write wp_raise)
  then show ?thesis using assms by (simp add: wp_of_def)
qed

text \<open>
  An empty catalogue stops a Turn before it costs anything: \<open>advance\<close> throws, and nothing was written,
  asked, executed or sent, so the next scan finds the Conversation as it was.
\<close>

theorem empty_catalogue_throws:
  assumes "\<And>w. fst (repo_search (ad_things deps) Operation_spec None CATALOGUE_PAGE_SIZE [] w) = Inr []"
  shows "fst (turn_with deps st a s) = Inl (JsError ''Error'' EMPTY_CATALOGUE) \<and>
    tw_events (snd (turn_with deps st a s)) = tw_events s"
proof -
  obtain w where "repo_search (ad_things deps) Operation_spec None CATALOGUE_PAGE_SIZE [] (tw_world s) = (Inr [], w)"
    using assms [of "tw_world s"] by (metis prod.collapse)
  then show ?thesis
    by (simp add: turn_with_def loadCatalogue_def bindE_def onWorld_def setConv_def io_defs)
qed

section \<open>The record stays in order\<close>

lemma settled_with_assistant:
  assumes "settled i s" and "thingId st = i"
  shows "wp_of (with_assistant deps st a) (\<lambda>_ s. settled i s) (\<lambda>_ s. tracing i s) s"
proof -
  have off: "wp_of (bindE (setConv (\<lambda>c. c\<lparr>leaseUntil := Some []\<rparr>)) (\<lambda>_.
      bindE (write_back deps st) (\<lambda>_. finish_with Waiting 0 nt))) (\<lambda>_ s. settled i s) (\<lambda>_ s. tracing i s) s" for nt
    using assms(1) by (auto simp: wp state_defs intro!: wp_write)
  have limit: "wp_of (bindE (setConv (\<lambda>c. c\<lparr>maxTurns := x\<rparr>)) (\<lambda>_. bindE (escalate deps st a Limit m)
      (\<lambda>_. finish_with Waiting 0 nt))) (\<lambda>_ s. settled i s) (\<lambda>_ s. tracing i s) s" for x m nt
    using assms(1) by (auto simp: wp state_defs intro!: wp_mono [OF wp_escalate [unfolded state_defs]])
  show ?thesis
    unfolding with_assistant_def Let_def
    by (simp only: wp_bindE [of conv] wp_conv split: if_split)
      (intro conjI impI off limit wp_turn_with disjI1 assms)
qed

lemma settled_leased:
  assumes "settled i s" and "thingId st = i"
  shows "wp_of (leased deps st) (\<lambda>_ s. settled i s) (\<lambda>_ s. tracing i s) s"
proof -
  have full: "wp_of (bindE (endBecauseFull deps st) (\<lambda>_. returnE x)) (\<lambda>_ s. settled i s) (\<lambda>_ s. tracing i s) s" for x
    by (subst wp_bindE) (rule wp_mono [OF wp_endBecauseFull [OF assms(1)]], simp_all add: wp_basic)
  have la: "wp_of (loadAssistant deps key) (\<lambda>_ s. settled i s) (\<lambda>_ s. tracing i s) s" for key
    using assms(1) tracing_of(2) [OF assms(1)] by (auto simp: loadAssistant_def wp intro!: wp_onWorld)
  have u: "wp_of (bindE (escalateByKey deps st akey ErrorReason m) (\<lambda>_. finish_with Waiting 0 n))
      (\<lambda>_ s. settled i s) (\<lambda>_ s. tracing i s) s'" if "settled i s'" for akey m n s'
    by (subst wp_bindE) (rule wp_mono [OF wp_escalateByKey [OF that]], simp_all add: wp_finish)
  have l: "wp_of (bindE (loadAssistant deps key) (\<lambda>x. case x of
      None \<Rightarrow> bindE (escalateByKey deps st akey ErrorReason m) (\<lambda>_. finish_with Waiting 0 n)
    | Some a \<Rightarrow> with_assistant deps st a)) (\<lambda>_ s. settled i s) (\<lambda>_ s. tracing i s) s" for key akey m n
    by (subst wp_bindE, rule wp_mono [OF la])
      (auto split: option.split intro: u settled_with_assistant assms(2))
  show ?thesis
    unfolding leased_def by (simp only: wp_bindE [of conv] wp_conv split: if_split) (intro conjI impI full l)
qed

lemma settled_advance:
  assumes "tw_events s = []" and "repo_get (ad_things deps) Conversation_spec ref (tw_world s) = (Inr t, w)"
    and "record_ok (thingId t) None (conversation_of (data t))"
  shows "wp_of (advance deps ref) (\<lambda>_ s. settled (thingId t) s) (\<lambda>_ s. tracing (thingId t) s) s"
proof -
  let ?c = "conversation_of (data t)" and ?i = "thingId t"
  let ?s1 = "s\<lparr>tw_world := w, tw_conv := ?c, tw_events := tw_events s @ [EvLoaded ?c]\<rparr>"
  have s1: "settled ?i ?s1"
    using assms(1,3) trace_ok_snoc [of ?i "[]" "EvLoaded ?c"] by (simp add: settled_def)
  have st: "thingId (map_stored conversation_of t) = ?i" by simp
  have fin: "wp_of (finish_with d n m) (\<lambda>_ s. settled ?i s) (\<lambda>_ s. tracing ?i s) ?s1" for d n m
    using s1 by (simp add: wp)
  have s2: "settled ?i (?s1\<lparr>tw_conv := ?c\<lparr>leaseUntil := x\<rparr>\<rparr>)" for x using s1 by (simp add: settled_def)
  have "wp_of (leased deps (map_stored conversation_of t)) (\<lambda>_ s. settled ?i s) (\<lambda>_ s. tracing ?i s)
      (?s1\<lparr>tw_conv := ?c\<lparr>leaseUntil := x\<rparr>\<rparr>)" for x by (rule settled_leased [OF s2 st])
  then show ?thesis
    using s1 fin
    by (auto simp: advance_def wp_bindE [of "load deps ref"] wp_of_def load_run [OF assms(2)] bindE_def conv_def
        io_defs claimLease_def now_def setConv_def finish_with_def split: option.split)
qed

text \<open>
  C16. From a record without an open call, every record \<open>advance\<close> writes, at whatever point it stops, is in
  order: its entries are numbered from one, each intent carries the key of its number, and each call is
  answered before anything else is recorded; and when \<open>advance\<close> returns, no call is left open.
\<close>

theorem records_stay_in_order:
  assumes "tw_events s = []" and "repo_get (ad_things deps) Conversation_spec ref (tw_world s) = (Inr t, w)"
    and "record_ok (thingId t) None (conversation_of (data t))"
  shows "(\<forall>c. EvWrote c \<in> set (tw_events (snd (advance deps ref s))) \<longrightarrow> (\<exists>k. record_ok (thingId t) k c)) \<and>
    (\<forall>r s'. advance deps ref s = (Inr r, s') \<longrightarrow> record_ok (thingId t) None (tw_conv s'))"
proof -
  note wp = settled_advance [OF assms]
  have "trace_ok (thingId t) (tw_events (snd (advance deps ref s)))"
    using wp_final [OF wp_mono [OF wp, of "\<lambda>_. tracing (thingId t)" "\<lambda>_. tracing (thingId t)"]]
    by (simp add: tracing_def [symmetric] tracing_of)
  then have "in_order (thingId t) c" if "EvWrote c \<in> set (tw_events (snd (advance deps ref s)))" for c
    using that unfolding trace_ok_def in_set_conv_decomp by (metis event_ok_simps(1))
  moreover have "record_ok (thingId t) None (tw_conv s')" if "advance deps ref s = (Inr r, s')" for r s'
    using wp that by (simp add: wp_of_def settled_def)
  ultimately show ?thesis by (auto simp: in_order_def)
qed

text \<open>
  C15. Recovery puts the record back in order: a Turn on a record with an interrupted call writes only
  records in order, and when it returns, whatever the Operation, the model and the ThingStore did, the
  interrupted call has its result and no call is open.
\<close>

theorem recovery_settles_the_record:
  assumes "tw_events s = []" and "record_ok (thingId st) (Some key) (tw_conv s)"
  shows "(\<forall>c. EvWrote c \<in> set (tw_events (snd (turn_with deps st a s))) \<longrightarrow> (\<exists>k. record_ok (thingId st) k c)) \<and>
    (\<forall>r s'. turn_with deps st a s = (Inr r, s') \<longrightarrow> record_ok (thingId st) None (tw_conv s'))"
proof -
  let ?i = "thingId st"
  have "opened ?i key s" using assms by (simp add: opened_def)
  then have wp: "wp_of (turn_with deps st a) (\<lambda>_ s. settled ?i s) (\<lambda>_ s. tracing ?i s) s"
    by (intro wp_turn_with [where key = key]) simp_all
  have "tracing ?i (snd (turn_with deps st a s))"
    using wp_final [OF wp_mono [OF wp, of "\<lambda>_. tracing ?i" "\<lambda>_. tracing ?i"]] by (simp add: tracing_of)
  then have "in_order ?i c" if "EvWrote c \<in> set (tw_events (snd (turn_with deps st a s)))" for c
    using that unfolding tracing_def trace_ok_def in_set_conv_decomp by (metis event_ok_simps(1))
  moreover have "record_ok ?i None (tw_conv s')" if "turn_with deps st a s = (Inr r, s')" for r s'
    using wp that by (simp add: wp_of_def settled_def)
  ultimately show ?thesis by (auto simp: in_order_def)
qed

section \<open>Where the record does not stay in order\<close>

text \<open>Read up to an open call, the messages wait for its result.\<close>

lemma answered_open:
  "scan st es = Some (Some k) \<Longrightarrow>
     answered (case st of None \<Rightarrow> [] | Some k \<Rightarrow> [k]) (concat (map entry_messages es) @ ms) = answered [k] ms"
proof (induction es arbitrary: st)
  case Nil
  then show ?case by simp
next
  case (Cons e es)
  then obtain st1 where s1: "scan_entry st e = Some st1" and s2: "scan st1 es = Some (Some k)"
    by (auto split: option.splits)
  note ih = Cons.IH [OF s2]
  show ?case
  proof (cases st)
    case None
    show ?thesis
    proof (cases "is_intent e")
      case True
      with None s1 obtain k' where "e_idempotencyKey e = Some k'" "st1 = Some k'"
        by (auto simp: scan_entry_def)
      with entry_messages_intent [OF True] ih None show ?thesis by force
    next
      case False
      with None s1 have "\<not> is_result e" "st1 = None" by (auto simp: scan_entry_def split: if_splits)
      with entry_messages_plain [OF False] ih None show ?thesis by auto
    qed
  next
    case (Some k')
    show ?thesis
    proof (cases "is_result e")
      case True
      with Some s1 have "e_idempotencyKey e = Some k'" "st1 = None" by (auto simp: scan_entry_def split: if_splits)
      with entry_messages_result [OF True] ih Some show ?thesis by force
    next
      case False
      with Some s1 have "e_kind e = Some ''approval-request''" "\<not> truthy (e_text e)" "st1 = Some k'"
        by (auto simp: scan_entry_def split: if_splits)
      with entry_messages_request ih Some show ?thesis by simp
    qed
  qed
qed

text \<open>An error recorded while a call is open is never made good, whatever is recorded later.\<close>

lemma error_in_open_call:
  assumes "record_ok i (Some k) c"
  shows "\<not> answered [] (buildMessages a (c'\<lparr>entries := Some (entry_list (appendEntry t (error_entry m) c) @ later)\<rparr>))"
proof -
  let ?e = "(error_entry m)\<lparr>e_seq := Some (nextSeq c), e_at := Some (nowIso t)\<rparr>"
  have e: "entry_messages ?e = [plain_message ''user'' m]"
    by (simp add: error_entry_def entry_messages_def blank_entry_def Let_def)
  have "scan None (entry_list c) = Some (Some k)" using assms by (simp add: record_ok_def)
  from answered_open [OF this, of "plain_message ''user'' m # concat (map entry_messages later)"]
  show ?thesis by (simp add: buildMessages_def plain_message_def e [unfolded plain_message_def])
qed

text \<open>
  The guard on the number of Turns stands before recovery, and records its error between an
  interrupted call and the result recovery gives it later. From then on no continuation of the record
  yields messages a provider accepts, so the Turns granted by the User's answer cannot reach the model.
\<close>

theorem turn_limit_spoils_an_interrupted_record:
  assumes "record_ok (thingId st) (Some key) (tw_conv s)" and "a_enabled (data a) \<noteq> Some False"
    and "turn_limit (tw_conv s) (data a) \<le> coalesce (turnCount (tw_conv s)) 0"
    and "with_assistant deps st a s = (Inr r, s')"
  shows "\<not> answered [] (buildMessages b ((tw_conv s')\<lparr>entries := Some (entry_list (tw_conv s') @ later)\<rparr>))"
proof -
  let ?t = "cl_now (ad_things deps) (tw_world s)"
  define m where "m = turn_limit (tw_conv s) (data a)"
  define c where "c = (tw_conv s)\<lparr>maxTurns := Some (m + TURN_GRANT_ON_ESCALATION)\<rparr>"
  have "wp_of (escalate deps st a Limit (turns_exhausted m)) (\<lambda>_ s'. entry_list (tw_conv s') =
      entry_list (appendEntry ?t (error_entry (turns_exhausted m)) c)) (\<lambda>_ _. True) (s\<lparr>tw_conv := c\<rparr>)"
    by (auto simp: escalate_def escalateByKey_def wp Let_def nextSeq_def intro!: wp_write wp_raise)
  then have "wp_of (with_assistant deps st a) (\<lambda>_ s'. entry_list (tw_conv s') =
      entry_list (appendEntry ?t (error_entry (turns_exhausted m)) c)) (\<lambda>_ _. True) s"
    using assms(2,3)
    by (simp add: with_assistant_def Let_def wp_bindE wp_conv wp_setConv m_def [symmetric] c_def [symmetric])
      (rule wp_mono, auto simp: wp_finish)
  then have "entry_list (tw_conv s') = entry_list (appendEntry ?t (error_entry (turns_exhausted m)) c)"
    using assms(4) by (auto simp: wp_of_def)
  moreover have "record_ok (thingId st) (Some key) c" using assms(1) by (simp add: c_def)
  ultimately show ?thesis using error_in_open_call by metis
qed

section \<open>Applied\<close>

lemma clerk_get:
  "repo_get (ad_things clerk_deps) Conversation_spec ''Conversation_DM/c'' w = (Inr \<lparr>docRef = ''Conversation_DM/c'',
     thingId = ''c'', model = ''Conversation_DM'',
     data = fromDocument Conversation_spec (toDocument Conversation_spec (conversation_data started))\<rparr>, w)"
  by (simp add: clerk_deps_def still_get thingIdOf_def after_char_def)

definition ended :: conversation where
  "ended = started\<lparr>status := Some Done\<rparr>"

theorem finished_or_leased_untouched_witness:
  "\<exists>note. advance (still_deps ended [] (Inl (Thrown ''no model''))) ''Conversation_DM/c'' still_turn
     = (Inr \<lparr>ar_status = Some Done, ar_turnsRun = 0, ar_note = note\<rparr>,
        still_turn\<lparr>tw_world := (), tw_conv := ended, tw_events := [EvLoaded ended]\<rparr>)"
  using finished_or_leased_untouched [OF still_get [of ended "[]" "Inl (Thrown ''no model'')" "''Conversation_DM/c''"], of ended still_turn]
  by (simp add: conversation_stored finished_def ended_def still_turn_def)

theorem result_speaks_of_the_record_witness:
  "\<exists>r s'. advance clerk_deps ''Conversation_DM/c'' still_turn = (Inr r, s') \<and> ar_status r = status (tw_conv s') \<and>
     coalesce (turnCount (tw_conv s')) 0 = ar_turnsRun r"
proof -
  obtain r s' where run: "advance clerk_deps ''Conversation_DM/c'' still_turn = (Inr r, s')"
    using run_read unfolding clerk_deps_def by blast
  have "\<not> held started (cl_now (ad_things clerk_deps) ())"
    by (simp add: held_def parseIso_def started_fields)
  with result_speaks_of_the_record [OF clerk_get _ _ _ run, of started]
  show ?thesis using run by (simp add: conversation_stored started_fields started_open)
qed

definition crowded :: conversation where
  "crowded = started\<lparr>entries := Some (replicate 96 (prompt_entry 1 ''go''))\<rparr>"

theorem full_conversation_ends_witness:
  "\<exists>r s'. leased clerk_deps clerk_thing (still_turn\<lparr>tw_conv := crowded\<rparr>) = (Inr r, s') \<and>
     ar_status r = Some Failed \<and> length (entry_list (tw_conv s')) \<le> 100"
proof -
  have n: "length (entry_list crowded) = 96" by (simp add: crowded_def)
  have f: "isFull (tw_conv (still_turn\<lparr>tw_conv := crowded\<rparr>))"
    by (simp add: isFull_def n MAX_ENTRIES_def ENTRY_HEADROOM_def)
  have "\<exists>r s'. leased clerk_deps clerk_thing (still_turn\<lparr>tw_conv := crowded\<rparr>) = (Inr r, s')"
    using f by (simp add: leased_def endBecauseFull_def run_steps n MAX_ENTRIES_def clerk_deps_def)
  then obtain r s' where run: "leased clerk_deps clerk_thing (still_turn\<lparr>tw_conv := crowded\<rparr>) = (Inr r, s')" by blast
  from full_conversation_ends [OF f run] run show ?thesis by (auto simp: n MAX_ENTRIES_def)
qed

theorem escalation_asks_or_gives_up_witness:
  "\<exists>u s'. escalateByKey clerk_deps clerk_thing ''clerk'' Limit ''stuck'' (still_turn\<lparr>tw_conv := started\<rparr>) = (Inr u, s') \<and>
     EvAsk ''perform'' ''c:escalation:1'' \<in> set (tw_events s')"
proof -
  have n: "escalationCount started = None" by (simp add: started_def blank_conversation_def)
  have "\<exists>u s'. escalateByKey clerk_deps clerk_thing ''clerk'' Limit ''stuck'' (still_turn\<lparr>tw_conv := started\<rparr>) = (Inr u, s')"
    by (simp add: escalateByKey_def raise_def run_steps n clerk_deps_def)
  then obtain u s' where run: "escalateByKey clerk_deps clerk_thing ''clerk'' Limit ''stuck'' (still_turn\<lparr>tw_conv := started\<rparr>) = (Inr u, s')"
    by blast
  have one: "string_of_int 1 = ''1''" by code_simp
  from escalation_asks_or_gives_up [OF run] run show ?thesis
    by (auto simp: n clerk_thing_def clerk_deps_def still_simps Let_def one)
qed

definition bare_deps :: "unit advance_deps" where
  "bare_deps = clerk_deps\<lparr>ad_things := (still_client started [])\<lparr>cl_query := (\<lambda>q. returnE [])\<rparr>\<rparr>"

theorem empty_catalogue_throws_witness:
  "fst (turn_with bare_deps clerk_thing clerk clerk_turn) = Inl (JsError ''Error'' EMPTY_CATALOGUE)"
proof -
  have "fst (repo_search (ad_things bare_deps) Operation_spec None CATALOGUE_PAGE_SIZE [] w) = Inr []" for w
    by (simp add: repo_search_def bare_deps_def run_basic)
  then show ?thesis using empty_catalogue_throws [of bare_deps] by blast
qed

lemma started_in_order: "record_ok ''c'' None started"
  by code_simp

theorem records_stay_in_order_witness:
  "\<exists>r s'. advance clerk_deps ''Conversation_DM/c'' still_turn = (Inr r, s') \<and> record_ok ''c'' None (tw_conv s')"
proof -
  obtain r s' where run: "advance clerk_deps ''Conversation_DM/c'' still_turn = (Inr r, s')"
    using run_read unfolding clerk_deps_def by blast
  from records_stay_in_order [OF still_turn_empty clerk_get] run show ?thesis
    by (auto simp: conversation_stored started_in_order)
qed

definition interrupted :: conversation where
  "interrupted = started\<lparr>entries := Some [prompt_entry 1 ''go'',
     (intent_entry ''ok'' ''read'' (JObj []) (call_key ''c'' 2))\<lparr>e_seq := Some 2\<rparr>]\<rparr>"

lemma interrupted_open: "record_ok ''c'' (Some (call_key ''c'' 2)) interrupted"
  by code_simp

theorem turn_limit_spoils_an_interrupted_record_witness:
  "\<exists>r s'. with_assistant clerk_deps clerk_thing clerk (still_turn\<lparr>tw_conv := interrupted\<lparr>maxTurns := Some 3, turnCount := Some 3\<rparr>\<rparr>) = (Inr r, s') \<and>
     \<not> answered [] (buildMessages (data clerk) ((tw_conv s')\<lparr>entries := Some (entry_list (tw_conv s') @
         [result_entry ''read'' ''done'' (call_key ''c'' 2)])\<rparr>))"
proof -
  let ?c = "interrupted\<lparr>maxTurns := Some 3, turnCount := Some 3\<rparr>"
  let ?s = "still_turn\<lparr>tw_conv := ?c\<rparr>"
  have n: "escalationCount ?c = None" "maxTurns ?c = Some 3"
    by (simp_all add: interrupted_def started_def blank_conversation_def)
  have l: "turn_limit ?c (data clerk) = 3" by (simp add: turn_limit_def)
  have "\<exists>r s'. with_assistant clerk_deps clerk_thing clerk ?s = (Inr r, s')"
    by (simp add: with_assistant_def escalate_def escalateByKey_def raise_def finish_with_def run_steps n l clerk_deps_def
        clerk_values turn_limit_def)
  then obtain r s' where run: "with_assistant clerk_deps clerk_thing clerk ?s = (Inr r, s')" by blast
  have "record_ok (thingId clerk_thing) (Some (call_key ''c'' 2)) (tw_conv ?s)"
    using interrupted_open by (simp add: clerk_thing_def)
  from turn_limit_spoils_an_interrupted_record [OF this _ _ run] run show ?thesis
    by (auto simp: clerk_values l)
qed

section \<open>The room kept back\<close>

definition nearly_full :: conversation where
  "nearly_full = started\<lparr>entries := Some (map (\<lambda>n. prompt_entry n ''go'') [1..95])\<rparr>"

lemma nearly_fields:
  "status nearly_full = Some Running" "leaseUntil nearly_full = None" "assistantKey nearly_full = Some ''clerk''"
  "maxTurns nearly_full = None" "turnCount nearly_full = None" "length (entry_list nearly_full) = 95"
  by (simp_all add: nearly_full_def started_def blank_conversation_def)

lemma nearly_open: "unresolvedIntent nearly_full = None"
proof -
  have "filter is_intent (entry_list nearly_full) = []"
    by (auto simp: nearly_full_def filter_empty_conv is_intent_def prompt_entry_def blank_entry_def)
  then show ?thesis by (simp add: unresolvedIntent_alt)
qed

lemma nearly_start:
  "advance (still_deps nearly_full [assistant_doc] r) ''Conversation_DM/c'' still_turn
   = turn_with (still_deps nearly_full [assistant_doc] r)
      \<lparr>docRef = ''Conversation_DM/c'', thingId = ''c'', model = ''Conversation_DM'', data = nearly_full\<rparr> clerk
      \<lparr>tw_world = (), tw_conv = nearly_full\<lparr>leaseUntil := Some (nowIso 60000)\<rparr>, tw_events = [EvLoaded nearly_full]\<rparr>"
  by (simp add: advance_def run_basic run_turn still_load still_turn_def nearly_fields claimLease_def parseIso_def
     still_simps leased_def isFull_def MAX_ENTRIES_def ENTRY_HEADROOM_def still_assistant with_assistant_def
     clerk_values turn_limit_def Let_def thingIdOf_def after_char_def)

lemma read_call_grows:
  "\<exists>cost' s'. run_call (still_deps c0 as r) st a \<lparr>granted = [pay, read], dropped = []\<rparr> response
      \<lparr>tc_id = i, tc_name = ''read'', tc_arguments = args\<rparr> cost s = (Inr (None, cost'), s') \<and>
    length (entry_list (tw_conv s')) = length (entry_list (tw_conv s)) + 2"
  by (cases cost) (simp_all add: run_steps run_call_def record_intent_def call_values run_resolved_def execute_call_def
      pay_read_values record_outcome_def)

lemma read_calls_grow:
  "\<exists>s'. run_calls (still_deps c0 as r) st a \<lparr>granted = [pay, read], dropped = []\<rparr> response
      (replicate n \<lparr>tc_id = i, tc_name = ''read'', tc_arguments = args\<rparr>) cost s = (Inr None, s') \<and>
    length (entry_list (tw_conv s')) = length (entry_list (tw_conv s)) + 2 * n"
proof (induction n arbitrary: cost s)
  case 0
  then show ?case by (simp add: run_basic)
next
  case (Suc n)
  obtain cost' s1 where c: "run_call (still_deps c0 as r) st a \<lparr>granted = [pay, read], dropped = []\<rparr> response
      \<lparr>tc_id = i, tc_name = ''read'', tc_arguments = args\<rparr> cost s = (Inr (None, cost'), s1)"
    "length (entry_list (tw_conv s1)) = length (entry_list (tw_conv s)) + 2" using read_call_grows by blast
  obtain s2 where "run_calls (still_deps c0 as r) st a \<lparr>granted = [pay, read], dropped = []\<rparr> response
      (replicate n \<lparr>tc_id = i, tc_name = ''read'', tc_arguments = args\<rparr>) (Some cost') s1 = (Inr None, s2)"
    "length (entry_list (tw_conv s2)) = length (entry_list (tw_conv s1)) + 2 * n" using Suc.IH by blast
  with c show ?case by (simp add: run_basic)
qed

lemma act_on_reads:
  assumes "r_finishReason response = LWantsTools"
    and "r_toolCalls response = replicate n \<lparr>tc_id = i, tc_name = ''read'', tc_arguments = args\<rparr>"
  shows "\<exists>result s'. act_on_response (still_deps c0 as r) st a \<lparr>granted = [pay, read], dropped = []\<rparr> response s = (Inr result, s') \<and>
      EvWrote (tw_conv s') \<in> set (tw_events s') \<and>
      length (entry_list (tw_conv s')) = length (entry_list (tw_conv s)) + 2 * n"
proof -
  let ?s = "s\<lparr>tw_conv := (tw_conv s)\<lparr>turnCount := Some (coalesce (turnCount (tw_conv s)) 0 + 1)\<rparr>\<rparr>"
  obtain s' where "run_calls (still_deps c0 as r) st a \<lparr>granted = [pay, read], dropped = []\<rparr> response
      (replicate n \<lparr>tc_id = i, tc_name = ''read'', tc_arguments = args\<rparr>) None ?s = (Inr None, s')"
    "length (entry_list (tw_conv s')) = length (entry_list (tw_conv ?s)) + 2 * n" using read_calls_grow by blast
  then show ?thesis using assms by (simp add: act_on_response_def run_steps)
qed

lemma calls_response_values:
  "r_finishReason (calls_response ns) = LWantsTools"
  "r_toolCalls (calls_response (replicate n ''read''))
     = replicate n \<lparr>tc_id = ''read'', tc_name = ''read'', tc_arguments = JObj []\<rparr>"
  by (simp_all add: calls_response_def)

lemma act_on_one_read:
  "\<exists>result s'. act_on_response (still_deps c0 as r) st a \<lparr>granted = [pay, read], dropped = []\<rparr>
     (calls_response [''read'']) s = (Inr result, s')"
  using act_on_reads [OF calls_response_values(1) calls_response_values(2) [of 1]] by fastforce

lemma act_on_three_reads:
  assumes "length (entry_list (tw_conv s)) = 95"
  shows "\<exists>c. EvWrote c \<in> set (tw_events (snd (act_on_response (still_deps c0 as r) st a
      \<lparr>granted = [pay, read], dropped = []\<rparr> (calls_response (replicate 3 ''read'')) s))) \<and>
    MAX_ENTRIES < length (entry_list c)"
proof -
  obtain result s' where "act_on_response (still_deps c0 as r) st a \<lparr>granted = [pay, read], dropped = []\<rparr>
      (calls_response (replicate 3 ''read'')) s = (Inr result, s')" "EvWrote (tw_conv s') \<in> set (tw_events s')"
      "length (entry_list (tw_conv s')) = length (entry_list (tw_conv s)) + 2 * 3"
    using act_on_reads [OF calls_response_values(1) calls_response_values(2) [of 3]] by blast
  then show ?thesis using assms by (intro exI [of _ "tw_conv s'"]) (simp add: MAX_ENTRIES_def)
qed

text \<open>
  The room kept back does not bound what a Turn records: a Conversation of 95 entries passes the
  guard on its size, and one answer of the model with three calls makes \<open>advance\<close> write a record of more
  entries than the Model holds.
\<close>

theorem headroom_can_be_overrun:
  "\<not> isFull nearly_full \<and>
   (\<exists>c. EvWrote c \<in> set (tw_events (snd (advance (still_deps nearly_full [assistant_doc]
        (Inr (calls_response (replicate 3 ''read'')))) ''Conversation_DM/c'' still_turn))) \<and>
      MAX_ENTRIES < length (entry_list c))"
proof
  show "\<not> isFull nearly_full" by (simp add: isFull_def nearly_fields MAX_ENTRIES_def ENTRY_HEADROOM_def)
  show "\<exists>c. EvWrote c \<in> set (tw_events (snd (advance (still_deps nearly_full [assistant_doc]
        (Inr (calls_response (replicate 3 ''read'')))) ''Conversation_DM/c'' still_turn))) \<and>
      MAX_ENTRIES < length (entry_list c)"
    by (subst nearly_start, simp only: deployed_turn deployed_model, simp add: run_steps deployed_model recover_none
        unresolved_upd nearly_open del: replicate.simps) (rule act_on_three_reads, simp add: nearly_fields)
qed

section \<open>A recovery, applied\<close>

lemma interrupted_intent:
  "unresolvedIntent interrupted = Some (hd (tl (entry_list interrupted)))"
  "e_toolName (hd (tl (entry_list interrupted))) = Some ''read''"
  by code_simp+

lemma recover_interrupted:
  assumes "unresolvedIntent (tw_conv s) = Some intent" and "e_toolName intent = Some ''read''"
  shows "\<exists>s'. recover (still_deps c0 as r) st a \<lparr>granted = [pay, read], dropped = []\<rparr> s = (Inr None, s')"
proof -
  have "\<not> g_mutating read" by (simp add: read_def resolve_def read_implementation_def)
  then show ?thesis
    using assms pay_read_values
    by (simp add: recover_def reconcile_def settle_def run_steps)
qed

theorem recovery_settles_the_record_witness:
  "\<exists>r s'. turn_with clerk_deps clerk_thing clerk (still_turn\<lparr>tw_conv := interrupted\<rparr>) = (Inr r, s') \<and>
     record_ok ''c'' None (tw_conv s')"
proof -
  let ?s = "still_turn\<lparr>tw_conv := interrupted\<rparr>"
  let ?s1 = "?s\<lparr>tw_conv := interrupted\<lparr>status := Some Running, waitingFor := Some WF_None\<rparr>\<rparr>"
  have u: "unresolvedIntent (tw_conv ?s1) = Some (hd (tl (entry_list interrupted)))"
    by (simp add: unresolved_upd interrupted_intent)
  obtain s2 where r: "recover clerk_deps clerk_thing clerk \<lparr>granted = [pay, read], dropped = []\<rparr> ?s1 = (Inr None, s2)"
    using recover_interrupted [OF u interrupted_intent(2)] unfolding clerk_deps_def by blast
  have "turn_with clerk_deps clerk_thing clerk ?s = take_turn clerk_deps clerk_thing clerk \<lparr>granted = [pay, read], dropped = []\<rparr> s2"
    using r unfolding clerk_deps_def by (simp add: deployed_turn run_basic)
  moreover obtain r s' where "take_turn clerk_deps clerk_thing clerk \<lparr>granted = [pay, read], dropped = []\<rparr> s2 = (Inr r, s')"
    using act_on_one_read unfolding clerk_deps_def deployed_model by blast
  ultimately have run: "turn_with clerk_deps clerk_thing clerk ?s = (Inr r, s')" by simp
  have "record_ok (thingId clerk_thing) (Some (call_key ''c'' 2)) (tw_conv ?s)" "tw_events ?s = []"
    using interrupted_open by (simp_all add: clerk_thing_def still_turn_def)
  with recovery_settles_the_record [of ?s clerk_thing] run show ?thesis by (auto simp: clerk_thing_def)
qed

end
