(* ===== verification/Inbound.thy ===== *)
theory Inbound
  imports Registry Things
begin

text \<open>
  The door outward: what a client may ask the Runtime to execute (\<open>runtime/src/inbound/gate.ts\<close>) and the
  route that lets it ask (\<open>inbound/server.ts\<close>). A request is what \<open>node:http\<close> and the \<open>URL\<close> class hand to
  the handler: a method, a path, the secret's header and the chunks of a body. The socket, the listener
  and the log are left out; an answer is a status and a JSON body.
\<close>

section \<open>The gate\<close>

datatype 'w verdict =
    Allowed "json \<Rightarrow> op_context \<Rightarrow> ('w, outcome) io" "'w operation_implementation option"
  | Refused

definition decide :: "string \<Rightarrow> 'w registry \<Rightarrow> string list \<Rightarrow> operation option \<Rightarrow> 'w verdict" where
  "decide key rg allowlist thing =
     (if key \<notin> set allowlist then Refused
      else
        let implementation = rg_get rg key;
            dynamic = (case thing of Some t \<Rightarrow> o_implementation t = Some Dynamic | None \<Rightarrow> False)
        in if \<not> dynamic then
          (case implementation of
             None \<Rightarrow> Refused
           | Some imp \<Rightarrow>
               if \<not> i_clientReadable imp then Refused
               else if i_mutating imp then Refused
               else if sd_requiresApproval (i_seed imp) = Some True then Refused
               else Allowed (i_execute imp) (Some imp))
        else if implementation \<noteq> None then Refused
        else if o_clientReadable (the thing) \<noteq> Some True then Refused
        else if o_mutating (the thing) = Some True then Refused
        else if o_requiresApproval (the thing) = Some True then Refused
        else (case clientExecutable rg (the thing) of
                None \<Rightarrow> Refused
              | Some executable \<Rightarrow> Allowed (g_execute executable) None))"

section \<open>Requests\<close>

datatype body_end = BodyEnded | BodyBroken

record request =
  rq_method :: string
  rq_pathname :: string
  rq_secret :: "string option"
  rq_chunks :: "string list"
  rq_end :: body_end

record response =
  rs_status :: nat
  rs_body :: json

record 'w inbox_options =
  ib_secret :: string
  ib_allowlist :: "string list"
  ib_registry :: "'w registry"
  ib_things :: "'w a12_client option"

definition MAX_BODY_BYTES :: nat where
  "MAX_BODY_BYTES = 64 * 1024"

datatype body_error = BodyTooLarge | Unreadable

text \<open>The body, counted in bytes chunk by chunk; \<open>read\<close> is what was kept so far.\<close>

fun readBody :: "string \<Rightarrow> string list \<Rightarrow> body_end \<Rightarrow> body_error + string" where
  "readBody read [] BodyEnded = Inr read"
| "readBody read [] BodyBroken = Inl Unreadable"
| "readBody read (chunk # chunks) e =
     (if MAX_BODY_BYTES < length read + length chunk then Inl BodyTooLarge
      else readBody (read @ chunk) chunks e)"

text \<open>
  \<open>typeof v === "object"\<close> and not null: an object or an array. The arguments of a call are an object, or
  an array, which has no named property.
\<close>

definition is_object :: "json \<Rightarrow> bool" where
  "is_object v = (case v of JObj _ \<Rightarrow> True | JArr _ \<Rightarrow> True | _ \<Rightarrow> False)"

definition parseArgs :: "string \<Rightarrow> body_error + json" where
  "parseArgs body =
     (case (if body = [] then Some (JObj []) else json_parse body) of
        None \<Rightarrow> Inl Unreadable
      | Some parsed \<Rightarrow>
          if \<not> is_object parsed then Inl Unreadable
          else (let given = pget (obj_props parsed) ''args'';
                    args = (if given = JUndef \<or> given = JNull then JObj [] else given)
                in if is_object args then Inr args else Inl Unreadable))"

definition secretMatches :: "string option \<Rightarrow> string \<Rightarrow> bool" where
  "secretMatches presented expected \<longleftrightarrow>
     (case presented of None \<Rightarrow> False | Some p \<Rightarrow> expected \<noteq> [] \<and> length p = length expected \<and> p = expected)"

subsection \<open>Undoing the escapes of a path\<close>

text \<open>How many bytes a UTF-8 sequence has, by its first byte.\<close>

definition utf8_width :: "nat \<Rightarrow> nat option" where
  "utf8_width b =
     (if b < 128 then Some 1 else if 192 \<le> b \<and> b < 224 then Some 2
      else if 224 \<le> b \<and> b < 240 then Some 3 else if 240 \<le> b \<and> b < 248 then Some 4 else None)"

definition escaped_byte :: "string \<Rightarrow> (nat \<times> string) option" where
  "escaped_byte s = (case s of
     p # a # b # rest \<Rightarrow>
       if p = CHR 0x25 then
         (case (hex_val a, hex_val b) of (Some x, Some y) \<Rightarrow> Some (16 * x + y, rest) | _ \<Rightarrow> None)
       else None
   | _ \<Rightarrow> None)"

text \<open>\<open>n\<close> escaped continuation bytes, and the code point they extend.\<close>

fun continuation :: "nat \<Rightarrow> nat \<Rightarrow> string \<Rightarrow> (nat \<times> string) option" where
  "continuation 0 point s = Some (point, s)"
| "continuation (Suc n) point s =
     (case escaped_byte s of
        None \<Rightarrow> None
      | Some (b, rest) \<Rightarrow> if 128 \<le> b \<and> b < 192 then continuation n (64 * point + (b - 128)) rest else None)"

text \<open>The first byte's share of the code point, and the smallest code point that needs the width.\<close>

definition lead_bits :: "nat \<Rightarrow> nat \<Rightarrow> nat" where
  "lead_bits width b = (if width = 1 then b else if width = 2 then b - 192 else if width = 3 then b - 224 else b - 240)"

definition valid_point :: "nat \<Rightarrow> nat \<Rightarrow> bool" where
  "valid_point width point \<longleftrightarrow>
     (if width = 1 then True else if width = 2 then 128 \<le> point
      else if width = 3 then 2048 \<le> point \<and> \<not> (55296 \<le> point \<and> point < 57344)
      else 65536 \<le> point \<and> point \<le> 1114111)"

lemma escaped_byte_shorter: "escaped_byte s = Some (b, rest) \<Longrightarrow> length rest < length s"
  by (auto simp: escaped_byte_def split: list.splits if_splits option.splits)

lemma continuation_shorter: "continuation n point s = Some (p, rest) \<Longrightarrow> length rest \<le> length s"
proof (induction n point s rule: continuation.induct)
  case (1 point s)
  then show ?case by simp
next
  case (2 n point s)
  then show ?case
    by (fastforce split: option.splits if_splits dest!: escaped_byte_shorter)
qed

text \<open>
  \<open>decodeURIComponent\<close>: an escape opens one whole UTF-8 sequence; anything else is a \<open>URIError\<close>.
\<close>

function decodeURIComponent :: "string \<Rightarrow> string option" where
  "decodeURIComponent s =
     (case s of
        [] \<Rightarrow> Some []
      | c # cs \<Rightarrow>
          if c \<noteq> CHR 0x25 then map_option (\<lambda>r. c # r) (decodeURIComponent cs)
          else (case escaped_byte s of
                  None \<Rightarrow> None
                | Some (b, rest) \<Rightarrow>
                    (case utf8_width b of
                       None \<Rightarrow> None
                     | Some width \<Rightarrow>
                         (case continuation (width - 1) (lead_bits width b) rest of
                            None \<Rightarrow> None
                          | Some (point, rest') \<Rightarrow>
                              if valid_point width point
                              then map_option (\<lambda>r. utf8 point @ r) (decodeURIComponent rest') else None))))"
  by pat_completeness auto
termination
proof (relation "measure length")
  fix s :: string and c cs a b rest width d point rest'
  assume "escaped_byte s = Some a" "(b, rest) = a" "continuation (width - 1) (lead_bits width b) rest = Some d"
    "(point, rest') = d"
  then show "(rest', s) \<in> measure length"
    using escaped_byte_shorter [of s b rest] continuation_shorter [of "width - 1" "lead_bits width b" rest point rest']
    by auto
qed auto

declare decodeURIComponent.simps [simp del]

section \<open>The route\<close>

definition refusal :: "nat \<Rightarrow> string \<Rightarrow> response" where
  "refusal code reason = \<lparr>rs_status = code, rs_body = JObj [(''ok'', JBool False), (''reason'', JStr reason)]\<rparr>"

definition outcome_json :: "outcome \<Rightarrow> json" where
  "outcome_json r = (case r of
     OValue v \<Rightarrow> JObj [(''kind'', JStr ''value''), (''value'', v)]
   | OError m \<Rightarrow> JObj [(''kind'', JStr ''error''), (''message'', JStr m)]
   | OPending wfor wake qid hint \<Rightarrow> JObj [(''kind'', JStr ''pending''), (''waitingFor'', JStr (waiting_name wfor)),
       (''wakeAt'', j_str wake), (''questionId'', j_str qid), (''note'', j_str hint)])"

datatype lookup = Found "operation option" | AmbiguousKey

definition findOperation :: "'w a12_client \<Rightarrow> string \<Rightarrow> ('w, lookup) io" where
  "findOperation things key =
     bindE (attemptE (repo_search things Operation_spec (Some (eq (fieldPath Operation_spec ''key'') (JStr key))) 2 []))
       (\<lambda>r. returnE (case r of
          Inl _ \<Rightarrow> Found None
        | Inr found \<Rightarrow>
            if 1 < length found then AmbiguousKey
            else Found (case found of [] \<Rightarrow> None | t # _ \<Rightarrow> Some (operation_of (data t)))))"

text \<open>
  An execution through the door has no Conversation behind it: the code passes \<open>undefined\<close> as the
  context, and \<open>nobody\<close> stands for that value, whatever it is.
\<close>

definition execute_for :: "op_context \<Rightarrow> (json \<Rightarrow> op_context \<Rightarrow> ('w, outcome) io) \<Rightarrow> json \<Rightarrow> ('w, response) io" where
  "execute_for nobody execute args =
     bindE (attemptE (execute args nobody)) (\<lambda>r. returnE (case r of
        Inl _ \<Rightarrow> refusal 502 ''operation-failed''
      | Inr v \<Rightarrow> \<lparr>rs_status = 200, rs_body = JObj [(''ok'', JBool True), (''outcome'', outcome_json v)]\<rparr>))"

definition handle_call :: "op_context \<Rightarrow> 'w inbox_options \<Rightarrow> request \<Rightarrow> string \<Rightarrow> operation option \<Rightarrow> ('w, response) io" where
  "handle_call nobody opts rq key thing =
     (case decide key (ib_registry opts) (ib_allowlist opts) thing of
        Refused \<Rightarrow> returnE (refusal 403 ''not-allowed'')
      | Allowed execute _ \<Rightarrow>
          if ib_things opts \<noteq> None \<and> (case thing of None \<Rightarrow> True | Some t \<Rightarrow> o_enabled t = Some False)
          then returnE (refusal 403 ''not-allowed'')
          else (case readBody [] (rq_chunks rq) (rq_end rq) of
                  Inl BodyTooLarge \<Rightarrow> returnE (refusal 413 ''too-large'')
                | Inl Unreadable \<Rightarrow> returnE (refusal 400 ''bad-request'')
                | Inr body \<Rightarrow>
                    (case parseArgs body of
                       Inl _ \<Rightarrow> returnE (refusal 400 ''bad-request'')
                     | Inr args \<Rightarrow> execute_for nobody execute args)))"

definition route_prefix :: string where
  "route_prefix = ''/operations/''"

definition handle :: "op_context \<Rightarrow> 'w inbox_options \<Rightarrow> request \<Rightarrow> ('w, response) io" where
  "handle nobody opts rq =
     (if rq_method rq = ''GET'' \<and> rq_pathname rq = ''/healthz''
      then returnE \<lparr>rs_status = 200, rs_body = JObj [(''ok'', JBool True)]\<rparr>
      else if rq_method rq \<noteq> ''POST'' \<or> \<not> starts_with route_prefix (rq_pathname rq)
      then returnE (refusal 404 ''no-such-route'')
      else if \<not> secretMatches (rq_secret rq) (ib_secret opts) then returnE (refusal 401 ''unauthenticated'')
      else
        (case decodeURIComponent (drop (length route_prefix) (rq_pathname rq)) of
           None \<Rightarrow> returnE (refusal 403 ''not-allowed'')
         | Some key \<Rightarrow>
             bindE (case ib_things opts of None \<Rightarrow> returnE (Found None) | Some things \<Rightarrow> findOperation things key)
               (\<lambda>r. case r of
                  AmbiguousKey \<Rightarrow> returnE (refusal 403 ''not-allowed'')
                | Found thing \<Rightarrow> handle_call nobody opts rq key thing)))"

section \<open>What the door lets through\<close>

text \<open>
  What the deployment, the code and the User allow a client to run: the name is on the allowlist, the
  Operation is readable by a client, changes nothing and needs no approval, by its code or, for a Dynamic
  Operation that no code claims, by its Thing; and it was not switched off.
\<close>

definition offered :: "'w inbox_options \<Rightarrow> string \<Rightarrow> operation option \<Rightarrow> (json \<Rightarrow> op_context \<Rightarrow> ('w, outcome) io) \<Rightarrow> bool" where
  "offered opts key thing execute \<longleftrightarrow>
     key \<in> set (ib_allowlist opts) \<and>
     (ib_things opts \<noteq> None \<longrightarrow> (\<exists>t. thing = Some t \<and> o_enabled t \<noteq> Some False)) \<and>
     ((\<exists>imp. rg_get (ib_registry opts) key = Some imp \<and> i_clientReadable imp \<and> \<not> i_mutating imp \<and>
         sd_requiresApproval (i_seed imp) \<noteq> Some True \<and> execute = i_execute imp) \<or>
      (\<exists>t g. rg_get (ib_registry opts) key = None \<and> thing = Some t \<and> o_implementation t = Some Dynamic \<and>
         o_clientReadable t = Some True \<and> o_mutating t \<noteq> Some True \<and> o_requiresApproval t \<noteq> Some True \<and>
         clientExecutable (ib_registry opts) t = Some g \<and> execute = g_execute g))"

lemma decide_offered:
  assumes "decide key (ib_registry opts) (ib_allowlist opts) thing = Allowed execute imp"
    and "ib_things opts \<noteq> None \<Longrightarrow> \<exists>t. thing = Some t \<and> o_enabled t \<noteq> Some False"
  shows "offered opts key thing execute"
  using assms by (auto simp: decide_def offered_def Let_def split: if_splits option.splits)

lemma handle_call_cases:
  "(\<exists>execute args. offered opts key thing execute \<and> handle_call nobody opts rq key thing w = execute_for nobody execute args w) \<or>
   (\<exists>code reason. handle_call nobody opts rq key thing w = (Inr (refusal code reason), w))"
proof (cases "decide key (ib_registry opts) (ib_allowlist opts) thing")
  case (Allowed execute imp)
  show ?thesis
  proof (cases "ib_things opts \<noteq> None \<and> (case thing of None \<Rightarrow> True | Some t \<Rightarrow> o_enabled t = Some False)")
    case True
    with Allowed show ?thesis by (auto simp: handle_call_def returnE_def)
  next
    case False
    then have "offered opts key thing execute"
      by (intro decide_offered [OF Allowed]) (auto split: option.splits)
    moreover from False Allowed have "handle_call nobody opts rq key thing w =
        (case readBody [] (rq_chunks rq) (rq_end rq) of
           Inl BodyTooLarge \<Rightarrow> returnE (refusal 413 ''too-large'')
         | Inl Unreadable \<Rightarrow> returnE (refusal 400 ''bad-request'')
         | Inr body \<Rightarrow> (case parseArgs body of Inl _ \<Rightarrow> returnE (refusal 400 ''bad-request'')
             | Inr args \<Rightarrow> execute_for nobody execute args)) w"
      by (simp only: handle_call_def verdict.simps if_False)
    ultimately show ?thesis
      by (auto simp: returnE_def split: sum.splits body_error.splits)
  qed
qed (auto simp: handle_call_def returnE_def)

text \<open>The ThingStore after the one read the route makes.\<close>

definition after_lookup :: "'w inbox_options \<Rightarrow> string \<Rightarrow> 'w \<Rightarrow> 'w" where
  "after_lookup opts key w = (case ib_things opts of None \<Rightarrow> w | Some things \<Rightarrow> snd (findOperation things key w))"


end
