(* ===== verification/Services.thy ===== *)
theory Services
  imports Loop
begin

text \<open>
  How new state enters the system (\<open>runtime/src/services.ts\<close>): a Conversation is born and an Open Question
  is raised through \<open>ThingRepository.create\<close>, each under an idempotency key, and an Assistant is called as
  a Conversation of its own. The wiring of providers, connectors and the mailbox in \<open>buildRuntime\<close> is
  what the parameters of the other theories stand for.
\<close>

section \<open>Open Questions\<close>

record create_question_input =
  cq_conversation :: "conversation stored"
  cq_assistantKey :: string
  cq_kind :: string
  cq_prompt :: string
  cq_options :: json
  cq_subjectThingId :: "string option"
  cq_idempotencyKey :: string

definition question_fields :: "create_question_input \<Rightarrow> props" where
  "question_fields input =
     (let c = cq_conversation input in
      [(''conversationId'', JStr (thingId c)),
       (''assistantKey'', JStr (cq_assistantKey input)),
       (''seq'', JNum (num_of_int (int (length (entry_list (data c)))))),
       (''kind'', JStr (cq_kind input)),
       (''prompt'', JStr (cq_prompt input)),
       (''subjectThingId'', JStr (coalesce (cq_subjectThingId input) (coalesce (subjectThingId (data c)) []))),
       (''options'', if nullish (cq_options input) then JArr [] else cq_options input),
       (''idempotencyKey'', JStr (cq_idempotencyKey input)),
       (''createdByConversationId'', JStr (thingId c))])"

definition createQuestion :: "'w a12_client \<Rightarrow> create_question_input \<Rightarrow> ('w, string) io" where
  "createQuestion things input =
     bindE (repo_create things OpenQuestion_spec (question_fields input)) (\<lambda>created. returnE (thingId created))"

text \<open>The question the loop driver raises.\<close>

definition raiseQuestion :: "'w a12_client \<Rightarrow> question_input \<Rightarrow> ('w, string) io" where
  "raiseQuestion things input = createQuestion things
     \<lparr>cq_conversation = qi_conversation input, cq_assistantKey = qi_assistantKey input, cq_kind = qi_kind input,
      cq_prompt = qi_prompt input, cq_options = JUndef, cq_subjectThingId = None,
      cq_idempotencyKey = qi_idempotencyKey input\<rparr>"

section \<open>Births\<close>

record birth_input =
  bi_assistant :: "assistant stored"
  bi_subjectThingId :: "string option"
  bi_subjectModel :: "string option"
  bi_scheduledFor :: "string option"
  bi_prompt :: string
  bi_title :: string
  bi_parentConversationId :: "string option"
  bi_idempotencyKey :: string

definition birth_prompt :: "int \<Rightarrow> string \<Rightarrow> entry" where
  "birth_prompt instant prompt = blank_entry\<lparr>e_seq := Some 1, e_at := Some (nowIso instant), e_role := Some ''user'',
     e_kind := Some ''prompt'', e_text := Some prompt\<rparr>"

definition birth_fields :: "int \<Rightarrow> birth_input \<Rightarrow> props" where
  "birth_fields instant input =
     (let a = data (bi_assistant input) in
      [(''assistantKey'', JStr (coalesce (a_key a) [])),
       (''title'', JStr (bi_title input)),
       (''subjectThingId'', JStr (coalesce (bi_subjectThingId input) [])),
       (''subjectModel'', JStr (coalesce (bi_subjectModel input) [])),
       (''scheduledFor'', JStr (coalesce (bi_scheduledFor input) [])),
       (''status'', JStr (status_name Running)),
       (''waitingFor'', JStr []),
       (''turnCount'', JNum (num_of_int 0)),
       (''maxTurns'', JNum (num_of_int (coalesce (a_maxTurns a) 20))),
       (''escalationCount'', JNum (num_of_int 0)),
       (''parentConversationId'', JStr (coalesce (bi_parentConversationId input) [])),
       (''entries'', JArr [JObj (entry_data (birth_prompt instant (bi_prompt input)))]),
       (''idempotencyKey'', JStr (bi_idempotencyKey input))]
      @ (if truthy (bi_parentConversationId input)
         then [(''createdByConversationId'', JStr (coalesce (bi_parentConversationId input) []))] else []))"

definition birth :: "'w a12_client \<Rightarrow> birth_input \<Rightarrow> ('w, string) io" where
  "birth things input =
     bindE (getE (cl_now things)) (\<lambda>now.
     bindE (repo_create things Conversation_spec (birth_fields now input)) (\<lambda>created. returnE (docRef created)))"

section \<open>Calling an Assistant\<close>

definition findAssistant :: "'w a12_client \<Rightarrow> string \<Rightarrow> ('w, assistant stored option) io" where
  "findAssistant things key =
     (if key = [] then returnE None
      else bindE (repo_search things Assistant_spec (Some (eq (fieldPath Assistant_spec ''key'') (JStr key))) 2 [])
             (\<lambda>found. returnE (case found of [] \<Rightarrow> None | a # _ \<Rightarrow> Some (map_stored assistant_of a))))"

record call_assistant_input =
  ca_context :: op_context
  ca_assistantKey :: string
  ca_prompt :: string
  ca_subjectThingId :: "string option"
  ca_subjectModel :: "string option"

definition callAssistant :: "'w a12_client \<Rightarrow> call_assistant_input \<Rightarrow> ('w, string) io" where
  "callAssistant things input =
     bindE (findAssistant things (ca_assistantKey input)) (\<lambda>callee. case callee of
       None \<Rightarrow> throwE (JsError ''Error'' (''No Assistant with key '' @ quoted (ca_assistantKey input)))
     | Some a \<Rightarrow>
         bindE (birth things
           \<lparr>bi_assistant = a, bi_subjectThingId = ca_subjectThingId input, bi_subjectModel = ca_subjectModel input,
            bi_scheduledFor = None, bi_prompt = ca_prompt input,
            bi_title = shown (or_else (a_name (data a)) (a_key (data a))) @ '' (called by ''
              @ shown (a_key (data (ctx_assistant (ca_context input)))) @ '')'',
            bi_parentConversationId = Some (thingId (ctx_conversation (ca_context input))),
            bi_idempotencyKey = ctx_idempotencyKey (ca_context input)\<rparr>)
           (\<lambda>ref. returnE (thingIdOf ref)))"

end
