(* ===== verification/Schedule.thy ===== *)
theory Schedule
  imports IsoTime
begin

text \<open>
  When a Schedule was last due (\<open>runtime/src/watcher/schedule.ts\<close>). The arithmetic of cron is the
  \<open>cron-parser\<close> package's and the wall clock of a time zone is \<open>Intl.DateTimeFormat\<close>'s with its time
  zone database; both are parameters, gathered in \<open>cron_library\<close>. What is modelled is what the code
  adds: the parse error, the latest instant, the collapse of a repeated hour onto its first occurrence,
  and the two texts an instant is shown as.
\<close>

section \<open>The instant\<close>

text \<open>
  Parsing an expression in a time zone gives an iterator that starts at an instant; \<open>walk k\<close> is what its
  \<open>k + 1\<close>-st \<open>prev()\<close> returns, or nothing where that throws. Instants are milliseconds.
\<close>

record cron_library =
  cron_parse :: "string \<Rightarrow> string \<Rightarrow> int \<Rightarrow> js_error + (nat \<Rightarrow> int option)"
  wallClockIn :: "string \<Rightarrow> int \<Rightarrow> string"

definition MAX_COLLAPSE_STEPS :: nat where
  "MAX_COLLAPSE_STEPS = 4"

text \<open>\<open>String(error)\<close>\<close>

definition error_string :: "js_error \<Rightarrow> string" where
  "error_string e = (case e of
     JsError n m \<Rightarrow> if n = [] then m else if m = [] then n else n @ '': '' @ m
   | TransientLlmError m \<Rightarrow> if m = [] then ''TransientLlmError'' else ''TransientLlmError: '' @ m
   | Thrown s \<Rightarrow> s)"

definition InvalidCronError :: "string \<Rightarrow> js_error \<Rightarrow> js_error" where
  "InvalidCronError expression cause = JsError ''InvalidCronError''
     ([CHR 0x22] @ expression @ [CHR 0x22] @ '' is not a cron expression this Schedule can use: '' @ error_string cause)"

definition toCanonicalUtc :: "int \<Rightarrow> string" where
  "toCanonicalUtc at = iso_of_ms at"

text \<open>
  The loop that goes back over the occurrences of one wall-clock slot: \<open>left\<close> steps remain, \<open>k\<close> calls
  of \<open>prev()\<close> were made.
\<close>

fun collapse :: "(int \<Rightarrow> string) \<Rightarrow> string \<Rightarrow> (nat \<Rightarrow> int option) \<Rightarrow> nat \<Rightarrow> nat \<Rightarrow> int \<Rightarrow> int" where
  "collapse wallClock slot walk 0 k due = due"
| "collapse wallClock slot walk (Suc left) k due =
     (case walk k of
        None \<Rightarrow> due
      | Some earlier \<Rightarrow>
          if wallClock earlier \<noteq> slot then due else collapse wallClock slot walk left (Suc k) earlier)"

definition latestDueInstantBefore :: "cron_library \<Rightarrow> int \<Rightarrow> string \<Rightarrow> string \<Rightarrow> string option result" where
  "latestDueInstantBefore lib now expression timezone =
     (case cron_parse lib (trim expression) timezone now of
        Inl e \<Rightarrow> Inl (InvalidCronError expression e)
      | Inr walk \<Rightarrow>
          (case walk 0 of
             None \<Rightarrow> Inr None
           | Some due \<Rightarrow>
               let wallClock = wallClockIn lib timezone
               in Inr (Some (toCanonicalUtc (collapse wallClock (wallClock due) walk MAX_COLLAPSE_STEPS 1 due)))))"

section \<open>The text\<close>

text \<open>\<open>s.split(sep)\<close> up to its first two parts: the part before the first separator, and the one after it.\<close>

fun cut_at :: "string \<Rightarrow> string \<Rightarrow> string \<times> string option" where
  "cut_at sep [] = ([], None)"
| "cut_at sep (c # cs) =
     (if starts_with sep (c # cs) then ([], Some (drop (length sep) (c # cs)))
      else (case cut_at sep cs of (a, b) \<Rightarrow> (c # a, b)))"

definition describeInstant :: "cron_library \<Rightarrow> string \<Rightarrow> string \<Rightarrow> string" where
  "describeInstant lib scheduledFor timezone =
     (case date_parse (scheduledFor @ ''Z'') of
        None \<Rightarrow> scheduledFor @ '' (UTC)''
      | Some at \<Rightarrow>
          (case cut_at '', '' (wallClockIn lib timezone at) of
             (date, rest) \<Rightarrow>
               let time = fst (cut_at '', '' (coalesce rest []))
               in take 5 time @ '' on '' @ date @ '' ('' @ timezone @ '')''))"

section \<open>One slot, one instant\<close>

text \<open>
  \<open>slot_run wc walk k n\<close>: from position \<open>k\<close> the iterator goes through \<open>n\<close> instants of one wall-clock slot
  and then leaves it.
\<close>

definition slot_run :: "(int \<Rightarrow> string) \<Rightarrow> string \<Rightarrow> (nat \<Rightarrow> int option) \<Rightarrow> nat \<Rightarrow> nat \<Rightarrow> bool" where
  "slot_run wallClock slot walk k n \<longleftrightarrow>
     (\<forall>i < n. \<exists>d. walk (k + i) = Some d \<and> wallClock d = slot) \<and>
     (\<forall>d. walk (k + n) = Some d \<longrightarrow> wallClock d \<noteq> slot)"

lemma slot_run_Suc:
  "slot_run wallClock slot walk k (Suc n) \<longleftrightarrow>
     (\<exists>d. walk k = Some d \<and> wallClock d = slot) \<and> slot_run wallClock slot walk (Suc k) n"
  by (auto simp: slot_run_def All_less_Suc2)

lemma collapse_run:
  "slot_run wallClock slot walk k n \<Longrightarrow> n \<le> left \<Longrightarrow>
     collapse wallClock slot walk left k due = (if n = 0 then due else the (walk (k + n - 1)))"
proof (induction n arbitrary: left k due)
  case 0
  then show ?case by (cases left) (auto simp: slot_run_def split: option.split)
next
  case (Suc n)
  then obtain left' where l: "left = Suc left'" "n \<le> left'" by (cases left) auto
  from Suc.prems(1) obtain d where d: "walk k = Some d" "wallClock d = slot"
    and r: "slot_run wallClock slot walk (Suc k) n"
    by (auto simp: slot_run_Suc)
  from Suc.IH [OF r l(2), of d] d l show ?case by (cases n) auto
qed

text \<open>The instant collapsed to is one of the iterator's, of the same slot as the one it started from.\<close>

lemma collapse_slot:
  "wallClock due = slot \<Longrightarrow> wallClock (collapse wallClock slot walk left k due) = slot"
  by (induction left arbitrary: k due) (auto split: option.split)

lemma latest_run:
  assumes "cron_parse lib (trim expression) timezone now = Inr walk"
    and "slot_run (wallClockIn lib timezone) slot walk 0 (Suc n)" and "n \<le> MAX_COLLAPSE_STEPS"
  shows "latestDueInstantBefore lib now expression timezone = Inr (Some (toCanonicalUtc (the (walk n))))"
proof -
  from assms(2) obtain d where d: "walk 0 = Some d" "wallClockIn lib timezone d = slot"
    and r: "slot_run (wallClockIn lib timezone) slot walk (Suc 0) n"
    by (auto simp: slot_run_Suc)
  from collapse_run [OF r assms(3)] d assms(1) show ?thesis
    by (cases n) (simp_all add: latestDueInstantBefore_def Let_def)
qed


text \<open>Half past two on the morning the clocks go back, at 00:30 and at 01:30 UTC.\<close>

definition autumn :: cron_library where
  "autumn = \<lparr>cron_parse = (\<lambda>expression timezone now. Inr (\<lambda>k.
       if 5400000 \<le> now then (if k = 0 then Some 5400000 else if k = 1 then Some 1800000 else None)
       else (if k = 0 then Some 1800000 else None))),
     wallClockIn = (\<lambda>timezone at. ''2026-10-25, 02:30:00'')\<rparr>"


end
