(* ===== verification/Watcher.thy ===== *)
theory Watcher
  imports Services Schedule
begin

text \<open>
  The trigger watcher (\<open>runtime/src/watcher/watcher.ts\<close>): one pass of seven scans over the ThingStore. Its
  state is the watcher's memory between passes, the \<open>RuntimeState\<close> a pass loads and mutates, the
  Conversations already advanced in the pass, and the world beyond. The loop driver it runs is
  \<open>advance\<close> of theory \<open>Loop\<close>; the mailbox is a parameter, as the code has it. A trace records births,
  Turns, writes and the decisions of the materialised scan; no definition of the watcher reads it. Of the
  log, only the lines that are written once per outage are kept, as events.
\<close>

section \<open>State\<close>

definition RUNTIME_STATE_KEY :: string where
  "RUNTIME_STATE_KEY = ''the-one''"

definition PAGE_SIZE :: nat where
  "PAGE_SIZE = 100"

definition FROZEN_FRONTIER_WARN_AFTER_MS :: int where
  "FROZEN_FRONTIER_WARN_AFTER_MS = 5 * 60000"

definition ANSWERED_SCAN_MAX_PAGES :: nat where
  "ANSWERED_SCAN_MAX_PAGES = 3"

definition STALLED_SCHEDULE_WARN_AFTER_MS :: int where
  "STALLED_SCHEDULE_WARN_AFTER_MS = 30 * 60000"

record frozen_frontier =
  ff_at :: string
  ff_since :: int
  ff_warned :: bool

record stalled_slot =
  ss_scheduledFor :: string
  ss_since :: int
  ss_warned :: bool

datatype notice =
    CatalogueMissing | CatalogueFound | MailboxFailing | MailboxBack
  | FrontierPinned string | ScheduleHeld string | BadCron string | TieStepped

datatype 'w scan_event =
    Birthed 'w runtime_state birth_input
  | Turned string "event list"
  | Wrote string conversation
  | Decided thing_model string string
  | Held thing_model string string
  | Adopted string
  | Said notice

record 'w watching =
  frozenFrontiers :: "string \<Rightarrow> frozen_frontier option"
  badCrons :: "string list"
  answeredCursor :: "string option"
  resultDeliveryCursor :: "string option"
  stalledSlots :: "string \<Rightarrow> stalled_slot option"
  catalogueMissing :: bool
  mailboxPolledAt :: "int option"
  mailboxFailing :: bool
  wa_state :: "runtime_state stored"
  wa_handled :: "string list"
  wa_world :: 'w
  wa_events :: "'w scan_event list"

record 'w watcher_deps =
  wd_things :: "'w a12_client"
  wd_driver :: "'w advance_deps"
  maxBirthsPerHour :: int
  scheduleTimezone :: string
  wd_cron :: cron_library
  pollMailbox :: "('w, int) io option"
  mailPollIntervalMs :: "int option"
  wd_birth :: "birth_input \<Rightarrow> ('w, string) io"

record scan_report =
  births :: int
  continuations :: int
  rp_paused :: bool
  errors :: int
  ingested :: int

definition onStore :: "('w, 'a) io \<Rightarrow> ('w watching, 'a) io" where
  "onStore m = (\<lambda>s. case m (wa_world s) of (r, w) \<Rightarrow> (r, s\<lparr>wa_world := w\<rparr>))"

definition trace :: "'w scan_event \<Rightarrow> ('w watching, unit) io" where
  "trace ev = modifyE (\<lambda>s. s\<lparr>wa_events := wa_events s @ [ev]\<rparr>)"

definition clock_now :: "'w watcher_deps \<Rightarrow> ('w watching, int) io" where
  "clock_now deps = getE (\<lambda>s. cl_now (wd_things deps) (wa_world s))"

definition runtimeState :: "('w watching, runtime_state) io" where
  "runtimeState = getE (\<lambda>s. data (wa_state s))"

definition setState :: "(runtime_state \<Rightarrow> runtime_state) \<Rightarrow> ('w watching, unit) io" where
  "setState f = modifyE (\<lambda>s. s\<lparr>wa_state := (wa_state s)\<lparr>data := f (data (wa_state s))\<rparr>\<rparr>)"

text \<open>\<open>String(thing.data[k] ?? "")\<close>\<close>

definition text_field :: "props \<Rightarrow> string \<Rightarrow> string" where
  "text_field ps k = (case pget ps k of JUndef \<Rightarrow> [] | JNull \<Rightarrow> [] | v \<Rightarrow> js_string v)"

definition searchConversations :: "'w watcher_deps \<Rightarrow> constraint \<Rightarrow> nat \<Rightarrow> sort_term list
    \<Rightarrow> ('w watching, conversation stored list) io" where
  "searchConversations deps c pageSize srt =
     bindE (onStore (repo_search (wd_things deps) Conversation_spec (Some c) pageSize srt)) (\<lambda>rows.
       returnE (map (map_stored conversation_of) rows))"

definition updateConversation :: "'w watcher_deps \<Rightarrow> string \<Rightarrow> conversation \<Rightarrow> ('w watching, unit) io" where
  "updateConversation deps ref c =
     bindE (onStore (repo_update (wd_things deps) Conversation_spec ref (conversation_data c))) (\<lambda>_.
       trace (Wrote ref c))"

definition conversationField :: "string \<Rightarrow> string" where
  "conversationField property = fieldPath Conversation_spec property"

section \<open>Helpers\<close>

text \<open>\<open>runTurn\<close>: one Turn of the loop driver, whose exceptions are logged and end nothing.\<close>

definition runTurn :: "'w watcher_deps \<Rightarrow> string \<Rightarrow> ('w watching, unit) io" where
  "runTurn deps ref = (\<lambda>s.
     case advance (wd_driver deps) ref \<lparr>tw_world = wa_world s, tw_conv = blank_conversation, tw_events = []\<rparr> of
       (_, t) \<Rightarrow> (Inr (), s\<lparr>wa_world := tw_world t, wa_events := wa_events s @ [Turned ref (tw_events t)]\<rparr>))"

definition handleTurn :: "'w watcher_deps \<Rightarrow> string \<Rightarrow> ('w watching, unit) io" where
  "handleTurn deps ref =
     bindE (modifyE (\<lambda>s. s\<lparr>wa_handled := ref # wa_handled s\<rparr>)) (\<lambda>_. runTurn deps ref)"

text \<open>The queries that ask whether a Conversation was born before.\<close>

definition for_subject :: "string \<Rightarrow> string \<Rightarrow> constraint" where
  "for_subject akey subject =
     c_and [eq (conversationField ''assistantKey'') (JStr akey),
            eq (conversationField ''subjectThingId'') (JStr subject)]"

definition for_slot :: "string \<Rightarrow> string \<Rightarrow> constraint" where
  "for_slot akey slot =
     c_and [eq (conversationField ''assistantKey'') (JStr akey),
            eq (conversationField ''scheduledFor'') (JStr slot)]"

definition unfinished_of :: "string \<Rightarrow> constraint" where
  "unfinished_of akey =
     c_and [eq (conversationField ''assistantKey'') (JStr akey),
            c_not (unset (conversationField ''scheduledFor'')),
            c_or [eq (conversationField ''status'') (JStr (status_name Running)),
                  eq (conversationField ''status'') (JStr (status_name Waiting))]]"

definition anyConversation :: "'w watcher_deps \<Rightarrow> constraint \<Rightarrow> ('w watching, bool) io" where
  "anyConversation deps c = bindE (searchConversations deps c 1 []) (\<lambda>found. returnE (0 < length found))"

definition conversationExistsFor :: "'w watcher_deps \<Rightarrow> string \<Rightarrow> string \<Rightarrow> ('w watching, bool) io" where
  "conversationExistsFor deps akey subject = anyConversation deps (for_subject akey subject)"

definition scheduledConversationExists :: "'w watcher_deps \<Rightarrow> string \<Rightarrow> string \<Rightarrow> ('w watching, bool) io" where
  "scheduledConversationExists deps akey slot = anyConversation deps (for_slot akey slot)"

definition anyUnfinishedScheduledConversation :: "'w watcher_deps \<Rightarrow> string \<Rightarrow> ('w watching, bool) io" where
  "anyUnfinishedScheduledConversation deps akey = anyConversation deps (unfinished_of akey)"

definition isConversationRunning :: "'w watcher_deps \<Rightarrow> string \<Rightarrow> ('w watching, bool) io" where
  "isConversationRunning deps conversationId =
     bindE (attemptE (onStore (repo_get (wd_things deps) Conversation_spec (''Conversation_DM/'' @ conversationId))))
       (\<lambda>r. returnE (case r of
          Inl _ \<Rightarrow> False
        | Inr t \<Rightarrow> status (conversation_of (data t)) \<in> {Some Running, Some Waiting}))"

text \<open>The budget of the hour; a window that is over, or was never opened, is opened anew.\<close>

definition withinBirthBudget :: "'w watcher_deps \<Rightarrow> ('w watching, bool) io" where
  "withinBirthBudget deps =
     bindE (clock_now deps) (\<lambda>t. bindE runtimeState (\<lambda>st.
       if (case parseIso (birthWindowStartedAt st) of None \<Rightarrow> True | Some start \<Rightarrow> 3600000 < t - start)
       then bindE (setState (\<lambda>st. st\<lparr>birthsThisHour := Some 0, birthWindowStartedAt := Some (nowIso t)\<rparr>))
              (\<lambda>_. returnE True)
       else returnE (coalesce (birthsThisHour st) 0 < maxBirthsPerHour deps)))"

definition loadState :: "'w watcher_deps \<Rightarrow> ('w watching, unit) io" where
  "loadState deps =
     bindE (onStore (repo_search (wd_things deps) RuntimeState_spec
              (Some (eq (fieldPath RuntimeState_spec ''singletonKey'') (JStr RUNTIME_STATE_KEY))) 2 [])) (\<lambda>found.
     bindE (case found of
              t # _ \<Rightarrow> returnE t
            | [] \<Rightarrow>
                bindE (clock_now deps) (\<lambda>t.
                  onStore (repo_create (wd_things deps) RuntimeState_spec
                    [(''singletonKey'', JStr RUNTIME_STATE_KEY), (''paused'', JBool False),
                     (''birthsThisHour'', JNum (num_of_int 0)), (''birthWindowStartedAt'', JStr (nowIso t)),
                     (''watermark'', JStr (nowIso t)),
                     (''idempotencyKey'', JStr (''runtime-state:'' @ RUNTIME_STATE_KEY))])))
       (\<lambda>t. modifyE (\<lambda>s. s\<lparr>wa_state := map_stored runtime_state_of t\<rparr>)))"

definition saveState :: "'w watcher_deps \<Rightarrow> string \<Rightarrow> runtime_state \<Rightarrow> ('w watching, unit) io" where
  "saveState deps ref rs = onStore (repo_update (wd_things deps) RuntimeState_spec ref (runtime_state_data rs))"

text \<open>
  What is written of the RuntimeState: our copy, with the fields another writer owns as they stand in the
  store: the pause, and a watermark that is ahead of ours.
\<close>

definition watermark_is_theirs :: "runtime_state \<Rightarrow> runtime_state \<Rightarrow> bool" where
  "watermark_is_theirs fresh ours \<longleftrightarrow> coalesce (watermark ours) [] < coalesce (watermark fresh) []"

definition carry_watermark :: "runtime_state \<Rightarrow> runtime_state \<Rightarrow> runtime_state" where
  "carry_watermark fresh ours =
     (if watermark_is_theirs fresh ours
      then ours\<lparr>watermark := Some (coalesce (watermark fresh) []), watermarkDocRefs := watermarkDocRefs fresh\<rparr>
      else ours)"

definition savePreservingHumanFields :: "'w watcher_deps \<Rightarrow> ('w watching, unit) io" where
  "savePreservingHumanFields deps =
     bindE (getE wa_state) (\<lambda>st.
     bindE (attemptE (onStore (repo_get (wd_things deps) RuntimeState_spec (docRef st)))) (\<lambda>r. case r of
       Inl _ \<Rightarrow> returnE ()
     | Inr t \<Rightarrow>
         let fresh = runtime_state_of (data t) in
         bindE (saveState deps (docRef st) ((carry_watermark fresh (data st))\<lparr>paused := paused fresh\<rparr>)) (\<lambda>_.
         bindE (if watermark_is_theirs fresh (data st) then trace (Adopted (coalesce (watermark fresh) [])) else returnE ()) (\<lambda>_.
           setState (\<lambda>ours. (carry_watermark fresh ours)\<lparr>paused := or_else (paused fresh) (paused ours)\<rparr>)))))"

definition stampHeartbeat :: "'w watcher_deps \<Rightarrow> ('w watching, unit) io" where
  "stampHeartbeat deps =
     bindE (clock_now deps) (\<lambda>t.
     bindE (setState (\<lambda>st. st\<lparr>heartbeatAt := Some (nowIso t)\<rparr>)) (\<lambda>_.
       savePreservingHumanFields deps))"

section \<open>The catalogue and scan 0, the letterbox\<close>

definition noteMissingCatalogue :: "('w watching, unit) io" where
  "noteMissingCatalogue =
     bindE (getE catalogueMissing) (\<lambda>said.
       if said then returnE ()
       else bindE (modifyE (\<lambda>s. s\<lparr>catalogueMissing := True\<rparr>)) (\<lambda>_. trace (Said CatalogueMissing)))"

definition catalogueIsThere :: "'w watcher_deps \<Rightarrow> ('w watching, bool) io" where
  "catalogueIsThere deps =
     bindE (attemptE (onStore (repo_search (wd_things deps) Operation_spec None PAGE_SIZE []))) (\<lambda>r. case r of
       Inl _ \<Rightarrow> bindE noteMissingCatalogue (\<lambda>_. returnE False)
     | Inr found \<Rightarrow>
         if length found = 0 then bindE noteMissingCatalogue (\<lambda>_. returnE False)
         else
           bindE (getE catalogueMissing) (\<lambda>was.
           bindE (if was then bindE (modifyE (\<lambda>s. s\<lparr>catalogueMissing := False\<rparr>)) (\<lambda>_. trace (Said CatalogueFound))
                  else returnE ()) (\<lambda>_.
             returnE True)))"

definition scanMailbox :: "'w watcher_deps \<Rightarrow> ('w watching, int) io" where
  "scanMailbox deps =
     (case pollMailbox deps of
        None \<Rightarrow> returnE 0
      | Some poll \<Rightarrow>
          let interval = coalesce (mailPollIntervalMs deps) 60000 in
          bindE (clock_now deps) (\<lambda>t. bindE (getE mailboxPolledAt) (\<lambda>polled.
            if (case polled of Some p \<Rightarrow> t - p < interval | None \<Rightarrow> False) then returnE 0
            else
              bindE (modifyE (\<lambda>s. s\<lparr>mailboxPolledAt := Some t\<rparr>)) (\<lambda>_.
              bindE (attemptE (onStore poll)) (\<lambda>r.
              bindE (getE mailboxFailing) (\<lambda>failing. case r of
                Inr created \<Rightarrow>
                  bindE (if failing then bindE (modifyE (\<lambda>s. s\<lparr>mailboxFailing := False\<rparr>)) (\<lambda>_. trace (Said MailboxBack))
                         else returnE ()) (\<lambda>_. returnE created)
              | Inl _ \<Rightarrow>
                  bindE (if \<not> failing then bindE (modifyE (\<lambda>s. s\<lparr>mailboxFailing := True\<rparr>)) (\<lambda>_. trace (Said MailboxFailing))
                         else returnE ()) (\<lambda>_. returnE 0)))))))"

section \<open>Scan 1: Things that have materialised\<close>

definition wants :: "string \<Rightarrow> assistant stored \<Rightarrow> bool" where
  "wants m a \<longleftrightarrow> list_ex (\<lambda>t. t_kind t = Some ''thing-materialised'' \<and> coalesce (modelFilter t) [] = m)
     (coalesce (triggers (data a)) [])"

definition triggered_by_things :: "assistant stored list \<Rightarrow> assistant stored list" where
  "triggered_by_things assistants =
     filter (\<lambda>a. list_ex (\<lambda>t. t_kind t = Some ''thing-materialised'') (coalesce (triggers (data a)) [])) assistants"

definition materialised_prompt :: "string \<Rightarrow> string \<Rightarrow> string" where
  "materialised_prompt m i = join nl [''A new '' @ m @ '' has appeared in the ThingStore.'', [],
     ''ThingID: '' @ [CHR 0x60] @ i @ [CHR 0x60], [], ''Deal with it according to your instructions.'']"

definition thing_birth :: "thing_model \<Rightarrow> props stored \<Rightarrow> assistant stored \<Rightarrow> birth_input" where
  "thing_birth m thing a =
     \<lparr>bi_assistant = a, bi_subjectThingId = Some (thingId thing), bi_subjectModel = Some (model_name m),
      bi_scheduledFor = None, bi_prompt = materialised_prompt (model_name m) (thingId thing),
      bi_title = shown (or_else (a_name (data a)) (a_key (data a))) @ '': '' @ model_name m @ '' '' @ take 8 (thingId thing),
      bi_parentConversationId = None,
      bi_idempotencyKey = ''birth:'' @ shown (a_key (data a)) @ '':'' @ thingId thing\<rparr>"

text \<open>A birth, which the trace records with the world and the state it happens in, and its count.\<close>

definition give_birth :: "'w watcher_deps \<Rightarrow> birth_input \<Rightarrow> ('w watching, unit) io" where
  "give_birth deps input =
     bindE (getE wa_world) (\<lambda>w. bindE runtimeState (\<lambda>st.
     bindE (trace (Birthed w st input)) (\<lambda>_.
     bindE (onStore (wd_birth deps input)) (\<lambda>_.
       setState (\<lambda>st. st\<lparr>birthsThisHour := Some (coalesce (birthsThisHour st) 0 + 1)\<rparr>)))))"

text \<open>
  The decision over one Thing: every Assistant that wants it gets its Conversation, or the budget runs
  out. The value is whether the Thing is decided, and the births so far.
\<close>

fun decide_thing :: "'w watcher_deps \<Rightarrow> thing_model \<Rightarrow> props stored \<Rightarrow> assistant stored list \<Rightarrow> int
    \<Rightarrow> ('w watching, bool \<times> int) io" where
  "decide_thing deps m thing [] n = returnE (True, n)"
| "decide_thing deps m thing (a # as) n =
     (if \<not> wants (model_name m) a then decide_thing deps m thing as n
      else
        bindE (conversationExistsFor deps (coalesce (a_key (data a)) []) (thingId thing)) (\<lambda>exists.
          if exists then decide_thing deps m thing as n
          else
            bindE (withinBirthBudget deps) (\<lambda>within.
              if \<not> within then returnE (False, n)
              else
                bindE (give_birth deps (thing_birth m thing a)) (\<lambda>_.
                  decide_thing deps m thing as (n + 1)))))"

text \<open>The local variables of the scan, and those of one Model.\<close>

record sweep =
  sw_births :: int
  newestDecided :: string
  ceiling :: "string option"
  decidedAt :: "string \<Rightarrow> string list option"

record front =
  frontier :: "string option"
  frozen :: bool
  blockedBy :: "(string \<times> string) option"

definition lowest :: "string option \<Rightarrow> string \<Rightarrow> string" where
  "lowest current candidate =
     (case current of None \<Rightarrow> candidate | Some c \<Rightarrow> if candidate < c then candidate else c)"

definition freeze :: "string option \<Rightarrow> string \<Rightarrow> string \<Rightarrow> front \<Rightarrow> front" where
  "freeze mark ref reason f =
     (if frozen f then f
      else \<lparr>frontier = (if frontier f = None then Some (coalesce mark []) else frontier f),
            frozen = True, blockedBy = Some (ref, reason)\<rparr>)"

definition decided :: "string \<Rightarrow> string \<Rightarrow> sweep \<Rightarrow> sweep" where
  "decided created ref sw = sw\<lparr>
     newestDecided := (if newestDecided sw < created then created else newestDecided sw),
     decidedAt := (decidedAt sw)(created \<mapsto> coalesce (decidedAt sw created) [] @ [ref])\<rparr>"

definition advance_front :: "string \<Rightarrow> front \<Rightarrow> front" where
  "advance_front created f =
     (if \<not> frozen f \<and> (case frontier f of None \<Rightarrow> True | Some x \<Rightarrow> x < created)
      then f\<lparr>frontier := Some created\<rparr> else f)"

text \<open>A Thing that is held back, and the judgement of one whose creator is not running.\<close>

definition hold_back :: "string option \<Rightarrow> thing_model \<Rightarrow> props stored \<Rightarrow> string \<Rightarrow> front \<Rightarrow> sweep
    \<Rightarrow> ('w watching, front \<times> sweep) io" where
  "hold_back mark m thing reason f sw =
     bindE (trace (Held m (docRef thing) (text_field (data thing) ''createdAt''))) (\<lambda>_.
       returnE (freeze mark (docRef thing) reason f, sw))"

definition judge :: "'w watcher_deps \<Rightarrow> assistant stored list \<Rightarrow> string option \<Rightarrow> thing_model \<Rightarrow> props stored
    \<Rightarrow> front \<Rightarrow> sweep \<Rightarrow> ('w watching, front \<times> sweep) io" where
  "judge deps triggered mark m thing f sw =
     bindE (decide_thing deps m thing triggered (sw_births sw)) (\<lambda>(ok, n).
       let created = text_field (data thing) ''createdAt''; sw = sw\<lparr>sw_births := n\<rparr> in
       if \<not> ok then hold_back mark m thing ''the birth budget for this hour ran out'' f sw
       else
         bindE (trace (Decided m (docRef thing) created)) (\<lambda>_.
           returnE (advance_front created f, decided created (docRef thing) sw)))"

definition scan_thing :: "'w watcher_deps \<Rightarrow> assistant stored list \<Rightarrow> string option \<Rightarrow> string list \<Rightarrow> thing_model
    \<Rightarrow> props stored \<Rightarrow> front \<times> sweep \<Rightarrow> ('w watching, front \<times> sweep) io" where
  "scan_thing deps triggered mark seen m thing = (\<lambda>(f, sw).
     let created = text_field (data thing) ''createdAt'';
         creator = text_field (data thing) ''createdByConversationId''
     in if docRef thing \<in> set seen then returnE (f, sw)
        else if truthy mark \<and> created \<noteq> [] \<and> created < coalesce mark [] then returnE (f, sw)
        else
          bindE (if creator \<noteq> [] then isConversationRunning deps creator else returnE False) (\<lambda>running.
            if running
            then hold_back mark m thing (''its creating Conversation '' @ creator @ '' is still running'') f sw
            else judge deps triggered mark m thing f sw))"

definition noteFrozenFrontier :: "'w watcher_deps \<Rightarrow> string \<Rightarrow> string \<Rightarrow> ('w watching, unit) io" where
  "noteFrozenFrontier deps m at =
     bindE (clock_now deps) (\<lambda>t. bindE (getE (\<lambda>s. frozenFrontiers s m)) (\<lambda>previous.
       case previous of
         Some p \<Rightarrow>
           if ff_at p \<noteq> at then
             modifyE (\<lambda>s. s\<lparr>frozenFrontiers := (frozenFrontiers s)(m \<mapsto> \<lparr>ff_at = at, ff_since = t, ff_warned = False\<rparr>)\<rparr>)
           else if ff_warned p \<or> t - ff_since p < FROZEN_FRONTIER_WARN_AFTER_MS then returnE ()
           else
             bindE (modifyE (\<lambda>s. s\<lparr>frozenFrontiers := (frozenFrontiers s)(m \<mapsto> p\<lparr>ff_warned := True\<rparr>)\<rparr>)) (\<lambda>_.
               trace (Said (FrontierPinned m)))
       | None \<Rightarrow>
           modifyE (\<lambda>s. s\<lparr>frozenFrontiers := (frozenFrontiers s)(m \<mapsto> \<lparr>ff_at = at, ff_since = t, ff_warned = False\<rparr>)\<rparr>)))"

text \<open>The end of a Model's page: what it contributes to the ceiling of the watermark.\<close>

definition close_model :: "'w watcher_deps \<Rightarrow> string option \<Rightarrow> thing_model \<Rightarrow> nat \<Rightarrow> front \<Rightarrow> sweep
    \<Rightarrow> ('w watching, sweep) io" where
  "close_model deps mark m found f sw =
     (let front = coalesce (frontier f) (coalesce mark []) in
      if frozen f then
        bindE (noteFrozenFrontier deps (model_name m) front) (\<lambda>_.
          returnE (sw\<lparr>ceiling := Some (lowest (ceiling sw) front)\<rparr>))
      else
        bindE (modifyE (\<lambda>s. s\<lparr>frozenFrontiers := (frozenFrontiers s)(model_name m := None)\<rparr>)) (\<lambda>_.
          returnE (if PAGE_SIZE \<le> found \<and> frontier f \<noteq> None
                   then sw\<lparr>ceiling := Some (lowest (ceiling sw) front)\<rparr> else sw)))"

definition scan_model :: "'w watcher_deps \<Rightarrow> assistant stored list \<Rightarrow> string option \<Rightarrow> string list \<Rightarrow> thing_model
    \<Rightarrow> sweep \<Rightarrow> ('w watching, sweep) io" where
  "scan_model deps triggered mark seen m sw =
     bindE (clock_now deps) (\<lambda>t.
     let constraint = (if truthy mark
           then Some (DateRange (fieldPath (SPECS m) ''createdAt'') mark (Some (nowIso (t + 60000)))) else None)
     in bindE (attemptE (onStore (repo_search (wd_things deps) (SPECS m) constraint PAGE_SIZE (byCreatedAt (SPECS m) ASC))))
       (\<lambda>r. case r of
          Inl _ \<Rightarrow> returnE (sw\<lparr>ceiling := Some (lowest (ceiling sw) (coalesce mark []))\<rparr>)
        | Inr candidates \<Rightarrow>
            bindE (foldE (scan_thing deps triggered mark seen m) candidates
                     (\<lparr>frontier = None, frozen = False, blockedBy = None\<rparr>, sw)) (\<lambda>(f, sw).
              close_model deps mark m (length candidates) f sw)))"

definition stamp_orphan :: "'w watcher_deps \<Rightarrow> thing_model \<Rightarrow> props stored \<Rightarrow> unit \<Rightarrow> ('w watching, unit) io" where
  "stamp_orphan deps m thing u =
     bindE (clock_now deps) (\<lambda>t.
     bindE (attemptE (onStore (repo_update (wd_things deps) (SPECS m) (docRef thing) [(''createdAt'', JStr (nowIso t))])))
       (\<lambda>_. returnE ()))"

definition stampMissingCreatedAt :: "'w watcher_deps \<Rightarrow> ('w watching, unit) io" where
  "stampMissingCreatedAt deps =
     foldE (\<lambda>m u.
       bindE (attemptE (onStore (repo_search (wd_things deps) (SPECS m)
                (Some (unset (fieldPath (SPECS m) ''createdAt''))) PAGE_SIZE []))) (\<lambda>r. case r of
         Inl _ \<Rightarrow> returnE ()
       | Inr orphans \<Rightarrow> foldE (stamp_orphan deps m) orphans ()))
     TRIGGER_ELIGIBLE_MODELS ()"

text \<open>Where the watermark may go.\<close>

definition newest_seen :: "sweep \<Rightarrow> string" where
  "newest_seen sw =
     (case ceiling sw of None \<Rightarrow> newestDecided sw
      | Some c \<Rightarrow> if c < newestDecided sw then c else newestDecided sw)"

definition move_watermark :: "'w watcher_deps \<Rightarrow> string option \<Rightarrow> sweep \<Rightarrow> ('w watching, unit) io" where
  "move_watermark deps mark sw =
     (let newest = newest_seen sw; boundary = coalesce (decidedAt sw newest) [] in
      if newest \<noteq> [] \<and> Some newest \<noteq> mark then
        bindE (setState (\<lambda>st. st\<lparr>watermark := Some newest, watermarkDocRefs := Some (map Some boundary)\<rparr>)) (\<lambda>_.
          savePreservingHumanFields deps)
      else returnE ())"

definition scanMaterialised :: "'w watcher_deps \<Rightarrow> assistant stored list \<Rightarrow> ('w watching, int) io" where
  "scanMaterialised deps assistants =
     (let triggered = triggered_by_things assistants in
      if triggered = [] then returnE 0
      else
        bindE runtimeState (\<lambda>st.
        let mark = watermark st; seen = map (\<lambda>r. coalesce r []) (coalesce (watermarkDocRefs st) []) in
        bindE (withinBirthBudget deps) (\<lambda>within.
          if \<not> within then returnE 0
          else
            bindE (stampMissingCreatedAt deps) (\<lambda>_.
            bindE (foldE (scan_model deps triggered mark seen) TRIGGER_ELIGIBLE_MODELS
                     \<lparr>sw_births = 0, newestDecided = coalesce mark [], ceiling = None, decidedAt = Map.empty\<rparr>) (\<lambda>sw.
            bindE (move_watermark deps mark sw) (\<lambda>_.
              returnE (sw_births sw)))))))"

section \<open>Answers\<close>

definition isAnswered :: "open_question \<Rightarrow> bool" where
  "isAnswered q \<longleftrightarrow> truthy (q_answeredAt q) \<or> \<not> blank (q_text q) \<or> \<not> blank (q_choice q) \<or> q_confirmed q \<noteq> None"

definition renderAnswer :: "open_question \<Rightarrow> string" where
  "renderAnswer q =
     (let confirmation = (if q_confirmed q \<noteq> None \<and> q_kind q = Some ''confirm''
            then [bold (if q_confirmed q = Some True then ''Yes'' else ''No'')] else []);
          chosen = (if truthy (q_choice q) then [''Chose: '' @ bold (coalesce (q_choice q) [])] else []);
          typed = (if truthy (q_text q) then [coalesce (q_text q) []] else []);
          parts = confirmation @ chosen @ typed
      in join nl ([''The User answered your question:'', []]
           @ (if parts = [] then [''(no further detail)''] else parts)))"

text \<open>What an answer, a vanished question and a due wake-up make of the Conversation.\<close>

definition answer_entry :: "string \<Rightarrow> string \<Rightarrow> entry" where
  "answer_entry text questionId = blank_entry\<lparr>e_role := Some ''user'', e_kind := Some ''answer'',
     e_text := Some text, e_questionId := Some questionId\<rparr>"

definition resumed :: "conversation \<Rightarrow> conversation" where
  "resumed c = c\<lparr>status := Some Running, waitingFor := Some WF_None, currentQuestionId := Some []\<rparr>"

definition with_answer :: "int \<Rightarrow> string \<Rightarrow> open_question \<Rightarrow> conversation \<Rightarrow> conversation" where
  "with_answer t questionId q c = resumed (appendEntry t (answer_entry (renderAnswer q) questionId) c)"

definition gone_text :: "string \<Rightarrow> string" where
  "gone_text questionId = ''The question you were waiting on ('' @ [CHR 0x60] @ questionId @ [CHR 0x60]
     @ '') no longer exists. It was probably deleted. Ask again if you still need an answer.''"

definition without_question :: "int \<Rightarrow> string \<Rightarrow> conversation \<Rightarrow> conversation" where
  "without_question t questionId c = resumed (appendEntry t (error_entry (gone_text questionId)) c)"

section \<open>Sweeps over pages\<close>

text \<open>
  Scans 2 and 5 walk their rows page by page, oldest first, from a cursor that outlives the pass. A page
  has the newest stamp it has seen, how many of its rows were new to the pass, the rows examined, and the
  count of what the pass did. \<open>act\<close> is what the scan does with a row it has not examined.
\<close>

record page =
  pg_newest :: "string option"
  pg_fresh :: nat
  pg_examined :: "string list"
  pg_count :: int

definition newer :: "string option \<Rightarrow> string \<Rightarrow> string option" where
  "newer newest created =
     (if created \<noteq> [] \<and> (case newest of None \<Rightarrow> True | Some n \<Rightarrow> n < created) then Some created else newest)"

definition examine :: "(conversation stored \<Rightarrow> ('w watching, int) io) \<Rightarrow> conversation stored \<Rightarrow> page
    \<Rightarrow> ('w watching, page) io" where
  "examine act row pg =
     (let pg' = pg\<lparr>pg_newest := newer (pg_newest pg) (coalesce (createdAt (data row)) [])\<rparr> in
      if docRef row \<in> set (pg_examined pg) then returnE pg'
      else
        bindE (act row) (\<lambda>n.
          returnE (pg'\<lparr>pg_fresh := pg_fresh pg' + 1, pg_examined := docRef row # pg_examined pg',
                       pg_count := pg_count pg' + n\<rparr>)))"

definition from_cursor :: "string option \<Rightarrow> constraint list" where
  "from_cursor cursor =
     (case cursor of None \<Rightarrow> [] | Some c \<Rightarrow> [DateRange (conversationField ''createdAt'') (Some c) None])"

fun sweep_pages :: "'w watcher_deps \<Rightarrow> constraint list \<Rightarrow> (conversation stored \<Rightarrow> ('w watching, int) io)
    \<Rightarrow> (string option \<Rightarrow> ('w watching, unit) io) \<Rightarrow> nat \<Rightarrow> string option \<Rightarrow> string list \<Rightarrow> int
    \<Rightarrow> ('w watching, int) io" where
  "sweep_pages deps base act keep_cursor 0 cursor examined acted =
     bindE (keep_cursor cursor) (\<lambda>_. returnE acted)"
| "sweep_pages deps base act keep_cursor (Suc pages) cursor examined acted =
     bindE (searchConversations deps (c_and (base @ from_cursor cursor)) PAGE_SIZE (byCreatedAt Conversation_spec ASC)) (\<lambda>rows.
     bindE (foldE (examine act) rows
              \<lparr>pg_newest = cursor, pg_fresh = 0, pg_examined = examined, pg_count = acted\<rparr>) (\<lambda>pg.
       if length rows < PAGE_SIZE then bindE (keep_cursor None) (\<lambda>_. returnE (pg_count pg))
       else if pg_fresh pg = 0 then
         bindE (trace (Said TieStepped)) (\<lambda>_.
           case parseIso (pg_newest pg) of
             None \<Rightarrow> bindE (keep_cursor None) (\<lambda>_. returnE (pg_count pg))
           | Some tied \<Rightarrow>
               sweep_pages deps base act keep_cursor pages (Some (nowIso (tied + 1000))) (pg_examined pg) (pg_count pg))
       else sweep_pages deps base act keep_cursor pages (pg_newest pg) (pg_examined pg) (pg_count pg)))"

section \<open>Scan 2: the User has answered\<close>

definition answered_base :: "constraint list" where
  "answered_base =
     [eq (conversationField ''status'') (JStr (status_name Waiting)),
      c_or [eq (conversationField ''waitingFor'') (JStr (waiting_name WF_User)),
            eq (conversationField ''waitingFor'') (JStr (waiting_name WF_Tool))],
      c_not (unset (conversationField ''currentQuestionId''))]"

text \<open>One waiting Conversation: 1 if it was continued.\<close>

definition heedQuestion :: "'w watcher_deps \<Rightarrow> conversation stored \<Rightarrow> ('w watching, int) io" where
  "heedQuestion deps row =
     (if \<not> truthy (currentQuestionId (data row)) then returnE 0
      else
        let questionId = coalesce (currentQuestionId (data row)) [] in
        bindE (attemptE (onStore (repo_get (wd_things deps) OpenQuestion_spec (''OpenQuestion_DM/'' @ questionId)))) (\<lambda>r.
        bindE (clock_now deps) (\<lambda>t. case r of
          Inl _ \<Rightarrow>
            bindE (updateConversation deps (docRef row) (without_question t questionId (data row))) (\<lambda>_.
            bindE (handleTurn deps (docRef row)) (\<lambda>_. returnE 1))
        | Inr question \<Rightarrow>
            let q = question_of (data question) in
            if \<not> isAnswered q then returnE 0
            else
              bindE (updateConversation deps (docRef row) (with_answer t questionId q (data row))) (\<lambda>_.
              bindE (handleTurn deps (docRef row)) (\<lambda>_. returnE 1)))))"

definition keepAnsweredCursor :: "string option \<Rightarrow> ('w watching, unit) io" where
  "keepAnsweredCursor cursor = modifyE (\<lambda>s. s\<lparr>answeredCursor := cursor\<rparr>)"

definition scanAnswered :: "'w watcher_deps \<Rightarrow> ('w watching, int) io" where
  "scanAnswered deps =
     bindE (getE answeredCursor) (\<lambda>cursor.
       sweep_pages deps answered_base (heedQuestion deps) keepAnsweredCursor ANSWERED_SCAN_MAX_PAGES cursor [] 0)"

section \<open>Scans 3 and 4: wake-ups and expired leases\<close>

definition timeout_entry :: entry where
  "timeout_entry = blank_entry\<lparr>e_role := Some ''system'', e_kind := Some ''timeout'',
     e_text := Some ''The time you asked to be woken at has passed. Carry on without the answer, or chase it.''\<rparr>"

definition woken :: "int \<Rightarrow> conversation \<Rightarrow> conversation" where
  "woken t c = (appendEntry t timeout_entry c)\<lparr>status := Some Running, waitingFor := Some WF_None, wakeAt := Some []\<rparr>"

definition wake :: "'w watcher_deps \<Rightarrow> int \<Rightarrow> conversation stored \<Rightarrow> int \<Rightarrow> ('w watching, int) io" where
  "wake deps limit row n =
     (if (case parseIso (wakeAt (data row)) of None \<Rightarrow> True | Some at \<Rightarrow> limit < at) then returnE n
      else
        bindE (clock_now deps) (\<lambda>t.
        bindE (updateConversation deps (docRef row) (woken t (data row))) (\<lambda>_.
        bindE (handleTurn deps (docRef row)) (\<lambda>_. returnE (n + 1)))))"

definition scanWoken :: "'w watcher_deps \<Rightarrow> ('w watching, int) io" where
  "scanWoken deps =
     bindE (clock_now deps) (\<lambda>stamp.
     bindE (searchConversations deps
       (c_and [eq (conversationField ''status'') (JStr (status_name Waiting)),
               c_not (unset (conversationField ''wakeAt'')),
               DateRange (conversationField ''wakeAt'') None (Some (nowIso stamp))])
       100 (byField Conversation_spec ''wakeAt'' ASC)) (\<lambda>waiting.
     bindE (clock_now deps) (\<lambda>t. foldE (wake deps t) waiting 0)))"

definition released :: "conversation \<Rightarrow> conversation" where
  "released c = c\<lparr>leaseUntil := Some []\<rparr>"

definition recoverLease :: "'w watcher_deps \<Rightarrow> int \<Rightarrow> conversation stored \<Rightarrow> int \<Rightarrow> ('w watching, int) io" where
  "recoverLease deps limit row n =
     (if (case parseIso (leaseUntil (data row)) of None \<Rightarrow> True | Some lease \<Rightarrow> limit < lease) then returnE n
      else
        bindE (updateConversation deps (docRef row) (released (data row))) (\<lambda>_.
        bindE (handleTurn deps (docRef row)) (\<lambda>_. returnE (n + 1))))"

definition scanExpiredLeases :: "'w watcher_deps \<Rightarrow> ('w watching, int) io" where
  "scanExpiredLeases deps =
     bindE (clock_now deps) (\<lambda>stamp.
     bindE (searchConversations deps
       (c_and [eq (conversationField ''status'') (JStr (status_name Running)),
               c_not (unset (conversationField ''leaseUntil'')),
               DateRange (conversationField ''leaseUntil'') None (Some (nowIso stamp))])
       100 (byField Conversation_spec ''leaseUntil'' ASC)) (\<lambda>running.
     bindE (clock_now deps) (\<lambda>t. foldE (recoverLease deps t) running 0)))"

section \<open>Scan 5: the results of called Assistants\<close>

definition delivery_base :: "constraint list" where
  "delivery_base =
     [c_or [eq (conversationField ''status'') (JStr (status_name Done)),
            eq (conversationField ''status'') (JStr (status_name Failed))],
      setButNot (conversationField ''parentConversationId'') (conversationField ''resultDeliveredAt'')]"

definition delivery_text :: "conversation \<Rightarrow> string" where
  "delivery_text child =
     (if status child = Some Failed
      then join nl [''The '' @ bold (shown (assistantKey child)) @ '' assistant you called did not finish.'', [],
             coalesce (c_lastError child) ''(no reason recorded)'', [], ''Decide what to do without it.'']
      else join nl [''The '' @ bold (shown (assistantKey child)) @ '' assistant you called has finished.'', [],
             coalesce (c_result child) ''(no result)''])"

definition delivery_entry :: "conversation \<Rightarrow> entry" where
  "delivery_entry child = blank_entry\<lparr>e_role := Some ''user'', e_kind := Some ''answer'',
     e_text := Some (delivery_text child)\<rparr>"

definition waits_for_assistant :: "conversation \<Rightarrow> bool" where
  "waits_for_assistant c \<longleftrightarrow> status c = Some Waiting \<and> waitingFor c = Some WF_Assistant"

definition with_delivery :: "int \<Rightarrow> conversation \<Rightarrow> conversation \<Rightarrow> conversation" where
  "with_delivery t child parent =
     (let told = appendEntry t (delivery_entry child) parent in
      if waits_for_assistant parent
      then told\<lparr>status := Some Running, waitingFor := Some WF_None, wakeAt := Some []\<rparr> else told)"

definition stampDelivered :: "'w watcher_deps \<Rightarrow> conversation stored \<Rightarrow> ('w watching, unit) io" where
  "stampDelivered deps child =
     bindE (clock_now deps) (\<lambda>t.
       updateConversation deps (docRef child) ((data child)\<lparr>resultDeliveredAt := Some (nowIso t)\<rparr>))"

definition tellParent :: "'w watcher_deps \<Rightarrow> conversation stored \<Rightarrow> string \<Rightarrow> ('w watching, int) io" where
  "tellParent deps child parentId =
     bindE (onStore (repo_get (wd_things deps) Conversation_spec (''Conversation_DM/'' @ parentId))) (\<lambda>found.
       let parent = map_stored conversation_of found in
       if status (data parent) = Some Done \<or> status (data parent) = Some Failed
       then bindE (stampDelivered deps child) (\<lambda>_. returnE 1)
       else
         bindE (clock_now deps) (\<lambda>t.
         bindE (updateConversation deps (docRef parent) (with_delivery t (data child) (data parent))) (\<lambda>_.
         bindE (stampDelivered deps child) (\<lambda>_.
         bindE (if waits_for_assistant (data parent) then handleTurn deps (docRef parent) else returnE ()) (\<lambda>_.
           returnE 1)))))"

definition deliverResult :: "'w watcher_deps \<Rightarrow> conversation stored \<Rightarrow> ('w watching, int) io" where
  "deliverResult deps child =
     (if \<not> truthy (parentConversationId (data child)) then returnE 0
      else catchE (tellParent deps child (coalesce (parentConversationId (data child)) [])) (\<lambda>_. returnE 0))"

definition keepDeliveryCursor :: "string option \<Rightarrow> ('w watching, unit) io" where
  "keepDeliveryCursor cursor = modifyE (\<lambda>s. s\<lparr>resultDeliveryCursor := cursor\<rparr>)"

definition scanResultDelivery :: "'w watcher_deps \<Rightarrow> ('w watching, int) io" where
  "scanResultDelivery deps =
     bindE (getE resultDeliveryCursor) (\<lambda>cursor.
       sweep_pages deps delivery_base (deliverResult deps) keepDeliveryCursor ANSWERED_SCAN_MAX_PAGES cursor [] 0)"

section \<open>Scan 6: running Conversations\<close>

definition runOne :: "'w watcher_deps \<Rightarrow> string list \<Rightarrow> conversation stored \<Rightarrow> int \<Rightarrow> ('w watching, int) io" where
  "runOne deps enabledKeys row n =
     bindE (getE wa_handled) (\<lambda>handled.
       if docRef row \<in> set handled then returnE n
       else if coalesce (assistantKey (data row)) [] \<notin> set enabledKeys then returnE n
       else bindE (runTurn deps (docRef row)) (\<lambda>_. returnE (n + 1)))"

definition scanRunnable :: "'w watcher_deps \<Rightarrow> string list \<Rightarrow> ('w watching, int) io" where
  "scanRunnable deps enabledKeys =
     bindE (searchConversations deps
       (c_and [eq (conversationField ''status'') (JStr (status_name Running)), unset (conversationField ''leaseUntil'')])
       50 []) (\<lambda>runnable.
       foldE (runOne deps enabledKeys) runnable 0)"

section \<open>Scan 7: Schedules\<close>

definition scheduledPrompt :: "cron_library \<Rightarrow> string \<Rightarrow> string \<Rightarrow> string" where
  "scheduledPrompt lib slot timezone = join nl
     [''This is a scheduled run. Nobody is waiting for it.'', [],
      ''Do the standing work your instructions describe: look at how things are **now** and act on'',
      ''what you find. This is not a backlog to work through '' @ [CHR 0xE2, CHR 0x80, CHR 0x94]
        @ '' earlier runs are done with, and if'',
      ''three were missed you are being asked once, about today.'', [],
      ''**If there is nothing to do, say so in a sentence and finish.** That is a complete and'',
      ''successful answer, and it is the usual one. Do not raise a question to report that there was'',
      ''nothing to report, and do not invent work to justify the run.'', [],
      ''If you do find something that needs a human, ask about **all of it in one question** rather'',
      ''than one question per item '' @ [CHR 0xE2, CHR 0x80, CHR 0x94]
        @ '' until that question is answered, this schedule does not run again.'', [],
      ''Scheduled for: '' @ describeInstant lib slot timezone @ ''.'']"

definition noteStalledSchedule :: "'w watcher_deps \<Rightarrow> string \<Rightarrow> string \<Rightarrow> ('w watching, unit) io" where
  "noteStalledSchedule deps akey slot =
     bindE (clock_now deps) (\<lambda>t. bindE (getE (\<lambda>s. stalledSlots s akey)) (\<lambda>previous.
       case previous of
         Some p \<Rightarrow>
           if ss_scheduledFor p \<noteq> slot then
             modifyE (\<lambda>s. s\<lparr>stalledSlots := (stalledSlots s)(akey \<mapsto> \<lparr>ss_scheduledFor = slot, ss_since = t, ss_warned = False\<rparr>)\<rparr>)
           else if ss_warned p \<or> t - ss_since p < STALLED_SCHEDULE_WARN_AFTER_MS then returnE ()
           else
             bindE (modifyE (\<lambda>s. s\<lparr>stalledSlots := (stalledSlots s)(akey \<mapsto> p\<lparr>ss_warned := True\<rparr>)\<rparr>)) (\<lambda>_.
               trace (Said (ScheduleHeld akey)))
       | None \<Rightarrow>
           modifyE (\<lambda>s. s\<lparr>stalledSlots := (stalledSlots s)(akey \<mapsto> \<lparr>ss_scheduledFor = slot, ss_since = t, ss_warned = False\<rparr>)\<rparr>)))"

definition noteBadCron :: "string \<Rightarrow> ('w watching, unit) io" where
  "noteBadCron akey =
     bindE (getE badCrons) (\<lambda>said.
       if akey \<in> set said then returnE ()
       else bindE (modifyE (\<lambda>s. s\<lparr>badCrons := akey # badCrons s\<rparr>)) (\<lambda>_. trace (Said (BadCron akey))))"

definition unstall :: "string \<Rightarrow> ('w watching, unit) io" where
  "unstall akey = modifyE (\<lambda>s. s\<lparr>stalledSlots := (stalledSlots s)(akey := None)\<rparr>)"

definition slot_birth :: "'w watcher_deps \<Rightarrow> assistant stored \<Rightarrow> string \<Rightarrow> birth_input" where
  "slot_birth deps a slot =
     (let akey = coalesce (a_key (data a)) [] in
      \<lparr>bi_assistant = a, bi_subjectThingId = None, bi_subjectModel = None, bi_scheduledFor = Some slot,
       bi_prompt = scheduledPrompt (wd_cron deps) slot (scheduleTimezone deps),
       bi_title = coalesce (a_name (data a)) akey @ '': scheduled '' @ describeInstant (wd_cron deps) slot (scheduleTimezone deps),
       bi_parentConversationId = None,
       bi_idempotencyKey = ''birth:'' @ akey @ '':'' @ slot\<rparr>)"

text \<open>
  One Schedule that is due: whether the scan goes on (\<open>False\<close> when the budget of the hour is spent), and
  the births so far.
\<close>

definition serve_slot :: "'w watcher_deps \<Rightarrow> assistant stored \<Rightarrow> string \<Rightarrow> int \<Rightarrow> ('w watching, bool \<times> int) io" where
  "serve_slot deps a slot n =
     (let akey = coalesce (a_key (data a)) [] in
      bindE (scheduledConversationExists deps akey slot) (\<lambda>served.
        if served then bindE (unstall akey) (\<lambda>_. returnE (True, n))
        else
          bindE (anyUnfinishedScheduledConversation deps akey) (\<lambda>unfinished.
            if unfinished then bindE (noteStalledSchedule deps akey slot) (\<lambda>_. returnE (True, n))
            else
              bindE (unstall akey) (\<lambda>_.
              bindE (withinBirthBudget deps) (\<lambda>within.
                if \<not> within then returnE (False, n)
                else bindE (give_birth deps (slot_birth deps a slot)) (\<lambda>_. returnE (True, n + 1)))))))"

definition serve_trigger :: "'w watcher_deps \<Rightarrow> int \<Rightarrow> assistant stored \<Rightarrow> trigger \<Rightarrow> int \<Rightarrow> ('w watching, bool \<times> int) io" where
  "serve_trigger deps t a trig n =
     (let akey = coalesce (a_key (data a)) []; expression = trim (coalesce (cron trig) []) in
      if t_kind trig \<noteq> Some ''schedule'' then returnE (True, n)
      else if expression = [] then bindE (noteBadCron akey) (\<lambda>_. returnE (True, n))
      else (case latestDueInstantBefore (wd_cron deps) t expression (scheduleTimezone deps) of
              Inl _ \<Rightarrow> bindE (noteBadCron akey) (\<lambda>_. returnE (True, n))
            | Inr None \<Rightarrow> returnE (True, n)
            | Inr (Some slot) \<Rightarrow> serve_slot deps a slot n))"

fun serve_all :: "'w watcher_deps \<Rightarrow> int \<Rightarrow> (assistant stored \<times> trigger) list \<Rightarrow> int \<Rightarrow> ('w watching, int) io" where
  "serve_all deps t [] n = returnE n"
| "serve_all deps t ((a, trig) # rest) n =
     bindE (serve_trigger deps t a trig n) (\<lambda>(on, n'). if on then serve_all deps t rest n' else returnE n')"

definition schedule_triggers :: "assistant stored list \<Rightarrow> (assistant stored \<times> trigger) list" where
  "schedule_triggers assistants = concat (map (\<lambda>a. map (Pair a) (coalesce (triggers (data a)) [])) assistants)"

definition scanScheduled :: "'w watcher_deps \<Rightarrow> assistant stored list \<Rightarrow> ('w watching, int) io" where
  "scanScheduled deps assistants =
     bindE (clock_now deps) (\<lambda>t. serve_all deps t (schedule_triggers assistants) 0)"

section \<open>A pass\<close>

definition empty_report :: scan_report where
  "empty_report = \<lparr>births = 0, continuations = 0, rp_paused = False, errors = 0, ingested = 0\<rparr>"

text \<open>The scans of a pass that neither misses its catalogue nor is paused.\<close>

definition all_scans :: "'w watcher_deps \<Rightarrow> ('w watching, scan_report) io" where
  "all_scans deps =
     bindE (onStore (repo_search (wd_things deps) Assistant_spec None 100 [])) (\<lambda>found.
     let assistants = filter (\<lambda>a. a_enabled (data a) \<noteq> Some False) (map (map_stored assistant_of) found);
         enabledKeys = map (\<lambda>a. coalesce (a_key (data a)) []) assistants
     in bindE (modifyE (\<lambda>s. s\<lparr>wa_handled := []\<rparr>)) (\<lambda>_.
        bindE (scanMailbox deps) (\<lambda>i.
        bindE (scanMaterialised deps assistants) (\<lambda>b1.
        bindE (scanAnswered deps) (\<lambda>c2.
        bindE (scanWoken deps) (\<lambda>c3.
        bindE (scanExpiredLeases deps) (\<lambda>c4.
        bindE (scanResultDelivery deps) (\<lambda>c5.
        bindE (scanRunnable deps enabledKeys) (\<lambda>c6.
        bindE (scanScheduled deps assistants) (\<lambda>b7.
        bindE (stampHeartbeat deps) (\<lambda>_.
          returnE (empty_report\<lparr>births := b1 + b7, continuations := c2 + c3 + c4 + c5 + c6, ingested := i\<rparr>))))))))))))"

definition scan :: "'w watcher_deps \<Rightarrow> ('w watching, scan_report) io" where
  "scan deps =
     bindE (catalogueIsThere deps) (\<lambda>there.
       if \<not> there then returnE (empty_report\<lparr>errors := 1\<rparr>)
       else
         bindE (loadState deps) (\<lambda>_.
         bindE runtimeState (\<lambda>st.
           if paused st = Some True then returnE (empty_report\<lparr>rp_paused := True\<rparr>)
           else all_scans deps)))"

end
