(* ===== verification/WatcherFacts.thy ===== *)
theory WatcherFacts
  imports Watcher MemoryStore
begin

text \<open>
  How the steps of a pass act on its trace and its state: rules for the basic steps, the invariant that
  every birth of the trace was allowed when it happened, and what the watermark may pass.
\<close>

section \<open>The basic steps\<close>

lemma wp_onStore:
  "(\<And>x w. Q x (s\<lparr>wa_world := w\<rparr>)) \<Longrightarrow> (\<And>e w. E e (s\<lparr>wa_world := w\<rparr>)) \<Longrightarrow> wp_of (onStore m) Q E s"
  by (auto simp: wp_of_def onStore_def split: prod.split sum.split)

lemma wp_trace [wp]: "wp_of (trace ev) Q E s = Q () (s\<lparr>wa_events := wa_events s @ [ev]\<rparr>)"
  by (simp add: trace_def wp)

lemma wp_clock_now [wp]: "wp_of (clock_now deps) Q E s = Q (cl_now (wd_things deps) (wa_world s)) s"
  by (simp add: clock_now_def wp)

lemma wp_runtimeState [wp]: "wp_of runtimeState Q E s = Q (data (wa_state s)) s"
  by (simp add: runtimeState_def wp)

lemma wp_setState [wp]:
  "wp_of (setState f) Q E s = Q () (s\<lparr>wa_state := (wa_state s)\<lparr>data := f (data (wa_state s))\<rparr>\<rparr>)"
  by (simp add: setState_def wp)

lemma wp_runTurn:
  "(\<And>w evs. Q () (s\<lparr>wa_world := w, wa_events := wa_events s @ [Turned ref evs]\<rparr>)) \<Longrightarrow> wp_of (runTurn deps ref) Q E s"
  by (simp add: runTurn_def wp_of_def split: prod.split)

lemma wp_then_return: "wp_of m (\<lambda>_. Q v) E s \<Longrightarrow> wp_of (bindE m (\<lambda>_. returnE v)) Q E s"
  by (simp add: wp_bindE) (erule wp_mono, simp_all add: wp)

lemma keeps_wp: "keeps I m \<longleftrightarrow> (\<forall>s. I s \<longrightarrow> wp_of m (\<lambda>_. I) (\<lambda>_. I) s)"
  by (simp add: keeps_triple wp_triple)

text \<open>
  The invariants of the trace: the events that \<open>R\<close> picks are \<open>M\<close>. With \<open>M\<close> empty, no event is such as
  \<open>R\<close> forbids.
\<close>

definition traced :: "('w scan_event \<Rightarrow> bool) \<Rightarrow> 'w scan_event list \<Rightarrow> 'w watching \<Rightarrow> bool" where
  "traced R M s \<longleftrightarrow> filter R (wa_events s) = M"

lemma traced_simps [simp]:
  "traced R M (s\<lparr>wa_world := w\<rparr>) = traced R M s" "traced R M (s\<lparr>wa_state := a\<rparr>) = traced R M s"
  "traced R M (s\<lparr>wa_handled := h\<rparr>) = traced R M s" "traced R M (s\<lparr>frozenFrontiers := b\<rparr>) = traced R M s"
  "traced R M (s\<lparr>badCrons := c\<rparr>) = traced R M s" "traced R M (s\<lparr>answeredCursor := d\<rparr>) = traced R M s"
  "traced R M (s\<lparr>resultDeliveryCursor := e\<rparr>) = traced R M s" "traced R M (s\<lparr>stalledSlots := f\<rparr>) = traced R M s"
  "traced R M (s\<lparr>catalogueMissing := g\<rparr>) = traced R M s" "traced R M (s\<lparr>mailboxPolledAt := i\<rparr>) = traced R M s"
  "traced R M (s\<lparr>mailboxFailing := j\<rparr>) = traced R M s"
  "\<not> R ev \<Longrightarrow> traced R M (s\<lparr>wa_events := wa_events t @ [ev]\<rparr>) \<longleftrightarrow> traced R M t"
  by (simp_all add: traced_def)

lemma keeps_traced_basic [keeps]:
  "keeps (traced R M) (onStore m)" "keeps (traced R M) (clock_now deps)" "keeps (traced R M) runtimeState"
  "keeps (traced R M) (setState f)" "\<not> R ev \<Longrightarrow> keeps (traced R M) (trace ev)"
  by (auto simp: keeps_wp wp intro: wp_onStore)

text \<open>\<open>R\<close> picks no Turn, write or notice.\<close>

definition indifferent :: "('w scan_event \<Rightarrow> bool) \<Rightarrow> bool" where
  "indifferent R \<longleftrightarrow> \<not> ((\<exists>ref evs. R (Turned ref evs)) \<or> (\<exists>ref c. R (Wrote ref c)) \<or> (\<exists>n. R (Said n)) \<or> (\<exists>at. R (Adopted at)))"

lemma indifferentD [simp]:
  assumes "indifferent R"
  shows "\<not> R (Turned ref evs)" "\<not> R (Wrote ref c)" "\<not> R (Said notice)" "\<not> R (Adopted at)"
  using assms by (simp_all add: indifferent_def)

lemma keeps_traced_steps [keeps]:
  assumes "indifferent R"
  shows "keeps (traced R M) (runTurn deps ref)" "keeps (traced R M) (updateConversation deps ref c)"
    "keeps (traced R M) (searchConversations deps q n srt)" "keeps (traced R M) noteMissingCatalogue"
    "keeps (traced R M) (noteFrozenFrontier deps m at)" "keeps (traced R M) (noteStalledSchedule deps a slot)"
    "keeps (traced R M) (noteBadCron a)" "keeps (traced R M) (unstall a)" "keeps (traced R M) (withinBirthBudget deps)"
    "keeps (traced R M) (isConversationRunning deps i)" "keeps (traced R M) (savePreservingHumanFields deps)"
    "keeps (traced R M) (anyConversation deps q)" "keeps (traced R M) (loadState deps)" "keeps (traced R M) (keepAnsweredCursor k)" "keeps (traced R M) (keepDeliveryCursor k)"
proof -
  note p = indifferentD [OF assms]
  show "keeps (traced R M) (runTurn deps ref)"
    by (auto simp: keeps_wp p intro!: wp_runTurn)
  show "keeps (traced R M) (updateConversation deps ref c)"
    by (auto simp: updateConversation_def p intro!: keeps)
  show "keeps (traced R M) (searchConversations deps q n srt)"
    by (auto simp: searchConversations_def p intro!: keeps)
  show "keeps (traced R M) noteMissingCatalogue"
    by (auto simp: noteMissingCatalogue_def p intro!: keeps)
  show "keeps (traced R M) (noteFrozenFrontier deps m at)"
    by (auto simp: noteFrozenFrontier_def p intro!: keeps)
  show "keeps (traced R M) (noteStalledSchedule deps a slot)"
    by (auto simp: noteStalledSchedule_def p intro!: keeps)
  show "keeps (traced R M) (noteBadCron a)"
    by (auto simp: noteBadCron_def p intro!: keeps)
  show "keeps (traced R M) (unstall a)"
    by (auto simp: unstall_def p intro!: keeps)
  show "keeps (traced R M) (withinBirthBudget deps)"
    by (auto simp: withinBirthBudget_def p intro!: keeps)
  show "keeps (traced R M) (isConversationRunning deps i)"
    by (auto simp: isConversationRunning_def p intro!: keeps)
  show "keeps (traced R M) (savePreservingHumanFields deps)"
    by (auto simp: savePreservingHumanFields_def saveState_def Let_def p intro!: keeps)
  show "keeps (traced R M) (anyConversation deps q)"
    by (auto simp: anyConversation_def searchConversations_def p intro!: keeps)
  show "keeps (traced R M) (loadState deps)"
    by (auto simp: loadState_def p intro!: keeps split: list.split)
  show "keeps (traced R M) (keepAnsweredCursor k)" "keeps (traced R M) (keepDeliveryCursor k)"
    by (auto simp: keepAnsweredCursor_def keepDeliveryCursor_def intro!: keeps)
qed

section \<open>What was true at a birth\<close>

text \<open>
  The hour's budget: its window is open and has a birth left, or the window was opened at that very
  instant.
\<close>

definition budget_left :: "'w watcher_deps \<Rightarrow> int \<Rightarrow> runtime_state \<Rightarrow> bool" where
  "budget_left deps t st \<longleftrightarrow>
     (\<exists>start. parseIso (birthWindowStartedAt st) = Some start \<and> t - start \<le> 3600000 \<and>
        coalesce (birthsThisHour st) 0 < maxBirthsPerHour deps) \<or>
     (birthWindowStartedAt st = Some (nowIso t) \<and> birthsThisHour st = Some 0)"

definition no_conversation :: "('w \<Rightarrow> view) \<Rightarrow> 'w \<Rightarrow> constraint \<Rightarrow> bool" where
  "no_conversation view w c \<longleftrightarrow> (\<forall>ref doc. view w ref = Some (''Conversation_DM'', doc) \<longrightarrow> \<not> matches doc c)"

definition first_of_its_kind :: "('w \<Rightarrow> view) \<Rightarrow> 'w \<Rightarrow> birth_input \<Rightarrow> bool" where
  "first_of_its_kind view w input \<longleftrightarrow>
     (let akey = coalesce (a_key (data (bi_assistant input))) [] in
      (\<exists>subject. bi_subjectThingId input = Some subject \<and> bi_scheduledFor input = None \<and>
         no_conversation view w (for_subject akey subject)) \<or>
      (\<exists>slot. bi_scheduledFor input = Some slot \<and> bi_subjectThingId input = None \<and>
         no_conversation view w (for_slot akey slot) \<and> no_conversation view w (unfinished_of akey)))"

text \<open>A birth that was not allowed when it happened.\<close>

definition forbidden :: "('w \<Rightarrow> view) \<Rightarrow> 'w watcher_deps \<Rightarrow> 'w scan_event \<Rightarrow> bool" where
  "forbidden view deps ev = (case ev of
     Birthed w st input \<Rightarrow> \<not> (first_of_its_kind view w input \<and> budget_left deps (cl_now (wd_things deps) w) st)
   | _ \<Rightarrow> False)"

lemma forbidden_simps [simp]:
  "indifferent (forbidden view deps)" "\<not> forbidden view deps (Held m r at)" "\<not> forbidden view deps (Decided m r at)"
  "forbidden view deps (Birthed w st input) \<longleftrightarrow>
     \<not> (first_of_its_kind view w input \<and> budget_left deps (cl_now (wd_things deps) w) st)"
  by (simp_all add: indifferent_def forbidden_def)

lemma wp_withinBirthBudget:
  assumes "\<And>st. budget_left deps (cl_now (wd_things deps) (wa_world s)) st \<Longrightarrow>
      Q True (s\<lparr>wa_state := (wa_state s)\<lparr>data := st\<rparr>\<rparr>)" and "Q False s"
  shows "wp_of (withinBirthBudget deps) Q E s"
proof -
  have "s\<lparr>wa_state := (wa_state s)\<lparr>data := data (wa_state s)\<rparr>\<rparr> = s" by simp
  with assms(1) [of "data (wa_state s)"] have "budget_left deps (cl_now (wd_things deps) (wa_world s)) (data (wa_state s)) \<Longrightarrow> Q True s"
    by simp
  with assms show ?thesis
    by (cases "coalesce (birthsThisHour (data (wa_state s))) 0 < maxBirthsPerHour deps")
      (auto simp: withinBirthBudget_def wp budget_left_def split: option.split)
qed

context thing_reader
begin

lemma wp_anyConversation:
  assumes "wd_things deps = cl"
    and "\<And>w. view w = view (wa_world s) \<Longrightarrow> no_conversation view w c \<Longrightarrow> Q False (s\<lparr>wa_world := w\<rparr>)"
    and "\<And>w. Q True (s\<lparr>wa_world := w\<rparr>)" and "\<And>e w. E e (s\<lparr>wa_world := w\<rparr>)"
  shows "wp_of (anyConversation deps c) Q E s"
proof -
  obtain r w where run: "repo_search cl Conversation_spec (Some c) 1 [] (wa_world s) = (r, w)" by fastforce
  have v: "view w = view (wa_world s)" using search_frame [of Conversation_spec "Some c" 1 "[]" "wa_world s"] run by simp
  have n: "no_conversation view w c" if "r = Inr []"
    using search_nothing [of Conversation_spec c 0 "[]" "wa_world s" w] run that v
    by (auto simp: no_conversation_def Conversation_spec_def)
  have q: "Q (rows \<noteq> []) (s\<lparr>wa_world := w\<rparr>)" if "r = Inr rows" for rows
    using assms(2) [OF v] assms(3) n that by (cases rows) auto
  have "wp_of (onStore (repo_search cl Conversation_spec (Some c) 1 [])) (\<lambda>rows. Q (rows \<noteq> [])) E s"
    using run q assms by (cases r) (simp_all add: wp_of_def onStore_def)
  then show ?thesis
    unfolding anyConversation_def searchConversations_def wp assms(1)
    by (rule wp_mono) (simp_all add: wp)
qed

lemma keeps_decide_thing:
  assumes "wd_things deps = cl"
  shows "keeps (traced (forbidden view deps) []) (decide_thing deps m thing as n)"
proof (induction as arbitrary: n)
  case Nil
  then show ?case by (simp add: keeps)
next
  case (Cons a as)
  let ?I = "traced (forbidden view deps) []"
  have b: "wp_of (bindE (withinBirthBudget deps) (\<lambda>within. if \<not> within then returnE (False, n)
        else bindE (give_birth deps (thing_birth m thing a)) (\<lambda>_. decide_thing deps m thing as (n + 1)))) (\<lambda>_. ?I) (\<lambda>_. ?I) s"
    if "?I s" "no_conversation view (wa_world s) (for_subject (coalesce (a_key (data a)) []) (thingId thing))" for s
    using that Cons.IH [of "n + 1"]
    by (auto simp: wp give_birth_def keeps_wp first_of_its_kind_def thing_birth_def assms
        intro!: wp_withinBirthBudget wp_onStore)
  show ?case
    using Cons.IH [of n] b
    by (auto simp: keeps_wp wp conversationExistsFor_def intro!: wp_anyConversation [OF assms])
qed

lemma keeps_serve_slot:
  assumes "wd_things deps = cl"
  shows "keeps (traced (forbidden view deps) []) (serve_slot deps a slot n)"
proof -
  let ?I = "traced (forbidden view deps) []"
  let ?akey = "coalesce (a_key (data a)) []"
  have b: "wp_of (bindE (withinBirthBudget deps) (\<lambda>within. if \<not> within then returnE (False, n)
        else bindE (give_birth deps (slot_birth deps a slot)) (\<lambda>_. returnE (True, n + 1)))) (\<lambda>_. ?I) (\<lambda>_. ?I) s"
    if "?I s" "no_conversation view (wa_world s) (for_slot ?akey slot)" "no_conversation view (wa_world s) (unfinished_of ?akey)" for s
    using that
    by (auto simp: wp give_birth_def first_of_its_kind_def slot_birth_def Let_def assms
        intro!: wp_withinBirthBudget wp_onStore)
  have u: "wp_of (bindE (unstall ?akey) (\<lambda>_. bindE (withinBirthBudget deps) (\<lambda>within. if \<not> within then returnE (False, n)
        else bindE (give_birth deps (slot_birth deps a slot)) (\<lambda>_. returnE (True, n + 1))))) (\<lambda>_. ?I) (\<lambda>_. ?I) s"
    if "?I s" "no_conversation view (wa_world s) (for_slot ?akey slot)" "no_conversation view (wa_world s) (unfinished_of ?akey)" for s
    unfolding unstall_def by (subst wp_bindE, subst wp_modifyE, rule b) (use that in simp_all)
  have k: "wp_of (bindE (noteStalledSchedule deps ?akey slot) (\<lambda>_. returnE (True, n))) (\<lambda>_. ?I) (\<lambda>_. ?I) s"
    "wp_of (bindE (unstall ?akey) (\<lambda>_. returnE (True, n))) (\<lambda>_. ?I) (\<lambda>_. ?I) s" if "?I s" for s
    by (insert that, rule keeps_wp [THEN iffD1, rule_format], auto intro!: keeps)+
  have f: "wp_of (bindE (anyConversation deps (unfinished_of ?akey)) (\<lambda>unfinished.
        if unfinished then bindE (noteStalledSchedule deps ?akey slot) (\<lambda>_. returnE (True, n))
        else bindE (unstall ?akey) (\<lambda>_. bindE (withinBirthBudget deps) (\<lambda>within. if \<not> within then returnE (False, n)
          else bindE (give_birth deps (slot_birth deps a slot)) (\<lambda>_. returnE (True, n + 1)))))) (\<lambda>_. ?I) (\<lambda>_. ?I) s"
    if "?I s" "no_conversation view (wa_world s) (for_slot ?akey slot)" for s
  proof (subst wp_bindE, rule wp_anyConversation [OF assms], goal_cases)
    case (1 w)
    with that have "no_conversation view w (for_slot ?akey slot)" by (simp add: no_conversation_def)
    with 1 that show ?case unfolding if_False by (intro u) simp_all
  qed (use that k(1) in simp_all)
  show ?thesis
    unfolding keeps_wp serve_slot_def Let_def scheduledConversationExists_def anyUnfinishedScheduledConversation_def
  proof (intro allI impI, subst wp_bindE, rule wp_anyConversation [OF assms], goal_cases)
    case (1 s w)
    then show ?case unfolding if_False by (intro f) simp_all
  qed (use k(2) in simp_all)
qed

lemma keeps_scan_thing:
  assumes "wd_things deps = cl"
  shows "keeps (traced (forbidden view deps) []) (scan_thing deps triggered mark seen m thing acc)"
  by (cases acc)
    (auto simp: scan_thing_def judge_def hold_back_def Let_def intro!: keeps keeps_decide_thing [OF assms])

lemma keeps_scan_model:
  assumes "wd_things deps = cl"
  shows "keeps (traced (forbidden view deps) []) (scan_model deps triggered mark seen m sw)"
  by (auto simp: scan_model_def close_model_def Let_def intro!: keeps keeps_scan_thing [OF assms])

lemma keeps_scanMaterialised:
  assumes "wd_things deps = cl"
  shows "keeps (traced (forbidden view deps) []) (scanMaterialised deps assistants)"
  by (auto simp: scanMaterialised_def stampMissingCreatedAt_def stamp_orphan_def move_watermark_def Let_def
      intro!: keeps keeps_scan_model [OF assms])

lemma keeps_scanScheduled:
  assumes "wd_things deps = cl"
  shows "keeps (traced (forbidden view deps) []) (scanScheduled deps assistants)"
proof -
  have "keeps (traced (forbidden view deps) []) (serve_trigger deps t a trig n)" for t a trig n
    by (auto simp: serve_trigger_def Let_def intro!: keeps keeps_serve_slot [OF assms])
  then have "keeps (traced (forbidden view deps) []) (serve_all deps t xs n)" for t xs n
    by (induction xs arbitrary: n) (auto intro!: keeps)
  then show ?thesis
    by (auto simp: scanScheduled_def intro!: keeps)
qed

end

section \<open>The scans that give no birth\<close>

lemma keeps_sweep:
  assumes "indifferent R" and "\<And>row. keeps (traced R M) (act row)" and "\<And>c. keeps (traced R M) (keep_cursor c)"
  shows "keeps (traced R M) (sweep_pages deps base act keep_cursor pages cursor examined n)"
proof (induction pages arbitrary: cursor examined n)
  case 0
  show ?case by (auto intro!: keeps assms)
next
  case (Suc pages)
  have "keeps (traced R M) (examine act row pg)" for row pg
    by (auto simp: examine_def Let_def intro!: keeps assms)
  with Suc show ?case
    using assms by (auto intro!: keeps)
qed

lemma keeps_other_scans:
  assumes "indifferent R"
  shows "keeps (traced R M) (catalogueIsThere deps)" "keeps (traced R M) (scanMailbox deps)"
    "keeps (traced R M) (scanAnswered deps)" "keeps (traced R M) (scanWoken deps)"
    "keeps (traced R M) (scanExpiredLeases deps)" "keeps (traced R M) (scanResultDelivery deps)"
    "keeps (traced R M) (scanRunnable deps keys)" "keeps (traced R M) (stampHeartbeat deps)"
proof -
  note p = assms indifferentD [OF assms]
  have turn: "keeps (traced R M) (handleTurn deps ref)" for ref
    by (auto simp: handleTurn_def p intro!: keeps)
  have heed: "keeps (traced R M) (heedQuestion deps row)" for row
    by (auto simp: heedQuestion_def Let_def p intro!: keeps turn)
  have tell: "keeps (traced R M) (deliverResult deps row)" for row
    by (auto simp: deliverResult_def tellParent_def stampDelivered_def Let_def p intro!: keeps turn)
  show "keeps (traced R M) (catalogueIsThere deps)"
    by (auto simp: catalogueIsThere_def p intro!: keeps)
  show "keeps (traced R M) (scanMailbox deps)"
    by (auto simp: scanMailbox_def Let_def p intro!: keeps)
  show "keeps (traced R M) (scanAnswered deps)"
    by (auto simp: scanAnswered_def p intro!: keeps keeps_sweep heed)
  show "keeps (traced R M) (scanWoken deps)"
    by (auto simp: scanWoken_def wake_def p intro!: keeps turn split: option.split)
  show "keeps (traced R M) (scanExpiredLeases deps)"
    by (auto simp: scanExpiredLeases_def recoverLease_def p intro!: keeps turn split: option.split)
  show "keeps (traced R M) (scanResultDelivery deps)"
    by (auto simp: scanResultDelivery_def p intro!: keeps keeps_sweep tell)
  show "keeps (traced R M) (scanRunnable deps keys)"
    by (auto simp: scanRunnable_def runOne_def p intro!: keeps)
  show "keeps (traced R M) (stampHeartbeat deps)"
    by (auto simp: stampHeartbeat_def p intro!: keeps)
qed

context thing_reader
begin

lemma keeps_scan:
  assumes "wd_things deps = cl"
  shows "keeps (traced (forbidden view deps) []) (scan deps)"
  by (auto simp: scan_def all_scans_def Let_def
      intro!: keeps keeps_other_scans keeps_scanMaterialised [OF assms] keeps_scanScheduled [OF assms])

end

end
