(* ===== verification/Watermark.thy ===== *)
theory Watermark
  imports WatcherFacts
begin

text \<open>
  The watermark of the materialised scan (\<open>scanMaterialised\<close> of \<open>runtime/src/watcher/watcher.ts\<close>): it may
  only pass a run of Things that were decided. The trace of the scan says of every Thing it looked at
  whether it was decided or held back, and the invariant of the scan relates that to its local variables.
\<close>

section \<open>Decisions of the trace\<close>

definition is_mark :: "'w scan_event \<Rightarrow> bool" where
  "is_mark ev = (case ev of Decided m ref at \<Rightarrow> True | Held m ref at \<Rightarrow> True | _ \<Rightarrow> False)"

lemma is_mark_simps [simp]:
  "indifferent is_mark" "\<not> is_mark (Birthed w st input)" "is_mark (Decided m ref at)" "is_mark (Held m ref at)"
  by (simp_all add: indifferent_def is_mark_def)

definition decided_refs :: "string \<Rightarrow> 'w scan_event list \<Rightarrow> string list" where
  "decided_refs at evs = concat (map (\<lambda>ev. case ev of Decided m ref a \<Rightarrow> if a = at then [ref] else [] | _ \<Rightarrow> []) evs)"

lemma decided_refs_simps [simp]:
  "decided_refs at [] = []"
  "decided_refs at (evs @ [Held m ref a]) = decided_refs at evs"
  "decided_refs at (evs @ [Decided m ref a]) = decided_refs at evs @ (if a = at then [ref] else [])"
  by (simp_all add: decided_refs_def)

lemma decided_refs_marks: "decided_refs at (filter is_mark evs) = decided_refs at evs"
  by (induction evs) (auto simp: decided_refs_def is_mark_def split: scan_event.splits)

text \<open>No Thing that was held back lies behind \<open>bound\<close>; a Thing without a stamp has no place to lie at.\<close>

definition held_ahead :: "string option \<Rightarrow> 'w scan_event list \<Rightarrow> bool" where
  "held_ahead bound evs \<longleftrightarrow>
     (\<forall>m ref at. Held m ref at \<in> set evs \<longrightarrow> at = [] \<or> (\<exists>x. bound = Some x \<and> x \<le> at))"

lemma held_ahead_snoc [simp]:
  "held_ahead bound (evs @ [Decided m ref at]) = held_ahead bound evs"
  "held_ahead bound (evs @ [Held m ref at]) \<longleftrightarrow>
     held_ahead bound evs \<and> (at = [] \<or> (\<exists>x. bound = Some x \<and> x \<le> at))"
  by (auto simp: held_ahead_def)

lemma lowest_le: "lowest c x \<le> x" "c = Some y \<Longrightarrow> lowest c x \<le> y"
  by (auto simp: lowest_def split: option.split)

lemma held_ahead_lowest: "held_ahead c evs \<Longrightarrow> held_ahead (Some (lowest c x)) evs"
  unfolding held_ahead_def using lowest_le(2) [of c _ x] by (metis (no_types) order_trans)

definition decided_ok :: "sweep \<Rightarrow> 'w scan_event list \<Rightarrow> bool" where
  "decided_ok sw evs \<longleftrightarrow> (\<forall>at. coalesce (decidedAt sw at) [] = decided_refs at evs)"

lemma decided_ok_simps [simp]:
  "decided_ok (sw\<lparr>sw_births := n\<rparr>) evs = decided_ok sw evs"
  "decided_ok (sw\<lparr>ceiling := x\<rparr>) evs = decided_ok sw evs"
  "decided_ok sw (evs @ [Held m ref at]) = decided_ok sw evs"
  "decided_ok sw evs \<Longrightarrow> decided_ok (decided at ref sw) (evs @ [Decided m ref at])"
  by (auto simp: decided_ok_def decided_def)

section \<open>What the steps leave alone\<close>

text \<open>The decisions of the trace, and the watermark with its boundary.\<close>

definition still :: "'w scan_event list \<Rightarrow> string option \<times> string option list option \<Rightarrow> 'w watching \<Rightarrow> bool" where
  "still M x s \<longleftrightarrow> traced is_mark M s \<and> (watermark (data (wa_state s)), watermarkDocRefs (data (wa_state s))) = x"

lemma keeps_still_basic [keeps]:
  "keeps (still M x) (onStore m)" "keeps (still M x) (clock_now deps)" "keeps (still M x) runtimeState"
  "\<not> is_mark ev \<Longrightarrow> keeps (still M x) (trace ev)"
  "(\<And>st. watermark (f st) = watermark st \<and> watermarkDocRefs (f st) = watermarkDocRefs st) \<Longrightarrow> keeps (still M x) (setState f)"
  by (auto simp: keeps_wp wp still_def intro!: wp_onStore)

lemma keeps_still [keeps]:
  "keeps (still M x) (anyConversation deps q)" "keeps (still M x) (withinBirthBudget deps)"
  "keeps (still M x) (isConversationRunning deps i)" "keeps (still M x) (noteFrozenFrontier deps m at)"
  "keeps (still M x) (give_birth deps input)"
  by (auto simp: anyConversation_def searchConversations_def withinBirthBudget_def isConversationRunning_def
      noteFrozenFrontier_def give_birth_def still_def [of _ _ "_\<lparr>frozenFrontiers := _\<rparr>"] intro!: keeps)
    (auto simp: still_def)

lemma keeps_still_decide [keeps]: "keeps (still M x) (decide_thing deps m thing as n)"
  by (induction as arbitrary: n) (auto simp: conversationExistsFor_def intro!: keeps)

lemma keeps_still_stamp [keeps]: "keeps (still M x) (stampMissingCreatedAt deps)"
  by (auto simp: stampMissingCreatedAt_def stamp_orphan_def intro!: keeps)

lemma wp_still:
  assumes "keeps (still M x) m" and "still M x s" and "\<And>y s'. still M x s' \<Longrightarrow> Q y s'"
  shows "wp_of m Q (\<lambda>_ _. True) s"
proof (rule wp_mono)
  show "wp_of m (\<lambda>_. still M x) (\<lambda>_. still M x) s" using assms(1,2) by (simp add: keeps_wp)
qed (simp_all add: assms(3))

section \<open>One page\<close>

text \<open>The stamps of a page's rows, oldest first; a row without one comes last.\<close>

definition stamp_of :: "props stored \<Rightarrow> string" where
  "stamp_of thing = text_field (data thing) ''createdAt''"

fun oldest_first :: "props stored list \<Rightarrow> bool" where
  "oldest_first [] \<longleftrightarrow> True"
| "oldest_first (r # rs) \<longleftrightarrow> (\<forall>x \<in> set rs. stamp_of x = [] \<or> stamp_of r \<le> stamp_of x) \<and> oldest_first rs"

text \<open>What the ceiling becomes if the page ends here.\<close>

definition would_be :: "front \<Rightarrow> sweep \<Rightarrow> string option" where
  "would_be f sw = (if frozen f then Some (lowest (ceiling sw) (coalesce (frontier f) [])) else ceiling sw)"

text \<open>The frontier is not ahead of any row still to come, except of those the scan passes over.\<close>

definition behind_rest :: "string option \<Rightarrow> front \<Rightarrow> props stored list \<Rightarrow> bool" where
  "behind_rest mark f rest \<longleftrightarrow> (frozen f \<longrightarrow> frontier f \<noteq> None) \<and>
     (\<forall>x. frontier f = Some x \<longrightarrow> (\<forall>r \<in> set rest. stamp_of r = [] \<or> x \<le> stamp_of r \<or>
        (truthy mark \<and> stamp_of r < coalesce mark [])))"

definition page_ok :: "string option \<Rightarrow> props stored list \<Rightarrow> front \<Rightarrow> sweep \<Rightarrow> 'w scan_event list \<Rightarrow> bool" where
  "page_ok mark rest f sw evs \<longleftrightarrow> behind_rest mark f rest \<and> held_ahead (would_be f sw) evs \<and> decided_ok sw evs"

lemma page_ok_skip: "page_ok mark (r # rest) f sw evs \<Longrightarrow> page_ok mark rest f sw evs"
  by (auto simp: page_ok_def behind_rest_def)

lemma page_ok_decided:
  assumes "page_ok mark (r # rest) f sw evs" and "oldest_first (r # rest)"
  shows "page_ok mark rest (advance_front (stamp_of r) f) (decided (stamp_of r) ref (sw\<lparr>sw_births := n\<rparr>))
    (evs @ [Decided m ref (stamp_of r)])"
proof -
  have w: "would_be (advance_front (stamp_of r) f) (decided (stamp_of r) ref (sw\<lparr>sw_births := n\<rparr>)) = would_be f sw"
    by (auto simp: would_be_def advance_front_def decided_def split: option.split)
  have b: "behind_rest mark (advance_front (stamp_of r) f) rest"
    using assms by (auto simp: page_ok_def behind_rest_def advance_front_def split: option.split_asm)
  show ?thesis
    unfolding page_ok_def w using assms(1) b by (simp add: page_ok_def)
qed

lemma page_ok_held:
  assumes "page_ok mark (r # rest) f sw evs" and "\<not> (truthy mark \<and> stamp_of r \<noteq> [] \<and> stamp_of r < coalesce mark [])"
  shows "page_ok mark rest (freeze mark ref reason f) (sw\<lparr>sw_births := n\<rparr>) (evs @ [Held m ref (stamp_of r)])"
proof -
  let ?f = "freeze mark ref reason f"
  have front: "stamp_of r = [] \<or> (\<exists>x. frontier ?f = Some x \<and> x \<le> stamp_of r)"
    using assms by (auto simp: page_ok_def behind_rest_def freeze_def truthy_def split: option.splits)
  have b: "behind_rest mark ?f rest"
    using assms(1) by (auto simp: page_ok_def behind_rest_def freeze_def truthy_def split: option.splits)
  have h: "held_ahead (would_be ?f sw) evs"
    using assms(1) held_ahead_lowest
    by (cases "frozen f") (auto simp: page_ok_def would_be_def freeze_def)
  have "stamp_of r = [] \<or> (\<exists>x. would_be ?f sw = Some x \<and> x \<le> stamp_of r)"
  proof -
    have "would_be ?f sw = Some (lowest (ceiling sw) x)" if "frontier ?f = Some x" for x
      using that by (simp add: would_be_def freeze_def split: if_splits)
    then show ?thesis using front lowest_le(1) order_trans by metis
  qed
  moreover have "would_be ?f (sw\<lparr>sw_births := n\<rparr>) = would_be ?f sw" by (simp add: would_be_def)
  ultimately show ?thesis
    using b h assms(1) by (simp add: page_ok_def)
qed

text \<open>The rounds of a page keep it so; nothing else of the state that matters here changes.\<close>

definition within_page :: "string option \<Rightarrow> props stored list \<Rightarrow> string option \<times> string option list option
    \<Rightarrow> front \<times> sweep \<Rightarrow> 'w watching \<Rightarrow> bool" where
  "within_page mark rest x = (\<lambda>(f, sw) s. \<exists>M. page_ok mark rest f sw M \<and> still M x s)"

lemma still_snoc: "still M x s \<Longrightarrow> is_mark ev \<Longrightarrow> still (M @ [ev]) x (s\<lparr>wa_events := wa_events s @ [ev]\<rparr>)"
  by (auto simp: still_def traced_def)

lemma wp_hold_back:
  assumes "page_ok mark (r # rest) f sw M" and "still M x s"
    and "\<not> (truthy mark \<and> stamp_of r \<noteq> [] \<and> stamp_of r < coalesce mark [])"
  shows "wp_of (hold_back mark m r reason f (sw\<lparr>sw_births := n\<rparr>)) (within_page mark rest x) (\<lambda>_ _. True) s"
  using page_ok_held [OF assms(1,3)] still_snoc [OF assms(2)]
  by (simp add: hold_back_def wp within_page_def stamp_of_def) (blast intro: is_mark_simps)

lemma wp_judge:
  assumes "page_ok mark (r # rest) f sw M" and "oldest_first (r # rest)" and "still M x s"
    and "\<not> (truthy mark \<and> stamp_of r \<noteq> [] \<and> stamp_of r < coalesce mark [])"
  shows "wp_of (judge deps triggered mark m r f sw) (within_page mark rest x) (\<lambda>_ _. True) s"
proof -
  have d: "wp_of (bindE (trace (Decided m (docRef r) (stamp_of r))) (\<lambda>_.
      returnE (advance_front (stamp_of r) f, decided (stamp_of r) (docRef r) (sw\<lparr>sw_births := n\<rparr>))))
      (within_page mark rest x) (\<lambda>_ _. True) t" if "still M x t" for t n
    using page_ok_decided [OF assms(1,2)] still_snoc [OF that]
    by (simp add: wp within_page_def) (blast intro: is_mark_simps)
  show ?thesis
    unfolding judge_def Let_def wp_bindE [of "decide_thing _ _ _ _ _"] stamp_of_def [symmetric]
    by (rule wp_still [OF keeps_still_decide assms(3)])
      (use d wp_hold_back [OF assms(1) _ assms(4)] in \<open>simp split: prod.split\<close>)
qed

lemma wp_scan_thing:
  assumes "within_page mark (r # rest) x acc s" and "oldest_first (r # rest)"
  shows "wp_of (scan_thing deps triggered mark seen m r acc) (within_page mark rest x) (\<lambda>_ _. True) s"
proof -
  obtain f sw M where acc: "acc = (f, sw)" and p: "page_ok mark (r # rest) f sw M" "still M x s"
    using assms(1) by (cases acc) (auto simp: within_page_def)
  let ?skip = "truthy mark \<and> stamp_of r \<noteq> [] \<and> stamp_of r < coalesce mark []"
  let ?creator = "text_field (data r) ''createdByConversationId''"
  show ?thesis
  proof (cases "docRef r \<in> set seen \<or> ?skip")
    case True
    then show ?thesis
      using page_ok_skip [OF p(1)] p(2)
      by (auto simp: acc scan_thing_def Let_def stamp_of_def [symmetric] wp within_page_def)
  next
    case False
    have "sw\<lparr>sw_births := sw_births sw\<rparr> = sw" by simp
    with False p wp_hold_back [OF p(1), of x _ m _ "sw_births sw"] wp_judge [OF p(1) assms(2), of x]
    have "wp_of (if running then hold_back mark m r reason f sw else judge deps triggered mark m r f sw)
        (within_page mark rest x) (\<lambda>_ _. True) t" if "still M x t" for t running reason
      using that by auto
    then have "wp_of (if ?creator \<noteq> [] then isConversationRunning deps ?creator else returnE False)
        (\<lambda>running. wp_of (if running then hold_back mark m r (''its creating Conversation '' @ ?creator @ '' is still running'') f sw
           else judge deps triggered mark m r f sw) (within_page mark rest x) (\<lambda>_ _. True)) (\<lambda>_ _. True) s"
      by (intro wp_still [OF _ p(2)]) (auto intro!: keeps)
    moreover have "scan_thing deps triggered mark seen m r acc =
        bindE (if ?creator \<noteq> [] then isConversationRunning deps ?creator else returnE False)
         (\<lambda>running. if running then hold_back mark m r (''its creating Conversation '' @ ?creator @ '' is still running'') f sw
           else judge deps triggered mark m r f sw)"
      using False by (auto simp: acc scan_thing_def stamp_of_def Let_def)
    ultimately show ?thesis by (simp only: wp_bindE)
  qed
qed

lemma wp_page:
  "within_page mark things x acc s \<Longrightarrow> oldest_first things \<Longrightarrow>
     wp_of (foldE (scan_thing deps triggered mark seen m) things acc) (within_page mark [] x) (\<lambda>_ _. True) s"
proof (induction things arbitrary: acc s)
  case Nil
  then show ?case by (simp add: wp)
next
  case (Cons r rest)
  have "wp_of (scan_thing deps triggered mark seen m r acc) (within_page mark rest x) (\<lambda>_ _. True) s"
    by (rule wp_scan_thing [OF Cons.prems])
  then have "wp_of (scan_thing deps triggered mark seen m r acc)
      (\<lambda>acc. wp_of (foldE (scan_thing deps triggered mark seen m) rest acc) (within_page mark [] x) (\<lambda>_ _. True)) (\<lambda>_ _. True) s"
    by (rule wp_mono) (use Cons in simp_all)
  then show ?case by (simp add: wp)
qed

section \<open>The scan\<close>

text \<open>Between the Models of the scan.\<close>

definition between :: "string option \<times> string option list option \<Rightarrow> sweep \<Rightarrow> 'w watching \<Rightarrow> bool" where
  "between x sw s \<longleftrightarrow> (\<exists>M. held_ahead (ceiling sw) M \<and> decided_ok sw M \<and> still M x s)"

lemma wp_close_model:
  assumes "within_page mark [] x (f, sw) s"
  shows "wp_of (close_model deps mark m n f sw) (between x) (\<lambda>_ _. True) s"
proof -
  obtain M where p: "page_ok mark [] f sw M" "still M x s"
    using assms by (auto simp: within_page_def)
  let ?front = "coalesce (frontier f) (coalesce mark [])"
  have front: "coalesce (frontier f) (coalesce mark []) = coalesce (frontier f) []" if "frozen f"
    using p(1) that by (auto simp: page_ok_def behind_rest_def)
  have b: "between x (sw\<lparr>ceiling := Some (lowest (ceiling sw) ?front)\<rparr>) t" if "still M x t" for t
    using p(1) that front held_ahead_lowest
    by (cases "frozen f") (auto simp: between_def page_ok_def would_be_def)
  have n: "between x sw t" if "still M x t" "\<not> frozen f" for t
    using p(1) that by (auto simp: between_def page_ok_def would_be_def)
  have w: "wp_of (modifyE (\<lambda>s. s\<lparr>frozenFrontiers := (frozenFrontiers s)(model_name m := None)\<rparr>))
      (\<lambda>_. still M x) (\<lambda>_ _. True) s" using p(2) by (simp add: wp still_def)
  show ?thesis
  proof (cases "frozen f")
    case True
    have "wp_of (noteFrozenFrontier deps (model_name m) ?front)
        (\<lambda>_. between x (sw\<lparr>ceiling := Some (lowest (ceiling sw) ?front)\<rparr>)) (\<lambda>_ _. True) s"
      by (rule wp_still [OF _ p(2) b]) (auto intro!: keeps)
    with True show ?thesis
      by (simp only: close_model_def Let_def if_True wp_then_return)
  next
    case False
    with n [OF _ False] b w show ?thesis
      by (auto simp: close_model_def Let_def wp still_def)
  qed
qed

lemma between_ceiling: "between x sw s \<Longrightarrow> between x (sw\<lparr>ceiling := Some (lowest (ceiling sw) y)\<rparr>) s"
  using held_ahead_lowest by (auto simp: between_def)

definition sorts_by_stamp :: "'w a12_client \<Rightarrow> bool" where
  "sorts_by_stamp cl \<longleftrightarrow> (\<forall>m c n w things w'.
     repo_search cl (SPECS m) c n (byCreatedAt (SPECS m) ASC) w = (Inr things, w') \<longrightarrow> oldest_first things)"

lemma wp_scan_model:
  assumes "sorts_by_stamp (wd_things deps)" and "between x sw s"
  shows "wp_of (scan_model deps triggered mark seen m sw) (between x) (\<lambda>_ _. True) s"
proof -
  let ?front = "\<lparr>frontier = None, frozen = False, blockedBy = None\<rparr>"
  have start: "within_page mark things x (?front, sw) t" if "between x sw t" for t things
    using that by (auto simp: between_def within_page_def page_ok_def behind_rest_def would_be_def)
  have page: "wp_of (bindE (foldE (scan_thing deps triggered mark seen m) things (?front, sw)) (\<lambda>(f, sw).
      close_model deps mark m (length things) f sw)) (between x) (\<lambda>_ _. True) t"
    if "between x sw t" "oldest_first things" for t things
    by (subst wp_bindE, rule wp_mono, rule wp_page [OF start [OF that(1)] that(2)])
      (auto intro: wp_close_model)
  have store: "wp_of (onStore (repo_search (wd_things deps) (SPECS m) c PAGE_SIZE (byCreatedAt (SPECS m) ASC)))
      (\<lambda>things t. oldest_first things \<and> between x sw t) (\<lambda>_. between x sw) s" for c
    using assms unfolding sorts_by_stamp_def
    by (auto simp: wp_of_def onStore_def between_def still_def split: prod.split sum.split) blast
  have "wp_of (attemptE (onStore (repo_search (wd_things deps) (SPECS m) c PAGE_SIZE (byCreatedAt (SPECS m) ASC))))
      (\<lambda>r. wp_of (case r of
          Inl _ \<Rightarrow> returnE (sw\<lparr>ceiling := Some (lowest (ceiling sw) (coalesce mark []))\<rparr>)
        | Inr things \<Rightarrow>
            bindE (foldE (scan_thing deps triggered mark seen m) things (?front, sw)) (\<lambda>(f, sw).
              close_model deps mark m (length things) f sw)) (between x) (\<lambda>_ _. True)) (\<lambda>_ _. True) s" for c
    by (subst wp_attemptE, rule wp_mono, rule store) (auto simp: wp_basic page between_ceiling)
  then show ?thesis
    by (simp add: scan_model_def Let_def wp)
qed

lemma wp_models:
  assumes "sorts_by_stamp (wd_things deps)" and "between x sw s"
  shows "wp_of (foldE (scan_model deps triggered mark seen) ms sw) (between x) (\<lambda>_ _. True) s"
  by (rule wp_foldE [OF assms(2) wp_scan_model [OF assms(1)]])

text \<open>Where the watermark stands after the scan.\<close>

definition well_placed :: "string option \<times> string option list option \<Rightarrow> 'w watching \<Rightarrow> bool" where
  "well_placed x s \<longleftrightarrow>
     (watermark (data (wa_state s)), watermarkDocRefs (data (wa_state s))) = x \<or>
     (\<exists>mark. watermark (data (wa_state s)) = Some mark \<and>
        (Adopted mark \<in> set (wa_events s) \<or>
         watermarkDocRefs (data (wa_state s)) = Some (map Some (decided_refs mark (wa_events s))) \<and>
         (\<forall>m ref at. Held m ref at \<in> set (wa_events s) \<longrightarrow> at = [] \<or> mark \<le> at)))"

lemma newest_seen_le: "ceiling sw = Some c \<Longrightarrow> newest_seen sw \<le> c"
  by (auto simp: newest_seen_def)

lemma wp_move_watermark:
  assumes "between x sw s"
  shows "wp_of (move_watermark deps mark sw) (\<lambda>_. well_placed x) (\<lambda>_ _. True) s"
proof -
  obtain M where M: "held_ahead (ceiling sw) M" "decided_ok sw M" "still M x s"
    using assms by (auto simp: between_def)
  let ?m = "newest_seen sw"
  have evs: "filter is_mark (wa_events s) = M" using M(3) by (simp add: still_def traced_def)
  have refs: "coalesce (decidedAt sw ?m) [] = decided_refs ?m (wa_events s)"
    using M(2) decided_refs_marks [of ?m "wa_events s"] by (simp add: decided_ok_def evs)
  have held: "at = [] \<or> ?m \<le> at" if "Held m ref at \<in> set (wa_events s)" for m ref at
  proof -
    have "Held m ref at \<in> set M" using that by (simp add: evs [symmetric])
    then have "at = [] \<or> (\<exists>c. ceiling sw = Some c \<and> c \<le> at)"
      using M(1) unfolding held_ahead_def by blast
    then show ?thesis using newest_seen_le order_trans by metis
  qed
  let ?t = "s\<lparr>wa_state := (wa_state s)\<lparr>data := (data (wa_state s))\<lparr>watermark := Some ?m,
      watermarkDocRefs := Some (map Some (coalesce (decidedAt sw ?m) []))\<rparr>\<rparr>\<rparr>"
  have unadopted: "well_placed x (?t\<lparr>wa_world := w\<rparr>)" for w
    using held refs by (auto simp: well_placed_def)
  have "wp_of (savePreservingHumanFields deps) (\<lambda>_. well_placed x) (\<lambda>_ _. True) ?t"
    unfolding savePreservingHumanFields_def saveState_def Let_def
    using unadopted held refs
    by (auto simp: wp carry_watermark_def watermark_is_theirs_def well_placed_def split: sum.split
        intro!: wp_onStore)
  with M(3) show ?thesis
    by (auto simp: move_watermark_def Let_def wp well_placed_def still_def)
qed

lemma wp_scanMaterialised:
  assumes "sorts_by_stamp (wd_things deps)" and "wa_events s = []"
  shows "wp_of (scanMaterialised deps assistants)
    (\<lambda>_. well_placed (watermark (data (wa_state s)), watermarkDocRefs (data (wa_state s)))) (\<lambda>_ _. True) s"
proof -
  let ?x = "(watermark (data (wa_state s)), watermarkDocRefs (data (wa_state s)))"
  have start: "still [] ?x s" using assms(2) by (simp add: still_def traced_def)
  have placed: "well_placed ?x t" if "still [] ?x t" for t using that by (simp add: still_def well_placed_def)
  have models: "wp_of (bindE (foldE (scan_model deps tr mark seen) TRIGGER_ELIGIBLE_MODELS sw) (\<lambda>sw.
      bindE (move_watermark deps mark sw) (\<lambda>_. returnE (sw_births sw)))) (\<lambda>_. well_placed ?x) (\<lambda>_ _. True) t"
    if "between ?x sw t" for tr mark seen sw t
    by (subst wp_bindE, rule wp_mono, rule wp_models [OF assms(1) that])
      (auto intro!: wp_then_return wp_move_watermark)
  have empty: "between ?x \<lparr>sw_births = 0, newestDecided = a, ceiling = None, decidedAt = Map.empty\<rparr> t"
    if "still [] ?x t" for a t
    using that by (auto simp: between_def held_ahead_def decided_ok_def intro!: exI [of _ "[]"])
  have rest: "wp_of (bindE (stampMissingCreatedAt deps) (\<lambda>_. bindE (foldE (scan_model deps tr mark seen) TRIGGER_ELIGIBLE_MODELS
      \<lparr>sw_births = 0, newestDecided = a, ceiling = None, decidedAt = Map.empty\<rparr>) (\<lambda>sw.
      bindE (move_watermark deps mark sw) (\<lambda>_. returnE (sw_births sw))))) (\<lambda>_. well_placed ?x) (\<lambda>_ _. True) t"
    if "still [] ?x t" for tr mark seen a t
    by (subst wp_bindE, rule wp_still [OF keeps_still_stamp that], rule models, rule empty)
  have budget: "wp_of (bindE (withinBirthBudget deps) (\<lambda>within. if \<not> within then returnE 0
      else bindE (stampMissingCreatedAt deps) (\<lambda>_. bindE (foldE (scan_model deps tr mark seen) TRIGGER_ELIGIBLE_MODELS
      \<lparr>sw_births = 0, newestDecided = a, ceiling = None, decidedAt = Map.empty\<rparr>) (\<lambda>sw.
      bindE (move_watermark deps mark sw) (\<lambda>_. returnE (sw_births sw)))))) (\<lambda>_. well_placed ?x) (\<lambda>_ _. True) s" for tr mark seen a
    by (subst wp_bindE, rule wp_still [OF keeps_still(2) start]) (auto simp: wp_basic intro: placed rest)
  show ?thesis
    using placed [OF start] budget by (simp add: scanMaterialised_def Let_def wp_runtimeState wp_bindE [of runtimeState] wp_basic)
qed

end
