(* ===== verification/Household.thy ===== *)
theory Household
  imports Watermark Sample
begin

text \<open>
  A small household on which the properties of the watcher are evaluated: a ThingStore that answers
  queries over a fixed list of documents and takes every write without keeping it, with one Operation, one
  Assistant that reads Documents, one running Conversation and three Documents, the second of which that
  Conversation is still creating.
\<close>

section \<open>The documents\<close>

definition letter :: "string \<Rightarrow> string \<Rightarrow> string \<Rightarrow> doc_spec" where
  "letter i at creator = \<lparr>ds_docRef = ''Document_DM/'' @ i, ds_model = ''Document_DM'', ds_document =
     document_of Document_spec [(''CreatedAt'', JStr at), (''CreatedByConversationId'', JStr creator)]\<rparr>"

definition reader_doc :: doc_spec where
  "reader_doc = \<lparr>ds_docRef = ''Assistant_DM/a'', ds_model = ''Assistant_DM'', ds_document =
     document_of Assistant_spec [(''Key'', JStr ''reader''), (''Triggers'', JArr [JObj
       [(''TriggerKind'', JStr ''thing-materialised''), (''TriggerModelFilter'', JStr ''Document_DM'')]])]\<rparr>"

definition state_doc :: doc_spec where
  "state_doc = \<lparr>ds_docRef = ''RuntimeState_DM/r'', ds_model = ''RuntimeState_DM'', ds_document =
     document_of RuntimeState_spec [(''SingletonKey'', JStr ''the-one''), (''Watermark'', JStr ''2026-01-01T00:00:00'')]\<rparr>"

definition busy_doc :: doc_spec where
  "busy_doc = \<lparr>ds_docRef = ''Conversation_DM/c'', ds_model = ''Conversation_DM'', ds_document =
     document_of Conversation_spec [(''Status'', JStr ''running'')]\<rparr>"

definition household :: "doc_spec list" where
  "household = [operation_doc ''read'', reader_doc, state_doc, busy_doc,
     letter ''d0'' ''2026-01-02T00:00:00'' [], letter ''d1'' ''2026-01-03T00:00:00'' ''c'',
     letter ''d2'' ''2026-01-04T00:00:00'' []]"

definition picked :: "query_spec \<Rightarrow> doc_spec list" where
  "picked q = filter (\<lambda>d. satisfies q (ds_model d) (ds_document d)) household"

text \<open>Eight in the morning of 5 January 2026.\<close>

definition morning :: int where
  "morning = 1767600000000"

definition home_client :: "unit a12_client" where
  "home_client = \<lparr>
     cl_getDocument = (\<lambda>ref. case find (\<lambda>d. ds_docRef d = ref) household of
        None \<Rightarrow> throwE (no_document ref) | Some d \<Rightarrow> returnE d),
     cl_modifyDocument = (\<lambda>ref doc. returnE ()),
     cl_addDocument = (\<lambda>m doc. returnE ''m/new''),
     cl_deleteDocument = (\<lambda>ref. returnE ()),
     cl_query = (\<lambda>q. returnE (take (qs_pageSize q) (picked q))),
     cl_now = (\<lambda>_. morning)\<rparr>"

definition home_view :: "unit \<Rightarrow> view" where
  "home_view w = map_of (map (\<lambda>d. (ds_docRef d, (ds_model d, ds_document d))) household)"

definition home_deps :: "unit watcher_deps" where
  "home_deps = \<lparr>wd_things = home_client, wd_driver = still_deps started [assistant_doc] (Inr (calls_response [])),
     maxBirthsPerHour = 5, scheduleTimezone = ''UTC'', wd_cron = autumn, pollMailbox = None,
     mailPollIntervalMs = None, wd_birth = (\<lambda>input. returnE ''Conversation_DM/new'')\<rparr>"

definition woken_up :: "unit watching" where
  "woken_up = \<lparr>frozenFrontiers = Map.empty, badCrons = [], answeredCursor = None, resultDeliveryCursor = None,
     stalledSlots = Map.empty, catalogueMissing = False, mailboxPolledAt = None, mailboxFailing = False,
     wa_state = map_stored runtime_state_of (toStored RuntimeState_spec state_doc),
     wa_handled = [], wa_world = (), wa_events = []\<rparr>"

lemma home_reads: "thing_reader home_client home_view"
proof (unfold_locales, goal_cases)
  case (1 q w)
  show ?case by (simp add: home_client_def run_basic)
next
  case (2 q w things w' ref m doc)
  then have "things = picked q"
    by (auto simp: home_client_def run_basic split: if_splits)
  moreover from 2(4) obtain d where "d \<in> set household" "ds_docRef d = ref" "ds_model d = m" "ds_document d = doc"
    by (auto simp: home_view_def dest!: map_of_SomeD)
  ultimately show ?case using 2(5) by (auto simp: picked_def)
qed

section \<open>What it answers\<close>

lemma home_search:
  "repo_search home_client spec c n srt w = (Inr (map (toStored spec) (take n (picked
     \<lparr>qs_target = model_name (ms_model spec), qs_constraint = c, qs_sort = srt, qs_pageNumber = 0, qs_pageSize = n\<rparr>))), w)"
  by (simp add: repo_search_def home_client_def run_basic)

lemma home_update: "find (\<lambda>d. ds_docRef d = ref) household = Some d \<Longrightarrow> repo_update home_client spec ref ps w = (Inr (), w)"
  by (simp add: repo_update_def home_client_def run_basic)

lemma home_get:
  "find (\<lambda>d. ds_docRef d = ref) household = Some d \<Longrightarrow> repo_get home_client spec ref w = (Inr (toStored spec d), w)"
  by (simp add: repo_get_def home_client_def run_basic)

text \<open>A query does not depend on its sort and its page.\<close>

definition finds :: "model_spec \<Rightarrow> constraint option \<Rightarrow> doc_spec list" where
  "finds spec c = picked \<lparr>qs_target = model_name (ms_model spec), qs_constraint = c, qs_sort = [], qs_pageNumber = 0, qs_pageSize = 1\<rparr>"

lemma home_search_finds: "repo_search home_client spec c n srt w = (Inr (map (toStored spec) (take n (finds spec c))), w)"
  by (simp add: home_search finds_def picked_def satisfies_def)

lemma found_documents:
  "finds Document_spec (Some (DateRange (fieldPath Document_spec ''createdAt'') (Some ''2026-01-01T00:00:00'')
      (Some (nowIso (morning + 60000))))) = drop 4 household"
  "finds Document_spec (Some (unset (fieldPath Document_spec ''createdAt''))) = []"
  "finds Operation_spec None = [operation_doc ''read'']" "finds Assistant_spec None = [reader_doc]"
  "finds RuntimeState_spec (Some (eq (fieldPath RuntimeState_spec ''singletonKey'') (JStr RUNTIME_STATE_KEY))) = [state_doc]"
  by code_simp+

lemma found_nothing:
  "finds Invoice_spec c = []" "finds Process_spec c = []" "finds Party_spec c = []"
  by code_simp+

lemma found_conversations:
  "finds Conversation_spec (Some (for_subject akey subject)) = []"
  "finds Conversation_spec (Some (c_and (answered_base @ from_cursor None))) = []"
  "finds Conversation_spec (Some (c_and (delivery_base @ from_cursor None))) = []"
  "finds Conversation_spec (Some (c_and [eq (conversationField ''status'') (JStr ''running''),
     unset (conversationField ''leaseUntil'')])) = [busy_doc]"
  "finds Conversation_spec (Some (c_and [eq (conversationField ''status'') (JStr ''waiting''),
     c_not (unset (conversationField ''wakeAt'')), DateRange (conversationField ''wakeAt'') None (Some (nowIso morning))])) = []"
  "finds Conversation_spec (Some (c_and [eq (conversationField ''status'') (JStr ''running''),
     c_not (unset (conversationField ''leaseUntil'')), DateRange (conversationField ''leaseUntil'') None (Some (nowIso morning))])) = []"
  by code_simp+

lemma found_by_ref:
  "find (\<lambda>d. ds_docRef d = ''Conversation_DM/c'') household = Some busy_doc"
  "find (\<lambda>d. ds_docRef d = ''RuntimeState_DM/r'') household = Some state_doc"
  by code_simp+

definition reader :: "assistant stored" where
  "reader = map_stored assistant_of (toStored Assistant_spec reader_doc)"

definition home_state :: "runtime_state stored" where
  "home_state = map_stored runtime_state_of (toStored RuntimeState_spec state_doc)"

definition busy :: "conversation stored" where
  "busy = map_stored conversation_of (toStored Conversation_spec busy_doc)"

definition old_letter :: "props stored" where
  "old_letter = toStored Document_spec (letter ''d0'' ''2026-01-02T00:00:00'' [])"

definition pending_letter :: "props stored" where
  "pending_letter = toStored Document_spec (letter ''d1'' ''2026-01-03T00:00:00'' ''c'')"

definition new_letter :: "props stored" where
  "new_letter = toStored Document_spec (letter ''d2'' ''2026-01-04T00:00:00'' [])"

lemma letters: "map (toStored Document_spec) (drop 4 household) = [old_letter, pending_letter, new_letter]"
  by (simp add: old_letter_def pending_letter_def new_letter_def household_def)

lemma letter_values:
  "docRef old_letter = ''Document_DM/d0''" "docRef pending_letter = ''Document_DM/d1''" "docRef new_letter = ''Document_DM/d2''"
  "thingId old_letter = ''d0''" "thingId pending_letter = ''d1''" "thingId new_letter = ''d2''"
  "text_field (data old_letter) ''createdAt'' = ''2026-01-02T00:00:00''"
  "text_field (data pending_letter) ''createdAt'' = ''2026-01-03T00:00:00''"
  "text_field (data new_letter) ''createdAt'' = ''2026-01-04T00:00:00''"
  "text_field (data old_letter) ''createdByConversationId'' = []"
  "text_field (data pending_letter) ''createdByConversationId'' = ''c''"
  "text_field (data new_letter) ''createdByConversationId'' = []"
  by code_simp+

lemma stamps_ordered:
  "''2026-01-02T00:00:00'' < ''2026-01-03T00:00:00''" "''2026-01-03T00:00:00'' < ''2026-01-04T00:00:00''"
  "''2026-01-02T00:00:00'' < ''2026-01-04T00:00:00''" "''2026-01-01T00:00:00'' < ''2026-01-02T00:00:00''"
  "''2026-01-01T00:00:00'' < ''2026-01-03T00:00:00''" "''2026-01-01T00:00:00'' < ''2026-01-04T00:00:00''"
  by code_simp+

lemmas stamps_not_after = stamps_ordered [THEN order_less_asym]

lemma state_values:
  "watermark (runtime_state_of (data (toStored RuntimeState_spec state_doc))) = Some ''2026-01-01T00:00:00''"
  "watermarkDocRefs (runtime_state_of (data (toStored RuntimeState_spec state_doc))) = None"
  "paused (runtime_state_of (data (toStored RuntimeState_spec state_doc))) = None"
  "status (conversation_of (data (toStored Conversation_spec busy_doc))) = Some Running"
  by code_simp+

lemma home_values:
  "triggered_by_things [reader] = [reader]" "wants ''Document_DM'' reader"
  "a_key (data reader) = Some ''reader''" "a_enabled (data reader) = None" "coalesce (assistantKey (data busy)) [] = []"
  "schedule_triggers [reader] = [(reader, \<lparr>t_kind = Some ''thing-materialised'', modelFilter = Some ''Document_DM'', cron = None\<rparr>)]"
  "status (data busy) = Some Running" "docRef busy = ''Conversation_DM/c''"
  "watermark (data home_state) = Some ''2026-01-01T00:00:00''" "watermarkDocRefs (data home_state) = None"
  "birthWindowStartedAt (data home_state) = None" "paused (data home_state) = None" "docRef home_state = ''RuntimeState_DM/r''"
  by code_simp+

lemma home_fields:
  "wd_things home_deps = home_client" "maxBirthsPerHour home_deps = 5" "pollMailbox home_deps = None"
  "wd_birth home_deps = (\<lambda>input. returnE ''Conversation_DM/new'')" "cl_now home_client w = morning"
  by (simp_all add: home_deps_def home_client_def)

lemma woken_up_fields:
  "frozenFrontiers woken_up = Map.empty" "wa_events woken_up = []" "wa_handled woken_up = []"
  "answeredCursor woken_up = None" "resultDeliveryCursor woken_up = None" "catalogueMissing woken_up = False"
  "wa_state woken_up = home_state" "wa_world woken_up = ()"
  by (simp_all add: woken_up_def home_state_def)

section \<open>A pass\<close>

lemma run_watching:
  "trace ev s = (Inr (), s\<lparr>wa_events := wa_events s @ [ev]\<rparr>)"
  "onStore m s = (case m (wa_world s) of (r, w) \<Rightarrow> (r, s\<lparr>wa_world := w\<rparr>))"
  "clock_now deps s = (Inr (cl_now (wd_things deps) (wa_world s)), s)"
  "runtimeState s = (Inr (data (wa_state s)), s)"
  "setState f s = (Inr (), s\<lparr>wa_state := (wa_state s)\<lparr>data := f (data (wa_state s))\<rparr>\<rparr>)"
  by (simp_all add: trace_def onStore_def clock_now_def runtimeState_def setState_def run_basic run_modify)

lemmas run_home = state_values run_basic run_watching run_modify home_fields home_values Let_def home_search_finds found_by_ref

lemma window_open: "parseIso (Some (nowIso morning)) = Some morning"
  by code_simp

lemma empty_model:
  "m \<in> {Invoice_DM, Process_DM, Party_DM} \<Longrightarrow> scan_model home_deps triggered mark seen m sw s
     = (Inr sw, s\<lparr>frozenFrontiers := (frozenFrontiers s)(model_name m := None)\<rparr>)"
  by (auto simp: scan_model_def run_home found_nothing close_model_def PAGE_SIZE_def)

lemma letters_page: "map (toStored Document_spec) (take 100 (drop 4 household)) = [old_letter, pending_letter, new_letter]"
  "length household = 7"
  using letters by (simp_all add: household_def)

text \<open>What the RuntimeState is when each Document is given its Conversation, and after the scan.\<close>

definition first_ration :: runtime_state where
  "first_ration = (data home_state)\<lparr>birthsThisHour := Some 0, birthWindowStartedAt := Some (nowIso morning)\<rparr>"

definition second_ration :: runtime_state where
  "second_ration = first_ration\<lparr>birthsThisHour := Some 1\<rparr>"

definition spent_ration :: runtime_state where
  "spent_ration = first_ration\<lparr>birthsThisHour := Some 2, watermark := Some ''2026-01-02T00:00:00'',
     watermarkDocRefs := Some [Some ''Document_DM/d0''], paused := None\<rparr>"

definition morning_events :: "unit scan_event list" where
  "morning_events =
     [Birthed () first_ration (thing_birth Document_DM old_letter reader),
      Decided Document_DM ''Document_DM/d0'' ''2026-01-02T00:00:00'',
      Held Document_DM ''Document_DM/d1'' ''2026-01-03T00:00:00'',
      Birthed () second_ration (thing_birth Document_DM new_letter reader),
      Decided Document_DM ''Document_DM/d2'' ''2026-01-04T00:00:00'']"

lemma home_materialised:
  assumes "frozenFrontiers s = Map.empty" "wa_events s = []" "wa_state s = home_state"
  shows "scanMaterialised home_deps [reader] s = (Inr 2, s\<lparr>wa_world := (),
     frozenFrontiers := [''Document_DM'' \<mapsto> \<lparr>ff_at = ''2026-01-02T00:00:00'', ff_since = morning, ff_warned = False\<rparr>],
     wa_events := morning_events, wa_state := home_state\<lparr>data := spent_ration\<rparr>\<rparr>)"
  using assms
  by (simp add: scanMaterialised_def run_home withinBirthBudget_def
    stampMissingCreatedAt_def TRIGGER_ELIGIBLE_MODELS_def empty_model window_open found_documents found_nothing
    scan_model_def [of _ _ _ _ Document_DM] letters letters_page
    scan_thing_def letter_values stamps_not_after stamps_ordered judge_def hold_back_def
    conversationExistsFor_def anyConversation_def searchConversations_def found_conversations give_birth_def isConversationRunning_def home_get
    freeze_def advance_front_def decided_def close_model_def noteFrozenFrontier_def lowest_def PAGE_SIZE_def
    move_watermark_def newest_seen_def savePreservingHumanFields_def saveState_def home_update watermark_is_theirs_def carry_watermark_def
    first_ration_def second_ration_def spent_ration_def morning_events_def)

definition after_breakfast :: runtime_state where
  "after_breakfast = spent_ration\<lparr>heartbeatAt := Some (nowIso morning)\<rparr>"

lemma same_world: "(s :: unit watching)\<lparr>wa_world := ()\<rparr> = s"
  by simp

lemma home_folds:
  "map_stored assistant_of (toStored Assistant_spec reader_doc) = reader"
  "map_stored runtime_state_of (toStored RuntimeState_spec state_doc) = home_state"
  "map_stored conversation_of (toStored Conversation_spec busy_doc) = busy"
  by (simp_all add: reader_def home_state_def busy_def)

lemma home_catalogue: "\<not> catalogueMissing s \<Longrightarrow> catalogueIsThere home_deps s = (Inr True, s)"
  by (simp add: catalogueIsThere_def run_home found_documents same_world PAGE_SIZE_def)

lemma home_loads: "loadState home_deps s = (Inr (), s\<lparr>wa_state := home_state\<rparr>)"
  by (simp add: loadState_def run_home found_documents same_world home_folds)

lemma home_quiet:
  "answeredCursor s = None \<Longrightarrow> scanAnswered home_deps s = (Inr 0, s)"
  "scanWoken home_deps s = (Inr 0, s)" "scanExpiredLeases home_deps s = (Inr 0, s)"
  "resultDeliveryCursor s = None \<Longrightarrow> scanResultDelivery home_deps s = (Inr 0, s)"
  "scanRunnable home_deps [''reader''] s = (Inr 0, s)"
  "scanScheduled home_deps [reader] s = (Inr 0, s)"
  by (simp_all add: scanAnswered_def scanWoken_def scanExpiredLeases_def scanResultDelivery_def scanRunnable_def
    scanScheduled_def run_home searchConversations_def found_conversations same_world ANSWERED_SCAN_MAX_PAGES_def
    keepAnsweredCursor_def keepDeliveryCursor_def home_folds home_values runOne_def numeral_3_eq_3 PAGE_SIZE_def serve_trigger_def)

lemma home_heartbeat:
  "wa_state s = home_state\<lparr>data := spent_ration\<rparr> \<Longrightarrow>
   stampHeartbeat home_deps s = (Inr (), s\<lparr>wa_state := home_state\<lparr>data := after_breakfast\<rparr>\<rparr>)"
  by (simp add: stampHeartbeat_def run_home savePreservingHumanFields_def home_get home_update saveState_def same_world home_folds
    carry_watermark_def watermark_is_theirs_def stamps_not_after stamps_ordered spent_ration_def after_breakfast_def first_ration_def)

lemma home_scan:
  "scan home_deps woken_up = (Inr (empty_report\<lparr>births := 2\<rparr>), woken_up\<lparr>
     frozenFrontiers := [''Document_DM'' \<mapsto> \<lparr>ff_at = ''2026-01-02T00:00:00'', ff_since = morning, ff_warned = False\<rparr>],
     wa_events := morning_events, wa_state := home_state\<lparr>data := after_breakfast\<rparr>\<rparr>)"
  by (simp add: scan_def all_scans_def home_catalogue home_loads home_quiet home_heartbeat home_materialised run_home
    found_documents home_folds same_world woken_up_fields scanMailbox_def empty_report_def)

end
