(* ===== verification/WatcherProperties.thy ===== *)
theory WatcherProperties
  imports Household
begin

text \<open>
  What a pass of the watcher guarantees (\<open>runtime/src/watcher/watcher.ts\<close>), evaluated on the small
  household: births are budgeted firsts, the watermark passes nothing held back, the kill switch holds, a
  result is delivered before it is stamped, and only what may run is run.
\<close>

section \<open>Births\<close>

text \<open>
  C3. A pass gives birth to a Conversation only as the first of its kind and within the budget of the hour:
  when it happens, no Conversation of that Assistant for that Thing, respectively for that slot of its
  schedule, is in the ThingStore, no scheduled Conversation of the Assistant is unfinished, and the window of
  the hour has a birth left or was opened at that very instant.
\<close>

theorem births_are_budgeted_firsts:
  assumes "thing_reader (wd_things deps) view" and "wa_events s = []"
    and "Birthed w st input \<in> set (wa_events (snd (scan deps s)))"
  shows "first_of_its_kind view w input \<and> budget_left deps (cl_now (wd_things deps) w) st"
proof -
  have "keeps (traced (forbidden view deps) []) (scan deps)"
    by (rule thing_reader.keeps_scan [OF assms(1) refl])
  from keepsD [OF this, of s] assms(2,3) have "\<not> forbidden view deps (Birthed w st input)"
    by (auto simp: traced_def filter_empty_conv)
  then show ?thesis by simp
qed

theorem births_are_budgeted_firsts_witness:
  "first_of_its_kind home_view () (thing_birth Document_DM new_letter reader) \<and>
   budget_left home_deps morning second_ration"
proof -
  have "Birthed () second_ration (thing_birth Document_DM new_letter reader) \<in> set (wa_events (snd (scan home_deps woken_up)))"
    by (simp add: home_scan morning_events_def)
  from births_are_budgeted_firsts [OF _ _ this, of home_view] home_reads show ?thesis
    by (simp add: home_fields woken_up_fields)
qed

section \<open>The watermark\<close>

lemma oldest_first_filter: "oldest_first (map f xs) \<Longrightarrow> oldest_first (map f (filter P xs))"
  by (induction xs) auto

lemma oldest_first_take: "oldest_first xs \<Longrightarrow> oldest_first (take n xs)"
  by (induction xs arbitrary: n) (auto simp: take_Cons dest: in_set_takeD split: nat.split)

lemma home_sorts: "sorts_by_stamp home_client"
proof -
  have models: "ds_model (letter i at k) = ''Document_DM''" "ds_model (operation_doc i) = ''Operation_DM''"
    "ds_model reader_doc = ''Assistant_DM''" "ds_model state_doc = ''RuntimeState_DM''" "ds_model busy_doc = ''Conversation_DM''" for i at k
    by (simp_all add: letter_def operation_doc_def reader_doc_def state_doc_def busy_doc_def)
  have spec: "SPECS Document_DM = Document_spec" by (simp add: spec_defs)
  have one: "oldest_first (map (toStored (SPECS m)) (filter (\<lambda>d. ds_model d = model_name m) household))" for m
    by (cases m) (simp_all add: household_def models spec stamp_of_def letter_values stamps_ordered less_imp_le
      flip: old_letter_def pending_letter_def new_letter_def)
  have "finds (SPECS m) c = filter (\<lambda>d. \<forall>k. c = Some k \<longrightarrow> matches (ds_document d) k)
      (filter (\<lambda>d. ds_model d = model_name m) household)" for m c
    by (cases m; cases c) (simp_all add: finds_def picked_def satisfies_def spec_defs conj_commute)
  then have "oldest_first (map (toStored (SPECS m)) (take n (finds (SPECS m) c)))" for m c n
    unfolding take_map [symmetric] by (simp only: oldest_first_take [OF oldest_first_filter [OF one]])
  then show ?thesis by (auto simp: sorts_by_stamp_def home_search_finds home_fields)
qed

text \<open>
  C8. The watermark of the materialised scan never passes a Thing the scan held back, because its creating
  Conversation is still running or the hour's births are spent. When the scan returns, either the watermark
  and its boundary are as they were, or another writer's watermark was found ahead and adopted, or it
  stands at a stamp that no Thing held back lies before, with the Things decided at that very stamp, and
  no others, as the boundary: whatever was held back is looked at again by the next scan.
\<close>

theorem watermark_passes_nothing_held:
  assumes "sorts_by_stamp (wd_things deps)" and "wa_events s = []"
    and "scanMaterialised deps assistants s = (Inr n, s')"
  shows "watermark (data (wa_state s')) = watermark (data (wa_state s)) \<and>
      watermarkDocRefs (data (wa_state s')) = watermarkDocRefs (data (wa_state s)) \<or>
    (\<exists>mark. watermark (data (wa_state s')) = Some mark \<and>
      (Adopted mark \<in> set (wa_events s') \<or>
       watermarkDocRefs (data (wa_state s')) = Some (map Some (decided_refs mark (wa_events s'))) \<and>
       (\<forall>m ref at. Held m ref at \<in> set (wa_events s') \<longrightarrow> at = [] \<or> mark \<le> at)))"
proof -
  let ?x = "(watermark (data (wa_state s)), watermarkDocRefs (data (wa_state s)))"
  have "wp_of (scanMaterialised deps assistants) (\<lambda>_. well_placed ?x) (\<lambda>_ _. True) s"
    using wp_scanMaterialised [OF assms(1,2)] .
  from wp_return [OF assms(3) this] show ?thesis by (auto simp: well_placed_def)
qed

theorem watermark_passes_nothing_held_witness:
  "\<exists>s'. scanMaterialised home_deps [reader] (woken_up\<lparr>wa_state := home_state\<rparr>) = (Inr 2, s') \<and>
     watermark (data (wa_state s')) = Some ''2026-01-02T00:00:00'' \<and>
     Held Document_DM ''Document_DM/d1'' ''2026-01-03T00:00:00'' \<in> set (wa_events s') \<and>
     watermarkDocRefs (data (wa_state s')) = Some (map Some (decided_refs ''2026-01-02T00:00:00'' (wa_events s')))"
proof -
  let ?s = "woken_up\<lparr>wa_state := home_state\<rparr>"
  have run: "scanMaterialised home_deps [reader] ?s = (Inr 2, ?s\<lparr>wa_world := (),
     frozenFrontiers := [''Document_DM'' \<mapsto> \<lparr>ff_at = ''2026-01-02T00:00:00'', ff_since = morning, ff_warned = False\<rparr>],
     wa_events := morning_events, wa_state := home_state\<lparr>data := spent_ration\<rparr>\<rparr>)" (is "_ = (_, ?s')")
    by (rule home_materialised) (simp_all add: woken_up_fields)
  have "watermark (data (wa_state ?s')) = Some ''2026-01-02T00:00:00''" by (simp add: spent_ration_def)
  with watermark_passes_nothing_held [OF _ _ run] home_sorts run show ?thesis
    by (auto simp: home_fields woken_up_fields home_values morning_events_def)
qed

end
