(* ===== verification/WatcherStore.thy ===== *)
theory WatcherStore
  imports WatcherFacts Services
begin

text \<open>
  What the steps of a pass do to the ThingStore behind the contract \<open>thing_client\<close>: what they only read,
  and what they leave in it.
\<close>

section \<open>Reading\<close>

text \<open>Nothing was done since \<open>evs\<close> but to say something, and the ThingStore is as it was.\<close>

definition undisturbed :: "('w \<Rightarrow> view) \<Rightarrow> ('w \<Rightarrow> bool) \<Rightarrow> view \<Rightarrow> 'w scan_event list \<Rightarrow> 'w watching \<Rightarrow> bool" where
  "undisturbed view ok v evs s \<longleftrightarrow>
     ok (wa_world s) \<and> view (wa_world s) = v \<and> (\<exists>ns. wa_events s = evs @ map Said ns)"

lemma undisturbed_simps [simp]:
  "undisturbed view ok v evs (s\<lparr>catalogueMissing := b\<rparr>) = undisturbed view ok v evs s"
  "undisturbed view ok v evs (s\<lparr>wa_state := x\<rparr>) = undisturbed view ok v evs s"
  by (simp_all add: undisturbed_def)

lemma undisturbed_said: "undisturbed view ok v evs s \<Longrightarrow> undisturbed view ok v evs (s\<lparr>wa_events := wa_events s @ [Said n]\<rparr>)"
proof -
  assume "undisturbed view ok v evs s"
  then obtain ns where "wa_events s = evs @ map Said ns" "ok (wa_world s)" "view (wa_world s) = v"
    by (auto simp: undisturbed_def)
  then show ?thesis by (auto simp: undisturbed_def intro!: exI [of _ "ns @ [n]"])
qed

lemma keeps_undisturbed_said [keeps]: "keeps (undisturbed view ok v evs) (trace (Said n))"
  by (auto simp: keeps_wp wp intro: undisturbed_said)

context thing_client
begin

lemma keeps_undisturbed_search [keeps]: "keeps (undisturbed view inv v evs) (onStore (repo_search cl spec c n srt))"
proof (rule keepsI)
  fix s assume q: "undisturbed view inv v evs s"
  obtain r w where run: "repo_search cl spec c n srt (wa_world s) = (r, w)" by fastforce
  have "view w = view (wa_world s)" using search_frame [of spec c n srt "wa_world s"] run by simp
  moreover have "inv w" using inv_repo(3) [of spec c n srt] q run by (metis keepsD undisturbed_def snd_conv)
  ultimately show "undisturbed view inv v evs (snd (onStore (repo_search cl spec c n srt) s))"
    using q run by (simp add: onStore_def undisturbed_def)
qed

lemma keeps_undisturbed_catalogue:
  assumes "wd_things deps = cl"
  shows "keeps (undisturbed view inv v evs) (catalogueIsThere deps)"
  by (auto simp: catalogueIsThere_def noteMissingCatalogue_def assms intro!: keeps)

end

text \<open>Every RuntimeState of the store says that the Runtime is paused, and there is one.\<close>

definition of_runtime :: "props \<Rightarrow> bool" where
  "of_runtime doc \<longleftrightarrow> matches doc (eq (fieldPath RuntimeState_spec ''singletonKey'') (JStr RUNTIME_STATE_KEY))"

definition kill_switch_pulled :: "view \<Rightarrow> bool" where
  "kill_switch_pulled v \<longleftrightarrow>
     (\<exists>ref doc. v ref = Some (''RuntimeState_DM'', doc) \<and> of_runtime doc) \<and>
     (\<forall>ref doc. v ref = Some (''RuntimeState_DM'', doc) \<and> of_runtime doc \<longrightarrow>
        paused (runtime_state_of (fromDocument RuntimeState_spec doc)) = Some True)"

context thing_client
begin

lemma wp_loadState_paused:
  assumes "wd_things deps = cl" and "undisturbed view inv v evs s" and "kill_switch_pulled v"
    and "\<And>s'. undisturbed view inv v evs s' \<Longrightarrow> paused (data (wa_state s')) = Some True \<Longrightarrow> Q () s'"
    and "\<And>e s'. undisturbed view inv v evs s' \<Longrightarrow> E e s'"
  shows "wp_of (loadState deps) Q E s"
proof -
  let ?c = "eq (fieldPath RuntimeState_spec ''singletonKey'') (JStr RUNTIME_STATE_KEY)"
  obtain r w where run: "repo_search cl RuntimeState_spec (Some ?c) 2 [] (wa_world s) = (r, w)" by fastforce
  have q: "undisturbed view inv v evs (s\<lparr>wa_world := w\<rparr>)"
    using keeps_undisturbed_search [of v evs RuntimeState_spec "Some ?c" 2 "[]"] assms(2) run
    by (auto simp: keeps_def triple_def onStore_def split: prod.splits)
  have v: "view (wa_world s) = v" "inv (wa_world s)" using assms(2) by (auto simp: undisturbed_def)
  show ?thesis
  proof (cases r)
    case (Inl e)
    with run q assms show ?thesis by (simp add: loadState_def wp_of_def onStore_def bindE_def)
  next
    case (Inr rows)
    note res = search_result [OF v(2) run [unfolded Inr]]
    have name: "model_name (ms_model RuntimeState_spec) = ''RuntimeState_DM''" by (simp add: RuntimeState_spec_def)
    have "rows \<noteq> []"
      using res(4) assms(3) unfolding kill_switch_pulled_def of_runtime_def name v by fastforce
    then obtain t rest where rows: "rows = t # rest" by (cases rows) auto
    have "paused (runtime_state_of (data t)) = Some True"
      using res(3) [of t] assms(3) rows unfolding kill_switch_pulled_def of_runtime_def name v by auto
    with Inr rows run q assms(1,4) show ?thesis
      by (simp add: loadState_def wp_of_def onStore_def bindE_def returnE_def modifyE_def)
  qed
qed

lemma paused_scan:
  assumes "wd_things deps = cl" and "inv (wa_world s)" and "kill_switch_pulled (view (wa_world s))"
  shows "wp_of (scan deps) (\<lambda>rep s'. undisturbed view inv (view (wa_world s)) (wa_events s) s' \<and>
           births rep = 0 \<and> continuations rep = 0 \<and> ingested rep = 0)
         (\<lambda>_. undisturbed view inv (view (wa_world s)) (wa_events s)) s"
proof -
  let ?q = "undisturbed view inv (view (wa_world s)) (wa_events s)"
  have "?q s" using assms(2) by (simp add: undisturbed_def)
  then have c: "wp_of (catalogueIsThere deps) (\<lambda>_. ?q) (\<lambda>_. ?q) s"
    using keeps_undisturbed_catalogue [OF assms(1)] by (simp add: keeps_wp)
  show ?thesis
    unfolding scan_def wp_bindE
    by (rule wp_mono [OF c]) (auto simp: wp empty_report_def intro!: wp_loadState_paused [OF assms(1) _ assms(3)])
qed

end

section \<open>Saving the RuntimeState\<close>

lemma read_merged:
  assumes "wf_spec spec" "(a, b) \<in> set (ms_fields spec)" "a \<noteq> ''updatedAt''"
  shows "pget (fromDocument spec (merged_document spec doc t d)) a
    = (if pget d a = JUndef then pget (fromDocument spec doc) a else pget d a)"
  using merged_field [OF assms] body_data_field [OF assms(1,2)] by (simp add: fromDocument_alt body_of_def)

text \<open>What another writer may rely on once \<open>ours\<close> has been saved over \<open>fresh\<close>.\<close>

definition honours :: "runtime_state \<Rightarrow> runtime_state \<Rightarrow> runtime_state \<Rightarrow> bool" where
  "honours fresh ours stored \<longleftrightarrow> paused stored = paused fresh \<and>
     coalesce (watermark stored) [] = max (coalesce (watermark fresh) []) (coalesce (watermark ours) [])"

lemma as_bool_eq: "as_bool (j_bool b) = b" "j_bool b = JUndef \<longleftrightarrow> b = None" "j_str s = JUndef \<longleftrightarrow> s = None"
  by (simp_all add: as_bool_def j_bool_def j_str_def split: option.split)

lemma carried_watermark:
  "coalesce (watermark (carry_watermark fresh ours)) [] = max (coalesce (watermark fresh) []) (coalesce (watermark ours) [])"
  by (auto simp: carry_watermark_def watermark_is_theirs_def max_def not_le)

lemma saved_state_honours:
  assumes "fresh = runtime_state_of (fromDocument RuntimeState_spec doc)"
    and "d = runtime_state_data ((carry_watermark fresh ours)\<lparr>paused := paused fresh\<rparr>)"
  shows "honours fresh ours (runtime_state_of (fromDocument RuntimeState_spec (merged_document RuntimeState_spec doc t d)))"
proof -
  let ?new = "fromDocument RuntimeState_spec (merged_document RuntimeState_spec doc t d)"
  have p: "pget ?new ''paused'' = (if paused fresh = None then pget (fromDocument RuntimeState_spec doc) ''paused'' else j_bool (paused fresh))"
    using read_merged [OF wf_SPECS_9, of "''paused''" "''Paused''" doc t d]
    by (simp add: assms(2) RuntimeState_spec_def runtime_state_data_def as_bool_eq)
  have w: "pget ?new ''watermark'' = (if watermark (carry_watermark fresh ours) = None
      then pget (fromDocument RuntimeState_spec doc) ''watermark'' else j_str (watermark (carry_watermark fresh ours)))"
    using read_merged [OF wf_SPECS_9, of "''watermark''" "''Watermark''" doc t d]
    by (simp add: assms(2) RuntimeState_spec_def runtime_state_data_def as_bool_eq)
  have reads: "paused (runtime_state_of ps) = as_bool (pget ps ''paused'')" "watermark (runtime_state_of ps) = as_str (pget ps ''watermark'')" for ps
    by (simp_all add: runtime_state_of_def machine_fields.defs runtime_state.defs)
  have "coalesce (watermark (runtime_state_of ?new)) [] = coalesce (watermark (carry_watermark fresh ours)) []"
    using w assms(1) carried_watermark [of fresh ours] by (auto simp: reads max_def split: if_splits)
  then show ?thesis
    using p assms(1) by (simp add: honours_def carried_watermark reads as_bool_eq)
qed

context thing_client
begin

lemma saved:
  assumes "wd_things deps = cl" and "savePreservingHumanFields deps s = (Inr (), s')"
  shows "view (wa_world s') = view (wa_world s) \<and> wa_state s' = wa_state s \<or>
    (\<exists>m doc doc'. view (wa_world s) (docRef (wa_state s)) = Some (m, doc) \<and>
       view (wa_world s') = (view (wa_world s))(docRef (wa_state s) \<mapsto> (m, doc')) \<and>
       honours (runtime_state_of (fromDocument RuntimeState_spec doc)) (data (wa_state s))
         (runtime_state_of (fromDocument RuntimeState_spec doc')))"
proof -
  let ?ref = "docRef (wa_state s)"
  obtain r w1 where g: "repo_get cl RuntimeState_spec ?ref (wa_world s) = (r, w1)" by fastforce
  have v1: "view w1 = view (wa_world s)"
    using get_frame [of ?ref "wa_world s"] g by (auto simp: repo_get_def io_defs split: prod.splits sum.splits)
  show ?thesis
  proof (cases r)
    case (Inl e)
    with assms g v1 show ?thesis
      by (auto simp: savePreservingHumanFields_def io_defs onStore_def)
  next
    case (Inr t)
    let ?fresh = "runtime_state_of (data t)"
    let ?d = "runtime_state_data ((carry_watermark ?fresh (data (wa_state s)))\<lparr>paused := paused ?fresh\<rparr>)"
    from get_result [OF g [unfolded Inr]] obtain m doc where doc: "view (wa_world s) ?ref = Some (m, doc)"
      "data t = fromDocument RuntimeState_spec doc" by auto
    obtain r2 w2 where u: "repo_update cl RuntimeState_spec ?ref ?d w1 = (r2, w2)" by fastforce
    from assms g Inr u have "r2 = Inr ()" "wa_world s' = w2"
      by (auto simp: savePreservingHumanFields_def saveState_def io_defs onStore_def trace_def setState_def Let_def
          split: sum.splits if_splits)
    with update_result [OF u [unfolded this]] obtain m' doc0 t' where
      "view w1 ?ref = Some (m', doc0)" "view w2 = (view w1)(?ref \<mapsto> (m', merged_document RuntimeState_spec doc0 t' ?d))"
      by blast
    with v1 doc saved_state_honours [of ?fresh doc ?d "data (wa_state s)" t'] \<open>wa_world s' = w2\<close> show ?thesis
      by auto
  qed
qed

end

section \<open>Delivering a result\<close>

definition finished :: "conversation \<Rightarrow> bool" where
  "finished c \<longleftrightarrow> status c = Some Done \<or> status c = Some Failed"

text \<open>
  What delivering the result of \<open>child\<close> to \<open>parent\<close> records when it succeeds: a parent that has moved on is
  left alone; otherwise it is told first, the child is stamped after, and a parent that waited for it takes
  its Turn last.
\<close>

definition told_then_stamped :: "conversation stored \<Rightarrow> string \<Rightarrow> conversation \<Rightarrow> 'w scan_event list \<Rightarrow> bool" where
  "told_then_stamped child ref parent evs \<longleftrightarrow>
     (\<exists>at. let stamp = Wrote (docRef child) ((data child)\<lparr>resultDeliveredAt := Some (nowIso at)\<rparr>) in
        if finished parent then evs = [stamp]
        else (\<exists>t turns. evs = Wrote ref (with_delivery t (data child) parent) # stamp # turns \<and>
                (if waits_for_assistant parent then \<exists>log. turns = [Turned ref log] else turns = [])))"

definition told_at_most :: "conversation stored \<Rightarrow> string \<Rightarrow> conversation \<Rightarrow> 'w scan_event list \<Rightarrow> bool" where
  "told_at_most child ref parent evs \<longleftrightarrow> evs = [] \<or> (\<exists>t. evs = [Wrote ref (with_delivery t (data child) parent)])"

lemma run_update:
  "updateConversation deps ref c s = (r, s') \<Longrightarrow>
     (r = Inr () \<and> wa_events s' = wa_events s @ [Wrote ref c]) \<or> (\<exists>e. r = Inl e \<and> wa_events s' = wa_events s)"
  by (auto simp: updateConversation_def trace_def onStore_def io_defs split: prod.splits sum.splits)

lemma run_stamp:
  assumes "stampDelivered deps child s = (r, s')"
  shows "(\<exists>at. r = Inr () \<and> wa_events s' = wa_events s @ [Wrote (docRef child) ((data child)\<lparr>resultDeliveredAt := Some (nowIso at)\<rparr>)])
    \<or> (\<exists>e. r = Inl e \<and> wa_events s' = wa_events s)"
proof -
  have "updateConversation deps (docRef child) ((data child)\<lparr>resultDeliveredAt :=
      Some (nowIso (cl_now (wd_things deps) (wa_world s)))\<rparr>) s = (r, s')"
    using assms by (simp add: stampDelivered_def clock_now_def io_defs)
  from run_update [OF this] show ?thesis by blast
qed

lemma run_handleTurn: "\<exists>log s'. handleTurn deps ref s = (Inr (), s') \<and> wa_events s' = wa_events s @ [Turned ref log]"
  by (auto simp: handleTurn_def runTurn_def io_defs split: prod.split)

context thing_client
begin

lemma read_conversation:
  assumes "onStore (repo_get cl Conversation_spec ref) s = (Inr found, s')"
  shows "wa_events s' = wa_events s"
    "\<exists>m doc. view (wa_world s) ref = Some (m, doc) \<and> docRef found = ref \<and> data found = fromDocument Conversation_spec doc"
  using assms get_result by (fastforce simp: onStore_def split: prod.splits)+

lemma delivered:
  assumes "wd_things deps = cl" and "parentConversationId (data child) = Some p" and "p \<noteq> []"
    and "deliverResult deps child s = (r, s')"
  shows "(\<exists>e. r = Inr 0 \<and> wa_events s' = wa_events s) \<or>
    (\<exists>m doc evs. view (wa_world s) (''Conversation_DM/'' @ p) = Some (m, doc) \<and> wa_events s' = wa_events s @ evs \<and>
       (let parent = conversation_of (fromDocument Conversation_spec doc); ref = ''Conversation_DM/'' @ p in
        r = Inr 1 \<and> told_then_stamped child ref parent evs \<or> r = Inr 0 \<and> told_at_most child ref parent evs))"
proof -
  let ?ref = "''Conversation_DM/'' @ p"
  have run: "catchE (tellParent deps child p) (\<lambda>_. returnE 0) s = (r, s')"
    using assms by (simp add: deliverResult_def truthy_def)
  obtain g s1 where g: "onStore (repo_get cl Conversation_spec ?ref) s = (g, s1)" by fastforce
  show ?thesis
  proof (cases g)
    case (Inl e)
    with g run assms(1) have "r = Inr 0" "wa_events s' = wa_events s"
      by (auto simp: tellParent_def io_defs onStore_def split: prod.splits)
    then show ?thesis by simp
  next
    case (Inr found)
    note rd = read_conversation [OF g [unfolded Inr]]
    then obtain m doc where doc: "view (wa_world s) ?ref = Some (m, doc)" "docRef found = ?ref"
      "data found = fromDocument Conversation_spec doc" by blast
    let ?parent = "conversation_of (fromDocument Conversation_spec doc)"
    have "\<exists>evs. wa_events s' = wa_events s @ evs \<and>
      (r = Inr 1 \<and> told_then_stamped child ?ref ?parent evs \<or> r = Inr 0 \<and> told_at_most child ?ref ?parent evs)"
    proof (cases "finished ?parent")
      case True
      obtain r2 s2 where st: "stampDelivered deps child s1 = (r2, s2)" by fastforce
      from run_stamp [OF st] run g Inr rd True doc assms(1) st show ?thesis
        by (auto simp: tellParent_def finished_def io_defs Let_def told_then_stamped_def told_at_most_def)
    next
      case False
      obtain t where t: "clock_now deps s1 = (Inr t, s1)" by (simp add: clock_now_def io_defs)
      obtain r2 s2 where up: "updateConversation deps ?ref (with_delivery t (data child) ?parent) s1 = (r2, s2)" by fastforce
      obtain r3 s3 where st: "stampDelivered deps child s2 = (r3, s3)" by fastforce
      obtain log s4 where tu: "handleTurn deps ?ref s3 = (Inr (), s4)" "wa_events s4 = wa_events s3 @ [Turned ?ref log]"
        using run_handleTurn by blast
      from run_update [OF up] run_stamp [OF st] run g Inr rd False doc assms(1) t up st tu show ?thesis
        by (auto simp: tellParent_def finished_def io_defs Let_def told_then_stamped_def told_at_most_def split: if_splits)
    qed
    with doc show ?thesis unfolding Let_def by blast
  qed
qed

end

section \<open>Running what may run\<close>

definition may_run :: "view \<Rightarrow> string list \<Rightarrow> string list \<Rightarrow> string \<Rightarrow> bool" where
  "may_run v handled keys ref \<longleftrightarrow> ref \<notin> set handled \<and>
     (\<exists>doc. v ref = Some (''Conversation_DM'', doc) \<and>
        (let ps = fromDocument Conversation_spec doc; c = conversation_of ps in
         text_field ps ''status'' = status_name Running \<and> \<not> truthy (leaseUntil c) \<and>
         coalesce (assistantKey c) [] \<in> set keys))"

definition turned :: "string \<times> event list \<Rightarrow> 'w scan_event" where
  "turned t = Turned (fst t) (snd t)"

definition ran :: "view \<Rightarrow> string list \<Rightarrow> string list \<Rightarrow> 'w scan_event list \<Rightarrow> int \<Rightarrow> nat \<Rightarrow> 'w watching \<Rightarrow> bool" where
  "ran v handled keys evs n limit s \<longleftrightarrow> wa_handled s = handled \<and>
     (\<exists>ts. wa_events s = evs @ map turned ts \<and> n = int (length ts) \<and> length ts \<le> limit \<and>
        (\<forall>t \<in> set ts. may_run v handled keys (fst t)))"

lemma ran_turn:
  assumes "ran v handled keys evs n limit s" and "may_run v handled keys ref"
  shows "ran v handled keys evs (n + 1) (Suc limit) (s\<lparr>wa_world := w, wa_events := wa_events s @ [Turned ref log]\<rparr>)"
proof -
  from assms(1) obtain ts where "wa_events s = evs @ map turned ts" "n = int (length ts)" "length ts \<le> limit"
    "\<forall>t \<in> set ts. may_run v handled keys (fst t)" "wa_handled s = handled" by (auto simp: ran_def)
  with assms(2) show ?thesis
    by (auto simp: ran_def turned_def intro!: exI [of _ "ts @ [(ref, log)]"])
qed

lemma wp_runOne:
  assumes "ran v handled keys evs n limit s"
    and "may_run v [] [coalesce (assistantKey (data row)) []] (docRef row)"
  shows "wp_of (runOne deps keys row n) (\<lambda>n'. ran v handled keys evs n' (Suc limit)) E s"
proof -
  have "ran v handled keys evs n (Suc limit) s" using assms(1) by (fastforce simp: ran_def)
  moreover have "wp_of (bindE (runTurn deps (docRef row)) (\<lambda>_. returnE (n + 1))) (\<lambda>n'. ran v handled keys evs n' (Suc limit)) E s"
    if "docRef row \<notin> set (wa_handled s)" "coalesce (assistantKey (data row)) [] \<in> set keys"
    using that assms ran_turn [OF assms(1)]
    by (intro wp_then_return wp_runTurn) (auto simp: may_run_def ran_def Let_def)
  ultimately show ?thesis by (auto simp: runOne_def wp_bindE [of "getE _"] wp)
qed

lemma wp_rows:
  assumes "ran v handled keys evs n limit s"
    and "\<And>row. row \<in> set rs \<Longrightarrow> may_run v [] [coalesce (assistantKey (data row)) []] (docRef row)"
  shows "wp_of (foldE (runOne deps keys) rs n) (\<lambda>n'. ran v handled keys evs n' (limit + length rs)) E s"
  using assms
proof (induction rs arbitrary: n limit s)
  case Nil
  then show ?case by (simp add: wp)
next
  case (Cons row rs)
  have "wp_of (runOne deps keys row n) (\<lambda>n'. ran v handled keys evs n' (Suc limit)) E s"
    using Cons.prems by (intro wp_runOne) simp_all
  then have "wp_of (runOne deps keys row n) (\<lambda>n'. wp_of (foldE (runOne deps keys) rs n')
      (\<lambda>n'. ran v handled keys evs n' (limit + length (row # rs))) E) E s"
    using Cons.prems(2) by (elim wp_mono) (auto dest!: Cons.IH)
  then show ?case by (simp add: wp)
qed

lemma runnable_row:
  assumes "matches doc (c_and [eq (conversationField ''status'') (JStr ''running''), unset (conversationField ''leaseUntil'')])"
  shows "text_field (fromDocument Conversation_spec doc) ''status'' = ''running''"
    "\<not> truthy (leaseUntil (conversation_of (fromDocument Conversation_spec doc)))"
proof -
  have at: "valueAt doc (conversationField a) = pget (fromDocument Conversation_spec doc) a" if "(a, b) \<in> set (ms_fields Conversation_spec)" for a b
    using valueAt_path [OF _ wf_SPECS_7 that, of doc] body_data_field [OF wf_SPECS_7 that] path_ok_SPECS [of Conversation_DM]
    by (simp add: conversationField_def fromDocument_alt)
  have f: "(''status'', ''Status'') \<in> set (ms_fields Conversation_spec)" "(''leaseUntil'', ''LeaseUntil'') \<in> set (ms_fields Conversation_spec)"
    by (simp_all add: Conversation_spec_def)
  note m = assms [unfolded c_and_def eq_def unset_def, simplified, unfolded at [OF f(1)] at [OF f(2)]]
  show "text_field (fromDocument Conversation_spec doc) ''status'' = ''running''"
    using m by (auto simp: text_field_def split: json.splits)
  show "\<not> truthy (leaseUntil (conversation_of (fromDocument Conversation_spec doc)))"
    using m by (auto simp: conversation_of_def machine_fields.defs conversation.defs as_str_def)
qed

context thing_client
begin

lemma runnable:
  assumes "wd_things deps = cl" and "inv (wa_world s)"
  shows "wp_of (scanRunnable deps keys) (\<lambda>n. ran (view (wa_world s)) (wa_handled s) keys (wa_events s) n 50)
     (\<lambda>_ s'. wa_events s' = wa_events s) s"
proof -
  let ?c = "c_and [eq (conversationField ''status'') (JStr ''running''), unset (conversationField ''leaseUntil'')]"
  obtain r w where run: "repo_search cl Conversation_spec (Some ?c) 50 [] (wa_world s) = (r, w)" by fastforce
  show ?thesis
  proof (cases r)
    case (Inl e)
    with run assms show ?thesis
      by (simp add: scanRunnable_def searchConversations_def wp_of_def onStore_def bindE_def)
  next
    case (Inr rs)
    let ?rs = "map (map_stored conversation_of) rs"
    note res = search_result [OF assms(2) run [unfolded Inr]]
    have ok: "may_run (view (wa_world s)) [] [coalesce (assistantKey (data row)) []] (docRef row)" if row: "row \<in> set ?rs" for row
    proof -
      from row obtain t where t: "t \<in> set rs" "row = map_stored conversation_of t" by auto
      from res(3) [OF t(1)] obtain doc where "view (wa_world s) (docRef t) = Some (''Conversation_DM'', doc)"
        "data t = fromDocument Conversation_spec doc" "matches doc ?c" by (auto simp: Conversation_spec_def)
      with t(2) runnable_row [of doc] show ?thesis by (auto simp: may_run_def Let_def)
    qed
    have start: "ran (view (wa_world s)) (wa_handled s) keys (wa_events s) 0 0 (s\<lparr>wa_world := w\<rparr>)"
      by (auto simp: ran_def)
    have "length rs \<le> 50" by (rule res(2))
    then have le: "ran v h keys evs n (0 + length ?rs) s' \<Longrightarrow> ran v h keys evs n 50 s'" for v h evs n s'
      by (fastforce simp: ran_def)
    have "wp_of (foldE (runOne deps keys) ?rs 0) (\<lambda>n. ran (view (wa_world s)) (wa_handled s) keys (wa_events s) n 50)
        (\<lambda>_ s'. wa_events s' = wa_events s) (s\<lparr>wa_world := w\<rparr>)"
      by (rule wp_mono [OF wp_rows [OF start ok]]) (auto intro: le)
    then show ?thesis
      using run Inr assms(1) by (simp add: scanRunnable_def searchConversations_def wp_of_def onStore_def bindE_def returnE_def)
  qed
qed

end

section \<open>Births\<close>

lemma conversation_of_stored:
  assumes "pget d ''entries'' = j_rows entry_data es"
  shows "conversation_of (fromDocument Conversation_spec (toDocument Conversation_spec d)) = (conversation_of d)\<lparr>entries := es\<rparr>"
proof -
  let ?d = "fromDocument Conversation_spec (toDocument Conversation_spec d)"
  have f: "pget ?d a = pget d a" if "a \<in> set conversation_names" for a
    using that conversation_names_mapped stored_field [OF wf_SPECS_7] by fastforce
  have "pget ?d ''entries'' = group_value (\<lambda>row. group_row (flip_pairs entry_fields) (group_row entry_fields row)) (j_rows entry_data es)"
    using stored_group [OF wf_SPECS_7, of "''entries''" "''Entries''" entry_fields d] assms by (simp add: Conversation_spec_def)
  then have g: "as_rows entry_of (pget ?d ''entries'') = es"
    by (cases es) (simp_all add: group_value_def j_rows_def as_rows_def entry_stored comp_def)
  show ?thesis
    using f g by (simp add: conversation_of_def machine_of_def conversation_names_def machine_fields.defs conversation.defs)
qed

text \<open>What a Conversation is when it is born.\<close>

definition newborn :: "birth_input \<Rightarrow> int \<Rightarrow> conversation \<Rightarrow> bool" where
  "newborn input instant c \<longleftrightarrow> status c = Some Running \<and> turnCount c = Some 0 \<and> leaseUntil c = None \<and>
     assistantKey c = Some (coalesce (a_key (data (bi_assistant input))) []) \<and>
     subjectThingId c = Some (coalesce (bi_subjectThingId input) []) \<and>
     scheduledFor c = Some (coalesce (bi_scheduledFor input) []) \<and>
     parentConversationId c = Some (coalesce (bi_parentConversationId input) []) \<and>
     idempotencyKey c = Some (bi_idempotencyKey input) \<and> entries c = Some [birth_prompt instant (bi_prompt input)]"

lemma newborn_stored:
  "newborn input instant (conversation_of (fromDocument Conversation_spec
     (toDocument Conversation_spec (with_stamps stamp (birth_fields instant input)))))"
proof -
  let ?d = "with_stamps stamp (birth_fields instant input)"
  have at: "pget ?d a = pget (birth_fields instant input) a" if "a \<noteq> ''createdAt''" "a \<noteq> ''updatedAt''" for a
    using that by (simp add: with_stamps_def pget_spread)
  have "pget ?d ''entries'' = j_rows entry_data (Some [birth_prompt instant (bi_prompt input)])"
    by (simp add: at) (simp add: birth_fields_def Let_def j_rows_def)
  show ?thesis
    unfolding conversation_of_stored [OF \<open>pget ?d _ = _\<close>]
    by (simp add: newborn_def at conversation_of_def machine_of_def machine_fields.defs conversation.defs)
      (simp add: birth_fields_def Let_def as_str_def as_enum_def as_int_def status_of_def of_name_def)
qed

lemma newborn_in_order: "newborn input instant c \<Longrightarrow> record_ok i None c"
  by (simp add: newborn_def record_ok_def numbered_def birth_prompt_def scan_entry_def is_intent_def is_result_def blank_entry_def)

context thing_client
begin

lemma inv_birth: "keeps inv (birth cl input)"
  by (auto simp: birth_def intro!: keeps)

lemma born:
  assumes "inv w" and "birth cl input w = (Inr ref, w1)"
    and "\<And>r doc. view w r = Some (''Conversation_DM'', doc) \<Longrightarrow>
           \<not> matches doc (eq (fieldPath Conversation_spec ''idempotencyKey'') (JStr (bi_idempotencyKey input)))"
  shows "\<exists>doc instant. view w ref = None \<and> view w1 = (view w)(ref \<mapsto> (''Conversation_DM'', doc)) \<and>
    newborn input instant (conversation_of (fromDocument Conversation_spec doc)) \<and>
    matches doc (eq (fieldPath Conversation_spec ''idempotencyKey'') (JStr (bi_idempotencyKey input)))"
proof -
  let ?now = "cl_now cl w" and ?k = "bi_idempotencyKey input"
  have key: "as_str (pget (birth_fields ?now input) ''idempotencyKey'') = Some ?k"
    by (simp add: birth_fields_def Let_def as_str_def)
  have name: "model_name (ms_model Conversation_spec) = ''Conversation_DM''" by (simp add: Conversation_spec_def)
  from assms(2) obtain t where c: "repo_create cl Conversation_spec (birth_fields ?now input) w = (Inr t, w1)" "ref = docRef t"
    by (auto simp: birth_def io_defs split: prod.splits sum.splits)
  from c(1) key obtain r w0 where f: "findByIdempotencyKey cl Conversation_spec ?k w = (Inr r, w0)"
    and a: "(case r of Some t \<Rightarrow> returnE t | None \<Rightarrow> add_and_converge cl Conversation_spec (birth_fields ?now input) (Some ?k)) w0 = (Inr t, w1)"
    by (auto simp: repo_create_def Let_def bindE_def throwE_def split: prod.splits sum.splits)
  note res = find_result [OF assms(1) f]
  have "r = None" using res(2) assms(3) name by (cases r) auto
  have "inv w0" using inv_repo(4) assms(1) f by (metis keepsD snd_conv)
  moreover have "add_and_converge cl Conversation_spec (birth_fields ?now input) (Some ?k) w0 = (Inr t, w1)"
    using a \<open>r = None\<close> by simp
  ultimately obtain instant new where added: "view w0 new = None"
    "view w1 = (view w0)(new \<mapsto> (''Conversation_DM'', toDocument Conversation_spec (with_stamps (nowIso instant) (birth_fields ?now input))))"
    "docRef t = new \<or> (\<exists>doc. view w1 (docRef t) = Some (''Conversation_DM'', doc) \<and>
       matches doc (eq (fieldPath Conversation_spec ''idempotencyKey'') (JStr ?k)))"
    using add_and_converge_result [of w0 Conversation_spec "birth_fields ?now input" "Some ?k" t w1] unfolding name by auto
  have m: "matches (toDocument Conversation_spec (with_stamps (nowIso instant) (birth_fields ?now input)))
      (eq (fieldPath Conversation_spec ''idempotencyKey'') (JStr ?k))"
    using key_stored [OF wf_SPECS_7 _ _ key, of "''IdempotencyKey''"] path_ok_SPECS [of Conversation_DM]
    by (simp add: Conversation_spec_def MACHINE_FIELDS_def)
  have "docRef t = new"
    using added(2,3) res(1) assms(3) by (auto split: if_splits)
  with added(1,2) c(2) res(1) m newborn_stored [of input ?now "nowIso instant"] show ?thesis by metis
qed

lemma born_again:
  assumes "inv w1" and "birth cl input w1 = (Inr ref, w2)"
    and "view w1 old = Some (''Conversation_DM'', doc)"
    and "matches doc (eq (fieldPath Conversation_spec ''idempotencyKey'') (JStr (bi_idempotencyKey input)))"
    and "\<And>r doc. r \<noteq> old \<Longrightarrow> view w1 r = Some (''Conversation_DM'', doc) \<Longrightarrow>
           \<not> matches doc (eq (fieldPath Conversation_spec ''idempotencyKey'') (JStr (bi_idempotencyKey input)))"
  shows "view w2 = view w1 \<and> ref = old"
proof -
  have key: "as_str (pget (birth_fields (cl_now cl w1) input) ''idempotencyKey'') = Some (bi_idempotencyKey input)"
    by (simp add: birth_fields_def Let_def as_str_def)
  have name: "model_name (ms_model Conversation_spec) = ''Conversation_DM''" by (simp add: Conversation_spec_def)
  from assms(2) obtain t where c: "repo_create cl Conversation_spec (birth_fields (cl_now cl w1) input) w1 = (Inr t, w2)" "ref = docRef t"
    by (auto simp: birth_def io_defs split: prod.splits sum.splits)
  from create_existing [OF assms(1) c(1) key, unfolded name, OF assms(3,4)] assms(5) c(2) show ?thesis
    by metis
qed

end

end
