(* ===== verification/PassProperties.thy ===== *)
theory PassProperties
  imports WatcherStore Household StoreProperties
begin

text \<open>
  What the steps of a pass leave in the ThingStore (\<open>runtime/src/watcher/watcher.ts\<close>, \<open>services.ts\<close>), under
  the contract \<open>thing_client\<close> and evaluated on the in-memory store.
\<close>

section \<open>A store in memory\<close>

definition mem_driver :: "mem_store advance_deps" where
  "mem_driver = \<lparr>ad_things = memory_client, ad_registry = \<lparr>operations = [], rg_host = None, describers = dynamicDescribers\<rparr>,
     ad_llm = (\<lambda>rq w. (Inr (calls_response []), w)), ad_setLlmContext = (\<lambda>k n w. w),
     leaseSeconds = 60, maxEscalations = 3, llmMaxAttempts = 3, defaultModel = ''scripted'',
     ad_raiseQuestion = raiseQuestion memory_client, ad_sha256 = (\<lambda>s. ''h'' @ s), ad_sleep = (\<lambda>ms w. w)\<rparr>"

definition mem_watcher :: "mem_store watcher_deps" where
  "mem_watcher = \<lparr>wd_things = memory_client, wd_driver = mem_driver, maxBirthsPerHour = 5, scheduleTimezone = ''UTC'',
     wd_cron = autumn, pollMailbox = None, mailPollIntervalMs = None, wd_birth = birth memory_client\<rparr>"

definition watching_over :: "(string \<times> string \<times> props) list \<Rightarrow> mem_store watching" where
  "watching_over rs = \<lparr>frozenFrontiers = Map.empty, badCrons = [], answeredCursor = None, resultDeliveryCursor = None,
     stalledSlots = Map.empty, catalogueMissing = False, mailboxPolledAt = None, mailboxFailing = False,
     wa_state = home_state, wa_handled = [], wa_world = (empty_store morning)\<lparr>counter := 9, rows := rs\<rparr>, wa_events = []\<rparr>"

lemma mem_watcher_fields: "wd_things mem_watcher = memory_client" "wd_driver mem_watcher = mem_driver"
  by (simp_all add: mem_watcher_def)

lemma watching_over_fields:
  "wa_state (watching_over rs) = home_state" "wa_events (watching_over rs) = []" "wa_handled (watching_over rs) = []"
  "rows (wa_world (watching_over rs)) = rs" "store_view (wa_world (watching_over rs)) = map_of rs"
  by (simp_all add: watching_over_def store_view_def)

lemma watching_over_ok:
  assumes "map fst rs = map (\<lambda>(m, n). seed_ref m n) ks" "distinct (map snd ks)" "\<forall>(m, n) \<in> set ks. n \<le> 9"
  shows "store_ok (wa_world (watching_over rs))"
proof -
  have "distinct (map (\<lambda>(m, n). seed_ref m n) ks)"
    using assms(2) seed_ref_inject by (fastforce simp: distinct_map inj_on_def)
  moreover have "rows (wa_world (watching_over rs)) = rs" "counter (wa_world (watching_over rs)) = 9"
    by (simp_all add: watching_over_def)
  ultimately show ?thesis
    unfolding store_ok_def assms(1) using assms(1,3) by fastforce
qed

section \<open>The kill switch\<close>

definition state_body :: "bool \<Rightarrow> string \<Rightarrow> props" where
  "state_body p at = document_of RuntimeState_spec
     [(''SingletonKey'', JStr ''the-one''), (''Paused'', JBool p), (''Watermark'', JStr at)]"

abbreviation state_ref :: string where
  "state_ref \<equiv> seed_ref ''RuntimeState_DM'' 1"

definition switched_off :: "(string \<times> string \<times> props) list" where
  "switched_off = [(state_ref, ''RuntimeState_DM'', state_body True ''2026-01-03T00:00:00'')]"

lemma switched_off_values:
  "of_runtime (state_body True ''2026-01-03T00:00:00'')"
  "paused (runtime_state_of (fromDocument RuntimeState_spec (state_body True ''2026-01-03T00:00:00''))) = Some True"
  "watermark (runtime_state_of (fromDocument RuntimeState_spec (state_body True ''2026-01-03T00:00:00''))) = Some ''2026-01-03T00:00:00''"
  by code_simp+

lemma switched_off_ok: "store_ok (wa_world (watching_over switched_off))"
  by (rule watching_over_ok [of _ "[(''RuntimeState_DM'', 1)]"]) (simp_all add: switched_off_def)

lemma switched_off_pulled: "kill_switch_pulled (store_view (wa_world (watching_over switched_off)))"
  by (auto simp: kill_switch_pulled_def watching_over_fields switched_off_def switched_off_values split: if_splits)

text \<open>
  C20. The kill switch works. When every RuntimeState of the ThingStore says that the Runtime is paused, and
  there is one, a pass leaves the ThingStore as it is, gives birth to nothing, takes no Turn, writes no
  Conversation and polls no mailbox; all it may do is say that the catalogue is missing or back.
\<close>

theorem paused_pass_changes_nothing:
  assumes "thing_client (wd_things deps) view ok" and "ok (wa_world s)"
    and "kill_switch_pulled (view (wa_world s))" and "scan deps s = (r, s')"
  shows "view (wa_world s') = view (wa_world s) \<and> (\<exists>ns. wa_events s' = wa_events s @ map Said ns) \<and>
    (\<forall>rep. r = Inr rep \<longrightarrow> births rep = 0 \<and> continuations rep = 0 \<and> ingested rep = 0)"
  using thing_client.paused_scan [OF assms(1) refl assms(2,3)] assms(4)
  by (cases r) (auto simp: wp_of_def undisturbed_def)

theorem paused_pass_changes_nothing_witness:
  "\<exists>r s'. scan mem_watcher (watching_over switched_off) = (r, s') \<and>
     store_view (wa_world s') = store_view (wa_world (watching_over switched_off)) \<and> (\<exists>ns. wa_events s' = map Said ns)"
proof -
  obtain r s' where run: "scan mem_watcher (watching_over switched_off) = (r, s')" by fastforce
  from paused_pass_changes_nothing [of mem_watcher store_view store_ok, OF _ switched_off_ok switched_off_pulled run] run
  show ?thesis by (auto simp: mem_watcher_fields watching_over_fields mem.thing_client_axioms)
qed

text \<open>
  C21. Saving the RuntimeState reverts nobody. A pass that saves its copy leaves, of what another writer put
  in the ThingStore since it was read, the pause as it stands there and the later of the two watermarks, and
  touches no other Thing.
\<close>

theorem saving_keeps_pause_and_later_watermark:
  assumes "thing_client (wd_things deps) view ok" and "savePreservingHumanFields deps s = (Inr (), s')"
    and "view (wa_world s) (docRef (wa_state s)) = Some (m, doc)"
  shows "view (wa_world s') = view (wa_world s) \<or>
    (\<exists>doc'. view (wa_world s') = (view (wa_world s))(docRef (wa_state s) \<mapsto> (m, doc')) \<and>
       (let fresh = runtime_state_of (fromDocument RuntimeState_spec doc);
            stored = runtime_state_of (fromDocument RuntimeState_spec doc')
        in paused stored = paused fresh \<and> coalesce (watermark stored) [] =
             max (coalesce (watermark fresh) []) (coalesce (watermark (data (wa_state s))) [])))"
  using thing_client.saved [OF assms(1) refl assms(2)] assms(3) by (auto simp: honours_def Let_def)

lemma mem_get_run:
  "repo_get memory_client spec ref w = (case map_of (rows w) ref of
     None \<Rightarrow> (Inl (no_document ref), w)
   | Some (m, doc) \<Rightarrow> (Inr (toStored spec \<lparr>ds_docRef = ref, ds_model = m, ds_document = doc\<rparr>), w))"
  by (auto simp: repo_get_def memory_client_def mem_defs io_defs split: option.split)

lemma mem_update_run:
  assumes "map_of (rows w) ref = Some (m, doc)"
  shows "repo_update memory_client spec ref d w = (Inr (), w\<lparr>
     rows := AList.update ref (m, merged_document spec doc (nowIso (clock w)) d) (rows w),
     writes := writes w @ [(''MODIFY_DOCUMENT'', ref)]\<rparr>)"
  using assms by (simp add: repo_update_def memory_client_def mem_defs io_defs)

text \<open>The Runtime runs from its copy; in the meantime it has been paused, and the watermark moved.\<close>

lemma home_state_ref: "docRef home_state = ''RuntimeState_DM/r''"
  by (rule home_values)

definition stale :: "mem_store watching" where
  "stale = (watching_over switched_off)\<lparr>wa_state := home_state\<lparr>docRef := state_ref\<rparr>\<rparr>"

theorem saving_keeps_pause_and_later_watermark_witness:
  "\<exists>s' doc'. savePreservingHumanFields mem_watcher stale = (Inr (), s') \<and>
     store_view (wa_world s') state_ref = Some (''RuntimeState_DM'', doc') \<and>
     paused (runtime_state_of (fromDocument RuntimeState_spec doc')) = Some True"
proof -
  let ?doc = "state_body True ''2026-01-03T00:00:00''"
  have row: "map_of (rows (wa_world stale)) state_ref = Some (''RuntimeState_DM'', ?doc)"
    by (simp add: stale_def watching_over_fields switched_off_def)
  have "\<exists>s'. savePreservingHumanFields mem_watcher stale = (Inr (), s')"
    using row
    by (auto simp: mem_update_run savePreservingHumanFields_def saveState_def mem_watcher_fields io_defs onStore_def mem_get_run trace_def setState_def stale_def Let_def)
  then obtain s' where run: "savePreservingHumanFields mem_watcher stale = (Inr (), s')" by blast
  have v: "store_view (wa_world stale) (docRef (wa_state stale)) = Some (''RuntimeState_DM'', ?doc)"
    using row by (simp add: stale_def store_view_def)
  from saving_keeps_pause_and_later_watermark [of mem_watcher store_view store_ok, OF _ run v] v run show ?thesis
    by (auto simp: mem_watcher_fields mem.thing_client_axioms switched_off_values stale_def Let_def)
qed

section \<open>Delivering results\<close>

text \<open>
  C22. The result of a called Assistant is told before it is stamped as delivered, whatever fails in between.
  Delivering a result never throws. It either succeeds, and then a caller that has finished is left alone and
  the child is stamped, while any other caller is first written with the result as its newest entry, then the
  child is stamped, and then a caller that waited for it takes its Turn; or it does not count, and then the
  child was not stamped, so the next pass delivers it again, and at most the caller was told.
\<close>

theorem result_told_before_stamped:
  assumes "thing_client (wd_things deps) view ok" and "parentConversationId (data child) = Some p" and "p \<noteq> []"
    and "deliverResult deps child s = (r, s')"
  shows "(\<exists>e. r = Inr 0 \<and> wa_events s' = wa_events s) \<or>
    (\<exists>m doc evs. view (wa_world s) (''Conversation_DM/'' @ p) = Some (m, doc) \<and> wa_events s' = wa_events s @ evs \<and>
       (let parent = conversation_of (fromDocument Conversation_spec doc); ref = ''Conversation_DM/'' @ p in
        r = Inr 1 \<and> told_then_stamped child ref parent evs \<or> r = Inr 0 \<and> told_at_most child ref parent evs))"
  by (rule thing_client.delivered [OF assms(1) refl assms(2,3,4)])

abbreviation (input) caller_id :: string where "caller_id \<equiv> ''conversation_dm-2''"

definition finished_child :: "conversation stored" where
  "finished_child = \<lparr>docRef = seed_ref ''Conversation_DM'' 1, thingId = ''conversation_dm-1'', model = ''Conversation_DM'',
     data = blank_conversation\<lparr>status := Some Done, assistantKey := Some ''reader'', c_result := Some ''paid'',
       parentConversationId := Some caller_id\<rparr>\<rparr>"

definition calling :: "(string \<times> string \<times> props) list" where
  "calling = [(seed_ref ''Conversation_DM'' 1, ''Conversation_DM'', document_of Conversation_spec [(''Status'', JStr ''done'')]),
     (seed_ref ''Conversation_DM'' 2, ''Conversation_DM'', document_of Conversation_spec [(''Status'', JStr ''running'')])]"

lemma calling_values:
  "seed_ref ''Conversation_DM'' 1 = ''Conversation_DM/conversation_dm-1''"
  "seed_ref ''Conversation_DM'' 2 = ''Conversation_DM/conversation_dm-2''"
  "status (conversation_of (fromDocument Conversation_spec (document_of Conversation_spec [(''Status'', JStr ''running'')]))) = Some Running"
  by code_simp+

theorem result_told_before_stamped_witness:
  "\<exists>s' evs parent. deliverResult mem_watcher finished_child (watching_over calling) = (Inr 1, s') \<and>
     \<not> finished parent \<and> wa_events s' = evs \<and> told_then_stamped finished_child ''Conversation_DM/conversation_dm-2'' parent evs"
proof -
  let ?s = "watching_over calling"
  have p: "parentConversationId (data finished_child) = Some caller_id" by (simp add: finished_child_def)
  have rows: "rows (wa_world ?s) = [(''Conversation_DM/conversation_dm-1'', ''Conversation_DM'', document_of Conversation_spec [(''Status'', JStr ''done'')]),
     (''Conversation_DM/conversation_dm-2'', ''Conversation_DM'', document_of Conversation_spec [(''Status'', JStr ''running'')])]"
    by (simp add: watching_over_fields calling_def calling_values del: One_nat_def)
  have ref: "docRef finished_child = ''Conversation_DM/conversation_dm-1''"
    by (simp add: finished_child_def calling_values del: One_nat_def)
  have "\<exists>s'. deliverResult mem_watcher finished_child ?s = (Inr 1, s')"
    by (simp add: deliverResult_def tellParent_def p truthy_def io_defs onStore_def mem_watcher_fields mem_get_run rows Let_def
      calling_values(3) updateConversation_def mem_update_run clock_now_def trace_def stampDelivered_def ref waits_for_assistant_def toStored_def)
  then obtain s' where run: "deliverResult mem_watcher finished_child ?s = (Inr 1, s')" by blast
  have v: "store_view (wa_world ?s) (''Conversation_DM/'' @ caller_id) = Some (''Conversation_DM'', document_of Conversation_spec [(''Status'', JStr ''running'')])"
    by (simp add: store_view_def rows)
  from result_told_before_stamped [of mem_watcher store_view store_ok, OF _ p _ run] v run calling_values(3) show ?thesis
    by (auto simp: mem_watcher_fields mem.thing_client_axioms watching_over_fields Let_def finished_def intro!: exI [of _ "conversation_of (fromDocument Conversation_spec
        (document_of Conversation_spec [(''Status'', JStr ''running'')]))"])
qed

section \<open>Running what may run\<close>

text \<open>
  Scan 6 takes a Turn only for a Conversation that may take one: it is in the ThingStore as running,
  without a lease, of an enabled Assistant, and no earlier scan of the pass has advanced it; and it takes at
  most fifty, as many as it reports.
\<close>

theorem only_runnable_take_turns:
  assumes "thing_client (wd_things deps) view ok" and "ok (wa_world s)" and "scanRunnable deps keys s = (Inr n, s')"
  shows "\<exists>ts. wa_events s' = wa_events s @ map turned ts \<and> n = int (length ts) \<and> length ts \<le> 50 \<and>
    (\<forall>t \<in> set ts. may_run (view (wa_world s)) (wa_handled s) keys (fst t))"
  using wp_return [OF assms(3) thing_client.runnable [OF assms(1) refl assms(2)]] by (auto simp: ran_def)

definition one_running :: "(string \<times> string \<times> props) list" where
  "one_running = [(seed_ref ''Conversation_DM'' 1, ''Conversation_DM'',
     document_of Conversation_spec [(''Status'', JStr ''running''), (''AssistantKey'', JStr ''reader'')])]"

theorem only_runnable_take_turns_witness:
  "\<exists>s' t. scanRunnable mem_watcher [''reader''] (watching_over one_running) = (Inr 1, s') \<and> wa_events s' = [turned t] \<and>
     may_run (map_of one_running) [] [''reader''] (fst t)"
proof -
  let ?s = "watching_over one_running" and ?doc = "document_of Conversation_spec [(''Status'', JStr ''running''), (''AssistantKey'', JStr ''reader'')]"
  let ?c = "c_and [eq (conversationField ''status'') (JStr ''running''), unset (conversationField ''leaseUntil'')]"
  have vals: "matches ?doc ?c" "assistantKey (conversation_of (fromDocument Conversation_spec ?doc)) = Some ''reader''" by code_simp+
  have "cl_query memory_client \<lparr>qs_target = ''Conversation_DM'', qs_constraint = Some ?c, qs_sort = [], qs_pageNumber = 0, qs_pageSize = 50\<rparr> (wa_world ?s)
      = (Inr [\<lparr>ds_docRef = seed_ref ''Conversation_DM'' 1, ds_model = ''Conversation_DM'', ds_document = ?doc\<rparr>], wa_world ?s)"
    using vals(1) by (simp add: memory_client_def mem_query_def getE_def watching_over_fields one_running_def sortRows_def)
  then have "\<exists>s'. scanRunnable mem_watcher [''reader''] ?s = (Inr 1, s')"
    using vals(2) by (simp add: scanRunnable_def searchConversations_def repo_search_def mem_watcher_fields onStore_def io_defs
      Conversation_spec_def runOne_def runTurn_def toStored_def watching_over_fields split: prod.split)
  then obtain s' where run: "scanRunnable mem_watcher [''reader''] ?s = (Inr 1, s')" by blast
  have "store_ok (wa_world ?s)" by (rule watching_over_ok [of _ "[(''Conversation_DM'', 1)]"]) (simp_all add: one_running_def)
  from only_runnable_take_turns [of mem_watcher store_view store_ok, OF _ this run] obtain ts where
    "wa_events s' = map turned ts" "int (length ts) = 1" "\<forall>t \<in> set ts. may_run (map_of one_running) [] [''reader''] (fst t)"
    by (auto simp: mem_watcher_fields mem.thing_client_axioms watching_over_fields)
  with run show ?thesis by (cases ts) auto
qed

section \<open>Being born\<close>

text \<open>
  C24. A Conversation is born once, ready for the loop. Under a key no Conversation carries, \<open>birth\<close> adds one
  Conversation and nothing else, running, on its Turn zero, without a lease, for its Assistant, Thing, slot
  and caller, with the prompt as its only entry, in the order the loop driver keeps from then on. A second
  birth under that key adds nothing and returns the same Conversation.
\<close>

theorem born_once_and_in_order:
  assumes "thing_client cl view ok" and "ok w" and "birth cl input w = (Inr ref, w1)"
    and "no_conversation view w (eq (fieldPath Conversation_spec ''idempotencyKey'') (JStr (bi_idempotencyKey input)))"
    and "birth cl again w1 = (Inr ref', w2)" and "bi_idempotencyKey again = bi_idempotencyKey input"
  shows "view w2 = view w1 \<and> ref' = ref \<and>
    (\<exists>doc instant. view w ref = None \<and> view w1 = (view w)(ref \<mapsto> (''Conversation_DM'', doc)) \<and>
       (let c = conversation_of (fromDocument Conversation_spec doc) in
        newborn input instant c \<and> record_ok (thingIdOf ref) None c))"
proof -
  note fresh = assms(4) [unfolded no_conversation_def, rule_format]
  obtain doc instant where new: "view w ref = None"
    "view w1 = (view w)(ref \<mapsto> (''Conversation_DM'', doc))"
    "newborn input instant (conversation_of (fromDocument Conversation_spec doc))"
    "matches doc (eq (fieldPath Conversation_spec ''idempotencyKey'') (JStr (bi_idempotencyKey input)))"
    using thing_client.born [OF assms(1-3)] fresh by metis
  have "ok w1"
    using keepsD [OF thing_client.inv_birth [OF assms(1), of input] assms(2)] assms(3) by simp
  have "\<not> matches d (eq (fieldPath Conversation_spec ''idempotencyKey'') (JStr (bi_idempotencyKey again)))"
    if "r \<noteq> ref" "view w1 r = Some (''Conversation_DM'', d)" for r d
    using that new(2) fresh [of r d] assms(6) by simp
  with thing_client.born_again [OF assms(1) \<open>ok w1\<close> assms(5), of ref doc] new assms(6)
  have "view w2 = view w1 \<and> ref' = ref" by simp
  with new newborn_in_order [OF new(3)] show ?thesis unfolding Let_def by blast
qed

definition first_letter :: birth_input where
  "first_letter = thing_birth Document_DM new_letter reader"

theorem born_once_and_in_order_witness:
  "\<exists>ref w1 w2. birth memory_client first_letter (empty_store morning) = (Inr ref, w1) \<and>
     birth memory_client first_letter w1 = (Inr ref, w2) \<and> store_view w2 = store_view w1 \<and> store_view w1 ref \<noteq> None"
proof -
  have key: "as_str (pget (birth_fields t first_letter) ''idempotencyKey'') = Some (bi_idempotencyKey first_letter)" for t
    by (simp add: birth_fields_def Let_def as_str_def)
  have ok: "check_key Conversation_spec (bi_idempotencyKey first_letter) = Inr ()" by code_simp
  have total: "\<exists>ref w'. birth memory_client first_letter w = (Inr ref, w') \<and> failNextAdd w' = None" if "failNextAdd w = None" for w
    using mem_create_total [OF that key ok, of "clock w"] by (auto simp: birth_def io_defs memory_client_def)
  obtain ref w1 where b1: "birth memory_client first_letter (empty_store morning) = (Inr ref, w1)" "failNextAdd w1 = None"
    using total [of "empty_store morning"] by (auto simp: empty_store_def)
  obtain ref' w2 where b2: "birth memory_client first_letter w1 = (Inr ref', w2)" using total [OF b1(2)] by blast
  from born_once_and_in_order [OF mem.thing_client_axioms store_ok_empty b1(1) _ b2 refl] b1(1) b2 show ?thesis
    by (auto simp: store_view_def empty_store_def no_conversation_def)
qed

end
