(* ===== verification/Email.thy ===== *)
theory Email
  imports MemoryStore
begin

text \<open>
  The Email Connector (\<open>runtime/src/connectors/email.ts\<close>): MIME turned into Documents, and a mailbox over
  IMAP. \<open>simpleParser\<close> of \<open>mailparser\<close> and the client of \<open>imapflow\<close> are parameters; what the file does with
  their results is modelled, the log left out. Bytes and text are both strings of 8-bit characters.
\<close>

section \<open>What a message becomes\<close>

record mail_attachment =
  at_filename :: string
  at_mimeType :: string
  at_size :: nat
  at_bytes :: string

record incoming_document =
  id_title :: string
  id_receivedAt :: string
  id_externalRef :: string
  id_extractedText :: string
  id_attachment :: "mail_attachment option"

record incoming_message =
  im_uid :: int
  im_from :: string
  im_subject :: string
  im_documents :: "incoming_document list"

text \<open>A \<open>Date\<close>, which may be invalid.\<close>

datatype js_date = InvalidDate | Instant int

record parsed_attachment =
  pa_filename :: "string option"
  pa_contentType :: "string option"
  pa_contentDisposition :: "string option"
  pa_content :: "string option"

record parsed_mail =
  pm_subject :: "string option"
  pm_messageId :: "string option"
  pm_date :: "js_date option"
  pm_text :: "string option"
  pm_html :: "string option"
  pm_from :: "string option list option"
  pm_attachments :: "parsed_attachment list option"

record message_origin =
  mo_host :: string
  mo_folder :: string
  mo_uidValidity :: string

definition NO_SUBJECT :: string where
  "NO_SUBJECT = ''(no subject)''"

text \<open>\<open>a || b\<close> on texts.\<close>

definition or_text :: "string \<Rightarrow> string \<Rightarrow> string" where
  "or_text a b = (if a = [] then b else a)"

definition toISOString :: "js_date \<Rightarrow> string result" where
  "toISOString d = (case d of
     InvalidDate \<Rightarrow> Inl (JsError ''RangeError'' ''Invalid time value'')
   | Instant ms \<Rightarrow> Inr (iso_of_ms ms @ ''.'' @ pad_nat 3 (nat (ms mod 1000)) @ ''Z''))"

subsection \<open>The body as prose\<close>

text \<open>
  \<open>text.replace(/r/g, by)\<close>: \<open>m\<close> tries the expression at the front of a text and yields what is left after
  the match. An expression of the code never matches the empty text; a match that consumed nothing is
  no match.
\<close>

function replace_all :: "(string \<Rightarrow> string option) \<Rightarrow> string \<Rightarrow> string \<Rightarrow> string" where
  "replace_all m by [] = []"
| "replace_all m by (c # s) =
     (case m (c # s) of
        Some rest \<Rightarrow> if length rest \<le> length s then by @ replace_all m by rest else c # replace_all m by s
      | None \<Rightarrow> c # replace_all m by s)"
  by pat_completeness auto

termination
  by (relation "measure (\<lambda>(m, by, s). length s)") auto

text \<open>The pieces of the expressions: a literal without regard to case, and the alternatives of a group.\<close>

fun eat :: "string \<Rightarrow> string \<Rightarrow> string option" where
  "eat [] s = Some s"
| "eat (p # ps) [] = None"
| "eat (p # ps) (c # s) = (if lower_char c = lower_char p then eat ps s else None)"

fun eat_any :: "string list \<Rightarrow> string \<Rightarrow> string option" where
  "eat_any [] s = None"
| "eat_any (p # ps) s = (case eat p s of Some rest \<Rightarrow> Some rest | None \<Rightarrow> eat_any ps s)"

definition eat_while :: "(char \<Rightarrow> bool) \<Rightarrow> string \<Rightarrow> string" where
  "eat_while p s = dropWhile p s"

text \<open>\<open>[^>]*>\<close>\<close>

definition to_close :: "string \<Rightarrow> string option" where
  "to_close s = (case eat_while (\<lambda>c. c \<noteq> CHR ''>'') s of [] \<Rightarrow> None | _ # rest \<Rightarrow> Some rest)"

text \<open>\<open>[\s\S]*?</name>\<close>\<close>

fun through_end_tag :: "string \<Rightarrow> string \<Rightarrow> string option" where
  "through_end_tag name s =
     (case eat (''</'' @ name @ ''>'') s of
        Some rest \<Rightarrow> Some rest
      | None \<Rightarrow> (case s of [] \<Rightarrow> None | _ # t \<Rightarrow> through_end_tag name t))"

declare through_end_tag.simps [simp del]

definition element :: "string \<Rightarrow> string \<Rightarrow> string option" where
  "element name s = Option.bind (eat (''<'' @ name) s) (\<lambda>r. Option.bind (to_close r) (through_end_tag name))"

definition script_or_style :: "string \<Rightarrow> string option" where
  "script_or_style s = (case element ''script'' s of Some r \<Rightarrow> Some r | None \<Rightarrow> element ''style'' s)"

definition line_break :: "string \<Rightarrow> string option" where
  "line_break s = Option.bind (eat ''<br'' s) (\<lambda>r.
     let t = eat_while is_space r in eat ''>'' (case t of CHR ''/'' # u \<Rightarrow> u | _ \<Rightarrow> t))"

definition block_end :: "string \<Rightarrow> string option" where
  "block_end s = eat_any (map (\<lambda>n. ''</'' @ n @ ''>'')
     [''p'', ''div'', ''tr'', ''li'', ''h1'', ''h2'', ''h3'', ''h4'', ''h5'', ''h6'', ''table'']) s"

definition any_tag :: "string \<Rightarrow> string option" where
  "any_tag s = (case s of c # d # r \<Rightarrow> if c = CHR ''<'' \<and> d \<noteq> CHR ''>'' then to_close r else None | _ \<Rightarrow> None)"

definition is_blank :: "char \<Rightarrow> bool" where
  "is_blank c \<longleftrightarrow> c = CHR '' '' \<or> c = CHR 0x09"

definition blanks :: "string \<Rightarrow> string option" where
  "blanks s = (case s of c # r \<Rightarrow> if is_blank c then Some (eat_while is_blank r) else None | [] \<Rightarrow> None)"

definition is_sp :: "char \<Rightarrow> bool" where
  "is_sp c \<longleftrightarrow> c = CHR '' ''"

text \<open>\<open>(\n *)\<close>, \<open>(\n *)*\<close> and the two expressions made of them.\<close>

definition newline_sp :: "string \<Rightarrow> string option" where
  "newline_sp s = (case s of c # r \<Rightarrow> if [c] = nl then Some (eat_while is_sp r) else None | [] \<Rightarrow> None)"

function newlines :: "string \<Rightarrow> string" where
  "newlines s = (case newline_sp s of Some r \<Rightarrow> newlines r | None \<Rightarrow> s)"
  by pat_completeness auto

termination
proof (relation "measure length")
  show "(r, s) \<in> measure length" if "newline_sp s = Some r" for s r
    using that length_dropWhile_le [of is_sp "tl s"]
    by (auto simp: newline_sp_def eat_while_def split: list.splits if_splits)
qed simp

declare newlines.simps [simp del]

definition one_newline :: "string \<Rightarrow> string option" where
  "one_newline s = newline_sp (eat_while is_sp s)"

definition many_newlines :: "string \<Rightarrow> string option" where
  "many_newlines s = Option.bind (one_newline s) (\<lambda>r. map_option newlines (newline_sp r))"

definition stripHtml :: "string \<Rightarrow> string" where
  "stripHtml html = trim
     (replace_all one_newline nl
     (replace_all many_newlines (nl @ nl)
     (replace_all blanks '' ''
     (replace_all (eat ''&#39;'') [CHR 0x27]
     (replace_all (eat ''&quot;'') [CHR 0x22]
     (replace_all (eat ''&gt;'') ''>''
     (replace_all (eat ''&lt;'') ''<''
     (replace_all (eat ''&amp;'') ''&''
     (replace_all (eat ''&nbsp;'') '' ''
     (replace_all any_tag '' ''
     (replace_all block_end nl
     (replace_all line_break nl
     (replace_all script_or_style '' '' html)))))))))))))"

definition bodyText :: "parsed_mail \<Rightarrow> string" where
  "bodyText parsed =
     (let text = trim (coalesce (pm_text parsed) []) in
      if text \<noteq> [] then text else (case pm_html parsed of Some h \<Rightarrow> stripHtml h | None \<Rightarrow> []))"

subsection \<open>Attachments and their numbers\<close>

text \<open>An attachment with its position in the message's whole list of parts, from 1.\<close>

record numbered_attachment =
  na_part :: nat
  na_attachment :: mail_attachment

definition is_attachment :: "parsed_attachment \<Rightarrow> bool" where
  "is_attachment part \<longleftrightarrow>
     trim (coalesce (pa_filename part) []) \<noteq> [] \<or> toLowerCase (coalesce (pa_contentDisposition part) []) = ''attachment''"

definition attachment_of :: "parsed_attachment \<Rightarrow> mail_attachment" where
  "attachment_of part =
     (let bytes = coalesce (pa_content part) [] in
      \<lparr>at_filename = or_text (trim (coalesce (pa_filename part) [])) ''attachment'',
       at_mimeType = toLowerCase (coalesce (pa_contentType part) ''application/octet-stream''),
       at_size = length bytes, at_bytes = bytes\<rparr>)"

fun numbered_from :: "nat \<Rightarrow> parsed_attachment list \<Rightarrow> numbered_attachment list" where
  "numbered_from n [] = []"
| "numbered_from n (part # parts) =
     (if is_attachment part then \<lparr>na_part = n, na_attachment = attachment_of part\<rparr> # numbered_from (Suc n) parts
      else numbered_from (Suc n) parts)"

text \<open>Those that fit, and those that were skipped.\<close>

definition partitionAttachments :: "parsed_attachment list \<Rightarrow> nat \<Rightarrow> numbered_attachment list \<times> numbered_attachment list" where
  "partitionAttachments parts maxAttachmentBytes =
     partition (\<lambda>n. at_size (na_attachment n) \<le> maxAttachmentBytes) (numbered_from 1 parts)"

definition describeSkipped :: "numbered_attachment \<Rightarrow> string" where
  "describeSkipped n = ''[Attachment '' @ [CHR 0x22] @ at_filename (na_attachment n) @ [CHR 0x22] @ '' (''
     @ string_of_nat (at_size (na_attachment n)) @ '' bytes) was too large to store and has been skipped.]''"

definition titleFor :: "string \<Rightarrow> string \<Rightarrow> nat \<Rightarrow> string" where
  "titleFor subject filename keptCount =
     (if subject = [] then or_text filename NO_SUBJECT
      else if 1 < keptCount then subject @ '' '' @ [CHR 0xE2, CHR 0x80, CHR 0x94] @ '' '' @ filename else subject)"

subsection \<open>The identity of a message\<close>

definition addr_safe :: "char \<Rightarrow> bool" where
  "addr_safe c \<longleftrightarrow> (let n = of_char c :: nat in
     97 \<le> n \<and> n \<le> 122 \<or> 48 \<le> n \<and> n \<le> 57 \<or> c = CHR ''.'' \<or> c = CHR ''_'' \<or> c = CHR ''-'')"

definition unsafe_run :: "string \<Rightarrow> string option" where
  "unsafe_run s = (case s of c # r \<Rightarrow> if addr_safe c then None else Some (eat_while (\<lambda>c. \<not> addr_safe c) r) | [] \<Rightarrow> None)"

definition refToken :: "string \<Rightarrow> string" where
  "refToken v = or_text (replace_all unsafe_run ''-'' (toLowerCase (trim v))) ''unknown''"

definition synthesiseMessageId :: "int \<Rightarrow> message_origin option \<Rightarrow> string" where
  "synthesiseMessageId uid origin =
     (case origin of
        None \<Rightarrow> ''<uid.'' @ string_of_int uid @ ''@local>''
      | Some o' \<Rightarrow> ''<uid.'' @ string_of_int uid @ ''.v'' @ mo_uidValidity o' @ ''.'' @ refToken (mo_folder o')
          @ ''@'' @ refToken (mo_host o') @ ''>'')"

definition message_id :: "int \<Rightarrow> message_origin option \<Rightarrow> parsed_mail \<Rightarrow> string" where
  "message_id uid origin parsed = or_text (trim (coalesce (pm_messageId parsed) [])) (synthesiseMessageId uid origin)"

text \<open>\<open>parsed.from?.value?.[0]?.address\<close>, normalised.\<close>

definition first_address :: "string option list option \<Rightarrow> string" where
  "first_address senders = toLowerCase (trim (case senders of Some (Some a # _) \<Rightarrow> a | _ \<Rightarrow> []))"

definition usableDate :: "js_date option \<Rightarrow> string option" where
  "usableDate d = (case d of Some (Instant ms) \<Rightarrow> (case toISOString (Instant ms) of Inr s \<Rightarrow> Some s | Inl _ \<Rightarrow> None) | _ \<Rightarrow> None)"

definition received_at :: "parsed_mail \<Rightarrow> js_date \<Rightarrow> string result" where
  "received_at parsed internalDate =
     (case usableDate (pm_date parsed) of Some s \<Rightarrow> Inr s | None \<Rightarrow> toISOString internalDate)"

definition part_ref :: "string \<Rightarrow> string \<Rightarrow> string" where
  "part_ref messageId part = messageId @ ''#'' @ part"

definition documents_of :: "string \<Rightarrow> string \<Rightarrow> string \<Rightarrow> string \<Rightarrow> numbered_attachment list \<Rightarrow> numbered_attachment list
    \<Rightarrow> incoming_document list" where
  "documents_of messageId subject arrived body kept skipped =
     (let text = join (nl @ nl) (filter (\<lambda>p. p \<noteq> []) (body # map describeSkipped skipped)) in
      if kept = [] then
        [\<lparr>id_title = or_text subject NO_SUBJECT, id_receivedAt = arrived,
          id_externalRef = part_ref messageId (if skipped = [] then ''0'' else ''0.skipped''),
          id_extractedText = text, id_attachment = None\<rparr>]
      else map (\<lambda>n. \<lparr>id_title = titleFor subject (at_filename (na_attachment n)) (length kept), id_receivedAt = arrived,
          id_externalRef = part_ref messageId (string_of_nat (na_part n)), id_extractedText = text,
          id_attachment = Some (na_attachment n)\<rparr>) kept)"

definition parseMessage :: "(string \<Rightarrow> parsed_mail result) \<Rightarrow> string \<Rightarrow> int \<Rightarrow> js_date \<Rightarrow> nat \<Rightarrow> message_origin option
    \<Rightarrow> incoming_message result" where
  "parseMessage simpleParser raw uid internalDate maxAttachmentBytes origin =
     (case simpleParser raw of
        Inl e \<Rightarrow> Inl e
      | Inr parsed \<Rightarrow>
          (case received_at parsed internalDate of
             Inl e \<Rightarrow> Inl e
           | Inr arrived \<Rightarrow>
               let subject = trim (coalesce (pm_subject parsed) []);
                   (kept, skipped) = partitionAttachments (coalesce (pm_attachments parsed) []) maxAttachmentBytes
               in Inr \<lparr>im_uid = uid, im_from = first_address (pm_from parsed), im_subject = subject,
                    im_documents = documents_of (message_id uid origin parsed) subject arrived (bodyText parsed) kept skipped\<rparr>))"

section \<open>The mailbox\<close>

record fetched_message =
  fm_uid :: int
  fm_raw :: string
  fm_internalDate :: js_date
  fm_envelopeFrom :: string
  fm_origin :: "message_origin option"

record message_metadata =
  mm_uid :: int
  mm_size :: nat
  mm_envelopeFrom :: string
  mm_internalDate :: js_date

record oversized_message =
  om_uid :: int
  om_size :: nat
  om_envelopeFrom :: string

record fetch_result =
  fr_messages :: "fetched_message list"
  fr_oversized :: "oversized_message list"
  fr_budgetExhausted :: bool

record fetch_limits =
  maxMessageBytes :: "nat option"
  maxTotalBytes :: "nat option"

definition DEFAULT_MAX_MESSAGE_BYTES :: nat where
  "DEFAULT_MAX_MESSAGE_BYTES = 40 * 1024 * 1024"

definition DEFAULT_MAX_TOTAL_BYTES :: nat where
  "DEFAULT_MAX_TOTAL_BYTES = 64 * 1024 * 1024"

subsection \<open>What one poll downloads\<close>

record fetch_plan =
  fp_wanted :: "message_metadata list"
  fp_oversized :: "oversized_message list"
  fp_budgetExhausted :: bool

definition left_behind :: "message_metadata \<Rightarrow> oversized_message" where
  "left_behind c = \<lparr>om_uid = mm_uid c, om_size = mm_size c, om_envelopeFrom = mm_envelopeFrom c\<rparr>"

fun plan_from :: "nat \<Rightarrow> nat \<Rightarrow> message_metadata list \<Rightarrow> nat \<Rightarrow> fetch_plan \<Rightarrow> fetch_plan" where
  "plan_from maxMessage maxTotal [] budget plan = plan"
| "plan_from maxMessage maxTotal (c # cs) budget plan =
     (if maxMessage < mm_size c then
        plan_from maxMessage maxTotal cs budget (plan\<lparr>fp_oversized := fp_oversized plan @ [left_behind c]\<rparr>)
      else if fp_wanted plan \<noteq> [] \<and> maxTotal < budget + mm_size c then plan\<lparr>fp_budgetExhausted := True\<rparr>
      else plan_from maxMessage maxTotal cs (budget + mm_size c) (plan\<lparr>fp_wanted := fp_wanted plan @ [c]\<rparr>))"

definition planFetch :: "message_metadata list \<Rightarrow> nat \<Rightarrow> nat \<Rightarrow> fetch_plan" where
  "planFetch candidates maxMessage maxTotal =
     plan_from maxMessage maxTotal candidates 0 \<lparr>fp_wanted = [], fp_oversized = [], fp_budgetExhausted = False\<rparr>"

subsection \<open>IMAP\<close>

text \<open>
  The client of \<open>imapflow\<close>. A fetch streams messages and ends, with an exception or without; \<open>ic_dateOf\<close> is
  \<open>new Date(text)\<close>, whose reading of texts is the platform's; a lock names the \<open>UIDVALIDITY\<close> of its folder,
  if a folder is open.
\<close>

datatype imap_date = DateObject js_date | DateText string | NoDate

record imap_message =
  mx_uid :: int
  mx_size :: "nat option"
  mx_internalDate :: imap_date
  mx_envelope :: "string option list option"

record 'w imap_client =
  ic_connect :: "('w, unit) io"
  ic_logout :: "('w, unit) io"
  ic_mailboxCreate :: "string \<Rightarrow> ('w, unit) io"
  ic_getMailboxLock :: "string \<Rightarrow> ('w, string option) io"
  ic_release :: "'w \<Rightarrow> 'w"
  ic_fetch :: "('w, imap_message list \<times> js_error option) io"
  ic_fetchOne :: "int \<Rightarrow> ('w, string option option) io"
  ic_messageMove :: "int \<Rightarrow> string \<Rightarrow> ('w, unit) io"
  ic_dateOf :: "string \<Rightarrow> js_date"
  ic_now :: "'w \<Rightarrow> int"

text \<open>\<open>try { m } finally { f }\<close>\<close>

definition finallyE :: "('s, 'a) io \<Rightarrow> ('s, unit) io \<Rightarrow> ('s, 'a) io" where
  "finallyE m f = bindE (attemptE m) (\<lambda>r. bindE f (\<lambda>_. case r of Inl e \<Rightarrow> throwE e | Inr x \<Rightarrow> returnE x))"

definition envelopeAddress :: "string option list option \<Rightarrow> string" where
  "envelopeAddress envelope = first_address envelope"

definition metadata_of :: "'w imap_client \<Rightarrow> 'w \<Rightarrow> imap_message \<Rightarrow> message_metadata" where
  "metadata_of client w m = \<lparr>mm_uid = mx_uid m, mm_size = coalesce (mx_size m) 0,
     mm_envelopeFrom = envelopeAddress (mx_envelope m),
     mm_internalDate = (case mx_internalDate m of
        DateObject d \<Rightarrow> d | DateText t \<Rightarrow> ic_dateOf client t | NoDate \<Rightarrow> Instant (ic_now client w))\<rparr>"

text \<open>The first pass stops once it has \<open>max\<close> candidates; it looks at one message before it compares.\<close>

definition gather :: "'w imap_client \<Rightarrow> nat \<Rightarrow> ('w, message_metadata list) io" where
  "gather client limit =
     bindE (ic_fetch client) (\<lambda>(stream, ended).
     bindE (getE id) (\<lambda>w.
       let wanted = max 1 limit in
       if length stream < wanted then
         (case ended of Some e \<Rightarrow> throwE e | None \<Rightarrow> returnE (map (metadata_of client w) stream))
       else returnE (map (metadata_of client w) (take wanted stream))))"

definition download :: "'w imap_client \<Rightarrow> message_origin \<Rightarrow> message_metadata \<Rightarrow> fetched_message list
    \<Rightarrow> ('w, fetched_message list) io" where
  "download client origin c got =
     bindE (ic_fetchOne client (mm_uid c)) (\<lambda>fetched. returnE (case fetched of
       None \<Rightarrow> got
     | Some source \<Rightarrow> got @ [\<lparr>fm_uid = mm_uid c, fm_raw = coalesce source [], fm_internalDate = mm_internalDate c,
         fm_envelopeFrom = mm_envelopeFrom c, fm_origin = Some origin\<rparr>]))"

definition session_fetchBatch :: "'w imap_client \<Rightarrow> string \<Rightarrow> string \<Rightarrow> nat \<Rightarrow> fetch_limits \<Rightarrow> ('w, fetch_result) io" where
  "session_fetchBatch client host folder limit limits =
     bindE (ic_getMailboxLock client folder) (\<lambda>uidValidity.
       finallyE
         (let origin = \<lparr>mo_host = host, mo_folder = folder, mo_uidValidity = coalesce uidValidity ''0''\<rparr> in
          bindE (gather client limit) (\<lambda>candidates.
            let plan = planFetch candidates (coalesce (maxMessageBytes limits) DEFAULT_MAX_MESSAGE_BYTES)
                         (coalesce (maxTotalBytes limits) DEFAULT_MAX_TOTAL_BYTES) in
            bindE (foldE (download client origin) (fp_wanted plan) []) (\<lambda>messages.
              returnE \<lparr>fr_messages = messages, fr_oversized = fp_oversized plan,
                fr_budgetExhausted = fp_budgetExhausted plan\<rparr>)))
         (modifyE (ic_release client)))"

definition createFolder :: "'w imap_client \<Rightarrow> string \<Rightarrow> ('w, unit) io" where
  "createFolder client folder = bindE (attemptE (ic_mailboxCreate client folder)) (\<lambda>_. returnE ())"

definition session_move :: "'w imap_client \<Rightarrow> int \<Rightarrow> string \<Rightarrow> string \<Rightarrow> ('w, unit) io" where
  "session_move client uid fromFolder toFolder =
     bindE (createFolder client toFolder) (\<lambda>_.
     bindE (ic_getMailboxLock client fromFolder) (\<lambda>_.
       finallyE (ic_messageMove client uid toFolder) (modifyE (ic_release client))))"

definition session_ensureFolders :: "'w imap_client \<Rightarrow> string list \<Rightarrow> ('w, unit) io" where
  "session_ensureFolders client folders = foldE (\<lambda>folder _. createFolder client folder) folders ()"

text \<open>
  A mailbox as the ingest sees it: a session opened before a block of work and closed after it, and the
  operations on it. The IMAP mailbox is one.
\<close>

record 'w mail_session =
  ms_fetchBatch :: "string \<Rightarrow> nat \<Rightarrow> fetch_limits \<Rightarrow> ('w, fetch_result) io"
  ms_move :: "int \<Rightarrow> string \<Rightarrow> string \<Rightarrow> ('w, unit) io"
  ms_ensureFolders :: "string list \<Rightarrow> ('w, unit) io"

record 'w mailbox =
  mb_open :: "('w, 'w mail_session) io"
  mb_close :: "('w, unit) io"

definition email_session :: "'w imap_client \<Rightarrow> string \<Rightarrow> 'w mail_session" where
  "email_session client host = \<lparr>ms_fetchBatch = session_fetchBatch client host,
     ms_move = session_move client, ms_ensureFolders = session_ensureFolders client\<rparr>"

definition email_mailbox :: "'w imap_client \<Rightarrow> string \<Rightarrow> 'w mailbox" where
  "email_mailbox client host = \<lparr>
     mb_open = bindE (ic_connect client) (\<lambda>_. returnE (email_session client host)),
     mb_close = bindE (attemptE (ic_logout client)) (\<lambda>_. returnE ())\<rparr>"

text \<open>\<open>EmailConnector.session\<close>, and the operations that open a session of their own.\<close>

definition with_session :: "'w mailbox \<Rightarrow> ('w mail_session \<Rightarrow> ('w, 'a) io) \<Rightarrow> ('w, 'a) io" where
  "with_session mailbox work = bindE (mb_open mailbox) (\<lambda>session. finallyE (work session) (mb_close mailbox))"

definition no_limits :: fetch_limits where
  "no_limits = \<lparr>maxMessageBytes = None, maxTotalBytes = None\<rparr>"

definition session_fetch :: "'w mail_session \<Rightarrow> string \<Rightarrow> nat \<Rightarrow> fetch_limits option \<Rightarrow> ('w, fetched_message list) io" where
  "session_fetch session folder limit limits =
     bindE (ms_fetchBatch session folder limit (coalesce limits no_limits)) (\<lambda>batch. returnE (fr_messages batch))"

definition email_fetch :: "'w mailbox \<Rightarrow> string \<Rightarrow> nat \<Rightarrow> fetch_limits option \<Rightarrow> ('w, fetched_message list) io" where
  "email_fetch mailbox folder limit limits = with_session mailbox (\<lambda>session. session_fetch session folder limit limits)"

definition email_fetchBatch :: "'w mailbox \<Rightarrow> string \<Rightarrow> nat \<Rightarrow> fetch_limits option \<Rightarrow> ('w, fetch_result) io" where
  "email_fetchBatch mailbox folder limit limits =
     with_session mailbox (\<lambda>session. ms_fetchBatch session folder limit (coalesce limits no_limits))"

definition email_move :: "'w mailbox \<Rightarrow> int \<Rightarrow> string \<Rightarrow> string \<Rightarrow> ('w, unit) io" where
  "email_move mailbox uid fromFolder toFolder = with_session mailbox (\<lambda>session. ms_move session uid fromFolder toFolder)"

definition email_ensureFolders :: "'w mailbox \<Rightarrow> string list \<Rightarrow> ('w, unit) io" where
  "email_ensureFolders mailbox folders = with_session mailbox (\<lambda>session. ms_ensureFolders session folders)"

end
