(* ===== verification/MailIngest.thy ===== *)
theory MailIngest
  imports Email Loop
begin

text \<open>
  The mail ingest (\<open>runtime/src/watcher/mail.ts\<close>) with the reader of a PDF's own text
  (\<open>runtime/src/readers/textLayer.ts\<close>): one poll of the letterbox, from the folder check to the move that
  files each message. The mailbox, the MIME parser, the PDF library, the Content Store, the hash and the
  ThingStore's client are parameters. A trace records what was parsed, uploaded, created and filed; no
  definition reads it.
\<close>

section \<open>The text layer of a PDF\<close>

text \<open>\<open>pdfjs\<close>: a document opens to its number of pages and the items of each, a text and an end of line.\<close>

record pdf_document =
  pdf_numPages :: nat
  pdf_items :: "nat \<Rightarrow> (string option \<times> bool) list result"

datatype text_layer_outcome =
    TextLayer string nat bool nat bool
  | NoTextLayer nat
  | NotAPdf nat string

definition SPARSE_TEXT_CHARS :: nat where
  "SPARSE_TEXT_CHARS = 100"

definition joinItems :: "(string option \<times> bool) list \<Rightarrow> string" where
  "joinItems items = concat (map (\<lambda>(str, eol). coalesce str [] @ (if eol then nl else [])) items)"

fun read_pages :: "(nat \<Rightarrow> (string option \<times> bool) list result) \<Rightarrow> nat list \<Rightarrow> string list result" where
  "read_pages items [] = Inr []"
| "read_pages items (n # ns) =
     (case items n of
        Inl e \<Rightarrow> Inl e
      | Inr page \<Rightarrow> (case read_pages items ns of Inl e \<Rightarrow> Inl e | Inr rest \<Rightarrow> Inr (joinItems page # rest)))"

text \<open>\<open>maxPages\<close> is a whole number of pages, or none for no limit.\<close>

definition readTextLayer :: "(string \<Rightarrow> pdf_document result) \<Rightarrow> string \<Rightarrow> nat \<Rightarrow> nat option \<Rightarrow> text_layer_outcome" where
  "readTextLayer getDocument bytes sparseBelow maxPages =
     (case getDocument bytes of
        Inl e \<Rightarrow> NotAPdf 0 (describeForModel e)
      | Inr document \<Rightarrow>
          let pages = pdf_numPages document; pagesRead = min pages (coalesce maxPages pages) in
          (case read_pages (pdf_items document) [1..<Suc pagesRead] of
             Inl e \<Rightarrow> NotAPdf pages (describeForModel e)
           | Inr perPage \<Rightarrow>
               let text = trim (join (nl @ nl) perPage); truncated = pagesRead < pages in
               if text = [] \<and> \<not> truncated then NoTextLayer pages
               else TextLayer text pages (length text < sparseBelow) pagesRead truncated))"

section \<open>Configuration and state\<close>

record mail_config =
  mc_host :: string
  mc_folderIncoming :: string
  mc_folderProcessed :: string
  mc_folderFailed :: string
  mc_folderRejected :: string
  mc_allowedSenders :: "string list"
  mc_maxPerPoll :: nat
  mc_maxAttachmentBytes :: nat
  mc_transport :: "string option"
  mc_gmailRefreshToken :: "string option"

record mail_summary =
  su_fetched :: nat
  su_rejected :: nat
  su_created :: nat
  su_skipped :: nat
  su_failed :: nat

datatype 'w ingest_event =
    MessageParsed fetched_message
  | FileUploaded string
  | DocumentCreated string
  | MessageFiled 'w int string
  | MoveFailed int string

record 'w ingest =
  ig_world :: 'w
  ig_summary :: mail_summary
  ig_events :: "'w ingest_event list"

record 'w mail_deps =
  md_config :: mail_config
  md_mailbox :: "'w mailbox"
  md_things :: "'w a12_client"
  md_upload :: "string \<Rightarrow> string \<Rightarrow> string \<Rightarrow> ('w, props) io"
  md_parser :: "string \<Rightarrow> parsed_mail result"
  md_pdf :: "string \<Rightarrow> pdf_document result"
  md_sha256 :: "string \<Rightarrow> string"
  md_now :: "'w \<Rightarrow> int"

definition outside :: "('w, 'a) io \<Rightarrow> ('w ingest, 'a) io" where
  "outside m = (\<lambda>s. case m (ig_world s) of (r, w) \<Rightarrow> (r, s\<lparr>ig_world := w\<rparr>))"

definition record_event :: "'w ingest_event \<Rightarrow> ('w ingest, unit) io" where
  "record_event ev = modifyE (\<lambda>s. s\<lparr>ig_events := ig_events s @ [ev]\<rparr>)"

definition tally :: "(mail_summary \<Rightarrow> mail_summary) \<Rightarrow> ('w ingest, unit) io" where
  "tally f = modifyE (\<lambda>s. s\<lparr>ig_summary := f (ig_summary s)\<rparr>)"

definition Document_with_attachment :: model_spec where
  "Document_with_attachment = Document_spec\<lparr>ms_fields := ms_fields Document_spec @ [(''attachment'', ''Attachment'')]\<rparr>"

definition TEXT_MEDIA_TYPE :: string where "TEXT_MEDIA_TYPE = ''text/plain''"
definition PDF_MEDIA_TYPE :: string where "PDF_MEDIA_TYPE = ''application/pdf''"
definition OPERATION_KEY :: string where "OPERATION_KEY = ''email.receive''"
definition MAX_FIELD_LENGTH :: nat where "MAX_FIELD_LENGTH = 200"
definition MAX_SEARCHABLE_LENGTH :: nat where "MAX_SEARCHABLE_LENGTH = 100"
definition MAX_EXTRACTED_TEXT_LENGTH :: nat where "MAX_EXTRACTED_TEXT_LENGTH = 20000"
definition ARRIVAL_MAX_PAGES :: nat where "ARRIVAL_MAX_PAGES = 20"

definition TRUNCATION_NOTE :: string where
  "TRUNCATION_NOTE = nl @ nl @ ''[This text was truncated at '' @ string_of_nat MAX_EXTRACTED_TEXT_LENGTH
     @ '' characters; the rest was not stored.]''"

definition pageTruncationNote :: "nat \<Rightarrow> nat \<Rightarrow> string" where
  "pageTruncationNote pagesRead pages = nl @ nl @ ''[Only the first '' @ string_of_nat pagesRead @ '' of ''
     @ string_of_nat pages @ '' pages were read on arrival; the rest was not extracted.]''"

section \<open>Who may post\<close>

definition isConfigured :: "mail_config \<Rightarrow> bool" where
  "isConfigured config =
     (if mc_transport config = Some ''gmail'' then coalesce (mc_gmailRefreshToken config) [] \<noteq> []
      else trim (mc_host config) \<noteq> [])"

text \<open>The text between the first \<open><\<close> and the next \<open>>\<close>, if there are such.\<close>

definition angled :: "string \<Rightarrow> string option" where
  "angled v = (case dropWhile (\<lambda>c. c \<noteq> CHR ''<'') v of
     [] \<Rightarrow> None
   | _ # r \<Rightarrow> if CHR ''>'' \<in> set r then Some (takeWhile (\<lambda>c. c \<noteq> CHR ''>'') r) else None)"

definition bareAddress :: "string \<Rightarrow> string" where
  "bareAddress v = toLowerCase (trim (coalesce (angled v) v))"

definition isAllowedSender :: "string \<Rightarrow> string list \<Rightarrow> bool" where
  "isAllowedSender from allowlist \<longleftrightarrow>
     bareAddress from \<noteq> [] \<and> list_ex (\<lambda>entry. bareAddress entry = bareAddress from) allowlist"

section \<open>One Document\<close>

definition capped :: "string \<Rightarrow> nat \<Rightarrow> string" where
  "capped v maxLength =
     (if length v \<le> maxLength then v else take (maxLength - 1) v @ [CHR 0xE2, CHR 0x80, CHR 0xA6])"

definition cappedText :: "string \<Rightarrow> string" where
  "cappedText v =
     (if length v \<le> MAX_EXTRACTED_TEXT_LENGTH then v else take MAX_EXTRACTED_TEXT_LENGTH v @ TRUNCATION_NOTE)"

definition storableRef :: "(string \<Rightarrow> string) \<Rightarrow> string \<Rightarrow> string" where
  "storableRef sha256 xref =
     (if length xref \<le> MAX_SEARCHABLE_LENGTH then xref
      else ''mail-digest:'' @ take 40 (sha256 xref))"

definition storableInstant :: "string \<Rightarrow> int \<Rightarrow> string" where
  "storableInstant v fallback =
     (case (if v = [] then None else date_parse v) of Some ms \<Rightarrow> iso_of_ms ms | None \<Rightarrow> iso_of_ms fallback)"

definition combineBodyAndAttachment :: "string \<Rightarrow> string \<Rightarrow> string \<Rightarrow> string" where
  "combineBodyAndAttachment body filename attachmentText =
     (let note' = trim body; text = trim attachmentText; heading = ''--- '' @ filename @ '' ---'' in
      if text = [] then body
      else if note' = [] then heading @ nl @ text else note' @ nl @ nl @ heading @ nl @ text)"

definition withTextLayer :: "(string \<Rightarrow> pdf_document result) \<Rightarrow> incoming_document \<Rightarrow> string" where
  "withTextLayer getDocument document =
     (case id_attachment document of
        None \<Rightarrow> id_extractedText document
      | Some attachment \<Rightarrow>
          if at_mimeType attachment \<noteq> PDF_MEDIA_TYPE then id_extractedText document
          else (case readTextLayer getDocument (at_bytes attachment) SPARSE_TEXT_CHARS (Some ARRIVAL_MAX_PAGES) of
                  TextLayer text pages sparse pagesRead truncated \<Rightarrow>
                    combineBodyAndAttachment (id_extractedText document) (at_filename attachment)
                      (if truncated then text @ pageTruncationNote pagesRead pages else text)
                | _ \<Rightarrow> id_extractedText document))"

definition document_fields :: "'w mail_deps \<Rightarrow> incoming_document \<Rightarrow> string \<Rightarrow> int \<Rightarrow> props option \<Rightarrow> props" where
  "document_fields deps document xref instant attachment =
     [(''title'', JStr (capped (id_title document) MAX_FIELD_LENGTH)),
      (''receivedAt'', JStr (storableInstant (id_receivedAt document) instant)),
      (''source'', JStr ''email''),
      (''mediaType'', JStr (case id_attachment document of Some a \<Rightarrow> at_mimeType a | None \<Rightarrow> TEXT_MEDIA_TYPE)),
      (''externalRef'', JStr xref),
      (''extractedText'', JStr (cappedText (withTextLayer (md_pdf deps) document)))]
     @ (case attachment of Some a \<Rightarrow> [(''attachment'', JObj a)] | None \<Rightarrow> [])
     @ [(''idempotencyKey'', JStr xref)]"

definition by_ref :: "string \<Rightarrow> constraint" where
  "by_ref xref = eq (fieldPath Document_spec ''externalRef'') (JStr xref)"

definition ingestDocument :: "'w mail_deps \<Rightarrow> incoming_document \<Rightarrow> ('w ingest, unit) io" where
  "ingestDocument deps document =
     (let xref = storableRef (md_sha256 deps) (id_externalRef document) in
      bindE (outside (repo_search (md_things deps) Document_spec (Some (by_ref xref)) 1 [])) (\<lambda>existing.
        if 0 < length existing then tally (\<lambda>u. u\<lparr>su_skipped := su_skipped u + 1\<rparr>)
        else
          bindE (case id_attachment document of
                   None \<Rightarrow> returnE None
                 | Some a \<Rightarrow>
                     bindE (outside (md_upload deps (at_filename a) (at_mimeType a) (at_bytes a))) (\<lambda>up.
                     bindE (record_event (FileUploaded (at_filename a))) (\<lambda>_. returnE (Some up)))) (\<lambda>attachment.
          bindE (getE (\<lambda>s. md_now deps (ig_world s))) (\<lambda>instant.
          bindE (outside (repo_create (md_things deps) Document_with_attachment
                   (document_fields deps document xref instant attachment))) (\<lambda>_.
          bindE (record_event (DocumentCreated xref)) (\<lambda>_.
            tally (\<lambda>u. u\<lparr>su_created := su_created u + 1\<rparr>)))))))"

section \<open>One message\<close>

definition reject :: "('w ingest, unit) io" where
  "reject = tally (\<lambda>u. u\<lparr>su_rejected := su_rejected u + 1\<rparr>)"

definition sort_message :: "'w mail_deps \<Rightarrow> fetched_message \<Rightarrow> ('w ingest, string) io" where
  "sort_message deps fetched =
     (let config = md_config deps in
      if \<not> isAllowedSender (fm_envelopeFrom fetched) (mc_allowedSenders config) then
        bindE reject (\<lambda>_. returnE (mc_folderRejected config))
      else
        bindE (record_event (MessageParsed fetched)) (\<lambda>_.
        case parseMessage (md_parser deps) (fm_raw fetched) (fm_uid fetched) (fm_internalDate fetched)
               (mc_maxAttachmentBytes config) (fm_origin fetched) of
          Inl e \<Rightarrow> throwE e
        | Inr message \<Rightarrow>
            if \<not> isAllowedSender (im_from message) (mc_allowedSenders config) then
              bindE reject (\<lambda>_. returnE (mc_folderRejected config))
            else
              bindE (foldE (\<lambda>document _. ingestDocument deps document) (im_documents message) ()) (\<lambda>_.
                returnE (mc_folderProcessed config))))"

definition classifyMessage :: "'w mail_deps \<Rightarrow> fetched_message \<Rightarrow> ('w ingest, string) io" where
  "classifyMessage deps fetched = catchE (sort_message deps fetched) (\<lambda>_.
     bindE (tally (\<lambda>u. u\<lparr>su_failed := su_failed u + 1\<rparr>)) (\<lambda>_. returnE (mc_folderFailed (md_config deps))))"

text \<open>A move, whose failure leaves the message where it is.\<close>

definition file_message :: "'w mail_deps \<Rightarrow> 'w mail_session \<Rightarrow> int \<Rightarrow> string \<Rightarrow> ('w ingest, unit) io" where
  "file_message deps session uid destination =
     bindE (attemptE (outside (ms_move session uid (mc_folderIncoming (md_config deps)) destination))) (\<lambda>r.
     bindE (getE ig_world) (\<lambda>w.
       record_event (case r of Inr _ \<Rightarrow> MessageFiled w uid destination | Inl _ \<Rightarrow> MoveFailed uid destination)))"

definition handleMessage :: "'w mail_deps \<Rightarrow> 'w mail_session \<Rightarrow> fetched_message \<Rightarrow> ('w ingest, unit) io" where
  "handleMessage deps session fetched =
     bindE (classifyMessage deps fetched) (\<lambda>destination. file_message deps session (fm_uid fetched) destination)"

definition fileOversized :: "'w mail_deps \<Rightarrow> 'w mail_session \<Rightarrow> oversized_message \<Rightarrow> ('w ingest, unit) io" where
  "fileOversized deps session message =
     bindE (tally (\<lambda>u. u\<lparr>su_failed := su_failed u + 1\<rparr>)) (\<lambda>_.
       file_message deps session (om_uid message) (mc_folderFailed (md_config deps)))"

section \<open>One poll\<close>

definition isSwitchedOn :: "'w mail_deps \<Rightarrow> ('w ingest, bool) io" where
  "isSwitchedOn deps =
     bindE (attemptE (outside (repo_search (md_things deps) Operation_spec
              (Some (eq (fieldPath Operation_spec ''key'') (JStr OPERATION_KEY))) 2 []))) (\<lambda>r.
       returnE (case r of
          Inl _ \<Rightarrow> True
        | Inr found \<Rightarrow> \<not> list_ex (\<lambda>t. o_enabled (operation_of (data t)) = Some False) found))"

definition work_through :: "'w mail_deps \<Rightarrow> 'w mail_session \<Rightarrow> ('w ingest, unit) io" where
  "work_through deps session =
     (let config = md_config deps in
      bindE (outside (ms_ensureFolders session [mc_folderIncoming config, mc_folderProcessed config,
               mc_folderFailed config, mc_folderRejected config])) (\<lambda>_.
      bindE (outside (ms_fetchBatch session (mc_folderIncoming config) (mc_maxPerPoll config)
               no_limits)) (\<lambda>batch.
      bindE (foldE (\<lambda>message _. fileOversized deps session message) (fr_oversized batch) ()) (\<lambda>_.
      bindE (tally (\<lambda>u. u\<lparr>su_fetched := length (fr_messages batch)\<rparr>)) (\<lambda>_.
        foldE (\<lambda>message _. handleMessage deps session message) (fr_messages batch) ())))))"

definition in_session :: "'w mail_deps \<Rightarrow> ('w mail_session \<Rightarrow> ('w ingest, unit) io) \<Rightarrow> ('w ingest, unit) io" where
  "in_session deps work =
     bindE (outside (mb_open (md_mailbox deps))) (\<lambda>session.
       finallyE (work session) (outside (mb_close (md_mailbox deps))))"

definition MailboxUnreachable :: "js_error \<Rightarrow> js_error" where
  "MailboxUnreachable e = JsError ''MailboxUnreachable'' (''the letterbox could not be read: '' @ describeForModel e)"

definition runMailIngest :: "'w mail_deps \<Rightarrow> ('w ingest, mail_summary) io" where
  "runMailIngest deps =
     (if \<not> isConfigured (md_config deps) then getE ig_summary
      else
        bindE (catchE
          (bindE (isSwitchedOn deps) (\<lambda>on. if on then in_session deps (work_through deps) else returnE ()))
          (\<lambda>e. throwE (MailboxUnreachable e))) (\<lambda>_.
        getE ig_summary))"

definition empty_summary :: mail_summary where
  "empty_summary = \<lparr>su_fetched = 0, su_rejected = 0, su_created = 0, su_skipped = 0, su_failed = 0\<rparr>"

definition ingest_start :: "'w \<Rightarrow> 'w ingest" where
  "ingest_start w = \<lparr>ig_world = w, ig_summary = empty_summary, ig_events = []\<rparr>"

text \<open>What \<open>services.ts\<close> hands the watcher as its \<open>pollMailbox\<close>.\<close>

definition poll_mailbox :: "'w mail_deps \<Rightarrow> ('w, int) io" where
  "poll_mailbox deps = (\<lambda>w. case runMailIngest deps (ingest_start w) of
     (Inl e, s) \<Rightarrow> (Inl e, ig_world s) | (Inr summary, s) \<Rightarrow> (Inr (int (su_created summary)), ig_world s))"

end
