(* ===== verification/MailFacts.thy ===== *)
theory MailFacts
  imports MailIngest
begin

text \<open>
  How a poll acts on the ThingStore: rules for its steps, what ingesting a Document leaves behind, and the
  invariant that a message is filed as processed only when everything it became is in the store.
\<close>

section \<open>The basic steps\<close>

lemma wp_outside:
  "wp_of (outside m) Q E s = wp_of m (\<lambda>x w. Q x (s\<lparr>ig_world := w\<rparr>)) (\<lambda>e w. E e (s\<lparr>ig_world := w\<rparr>)) (ig_world s)"
  by (simp add: wp_of_def outside_def split: prod.split sum.split)

lemma wp_record_event [wp]: "wp_of (record_event ev) Q E s = Q () (s\<lparr>ig_events := ig_events s @ [ev]\<rparr>)"
  by (simp add: record_event_def wp)

lemma wp_tally [wp]: "wp_of (tally f) Q E s = Q () (s\<lparr>ig_summary := f (ig_summary s)\<rparr>)"
  by (simp add: tally_def wp)

text \<open>What a system other than the ThingStore does leaves the ThingStore alone.\<close>

definition elsewhere :: "('w \<Rightarrow> view) \<Rightarrow> ('w \<Rightarrow> bool) \<Rightarrow> ('w, 'a) io \<Rightarrow> bool" where
  "elsewhere view ok m \<longleftrightarrow> (\<forall>w. view (snd (m w)) = view w \<and> (ok w \<longrightarrow> ok (snd (m w))))"

definition other_systems :: "('w \<Rightarrow> view) \<Rightarrow> ('w \<Rightarrow> bool) \<Rightarrow> 'w mail_deps \<Rightarrow> bool" where
  "other_systems view ok deps \<longleftrightarrow>
     (\<forall>n t b. elsewhere view ok (md_upload deps n t b)) \<and> elsewhere view ok (mb_open (md_mailbox deps)) \<and>
     elsewhere view ok (mb_close (md_mailbox deps)) \<and>
     (\<forall>w session w'. mb_open (md_mailbox deps) w = (Inr session, w') \<longrightarrow>
        (\<forall>f n l. elsewhere view ok (ms_fetchBatch session f n l)) \<and>
        (\<forall>u f t. elsewhere view ok (ms_move session u f t)) \<and> (\<forall>fs. elsewhere view ok (ms_ensureFolders session fs)))"

lemma wp_elsewhere:
  assumes "elsewhere view ok m" and "ok (ig_world s)"
    and "\<And>x w. view w = view (ig_world s) \<Longrightarrow> ok w \<Longrightarrow> Q x (s\<lparr>ig_world := w\<rparr>)"
    and "\<And>e w. view w = view (ig_world s) \<Longrightarrow> ok w \<Longrightarrow> E e (s\<lparr>ig_world := w\<rparr>)"
  shows "wp_of (outside m) Q E s"
proof -
  obtain r w where "m (ig_world s) = (r, w)" by fastforce
  moreover from this have "view w = view (ig_world s)" "ok w" using assms(1,2) unfolding elsewhere_def by (metis snd_conv)+
  ultimately show ?thesis using assms(3,4) unfolding wp_outside by (cases r) (simp_all add: wp_of_def)
qed

section \<open>A Document in the store\<close>

definition in_store :: "view \<Rightarrow> string \<Rightarrow> bool" where
  "in_store v xref \<longleftrightarrow> (\<exists>ref doc. v ref = Some (''Document_DM'', doc) \<and>
     (matches doc (by_ref xref) \<or> matches doc (eq (fieldPath Document_with_attachment ''idempotencyKey'') (JStr xref))))"

lemma in_store_mono: "v \<subseteq>\<^sub>m v' \<Longrightarrow> in_store v x \<Longrightarrow> in_store v' x"
  unfolding in_store_def map_le_def by (metis domI)

text \<open>A message whose sender may post, with everything it becomes in the store.\<close>

definition all_stored :: "'w mail_deps \<Rightarrow> view \<Rightarrow> fetched_message \<Rightarrow> bool" where
  "all_stored deps v fetched \<longleftrightarrow> isAllowedSender (fm_envelopeFrom fetched) (mc_allowedSenders (md_config deps)) \<and>
     (\<exists>message. parseMessage (md_parser deps) (fm_raw fetched) (fm_uid fetched) (fm_internalDate fetched)
          (mc_maxAttachmentBytes (md_config deps)) (fm_origin fetched) = Inr message \<and>
        isAllowedSender (im_from message) (mc_allowedSenders (md_config deps)) \<and>
        (\<forall>document \<in> set (im_documents message). in_store v (storableRef (md_sha256 deps) (id_externalRef document))))"

definition filed_well :: "'w mail_deps \<Rightarrow> ('w \<Rightarrow> view) \<Rightarrow> 'w ingest_event list \<Rightarrow> bool" where
  "filed_well deps view evs \<longleftrightarrow>
     (\<forall>w uid. MessageFiled w uid (mc_folderProcessed (md_config deps)) \<in> set evs \<longrightarrow>
        (\<exists>fetched. MessageParsed fetched \<in> set evs \<and> fm_uid fetched = uid \<and> all_stored deps (view w) fetched))"

definition sound :: "'w mail_deps \<Rightarrow> ('w \<Rightarrow> view) \<Rightarrow> ('w \<Rightarrow> bool) \<Rightarrow> 'w ingest \<Rightarrow> bool" where
  "sound deps view ok s \<longleftrightarrow> ok (ig_world s) \<and> filed_well deps view (ig_events s)"

lemma sound_simps [simp]:
  "sound deps view ok (s\<lparr>ig_summary := u\<rparr>) = sound deps view ok s"
  "sound deps view ok (s\<lparr>ig_world := w\<rparr>) \<longleftrightarrow> ok w \<and> filed_well deps view (ig_events s)"
  by (simp_all add: sound_def)

lemma sound_event:
  "sound deps view ok s \<Longrightarrow> (\<And>w uid d. ev \<noteq> MessageFiled w uid d) \<Longrightarrow> sound deps view ok (s\<lparr>ig_events := ig_events s @ [ev]\<rparr>)"
  unfolding sound_def filed_well_def by simp blast

definition grown :: "('w \<Rightarrow> view) \<Rightarrow> 'w ingest \<Rightarrow> 'w ingest \<Rightarrow> bool" where
  "grown view s s' \<longleftrightarrow> view (ig_world s) \<subseteq>\<^sub>m view (ig_world s') \<and> set (ig_events s) \<subseteq> set (ig_events s')"

lemma grown_refl [simp]: "grown view s s"
  by (simp add: grown_def)

lemma grown_trans: "grown view s s' \<Longrightarrow> grown view s' s'' \<Longrightarrow> grown view s s''"
  unfolding grown_def by (meson map_le_trans subset_trans)

lemma wf_with_attachment: "wf_spec Document_with_attachment" "path_ok Document_with_attachment"
  by code_simp+

lemma attachment_name: "model_name (ms_model Document_with_attachment) = ''Document_DM''" "model_name (ms_model Document_spec) = ''Document_DM''"
  by (simp_all add: Document_with_attachment_def Document_spec_def)

lemma all_stored_mono: "v \<subseteq>\<^sub>m v' \<Longrightarrow> all_stored deps v f \<Longrightarrow> all_stored deps v' f"
  unfolding all_stored_def using in_store_mono by blast

definition sorted_well :: "'w mail_deps \<Rightarrow> ('w \<Rightarrow> view) \<Rightarrow> fetched_message \<Rightarrow> string \<Rightarrow> 'w ingest \<Rightarrow> bool" where
  "sorted_well deps view fetched destination s \<longleftrightarrow> destination = mc_folderProcessed (md_config deps) \<longrightarrow>
     MessageParsed fetched \<in> set (ig_events s) \<and> all_stored deps (view (ig_world s)) fetched"

text \<open>What is set aside is told apart from what was processed.\<close>

definition set_apart :: "mail_config \<Rightarrow> bool" where
  "set_apart config \<longleftrightarrow> mc_folderProcessed config \<noteq> mc_folderFailed config \<and> mc_folderProcessed config \<noteq> mc_folderRejected config"

lemma wp_finallyE:
  assumes "wp_of m (\<lambda>x s'. wp_of f (\<lambda>_. Q x) E s') (\<lambda>e s'. wp_of f (\<lambda>_. E e) E s') s"
  shows "wp_of (finallyE m f) Q E s"
  unfolding finallyE_def by (simp add: wp_bindE wp_attemptE) (rule wp_mono [OF assms], auto elim: wp_mono simp: wp)

context thing_client
begin

lemma created_in_store:
  assumes "inv w" and "repo_create cl Document_with_attachment d w = (Inr t, w')"
    and "as_str (pget d ''idempotencyKey'') = Some xref"
  shows "view w \<subseteq>\<^sub>m view w' \<and> in_store (view w') xref"
proof -
  obtain ref doc where "view w' ref = Some (''Document_DM'', doc)"
    "matches doc (eq (fieldPath Document_with_attachment ''idempotencyKey'') (JStr xref))"
    using create_holds_key [OF assms(1) wf_with_attachment _ assms(3,2), of "''IdempotencyKey''"]
    by (auto simp: Document_with_attachment_def Document_spec_def MACHINE_FIELDS_def)
  then have stored: "in_store (view w') xref" by (auto simp: in_store_def)
  from assms(2,3) obtain r w0 where f: "findByIdempotencyKey cl Document_with_attachment xref w = (Inr r, w0)"
    and a: "(case r of Some t \<Rightarrow> returnE t | None \<Rightarrow> add_and_converge cl Document_with_attachment d (Some xref)) w0 = (Inr t, w')"
    by (auto simp: repo_create_def Let_def bindE_def throwE_def split: prod.splits sum.splits)
  have v: "view w0 = view w" by (rule find_result(1) [OF assms(1) f])
  have "view w0 \<subseteq>\<^sub>m view w'"
  proof (cases r)
    case None
    have "inv w0" using inv_repo(4) assms(1) f by (metis keepsD snd_conv)
    from add_and_converge_result [OF this] a None obtain ref x where "view w0 ref = None" "view w' = (view w0)(ref \<mapsto> x)"
      by auto blast
    then show ?thesis by (auto simp: map_le_def)
  next
    case (Some x)
    with a show ?thesis by (simp add: returnE_def)
  qed
  with v stored show ?thesis by simp
qed

lemma wp_ingestDocument:
  assumes "md_things deps = cl" and "other_systems view inv deps" and "sound deps view inv s"
  shows "wp_of (ingestDocument deps d) (\<lambda>_ s'. sound deps view inv s' \<and> grown view s s' \<and>
      in_store (view (ig_world s')) (storableRef (md_sha256 deps) (id_externalRef d))) (\<lambda>_. sound deps view inv) s"
proof -
  let ?x = "storableRef (md_sha256 deps) (id_externalRef d)" and ?Q = "\<lambda>_ s'. sound deps view inv s' \<and> grown view s s' \<and>
      in_store (view (ig_world s')) (storableRef (md_sha256 deps) (id_externalRef d))"
  have i: "inv (ig_world s)" using assms(3) by (simp add: sound_def)
  obtain r w where run: "repo_search cl Document_spec (Some (by_ref ?x)) 1 [] (ig_world s) = (r, w)" by fastforce
  have v: "view w = view (ig_world s)" using search_frame [of Document_spec "Some (by_ref ?x)" 1 "[]" "ig_world s"] run by simp
  have iw: "inv w" using inv_repo(3) i run by (metis keepsD snd_conv)
  let ?s = "s\<lparr>ig_world := w\<rparr>"
  have s1: "sound deps view inv ?s" "grown view s ?s" using assms(3) iw v by (simp_all add: sound_def grown_def)
  have found: "in_store (view w) ?x" if "r = Inr (t # ts)" for t ts
  proof -
    from search_result(3) [OF i run [unfolded that], of t] obtain doc where
      "view (ig_world s) (docRef t) = Some (''Document_DM'', doc)" "matches doc (by_ref ?x)" by (auto simp: attachment_name)
    then show ?thesis by (auto simp: in_store_def v)
  qed
  have create: "wp_of (bindE (getE (\<lambda>s. md_now deps (ig_world s))) (\<lambda>instant.
          bindE (outside (repo_create (md_things deps) Document_with_attachment (document_fields deps d ?x instant up))) (\<lambda>_.
          bindE (record_event (DocumentCreated ?x)) (\<lambda>_.
            tally (\<lambda>u. u\<lparr>su_created := su_created u + 1\<rparr>))))) ?Q (\<lambda>_. sound deps view inv) t"
    if t: "sound deps view inv t" "grown view s t" for up t
  proof -
    let ?f = "document_fields deps d ?x (md_now deps (ig_world t)) up"
    have key: "as_str (pget ?f ''idempotencyKey'') = Some ?x"
      by (simp add: document_fields_def as_str_def split: option.split)
    obtain c w' where c: "repo_create cl Document_with_attachment ?f (ig_world t) = (c, w')" by fastforce
    have "inv w'" using inv_create t(1) c by (metis keepsD snd_conv sound_def)
    moreover have "view (ig_world t) \<subseteq>\<^sub>m view w' \<and> in_store (view w') ?x" if "c = Inr y" for y
      using created_in_store [OF _ c [unfolded that] key] t(1) by (simp add: sound_def)
    ultimately show ?thesis
      using t c assms(1) sound_event [of deps view inv "t\<lparr>ig_world := w'\<rparr>" "DocumentCreated ?x"]
      by (cases c) (auto simp: wp wp_outside wp_of_def [of "repo_create _ _ _"] sound_def grown_def elim: map_le_trans)
  qed
  have up: "wp_of (case id_attachment d of None \<Rightarrow> returnE None
     | Some a \<Rightarrow> bindE (outside (md_upload deps (at_filename a) (at_mimeType a) (at_bytes a))) (\<lambda>up.
         bindE (record_event (FileUploaded (at_filename a))) (\<lambda>_. returnE (Some up))))
     (\<lambda>_ t. sound deps view inv t \<and> grown view s t) (\<lambda>_. sound deps view inv) ?s"
  proof (cases "id_attachment d")
    case None
    with s1 show ?thesis by (simp add: wp)
  next
    case (Some a)
    have "elsewhere view inv (md_upload deps (at_filename a) (at_mimeType a) (at_bytes a))"
      using assms(2) by (simp add: other_systems_def)
    then have "wp_of (outside (md_upload deps (at_filename a) (at_mimeType a) (at_bytes a)))
        (\<lambda>_ t. sound deps view inv (t\<lparr>ig_events := ig_events t @ [FileUploaded (at_filename a)]\<rparr>)
            \<and> grown view s (t\<lparr>ig_events := ig_events t @ [FileUploaded (at_filename a)]\<rparr>)) (\<lambda>_. sound deps view inv) ?s"
      using s1 by (intro wp_elsewhere [of view inv]) (auto simp: sound_def grown_def filed_well_def)
    with Some show ?thesis by (simp add: wp_bindE) (erule wp_mono, simp_all add: wp)
  qed
  have new: "wp_of (bindE (case id_attachment d of None \<Rightarrow> returnE None
     | Some a \<Rightarrow> bindE (outside (md_upload deps (at_filename a) (at_mimeType a) (at_bytes a))) (\<lambda>up.
         bindE (record_event (FileUploaded (at_filename a))) (\<lambda>_. returnE (Some up)))) (\<lambda>up.
       bindE (getE (\<lambda>s. md_now deps (ig_world s))) (\<lambda>instant.
          bindE (outside (repo_create (md_things deps) Document_with_attachment (document_fields deps d ?x instant up))) (\<lambda>_.
          bindE (record_event (DocumentCreated ?x)) (\<lambda>_.
            tally (\<lambda>u. u\<lparr>su_created := su_created u + 1\<rparr>)))))) ?Q (\<lambda>_. sound deps view inv) ?s"
    by (subst wp_bindE, rule wp_mono [OF up]) (blast intro: create)+
  have skip: "?Q () (?s\<lparr>ig_summary := u\<rparr>)" if "r = Inr (t # ts)" for t ts u
    using s1 found [OF that] by (simp add: grown_def)
  show ?thesis
    unfolding ingestDocument_def Let_def assms(1)
    apply (subst wp_bindE)
    unfolding wp_outside wp_of_def [of "repo_search _ _ _ _ _"] run
    using s1 new skip unfolding assms(1) by (cases r) (auto simp: wp neq_Nil_conv)
qed

lemma wp_ingest_all:
  assumes "md_things deps = cl" and "other_systems view inv deps" and "sound deps view inv s"
  shows "wp_of (foldE (\<lambda>d _. ingestDocument deps d) ds ()) (\<lambda>_ s'. sound deps view inv s' \<and> grown view s s' \<and>
      (\<forall>d \<in> set ds. in_store (view (ig_world s')) (storableRef (md_sha256 deps) (id_externalRef d)))) (\<lambda>_. sound deps view inv) s"
  using assms(3)
proof (induction ds arbitrary: s)
  case Nil
  then show ?case by (simp add: wp)
next
  case (Cons d ds)
  show ?case
    unfolding foldE.simps
  proof (subst wp_bindE, rule wp_mono [OF wp_ingestDocument [OF assms(1,2) Cons.prems]])
    fix x s1
    assume a: "sound deps view inv s1 \<and> grown view s s1 \<and> in_store (view (ig_world s1)) (storableRef (md_sha256 deps) (id_externalRef d))"
    show "wp_of (foldE (\<lambda>d _. ingestDocument deps d) ds x) (\<lambda>_ s'. sound deps view inv s' \<and> grown view s s' \<and>
      (\<forall>d \<in> set (d # ds). in_store (view (ig_world s')) (storableRef (md_sha256 deps) (id_externalRef d)))) (\<lambda>_. sound deps view inv) s1"
      using a Cons.IH [of s1]
      by (auto elim!: wp_mono dest: grown_trans intro: in_store_mono simp: grown_def [of view s1])
  qed simp
qed

lemma wp_sort_message:
  assumes "md_things deps = cl" and "other_systems view inv deps" and "set_apart (md_config deps)" and "sound deps view inv s"
  shows "wp_of (sort_message deps fetched) (\<lambda>d s'. sound deps view inv s' \<and> sorted_well deps view fetched d s')
      (\<lambda>_. sound deps view inv) s"
proof (cases "isAllowedSender (fm_envelopeFrom fetched) (mc_allowedSenders (md_config deps))")
  case False
  with assms(3,4) show ?thesis by (auto simp: sort_message_def reject_def set_apart_def sorted_well_def wp)
next
  case True
  let ?s = "s\<lparr>ig_events := ig_events s @ [MessageParsed fetched]\<rparr>"
  have s1: "sound deps view inv ?s" by (rule sound_event [OF assms(4)]) simp
  show ?thesis
  proof (cases "parseMessage (md_parser deps) (fm_raw fetched) (fm_uid fetched) (fm_internalDate fetched)
               (mc_maxAttachmentBytes (md_config deps)) (fm_origin fetched)")
    case (Inl e)
    with True s1 show ?thesis by (simp add: sort_message_def wp)
  next
    case (Inr message)
    show ?thesis
    proof (cases "isAllowedSender (im_from message) (mc_allowedSenders (md_config deps))")
      case False
      with True Inr assms(3) s1 show ?thesis by (auto simp: sort_message_def reject_def set_apart_def sorted_well_def wp)
    next
      case allowed: True
      show ?thesis
        using True Inr allowed wp_ingest_all [OF assms(1,2) s1, of "im_documents message"]
        by (simp add: sort_message_def wp) (erule wp_mono, auto simp: wp sorted_well_def all_stored_def grown_def)
    qed
  qed
qed

lemma wp_classifyMessage:
  assumes "md_things deps = cl" and "other_systems view inv deps" and "set_apart (md_config deps)" and "sound deps view inv s"
  shows "wp_of (classifyMessage deps fetched) (\<lambda>d s'. sound deps view inv s' \<and> sorted_well deps view fetched d s') E s"
proof -
  have "sound deps view inv s1 \<Longrightarrow> wp_of (bindE (tally (\<lambda>u. u\<lparr>su_failed := su_failed u + 1\<rparr>)) (\<lambda>_. returnE (mc_folderFailed (md_config deps))))
     (\<lambda>d s'. sound deps view inv s' \<and> sorted_well deps view fetched d s') E s1" for s1
    using assms(3) by (auto simp: wp sorted_well_def set_apart_def)
  with wp_sort_message [OF assms] show ?thesis
    unfolding classifyMessage_def by (simp only: wp_catchE) (blast intro: wp_mono)
qed

lemma filed_event:
  assumes "sound deps view inv s"
    and "d = mc_folderProcessed (md_config deps) \<Longrightarrow>
      \<exists>f. MessageParsed f \<in> set (ig_events s) \<and> fm_uid f = uid \<and> all_stored deps (view w) f"
  shows "sound deps view inv (s\<lparr>ig_events := ig_events s @ [MessageFiled w uid d]\<rparr>)"
  using assms unfolding sound_def filed_well_def by auto

lemma wp_file_message:
  assumes "\<forall>u f t. elsewhere view inv (ms_move session u f t)" and "sound deps view inv s"
    and "d = mc_folderProcessed (md_config deps) \<Longrightarrow>
      \<exists>f. MessageParsed f \<in> set (ig_events s) \<and> fm_uid f = uid \<and> all_stored deps (view (ig_world s)) f"
  shows "wp_of (file_message deps session uid d) (\<lambda>_. sound deps view inv) E s"
proof -
  have "sound deps view inv (s\<lparr>ig_world := w, ig_events := ig_events s @ [ev]\<rparr>)"
    if "view w = view (ig_world s)" "inv w" "ev = MessageFiled w uid d \<or> ev = MoveFailed uid d" for w ev
    using that assms(2,3) filed_event [of deps "s\<lparr>ig_world := w\<rparr>" d uid w]
      sound_event [of deps view inv "s\<lparr>ig_world := w\<rparr>" ev] by (auto simp: sound_def)
  then show ?thesis
    unfolding file_message_def using assms(1,2)
    by (simp only: wp_bindE wp_attemptE) (rule wp_elsewhere [of view inv], auto simp: wp sound_def)
qed

lemma wp_handleMessage:
  assumes "md_things deps = cl" and "other_systems view inv deps" and "set_apart (md_config deps)"
    and "\<forall>u f t. elsewhere view inv (ms_move session u f t)" and "sound deps view inv s"
  shows "wp_of (handleMessage deps session fetched) (\<lambda>_. sound deps view inv) E s"
  unfolding handleMessage_def
  by (simp only: wp_bindE, rule wp_mono [OF wp_classifyMessage [OF assms(1-3,5)]])
    (auto intro: wp_file_message [OF assms(4)] simp: sorted_well_def)

lemma wp_fileOversized:
  assumes "set_apart (md_config deps)" and "\<forall>u f t. elsewhere view inv (ms_move session u f t)" and "sound deps view inv s"
  shows "wp_of (fileOversized deps session m) (\<lambda>_. sound deps view inv) E s"
  using assms unfolding fileOversized_def
  by (auto simp: wp_bindE wp_tally set_apart_def intro!: wp_file_message)

lemma wp_isSwitchedOn:
  assumes "md_things deps = cl" and "sound deps view inv s"
  shows "wp_of (isSwitchedOn deps) (\<lambda>_. sound deps view inv) E s"
proof -
  let ?q = "repo_search cl Operation_spec (Some (eq (fieldPath Operation_spec ''key'') (JStr OPERATION_KEY))) 2 []"
  have "elsewhere view inv ?q"
    unfolding elsewhere_def using search_frame inv_repo(3) keepsD by metis
  then show ?thesis
    unfolding isSwitchedOn_def assms(1) using assms(2)
    by (simp only: wp_bindE wp_attemptE) (rule wp_elsewhere [of view inv], auto simp: wp sound_def)
qed

lemma wp_work_through:
  assumes "md_things deps = cl" and "other_systems view inv deps" and "set_apart (md_config deps)"
    and "\<forall>f n l. elsewhere view inv (ms_fetchBatch session f n l)" and moves: "\<forall>u f t. elsewhere view inv (ms_move session u f t)"
    and "\<forall>fs. elsewhere view inv (ms_ensureFolders session fs)" and "sound deps view inv s"
  shows "wp_of (work_through deps session) (\<lambda>_. sound deps view inv) (\<lambda>_. sound deps view inv) s"
proof -
  have each: "wp_of (foldE (\<lambda>m _. handleMessage deps session m) ms ()) (\<lambda>_. sound deps view inv) (\<lambda>_. sound deps view inv) t"
    if "sound deps view inv t" for ms t
    by (rule wp_foldE [of "\<lambda>_. sound deps view inv"]) (use that wp_handleMessage [OF assms(1-3) moves] in auto)
  have big: "wp_of (foldE (\<lambda>m _. fileOversized deps session m) ms ()) (\<lambda>_. sound deps view inv) (\<lambda>_. sound deps view inv) t"
    if "sound deps view inv t" for ms t
    by (rule wp_foldE [of "\<lambda>_. sound deps view inv"]) (use that wp_fileOversized [OF assms(3) moves] in auto)
  have batch: "wp_of (bindE (foldE (\<lambda>message _. fileOversized deps session message) (fr_oversized b) ()) (\<lambda>_.
      bindE (tally (\<lambda>u. u\<lparr>su_fetched := length (fr_messages b)\<rparr>)) (\<lambda>_.
        foldE (\<lambda>message _. handleMessage deps session message) (fr_messages b) ())))
      (\<lambda>_. sound deps view inv) (\<lambda>_. sound deps view inv) t" if "sound deps view inv t" for b t
    by (simp only: wp_bindE, rule wp_mono [OF big [OF that]]) (simp_all add: wp_bindE wp_tally each)
  have fetch: "wp_of (bindE (outside (ms_fetchBatch session f n l)) (\<lambda>b.
      bindE (foldE (\<lambda>message _. fileOversized deps session message) (fr_oversized b) ()) (\<lambda>_.
      bindE (tally (\<lambda>u. u\<lparr>su_fetched := length (fr_messages b)\<rparr>)) (\<lambda>_.
        foldE (\<lambda>message _. handleMessage deps session message) (fr_messages b) ()))))
      (\<lambda>_. sound deps view inv) (\<lambda>_. sound deps view inv) t" if "sound deps view inv t" for f n l t
    by (subst wp_bindE, rule wp_elsewhere [of view inv], use assms(4) in blast, use that in \<open>simp add: sound_def\<close>,
        rule batch, use that in \<open>simp_all add: sound_def\<close>)
  show ?thesis
    unfolding work_through_def Let_def
    by (subst wp_bindE, rule wp_elsewhere [of view inv], use assms(6) in blast, use assms(7) in \<open>simp add: sound_def\<close>,
        rule fetch, use assms(7) in \<open>simp_all add: sound_def\<close>)
qed

lemma wp_in_session:
  assumes "md_things deps = cl" and "other_systems view inv deps" and "set_apart (md_config deps)" and "sound deps view inv s"
  shows "wp_of (in_session deps (work_through deps)) (\<lambda>_. sound deps view inv) (\<lambda>_. sound deps view inv) s"
proof -
  obtain r w where run: "mb_open (md_mailbox deps) (ig_world s) = (r, w)" by fastforce
  have "elsewhere view inv (mb_open (md_mailbox deps))" using assms(2) by (simp add: other_systems_def)
  then have "inv w" using run assms(4) unfolding elsewhere_def sound_def by (metis snd_conv)
  then have t: "sound deps view inv (s\<lparr>ig_world := w\<rparr>)" using assms(4) by (simp add: sound_def)
  have closed: "wp_of (outside (mb_close (md_mailbox deps))) (\<lambda>_. sound deps view inv) (\<lambda>_. sound deps view inv) t"
    if "sound deps view inv t" for t
    by (rule wp_elsewhere [of view inv]) (use that assms(2) in \<open>auto simp: other_systems_def sound_def\<close>)
  show ?thesis
  proof (cases r)
    case (Inl e)
    with run t show ?thesis by (simp add: in_session_def wp_bindE wp_outside wp_of_def [of "mb_open _"])
  next
    case (Inr session)
    have "wp_of (work_through deps session) (\<lambda>_. sound deps view inv) (\<lambda>_. sound deps view inv) (s\<lparr>ig_world := w\<rparr>)"
      using run Inr assms(2) unfolding other_systems_def by (intro wp_work_through assms t) metis+
    then have "wp_of (finallyE (work_through deps session) (outside (mb_close (md_mailbox deps))))
        (\<lambda>_. sound deps view inv) (\<lambda>_. sound deps view inv) (s\<lparr>ig_world := w\<rparr>)"
      by (intro wp_finallyE) (auto elim!: wp_mono intro: closed)
    with run Inr show ?thesis by (simp add: in_session_def wp_bindE wp_outside wp_of_def [of "mb_open _"])
  qed
qed

lemma sound_poll:
  assumes "md_things deps = cl" and "other_systems view inv deps" and "set_apart (md_config deps)" and "inv w"
  shows "sound deps view inv (snd (runMailIngest deps (ingest_start w)))"
proof (rule wp_final)
  let ?s = "ingest_start w"
  have s: "sound deps view inv ?s" using assms(4) by (simp add: sound_def ingest_start_def filed_well_def)
  have "wp_of (bindE (isSwitchedOn deps) (\<lambda>on. if on then in_session deps (work_through deps) else returnE ()))
      (\<lambda>_. sound deps view inv) (\<lambda>_. sound deps view inv) ?s"
    by (simp only: wp_bindE, rule wp_mono [OF wp_isSwitchedOn [OF assms(1) s, where E = "\<lambda>_ _. False"]])
      (auto simp: wp intro: wp_in_session [OF assms(1-3)])
  then show "wp_of (runMailIngest deps) (\<lambda>_. sound deps view inv) (\<lambda>_. sound deps view inv) ?s"
    unfolding runMailIngest_def using s
    by (cases "isConfigured (md_config deps)") (simp_all add: wp_basic wp_bindE [of "catchE _ _"] wp_catchE, erule wp_mono, simp_all add: wp)
qed

end

end
