(* ===== verification/MailProperties.thy ===== *)
theory MailProperties
  imports MailFacts StoreProperties
begin

text \<open>
  What a poll of the letterbox promises (\<open>runtime/src/watcher/mail.ts\<close>, \<open>runtime/src/connectors/email.ts\<close>):
  filing, the references of Documents, and the bounds of one download.
\<close>

section \<open>Filing\<close>

text \<open>
  C4. A message is filed as processed only once everything it became is stored. At the moment of that move
  the message has been read, the senders of its envelope and of its header may post, and each of its
  Documents is in the ThingStore under its reference, whatever fails in between and in whatever order
  the messages of the batch come.
\<close>

theorem mail_filed_only_when_stored:
  assumes "thing_client (md_things deps) view ok" and "ok w" and "other_systems view ok deps"
    and "set_apart (md_config deps)" and "runMailIngest deps (ingest_start w) = (r, s')"
    and "MessageFiled w' uid (mc_folderProcessed (md_config deps)) \<in> set (ig_events s')"
  shows "\<exists>fetched. MessageParsed fetched \<in> set (ig_events s') \<and> fm_uid fetched = uid \<and> all_stored deps (view w') fetched"
  using thing_client.sound_poll [OF assms(1) refl assms(3,4,2)] assms(5,6) by (simp add: sound_def filed_well_def)

definition one_letter :: parsed_mail where
  "one_letter = \<lparr>pm_subject = Some ''Bill'', pm_messageId = Some ''<m1>'', pm_date = Some (Instant 0), pm_text = Some ''Dear'',
     pm_html = None, pm_from = Some [Some ''a@b''],
     pm_attachments = Some [\<lparr>pa_filename = Some ''b.txt'', pa_contentType = Some ''text/plain'',
       pa_contentDisposition = Some ''attachment'', pa_content = Some ''xyz''\<rparr>]\<rparr>"

definition one_raw :: fetched_message where
  "one_raw = \<lparr>fm_uid = 7, fm_raw = ''raw'', fm_internalDate = Instant 0, fm_envelopeFrom = ''A@b'', fm_origin = None\<rparr>"

definition desk :: "mem_store mail_session" where
  "desk = \<lparr>ms_fetchBatch = (\<lambda>f n l. returnE \<lparr>fr_messages = [one_raw], fr_oversized = [], fr_budgetExhausted = False\<rparr>),
     ms_move = (\<lambda>u f t. returnE ()), ms_ensureFolders = (\<lambda>fs. returnE ())\<rparr>"

definition letterbox :: "mem_store mail_deps" where
  "letterbox = \<lparr>md_config = \<lparr>mc_host = ''imap'', mc_folderIncoming = ''in'', mc_folderProcessed = ''done'',
       mc_folderFailed = ''failed'', mc_folderRejected = ''junk'', mc_allowedSenders = [''<a@b>''], mc_maxPerPoll = 20,
       mc_maxAttachmentBytes = 10, mc_transport = None, mc_gmailRefreshToken = None\<rparr>,
     md_mailbox = \<lparr>mb_open = returnE desk, mb_close = returnE ()\<rparr>, md_things = memory_client,
     md_upload = (\<lambda>n t b. returnE [(''attachmentId'', JStr ''1'')]), md_parser = (\<lambda>raw. Inr one_letter),
     md_pdf = (\<lambda>b. Inl (JsError ''Error'' ''no pdf'')), md_sha256 = (\<lambda>s. s), md_now = clock\<rparr>"

lemma letterbox_values:
  "parseMessage (\<lambda>_. Inr one_letter) ''raw'' 7 (Instant 0) 10 None = Inr \<lparr>im_uid = 7, im_from = ''a@b'', im_subject = ''Bill'',
     im_documents = [\<lparr>id_title = ''Bill'', id_receivedAt = ''1970-01-01T00:00:00.000Z'', id_externalRef = ''<m1>#1'',
       id_extractedText = ''Dear'', id_attachment = Some \<lparr>at_filename = ''b.txt'', at_mimeType = ''text/plain'',
         at_size = 3, at_bytes = ''xyz''\<rparr>\<rparr>]\<rparr>"
  "isAllowedSender ''A@b'' [''<a@b>'']" "isAllowedSender ''a@b'' [''<a@b>'']" "trim ''imap'' \<noteq> []"
  "check_key Document_with_attachment ''<m1>#1'' = Inr ()" "length ''<m1>#1'' \<le> MAX_SEARCHABLE_LENGTH"
  by code_simp+

lemma letterbox_fields:
  "md_config letterbox = \<lparr>mc_host = ''imap'', mc_folderIncoming = ''in'', mc_folderProcessed = ''done'',
       mc_folderFailed = ''failed'', mc_folderRejected = ''junk'', mc_allowedSenders = [''<a@b>''], mc_maxPerPoll = 20,
       mc_maxAttachmentBytes = 10, mc_transport = None, mc_gmailRefreshToken = None\<rparr>"
  "mb_open (md_mailbox letterbox) = returnE desk" "mb_close (md_mailbox letterbox) = returnE ()"
  "md_things letterbox = memory_client" "md_upload letterbox n t b = returnE [(''attachmentId'', JStr ''1'')]"
  "md_parser letterbox = (\<lambda>raw. Inr one_letter)" "md_sha256 letterbox x = x" "md_now letterbox = clock"
  "ms_fetchBatch desk f k l = returnE \<lparr>fr_messages = [one_raw], fr_oversized = [], fr_budgetExhausted = False\<rparr>"
  "ms_move desk u f g = returnE ()" "ms_ensureFolders desk fs = returnE ()"
  "fm_uid one_raw = 7" "fm_raw one_raw = ''raw''" "fm_internalDate one_raw = Instant 0" "fm_envelopeFrom one_raw = ''A@b''"
  "fm_origin one_raw = None"
  by (simp_all add: letterbox_def desk_def one_raw_def)

lemma nothing_found_in_empty: "repo_search memory_client spec c k [] (empty_store i) = (Inr [], empty_store i)"
  by (simp add: repo_search_def memory_client_def mem_defs io_defs empty_store_def sortRows_def)

lemma letter_ingested:
  assumes "ig_world s = empty_store 0" and "id_externalRef d = ''<m1>#1''"
  shows "\<exists>s1. ingestDocument letterbox d s = (Inr (), s1)"
proof -
  have ref: "storableRef (\<lambda>x. x) ''<m1>#1'' = ''<m1>#1''" "storableRef (md_sha256 letterbox) ''<m1>#1'' = ''<m1>#1''"
    using letterbox_values(6) by (simp_all add: storableRef_def letterbox_def)
  have key: "as_str (pget (document_fields letterbox d ''<m1>#1'' i a) ''idempotencyKey'') = Some ''<m1>#1''" for i a
    by (simp add: document_fields_def as_str_def split: option.split)
  have create: "repo_create memory_client Document_with_attachment (document_fields letterbox d ''<m1>#1'' i a)
      (empty_store 0) \<noteq> (Inl e, w')" for i a e w'
    using mem_create_total [OF _ key letterbox_values(5), of "empty_store 0" i a] by (auto simp: empty_store_def)
  then show ?thesis
    using assms create
    by (cases "id_attachment d") (auto simp: ingestDocument_def Let_def ref letterbox_fields(4,5) bindE_def outside_def
      nothing_found_in_empty returnE_def record_event_def modifyE_def getE_def tally_def split: prod.split sum.split)
qed

lemma letter_handled:
  assumes "ig_world s = empty_store 0"
  shows "\<exists>s1 w. handleMessage letterbox desk one_raw s = (Inr (), s1) \<and> MessageFiled w 7 ''done'' \<in> set (ig_events s1)"
proof -
  let ?d = "\<lparr>id_title = ''Bill'', id_receivedAt = ''1970-01-01T00:00:00.000Z'', id_externalRef = ''<m1>#1'',
       id_extractedText = ''Dear'', id_attachment = Some \<lparr>at_filename = ''b.txt'', at_mimeType = ''text/plain'',
         at_size = 3, at_bytes = ''xyz''\<rparr>\<rparr>"
  obtain s1 where "ingestDocument letterbox ?d (s\<lparr>ig_events := ig_events s @ [MessageParsed one_raw]\<rparr>) = (Inr (), s1)"
    using letter_ingested [of "s\<lparr>ig_events := ig_events s @ [MessageParsed one_raw]\<rparr>" ?d] assms by auto
  then have "sort_message letterbox one_raw s = (Inr ''done'', s1)"
    using letterbox_values(1-3)
    by (simp add: sort_message_def letterbox_fields bindE_def record_event_def modifyE_def returnE_def del: One_nat_def)
  then show ?thesis
    by (auto simp: handleMessage_def classifyMessage_def file_message_def letterbox_fields io_defs outside_def record_event_def)
qed

lemma letter_filed:
  "\<exists>r s' w. runMailIngest letterbox (ingest_start (empty_store 0)) = (r, s') \<and> MessageFiled w 7 ''done'' \<in> set (ig_events s')"
proof -
  let ?s = "(ingest_start (empty_store 0))\<lparr>ig_summary := empty_summary\<lparr>su_fetched := 1\<rparr>\<rparr>"
  obtain s1 w where "handleMessage letterbox desk one_raw ?s = (Inr (), s1)" "MessageFiled w 7 ''done'' \<in> set (ig_events s1)"
    using letter_handled [of ?s] by (auto simp: ingest_start_def)
  then show ?thesis
    using letterbox_values(4)
    by (auto simp: runMailIngest_def isConfigured_def letterbox_fields isSwitchedOn_def nothing_found_in_empty io_defs outside_def
      ingest_start_def in_session_def finallyE_def work_through_def tally_def)
qed

theorem mail_filed_only_when_stored_witness:
  "\<exists>s' w fetched. snd (runMailIngest letterbox (ingest_start (empty_store 0))) = s' \<and> MessageFiled w 7 ''done'' \<in> set (ig_events s') \<and>
     fm_uid fetched = 7 \<and> all_stored letterbox (store_view w) fetched"
proof -
  obtain r s' w where run: "runMailIngest letterbox (ingest_start (empty_store 0)) = (r, s')"
    and filed: "MessageFiled w 7 ''done'' \<in> set (ig_events s')" using letter_filed by blast
  have others: "other_systems store_view store_ok letterbox"
    by (simp add: other_systems_def elsewhere_def letterbox_fields returnE_def)
  have "thing_client (md_things letterbox) store_view store_ok" by (simp add: letterbox_fields mem.thing_client_axioms)
  from mail_filed_only_when_stored [OF this store_ok_empty others _ run] run filed show ?thesis
    by (fastforce simp: set_apart_def letterbox_fields)
qed

section \<open>The reference of a Document\<close>

lemma numbered_parts: "sorted_wrt (<) (map na_part (numbered_from n ps)) \<and> (\<forall>a \<in> set (numbered_from n ps). n \<le> na_part a)"
proof (induction ps arbitrary: n)
  case (Cons p ps)
  from Cons.IH [of "Suc n"] show ?case by (auto simp: Suc_le_eq)
qed simp

lemma part_decoded: "nat_of_digits 0 (string_of_nat n) = Some n"
  by (simp add: string_of_nat_def string_of_int_def nat_of_digits_digits_of)

lemma same_part: "part_ref m (string_of_nat n) = part_ref m (string_of_nat k) \<Longrightarrow> n = k"
  using part_decoded unfolding part_ref_def by (metis option.inject same_append_eq)

lemma whole_message_ref:
  assumes "0 < n" and "p = ''0'' \<or> p = ''0.skipped''"
  shows "part_ref m (string_of_nat n) \<noteq> part_ref m p"
proof
  assume "part_ref m (string_of_nat n) = part_ref m p"
  with part_decoded [of n] have "nat_of_digits 0 p = Some n" by (simp add: part_ref_def)
  moreover have "nat_of_digits 0 ''0'' = Some 0" "nat_of_digits 0 ''0.skipped'' = None" by code_simp+
  ultimately show False using assms by auto
qed

lemmas whole_message_refs = whole_message_ref [OF _ disjI1, OF _ refl] whole_message_ref [OF _ disjI2, OF _ refl]

text \<open>What a message becomes under a cap: the attachments that fit, by their numbers, or the message alone.\<close>

lemma documents_parsed:
  assumes "parseMessage parser raw uid date cap origin = Inr m"
  obtains parsed where "parser raw = Inr parsed"
    and "im_documents m = documents_of (message_id uid origin parsed) (trim (coalesce (pm_subject parsed) []))
      (case received_at parsed date of Inr t \<Rightarrow> t) (bodyText parsed)
      (filter (\<lambda>n. at_size (na_attachment n) \<le> cap) (numbered_from 1 (coalesce (pm_attachments parsed) [])))
      (filter (Not \<circ> (\<lambda>n. at_size (na_attachment n) \<le> cap)) (numbered_from 1 (coalesce (pm_attachments parsed) [])))"
  using assms by (auto simp: parseMessage_def partitionAttachments_def partition_filter_conv Let_def split: sum.splits)

lemma in_documents_of:
  assumes "d \<in> set (documents_of i s t b kept skipped)"
  shows "(\<exists>n \<in> set kept. id_externalRef d = part_ref i (string_of_nat (na_part n)) \<and> id_attachment d = Some (na_attachment n)) \<or>
    kept = [] \<and> id_attachment d = None \<and> (id_externalRef d = part_ref i ''0'' \<or> id_externalRef d = part_ref i ''0.skipped'')"
  using assms by (auto simp: documents_of_def Let_def split: if_splits)

lemma document_of_kept:
  assumes "n \<in> set kept"
  shows "\<exists>d \<in> set (documents_of i s t b kept skipped).
    id_externalRef d = part_ref i (string_of_nat (na_part n)) \<and> id_attachment d = Some (na_attachment n)"
  using assms by (auto simp: documents_of_def Let_def intro!: image_eqI [of _ _ n])

text \<open>
  C36. The reference of a Document names its part of its message, whatever the cap on attachments. The
  Documents of a message have different references; a message read again under another cap gives the same
  reference to nothing else, neither to another attachment nor to the message alone; and under a
  higher cap every attachment that was kept is there again under the reference it had.
\<close>

theorem refs_name_the_part:
  assumes "parseMessage parser raw uid date cap origin = Inr m" and "parseMessage parser raw uid date cap' origin = Inr m'"
  shows "distinct (map id_externalRef (im_documents m)) \<and>
    (\<forall>d \<in> set (im_documents m). \<forall>d' \<in> set (im_documents m').
       id_externalRef d = id_externalRef d' \<longrightarrow> id_attachment d = id_attachment d') \<and>
    (cap \<le> cap' \<longrightarrow> (\<forall>d \<in> set (im_documents m). id_attachment d \<noteq> None \<longrightarrow>
       (\<exists>d' \<in> set (im_documents m'). id_externalRef d' = id_externalRef d \<and> id_attachment d' = id_attachment d)))"
proof -
  obtain parsed where p: "parser raw = Inr parsed" and m: "im_documents m = documents_of (message_id uid origin parsed)
      (trim (coalesce (pm_subject parsed) [])) (case received_at parsed date of Inr t \<Rightarrow> t) (bodyText parsed)
      (filter (\<lambda>n. at_size (na_attachment n) \<le> cap) (numbered_from 1 (coalesce (pm_attachments parsed) [])))
      (filter (Not \<circ> (\<lambda>n. at_size (na_attachment n) \<le> cap)) (numbered_from 1 (coalesce (pm_attachments parsed) [])))"
    using documents_parsed [OF assms(1)] .
  obtain parsed' where p': "parser raw = Inr parsed'" and m': "im_documents m' = documents_of (message_id uid origin parsed')
      (trim (coalesce (pm_subject parsed') [])) (case received_at parsed' date of Inr t \<Rightarrow> t) (bodyText parsed')
      (filter (\<lambda>n. at_size (na_attachment n) \<le> cap') (numbered_from 1 (coalesce (pm_attachments parsed') [])))
      (filter (Not \<circ> (\<lambda>n. at_size (na_attachment n) \<le> cap')) (numbered_from 1 (coalesce (pm_attachments parsed') [])))"
    using documents_parsed [OF assms(2)] .
  have [simp]: "parsed' = parsed" using p p' by simp
  let ?all = "numbered_from 1 (coalesce (pm_attachments parsed) [])" and ?i = "message_id uid origin parsed"
  have sorted: "sorted_wrt (<) (map na_part ?all)" and pos: "\<And>n. n \<in> set (numbered_from (Suc 0) (coalesce (pm_attachments parsed) [])) \<Longrightarrow> 0 < na_part n"
    using numbered_parts [of 1 "coalesce (pm_attachments parsed) []"] by (auto simp: Suc_le_eq)
  then have inj: "inj_on na_part (set ?all)" and dist: "distinct ?all"
    using strict_sorted_iff [of "map na_part ?all"] by (simp_all add: distinct_map)
  have one: "distinct (map id_externalRef (im_documents m))"
    unfolding m documents_of_def Let_def using inj dist
    by (auto simp: distinct_map comp_def inj_on_def dest!: same_part)
  have two: "id_attachment d = id_attachment d'"
    if "d \<in> set (im_documents m)" "d' \<in> set (im_documents m')" "id_externalRef d = id_externalRef d'" for d d'
    using in_documents_of [OF that(1) [unfolded m]] in_documents_of [OF that(2) [unfolded m']] that(3) inj
    by (auto dest!: same_part dest: inj_onD simp: whole_message_refs whole_message_refs [symmetric] pos)
  have three: "\<exists>d' \<in> set (im_documents m'). id_externalRef d' = id_externalRef d \<and> id_attachment d' = id_attachment d"
    if raised: "cap \<le> cap'" and d: "d \<in> set (im_documents m)" and whole: "id_attachment d \<noteq> None" for d
  proof -
    obtain n where "n \<in> set ?all" "at_size (na_attachment n) \<le> cap"
      "id_externalRef d = part_ref ?i (string_of_nat (na_part n))" "id_attachment d = Some (na_attachment n)"
      using in_documents_of [OF d [unfolded m]] whole by auto
    then show ?thesis unfolding m' using raised document_of_kept [of n] by simp
  qed
  from one two three show ?thesis by blast
qed

definition two_parts :: parsed_mail where
  "two_parts = one_letter\<lparr>pm_attachments := Some [
     \<lparr>pa_filename = Some ''big.pdf'', pa_contentType = None, pa_contentDisposition = None, pa_content = Some ''0123456789''\<rparr>,
     \<lparr>pa_filename = Some ''b.txt'', pa_contentType = None, pa_contentDisposition = None, pa_content = Some ''xyz''\<rparr>]\<rparr>"

theorem refs_name_the_part_witness:
  "\<exists>m m'. parseMessage (\<lambda>_. Inr two_parts) ''raw'' 7 (Instant 0) 5 None = Inr m \<and>
     parseMessage (\<lambda>_. Inr two_parts) ''raw'' 7 (Instant 0) 20 None = Inr m' \<and>
     map id_externalRef (im_documents m) = [''<m1>#2''] \<and> map id_externalRef (im_documents m') = [''<m1>#1'', ''<m1>#2''] \<and>
     distinct (map id_externalRef (im_documents m'))"
proof -
  let ?parse = "\<lambda>cap. parseMessage (\<lambda>_. Inr two_parts) ''raw'' 7 (Instant 0) cap None"
    and ?refs = "map_sum id (\<lambda>m. map id_externalRef (im_documents m))"
  have refs: "?refs (?parse 5) = Inr [''<m1>#2'']" "?refs (?parse 20) = Inr [''<m1>#1'', ''<m1>#2'']" by code_simp+
  then obtain m m' where m: "?parse 5 = Inr m" "?parse 20 = Inr m'" by (cases "?parse 5"; cases "?parse 20") auto
  with refs refs_name_the_part [OF m(2,1)] show ?thesis by auto
qed

section \<open>One download\<close>

definition size_sum :: "message_metadata list \<Rightarrow> nat" where
  "size_sum cs = sum_list (map mm_size cs)"

lemma plan_from_spec:
  assumes "budget = size_sum (fp_wanted plan)" and "\<not> fp_budgetExhausted plan"
    and "budget \<le> maxTotal \<or> length (fp_wanted plan) \<le> 1"
  shows "\<exists>taken rest. cs = taken @ rest \<and> (let p = plan_from maxMessage maxTotal cs budget plan in
    fp_wanted p = fp_wanted plan @ filter (\<lambda>c. mm_size c \<le> maxMessage) taken \<and>
    fp_oversized p = fp_oversized plan @ map left_behind (filter (\<lambda>c. maxMessage < mm_size c) taken) \<and>
    fp_budgetExhausted p = (rest \<noteq> []) \<and> (size_sum (fp_wanted p) \<le> maxTotal \<or> length (fp_wanted p) \<le> 1) \<and>
    (rest = [] \<or> fp_wanted p \<noteq> [] \<and> maxTotal < size_sum (fp_wanted p) + mm_size (hd rest)))"
  using assms
proof (induction cs arbitrary: budget plan)
  case Nil
  then show ?case by simp
next
  case (Cons c cs)
  show ?case
  proof (cases "fp_wanted plan \<noteq> [] \<and> maxTotal < budget + mm_size c \<and> mm_size c \<le> maxMessage")
    case True
    with Cons.prems show ?thesis by - (rule exI [of _ "[]"], rule exI [of _ "c # cs"], simp)
  next
    case go: False
    define next_plan where "next_plan = (if maxMessage < mm_size c then plan\<lparr>fp_oversized := fp_oversized plan @ [left_behind c]\<rparr>
      else plan\<lparr>fp_wanted := fp_wanted plan @ [c]\<rparr>)"
    let ?budget = "if maxMessage < mm_size c then budget else budget + mm_size c"
    define p where "p = plan_from maxMessage maxTotal cs ?budget next_plan"
    have on: "plan_from maxMessage maxTotal (c # cs) budget plan = p"
      using go by (auto simp: next_plan_def p_def)
    have one: "fp_wanted next_plan = fp_wanted plan @ (if maxMessage < mm_size c then [] else [c])"
      "fp_oversized next_plan = fp_oversized plan @ (if maxMessage < mm_size c then [left_behind c] else [])"
      by (simp_all add: next_plan_def)
    have start: "?budget = size_sum (fp_wanted next_plan)" "\<not> fp_budgetExhausted next_plan"
      "?budget \<le> maxTotal \<or> length (fp_wanted next_plan) \<le> 1"
      using Cons.prems go by (auto simp: next_plan_def size_sum_def)
    obtain taken rest where "cs = taken @ rest" and
      "fp_wanted p = fp_wanted next_plan @ filter (\<lambda>c. mm_size c \<le> maxMessage) taken \<and>
      fp_oversized p = fp_oversized next_plan @ map left_behind (filter (\<lambda>c. maxMessage < mm_size c) taken) \<and>
      fp_budgetExhausted p = (rest \<noteq> []) \<and> (size_sum (fp_wanted p) \<le> maxTotal \<or> length (fp_wanted p) \<le> 1) \<and>
      (rest = [] \<or> fp_wanted p \<noteq> [] \<and> maxTotal < size_sum (fp_wanted p) + mm_size (hd rest))"
      using Cons.IH [OF start] unfolding p_def Let_def by blast
    then show ?thesis
      unfolding on one Let_def by - (rule exI [of _ "c # taken"], rule exI [of _ rest], cases "maxMessage < mm_size c"; force)
  qed
qed

text \<open>
  One poll downloads a bounded amount and always gets on. It goes through a first part of the candidates
  in their order: those above the limit of one message are named as oversized, all others are wanted. What
  is wanted stays within the limit of the poll, unless it is a single message; the poll stops early exactly
  when it says so, and then because the next message would have passed that limit; and when there is a
  candidate at all, one is wanted or named.
\<close>

theorem fetch_is_bounded:
  "\<exists>taken rest. candidates = taken @ rest \<and> (let plan = planFetch candidates maxMessage maxTotal in
     fp_wanted plan = filter (\<lambda>c. mm_size c \<le> maxMessage) taken \<and>
     fp_oversized plan = map left_behind (filter (\<lambda>c. maxMessage < mm_size c) taken) \<and>
     (size_sum (fp_wanted plan) \<le> maxTotal \<or> length (fp_wanted plan) = 1) \<and> fp_budgetExhausted plan = (rest \<noteq> []) \<and>
     (rest = [] \<or> maxTotal < size_sum (fp_wanted plan) + mm_size (hd rest)) \<and>
     (candidates = [] \<or> 0 < length (fp_wanted plan) + length (fp_oversized plan)))"
proof -
  let ?plan = "\<lparr>fp_wanted = [], fp_oversized = [], fp_budgetExhausted = False\<rparr>"
  obtain taken rest where s: "candidates = taken @ rest" "let p = planFetch candidates maxMessage maxTotal in
    fp_wanted p = filter (\<lambda>c. mm_size c \<le> maxMessage) taken \<and>
    fp_oversized p = map left_behind (filter (\<lambda>c. maxMessage < mm_size c) taken) \<and>
    fp_budgetExhausted p = (rest \<noteq> []) \<and> (size_sum (fp_wanted p) \<le> maxTotal \<or> length (fp_wanted p) \<le> 1) \<and>
    (rest = [] \<or> fp_wanted p \<noteq> [] \<and> maxTotal < size_sum (fp_wanted p) + mm_size (hd rest))"
    using plan_from_spec [of 0 ?plan maxTotal candidates maxMessage] by (auto simp: planFetch_def size_sum_def)
  show ?thesis
  proof (intro exI conjI)
    show "candidates = taken @ rest" by (rule s(1))
    show "let plan = planFetch candidates maxMessage maxTotal in
     fp_wanted plan = filter (\<lambda>c. mm_size c \<le> maxMessage) taken \<and>
     fp_oversized plan = map left_behind (filter (\<lambda>c. maxMessage < mm_size c) taken) \<and>
     (size_sum (fp_wanted plan) \<le> maxTotal \<or> length (fp_wanted plan) = 1) \<and> fp_budgetExhausted plan = (rest \<noteq> []) \<and>
     (rest = [] \<or> maxTotal < size_sum (fp_wanted plan) + mm_size (hd rest)) \<and>
     (candidates = [] \<or> 0 < length (fp_wanted plan) + length (fp_oversized plan))"
      using s by (cases taken) (auto simp: Let_def size_sum_def le_Suc_eq)
  qed
qed

end
