(* ===== verification/Numbers.thy ===== *)
theory Numbers
  imports Registry
begin

text \<open>
  \<open>Number(value)\<close> of the language (\<open>StringToNumber\<close> of ECMA-262), as \<open>operations/implementations.ts\<close> and
  \<open>config.ts\<close> use it, with \<open>Math.floor\<close>, \<open>toFixed\<close> and the comparison of numbers; the reading of a property or
  an array of a parsed answer; and the encodings of URLs. A negative zero reads as zero, and a number is an
  exact decimal.
\<close>

section \<open>Number(text)\<close>

definition digit_in :: "nat \<Rightarrow> char \<Rightarrow> nat option" where
  "digit_in base c = (let n = of_char c :: nat;
       d = if 48 \<le> n \<and> n \<le> 57 then n - 48 else if 97 \<le> n \<and> n \<le> 102 then n - 87 else if 65 \<le> n \<and> n \<le> 70 then n - 55 else base
     in if d < base then Some d else None)"

fun digits_in :: "nat \<Rightarrow> nat \<Rightarrow> string \<Rightarrow> nat option" where
  "digits_in base acc [] = Some acc"
| "digits_in base acc (c # cs) = (case digit_in base c of None \<Rightarrow> None | Some d \<Rightarrow> digits_in base (base * acc + d) cs)"

text \<open>\<open>0x\<close>, \<open>0o\<close> and \<open>0b\<close>, in either case, with at least one digit.\<close>

definition radix_of :: "char \<Rightarrow> nat option" where
  "radix_of c = (if c = CHR ''x'' \<or> c = CHR ''X'' then Some 16 else if c = CHR ''o'' \<or> c = CHR ''O'' then Some 8
     else if c = CHR ''b'' \<or> c = CHR ''B'' then Some 2 else None)"

definition prefixed_number :: "string \<Rightarrow> js_num option" where
  "prefixed_number s = (case s of
     z # p # d # ds \<Rightarrow> if z = CHR ''0'' then Option.bind (radix_of p) (\<lambda>base.
         map_option (\<lambda>n. mk_num (int n) 0) (digits_in base 0 (d # ds))) else None
   | _ \<Rightarrow> None)"

text \<open>Digits with an optional point and exponent; a digit stands before or after the point.\<close>

definition fraction_digits :: "string \<Rightarrow> string \<times> string" where
  "fraction_digits s = (case s of c # cs \<Rightarrow> if c = CHR ''.'' then take_digits cs else ([], s) | [] \<Rightarrow> ([], []))"

definition decimal_number :: "string \<Rightarrow> js_num option" where
  "decimal_number s =
     (let neg = s \<noteq> [] \<and> hd s = CHR ''-''; signed = neg \<or> s \<noteq> [] \<and> hd s = CHR ''+''; u = if signed then tl s else s in
      if u = ''Infinity'' then Some (Infinite neg)
      else (case take_digits u of (ds, r) \<Rightarrow> case fraction_digits r of (fs, r') \<Rightarrow>
        if ds = [] \<and> fs = [] then None
        else (case p_exponent r' of
                Some (x, []) \<Rightarrow> let m = int (nat_of (ds @ fs)) in Some (mk_num (if neg then - m else m) (x - int (length fs)))
              | _ \<Rightarrow> None)))"

definition string_to_number :: "string \<Rightarrow> js_num" where
  "string_to_number s =
     (let t = trim s in
      if t = [] then mk_num 0 0
      else (case prefixed_number t of Some n \<Rightarrow> n | None \<Rightarrow> (case decimal_number t of Some n \<Rightarrow> n | None \<Rightarrow> NaN)))"

definition js_number :: "json \<Rightarrow> js_num" where
  "js_number v = (case v of JUndef \<Rightarrow> NaN | JNull \<Rightarrow> mk_num 0 0 | JBool b \<Rightarrow> mk_num (if b then 1 else 0) 0 | JNum n \<Rightarrow> n
     | JStr s \<Rightarrow> string_to_number s | JArr xs \<Rightarrow> string_to_number (js_string v) | JObj ps \<Rightarrow> NaN)"

section \<open>Whole numbers\<close>

text \<open>\<open>Math.floor\<close> of a finite number.\<close>

fun num_floor :: "js_num \<Rightarrow> int option" where
  "num_floor (Fin m e) = Some (if 0 \<le> e then m * 10 ^ nat e else m div 10 ^ nat (- e))"
| "num_floor _ = None"

lemma num_floor_int [simp]: "num_floor (num_of_int i) = Some i"
proof -
  obtain m e where n: "num_of_int i = Fin m e" by (cases "num_of_int i") (auto simp: num_of_int_def mk_num_def split: prod.splits)
  with int_of_num_of_int [of i] show ?thesis by (auto split: if_splits)
qed

text \<open>\<open>a <= b\<close> and \<open>a < b\<close>; nothing compares with \<open>NaN\<close>.\<close>

fun num_less_eq :: "js_num \<Rightarrow> js_num \<Rightarrow> bool" where
  "num_less_eq (Fin m e) (Fin n f) = (let d = min e f in m * 10 ^ nat (e - d) \<le> n * 10 ^ nat (f - d))"
| "num_less_eq (Infinite b) (Infinite c) = (b \<or> \<not> c)"
| "num_less_eq (Infinite b) (Fin n f) = b"
| "num_less_eq (Fin m e) (Infinite c) = (\<not> c)"
| "num_less_eq _ _ = False"

definition num_min :: "js_num \<Rightarrow> js_num \<Rightarrow> js_num" where
  "num_min a b = (if a = NaN \<or> b = NaN then NaN else if num_less_eq a b then a else b)"

lemma string_to_number_examples:
  "string_to_number '' 12 '' = Fin 12 0" "string_to_number [] = Fin 0 0" "string_to_number ''0x1F'' = Fin 31 0"
  "string_to_number ''1.50e2'' = Fin 15 1" "string_to_number ''.5'' = Fin 5 (- 1)" "string_to_number ''5.'' = Fin 5 0"
  "string_to_number ''12px'' = NaN" "string_to_number ''-Infinity'' = Infinite True"
  by code_simp+

text \<open>\<open>Number(n.toFixed(2))\<close>: to the nearest hundredth, a half away from zero.\<close>

fun fixed2 :: "js_num \<Rightarrow> js_num" where
  "fixed2 (Fin m e) = (if - 2 \<le> e then mk_num m e
     else (let d = 10 ^ nat (- e - 2) in mk_num (sgn m * ((2 * \<bar>m\<bar> + d) div (2 * d))) (- 2)))"
| "fixed2 n = n"

fun num_abs :: "js_num \<Rightarrow> js_num" where
  "num_abs (Fin m e) = Fin \<bar>m\<bar> e"
| "num_abs (Infinite b) = Infinite False"
| "num_abs NaN = NaN"


lemma fixed2_examples:
  "fixed2 (Fin 12345 (- 3)) = Fin 1235 (- 2)" "fixed2 (Fin (- 5) (- 3)) = Fin (- 1) (- 2)" "fixed2 (Fin 7 0) = Fin 7 0"
  "fixed2 (Fin 4 (- 3)) = Fin 0 0"
  by code_simp+

section \<open>Values of an answer\<close>

text \<open>\<open>row[key]\<close> of any value.\<close>

definition row_prop :: "json \<Rightarrow> string \<Rightarrow> json result" where
  "row_prop row key = (if nullish row
     then Inl (JsError ''TypeError'' (''Cannot read properties of '' @ js_string row @ '' (reading '' @ [CHR 0x27] @ key
       @ [CHR 0x27] @ '')''))
     else Inr (pget (obj_props row) key))"

text \<open>\<open>value ?? []\<close> where the code goes on to iterate over an array.\<close>

definition array_items :: "string \<Rightarrow> json \<Rightarrow> json list result" where
  "array_items what v = (if nullish v then Inr [] else case v of JArr xs \<Rightarrow> Inr xs
     | _ \<Rightarrow> Inl (JsError ''TypeError'' (what @ '' is not iterable'')))"

text \<open>\<open>String(value ?? dflt)\<close>\<close>

definition text_of :: "string \<Rightarrow> json \<Rightarrow> string" where
  "text_of dflt v = (if nullish v then dflt else js_string v)"

text \<open>Pure steps that may throw, in order.\<close>

definition bindR :: "'a result \<Rightarrow> ('a \<Rightarrow> 'b result) \<Rightarrow> 'b result" where
  "bindR r k = (case r of Inl e \<Rightarrow> Inl e | Inr x \<Rightarrow> k x)"

lemma bindR_simps [simp]: "bindR (Inr x) k = k x" "bindR (Inl e) k = Inl e"
  by (simp_all add: bindR_def)

fun mapR :: "('a \<Rightarrow> 'b result) \<Rightarrow> 'a list \<Rightarrow> 'b list result" where
  "mapR f [] = Inr []"
| "mapR f (x # xs) = bindR (f x) (\<lambda>y. bindR (mapR f xs) (\<lambda>ys. Inr (y # ys)))"

fun someR :: "('a \<Rightarrow> bool result) \<Rightarrow> 'a list \<Rightarrow> bool result" where
  "someR p [] = Inr False"
| "someR p (x # xs) = bindR (p x) (\<lambda>b. if b then Inr True else someR p xs)"

fun everyR :: "('a \<Rightarrow> bool result) \<Rightarrow> 'a list \<Rightarrow> bool result" where
  "everyR p [] = Inr True"
| "everyR p (x # xs) = bindR (p x) (\<lambda>b. if b then everyR p xs else Inr False)"

definition liftR :: "'a result \<Rightarrow> ('s, 'a) io" where
  "liftR r = (\<lambda>s. (r, s))"

lemma liftR_simps [simp]: "liftR (Inr x) = returnE x" "liftR (Inl e) = throwE e"
  by (simp_all add: liftR_def returnE_def throwE_def)

section \<open>URLs\<close>

definition hex_upper :: "nat \<Rightarrow> char" where
  "hex_upper n = char_of (if n < 10 then n + 48 else n + 55)"

definition percent :: "char \<Rightarrow> string" where
  "percent c = (let n = of_char c :: nat in [CHR ''%'', hex_upper (n div 16), hex_upper (n mod 16)])"

definition is_alnum :: "char \<Rightarrow> bool" where
  "is_alnum c = (let n = of_char c :: nat in (48 \<le> n \<and> n \<le> 57) \<or> (65 \<le> n \<and> n \<le> 90) \<or> (97 \<le> n \<and> n \<le> 122))"

definition encodeURIComponent :: "string \<Rightarrow> string" where
  "encodeURIComponent s = concat (map (\<lambda>c. if is_alnum c \<or> c \<in> set ''-_.!~*()'' \<or> c = CHR 0x27 then [c] else percent c) s)"

text \<open>A value of \<open>URLSearchParams\<close>.\<close>

definition form_encode :: "string \<Rightarrow> string" where
  "form_encode s = concat (map (\<lambda>c. if is_alnum c \<or> c \<in> set ''-_.*'' then [c] else if c = CHR '' '' then ''+'' else percent c) s)"

definition query_string :: "(string \<times> string) list \<Rightarrow> string" where
  "query_string ps = join ''&'' (map (\<lambda>(k, v). form_encode k @ ''='' @ form_encode v) ps)"

definition strip_slashes :: "string \<Rightarrow> string" where
  "strip_slashes s = rev (dropWhile (\<lambda>c. c = CHR ''/'') (rev s))"

lemma url_examples:
  "encodeURIComponent ''a:b c'' = ''a%3Ab%20c''" "query_string [(''q'', ''a b&c'')] = ''q=a+b%26c''"
  "strip_slashes ''http://x//'' = ''http://x''"
  by code_simp+

end
