(* ===== verification/Operations.thy ===== *)
theory Operations
  imports Services Watcher Email MailIngest Numbers
begin

text \<open>
  The built-in Operations (\<open>runtime/src/operations/implementations.ts\<close>): what each does when it is called
  and how an interrupted call of it is reconciled, with the seed of its catalogue entry. The Content
  Store, the vision model and the PDF library are parameters; \<open>raiseQuestion\<close> and \<open>callAssistant\<close> are
  given as \<open>services.ts\<close> wires them. The log is left out.
\<close>

section \<open>What the Operations are built from\<close>

record vision_result =
  vr_text :: string
  vr_usage :: "llm_usage option"

record 'w vision_reader =
  v_available :: bool
  v_name :: string
  v_read :: "string \<Rightarrow> nat \<Rightarrow> ('w, vision_result) io"

record raise_input =
  ri_context :: op_context
  ri_kind :: string
  ri_prompt :: string
  ri_options :: json
  ri_subjectThingId :: "string option"

record 'w operation_deps =
  od_things :: "'w a12_client"
  od_content :: "(string \<Rightarrow> ('w, string) io) option"
  od_vision :: "'w vision_reader option"
  od_limits :: "(int \<times> int) option"
  od_pdf :: "string \<Rightarrow> pdf_document result"
  od_raiseQuestion :: "raise_input \<Rightarrow> ('w, string) io"
  od_callAssistant :: "call_assistant_input \<Rightarrow> ('w, string) io"

text \<open>The two as \<open>services.ts\<close> wires them.\<close>

definition raise_for_operation :: "'w a12_client \<Rightarrow> raise_input \<Rightarrow> ('w, string) io" where
  "raise_for_operation things input = createQuestion things
     \<lparr>cq_conversation = ctx_conversation (ri_context input),
      cq_assistantKey = coalesce (a_key (data (ctx_assistant (ri_context input)))) [], cq_kind = ri_kind input,
      cq_prompt = ri_prompt input, cq_options = ri_options input, cq_subjectThingId = ri_subjectThingId input,
      cq_idempotencyKey = ctx_idempotencyKey (ri_context input)\<rparr>"

definition PAGE_SIZE_MAX :: int where
  "PAGE_SIZE_MAX = 100"

definition em_dash :: string where
  "em_dash = [CHR 0xE2, CHR 0x80, CHR 0x94]"

definition str :: "string \<Rightarrow> json" where
  "str description = JObj [(''type'', JStr ''string''), (''description'', JStr description)]"

definition num :: "string \<Rightarrow> json" where
  "num description = JObj [(''type'', JStr ''number''), (''description'', JStr description)]"

definition object_schema :: "props \<Rightarrow> string list \<Rightarrow> props" where
  "object_schema properties required' =
     [(''type'', JStr ''object''), (''properties'', JObj properties), (''required'', JArr (map JStr required'))]"

definition open_object :: "string \<Rightarrow> json" where
  "open_object description = JObj [(''type'', JStr ''object''), (''description'', JStr description),
     (''additionalProperties'', JBool True)]"

definition enumeration :: "string list \<Rightarrow> string \<Rightarrow> json" where
  "enumeration values description = JObj [(''type'', JStr ''string''), (''enum'', JArr (map JStr values)),
     (''description'', JStr description)]"

definition seed_of :: "string \<Rightarrow> string \<Rightarrow> string \<Rightarrow> string \<Rightarrow> props \<Rightarrow> operation_seed" where
  "seed_of name system kind description parameters = \<lparr>sd_name = name, sd_system = system, sd_kind = kind,
     sd_description = description, sd_parameters = parameters, sd_requiresApproval = None\<rparr>"

text \<open>\<open>args[name]\<close>, \<open>String(args[name] ?? dflt)\<close> and \<open>args[name] ? String(args[name]) : undefined\<close>.\<close>

definition arg :: "json \<Rightarrow> string \<Rightarrow> json" where
  "arg args name = pget (obj_props args) name"

definition text_or :: "string \<Rightarrow> json \<Rightarrow> string \<Rightarrow> string" where
  "text_or dflt args name = js_string (if nullish (arg args name) then JStr dflt else arg args name)"

abbreviation text_arg :: "json \<Rightarrow> string \<Rightarrow> string" where
  "text_arg \<equiv> text_or []"

definition given_text :: "json \<Rightarrow> string \<Rightarrow> string option" where
  "given_text args name = (if json_truthy (arg args name) then Some (js_string (arg args name)) else None)"

definition replace_asked :: "json \<Rightarrow> bool" where
  "replace_asked args \<longleftrightarrow> arg args ''replace'' = JBool True \<or> arg args ''replace'' = JStr ''true''"

definition refuse :: "string \<Rightarrow> ('w, outcome) io" where
  "refuse message = returnE (OError message)"

definition value_of :: "props \<Rightarrow> ('w, outcome) io" where
  "value_of ps = returnE (OValue (JObj ps))"

text \<open>The same for a reconciliation, which may also know nothing.\<close>

definition known :: "outcome \<Rightarrow> ('w, outcome option) io" where
  "known oc = returnE (Some oc)"

section \<open>Models an Assistant may use\<close>

definition ALL_MODELS :: "thing_model list" where
  "ALL_MODELS = [Party_DM, Document_DM, Invoice_DM, Process_DM, Assistant_DM, Operation_DM, Conversation_DM,
     OpenQuestion_DM, RuntimeState_DM]"

definition READABLE_MODELS :: "string list" where
  "READABLE_MODELS = filter (\<lambda>m. m \<noteq> ''Operation_DM'') (map model_name ALL_MODELS)"

definition WRITABLE_MODELS :: "string list" where
  "WRITABLE_MODELS = [''Party_DM'', ''Document_DM'', ''Invoice_DM'', ''Process_DM'']"

definition comma_list :: "string list \<Rightarrow> string" where
  "comma_list names = join '', '' names"

definition specFor :: "string \<Rightarrow> model_spec result" where
  "specFor m = (case find (\<lambda>t. model_name t = m) ALL_MODELS of
     Some t \<Rightarrow> Inr (SPECS t)
   | None \<Rightarrow> Inl (JsError ''Error'' (''Unknown model '' @ quoted m @ ''. Known models: '' @ comma_list (map model_name ALL_MODELS))))"

definition with_spec :: "string \<Rightarrow> (model_spec \<Rightarrow> ('w, 'a) io) \<Rightarrow> ('w, 'a) io" where
  "with_spec m k = (case specFor m of Inl e \<Rightarrow> throwE e | Inr spec \<Rightarrow> k spec)"

section \<open>Rows of a repeating group\<close>

definition GROUP_ROW_KEYS :: "(string \<times> string) list" where
  "GROUP_ROW_KEYS = [(''steps'', ''seq''), (''related'', ''thingId'')]"

text \<open>\<open>findIndex\<close> with the comparison of the two identities as texts.\<close>

fun find_row :: "string \<Rightarrow> json \<Rightarrow> json list \<Rightarrow> nat option result" where
  "find_row key identity [] = Inr None"
| "find_row key identity (row # rest) =
     (case row_prop row key of
        Inl e \<Rightarrow> Inl e
      | Inr v \<Rightarrow> if js_string v = js_string identity then Inr (Some 0)
          else (case find_row key identity rest of Inl e \<Rightarrow> Inl e | Inr at \<Rightarrow> Inr (map_option Suc at)))"

definition merge_row :: "string \<Rightarrow> json \<Rightarrow> json list \<Rightarrow> json list result" where
  "merge_row key row out =
     (case row_prop row key of
        Inl e \<Rightarrow> Inl e
      | Inr JUndef \<Rightarrow> Inr (out @ [row])
      | Inr identity \<Rightarrow>
          (case find_row key identity out of
             Inl e \<Rightarrow> Inl e
           | Inr None \<Rightarrow> Inr (out @ [row])
           | Inr (Some i) \<Rightarrow> Inr (out[i := JObj (spread (spreadable (out ! i)) (spreadable row))])))"

fun merge_rows_from :: "string \<Rightarrow> json list \<Rightarrow> json list \<Rightarrow> json list result" where
  "merge_rows_from key out [] = Inr out"
| "merge_rows_from key out (row # rest) =
     (case merge_row key row out of Inl e \<Rightarrow> Inl e | Inr out' \<Rightarrow> merge_rows_from key out' rest)"

definition array_or_none :: "json \<Rightarrow> json list" where
  "array_or_none v = (case v of JArr xs \<Rightarrow> xs | _ \<Rightarrow> [])"

definition mergeRows :: "string \<Rightarrow> json \<Rightarrow> json \<Rightarrow> json list result" where
  "mergeRows property existing supplied =
     (let before = array_or_none existing; incoming = array_or_none supplied in
      if incoming = [] then Inr before
      else (case map_of GROUP_ROW_KEYS property of None \<Rightarrow> Inr (before @ incoming) | Some key \<Rightarrow> merge_rows_from key before incoming))"

section \<open>thingstore.create\<close>

definition created_value :: "string \<Rightarrow> string \<Rightarrow> outcome" where
  "created_value m i = OValue (JObj [(''thingId'', JStr i), (''model'', JStr m)])"

definition given_fields :: "json \<Rightarrow> json" where
  "given_fields args = (if nullish (arg args ''fields'') then JObj [] else arg args ''fields'')"

definition create_fields :: "json \<Rightarrow> op_context \<Rightarrow> props" where
  "create_fields args context = spread (spreadable (given_fields args))
     [(''idempotencyKey'', JStr (ctx_idempotencyKey context)),
      (''createdByConversationId'', JStr (thingId (ctx_conversation context)))]"

definition create_execute :: "'w operation_deps \<Rightarrow> json \<Rightarrow> op_context \<Rightarrow> ('w, outcome) io" where
  "create_execute deps args context =
     (let m = text_arg args ''model'' in
      if m \<notin> set WRITABLE_MODELS then refuse (''Assistants may not create '' @ m @ ''. Allowed: '' @ comma_list WRITABLE_MODELS @ ''.'')
      else with_spec m (\<lambda>spec. bindE (repo_create (od_things deps) spec (create_fields args context))
             (\<lambda>created. returnE (created_value m (thingId created)))))"

definition create_reconcile :: "'w operation_deps \<Rightarrow> json \<Rightarrow> op_context \<Rightarrow> ('w, outcome option) io" where
  "create_reconcile deps args context =
     (let m = text_arg args ''model'' in
      if m \<notin> set WRITABLE_MODELS then known (OValue JNull)
      else with_spec m (\<lambda>spec. bindE (findByIdempotencyKey (od_things deps) spec (ctx_idempotencyKey context)) (\<lambda>existing.
             known (case existing of
                Some t \<Rightarrow> created_value m (thingId t)
              | None \<Rightarrow> OError ''This call was interrupted and nothing was created; try again.''))))"

definition thingstoreCreate :: "'w operation_deps \<Rightarrow> 'w operation_implementation" where
  "thingstoreCreate deps = \<lparr>i_name = ''thingstore.create'', i_mutating = True, i_clientReadable = False,
     i_execute = create_execute deps, i_reconcile = Some (create_reconcile deps), i_describeCall = None,
     i_seed = seed_of ''Create a Thing'' ''ThingStore'' ''internal''
       (''Create a new Thing in the ThingStore. Returns its ThingID. Safe to retry: a repeated call within ''
       @ ''the same turn returns the Thing already created rather than a duplicate.'')
       (object_schema [(''model'', str (''Which Model to create. One of: '' @ comma_list WRITABLE_MODELS @ ''.'')),
         (''fields'', open_object (''The Thing'' @ [CHR 0x27] @ ''s fields, as camelCase property names.''))] [''model'', ''fields''])\<rparr>"

section \<open>thingstore.get\<close>

definition not_readable :: "string \<Rightarrow> string" where
  "not_readable m = ''Assistants may not read '' @ m @ ''. Readable: '' @ comma_list READABLE_MODELS @ ''.''"

definition found_json :: "string \<Rightarrow> props stored \<Rightarrow> json" where
  "found_json m t = JObj [(''thingId'', JStr (thingId t)), (''model'', JStr m), (''fields'', JObj (data t))]"

definition get_execute :: "'w operation_deps \<Rightarrow> json \<Rightarrow> op_context \<Rightarrow> ('w, outcome) io" where
  "get_execute deps args context =
     (let m = text_arg args ''model'' in
      if m \<notin> set READABLE_MODELS then refuse (not_readable m)
      else with_spec m (\<lambda>spec. bindE (repo_get (od_things deps) spec (docRefOf m (text_arg args ''thingId'')))
             (\<lambda>found. returnE (OValue (found_json m found)))))"

definition thingstoreGet :: "'w operation_deps \<Rightarrow> 'w operation_implementation" where
  "thingstoreGet deps = \<lparr>i_name = ''thingstore.get'', i_mutating = False, i_clientReadable = False,
     i_execute = get_execute deps, i_reconcile = None, i_describeCall = None,
     i_seed = seed_of ''Read a Thing'' ''ThingStore'' ''internal'' (''Read one Thing by its Model and ThingID.'')
       (object_schema [(''model'', str (''The Model, e.g. Invoice_DM.'')), (''thingId'', str (''The ThingID.''))] [''model'', ''thingId''])\<rparr>"

section \<open>thingstore.update\<close>

definition MACHINE_FIELD_KEYS :: "string list" where
  "MACHINE_FIELD_KEYS = [''idempotencyKey'', ''createdByConversationId'', ''createdAt'', ''updatedAt'']"

text \<open>\<open>name in value\<close>, for a name no prototype has.\<close>

definition in_value :: "string \<Rightarrow> json \<Rightarrow> bool result" where
  "in_value name v = (case v of JObj ps \<Rightarrow> Inr (has_key ps name) | JArr xs \<Rightarrow> Inr False
     | _ \<Rightarrow> Inl (JsError ''TypeError'' (''Cannot use '' @ [CHR 0x27] @ ''in'' @ [CHR 0x27] @ '' operator to search for ''
         @ [CHR 0x27] @ name @ [CHR 0x27] @ '' in '' @ js_string v)))"

fun merge_groups :: "json \<Rightarrow> props \<Rightarrow> string list \<Rightarrow> props \<Rightarrow> props result" where
  "merge_groups given current [] merged = Inr merged"
| "merge_groups given current (g # gs) merged =
     (case in_value g given of
        Inl e \<Rightarrow> Inl e
      | Inr present' \<Rightarrow>
          if \<not> present' then merge_groups given current gs merged
          else (case mergeRows g (pget current g) (pget (obj_props given) g) of
                  Inl e \<Rightarrow> Inl e
                | Inr merged_rows \<Rightarrow> merge_groups given current gs (set_prop g (JArr merged_rows) merged)))"

definition update_fields :: "model_spec \<Rightarrow> json \<Rightarrow> props \<Rightarrow> props result" where
  "update_fields spec given current =
     merge_groups given current (map fst (ms_groups spec))
       (filter (\<lambda>(k, v). k \<notin> set MACHINE_FIELD_KEYS) (spreadable given))"

definition update_execute :: "'w operation_deps \<Rightarrow> json \<Rightarrow> op_context \<Rightarrow> ('w, outcome) io" where
  "update_execute deps args context =
     (let m = text_arg args ''model'' in
      if m \<notin> set WRITABLE_MODELS then refuse (''Assistants may not update '' @ m @ ''. Allowed: '' @ comma_list WRITABLE_MODELS @ ''.'')
      else with_spec m (\<lambda>spec. let ref = docRefOf m (text_arg args ''thingId'') in
        bindE (repo_get (od_things deps) spec ref) (\<lambda>current.
          case update_fields spec (given_fields args) (data current) of
            Inl e \<Rightarrow> throwE e
          | Inr merged \<Rightarrow>
              bindE (repo_update (od_things deps) spec ref merged) (\<lambda>_.
                value_of [(''thingId'', JStr (thingId current)), (''model'', JStr m), (''updated'', JBool True)]))))"

definition update_reconcile :: "json \<Rightarrow> op_context \<Rightarrow> ('w, outcome option) io" where
  "update_reconcile args context = known (OError (''This update was interrupted and may or may not have applied. Read the Thing back before assuming ''
       @ ''either way.''))"

definition thingstoreUpdate :: "'w operation_deps \<Rightarrow> 'w operation_implementation" where
  "thingstoreUpdate deps = \<lparr>i_name = ''thingstore.update'', i_mutating = True, i_clientReadable = False,
     i_execute = update_execute deps, i_reconcile = Some update_reconcile, i_describeCall = None,
     i_seed = seed_of ''Update a Thing'' ''ThingStore'' ''internal''
       (''Update fields on an existing Thing. Supply only the fields you are changing; the others are ''
       @ ''preserved. Rows of a repeating list (a Process'' @ [CHR 0x27]
       @ ''s steps, its related Things) are merged, not replaced: supply just the row you are adding or ''
       @ ''correcting. Nothing is ever removed from a list.'')
       (object_schema [(''model'', str ''The Model.''), (''thingId'', str ''The ThingID.''),
         (''fields'', open_object ''Fields to change.'')] [''model'', ''thingId'', ''fields''])\<rparr>"

section \<open>thingstore.search\<close>

text \<open>
  \<open>spec.fields[name]\<close> of an object literal: its own properties, and what every object inherits, as the
  text a path is made of.
\<close>

definition inherited_text :: "string \<Rightarrow> string option" where
  "inherited_text name =
     (if name = ''__proto__'' then Some ''[object Object]''
      else if name = ''constructor'' then Some ''function Object() { [native code] }''
      else if name \<in> set [''hasOwnProperty'', ''isPrototypeOf'', ''propertyIsEnumerable'', ''toLocaleString'', ''toString'', ''valueOf'',
                ''__defineGetter__'', ''__defineSetter__'', ''__lookupGetter__'', ''__lookupSetter__'']
      then Some (''function '' @ name @ ''() { [native code] }'')
      else None)"

definition spec_field :: "model_spec \<Rightarrow> string \<Rightarrow> string option" where
  "spec_field spec name = (case map_of (ms_fields spec) name of Some f \<Rightarrow> Some f | None \<Rightarrow> inherited_text name)"

text \<open>The requested number of results, at least one; 25 unless it is a finite number.\<close>

definition search_limit :: "json \<Rightarrow> int" where
  "search_limit args = (case num_floor (js_number (if nullish (arg args ''limit'') then JNum (num_of_int 25) else arg args ''limit'')) of
     Some n \<Rightarrow> max 1 n | None \<Rightarrow> 25)"

definition search_refusal :: "model_spec \<Rightarrow> string \<Rightarrow> int \<Rightarrow> string option \<Rightarrow> string \<Rightarrow> string option" where
  "search_refusal spec m limit field v =
     (if PAGE_SIZE_MAX < limit
      then Some (string_of_num (num_of_int limit) @ '' is more than one page. The most this returns is '' @ string_of_int PAGE_SIZE_MAX
        @ '' '' @ em_dash @ '' ask for '' @ string_of_int PAGE_SIZE_MAX @ '' or fewer, or narrow it with a field filter.'')
      else (case field of
        None \<Rightarrow> None
      | Some f \<Rightarrow>
          if spec_field spec f = None
          then Some (quoted f @ '' is not a field of '' @ m @ ''. Fields: '' @ comma_list (map fst (ms_fields spec)) @ ''.'')
          else if v = []
          then Some (''Searching '' @ m @ '' by '' @ quoted f @ '' needs a value to match. Leave '' @ quoted ''field''
            @ '' out entirely to list Things instead.'')
          else if EXACT_MATCH_MAX_LENGTH < length v
          then Some (''That value is '' @ string_of_nat (length v) @ '' characters; '' @ m @ '' can only be searched by a value of up to ''
            @ string_of_nat EXACT_MATCH_MAX_LENGTH @ ''.'')
          else None))"

definition search_constraint :: "model_spec \<Rightarrow> string option \<Rightarrow> string \<Rightarrow> constraint option" where
  "search_constraint spec field v =
     map_option (\<lambda>f. eq (''/'' @ ms_root spec @ ''/'' @ coalesce (spec_field spec f) []) (JStr v)) field"

definition search_execute :: "'w operation_deps \<Rightarrow> json \<Rightarrow> op_context \<Rightarrow> ('w, outcome) io" where
  "search_execute deps args context =
     (let m = text_arg args ''model''; field = given_text args ''field''; v = text_arg args ''value''; limit = search_limit args in
      if m \<notin> set READABLE_MODELS then refuse (not_readable m)
      else with_spec m (\<lambda>spec. case search_refusal spec m limit field v of
          Some message \<Rightarrow> refuse message
        | None \<Rightarrow> bindE (repo_search (od_things deps) spec (search_constraint spec field v) (nat limit) (byCreatedAt spec DESC))
            (\<lambda>found. returnE (OValue (JArr (map (found_json m) found))))))"

definition thingstoreSearch :: "'w operation_deps \<Rightarrow> 'w operation_implementation" where
  "thingstoreSearch deps = \<lparr>i_name = ''thingstore.search'', i_mutating = False, i_clientReadable = False,
     i_execute = search_execute deps, i_reconcile = None, i_describeCall = None,
     i_seed = seed_of ''Find Things'' ''ThingStore'' ''internal''
       (''Find Things of one Model. Without a field filter it returns the most recent ones. Filtering matches ''
       @ ''a field exactly.'')
       (object_schema [(''model'', str ''The Model to search.''),
         (''field'', str (''Optional: the camelCase property to filter on.'')),
         (''value'', str (''Optional: the exact value that field must have.'')),
         (''limit'', num ''Maximum results (default 25).'')] [''model''])\<rparr>"

section \<open>ui.askUser\<close>

definition asked_of_user :: "waiting_for \<Rightarrow> string \<Rightarrow> outcome" where
  "asked_of_user who question = OPending who None (Some question) None"

definition ask_execute :: "'w operation_deps \<Rightarrow> json \<Rightarrow> op_context \<Rightarrow> ('w, outcome) io" where
  "ask_execute deps args context =
     (let kind = text_or ''free-text'' args ''kind''; prompt = trim (text_arg args ''prompt'') in
      if kind \<notin> set [''free-text'', ''confirm'', ''choice'']
      then refuse (''Unknown question kind '' @ quoted kind @ ''. Use free-text, confirm or choice.'')
      else if prompt = [] then refuse ''A question needs a prompt.''
      else bindE (od_raiseQuestion deps \<lparr>ri_context = context, ri_kind = kind, ri_prompt = prompt,
               ri_options = arg args ''options'', ri_subjectThingId = given_text args ''subjectThingId''\<rparr>)
             (\<lambda>questionId. returnE (asked_of_user WF_User questionId)))"

text \<open>The reconciliation of an Operation that asks: the question under the key of the call, if there is one.\<close>

definition question_reconcile :: "'w operation_deps \<Rightarrow> waiting_for \<Rightarrow> string \<Rightarrow> json \<Rightarrow> op_context \<Rightarrow> ('w, outcome option) io" where
  "question_reconcile deps who mark args context =
     bindE (findByIdempotencyKey (od_things deps) OpenQuestion_spec (ctx_idempotencyKey context)) (\<lambda>existing.
       case existing of
         None \<Rightarrow> returnE None
       | Some t \<Rightarrow> known (if isAnswered (question_of (data t)) then OValue (JObj [(mark, JBool True)])
                        else asked_of_user who (thingId t)))"

definition askUser :: "'w operation_deps \<Rightarrow> 'w operation_implementation" where
  "askUser deps = \<lparr>i_name = ''ui.askUser'', i_mutating = True, i_clientReadable = False,
     i_execute = ask_execute deps, i_reconcile = Some (question_reconcile deps WF_User ''answered''), i_describeCall = None,
     i_seed = seed_of ''Ask the User'' ''UserInterface'' ''internal''
       (''Ask the User a question and stop until they answer. Use this for any decision that is the User'' @ [CHR 0x27]
       @ ''s to make '' @ em_dash
       @ '' approving a booking, resolving an ambiguity, confirming a total. The conversation suspends; you ''
       @ ''will be resumed with the answer.'')
       (object_schema [(''kind'', enumeration [''free-text'', ''confirm'', ''choice'']
           (''free-text for open answers, confirm for yes/no, choice for a list.'')),
         (''prompt'', str (''The question, in markdown. Give the User the context they need.'')),
         (''options'', JObj [(''type'', JStr ''array''), (''description'', JStr (''For kind=choice: the options to offer.'')),
           (''items'', JObj (object_schema [(''value'', JObj [(''type'', JStr ''string'')]), (''label'', JObj [(''type'', JStr ''string'')])]
             [''value'', ''label'']))]),
         (''subjectThingId'', str (''Optional: the Thing this question is about.''))] [''kind'', ''prompt''])\<rparr>"

section \<open>assistant.call\<close>

definition chaseWakeAt :: "string \<Rightarrow> int \<Rightarrow> string option" where
  "chaseWakeAt awaitMode instant = (if awaitMode = ''chase'' then Some (nowIso (instant + 5 * 60000)) else None)"

definition awaiting :: "string \<Rightarrow> string option \<Rightarrow> outcome" where
  "awaiting childId until = OPending WF_Assistant until None (Some (''awaiting conversation '' @ childId))"

definition startedCall :: "string \<Rightarrow> props \<Rightarrow> outcome" where
  "startedCall childId extra = OValue (JObj ([(''startedConversationId'', JStr childId), (''awaiting'', JBool False)] @ extra))"

text \<open>How the caller goes on with a child.\<close>

definition awaited :: "'w operation_deps \<Rightarrow> json \<Rightarrow> string \<Rightarrow> ('w, outcome) io" where
  "awaited deps args childId =
     (let awaitMode = text_or ''wait'' args ''awaitMode'' in
      if awaitMode = ''detach'' then returnE (startedCall childId [])
      else bindE (getE (cl_now (od_things deps))) (\<lambda>instant. returnE (awaiting childId (chaseWakeAt awaitMode instant))))"

definition call_execute :: "'w operation_deps \<Rightarrow> json \<Rightarrow> op_context \<Rightarrow> ('w, outcome) io" where
  "call_execute deps args context =
     (let key = text_arg args ''assistantKey'' in
      if key = [] then refuse ''assistant.call must name the Assistant to call.''
      else if Some key = a_key (data (ctx_assistant context)) then refuse ''An Assistant may not call itself.''
      else bindE (repo_search (od_things deps) Assistant_spec (Some (eq (fieldPath Assistant_spec ''key'') (JStr key))) 2 []) (\<lambda>found.
        case found of
          [] \<Rightarrow> refuse (''There is no Assistant with key '' @ quoted key @ ''.'')
        | callee # _ \<Rightarrow>
            if a_enabled (assistant_of (data callee)) = Some False
            then refuse (''The '' @ quoted key @ '' assistant is disabled, so it cannot be called and nothing would ever ''
              @ ''pick the work up. Do it yourself, or ask the User.'')
            else bindE (od_callAssistant deps \<lparr>ca_context = context, ca_assistantKey = key, ca_prompt = text_arg args ''prompt'',
                     ca_subjectThingId = given_text args ''subjectThingId'', ca_subjectModel = given_text args ''subjectModel''\<rparr>)
                   (awaited deps args)))"

definition call_reconcile :: "'w operation_deps \<Rightarrow> json \<Rightarrow> op_context \<Rightarrow> ('w, outcome option) io" where
  "call_reconcile deps args context =
     bindE (findByIdempotencyKey (od_things deps) Conversation_spec (ctx_idempotencyKey context)) (\<lambda>child.
       case child of
         None \<Rightarrow> known (OError (''This call was interrupted before the other Assistant was started, so it did not take effect. Ask ''
       @ ''again if you still need them.''))
       | Some t \<Rightarrow>
           if text_or ''wait'' args ''awaitMode'' \<noteq> ''detach'' \<and> truthy (resultDeliveredAt (conversation_of (data t)))
           then known (startedCall (thingId t) [(''delivered'', JBool True)])
           else bindE (awaited deps args (thingId t)) known)"

definition assistantCall :: "'w operation_deps \<Rightarrow> 'w operation_implementation" where
  "assistantCall deps = \<lparr>i_name = ''assistant.call'', i_mutating = True, i_clientReadable = False,
     i_execute = call_execute deps, i_reconcile = Some (call_reconcile deps), i_describeCall = None,
     i_seed = seed_of ''Call another Assistant'' ''Runtime'' ''internal''
       (''Ask another Assistant to do something. The call is asynchronous: a new conversation is started for ''
       @ ''them, and you are resumed when they finish.'')
       (object_schema [(''prompt'', str (''What you are asking them to do, in markdown.'')),
         (''subjectThingId'', str (''Optional: the Thing the work is about.'')),
         (''subjectModel'', str (''Optional: that Thing'' @ [CHR 0x27] @ ''s Model.'')),
         (''awaitMode'', enumeration [''wait'', ''chase'', ''detach'']
           (''wait: resume when they finish. chase: also wake after 5 minutes to check. detach: do not wait for ''
       @ ''them at all.''))] [''prompt''])\<rparr>"

section \<open>Manual Connectors\<close>

definition manual_execute :: "'w operation_deps \<Rightarrow> (json \<Rightarrow> string) \<Rightarrow> json \<Rightarrow> op_context \<Rightarrow> ('w, outcome) io" where
  "manual_execute deps renderPrompt args context =
     bindE (od_raiseQuestion deps \<lparr>ri_context = context, ri_kind = ''perform'', ri_prompt = renderPrompt args, ri_options = JUndef,
         ri_subjectThingId = subjectThingId (data (ctx_conversation context))\<rparr>)
       (\<lambda>questionId. returnE (asked_of_user WF_Tool questionId))"

definition manualConnector :: "'w operation_deps \<Rightarrow> string \<Rightarrow> string \<Rightarrow> string \<Rightarrow> string \<Rightarrow> props \<Rightarrow> string list
    \<Rightarrow> (json \<Rightarrow> string) \<Rightarrow> 'w operation_implementation" where
  "manualConnector deps name label system description properties required' renderPrompt =
     \<lparr>i_name = name, i_mutating = True, i_clientReadable = False,
      i_execute = manual_execute deps renderPrompt, i_reconcile = Some (question_reconcile deps WF_Tool ''done''),
      i_describeCall = None,
      i_seed = seed_of label system ''manual-connector''
        (description @ '' This is performed by the User by hand, so it may take a while.'') (object_schema properties required')\<rparr>"

definition ticked :: "string \<Rightarrow> string" where
  "ticked s = [CHR 0x60] @ s @ [CHR 0x60]"

definition requestText :: "'w operation_deps \<Rightarrow> 'w operation_implementation" where
  "requestText deps = manualConnector deps ''document.requestText'' ''Request a transcription'' ''UserInterface''
     (''Ask for the text of a document that has not been transcribed yet.'')
     [(''thingId'', str (''The Document'' @ [CHR 0x27] @ ''s ThingID.'')), (''why'', str ''Why you need it.'')] [''thingId'']
     (\<lambda>args. join nl [''**Please transcribe a document.**'', [], ''Document: '' @ ticked (text_arg args ''thingId''),
        (if json_truthy (arg args ''why'') then nl @ ''Why: '' @ js_string (arg args ''why'') else []), [],
        ''Open the document, copy its text, and paste it below.''])"

definition emailSend :: "'w operation_deps \<Rightarrow> 'w operation_implementation" where
  "emailSend deps = manualConnector deps ''email.send'' ''Send an email'' ''Email'' ''Send an email.''
     [(''to'', str ''Recipient.''), (''subject'', str ''Subject line.''), (''body'', str ''The message, in markdown.'')]
     [''to'', ''subject'', ''body'']
     (\<lambda>args. join nl [''**Please send this email.**'', [], ''To: '' @ text_arg args ''to'', ''Subject: '' @ text_arg args ''subject'', [],
        ''---'', [], text_arg args ''body'', [], ''---'', [],
        ''When you have sent it, confirm below (and paste any reply you get).''])"

definition emailFetch :: "'w operation_deps \<Rightarrow> 'w operation_implementation" where
  "emailFetch deps = manualConnector deps ''email.fetch'' ''Check the post'' ''Email'' ''Ask for new mail matching a description.''
     [(''matching'', str ''What to look for.'')] [''matching'']
     (\<lambda>args. join nl [''**Please check the post.**'', [], ''Looking for: '' @ text_or ''anything new'' args ''matching'', [],
        ''Paste what you find below, or say '' @ quoted ''nothing'' @ ''.''])"

definition bankSendMoney :: "'w operation_deps \<Rightarrow> 'w operation_implementation" where
  "bankSendMoney deps = manualConnector deps ''bank.sendMoney'' ''Send money'' ''Bank'' ''Transfer money.''
     [(''iban'', str ''Recipient IBAN.''), (''amount'', str ''Amount, e.g. 184.30.''),
      (''currency'', str ''Currency, default EUR.''), (''reference'', str ''Payment reference.'')]
     [''iban'', ''amount'', ''reference'']
     (\<lambda>args. join nl [''**Please make this payment.**'', [], ''| | |'', ''|---|---|'',
        ''| IBAN | '' @ ticked (text_arg args ''iban'') @ '' |'',
        ''| Amount | '' @ text_arg args ''amount'' @ '' '' @ text_or ''EUR'' args ''currency'' @ '' |'',
        ''| Reference | '' @ text_arg args ''reference'' @ '' |'', [],
        ''Confirm below once it has gone out, and paste the transaction reference if you have one.''])"

section \<open>Reading a Document\<close>

definition attachmentOf :: "props \<Rightarrow> string option" where
  "attachmentOf d =
     (let stored_group = pget d ''attachment''; row = (case stored_group of JArr (r # _) \<Rightarrow> r | JArr [] \<Rightarrow> JUndef | v \<Rightarrow> v);
          i = pget (obj_props row) ''attachment_id''
      in if json_truthy i then Some (js_string i) else None)"

text \<open>Which Document to read, or why there is nothing to do: the first part of both readers.\<close>

definition documentToRead :: "'w operation_deps \<Rightarrow> json \<Rightarrow> ('w, outcome + (string \<times> props)) io" where
  "documentToRead deps args =
     (let i = trim (text_arg args ''thingId'') in
      if i = [] then returnE (Inl (OError (''This needs the Document'' @ [CHR 0x27] @ ''s thingId.'')))
      else let ref = docRefOf ''Document_DM'' i in
        bindE (repo_get (od_things deps) Document_with_attachment ref) (\<lambda>document.
          returnE (if trim (text_arg (JObj (data document)) ''extractedText'') \<noteq> [] \<and> \<not> replace_asked args
                   then Inl (OValue (JObj [(''skipped'', JStr ''already-has-text'')]))
                   else Inr (ref, data document))))"

definition attachmentBytes :: "'w operation_deps \<Rightarrow> props \<Rightarrow> ('w, outcome + string) io" where
  "attachmentBytes deps d =
     (case attachmentOf d of
        None \<Rightarrow> returnE (Inl (OValue (JObj [(''reason'', JStr ''no-attachment'')])))
      | Some i \<Rightarrow>
          (case od_content deps of
             None \<Rightarrow> returnE (Inl (OError (''This Runtime has no Content Store client, so no attachment can be read. That is a deployment fault; ''
       @ ''tell the User rather than trying again.'')))
           | Some download' \<Rightarrow> bindE (download' i) (\<lambda>bytes. returnE (Inr bytes))))"

definition textOnDocument :: "'w operation_deps \<Rightarrow> json \<Rightarrow> ('w, nat option) io" where
  "textOnDocument deps args =
     (let i = trim (text_arg args ''thingId'') in
      if i = [] then returnE None
      else bindE (repo_get (od_things deps) Document_spec (docRefOf ''Document_DM'' i)) (\<lambda>document.
             returnE (Some (length (trim (text_arg (JObj (data document)) ''extractedText''))))))"

definition replaceParameter :: json where
  "replaceParameter = JObj [(''type'', JStr ''boolean''), (''description'', JStr (''Overwrite text the Document already has. Leave it out unless the User asked for it: the existing ''
       @ ''text may be a person'' @ [CHR 0x27] @ ''s own transcription.''))]"

definition count_json :: "nat \<Rightarrow> json" where
  "count_json n = JNum (num_of_int (int n))"

text \<open>The bytes of the Document a reader is pointed at, given to the rest of the reader.\<close>

definition with_attachment :: "'w operation_deps \<Rightarrow> json \<Rightarrow> (string \<Rightarrow> string \<Rightarrow> ('w, outcome) io) \<Rightarrow> ('w, outcome) io" where
  "with_attachment deps args k =
     bindE (documentToRead deps args) (\<lambda>subject. case subject of
       Inl refused \<Rightarrow> returnE refused
     | Inr (ref, d) \<Rightarrow> bindE (attachmentBytes deps d) (\<lambda>attachment. case attachment of
         Inl refused \<Rightarrow> returnE refused
       | Inr bytes \<Rightarrow> k ref bytes))"

definition store_text :: "'w operation_deps \<Rightarrow> string \<Rightarrow> string \<Rightarrow> ('w, unit) io" where
  "store_text deps ref text = repo_update (od_things deps) Document_spec ref [(''extractedText'', JStr text)]"

text \<open>The reconciliation both readers share, with their own words.\<close>

definition reader_reconcile :: "'w operation_deps \<Rightarrow> string \<Rightarrow> string \<Rightarrow> string \<Rightarrow> json \<Rightarrow> op_context \<Rightarrow> ('w, outcome option) io" where
  "reader_reconcile deps already replaced absent args context =
     bindE (textOnDocument deps args) (\<lambda>characters. case characters of
       None \<Rightarrow> returnE None
     | Some n \<Rightarrow> known (if replace_asked args then OError replaced
         else if 0 < n then OValue (JObj [(''characters'', count_json n), (already, JBool True)])
         else OError absent))"

definition sparse_note :: "nat \<Rightarrow> string" where
  "sparse_note n = ''Only '' @ string_of_nat n @ '' characters, which is little enough to be a scanner artefact and equally to be a short document '' @ em_dash
       @ '' a one-line reminder, a receipt, a small invoice. The text is stored on the Document: read it and ''
       @ ''decide. If it turns out to be noise rather than the document, document.readScan with replace: true ''
       @ ''is the next rung.''"

definition extract_execute :: "'w operation_deps \<Rightarrow> json \<Rightarrow> op_context \<Rightarrow> ('w, outcome) io" where
  "extract_execute deps args context = with_attachment deps args (\<lambda>ref bytes.
     case readTextLayer (od_pdf deps) bytes SPARSE_TEXT_CHARS None of
       NoTextLayer pages \<Rightarrow> value_of [(''reason'', JStr ''no-text-layer''), (''pages'', count_json pages)]
     | NotAPdf pages detail \<Rightarrow> value_of [(''reason'', JStr ''not-a-pdf'')]
     | TextLayer text pages sparse pagesRead truncated \<Rightarrow>
         bindE (store_text deps ref text) (\<lambda>_.
           value_of ([(''pages'', count_json pages), (''characters'', count_json (length text))]
             @ (if sparse then [(''sparse'', JBool True), (''note'', JStr (sparse_note (length text)))] else []))))"

definition extractText :: "'w operation_deps \<Rightarrow> 'w operation_implementation" where
  "extractText deps = \<lparr>i_name = ''document.extractText'', i_mutating = True, i_clientReadable = False,
     i_execute = extract_execute deps,
     i_reconcile = Some (reader_reconcile deps ''alreadyExtracted''
       (''This replace-extraction was interrupted; the Document may still hold its previous text rather than ''
       @ ''the re-read. Call it again with replace: true '' @ em_dash @ '' repeating it is safe.'')
       (''This extraction was interrupted and the Document still has no text. Call it again '' @ em_dash
       @ '' repeating it is safe.'')),
     i_describeCall = None,
     i_seed = seed_of (''Read a document'' @ [CHR 0x27] @ ''s text layer'') ''ThingStore'' ''connector''
       (''Read the text layer of a Document'' @ [CHR 0x27] @ ''s attachment and store it as the Document'' @ [CHR 0x27]
       @ ''s text. Free, exact and deterministic '' @ em_dash
       @ '' try this before anything that costs money. Whatever text it finds is stored, however little: when ''
       @ ''there is very little it says so with '' @ [CHR 0x27] @ ''sparse'' @ [CHR 0x27]
       @ '': true and tells you how many characters, because a short text layer is either a short document '' @ em_dash
       @ '' a one-line reminder, a parking receipt, a dentist'' @ [CHR 0x27] @ ''s invoice '' @ em_dash
       @ '' or a scanner'' @ [CHR 0x27]
       @ ''s watermark on an unreadable scan, and only you can tell which by reading it. It reports '' @ [CHR 0x27]
       @ ''no-text-layer'' @ [CHR 0x27]
       @ '' only when the attachment carries no text at all, which is an ordinary answer and not a failure: ''
       @ ''read it with document.readScan, or ask a human with document.requestText. Text the Document already ''
       @ ''has is never overwritten.'')
       (object_schema [(''thingId'', str (''The Document'' @ [CHR 0x27] @ ''s ThingID.'')), (''replace'', replaceParameter)] [''thingId''])\<rparr>"

definition VISION_LIMIT_DEFAULTS :: "int \<times> int" where
  "VISION_LIMIT_DEFAULTS = (10, 16 * 1024 * 1024)"

definition NULL_VISION_READER :: "'w vision_reader" where
  "NULL_VISION_READER = \<lparr>v_available = False, v_name = ''none'', v_read = (\<lambda>pdf pages. throwE (JsError ''Error''
     (''No vision model is configured. Add a profile to llm.json and name it under '' @ [CHR 0x22] @ ''vision''
       @ [CHR 0x22] @ '', with its key in .env, for document.readScan to have anything to send the PDF to.'')))\<rparr>"

definition usage_json :: "llm_usage \<Rightarrow> json" where
  "usage_json u = JObj [(''promptTokens'', JNum (promptTokens u)), (''completionTokens'', JNum (completionTokens u))]"

definition layer_pages :: "text_layer_outcome \<Rightarrow> nat option" where
  "layer_pages layer = (case layer of NotAPdf pages detail \<Rightarrow> None | NoTextLayer pages \<Rightarrow> Some pages
     | TextLayer text pages sparse pagesRead truncated \<Rightarrow> Some pages)"

definition scan_bytes :: "'w operation_deps \<Rightarrow> 'w vision_reader \<Rightarrow> string \<Rightarrow> string \<Rightarrow> ('w, outcome) io" where
  "scan_bytes deps reader ref bytes =
     (let (visionMaxPages, visionMaxBytes) = coalesce (od_limits deps) VISION_LIMIT_DEFAULTS in
      if visionMaxBytes < int (length bytes)
      then value_of [(''reason'', JStr ''too-large''), (''bytes'', count_json (length bytes))]
      else (case layer_pages (readTextLayer (od_pdf deps) bytes SPARSE_TEXT_CHARS None) of
        None \<Rightarrow> value_of [(''reason'', JStr ''not-a-pdf'')]
      | Some pages \<Rightarrow>
          if visionMaxPages < int pages then value_of [(''reason'', JStr ''too-many-pages''), (''pages'', count_json pages)]
          else bindE (v_read reader bytes pages) (\<lambda>answer.
               bindE (store_text deps ref (vr_text answer)) (\<lambda>_.
                 value_of ([(''pages'', count_json pages), (''characters'', count_json (length (vr_text answer)))]
                   @ (case vr_usage answer of Some u \<Rightarrow> [(''usage'', usage_json u)] | None \<Rightarrow> []))))))"

definition scan_execute :: "'w operation_deps \<Rightarrow> json \<Rightarrow> op_context \<Rightarrow> ('w, outcome) io" where
  "scan_execute deps args context =
     (let vision = coalesce (od_vision deps) NULL_VISION_READER in
      if \<not> v_available vision then value_of [(''reason'', JStr ''unavailable'')]
      else with_attachment deps args (scan_bytes deps vision))"

definition readScan :: "'w operation_deps \<Rightarrow> 'w operation_implementation" where
  "readScan deps = \<lparr>i_name = ''document.readScan'', i_mutating = True, i_clientReadable = False,
     i_execute = scan_execute deps,
     i_reconcile = Some (reader_reconcile deps ''alreadyRead''
       (''This replace-scan was interrupted; the Document may still hold its previous text rather than the ''
       @ ''re-read. Reading it again costs money; do it only if the document is still worth it.'')
       (''This scan was interrupted and nothing was written to the Document. Reading it again costs money; do ''
       @ ''it only if the document is still worth it.'')),
     i_describeCall = None,
     i_seed = seed_of (''Read a scanned document'') ''ThingStore'' ''connector''
       (''Read a scanned attachment with a vision model and store what it says as the Document'' @ [CHR 0x27]
       @ ''s text. This costs money per page, so call it only after document.extractText has reported '' @ [CHR 0x27]
       @ ''no-text-layer'' @ [CHR 0x27] @ '', or has reported '' @ [CHR 0x27] @ ''sparse'' @ [CHR 0x27]
       @ '' text that you have read and judged to be a scanner'' @ [CHR 0x27]
       @ ''s noise rather than the document (in which case pass replace: true, since that noise is now the ''
       @ ''Document'' @ [CHR 0x27] @ ''s text) '' @ em_dash
       @ '' and only when the document is worth reading: a bill, a letter or a quote is; an advertising ''
       @ ''leaflet is not. It reports '' @ [CHR 0x27] @ ''unavailable'' @ [CHR 0x27]
       @ '' when no vision model is configured, and refuses anything over its page or size cap rather than ''
       @ ''reading part of it. Text the Document already has is never overwritten.'')
       (object_schema [(''thingId'', str (''The Document'' @ [CHR 0x27] @ ''s ThingID.'')), (''replace'', replaceParameter)] [''thingId''])\<rparr>"

section \<open>email.receive\<close>

definition receive_execute :: "json \<Rightarrow> op_context \<Rightarrow> ('w, outcome) io" where
  "receive_execute args context = value_of [(''reason'', JStr ''driven-by-the-runtime''),
     (''note'', JStr (''Mail is collected by the Runtime'' @ [CHR 0x27]
       @ ''s own scan loop, which creates a Document per message before any Assistant is woken. There is ''
       @ ''nothing for a Turn to call here. Switching this Operation off stops the letterbox.''))]"

definition receive_reconcile :: "'w operation_deps \<Rightarrow> json \<Rightarrow> op_context \<Rightarrow> ('w, outcome option) io" where
  "receive_reconcile deps args context =
     (let xref = trim (text_arg args ''externalRef'') in
      if xref = [] then returnE None
      else bindE (repo_search (od_things deps) Document_spec (Some (by_ref xref)) 1 []) (\<lambda>found.
        known (case found of
          t # _ \<Rightarrow> OValue (JObj [(''thingId'', JStr (thingId t)), (''alreadyReceived'', JBool True)])
        | [] \<Rightarrow> OError (''No Document carries the external reference '' @ quoted xref @ '', so nothing was ingested under it.''))))"

definition emailReceive :: "'w operation_deps \<Rightarrow> 'w operation_implementation" where
  "emailReceive deps = \<lparr>i_name = ''email.receive'', i_mutating = True, i_clientReadable = False,
     i_execute = receive_execute, i_reconcile = Some (receive_reconcile deps), i_describeCall = None,
     i_seed = seed_of ''Receive email'' ''Email'' ''connector''
       (''Take delivery of forwarded mail and turn each message into a Document. The Runtime runs this on its ''
       @ ''own schedule; it is in the catalogue so it can be described and switched off, and no Assistant ''
       @ ''calls it.'')
       (object_schema [(''externalRef'', str (''The message'' @ [CHR 0x27]
       @ ''s Message-ID, which is how a Document already ingested from it is recognised.''))] [''externalRef''])\<rparr>"

section \<open>The built-in Operations\<close>

definition buildOperations :: "'w operation_deps \<Rightarrow> 'w operation_implementation list" where
  "buildOperations deps = [thingstoreCreate deps, thingstoreGet deps, thingstoreUpdate deps, thingstoreSearch deps, askUser deps,
     assistantCall deps, requestText deps, emailSend deps, emailFetch deps, bankSendMoney deps, extractText deps, readScan deps,
     emailReceive deps]"

text \<open>The dependencies as \<open>services.ts\<close> gives them.\<close>

definition wired :: "'w a12_client \<Rightarrow> (string \<Rightarrow> ('w, string) io) \<Rightarrow> 'w vision_reader \<Rightarrow> int \<times> int
    \<Rightarrow> (string \<Rightarrow> pdf_document result) \<Rightarrow> 'w operation_deps" where
  "wired things content vision limits pdf = \<lparr>od_things = things, od_content = Some content, od_vision = Some vision,
     od_limits = Some limits, od_pdf = pdf, od_raiseQuestion = raise_for_operation things, od_callAssistant = callAssistant things\<rparr>"

end
