(* ===== verification/OperationFacts.thy ===== *)
theory OperationFacts
  imports Operations MailFacts WatcherStore
begin

text \<open>
  What the built-in Operations do to the ThingStore, under the contract \<open>thing_client\<close>: the effect of each
  when it is called, the merging of rows, and what a reconciliation finds.
\<close>

section \<open>Models by name\<close>

lemma model_of_SPECS [simp]: "model_name (ms_model (SPECS t)) = model_name t"
  by (cases t) (simp_all add: spec_defs)

lemma specFor_found: "specFor m = Inr spec \<Longrightarrow> \<exists>t. spec = SPECS t \<and> model_name t = m"
  by (auto simp: specFor_def find_Some_iff split: option.splits)

lemma specFor_name [simp]: "specFor (model_name t) = Inr (SPECS t)"
  by (cases t) (simp_all add: specFor_def ALL_MODELS_def)

lemma writable_names: "m \<in> set WRITABLE_MODELS \<longleftrightarrow> (\<exists>t \<in> {Party_DM, Document_DM, Invoice_DM, Process_DM}. m = model_name t)"
  by (auto simp: WRITABLE_MODELS_def)

lemma writable_name: "m \<in> set WRITABLE_MODELS \<Longrightarrow> \<exists>t. m = model_name t"
  unfolding writable_names by blast

section \<open>Effects on the ThingStore\<close>

text \<open>Nothing happens but that at most one Thing of the given Models is added.\<close>

definition grows_by :: "string set \<Rightarrow> view \<Rightarrow> view \<Rightarrow> bool" where
  "grows_by ms v v' \<longleftrightarrow> v' = v \<or> (\<exists>ref m doc. m \<in> ms \<and> v ref = None \<and> v' = v(ref \<mapsto> (m, doc)))"

text \<open>The fields by which the Runtime recognises and traces a Thing.\<close>

definition anchors :: "string list" where
  "anchors = [''idempotencyKey'', ''createdByConversationId'', ''createdAt'']"

definition anchor_fields :: "string list" where
  "anchor_fields = [''IdempotencyKey'', ''CreatedByConversationId'', ''CreatedAt'']"

text \<open>One Thing of the household is edited, its anchors and everything its map does not name untouched.\<close>

definition edited :: "view \<Rightarrow> view \<Rightarrow> bool" where
  "edited v v' \<longleftrightarrow> (\<exists>t i n doc doc'. model_name t \<in> set WRITABLE_MODELS \<and> v (docRefOf (model_name t) i) = Some (n, doc) \<and>
     v' = v(docRefOf (model_name t) i \<mapsto> (n, doc')) \<and>
     (\<forall>a \<in> set anchor_fields. pget (body_of (SPECS t) doc') a = pget (body_of (SPECS t) doc) a) \<and>
     (\<forall>r. r \<noteq> ms_root (SPECS t) \<longrightarrow> pget doc' r = pget doc r))"

definition household :: "view \<Rightarrow> view \<Rightarrow> bool" where
  "household v v' \<longleftrightarrow> grows_by (set WRITABLE_MODELS \<union> {''OpenQuestion_DM'', ''Conversation_DM''}) v v' \<or> edited v v'"

text \<open>The systems besides the ThingStore leave it alone; questions and calls are wired to it.\<close>

definition contents_elsewhere :: "('w \<Rightarrow> view) \<Rightarrow> ('w \<Rightarrow> bool) \<Rightarrow> 'w operation_deps \<Rightarrow> bool" where
  "contents_elsewhere view ok deps \<longleftrightarrow> (\<forall>c i. od_content deps = Some c \<longrightarrow> elsewhere view ok (c i))
     \<and> (\<forall>r b n. od_vision deps = Some r \<longrightarrow> elsewhere view ok (v_read r b n))"

definition over_store :: "'w a12_client \<Rightarrow> 'w operation_deps \<Rightarrow> bool" where
  "over_store cl deps \<longleftrightarrow> od_things deps = cl \<and> od_raiseQuestion deps = raise_for_operation cl \<and> od_callAssistant deps = callAssistant cl"

text \<open>The text of one Document is written, where it was blank or its replacement was asked for.\<close>

definition text_filled :: "json \<Rightarrow> view \<Rightarrow> view \<Rightarrow> bool" where
  "text_filled args v v' \<longleftrightarrow> (\<exists>i n doc stamp text. v (docRefOf ''Document_DM'' i) = Some (n, doc) \<and>
     v' = v(docRefOf ''Document_DM'' i \<mapsto> (n, merged_document Document_spec doc stamp [(''extractedText'', JStr text)])) \<and>
     (trim (text_arg (JObj (fromDocument Document_with_attachment doc)) ''extractedText'') = [] \<or> replace_asked args))"

lemma grows_by_refl [simp]: "grows_by ms v v"
  by (simp add: grows_by_def)

lemma grows_by_mono: "grows_by ms v v' \<Longrightarrow> ms \<subseteq> ms' \<Longrightarrow> grows_by ms' v v'"
  by (auto simp: grows_by_def)

lemma household_same: "v' = v \<Longrightarrow> household v v'"
  by (simp add: household_def)

lemma household_grown: "grows_by ms v v' \<Longrightarrow> ms \<subseteq> set WRITABLE_MODELS \<union> {''OpenQuestion_DM'', ''Conversation_DM''} \<Longrightarrow> household v v'"
  by (auto simp: household_def elim: grows_by_mono)

text \<open>The fields an update sends have no anchors among them.\<close>

lemma pget_filter: "P k \<Longrightarrow> pget (filter (\<lambda>(k, v). P k) ps) k = pget ps k"
  by (induction ps) auto

lemma pget_filter_out: "\<not> P k \<Longrightarrow> pget (filter (\<lambda>(k, v). P k) ps) k = JUndef"
  by (induction ps) auto

lemma merge_groups_other:
  "merge_groups given current gs merged = Inr merged' \<Longrightarrow> k \<notin> set gs \<Longrightarrow> pget merged' k = pget merged k"
proof (induction gs arbitrary: merged)
  case (Cons g gs)
  then show ?case by (auto split: sum.splits if_splits)
qed simp

lemma group_names: "fst ` set (ms_groups (SPECS t)) \<inter> set MACHINE_FIELD_KEYS = {}"
  by (cases t) (auto simp: spec_defs MACHINE_FIELD_KEYS_def)

lemma update_fields_anchors:
  assumes "update_fields (SPECS t) given current = Inr merged" and "k \<in> set anchors"
  shows "pget merged k = JUndef"
proof -
  have "k \<in> set MACHINE_FIELD_KEYS" using assms(2) by (auto simp: anchors_def MACHINE_FIELD_KEYS_def)
  then have "k \<notin> set (map fst (ms_groups (SPECS t)))" using group_names [of t] by auto
  from merge_groups_other [OF assms(1) [unfolded update_fields_def] this] \<open>k \<in> set MACHINE_FIELD_KEYS\<close> show ?thesis
    by (simp add: pget_filter_out)
qed

lemma anchor_names:
  assumes "a \<in> set anchor_fields"
  obtains k where "k \<in> set anchors" "(k, a) \<in> set (ms_fields (SPECS t))" "k \<noteq> ''updatedAt''"
proof -
  have "set MACHINE_FIELDS \<subseteq> set (ms_fields (SPECS t))" by (cases t) (simp_all add: spec_defs)
  moreover have "\<exists>k \<in> set anchors. (k, a) \<in> set MACHINE_FIELDS \<and> k \<noteq> ''updatedAt''"
    using assms by (auto simp: anchor_fields_def anchors_def MACHINE_FIELDS_def)
  ultimately show thesis using that by blast
qed

definition keyed_by :: "model_spec \<Rightarrow> string \<Rightarrow> props \<Rightarrow> bool" where
  "keyed_by spec k doc \<longleftrightarrow> matches doc (eq (fieldPath spec ''idempotencyKey'') (JStr k))"

definition key_free :: "view \<Rightarrow> thing_model \<Rightarrow> string \<Rightarrow> bool" where
  "key_free v m k \<longleftrightarrow> (\<forall>ref doc. v ref = Some (model_name m, doc) \<longrightarrow> \<not> keyed_by (SPECS m) k doc)"

text \<open>The Model an Operation makes a Thing of, under the key of its call.\<close>

definition made_by :: "string \<Rightarrow> json \<Rightarrow> thing_model option" where
  "made_by name args =
     (if name = ''thingstore.create'' then find (\<lambda>t. model_name t = text_arg args ''model'') ALL_MODELS
      else if name = ''assistant.call'' then Some Conversation_DM
      else if name \<in> {''ui.askUser'', ''document.requestText'', ''email.send'', ''email.fetch'', ''bank.sendMoney''} then Some OpenQuestion_DM
      else None)"

text \<open>The same outcome; a time to wake at is counted from the moment it is asked for.\<close>

fun same_outcome :: "outcome \<Rightarrow> outcome \<Rightarrow> bool" where
  "same_outcome (OPending who until question note') (OPending who' until' question' note'') =
     (who = who' \<and> (until = None) = (until' = None) \<and> question = question' \<and> note' = note'')"
| "same_outcome a b = (a = b)"

lemma same_outcome_refl [simp]: "same_outcome a a"
  by (cases a) simp_all

lemma fresh_question_open:
  "\<not> isAnswered (question_of (fromDocument OpenQuestion_spec (toDocument OpenQuestion_spec (with_stamps stamp (question_fields input)))))"
proof -
  let ?d = "with_stamps stamp (question_fields input)"
  have "pget (fromDocument OpenQuestion_spec (toDocument OpenQuestion_spec ?d)) a = pget ?d a"
    if "a \<in> {''answeredAt'', ''text'', ''choice'', ''confirmed''}" for a
  proof -
    have "list_all (\<lambda>a. a \<in> fst ` set (ms_fields OpenQuestion_spec)) [''answeredAt'', ''text'', ''choice'', ''confirmed'']" by code_simp
    with that have "\<exists>b. (a, b) \<in> set (ms_fields OpenQuestion_spec)" unfolding list.pred_set by fastforce
    then show ?thesis using stored_field [OF wf_SPECS_8] by blast
  qed
  moreover have "pget ?d a = JUndef" if "a \<in> {''answeredAt'', ''text'', ''choice'', ''confirmed''}" for a
  proof -
    have "pget ?d a = pget (question_fields input) a" using that by (auto simp: with_stamps_def pget_spread)
    moreover have "list_all (\<lambda>a. pget (question_fields input) a = JUndef) [''answeredAt'', ''text'', ''choice'', ''confirmed'']"
      by (simp add: question_fields_def Let_def)
    ultimately show ?thesis using that by auto
  qed
  ultimately show ?thesis
    by (simp add: isAnswered_def question_of_def as_str_def as_bool_def truthy_def blank_def trim_def machine_fields.defs open_question.defs)
qed

lemma fresh_child_undelivered:
  "resultDeliveredAt (conversation_of (fromDocument Conversation_spec (toDocument Conversation_spec (with_stamps stamp (birth_fields instant input))))) = None"
proof -
  let ?d = "with_stamps stamp (birth_fields instant input)"
  have "pget (fromDocument Conversation_spec (toDocument Conversation_spec ?d)) ''resultDeliveredAt'' = pget ?d ''resultDeliveredAt''"
  proof -
    have "\<exists>b. (''resultDeliveredAt'', b) \<in> set (ms_fields Conversation_spec)" by (auto simp: Conversation_spec_def)
    then show ?thesis using stored_field [OF wf_SPECS_7] by blast
  qed
  moreover have "pget ?d ''resultDeliveredAt'' = JUndef"
    by (simp add: with_stamps_def pget_spread birth_fields_def Let_def)
  ultimately show ?thesis
    by (simp add: conversation_of_def as_str_def machine_fields.defs conversation.defs)
qed

subsection \<open>One Operation of the list\<close>

lemmas operation_defs = thingstoreCreate_def thingstoreGet_def thingstoreUpdate_def thingstoreSearch_def askUser_def
  assistantCall_def requestText_def emailSend_def emailFetch_def bankSendMoney_def manualConnector_def extractText_def readScan_def
  emailReceive_def

lemma operation_cases:
  assumes "imp \<in> set (buildOperations deps)"
  obtains (create) "imp = thingstoreCreate deps" "i_execute imp = create_execute deps" "i_reconcile imp = Some (create_reconcile deps)" "i_mutating imp"
  | (get_thing) "imp = thingstoreGet deps" "i_execute imp = get_execute deps" "i_reconcile imp = None"
  | (update) "imp = thingstoreUpdate deps" "i_execute imp = update_execute deps" "i_reconcile imp = Some update_reconcile" "i_mutating imp"
  | (search) "imp = thingstoreSearch deps" "i_execute imp = search_execute deps" "i_reconcile imp = None"
  | (ask) "imp = askUser deps" "i_execute imp = ask_execute deps" "i_reconcile imp = Some (question_reconcile deps WF_User ''answered'')" "i_mutating imp"
  | (call) "imp = assistantCall deps" "i_execute imp = call_execute deps" "i_reconcile imp = Some (call_reconcile deps)" "i_mutating imp"
  | (manual_connector) render where "imp \<in> {requestText deps, emailSend deps, emailFetch deps, bankSendMoney deps}"
      "i_execute imp = manual_execute deps render" "i_reconcile imp = Some (question_reconcile deps WF_Tool ''done'')" "i_mutating imp"
  | (layer) "imp = extractText deps" "i_execute imp = extract_execute deps" "i_mutating imp"
  | (scan) "imp = readScan deps" "i_execute imp = scan_execute deps" "i_mutating imp"
  | (receive) "imp = emailReceive deps" "i_execute imp = receive_execute" "i_reconcile imp = Some (receive_reconcile deps)" "i_mutating imp"
proof -
  have manual: "\<exists>render. i_execute m = manual_execute deps render \<and> i_reconcile m = Some (question_reconcile deps WF_Tool ''done'') \<and> i_mutating m"
    if "m \<in> {requestText deps, emailSend deps, emailFetch deps, bankSendMoney deps}" for m
    using that by (auto simp: requestText_def emailSend_def emailFetch_def bankSendMoney_def manualConnector_def)
  from assms consider "imp = thingstoreCreate deps" | "imp = thingstoreGet deps" | "imp = thingstoreUpdate deps" | "imp = thingstoreSearch deps"
    | "imp = askUser deps" | "imp = assistantCall deps" | "imp \<in> {requestText deps, emailSend deps, emailFetch deps, bankSendMoney deps}"
    | "imp = extractText deps" | "imp = readScan deps" | "imp = emailReceive deps"
    unfolding buildOperations_def list.set insert_iff empty_iff by blast
  then show thesis
  proof cases
    case 1 then show thesis by (intro create) (simp_all add: thingstoreCreate_def)
  next
    case 2 then show thesis by (intro get_thing) (simp_all add: thingstoreGet_def)
  next
    case 3 then show thesis by (intro update) (simp_all add: thingstoreUpdate_def)
  next
    case 4 then show thesis by (intro search) (simp_all add: thingstoreSearch_def)
  next
    case 5 then show thesis by (intro ask) (simp_all add: askUser_def)
  next
    case 6 then show thesis by (intro call) (simp_all add: assistantCall_def)
  next
    case 7 with manual show thesis using manual_connector by blast
  next
    case 8 then show thesis by (intro layer) (simp_all add: extractText_def)
  next
    case 9 then show thesis by (intro scan) (simp_all add: readScan_def)
  next
    case 10 then show thesis by (intro receive) (simp_all add: emailReceive_def)
  qed
qed

context thing_client
begin

lemma create_grows:
  assumes "inv w" and "repo_create cl spec d w = (Inr t, w')"
  shows "grows_by {model_name (ms_model spec)} (view w) (view w')"
proof (cases "as_str (pget d ''idempotencyKey'')")
  case None
  with assms(2) have "add_and_converge cl spec d None w = (Inr t, w')" by (simp add: repo_create_def)
  from add_and_converge_result [OF assms(1) this] show ?thesis by (auto simp: grows_by_def)
next
  case (Some k)
  with assms(2) obtain r w0 where f: "findByIdempotencyKey cl spec k w = (Inr r, w0)"
    and a: "(case r of Some t \<Rightarrow> returnE t | None \<Rightarrow> add_and_converge cl spec d (Some k)) w0 = (Inr t, w')"
    by (auto simp: repo_create_def Let_def bindE_def throwE_def split: prod.splits sum.splits)
  have v: "view w0 = view w" by (rule find_result(1) [OF assms(1) f])
  have i: "inv w0" using inv_repo(4) assms(1) f by (metis keepsD snd_conv)
  show ?thesis
  proof (cases r)
    case None
    with a have "add_and_converge cl spec d (Some k) w0 = (Inr t, w')" by simp
    from add_and_converge_result [OF i this] v show ?thesis by (auto simp: grows_by_def)
  next
    case (Some x)
    with a v show ?thesis by (simp add: returnE_def)
  qed
qed

lemma update_edits:
  assumes "repo_update cl (SPECS t) (docRefOf (model_name t) i) d w = (Inr u, w')"
    and "model_name t \<in> set WRITABLE_MODELS" and "\<And>k. k \<in> set anchors \<Longrightarrow> pget d k = JUndef"
  shows "edited (view w) (view w')"
proof -
  obtain n doc stamp where v: "view w (docRefOf (model_name t) i) = Some (n, doc)"
    "view w' = (view w)(docRefOf (model_name t) i \<mapsto> (n, merged_document (SPECS t) doc stamp d))"
    using update_result [OF assms(1)] by blast
  have "pget (body_of (SPECS t) (merged_document (SPECS t) doc stamp d)) a = pget (body_of (SPECS t) doc) a"
    if "a \<in> set anchor_fields" for a
    using that assms(3) by (rule_tac anchor_names [of a t]) (auto simp: merged_field [OF wf_SPECS])
  with v assms(2) merged_other_root [of _ "SPECS t"] show ?thesis unfolding edited_def by blast
qed

lemma get_same: "view (snd (repo_get cl spec ref w)) = view w"
  using get_frame [of ref w] by (auto simp: repo_get_def io_defs split: prod.splits sum.splits)

lemma find_same: "view (snd (findByIdempotencyKey cl spec k w)) = view w"
  using search_frame [of spec "Some (eq (fieldPath spec ''idempotencyKey'') (JStr k))" 2 "[]" w]
  by (auto simp: findByIdempotencyKey_def io_defs split: prod.splits sum.splits)

lemma create_effect:
  assumes "od_things deps = cl" and "inv w" and "create_execute deps args context w = (Inr oc, w')"
  shows "household (view w) (view w')"
proof (cases "text_arg args ''model'' \<in> set WRITABLE_MODELS")
  case False
  with assms(3) show ?thesis by (simp add: create_execute_def refuse_def returnE_def household_same)
next
  case True
  then obtain t where t: "text_arg args ''model'' = model_name t" using writable_name by blast
  with True assms(1,3) obtain c where "repo_create cl (SPECS t) (create_fields args context) w = (Inr c, w')"
    by (auto simp: create_execute_def Let_def with_spec_def bindE_def returnE_def split: prod.splits sum.splits)
  from create_grows [OF assms(2) this] True t show ?thesis by (auto intro: household_grown)
qed

lemma get_effect:
  assumes "od_things deps = cl" and "get_execute deps args context w = (r, w')"
  shows "view w' = view w"
  using assms get_same [of _ _ w]
  by (auto simp: get_execute_def Let_def refuse_def with_spec_def io_defs split: if_splits sum.splits prod.splits) (metis snd_conv)+

lemma search_effect:
  assumes "od_things deps = cl" and "search_execute deps args context w = (r, w')"
  shows "view w' = view w"
  using assms search_frame [of _ _ _ _ w]
  by (auto simp: search_execute_def Let_def refuse_def with_spec_def io_defs split: if_splits sum.splits prod.splits option.splits) (metis snd_conv)+

lemma update_effect:
  assumes "od_things deps = cl" and "update_execute deps args context w = (Inr oc, w')"
  shows "household (view w) (view w')"
proof (cases "text_arg args ''model'' \<in> set WRITABLE_MODELS")
  case False
  with assms(2) show ?thesis by (simp add: update_execute_def refuse_def returnE_def household_same)
next
  case True
  then obtain t where t: "text_arg args ''model'' = model_name t" using writable_name by blast
  let ?ref = "docRefOf (model_name t) (text_arg args ''thingId'')"
  from True t assms obtain current w1 merged u where g: "repo_get cl (SPECS t) ?ref w = (Inr current, w1)"
    and m: "update_fields (SPECS t) (given_fields args) (data current) = Inr merged"
    and u: "repo_update cl (SPECS t) ?ref merged w1 = (Inr u, w')"
    by (auto simp: update_execute_def Let_def with_spec_def io_defs value_of_def split: prod.splits sum.splits)
  have "view w1 = view w" using get_same [of "SPECS t" ?ref w] g by simp
  moreover have "edited (view w1) (view w')"
    using update_edits [OF u] True t update_fields_anchors [OF m] by simp
  ultimately show ?thesis by (simp add: household_def)
qed

lemma raise_effect:
  assumes "inv w" and "raise_for_operation cl input w = (Inr q, w')"
  shows "household (view w) (view w')"
proof -
  obtain c t where "repo_create cl OpenQuestion_spec c w = (Inr t, w')"
    using assms(2) by (auto simp: raise_for_operation_def createQuestion_def io_defs split: prod.splits sum.splits)
  then show ?thesis
    using create_grows [OF assms(1)] by (auto intro!: household_grown simp: OpenQuestion_spec_def)
qed

lemma birth_effect:
  assumes "inv w" and "birth cl input w = (Inr ref, w')"
  shows "household (view w) (view w')"
proof -
  obtain c t where "repo_create cl Conversation_spec c w = (Inr t, w')"
    using assms(2) by (auto simp: birth_def io_defs split: prod.splits sum.splits)
  then show ?thesis
    using create_grows [OF assms(1)] by (auto intro!: household_grown simp: Conversation_spec_def)
qed

lemma inv_after: "keeps inv m \<Longrightarrow> inv w \<Longrightarrow> m w = (r, w') \<Longrightarrow> inv w'"
  using keepsD by (metis snd_conv)

lemma call_for_operation_effect:
  assumes "inv w" and "callAssistant cl input w = (Inr i, w')"
  shows "household (view w) (view w')"
proof -
  from assms(2) obtain a w1 b ref where f: "findAssistant cl (ca_assistantKey input) w = (Inr (Some a), w1)"
    and b: "birth cl b w1 = (Inr ref, w')"
    by (auto simp: callAssistant_def bindE_def returnE_def throwE_def split: prod.splits sum.splits option.splits)
  let ?q = "repo_search cl Assistant_spec (Some (eq (fieldPath Assistant_spec ''key'') (JStr (ca_assistantKey input)))) 2 []"
  have w1: "w1 = snd (?q w) \<or> w1 = w"
    using f by (auto simp: findAssistant_def bindE_def returnE_def split: prod.splits sum.splits if_splits)
  then have "view w1 = view w" using search_frame by metis
  moreover have "inv w1" using w1 assms(1) inv_repo(3) keepsD by metis
  ultimately show ?thesis using birth_effect [OF _ b] by simp
qed

lemma ask_effect:
  assumes "od_raiseQuestion deps = raise_for_operation cl" and "inv w"
  shows "ask_execute deps args context w = (Inr oc, w') \<Longrightarrow> household (view w) (view w')"
    and "manual_execute deps renderPrompt args context w = (Inr oc, w') \<Longrightarrow> household (view w) (view w')"
  using raise_effect [OF assms(2)] assms(1)
  by (auto simp: ask_execute_def manual_execute_def Let_def refuse_def bindE_def returnE_def household_same split: prod.splits sum.splits if_splits)

lemma awaited_same: "awaited deps args i w = (Inr oc, w') \<Longrightarrow> w' = w"
  by (auto simp: awaited_def Let_def io_defs split: if_splits)

lemma call_effect:
  assumes "od_things deps = cl" and "od_callAssistant deps = callAssistant cl" and "inv w"
    and "call_execute deps args context w = (Inr oc, w')"
  shows "household (view w) (view w')"
proof -
  let ?q = "repo_search cl Assistant_spec (Some (eq (fieldPath Assistant_spec ''key'') (JStr (text_arg args ''assistantKey'')))) 2 []"
  obtain r w1 where s: "?q w = (r, w1)" by fastforce
  have v: "view w1 = view w" using search_frame [of Assistant_spec _ 2 "[]" w] s by (metis snd_conv)
  have i: "inv w1" by (rule inv_after [OF inv_repo(3) assms(3) s])
  from assms(4) have "w' = w \<or> w' = w1 \<or> (\<exists>input child w2. callAssistant cl input w1 = (Inr child, w2) \<and> awaited deps args child w2 = (Inr oc, w'))"
    by (auto simp: call_execute_def Let_def refuse_def bindE_def returnE_def assms(1,2) s split: if_splits prod.splits sum.splits list.splits)
  then show ?thesis
  proof (elim disjE exE conjE)
    fix input child w2
    assume "callAssistant cl input w1 = (Inr child, w2)" "awaited deps args child w2 = (Inr oc, w')"
    with call_for_operation_effect [OF i] awaited_same v show ?thesis by metis
  qed (simp_all add: household_same v)
qed

lemma elsewhere_view: "elsewhere view inv m \<Longrightarrow> m w = (r, w') \<Longrightarrow> view w' = view w"
  by (auto simp: elsewhere_def) (metis snd_conv)

lemma document_read:
  assumes "od_things deps = cl" and "documentToRead deps args w = (Inr x, w')"
  shows "view w' = view w \<and> (\<forall>ref d. x = Inr (ref, d) \<longrightarrow> (\<exists>i n doc. ref = docRefOf ''Document_DM'' i \<and> view w ref = Some (n, doc) \<and>
     d = fromDocument Document_with_attachment doc \<and> (trim (text_arg (JObj d) ''extractedText'') = [] \<or> replace_asked args)))"
proof (cases "trim (text_arg args ''thingId'') = []")
  case True
  with assms(2) show ?thesis by (auto simp: documentToRead_def returnE_def)
next
  case False
  let ?ref = "docRefOf ''Document_DM'' (trim (text_arg args ''thingId''))"
  from False assms obtain t where g: "repo_get cl Document_with_attachment ?ref w = (Inr t, w')"
    and x: "x = (if trim (text_arg (JObj (data t)) ''extractedText'') \<noteq> [] \<and> \<not> replace_asked args
       then Inl (OValue (JObj [(''skipped'', JStr ''already-has-text'')])) else Inr (?ref, data t))"
    by (auto simp: documentToRead_def Let_def io_defs split: prod.splits sum.splits if_splits)
  from get_result [OF g] x show ?thesis by (auto split: if_splits)
qed

lemma attachment_read:
  assumes "contents_elsewhere view inv deps" and "attachmentBytes deps d w = (Inr x, w')"
  shows "view w' = view w"
  using assms elsewhere_view [of _ w]
  by (auto simp: attachmentBytes_def contents_elsewhere_def io_defs split: option.splits prod.splits sum.splits)

lemma reader_reads:
  assumes "od_things deps = cl" and "contents_elsewhere view inv deps" and "with_attachment deps args k w = (Inr oc, w')"
  shows "view w' = view w \<or> (\<exists>i n doc bytes w1. view w1 = view w \<and> view w (docRefOf ''Document_DM'' i) = Some (n, doc) \<and>
    k (docRefOf ''Document_DM'' i) bytes w1 = (Inr oc, w') \<and>
    (trim (text_arg (JObj (fromDocument Document_with_attachment doc)) ''extractedText'') = [] \<or> replace_asked args))"
proof -
  from assms(3) obtain x w1 where d: "documentToRead deps args w = (Inr x, w1)"
    and rest: "(case x of Inl refused \<Rightarrow> returnE refused | Inr (ref, d) \<Rightarrow> bindE (attachmentBytes deps d) (\<lambda>attachment.
      case attachment of Inl refused \<Rightarrow> returnE refused | Inr bytes \<Rightarrow> k ref bytes)) w1 = (Inr oc, w')"
    by (auto simp: with_attachment_def bindE_def split: prod.splits sum.splits)
  note got = document_read [OF assms(1) d]
  show ?thesis
  proof (cases x)
    case (Inl a)
    with rest got show ?thesis by (simp add: returnE_def)
  next
    case (Inr p)
    obtain ref pd where p: "p = (ref, pd)" by (cases p)
    from rest Inr p obtain y w2 where a: "attachmentBytes deps pd w1 = (Inr y, w2)"
      and k: "(case y of Inl refused \<Rightarrow> returnE refused | Inr bytes \<Rightarrow> k ref bytes) w2 = (Inr oc, w')"
      by (auto simp: bindE_def split: prod.splits sum.splits)
    have v: "view w2 = view w" using attachment_read [OF assms(2) a] got by simp
    show ?thesis
    proof (cases y)
      case (Inl b)
      with k v show ?thesis by (simp add: returnE_def)
    next
      case (Inr bytes)
      from got \<open>x = Inr p\<close> p obtain i n doc where "ref = docRefOf ''Document_DM'' i" "view w ref = Some (n, doc)"
        "trim (text_arg (JObj (fromDocument Document_with_attachment doc)) ''extractedText'') = [] \<or> replace_asked args" by blast
      with k v Inr show ?thesis by auto
    qed
  qed
qed

lemma extract_stores:
  assumes "(case readTextLayer (od_pdf deps) bytes SPARSE_TEXT_CHARS None of
       NoTextLayer pages \<Rightarrow> value_of [(''reason'', JStr ''no-text-layer''), (''pages'', count_json pages)]
     | NotAPdf pages detail \<Rightarrow> value_of [(''reason'', JStr ''not-a-pdf'')]
     | TextLayer text pages sparse pagesRead truncated \<Rightarrow>
         bindE (store_text deps ref text) (\<lambda>_.
           value_of ([(''pages'', count_json pages), (''characters'', count_json (length text))]
             @ (if sparse then [(''sparse'', JBool True), (''note'', JStr (sparse_note (length text)))] else [])))) w1 = (Inr oc, w')"
  shows "view w' = view w1 \<or> (\<exists>text w2. view w2 = view w1 \<and> store_text deps ref text w2 = (Inr (), w'))"
  using assms by (auto simp: value_of_def io_defs split: text_layer_outcome.splits prod.splits sum.splits)

lemma scan_stores:
  assumes "\<And>b n. elsewhere view inv (v_read reader b n)" and "scan_bytes deps reader ref bytes w1 = (Inr oc, w')"
  shows "view w' = view w1 \<or> (\<exists>text w2. view w2 = view w1 \<and> store_text deps ref text w2 = (Inr (), w'))"
proof -
  from assms(2) have "w' = w1 \<or> (\<exists>pages answer w2. v_read reader bytes pages w1 = (Inr answer, w2) \<and> store_text deps ref (vr_text answer) w2 = (Inr (), w'))"
    by (auto simp: scan_bytes_def Let_def value_of_def io_defs split: option.splits prod.splits sum.splits if_splits)
  with elsewhere_view [OF assms(1)] show ?thesis by blast
qed

lemma reader_fills:
  assumes "od_things deps = cl" and "contents_elsewhere view inv deps"
  shows "extract_execute deps args context w = (Inr oc, w') \<Longrightarrow> view w' = view w \<or> text_filled args (view w) (view w')"
    and "scan_execute deps args context w = (Inr oc, w') \<Longrightarrow> view w' = view w \<or> text_filled args (view w) (view w')"
proof -
  have filled: "view w' = view w \<or> text_filled args (view w) (view w')"
    if run: "with_attachment deps args k w = (Inr oc, w')"
      and k: "\<And>ref bytes w1. k ref bytes w1 = (Inr oc, w') \<Longrightarrow>
        view w' = view w1 \<or> (\<exists>text w2. view w2 = view w1 \<and> store_text deps ref text w2 = (Inr (), w'))" for k
  proof -
    consider "view w' = view w" | i n doc bytes w1 where "view w1 = view w" "view w (docRefOf ''Document_DM'' i) = Some (n, doc)"
      "k (docRefOf ''Document_DM'' i) bytes w1 = (Inr oc, w')"
      "trim (text_arg (JObj (fromDocument Document_with_attachment doc)) ''extractedText'') = [] \<or> replace_asked args"
      using reader_reads [OF assms run] by blast
    then show ?thesis
    proof cases
      case (2 i n doc bytes w1)
      consider "view w' = view w1" | words w2 where "view w2 = view w1" "store_text deps (docRefOf ''Document_DM'' i) words w2 = (Inr (), w')"
        using k [OF 2(3)] by blast
      then show ?thesis
      proof cases
        case (2 words w2)
        with update_result [of Document_spec "docRefOf ''Document_DM'' i" _ w2 "()" w'] \<open>view w1 = view w\<close>
          \<open>view w (docRefOf _ i) = _\<close> \<open>_ \<or> replace_asked args\<close> assms(1) show ?thesis
          unfolding text_filled_def store_text_def by fastforce
      qed (use 2(1) in simp)
    qed simp
  qed
  show "view w' = view w \<or> text_filled args (view w) (view w')" if "extract_execute deps args context w = (Inr oc, w')"
    by (rule filled [OF that [unfolded extract_execute_def] extract_stores])
  show "view w' = view w \<or> text_filled args (view w) (view w')" if "scan_execute deps args context w = (Inr oc, w')"
  proof (cases "v_available (coalesce (od_vision deps) NULL_VISION_READER)")
    case False
    with that show ?thesis by (simp add: scan_execute_def value_of_def returnE_def)
  next
    case True
    then obtain r where r: "od_vision deps = Some r" by (cases "od_vision deps") (simp_all add: NULL_VISION_READER_def)
    with assms(2) have "elsewhere view inv (v_read r b n)" for b n by (simp add: contents_elsewhere_def)
    with that True r show ?thesis
      by (intro filled [of "scan_bytes deps r"] scan_stores) (simp_all add: scan_execute_def)
  qed
qed

lemma filled_edited: "text_filled args v v' \<Longrightarrow> edited v v'"
proof -
  assume "text_filled args v v'"
  then obtain i n doc stamp words where v: "v (docRefOf ''Document_DM'' i) = Some (n, doc)"
    "v' = v(docRefOf ''Document_DM'' i \<mapsto> (n, merged_document Document_spec doc stamp [(''extractedText'', JStr words)]))"
    by (auto simp: text_filled_def)
  have "pget (body_of Document_spec (merged_document Document_spec doc stamp [(''extractedText'', JStr words)])) a = pget (body_of Document_spec doc) a"
    if "a \<in> set anchor_fields" for a
    using that merged_field [OF wf_SPECS, of _ _ Document_DM doc stamp "[(''extractedText'', JStr words)]"]
    by (rule_tac anchor_names [of a Document_DM]) (auto simp: anchors_def)
  with v merged_other_root [of _ Document_spec] show ?thesis
    unfolding edited_def v(2)
    by (intro exI [of _ Document_DM] exI [of _ i] exI [of _ n] exI [of _ doc]
        exI [of _ "merged_document Document_spec doc stamp [(''extractedText'', JStr words)]"]) (simp add: WRITABLE_MODELS_def)
qed

lemma operation_effect:
  assumes "over_store cl deps" and "contents_elsewhere view inv deps" and "inv w"
    and "imp \<in> set (buildOperations deps)" and "i_execute imp args context w = (Inr oc, w')"
  shows "household (view w) (view w') \<and> (\<not> i_mutating imp \<longrightarrow> view w' = view w)"
proof -
  have dt: "od_things deps = cl" and dr: "od_raiseQuestion deps = raise_for_operation cl" and dc: "od_callAssistant deps = callAssistant cl"
    using assms(1) by (simp_all add: over_store_def)
  have reader: "household (view w) (view w')" if "view w' = view w \<or> text_filled args (view w) (view w')"
    using that filled_edited by (auto simp: household_def)
  note run = assms(5)
  show ?thesis
    using assms(4)
  proof (cases rule: operation_cases)
    case create
    then show ?thesis using create_effect [OF dt assms(3) run [unfolded create(2)]] by simp
  next
    case get_thing
    then show ?thesis using get_effect [OF dt run [unfolded get_thing(2)]] by (simp add: household_same)
  next
    case update
    then show ?thesis using update_effect [OF dt run [unfolded update(2)]] by simp
  next
    case search
    then show ?thesis using search_effect [OF dt run [unfolded search(2)]] by (simp add: household_same)
  next
    case ask
    then show ?thesis using ask_effect(1) [OF dr assms(3) run [unfolded ask(2)]] by simp
  next
    case call
    then show ?thesis using call_effect [OF dt dc assms(3) run [unfolded call(2)]] by simp
  next
    case (manual_connector render)
    then show ?thesis using ask_effect(2) [OF dr assms(3) run [unfolded manual_connector(2)]] by simp
  next
    case layer
    then show ?thesis using reader [OF reader_fills(1) [OF dt assms(2) run [unfolded layer(2)]]] by simp
  next
    case scan
    then show ?thesis using reader [OF reader_fills(2) [OF dt assms(2) run [unfolded scan(2)]]] by simp
  next
    case receive
    then show ?thesis using run by (simp add: receive_execute_def value_of_def returnE_def household_same)
  qed
qed

subsection \<open>What a key recovers\<close>

lemma search_ids: "repo_search cl spec c n srt w = (Inr found, w') \<Longrightarrow> t \<in> set found \<Longrightarrow> thingId t = thingIdOf (docRef t)"
  by (auto simp: repo_search_def toStored_def io_defs split: prod.splits sum.splits)

lemma add_id:
  assumes "add_and_converge cl spec d key w = (Inr t, w')"
  shows "thingId t = thingIdOf (docRef t)"
proof -
  have least: "thingId (least_docRef all) = thingIdOf (docRef (least_docRef all))"
    if "repo_search cl spec c n srt w1 = (Inr all, w2)" "1 < length all" for c n srt w1 w2 all
  proof -
    have "sort_key docRef all \<noteq> []" using that(2) by (metis length_greater_0_conv length_sort less_trans zero_less_one)
    then have "least_docRef all \<in> set all" by (metis hd_in_set least_docRef_def set_sort)
    with search_ids [OF that(1)] show ?thesis by blast
  qed
  from assms least show ?thesis
    by (auto simp: add_and_converge_def Let_def io_defs split: prod.splits sum.splits option.splits if_splits)
qed

lemma find_id: "findByIdempotencyKey cl spec k w = (Inr (Some t), w') \<Longrightarrow> thingId t = thingIdOf (docRef t)"
  by (auto simp: findByIdempotencyKey_def bindE_def returnE_def split: prod.splits sum.splits list.splits dest!: search_ids)

text \<open>Under a key no Thing of the Model carries, \<open>create\<close> adds the Thing it returns, and the key finds it.\<close>

lemma create_then_find:
  assumes "inv w" and "repo_create cl (SPECS m) d w = (Inr t, w1)" and "as_str (pget d ''idempotencyKey'') = Some k"
    and free: "\<And>ref doc. view w ref = Some (model_name m, doc) \<Longrightarrow> \<not> keyed_by (SPECS m) k doc"
    and "findByIdempotencyKey cl (SPECS m) k w1 = (Inr r, w2)"
  shows "view w2 = view w1 \<and> (\<exists>x stamp. r = Some x \<and> thingId x = thingId t \<and>
    data x = fromDocument (SPECS m) (toDocument (SPECS m) (with_stamps stamp d)))"
proof -
  from assms(2,3) obtain r0 w0 where f: "findByIdempotencyKey cl (SPECS m) k w = (Inr r0, w0)"
    and a: "(case r0 of Some t \<Rightarrow> returnE t | None \<Rightarrow> add_and_converge cl (SPECS m) d (Some k)) w0 = (Inr t, w1)"
    by (auto simp: repo_create_def Let_def bindE_def throwE_def split: prod.splits sum.splits)
  note res = find_result [OF assms(1) f]
  have i: "inv w0" by (rule inv_after [OF inv_repo(4) assms(1) f])
  have "r0 = None" using res(2) free by (cases r0) (auto simp: keyed_by_def)
  with a have add: "add_and_converge cl (SPECS m) d (Some k) w0 = (Inr t, w1)" by simp
  obtain stamp ref where new: "view w0 ref = None"
    "view w1 = (view w0)(ref \<mapsto> (model_name m, toDocument (SPECS m) (with_stamps stamp d)))"
    "docRef t = ref \<or> (\<exists>k' doc. Some k = Some k' \<and> view w1 (docRef t) = Some (model_name m, doc) \<and>
       matches doc (eq (fieldPath (SPECS m) ''idempotencyKey'') (JStr k')))"
    using add_and_converge_result [OF i add] unfolding model_of_SPECS by blast
  have others: "y = ref" if "view w1 y = Some (model_name m, doc)" "keyed_by (SPECS m) k doc" for y doc
    using that new(2) free [of y doc] res(1) by (auto split: if_splits)
  have t: "docRef t = ref" using new(3) others by (auto simp: keyed_by_def)
  obtain b where b: "(''idempotencyKey'', b) \<in> set (ms_fields (SPECS m))" by (cases m) (auto simp: spec_defs MACHINE_FIELDS_def)
  have key: "keyed_by (SPECS m) k (toDocument (SPECS m) (with_stamps stamp d))"
    using key_stored [OF wf_SPECS path_ok_SPECS b assms(3)] by (simp add: keyed_by_def)
  have "inv w1" by (rule inv_after [OF inv_add_and_converge i add])
  note found = find_result [OF this assms(5)]
  have "r \<noteq> None" using found(3) [of ref] new(2) key by (auto simp: keyed_by_def)
  then obtain x where x: "r = Some x" by blast
  from found(2) [OF x] obtain doc where doc: "view w1 (docRef x) = Some (model_name m, doc)" "data x = fromDocument (SPECS m) doc"
    "keyed_by (SPECS m) k doc" by (auto simp: keyed_by_def)
  have "docRef x = ref" by (rule others [OF doc(1,3)])
  then have "thingId x = thingId t" using find_id assms(5) x add_id [OF add] t by simp
  with x doc \<open>docRef x = ref\<close> new(2) found(1) show ?thesis by auto
qed

lemma create_recovered:
  assumes "od_things deps = cl" and "inv w" and "create_execute deps args context w = (Inr oc, w1)"
    and m: "find (\<lambda>t. model_name t = text_arg args ''model'') ALL_MODELS = Some m"
    and free: "key_free (view w) m (ctx_idempotencyKey context)" and "\<And>e. oc \<noteq> OError e"
    and "create_reconcile deps args context w1 = (Inr r, w2)"
  shows "view w2 = view w1 \<and> r = Some oc"
proof -
  have name: "text_arg args ''model'' = model_name m" using m by (auto simp: find_Some_iff)
  have spec: "with_spec (model_name m) k = k (SPECS m)" for k :: "model_spec \<Rightarrow> ('a, 'x) io" by (simp add: with_spec_def)
  from assms(3,6) name have writable: "model_name m \<in> set WRITABLE_MODELS"
    by (auto simp: create_execute_def Let_def refuse_def returnE_def split: if_splits)
  from assms(3) writable obtain t where c: "repo_create cl (SPECS m) (create_fields args context) w = (Inr t, w1)"
    and oc: "oc = created_value (model_name m) (thingId t)"
    by (auto simp: create_execute_def Let_def name with_spec_def assms(1) bindE_def returnE_def split: prod.splits sum.splits)
  from assms(7) writable obtain x where f: "findByIdempotencyKey cl (SPECS m) (ctx_idempotencyKey context) w1 = (Inr x, w2)"
    and r: "r = Some (case x of Some t \<Rightarrow> created_value (model_name m) (thingId t)
      | None \<Rightarrow> OError ''This call was interrupted and nothing was created; try again.'')"
    by (auto simp: create_reconcile_def Let_def name with_spec_def assms(1) known_def bindE_def returnE_def split: prod.splits sum.splits)
  have "as_str (pget (create_fields args context) ''idempotencyKey'') = Some (ctx_idempotencyKey context)"
    by (simp add: create_fields_def pget_spread as_str_def)
  from create_then_find [OF assms(2) c this _ f] free r oc show ?thesis by (auto simp: key_free_def)
qed

lemma question_recovered:
  assumes "od_things deps = cl" and "inv w" and "raise_for_operation cl input w = (Inr q, w1)"
    and "key_free (view w) OpenQuestion_DM (ctx_idempotencyKey (ri_context input))"
    and "question_reconcile deps who mark args (ri_context input) w1 = (Inr r, w2)"
  shows "view w2 = view w1 \<and> r = Some (asked_of_user who q)"
proof -
  define i where "i = \<lparr>cq_conversation = ctx_conversation (ri_context input),
      cq_assistantKey = coalesce (a_key (data (ctx_assistant (ri_context input)))) [], cq_kind = ri_kind input,
      cq_prompt = ri_prompt input, cq_options = ri_options input, cq_subjectThingId = ri_subjectThingId input,
      cq_idempotencyKey = ctx_idempotencyKey (ri_context input)\<rparr>"
  from assms(3) obtain t where c: "repo_create cl (SPECS OpenQuestion_DM) (question_fields i) w = (Inr t, w1)" and q: "q = thingId t"
    by (auto simp: raise_for_operation_def createQuestion_def i_def bindE_def returnE_def split: prod.splits sum.splits)
  from assms(5) obtain x where f: "findByIdempotencyKey cl (SPECS OpenQuestion_DM) (ctx_idempotencyKey (ri_context input)) w1 = (Inr x, w2)"
    and r: "r = (case x of None \<Rightarrow> None | Some t \<Rightarrow> Some (if isAnswered (question_of (data t)) then OValue (JObj [(mark, JBool True)])
                        else asked_of_user who (thingId t)))"
    by (auto simp: question_reconcile_def assms(1) known_def bindE_def returnE_def split: prod.splits sum.splits option.splits)
  have "as_str (pget (question_fields i) ''idempotencyKey'') = Some (ctx_idempotencyKey (ri_context input))"
    by (simp add: question_fields_def Let_def as_str_def i_def)
  from create_then_find [OF assms(2) c this _ f] assms(4) r q fresh_question_open [of _ i] show ?thesis by (auto simp: key_free_def)
qed

lemma call_recovered:
  assumes "od_things deps = cl" and "od_callAssistant deps = callAssistant cl" and "inv w"
    and "call_execute deps args context w = (Inr oc, w1)" and "\<And>e. oc \<noteq> OError e"
    and free: "key_free (view w) Conversation_DM (ctx_idempotencyKey context)"
    and "call_reconcile deps args context w1 = (Inr r, w2)"
  shows "view w2 = view w1 \<and> (\<exists>oc'. r = Some oc' \<and> same_outcome oc oc')"
proof -
  let ?q = "repo_search cl Assistant_spec (Some (eq (fieldPath Assistant_spec ''key'') (JStr (text_arg args ''assistantKey'')))) 2 []"
  obtain s0 w0 where s: "?q w = (s0, w0)" by fastforce
  have i0: "inv w0" by (rule inv_after [OF inv_repo(3) assms(3) s])
  have v0: "view w0 = view w" using search_frame [of Assistant_spec _ 2 "[]" w] s by (metis snd_conv)
  from assms(4,5) obtain input child wc where c: "callAssistant cl input w0 = (Inr child, wc)" and wait: "awaited deps args child wc = (Inr oc, w1)"
    and ctx: "ca_context input = context"
    by (auto simp: call_execute_def Let_def refuse_def bindE_def returnE_def assms(1,2) s split: if_splits prod.splits sum.splits list.splits)
  have [simp]: "wc = w1" using awaited_same [OF wait] by simp
  from c obtain a wa bi ref where f: "findAssistant cl (ca_assistantKey input) w0 = (Inr (Some a), wa)"
    and b: "birth cl bi wa = (Inr ref, w1)" and k: "bi_idempotencyKey bi = ctx_idempotencyKey context" and child: "child = thingIdOf ref"
    by (auto simp: callAssistant_def bindE_def returnE_def throwE_def ctx split: prod.splits sum.splits option.splits)
  let ?f = "repo_search cl Assistant_spec (Some (eq (fieldPath Assistant_spec ''key'') (JStr (ca_assistantKey input)))) 2 []"
  have wa: "wa = snd (?f w0) \<or> wa = w0"
    using f by (auto simp: findAssistant_def bindE_def returnE_def split: prod.splits sum.splits if_splits)
  have va: "view wa = view w" and ia: "inv wa" using wa search_frame v0 inv_repo(3) i0 keepsD by metis+
  from b obtain t where cr: "repo_create cl (SPECS Conversation_DM) (birth_fields (cl_now cl wa) bi) wa = (Inr t, w1)" and ref: "ref = docRef t"
    by (auto simp: birth_def io_defs split: prod.splits sum.splits)
  obtain x w2' where fx: "findByIdempotencyKey cl (SPECS Conversation_DM) (ctx_idempotencyKey context) w1 = (x, w2')" by fastforce
  have key: "as_str (pget (birth_fields (cl_now cl wa) bi) ''idempotencyKey'') = Some (ctx_idempotencyKey context)"
    by (simp add: birth_fields_def Let_def as_str_def k)
  from assms(7) fx obtain y where y: "x = Inr y" by (cases x) (auto simp: call_reconcile_def assms(1) bindE_def)
  from create_then_find [OF ia cr key _ fx [unfolded y]] free va obtain z stamp where z: "y = Some z" "thingId z = thingId t" "view w2' = view w1"
    "data z = fromDocument (SPECS Conversation_DM) (toDocument (SPECS Conversation_DM) (with_stamps stamp (birth_fields (cl_now cl wa) bi)))"
    by (auto simp: key_free_def)
  have id: "thingId t = thingIdOf (docRef t)"
    using cr key add_id find_id
    by (auto simp: repo_create_def Let_def bindE_def throwE_def returnE_def split: prod.splits sum.splits option.splits)
  have "resultDeliveredAt (conversation_of (data z)) = None"
    using fresh_child_undelivered [of stamp "cl_now cl wa" bi] z(4) by simp
  with assms(7) fx y z(1) have r: "bindE (awaited deps args (thingId z)) known w2' = (Inr r, w2)"
    by (simp add: call_reconcile_def assms(1) bindE_def truthy_def)
  with wait child ref id z(2,3) show ?thesis
    by (auto simp: awaited_def Let_def io_defs known_def chaseWakeAt_def awaiting_def split: if_splits)
qed

end

end
