(* ===== verification/RowMerging.thy ===== *)
theory RowMerging
  imports Operations
begin

text \<open>
  The merging of rows of a repeating group (\<open>mergeRows\<close> of \<open>operations/implementations.ts\<close>): what it keeps,
  what it takes over, and that doing it twice is doing it once.
\<close>

section \<open>Setting properties twice\<close>

lemma keys_add_prop: "set (map fst (add_prop k v ps)) = insert k (set (map fst ps))"
  by (induction k v ps rule: add_prop.induct) auto

lemma distinct_add_prop: "distinct (map fst ps) \<Longrightarrow> \<not> has_key ps k \<Longrightarrow> distinct (map fst (add_prop k v ps))"
proof (induction ps)
  case (Cons p ps)
  then show ?case using keys_add_prop [of k v ps] by (cases p) (auto simp: has_key_def)
qed simp

lemma keys_map_prop: "map fst (map (\<lambda>(k', v'). if k' = k then (k, v) else (k', v')) ps) = map fst ps"
  by (induction ps) auto

lemma distinct_set_prop: "distinct (map fst ps) \<Longrightarrow> distinct (map fst (set_prop k v ps))"
  by (cases "has_key ps k") (simp_all only: set_prop.simps if_True if_False keys_map_prop distinct_add_prop not_False_eq_True)

lemma has_key_set_prop: "has_key (set_prop k v ps) k' \<longleftrightarrow> k' = k \<or> has_key ps k'"
proof -
  have "set (map fst (set_prop k v ps)) = insert k (set (map fst ps))"
    by (cases "has_key ps k") (simp_all only: set_prop.simps if_True if_False keys_map_prop keys_add_prop,
        auto simp: has_key_def)
  then show ?thesis by (auto simp: has_key_def)
qed

lemma set_prop_same: "has_key ps k \<Longrightarrow> distinct (map fst ps) \<Longrightarrow> pget ps k = v \<Longrightarrow> set_prop k v ps = ps"
proof (induction ps)
  case (Cons p ps)
  obtain k' v' where p: "p = (k', v')" by (cases p)
  show ?case
  proof (cases "k' = k")
    case True
    with Cons.prems p have "k \<notin> set (map fst ps)" "v' = v" by auto
    then have "map (\<lambda>(k', v'). if k' = k then (k, v) else (k', v')) ps = ps" by (induction ps) auto
    with True p \<open>v' = v\<close> show ?thesis by (simp add: set_prop.simps)
  next
    case False
    with Cons p show ?thesis by (auto simp: set_prop.simps)
  qed
qed simp

lemma distinct_spread: "distinct (map fst a) \<Longrightarrow> distinct (map fst (spread a b))"
  by (induction b arbitrary: a) (auto simp: distinct_set_prop)

lemma has_key_spread: "has_key (spread a b) k \<longleftrightarrow> has_key a k \<or> has_key b k"
  by (induction b arbitrary: a) (auto simp: has_key_set_prop)

lemma spread_same:
  "distinct (map fst a) \<Longrightarrow> (\<And>k v. (k, v) \<in> set b \<Longrightarrow> has_key a k \<and> pget a k = v) \<Longrightarrow> spread a b = a"
proof (induction b)
  case (Cons p b)
  obtain k v where p: "p = (k, v)" by (cases p)
  with Cons.prems have "set_prop k v a = a" by (intro set_prop_same) auto
  moreover have "spread a b = a" using Cons.prems by (intro Cons.IH) auto
  ultimately show ?case by (simp add: p)
qed simp

lemma pget_member: "distinct (map fst b) \<Longrightarrow> (k, v) \<in> set b \<Longrightarrow> has_key b k \<and> pget b k = v"
  by (force simp: pget_def has_key_def)

lemma spread_twice:
  assumes "distinct (map fst a)" and "distinct (map fst b)"
  shows "spread (spread a b) b = spread a b"
proof (rule spread_same)
  show "has_key (spread a b) k \<and> pget (spread a b) k = v" if "(k, v) \<in> set b" for k v
    using pget_member [OF assms(2) that] assms(2) by (simp add: has_key_spread pget_spread)
qed (rule distinct_spread [OF assms(1)])

section \<open>Rows with an identity\<close>

definition row_name :: "string \<Rightarrow> json \<Rightarrow> string" where
  "row_name key row = js_string (pget (obj_props row) key)"

definition proper_row :: "string \<Rightarrow> json \<Rightarrow> bool" where
  "proper_row key row \<longleftrightarrow> (\<exists>ps. row = JObj ps \<and> distinct (map fst ps) \<and> pget ps key \<noteq> JUndef)"

lemma proper_prop: "proper_row key row \<Longrightarrow> row_prop row key = Inr (pget (obj_props row) key)"
  by (auto simp: proper_row_def row_prop_def nullish_def)

lemma find_row_proper:
  assumes "list_all (proper_row key) out"
  shows "find_row key identity out = Inr (if js_string identity \<in> set (map (row_name key) out)
    then Some (length (takeWhile (\<lambda>r. row_name key r \<noteq> js_string identity) out)) else None)"
  using assms
proof (induction out)
  case (Cons row rest)
  then have "row_prop row key = Inr (pget (obj_props row) key)" by (simp add: proper_prop)
  with Cons show ?case by (auto simp: row_name_def)
qed simp

definition onto :: "json \<Rightarrow> json \<Rightarrow> json" where
  "onto old new = JObj (spread (obj_props old) (obj_props new))"

definition merged_row :: "string \<Rightarrow> json \<Rightarrow> json list \<Rightarrow> json list" where
  "merged_row key row out = (if row_name key row \<in> set (map (row_name key) out)
     then map (\<lambda>r. if row_name key r = row_name key row then onto r row else r) out else out @ [row])"

lemma update_where:
  assumes "distinct (map f out)" and "x \<in> set (map f out)"
  shows "out[length (takeWhile (\<lambda>r. f r \<noteq> x) out) := g (out ! length (takeWhile (\<lambda>r. f r \<noteq> x) out))]
    = map (\<lambda>r. if f r = x then g r else r) out"
  using assms
proof (induction out)
  case (Cons r rest)
  show ?case
  proof (cases "f r = x")
    case True
    with Cons.prems have "x \<notin> f ` set rest" by auto
    then have "map (\<lambda>r. if f r = x then g r else r) rest = rest" by (intro map_idI) auto
    with True show ?thesis by simp
  next
    case False
    with Cons show ?thesis by simp
  qed
qed simp

lemma merge_row_proper:
  assumes "proper_row key row" and "list_all (proper_row key) out" and "distinct (map (row_name key) out)"
  shows "merge_row key row out = Inr (merged_row key row out)"
proof -
  let ?i = "length (takeWhile (\<lambda>r. row_name key r \<noteq> row_name key row) out)"
  have v: "row_prop row key = Inr (pget (obj_props row) key)" "pget (obj_props row) key \<noteq> JUndef"
    using assms(1) by (auto simp: proper_prop) (auto simp: proper_row_def obj_props_def)
  have s: "spreadable r = obj_props r" if "proper_row key r" for r
    using that by (auto simp: proper_row_def spreadable_def obj_props_def)
  have f: "find_row key (pget (obj_props row) key) out = Inr (if row_name key row \<in> set (map (row_name key) out) then Some ?i else None)"
    using find_row_proper [OF assms(2)] by (simp add: row_name_def)
  show ?thesis
  proof (cases "row_name key row \<in> set (map (row_name key) out)")
    case False
    with v f show ?thesis by (cases "pget (obj_props row) key") (simp_all add: merge_row_def merged_row_def)
  next
    case True
    have "?i < length out" using True by (induction out) auto
    then have "proper_row key (out ! ?i)" using assms(2) by (simp add: list_all_length)
    with True v f assms(1) s have "merge_row key row out = Inr (out[?i := onto (out ! ?i) row])"
      by (cases "pget (obj_props row) key") (simp_all add: merge_row_def onto_def)
    with True update_where [OF assms(3), of "row_name key row" "\<lambda>r. onto r row"] show ?thesis by (simp add: merged_row_def)
  qed
qed

lemma proper_onto:
  assumes "proper_row key old" and "proper_row key new" and "row_name key old = row_name key new"
  shows "proper_row key (onto old new)" "row_name key (onto old new) = row_name key new"
proof -
  obtain a b where o: "old = JObj a" "distinct (map fst a)" and n: "new = JObj b" "distinct (map fst b)" "pget b key \<noteq> JUndef"
    using assms(1,2) by (auto simp: proper_row_def)
  have "pget (spread a b) key = pget b key" using n pget_absent [of b key] by (auto simp: pget_spread)
  with o n show "proper_row key (onto old new)" "row_name key (onto old new) = row_name key new"
    using distinct_spread by (auto simp: proper_row_def onto_def row_name_def obj_props_def)
qed

section \<open>Merging all rows\<close>

fun merged_rows :: "string \<Rightarrow> json list \<Rightarrow> json list \<Rightarrow> json list" where
  "merged_rows key out [] = out"
| "merged_rows key out (row # rest) = merged_rows key (merged_row key row out) rest"

lemma merged_row_names:
  assumes "proper_row key row" and "list_all (proper_row key) out"
  shows "map (row_name key) (merged_row key row out)
      = map (row_name key) out @ (if row_name key row \<in> set (map (row_name key) out) then [] else [row_name key row])"
    and "list_all (proper_row key) (merged_row key row out)"
  using assms proper_onto [OF _ assms(1)] by (auto simp: merged_row_def list_all_iff)

lemma merge_rows_from_proper:
  assumes "list_all (proper_row key) out" and "distinct (map (row_name key) out)" and "list_all (proper_row key) incoming"
  shows "merge_rows_from key out incoming = Inr (merged_rows key out incoming)"
  using assms
proof (induction incoming arbitrary: out)
  case (Cons row rest)
  have m: "merge_row key row out = Inr (merged_row key row out)" using Cons.prems by (intro merge_row_proper) auto
  have "distinct (map (row_name key) (merged_row key row out))" "list_all (proper_row key) (merged_row key row out)"
    using Cons.prems merged_row_names [of key row out] by auto
  with Cons m show ?case by simp
qed simp

lemma merged_rows_proper:
  assumes "list_all (proper_row key) out" and "list_all (proper_row key) incoming" and "distinct (map (row_name key) incoming)"
  shows "list_all (proper_row key) (merged_rows key out incoming) \<and> map (row_name key) (merged_rows key out incoming)
    = map (row_name key) out @ filter (\<lambda>n. n \<notin> set (map (row_name key) out)) (map (row_name key) incoming)"
  using assms
proof (induction incoming arbitrary: out)
  case (Cons row rest)
  note one = merged_row_names [of key row out]
  have "list_all (proper_row key) (merged_row key row out)" using Cons.prems one by simp
  moreover have "filter (\<lambda>n. n \<notin> set (map (row_name key) (merged_row key row out))) (map (row_name key) rest)
      = filter (\<lambda>n. n \<notin> set (map (row_name key) out)) (map (row_name key) rest)"
  proof (rule filter_cong [OF refl])
    fix n assume "n \<in> set (map (row_name key) rest)"
    with Cons.prems(3) have "n \<noteq> row_name key row" by (metis distinct.simps(2) list.simps(9))
    with one(1) Cons.prems show "(n \<notin> set (map (row_name key) (merged_row key row out))) = (n \<notin> set (map (row_name key) out))"
      by simp
  qed
  ultimately show ?case using Cons.IH [of "merged_row key row out"] Cons.prems one(1) by simp
qed simp

text \<open>A row nothing was supplied for stays; a supplied row is laid over the one of its name, or added.\<close>

lemma merged_rows_members:
  assumes "list_all (proper_row key) out" and "list_all (proper_row key) incoming" and "distinct (map (row_name key) incoming)"
  shows "(\<forall>old \<in> set out. row_name key old \<notin> set (map (row_name key) incoming) \<longrightarrow> old \<in> set (merged_rows key out incoming)) \<and>
    (\<forall>new \<in> set incoming. row_name key new \<notin> set (map (row_name key) out) \<longrightarrow> new \<in> set (merged_rows key out incoming)) \<and>
    (\<forall>old \<in> set out. \<forall>new \<in> set incoming. row_name key old = row_name key new \<longrightarrow> onto old new \<in> set (merged_rows key out incoming))"
  using assms
proof (induction incoming arbitrary: out)
  case (Cons row rest)
  let ?out = "merged_row key row out"
  note one = merged_row_names [of key row out]
  have p: "list_all (proper_row key) ?out" using Cons.prems one by simp
  have names: "set (map (row_name key) ?out) = insert (row_name key row) (set (map (row_name key) out))"
    using one Cons.prems by auto
  have kept: "old \<in> set ?out" if "old \<in> set out" "row_name key old \<noteq> row_name key row" for old
    using that by (auto simp: merged_row_def)
  have laid: "onto old row \<in> set ?out" if "old \<in> set out" "row_name key old = row_name key row" for old
    using that by (auto simp: merged_row_def image_iff)
  have added: "row \<in> set ?out" if "row_name key row \<notin> set (map (row_name key) out)"
    using that by (simp add: merged_row_def)
  have name: "row_name key (onto old row) = row_name key row" if "old \<in> set out" "row_name key old = row_name key row" for old
    using proper_onto(2) [of key old row] that Cons.prems by (auto simp: list_all_iff)
  have fresh: "row_name key row \<notin> set (map (row_name key) rest)" using Cons.prems(3) by simp
  note ih = Cons.IH [OF p] Cons.prems
  show ?case
  proof (intro conjI ballI impI)
    fix old assume "old \<in> set out" "row_name key old \<notin> set (map (row_name key) (row # rest))"
    with kept [of old] ih show "old \<in> set (merged_rows key out (row # rest))" by auto
  next
    fix new assume n: "new \<in> set (row # rest)" "row_name key new \<notin> set (map (row_name key) out)"
    show "new \<in> set (merged_rows key out (row # rest))"
    proof (cases "new = row")
      case True
      with added n fresh ih show ?thesis by auto
    next
      case False
      with n have "new \<in> set rest" by simp
      moreover from this fresh have "row_name key new \<noteq> row_name key row" by (metis image_eqI set_map)
      ultimately show ?thesis using n(2) names ih by auto
    qed
  next
    fix old new assume n: "old \<in> set out" "new \<in> set (row # rest)" "row_name key old = row_name key new"
    show "onto old new \<in> set (merged_rows key out (row # rest))"
    proof (cases "new = row")
      case True
      with n laid [of old] name [of old] fresh ih show ?thesis by auto
    next
      case False
      with n have "new \<in> set rest" by simp
      moreover from this fresh n(3) have "row_name key old \<noteq> row_name key row" by (metis image_eqI set_map)
      ultimately show ?thesis using n kept [of old] ih by auto
    qed
  qed
qed simp

text \<open>Rows that already carry everything supplied for them are left as they are.\<close>

definition carries :: "json \<Rightarrow> json \<Rightarrow> bool" where
  "carries row new \<longleftrightarrow> onto row new = row"

lemma merged_rows_same:
  assumes "\<And>new. new \<in> set incoming \<Longrightarrow> \<exists>row \<in> set out. row_name key row = row_name key new"
    and "\<And>new row. new \<in> set incoming \<Longrightarrow> row \<in> set out \<Longrightarrow> row_name key row = row_name key new \<Longrightarrow> carries row new"
  shows "merged_rows key out incoming = out"
  using assms
proof (induction incoming)
  case (Cons row rest)
  have "map (\<lambda>r. if row_name key r = row_name key row then onto r row else r) out = out"
    using Cons.prems(2) [of row] by (intro map_idI) (auto simp: carries_def)
  moreover have "row_name key row \<in> set (map (row_name key) out)" using Cons.prems(1) [of row] by (metis imageI list.set_intros(1) set_map)
  ultimately have "merged_row key row out = out" by (simp add: merged_row_def)
  with Cons show ?case by simp
qed simp

lemma carries_onto: "proper_row key old \<Longrightarrow> proper_row key new \<Longrightarrow> carries (onto old new) new"
  by (auto simp: carries_def onto_def proper_row_def obj_props_def spread_twice)

lemma carries_self: "proper_row key row \<Longrightarrow> carries row row"
proof -
  assume "proper_row key row"
  then obtain ps where ps: "row = JObj ps" "distinct (map fst ps)" by (auto simp: proper_row_def)
  have "spread ps ps = ps" using pget_member [OF ps(2)] by (intro spread_same ps(2)) simp
  with ps show ?thesis by (simp add: carries_def onto_def obj_props_def)
qed

lemma merged_rows_twice:
  assumes "list_all (proper_row key) out" and "distinct (map (row_name key) out)"
    and "list_all (proper_row key) incoming" and "distinct (map (row_name key) incoming)"
  shows "merged_rows key (merged_rows key out incoming) incoming = merged_rows key out incoming"
proof (rule merged_rows_same)
  let ?m = "merged_rows key out incoming"
  note proper = merged_rows_proper [OF assms(1,3,4)] and members = merged_rows_members [OF assms(1,3,4)]
  have "distinct (map (row_name key) ?m)" using proper assms(2,4) by auto
  then have unique: "r = r'" if "r \<in> set ?m" "r' \<in> set ?m" "row_name key r = row_name key r'" for r r'
    using that by (auto simp: distinct_map dest: inj_onD)
  show "\<exists>row \<in> set ?m. row_name key row = row_name key new" if "new \<in> set incoming" for new
  proof -
    have "row_name key new \<in> set (map (row_name key) ?m)" using proper that by auto
    then show ?thesis by auto
  qed
  show "carries row new" if n: "new \<in> set incoming" "row \<in> set ?m" "row_name key row = row_name key new" for new row
  proof (cases "row_name key new \<in> set (map (row_name key) out)")
    case True
    then obtain old where o: "old \<in> set out" "row_name key old = row_name key new" by auto
    then have "onto old new \<in> set ?m" using members n(1) by blast
    moreover have "proper_row key old" "proper_row key new" using o n(1) assms(1,3) by (auto simp: list_all_iff)
    ultimately have "row = onto old new" using unique n proper_onto(2) [of key old new] o by metis
    with carries_onto [OF \<open>proper_row key old\<close> \<open>proper_row key new\<close>] show ?thesis by simp
  next
    case False
    then have "new \<in> set ?m" using members n(1) by blast
    then have "row = new" using unique n by blast
    with carries_self [of key new] n(1) assms(3) show ?thesis by (auto simp: list_all_iff)
  qed
qed

end
