(* ===== verification/OperationProperties.thy ===== *)
theory OperationProperties
  imports OperationFacts RowMerging StoreProperties
begin

text \<open>
  What the built-in Operations promise (\<open>runtime/src/operations/implementations.ts\<close>): the Things they may
  touch, the recovery of an interrupted call, the merging of rows, and the readers of Documents.
\<close>

section \<open>Operations over the store in memory\<close>

definition mem_operations :: "mem_store operation_deps" where
  "mem_operations = wired memory_client (\<lambda>i. returnE ''scan'') NULL_VISION_READER (2, 100)
     (\<lambda>bytes. Inl (JsError ''Error'' ''not a pdf''))"

definition acting :: "string \<Rightarrow> op_context" where
  "acting k = \<lparr>ctx_conversation = \<lparr>docRef = ''Conversation_DM/c'', thingId = ''c'', model = ''Conversation_DM'', data = blank_conversation\<rparr>,
     ctx_assistant = \<lparr>docRef = ''Assistant_DM/a'', thingId = ''a'', model = ''Assistant_DM'', data = assistant_of [(''key'', JStr ''clerk'')]\<rparr>,
     ctx_idempotencyKey = k\<rparr>"

definition new_letter :: json where
  "new_letter = JObj [(''model'', JStr ''Document_DM''), (''fields'', JObj [(''title'', JStr ''letter'')])]"

lemma mem_operations_fields [simp]:
  "od_things mem_operations = memory_client" "od_content mem_operations = Some (\<lambda>i. returnE ''scan'')"
  "od_vision mem_operations = Some NULL_VISION_READER" "od_limits mem_operations = Some (2, 100)"
  "over_store memory_client mem_operations"
  by (simp_all add: mem_operations_def wired_def over_store_def)

lemma mem_contents: "contents_elsewhere store_view store_ok mem_operations"
  by (simp add: contents_elsewhere_def elsewhere_def NULL_VISION_READER_def returnE_def throwE_def)

lemma new_letter_values:
  "text_arg new_letter ''model'' = ''Document_DM''" "''Document_DM'' \<in> set WRITABLE_MODELS"
  "specFor ''Document_DM'' = Inr (SPECS Document_DM)" "check_key (SPECS Document_DM) ''k'' = Inr ()"
  "as_str (pget (create_fields new_letter (acting ''k'')) ''idempotencyKey'') = Some ''k''"
  "ctx_idempotencyKey (acting ''k'') = ''k''" "made_by ''thingstore.create'' new_letter = Some Document_DM"
  by code_simp+

lemma letter_created:
  "\<exists>t w'. create_execute mem_operations new_letter (acting ''k'') (empty_store 0)
     = (Inr (created_value ''Document_DM'' t), w') \<and> failNextAdd w' = None"
proof -
  obtain t w' where "repo_create memory_client (SPECS Document_DM) (create_fields new_letter (acting ''k'')) (empty_store 0) = (Inr t, w')"
    "failNextAdd w' = None"
    using mem_create_total [OF _ new_letter_values(5,4), of "empty_store 0"] by (auto simp: empty_store_def)
  then have "create_execute mem_operations new_letter (acting ''k'') (empty_store 0)
     = (Inr (created_value ''Document_DM'' (thingId t)), w') \<and> failNextAdd w' = None"
    by (simp add: create_execute_def Let_def new_letter_values with_spec_def io_defs)
  then show ?thesis by blast
qed

lemma create_listed:
  "thingstoreCreate deps \<in> set (buildOperations deps)" "i_execute (thingstoreCreate deps) = create_execute deps"
  "i_reconcile (thingstoreCreate deps) = Some (create_reconcile deps)" "i_name (thingstoreCreate deps) = ''thingstore.create''"
  by (simp_all add: buildOperations_def thingstoreCreate_def)

section \<open>What an Operation may touch\<close>

text \<open>
  C6. No built-in Operation reaches the machinery. However it is called, a call that returns leaves the
  ThingStore as it was but for one Thing: a new one of the household Models, a question or a Conversation,
  or one Thing of the household edited, whose idempotency key, provenance and creation time stay as they are
  and whose other root groups too. An Operation that is not declared mutating changes nothing.
\<close>

theorem operations_keep_off_the_machinery:
  assumes "thing_client cl view ok" and "ok w" and "over_store cl deps" and "contents_elsewhere view ok deps"
    and "imp \<in> set (buildOperations deps)" and "i_execute imp args context w = (Inr oc, w')"
  shows "household (view w) (view w') \<and> (\<not> i_mutating imp \<longrightarrow> view w' = view w)"
  using thing_client.operation_effect [OF assms(1,3,4,2,5,6)] .

theorem operations_keep_off_the_machinery_witness:
  "\<exists>oc w'. i_execute (thingstoreCreate mem_operations) new_letter (acting ''k'') (empty_store 0) = (Inr oc, w') \<and>
     household (store_view (empty_store 0)) (store_view w')"
proof -
  obtain oc w' where run: "i_execute (thingstoreCreate mem_operations) new_letter (acting ''k'') (empty_store 0) = (Inr oc, w')"
    using letter_created by (auto simp: create_listed)
  from operations_keep_off_the_machinery [OF mem.thing_client_axioms store_ok_empty _ mem_contents create_listed(1) run] run
  show ?thesis by simp
qed

section \<open>Recovery\<close>

text \<open>
  C23. An interrupted call is recovered as what it did. When a call that makes a Thing under its key - a
  created Thing, a question, a called Conversation - has run in a ThingStore where that key was free, the
  reconciliation of the call changes nothing and returns the outcome of the call itself.
\<close>

theorem recovery_finds_the_effect:
  assumes "thing_client cl view ok" and "ok w" and "over_store cl deps" and "imp \<in> set (buildOperations deps)"
    and "i_execute imp args context w = (Inr oc, w1)" and "\<And>e. oc \<noteq> OError e"
    and "made_by (i_name imp) args = Some m" and "key_free (view w) m (ctx_idempotencyKey context)"
    and "i_reconcile imp = Some look_back" and "look_back args context w1 = (Inr r, w2)"
  shows "view w2 = view w1 \<and> (\<exists>oc'. r = Some oc' \<and> same_outcome oc oc')"
proof -
  have dt: "od_things deps = cl" and dr: "od_raiseQuestion deps = raise_for_operation cl" and dc: "od_callAssistant deps = callAssistant cl"
    using assms(3) by (simp_all add: over_store_def)
  note run = assms(5) and made = assms(7) and again = assms(9,10)
  show ?thesis
    using assms(4)
  proof (cases rule: operation_cases)
    case create
    with made have m: "find (\<lambda>t. model_name t = text_arg args ''model'') ALL_MODELS = Some m"
      by (simp add: made_by_def thingstoreCreate_def)
    have "create_reconcile deps args context w1 = (Inr r, w2)" using create(3) again by simp
    from thing_client.create_recovered [OF assms(1) dt assms(2) run [unfolded create(2)] m assms(8,6) this] show ?thesis by simp
  next
    case ask
    with made have m: "m = OpenQuestion_DM" by (simp add: made_by_def askUser_def)
    from run [unfolded ask(2)] assms(6) obtain input q where q: "raise_for_operation cl input w = (Inr q, w1)"
      "oc = asked_of_user WF_User q" "ri_context input = context"
      by (auto simp: ask_execute_def Let_def refuse_def dr bindE_def returnE_def split: if_splits prod.splits sum.splits)
    have "question_reconcile deps WF_User ''answered'' args (ri_context input) w1 = (Inr r, w2)" using ask(3) again q(3) by simp
    from thing_client.question_recovered [OF assms(1) dt assms(2) q(1) _ this] assms(8) q m show ?thesis by simp
  next
    case (manual_connector render)
    with made have m: "m = OpenQuestion_DM"
      by (auto simp: made_by_def requestText_def emailSend_def emailFetch_def bankSendMoney_def manualConnector_def)
    from run [unfolded manual_connector(2)] obtain input q where q: "raise_for_operation cl input w = (Inr q, w1)"
      "oc = asked_of_user WF_Tool q" "ri_context input = context"
      by (auto simp: manual_execute_def dr bindE_def returnE_def split: prod.splits sum.splits)
    have "question_reconcile deps WF_Tool ''done'' args (ri_context input) w1 = (Inr r, w2)" using manual_connector(3) again q(3) by simp
    from thing_client.question_recovered [OF assms(1) dt assms(2) q(1) _ this] assms(8) q m show ?thesis by simp
  next
    case call
    with made have m: "m = Conversation_DM" by (simp add: made_by_def assistantCall_def)
    have "call_reconcile deps args context w1 = (Inr r, w2)" using call(3) again by simp
    from thing_client.call_recovered [OF assms(1) dt dc assms(2) run [unfolded call(2)] assms(6) assms(8) [unfolded m] this]
    show ?thesis .
  next
    case get_thing with made show ?thesis by (simp add: made_by_def thingstoreGet_def)
  next
    case update with made show ?thesis by (simp add: made_by_def thingstoreUpdate_def)
  next
    case search with made show ?thesis by (simp add: made_by_def thingstoreSearch_def)
  next
    case layer with made show ?thesis by (simp add: made_by_def extractText_def)
  next
    case scan with made show ?thesis by (simp add: made_by_def readScan_def)
  next
    case receive with made show ?thesis by (simp add: made_by_def emailReceive_def)
  qed
qed

lemma mem_find_total:
  "check_key spec k = Inr u \<Longrightarrow> \<exists>r. findByIdempotencyKey memory_client spec k w = (Inr r, w)"
  by (simp add: findByIdempotencyKey_def repo_search_def memory_client_def mem_defs io_defs split: list.split)

theorem recovery_finds_the_effect_witness:
  "\<exists>t w1 w2. create_execute mem_operations new_letter (acting ''k'') (empty_store 0) = (Inr (created_value ''Document_DM'' t), w1) \<and>
     create_reconcile mem_operations new_letter (acting ''k'') w1 = (Inr (Some (created_value ''Document_DM'' t)), w2)"
proof -
  obtain t w1 where run: "create_execute mem_operations new_letter (acting ''k'') (empty_store 0) = (Inr (created_value ''Document_DM'' t), w1)"
    using letter_created by blast
  have "\<exists>r. create_reconcile mem_operations new_letter (acting ''k'') w1 = (Inr r, w1)"
    using mem_find_total [OF new_letter_values(4), of w1]
    by (auto simp: create_reconcile_def Let_def new_letter_values with_spec_def known_def io_defs)
  then obtain r where again: "create_reconcile mem_operations new_letter (acting ''k'') w1 = (Inr r, w1)" by blast
  have free: "key_free (store_view (empty_store 0)) Document_DM (ctx_idempotencyKey (acting ''k''))"
    by (simp add: key_free_def store_view_def empty_store_def)
  from recovery_finds_the_effect [of memory_client store_view store_ok, OF mem.thing_client_axioms store_ok_empty _ create_listed(1) _ _ _ free create_listed(3) again] run again
  show ?thesis by (auto simp: create_listed new_letter_values created_value_def)
qed

section \<open>Rows of a repeating group\<close>



text \<open>A row that does not name itself is appended each time: such an update applied twice is not applied once.\<close>

lemma nameless_row_appended_again:
  "row_prop row ''seq'' = Inr JUndef \<Longrightarrow>
     mergeRows ''steps'' (JArr old) (JArr [row]) = Inr (old @ [row]) \<and>
     mergeRows ''steps'' (JArr (old @ [row])) (JArr [row]) = Inr (old @ [row, row])"
  by (simp add: mergeRows_def array_or_none_def GROUP_ROW_KEYS_def merge_row_def)

section \<open>Readers of Documents\<close>

text \<open>
  A reader writes only where nothing is written. Reading the text layer of a Document or its scan changes
  the text of that one Document and nothing else, and only when the Document had no text or its replacement
  was asked for.
\<close>

theorem readers_fill_blank_text:
  assumes "thing_client cl view ok" and "over_store cl deps" and "contents_elsewhere view ok deps"
    and "imp = extractText deps \<or> imp = readScan deps" and "i_execute imp args context w = (Inr oc, w')"
  shows "view w' = view w \<or> text_filled args (view w) (view w')"
proof -
  have "od_things deps = cl" using assms(2) by (simp add: over_store_def)
  note fills = thing_client.reader_fills [OF assms(1) this assms(3)]
  from assms(4) show ?thesis
  proof
    assume "imp = extractText deps"
    with assms(5) have "extract_execute deps args context w = (Inr oc, w')" by (simp add: extractText_def)
    then show ?thesis by (rule fills(1))
  next
    assume "imp = readScan deps"
    with assms(5) have "scan_execute deps args context w = (Inr oc, w')" by (simp add: readScan_def)
    then show ?thesis by (rule fills(2))
  qed
qed

theorem readers_fill_blank_text_witness:
  "\<exists>oc w'. i_execute (readScan mem_operations) (JObj []) (acting ''k'') (empty_store 0) = (Inr oc, w') \<and>
     (store_view w' = store_view (empty_store 0) \<or> text_filled (JObj []) (store_view (empty_store 0)) (store_view w'))"
proof -
  obtain oc w' where run: "i_execute (readScan mem_operations) (JObj []) (acting ''k'') (empty_store 0) = (Inr oc, w')"
    by (auto simp: readScan_def scan_execute_def NULL_VISION_READER_def value_of_def returnE_def)
  from readers_fill_blank_text [OF mem.thing_client_axioms _ mem_contents _ run] run show ?thesis by simp
qed

text \<open>
  C38. A scan is sent to the vision model only within the caps. Two vision models that answer alike to
  attachments of at most the permitted size and number of pages give every call of document.readScan the
  same outcome in the same ThingStore, whatever they would have done with larger ones.
\<close>

theorem scans_stay_within_caps:
  assumes "od_limits deps = Some (maxPages, maxBytes)" and "v_available reader = v_available reader'"
    and "\<And>bytes n. int (length bytes) \<le> maxBytes \<Longrightarrow> int n \<le> maxPages \<Longrightarrow> v_read reader bytes n = v_read reader' bytes n"
  shows "i_execute (readScan (deps\<lparr>od_vision := Some reader\<rparr>)) args context
    = i_execute (readScan (deps\<lparr>od_vision := Some reader'\<rparr>)) args context"
proof -
  have "scan_bytes (deps\<lparr>od_vision := Some reader\<rparr>) reader ref bytes = scan_bytes (deps\<lparr>od_vision := Some reader'\<rparr>) reader' ref bytes"
    for ref bytes
    using assms(3) by (simp add: scan_bytes_def assms(1) store_text_def split: option.split)
  then have "scan_bytes (deps\<lparr>od_vision := Some reader\<rparr>) reader = scan_bytes (deps\<lparr>od_vision := Some reader'\<rparr>) reader'"
    by (simp add: fun_eq_iff)
  moreover have "with_attachment (deps\<lparr>od_vision := v\<rparr>) args k = with_attachment deps args k" for v k
  proof -
    have "documentToRead (deps\<lparr>od_vision := v\<rparr>) = documentToRead deps"
      by (simp add: fun_eq_iff documentToRead_def Let_def)
    moreover have "attachmentBytes (deps\<lparr>od_vision := v\<rparr>) = attachmentBytes deps"
      by (simp add: fun_eq_iff attachmentBytes_def cong: option.case_cong)
    ultimately show ?thesis unfolding with_attachment_def by (simp only:)
  qed
  ultimately show ?thesis using assms(2) by (simp add: readScan_def scan_execute_def)
qed

definition scan_answer :: vision_result where
  "scan_answer = \<lparr>vr_text = ''text'', vr_usage = None\<rparr>"

definition eager_reader :: "mem_store vision_reader" where
  "eager_reader = \<lparr>v_available = True, v_name = ''eager'', v_read = (\<lambda>bytes n. returnE scan_answer)\<rparr>"

definition capped_reader :: "mem_store vision_reader" where
  "capped_reader = \<lparr>v_available = True, v_name = ''capped'', v_read = (\<lambda>bytes n.
     if length bytes \<le> 100 \<and> n \<le> 2 then returnE scan_answer else throwE (JsError ''Error'' ''too much to read''))\<rparr>"

theorem scans_stay_within_caps_witness:
  "i_execute (readScan (mem_operations\<lparr>od_vision := Some eager_reader\<rparr>)) new_letter (acting ''k'')
     = i_execute (readScan (mem_operations\<lparr>od_vision := Some capped_reader\<rparr>)) new_letter (acting ''k'')"
  by (rule scans_stay_within_caps [of mem_operations 2 100]) (simp_all add: eager_reader_def capped_reader_def)

section \<open>Where the code falls short\<close>

text \<open>
  The creation time of a created Thing is whatever text the Assistant puts among its fields, unlike its key
  and its provenance, and unlike an update, which drops it.
\<close>

lemma creation_time_as_given:
  assumes "thing_client cl view ok" and "ok w" and "od_things deps = cl"
    and "create_execute deps args context w = (Inr oc, w1)" and "\<And>e. oc \<noteq> OError e"
    and "text_arg args ''model'' = model_name m" and "key_free (view w) m (ctx_idempotencyKey context)"
    and "pget (spreadable (given_fields args)) ''createdAt'' = JStr s"
    and "findByIdempotencyKey cl (SPECS m) (ctx_idempotencyKey context) w1 = (Inr r, w2)"
  shows "\<exists>t. r = Some t \<and> pget (data t) ''createdAt'' = JStr s"
proof -
  from assms(3-6) obtain t where c: "repo_create cl (SPECS m) (create_fields args context) w = (Inr t, w1)"
    by (auto simp: create_execute_def Let_def refuse_def with_spec_def bindE_def returnE_def split: prod.splits sum.splits if_splits)
  have k: "as_str (pget (create_fields args context) ''idempotencyKey'') = Some (ctx_idempotencyKey context)"
    by (simp add: create_fields_def pget_spread as_str_def)
  have at: "pget (with_stamps stamp (create_fields args context)) ''createdAt'' = JStr s" for stamp
    using assms(8) by (simp add: with_stamps_def create_fields_def pget_spread)
  obtain b where "(''createdAt'', b) \<in> set (ms_fields (SPECS m))" by (cases m) (auto simp: spec_defs MACHINE_FIELDS_def)
  from stored_field [OF wf_SPECS this] at thing_client.create_then_find [OF assms(1,2) c k _ assms(9)] assms(7)
  show ?thesis by (auto simp: key_free_def)
qed

text \<open>The check that a search names a field of its Model lets the names through that every object inherits.\<close>

lemma inherited_name_searched:
  "search_refusal (SPECS m) (model_name m) 25 (Some ''constructor'') ''x'' = None"
  by (cases m) (simp_all add: search_refusal_def spec_field_def inherited_text_def EXACT_MATCH_MAX_LENGTH_def PAGE_SIZE_MAX_def
      split: option.split)

end
