(* ===== verification/Firefly.thy ===== *)
theory Firefly
  imports Numbers MemoryStore Schedule
begin

text \<open>
  The bookkeeping Connector (\<open>runtime/src/connectors/firefly.ts\<close>): the chart of accounts and the
  categories it resolves names in, the posting of a transaction under a key, and the reading of balances,
  transactions, open items and budgets. The HTTP client and the file of the token are parameters. The state
  keeps, besides the caches, the requests that were sent with their answers, in order.
\<close>

section \<open>Requests\<close>

record http_response =
  hr_status :: int
  hr_text :: string

record firefly_error =
  fe_message :: string
  fe_status :: int
  fe_details :: json

record exchange =
  ex_method :: string
  ex_path :: string
  ex_body :: json
  ex_answer :: "firefly_error + json"

record firefly_account =
  acc_id :: json
  acc_name :: string
  acc_type :: string
  acc_balance :: json
  acc_currency :: json

record 'w firefly_deps =
  ff_baseUrl :: string
  ff_tokenFile :: "string option"
  ff_uiBaseUrl :: string
  ff_fetch :: "string \<Rightarrow> string \<Rightarrow> string option \<Rightarrow> json \<Rightarrow> ('w, http_response) io"
  ff_readFile :: "string \<Rightarrow> ('w, string) io"
  ff_today :: "'w \<Rightarrow> string"

record 'w books =
  bk_accounts :: "firefly_account list option"
  bk_categories :: "(json \<times> string) list option"
  bk_token :: string
  bk_world :: 'w
  bk_exchanges :: "exchange list"

definition INTERNAL_ACCOUNT_TYPES :: "string list" where
  "INTERNAL_ACCOUNT_TYPES = [''initial-balance'', ''reconciliation'', ''import'']"

definition isBookable :: "string \<Rightarrow> bool" where
  "isBookable kind \<longleftrightarrow> toLowerCase kind \<notin> set INTERNAL_ACCOUNT_TYPES"

definition thrown_error :: "firefly_error \<Rightarrow> js_error" where
  "thrown_error e = JsError ''FireflyError'' (fe_message e)"

definition at_firefly :: "('w, 'a) io \<Rightarrow> ('w books, 'a) io" where
  "at_firefly m = (\<lambda>s. case m (bk_world s) of (r, w) \<Rightarrow> (r, s\<lparr>bk_world := w\<rparr>))"

definition no_token :: "string \<Rightarrow> firefly_error" where
  "no_token message = \<lparr>fe_message = message, fe_status = 0, fe_details = JUndef\<rparr>"

definition resolveToken :: "'w firefly_deps \<Rightarrow> ('w books, firefly_error + string) io" where
  "resolveToken deps = bindE (getE bk_token) (\<lambda>token.
     if token \<noteq> [] then returnE (Inr token)
     else if truthy (ff_tokenFile deps) then
       bindE (attemptE (at_firefly (ff_readFile deps (coalesce (ff_tokenFile deps) [])))) (\<lambda>r. case r of
         Inl e \<Rightarrow> returnE (Inl (no_token (''No Firefly token available ('' @ coalesce (ff_tokenFile deps) [] @ ''): '' @ error_string e)))
       | Inr contents \<Rightarrow> bindE (modifyE (\<lambda>s. s\<lparr>bk_token := trim contents\<rparr>)) (\<lambda>_.
           returnE (if trim contents = [] then Inl (no_token ''No Firefly token configured'') else Inr (trim contents))))
     else returnE (Inl (no_token ''No Firefly token configured'')))"

definition safeJson :: "string \<Rightarrow> json" where
  "safeJson text = (case json_parse text of Some v \<Rightarrow> v | None \<Rightarrow> JObj [(''message'', JStr (take 400 text))])"

definition answer_of :: "http_response \<Rightarrow> firefly_error + json" where
  "answer_of response =
     (let payload = (if hr_text response = [] then JUndef else safeJson (hr_text response)) in
      if 200 \<le> hr_status response \<and> hr_status response \<le> 299 then Inr payload
      else Inl \<lparr>fe_message = text_of (''Firefly HTTP '' @ string_of_int (hr_status response)) (pget (obj_props payload) ''message''),
        fe_status = hr_status response, fe_details = payload\<rparr>)"

text \<open>
  A \<open>FireflyError\<close> is a value, for the callers that look into it. A request that got an answer is recorded;
  one the network lost throws.
\<close>

definition call_firefly :: "'w firefly_deps \<Rightarrow> string \<Rightarrow> string \<Rightarrow> json \<Rightarrow> ('w books, firefly_error + json) io" where
  "call_firefly deps method route body =
     bindE (resolveToken deps) (\<lambda>token. case token of
       Inl e \<Rightarrow> returnE (Inl e)
     | Inr t \<Rightarrow>
         bindE (at_firefly (ff_fetch deps method (strip_slashes (ff_baseUrl deps) @ ''/api/v1'' @ route) (Some t) body)) (\<lambda>response.
         bindE (modifyE (\<lambda>s. s\<lparr>bk_exchanges := bk_exchanges s @
             [\<lparr>ex_method = method, ex_path = route, ex_body = body, ex_answer = answer_of response\<rparr>]\<rparr>)) (\<lambda>_.
           returnE (answer_of response))))"

definition call :: "'w firefly_deps \<Rightarrow> string \<Rightarrow> string \<Rightarrow> json \<Rightarrow> ('w books, json) io" where
  "call deps method route body = bindE (call_firefly deps method route body) (\<lambda>r. case r of
     Inl e \<Rightarrow> throwE (thrown_error e) | Inr payload \<Rightarrow> returnE payload)"

text \<open>The \<open>data\<close> of an answer, as the array it is, or as an object.\<close>

definition data_of :: "json \<Rightarrow> json result" where
  "data_of payload = row_prop payload ''data''"

definition data_rows :: "json \<Rightarrow> json list result" where
  "data_rows payload = bindR (data_of payload) (array_items ''data.data'')"

section \<open>The chart of accounts\<close>

definition account_of :: "json \<Rightarrow> firefly_account result" where
  "account_of row = bindR (row_prop row ''id'') (\<lambda>i. bindR (row_prop row ''attributes'') (\<lambda>attributes.
     bindR (row_prop attributes ''name'') (\<lambda>name. Inr \<lparr>acc_id = i, acc_name = text_of [] name,
       acc_type = text_of [] (pget (obj_props attributes) ''type''),
       acc_balance = pget (obj_props attributes) ''current_balance'',
       acc_currency = pget (obj_props attributes) ''currency_code''\<rparr>)))"

definition accounts_of :: "json \<Rightarrow> firefly_account list result" where
  "accounts_of payload = bindR (data_rows payload) (\<lambda>items. bindR (mapR account_of items) (\<lambda>accounts.
     Inr (filter (\<lambda>a. isBookable (acc_type a)) accounts)))"

definition listAccounts :: "'w firefly_deps \<Rightarrow> bool \<Rightarrow> ('w books, firefly_account list) io" where
  "listAccounts deps refresh = bindE (getE bk_accounts) (\<lambda>cached.
     if cached \<noteq> None \<and> \<not> refresh then returnE (coalesce cached [])
     else bindE (call deps ''GET'' ''/accounts?limit=200'' JUndef) (\<lambda>payload.
          bindE (liftR (accounts_of payload)) (\<lambda>accounts.
          bindE (modifyE (\<lambda>s. s\<lparr>bk_accounts := Some accounts\<rparr>)) (\<lambda>_. returnE accounts))))"

definition ambiguous :: "string \<Rightarrow> firefly_account list \<Rightarrow> firefly_error" where
  "ambiguous name candidates = \<lparr>fe_message = ''The account name '' @ quoted name @ '' is ambiguous '' @ [CHR 0xE2, CHR 0x80, CHR 0x94]
       @ '' it matches '' @ join '' and '' (map (\<lambda>a. quoted (acc_name a) @ '' ['' @ acc_type a @ '']'') candidates)
       @ ''. Use the exact name as it appears in the chart of accounts.'',
     fe_status = 409, fe_details = JUndef\<rparr>"

definition pick_account :: "string \<Rightarrow> firefly_account list \<Rightarrow> firefly_account option result" where
  "pick_account name accounts =
     (case filter (\<lambda>a. acc_name a = name) accounts of
        [a] \<Rightarrow> Inr (Some a)
      | a # b # cs \<Rightarrow> Inl (thrown_error (ambiguous name (a # b # cs)))
      | [] \<Rightarrow> (case filter (\<lambda>a. toLowerCase (acc_name a) = toLowerCase (trim name)) accounts of
          [a] \<Rightarrow> Inr (Some a)
        | a # b # cs \<Rightarrow> Inl (thrown_error (ambiguous name (a # b # cs)))
        | [] \<Rightarrow> Inr None))"

definition no_account :: "string \<Rightarrow> firefly_account list \<Rightarrow> firefly_error" where
  "no_account name accounts = \<lparr>fe_message = ''No account named '' @ quoted name @ ''. Existing accounts: ''
     @ join '', '' (map acc_name accounts), fe_status = 404, fe_details = JUndef\<rparr>"

definition resolveAccountId :: "'w firefly_deps \<Rightarrow> string \<Rightarrow> ('w books, json) io" where
  "resolveAccountId deps name =
     bindE (listAccounts deps False) (\<lambda>accounts.
     bindE (liftR (pick_account name accounts)) (\<lambda>found. case found of
       Some a \<Rightarrow> returnE (acc_id a)
     | None \<Rightarrow>
         bindE (listAccounts deps True) (\<lambda>refreshed.
         bindE (liftR (pick_account name refreshed)) (\<lambda>retry. case retry of
           Some a \<Rightarrow> returnE (acc_id a)
         | None \<Rightarrow> throwE (thrown_error (no_account name refreshed))))))"

definition currencyOf :: "'w firefly_deps \<Rightarrow> string \<Rightarrow> ('w books, string option) io" where
  "currencyOf deps name = bindE (resolveAccountId deps name) (\<lambda>i. bindE (listAccounts deps False) (\<lambda>accounts.
     returnE (case find (\<lambda>a. acc_id a = i) accounts of None \<Rightarrow> None | Some a \<Rightarrow> as_str (acc_currency a))))"

section \<open>Categories\<close>

definition category_of :: "json \<Rightarrow> (json \<times> string) result" where
  "category_of row = bindR (row_prop row ''id'') (\<lambda>i. bindR (row_prop row ''attributes'') (\<lambda>attributes.
     bindR (row_prop attributes ''name'') (\<lambda>name. Inr (i, text_of [] name))))"

definition listCategories :: "'w firefly_deps \<Rightarrow> bool \<Rightarrow> ('w books, (json \<times> string) list) io" where
  "listCategories deps refresh = bindE (getE bk_categories) (\<lambda>cached.
     if cached \<noteq> None \<and> \<not> refresh then returnE (coalesce cached [])
     else bindE (call deps ''GET'' ''/categories?limit=200'' JUndef) (\<lambda>payload.
          bindE (liftR (bindR (data_rows payload) (mapR category_of))) (\<lambda>categories.
          bindE (modifyE (\<lambda>s. s\<lparr>bk_categories := Some categories\<rparr>)) (\<lambda>_. returnE categories))))"

definition no_category :: "string \<Rightarrow> (json \<times> string) list \<Rightarrow> firefly_error" where
  "no_category name categories = \<lparr>fe_message = ''No category named '' @ quoted name @ ''. Existing categories: ''
     @ (let listed = join '', '' (map snd categories) in if listed = [] then ''(none yet)'' else listed)
     @ ''. Leave the category out, or ask the User to create it.'', fe_status = 404, fe_details = JUndef\<rparr>"

definition category_named :: "string \<Rightarrow> json \<times> string \<Rightarrow> bool" where
  "category_named name category \<longleftrightarrow> toLowerCase (snd category) = toLowerCase (trim name)"

definition resolveCategoryId :: "'w firefly_deps \<Rightarrow> string \<Rightarrow> ('w books, json) io" where
  "resolveCategoryId deps name =
     bindE (listCategories deps False) (\<lambda>categories. case find (category_named name) categories of
       Some (i, n) \<Rightarrow> returnE i
     | None \<Rightarrow> bindE (listCategories deps True) (\<lambda>refreshed. case find (category_named name) refreshed of
         Some (i, n) \<Rightarrow> returnE i
       | None \<Rightarrow> throwE (thrown_error (no_category name refreshed))))"

section \<open>Creating accounts and budgets\<close>

record new_account =
  na_name :: string
  na_type :: string
  na_role :: "string option"
  na_currencyCode :: "string option"
  na_openingBalance :: "string option"
  na_openingBalanceDate :: "string option"
  na_liabilityType :: "string option"
  na_liabilityDirection :: "string option"

definition account_body :: "string \<Rightarrow> new_account \<Rightarrow> props" where
  "account_body today input =
     (let plain = [(''name'', JStr (na_name input)), (''type'', JStr (na_type input)),
            (''currency_code'', JStr (coalesce (na_currencyCode input) ''EUR''))];
          asset = (if na_type input = ''asset'' then spread plain [(''account_role'', JStr (coalesce (na_role input) ''defaultAsset''))] else plain);
          liability = (if na_type input = ''liability'' \<or> na_type input = ''liabilities''
            then spread asset ([(''type'', JStr ''liability''),
               (''liability_type'', JStr (coalesce (na_liabilityType input) ''debt'')),
               (''liability_direction'', JStr (coalesce (na_liabilityDirection input) ''credit'')),
               (''interest'', JStr ''0''), (''interest_period'', JStr ''monthly'')]
               @ (if truthy (na_openingBalance input) then []
                  else [(''opening_balance'', JStr ''0''), (''opening_balance_date'', JStr today)]))
            else asset)
      in if truthy (na_openingBalance input)
         then spread liability [(''opening_balance'', JStr (coalesce (na_openingBalance input) [])),
           (''opening_balance_date'', JStr (coalesce (na_openingBalanceDate input) today))]
         else liability)"

definition createAccount :: "'w firefly_deps \<Rightarrow> new_account \<Rightarrow> ('w books, firefly_account) io" where
  "createAccount deps input =
     bindE (getE (\<lambda>s. ff_today deps (bk_world s))) (\<lambda>today.
     bindE (call deps ''POST'' ''/accounts'' (JObj (account_body today input))) (\<lambda>payload.
     bindE (modifyE (\<lambda>s. s\<lparr>bk_accounts := None\<rparr>)) (\<lambda>_.
     liftR (bindR (data_of payload) (\<lambda>d. bindR (row_prop d ''id'') (\<lambda>i. bindR (row_prop d ''attributes'') (\<lambda>attributes.
       bindR (row_prop attributes ''name'') (\<lambda>name. Inr \<lparr>acc_id = i, acc_name = text_of (na_name input) name,
         acc_type = text_of (na_type input) (pget (obj_props attributes) ''type''), acc_balance = JUndef, acc_currency = JUndef\<rparr>))))))))"

definition createBudget :: "'w firefly_deps \<Rightarrow> string \<Rightarrow> ('w books, json) io" where
  "createBudget deps name =
     bindE (call deps ''POST'' ''/budgets'' (JObj [(''name'', JStr name), (''active'', JBool True)])) (\<lambda>payload.
       liftR (bindR (data_of payload) (\<lambda>d. row_prop d ''id'')))"

definition setBudgetLimit :: "'w firefly_deps \<Rightarrow> string \<Rightarrow> string \<Rightarrow> string \<Rightarrow> string \<Rightarrow> string option \<Rightarrow> ('w books, unit) io" where
  "setBudgetLimit deps budgetId from until amount currencyCode =
     bindE (call deps ''POST'' (''/budgets/'' @ budgetId @ ''/limits'') (JObj [(''start'', JStr from), (''end'', JStr until),
         (''amount'', JStr amount), (''currency_code'', JStr (coalesce currencyCode ''EUR''))])) (\<lambda>_. returnE ())"

section \<open>Posting\<close>

record posting_split =
  ps_type :: string
  ps_date :: string
  ps_amount :: string
  ps_description :: string
  ps_currencyCode :: "string option"
  ps_sourceAccount :: string
  ps_destinationAccount :: string
  ps_budgetName :: "string option"
  ps_categoryName :: "string option"
  ps_notes :: "string option"

record new_posting =
  pt_groupTitle :: "string option"
  pt_externalId :: string
  pt_thingId :: "string option"
  pt_splits :: "posting_split list"

definition external_id_route :: "string \<Rightarrow> string" where
  "external_id_route externalId = ''/search/transactions?query='' @ encodeURIComponent (''external_id_is:'' @ quoted externalId) @ ''&limit=5''"

text \<open>The transaction an answer to that search names, if it names one.\<close>

definition first_found :: "json \<Rightarrow> json option result" where
  "first_found payload = bindR (data_of payload) (\<lambda>d.
     let row = (case d of JArr (first # _) \<Rightarrow> first | _ \<Rightarrow> JUndef) in
     if json_truthy row then bindR (row_prop row ''id'') (\<lambda>i. Inr (Some i)) else Inr None)"

definition findByExternalId :: "'w firefly_deps \<Rightarrow> string \<Rightarrow> ('w books, json option) io" where
  "findByExternalId deps externalId =
     bindE (call deps ''GET'' (external_id_route externalId) JUndef) (\<lambda>payload. liftR (first_found payload))"

definition wrong_currency :: "posting_split \<Rightarrow> string \<Rightarrow> string \<Rightarrow> firefly_error" where
  "wrong_currency split accountCurrency asked = \<lparr>fe_message = quoted (ps_sourceAccount split) @ '' keeps its books in '' @ accountCurrency
     @ '', and this posting is in '' @ asked @ ''. Firefly would silently store it as '' @ accountCurrency
     @ '' at the same number, so it is refused. Convert the amount to '' @ accountCurrency
     @ '' first, or ask the User which rate to use.'', fe_status = 422, fe_details = JUndef\<rparr>"

definition check_currency :: "'w firefly_deps \<Rightarrow> posting_split \<Rightarrow> ('w books, unit) io" where
  "check_currency deps split =
     (if truthy (ps_currencyCode split)
      then bindE (currencyOf deps (ps_sourceAccount split)) (\<lambda>accountCurrency.
             if truthy accountCurrency \<and> toUpperCase (coalesce (ps_currencyCode split) []) \<noteq> toUpperCase (coalesce accountCurrency [])
             then throwE (thrown_error (wrong_currency split (coalesce accountCurrency []) (coalesce (ps_currencyCode split) [])))
             else returnE ())
      else returnE ())"

definition when_given :: "string option \<Rightarrow> string \<Rightarrow> props" where
  "when_given v name = (if truthy v then [(name, JStr (coalesce v []))] else [])"

definition split_row :: "string \<Rightarrow> new_posting \<Rightarrow> posting_split \<Rightarrow> json \<Rightarrow> json \<Rightarrow> json option \<Rightarrow> json" where
  "split_row uiBaseUrl input split sourceId destinationId categoryId = JObj (
     [(''type'', JStr (ps_type split)), (''date'', JStr (ps_date split)), (''amount'', JStr (ps_amount split)),
      (''description'', JStr (ps_description split)), (''currency_code'', JStr (coalesce (ps_currencyCode split) ''EUR'')),
      (''source_id'', sourceId), (''destination_id'', destinationId)]
     @ when_given (ps_budgetName split) ''budget_name''
     @ (case categoryId of Some i \<Rightarrow> [(''category_id'', i)] | None \<Rightarrow> [])
     @ when_given (ps_notes split) ''notes''
     @ [(''external_id'', JStr (pt_externalId input))]
     @ (if truthy (pt_thingId input)
        then [(''tags'', JArr [JStr (''thing:'' @ coalesce (pt_thingId input) [])]),
          (''external_url'', JStr (uiBaseUrl @ ''/#/Invoice/'' @ coalesce (pt_thingId input) []))]
        else []))"

definition prepare_split :: "'w firefly_deps \<Rightarrow> new_posting \<Rightarrow> posting_split \<Rightarrow> ('w books, json) io" where
  "prepare_split deps input split =
     bindE (resolveAccountId deps (ps_sourceAccount split)) (\<lambda>sourceId.
     bindE (resolveAccountId deps (ps_destinationAccount split)) (\<lambda>destinationId.
     bindE (check_currency deps split) (\<lambda>_.
     bindE (if truthy (ps_categoryName split)
            then bindE (resolveCategoryId deps (coalesce (ps_categoryName split) [])) (\<lambda>i. returnE (Some i)) else returnE None) (\<lambda>categoryId.
       returnE (split_row (ff_uiBaseUrl deps) input split sourceId destinationId categoryId)))))"

text \<open>Two postings are the same posting when their money, their date and their accounts all agree.\<close>

definition cents :: "json \<Rightarrow> js_num" where
  "cents v = fixed2 (js_number (if nullish v then JNum NaN else v))"

definition sameSplit :: "json \<Rightarrow> json \<Rightarrow> bool result" where
  "sameSplit wanted booked = bindR (row_prop booked ''date'') (\<lambda>d.
     let b = obj_props booked; w = obj_props wanted; same = (\<lambda>name. text_of [] (pget b name) = text_of [] (pget w name)) in
     Inr (take 10 (text_of [] d) = take 10 (text_of [] (pget w ''date'')) \<and>
       cents (pget b ''amount'') = cents (pget w ''amount'') \<and> is_finite_num (cents (pget w ''amount'')) \<and>
       same ''type'' \<and> same ''source_id'' \<and> same ''destination_id''))"

definition booked_splits :: "json \<Rightarrow> json list option result" where
  "booked_splits grp = bindR (row_prop grp ''attributes'') (\<lambda>attributes.
     let booked = pget (obj_props attributes) ''transactions'' in
     Inr (if nullish booked then Some [] else case booked of JArr items \<Rightarrow> Some items | _ \<Rightarrow> None))"

fun same_posting :: "json list \<Rightarrow> json list \<Rightarrow> json option result" where
  "same_posting wanted [] = Inr None"
| "same_posting wanted (grp # groups) = bindR (booked_splits grp) (\<lambda>booked.
     if map_option length booked \<noteq> Some (length wanted) then same_posting wanted groups
     else bindR (everyR (\<lambda>split. someR (sameSplit split) (coalesce booked [])) wanted) (\<lambda>matched.
       if matched then bindR (row_prop grp ''id'') (\<lambda>i. Inr (Some i)) else same_posting wanted groups))"

definition tag_route :: "string \<Rightarrow> string" where
  "tag_route i = ''/search/transactions?query='' @ encodeURIComponent (''tag_is:'' @ quoted (''thing:'' @ i)) @ ''&limit=25''"

definition findSamePostingForThing :: "'w firefly_deps \<Rightarrow> string \<Rightarrow> json list \<Rightarrow> ('w books, json option) io" where
  "findSamePostingForThing deps i wanted =
     bindE (call deps ''GET'' (tag_route i) JUndef) (\<lambda>payload. liftR (bindR (data_rows payload) (same_posting wanted)))"

text \<open>Only Firefly saying 401 or 404 counts as the transaction being gone.\<close>

definition transactionExists :: "'w firefly_deps \<Rightarrow> string \<Rightarrow> ('w books, bool) io" where
  "transactionExists deps i =
     bindE (attemptE (call_firefly deps ''GET'' (''/transactions/'' @ i) JUndef)) (\<lambda>r. returnE (case r of
       Inr (Inl e) \<Rightarrow> fe_status e \<noteq> 401 \<and> fe_status e \<noteq> 404 | _ \<Rightarrow> True))"

fun duplicate_in :: "string \<Rightarrow> string option" where
  "duplicate_in [] = None"
| "duplicate_in (c # cs) =
     (let digits = takeWhile (\<lambda>d. digit_val d \<noteq> None) (drop 26 (c # cs)) in
      if starts_with ''duplicate of transaction #'' (toLowerCase (c # cs)) \<and> digits \<noteq> [] then Some digits else duplicate_in cs)"

fun first_duplicate :: "json list \<Rightarrow> string option" where
  "first_duplicate [] = None"
| "first_duplicate (m # ms) = (case duplicate_in (js_string m) of Some i \<Rightarrow> Some i | None \<Rightarrow> first_duplicate ms)"

fun duplicate_among :: "json list \<Rightarrow> string option result" where
  "duplicate_among [] = Inr None"
| "duplicate_among (messages # rest) = (case messages of
     JArr ms \<Rightarrow> (case first_duplicate ms of Some i \<Rightarrow> Inr (Some i) | None \<Rightarrow> duplicate_among rest)
   | JStr s \<Rightarrow> duplicate_among rest
   | _ \<Rightarrow> Inl (JsError ''TypeError'' ''messages is not iterable''))"

definition duplicateHashVictim :: "firefly_error \<Rightarrow> string option result" where
  "duplicateHashVictim e =
     (if fe_status e \<noteq> 422 then Inr None
      else bindR (duplicate_among (map snd (obj_props (pget (obj_props (fe_details e)) ''errors'')))) (\<lambda>found. case found of
        Some i \<Rightarrow> Inr (Some i) | None \<Rightarrow> Inr (duplicate_in (fe_message e))))"

definition transactions_body :: "new_posting \<Rightarrow> json list \<Rightarrow> bool \<Rightarrow> json" where
  "transactions_body input items flag = JObj (when_given (pt_groupTitle input) ''group_title''
     @ [(''transactions'', JArr items), (''error_if_duplicate_hash'', JBool flag)])"

definition booked_now :: "json \<Rightarrow> (json \<times> bool) result" where
  "booked_now payload = bindR (data_of payload) (\<lambda>d. bindR (row_prop d ''id'') (\<lambda>i. Inr (i, False)))"

definition send_posting :: "'w firefly_deps \<Rightarrow> new_posting \<Rightarrow> json list \<Rightarrow> ('w books, json \<times> bool) io" where
  "send_posting deps input items =
     bindE (call_firefly deps ''POST'' ''/transactions'' (transactions_body input items True)) (\<lambda>r. case r of
       Inr payload \<Rightarrow> liftR (booked_now payload)
     | Inl e \<Rightarrow> bindE (liftR (duplicateHashVictim e)) (\<lambda>victim. case victim of
         None \<Rightarrow> throwE (thrown_error e)
       | Some i \<Rightarrow> bindE (transactionExists deps i) (\<lambda>there.
           if there then throwE (thrown_error e)
           else bindE (call deps ''POST'' ''/transactions'' (transactions_body input items False)) (\<lambda>payload.
             liftR (booked_now payload)))))"

text \<open>The id of the transaction group, and whether it was there already.\<close>

definition postOnce :: "'w firefly_deps \<Rightarrow> new_posting \<Rightarrow> ('w books, json \<times> bool) io" where
  "postOnce deps input =
     bindE (findByExternalId deps (pt_externalId input)) (\<lambda>existing. case existing of
       Some i \<Rightarrow> returnE (i, True)
     | None \<Rightarrow>
         bindE (mapE (prepare_split deps input) (pt_splits input)) (\<lambda>items.
         bindE (if truthy (pt_thingId input) then findSamePostingForThing deps (coalesce (pt_thingId input) []) items else returnE None) (\<lambda>already.
           case already of Some i \<Rightarrow> returnE (i, True) | None \<Rightarrow> send_posting deps input items)))"

text \<open>
  The postings in flight by key: one under a key that is in flight runs after that has ended, however it ends.
  A computation in flight runs as a whole; what the requests of other keys do in between is left to \<open>ff_fetch\<close>.
\<close>

definition postTransaction :: "'w firefly_deps \<Rightarrow> (string \<rightharpoonup> ('w books, json \<times> bool) io) \<Rightarrow> new_posting \<Rightarrow> ('w books, json \<times> bool) io" where
  "postTransaction deps postsInFlight input = (case postsInFlight (pt_externalId input) of
     None \<Rightarrow> postOnce deps input
   | Some previous \<Rightarrow> bindE (attemptE previous) (\<lambda>_. postOnce deps input))"

definition in_flight :: "'w firefly_deps \<Rightarrow> new_posting \<Rightarrow> (string \<rightharpoonup> ('w books, json \<times> bool) io) \<Rightarrow> (string \<rightharpoonup> ('w books, json \<times> bool) io)" where
  "in_flight deps input postsInFlight = postsInFlight(pt_externalId input \<mapsto> postTransaction deps postsInFlight input)"

section \<open>Reading the books\<close>

definition getBalance :: "'w firefly_deps \<Rightarrow> string \<Rightarrow> ('w books, string \<times> string \<times> string) io" where
  "getBalance deps accountName =
     bindE (resolveAccountId deps accountName) (\<lambda>i.
     bindE (call deps ''GET'' (''/accounts/'' @ js_string i) JUndef) (\<lambda>payload.
     liftR (bindR (data_of payload) (\<lambda>d. bindR (row_prop d ''attributes'') (\<lambda>attributes. bindR (row_prop attributes ''current_balance'') (\<lambda>balance.
       Inr (accountName, text_of ''0'' balance, text_of ''EUR'' (pget (obj_props attributes) ''currency_code''))))))))"

definition listTransactions :: "'w firefly_deps \<Rightarrow> string \<Rightarrow> string \<Rightarrow> string option \<Rightarrow> js_num option \<Rightarrow> ('w books, json list) io" where
  "listTransactions deps from until accountName limit =
     (let query = query_string [(''start'', from), (''end'', until), (''limit'', string_of_num (coalesce limit (num_of_int 25)))] in
      bindE (if truthy accountName
             then bindE (resolveAccountId deps (coalesce accountName [])) (\<lambda>i.
               returnE (''/accounts/'' @ encodeURIComponent (js_string i) @ ''/transactions?'' @ query))
             else returnE (''/transactions?'' @ query)) (\<lambda>route.
      bindE (call deps ''GET'' route JUndef) (\<lambda>payload. liftR (data_rows payload))))"

definition is_open_item :: "firefly_account \<Rightarrow> bool" where
  "is_open_item a =
     (let name = toLowerCase (acc_name a); kind = toLowerCase (acc_type a);
          balance = js_number (if nullish (acc_balance a) then JStr ''0'' else acc_balance a) in
      (contains ''payable'' name \<or> contains ''receivable'' name) \<and>
      (starts_with ''liabilit'' kind \<or> kind = ''asset'' \<or> kind = ''debt'') \<and>
      is_finite_num balance \<and> \<not> num_less_eq (num_abs balance) (Fin 1 (- 4)))"

definition listOpenItems :: "'w firefly_deps \<Rightarrow> ('w books, firefly_account list) io" where
  "listOpenItems deps = bindE (listAccounts deps True) (\<lambda>accounts. returnE (filter is_open_item accounts))"

record budget_line =
  bl_id :: json
  bl_name :: string
  bl_spent :: js_num
  bl_limit :: "(js_num \<times> json) option"

definition budget_limit :: "json \<Rightarrow> (string \<times> js_num \<times> json) option result" where
  "budget_limit row = bindR (row_prop row ''attributes'') (\<lambda>attributes. bindR (row_prop attributes ''budget_id'') (\<lambda>i.
     let amount = (let v = pget (obj_props attributes) ''amount'' in js_number (if nullish v then JNum NaN else v)) in
     Inr (if text_of [] i = [] \<or> \<not> is_finite_num amount then None
          else Some (text_of [] i, amount, pget (obj_props attributes) ''currency_code''))))"

fun largest_limits :: "(string \<times> js_num \<times> json) option list \<Rightarrow> (string \<times> js_num \<times> json) list \<Rightarrow> (string \<times> js_num \<times> json) list" where
  "largest_limits [] seen = seen"
| "largest_limits (None # rest) seen = largest_limits rest seen"
| "largest_limits (Some (i, amount, cur) # rest) seen = largest_limits rest
     (case map_of seen i of
        Some (limit, _) \<Rightarrow> if num_less_eq amount limit then seen else AList.update i (amount, cur) seen
      | None \<Rightarrow> AList.update i (amount, cur) seen)"

definition spent_in :: "json \<Rightarrow> js_num result" where
  "spent_in items = (case items of
     JArr lines \<Rightarrow> bindR (mapR (\<lambda>entry. bindR (row_prop entry ''sum'') (\<lambda>v.
         Inr (num_abs (js_number (if nullish v then JNum (num_of_int 0) else v))))) lines) (\<lambda>sums.
       Inr (fold (\<lambda>n total'. num_add total' n) sums (num_of_int 0)))
   | _ \<Rightarrow> Inr (num_of_int 0))"

definition budget_line_of :: "(string \<times> js_num \<times> json) list \<Rightarrow> json \<Rightarrow> budget_line result" where
  "budget_line_of limits row = bindR (row_prop row ''attributes'') (\<lambda>attributes. bindR (row_prop attributes ''spent'') (\<lambda>spent.
     bindR (spent_in spent) (\<lambda>sum. let i = pget (obj_props row) ''id'' in
       Inr \<lparr>bl_id = i, bl_name = text_of [] (pget (obj_props attributes) ''name''), bl_spent = fixed2 sum,
         bl_limit = (case i of JStr k \<Rightarrow> map_of limits k | _ \<Rightarrow> None)\<rparr>)))"

text \<open>Both requests are sent whatever becomes of the first.\<close>

definition listBudgets :: "'w firefly_deps \<Rightarrow> string \<Rightarrow> string \<Rightarrow> ('w books, budget_line list) io" where
  "listBudgets deps from until =
     (let query = ''start='' @ from @ ''&end='' @ until in
      bindE (attemptE (call deps ''GET'' (''/budgets?'' @ query) JUndef)) (\<lambda>budgets.
      bindE (attemptE (call deps ''GET'' (''/budget-limits?'' @ query) JUndef)) (\<lambda>limits.
      liftR (bindR budgets (\<lambda>b. bindR limits (\<lambda>l. bindR (bindR (data_rows l) (mapR budget_limit)) (\<lambda>ls.
        bindR (data_rows b) (mapR (budget_line_of (largest_limits ls []))))))))))"

definition isReachable :: "'w firefly_deps \<Rightarrow> ('w books, bool) io" where
  "isReachable deps =
     bindE (attemptE (at_firefly (ff_fetch deps ''GET'' (strip_slashes (ff_baseUrl deps) @ ''/healthcheck'') None JUndef))) (\<lambda>r.
       returnE (case r of Inl e \<Rightarrow> False | Inr response \<Rightarrow> 200 \<le> hr_status response \<and> hr_status response \<le> 299))"

end
