(* ===== verification/FireflyFacts.thy ===== *)
theory FireflyFacts
  imports Firefly
begin

text \<open>
  What the bookkeeping Connector sends (\<open>connectors/firefly.ts\<close>): which steps only read, where the accounts
  and the categories of a posting come from, and when a posting is sent.
\<close>

section \<open>Steps that only read\<close>

definition asked_for :: "string \<Rightarrow> exchange \<Rightarrow> json \<Rightarrow> bool" where
  "asked_for route x payload \<longleftrightarrow> ex_method x = ''GET'' \<and> ex_path x = route \<and> ex_answer x = Inr payload"

definition charted :: "exchange \<Rightarrow> firefly_account list \<Rightarrow> bool" where
  "charted x accounts \<longleftrightarrow> (\<exists>payload. asked_for ''/accounts?limit=200'' x payload \<and> accounts_of payload = Inr accounts)"

definition listed_categories :: "exchange \<Rightarrow> (json \<times> string) list \<Rightarrow> bool" where
  "listed_categories x categories \<longleftrightarrow>
     (\<exists>payload. asked_for ''/categories?limit=200'' x payload \<and> bindR (data_rows payload) (mapR category_of) = Inr categories)"

text \<open>The charts known after the exchanges \<open>xs\<close>: the one in the cache before, and those that came with an answer.\<close>

definition known_chart :: "'w books \<Rightarrow> exchange list \<Rightarrow> firefly_account list \<Rightarrow> bool" where
  "known_chart s xs accounts \<longleftrightarrow> bk_accounts s = Some accounts \<or> (\<exists>x \<in> set xs. charted x accounts)"

definition known_categories :: "'w books \<Rightarrow> exchange list \<Rightarrow> (json \<times> string) list \<Rightarrow> bool" where
  "known_categories s xs categories \<longleftrightarrow> bk_categories s = Some categories \<or> (\<exists>x \<in> set xs. listed_categories x categories)"

definition reads :: "'w books \<Rightarrow> 'w books \<Rightarrow> exchange list \<Rightarrow> bool" where
  "reads s s' xs \<longleftrightarrow> bk_exchanges s' = bk_exchanges s @ xs \<and> (\<forall>x \<in> set xs. ex_method x = ''GET'') \<and>
     (\<forall>accounts. bk_accounts s' = Some accounts \<longrightarrow> known_chart s xs accounts) \<and>
     (\<forall>categories. bk_categories s' = Some categories \<longrightarrow> known_categories s xs categories)"

lemma reads_refl [simp]: "reads s s []"
  by (simp add: reads_def known_chart_def known_categories_def)

lemma known_chart_after: "reads s s' xs \<Longrightarrow> known_chart s' ys accounts \<Longrightarrow> known_chart s (xs @ ys) accounts"
  by (auto simp: reads_def known_chart_def)

lemma known_categories_after: "reads s s' xs \<Longrightarrow> known_categories s' ys cs \<Longrightarrow> known_categories s (xs @ ys) cs"
  by (auto simp: reads_def known_categories_def)

lemma known_grows: "known_chart s xs accounts \<Longrightarrow> known_chart s (xs @ ys) accounts"
  "known_categories s xs cs \<Longrightarrow> known_categories s (xs @ ys) cs"
  by (auto simp: known_chart_def known_categories_def)

lemma reads_trans: "reads s s' xs \<Longrightarrow> reads s' s'' ys \<Longrightarrow> reads s s'' (xs @ ys)"
  using known_chart_after [of s s' xs ys] known_categories_after [of s s' xs ys]
  by (auto simp: reads_def)

text \<open>A step from \<open>s\<close> that reads and, when it returns, returns something that holds of what was read.\<close>

definition read_of :: "('w books, 'a) io \<Rightarrow> ('w books \<Rightarrow> exchange list \<Rightarrow> 'a \<Rightarrow> bool) \<Rightarrow> bool" where
  "read_of m Q \<longleftrightarrow> (\<forall>s r s'. m s = (r, s') \<longrightarrow> (\<exists>xs. reads s s' xs \<and> (\<forall>x. r = Inr x \<longrightarrow> Q s xs x)))"

lemma read_ofD: "read_of m Q \<Longrightarrow> m s = (r, s') \<Longrightarrow> \<exists>xs. reads s s' xs \<and> (\<forall>x. r = Inr x \<longrightarrow> Q s xs x)"
  by (simp add: read_of_def)

lemma read_of_return: "(\<And>s. Q s [] x) \<Longrightarrow> read_of (returnE x) Q"
  by (auto simp: read_of_def returnE_def intro: exI [of _ "[]"])

lemma read_of_throw: "read_of (throwE e) Q"
  by (auto simp: read_of_def throwE_def intro: exI [of _ "[]"])

lemma read_of_lift: "(\<And>s x. r = Inr x \<Longrightarrow> Q s [] x) \<Longrightarrow> read_of (liftR r) Q"
  by (auto simp: read_of_def liftR_def intro!: exI [of _ "[]"])

lemma read_of_bind:
  assumes "read_of m P" and "\<And>x. read_of (k x) (R x)"
    and "\<And>s s' xs x ys y. reads s s' xs \<Longrightarrow> P s xs x \<Longrightarrow> R x s' ys y \<Longrightarrow> Q s (xs @ ys) y"
  shows "read_of (bindE m k) Q"
  unfolding read_of_def
proof (intro allI impI)
  fix s r s'
  assume run: "bindE m k s = (r, s')"
  obtain r1 s1 where m: "m s = (r1, s1)" by fastforce
  obtain xs where xs: "reads s s1 xs" "\<And>x. r1 = Inr x \<Longrightarrow> P s xs x" using read_ofD [OF assms(1) m] by blast
  show "\<exists>xs. reads s s' xs \<and> (\<forall>x. r = Inr x \<longrightarrow> Q s xs x)"
  proof (cases r1)
    case (Inl e)
    with m run xs show ?thesis by (auto simp: bindE_def)
  next
    case (Inr x)
    with m run have "k x s1 = (r, s')" by (simp add: bindE_def)
    from read_ofD [OF assms(2) this] obtain ys where ys: "reads s1 s' ys" "\<And>y. r = Inr y \<Longrightarrow> R x s1 ys y" by blast
    show ?thesis
    proof (intro exI conjI allI impI)
      show "reads s s' (xs @ ys)" by (rule reads_trans [OF xs(1) ys(1)])
    next
      fix y assume "r = Inr y"
      then show "Q s (xs @ ys) y" by (rule assms(3) [OF xs(1) xs(2) [OF Inr] ys(2)])
    qed
  qed
qed

text \<open>Only what was read counts; the value does not.\<close>

abbreviation reading :: "('w books, 'a) io \<Rightarrow> bool" where
  "reading m \<equiv> read_of m (\<lambda>s xs x. True)"

lemma reading_bind: "reading m \<Longrightarrow> (\<And>x. reading (k x)) \<Longrightarrow> reading (bindE m k)"
  by (rule read_of_bind [of m "\<lambda>s xs x. True" k "\<lambda>x s xs y. True"]) simp_all

lemma silent_step:
  assumes "\<And>s. bk_exchanges (snd (m s)) = bk_exchanges s" and "\<And>s. bk_accounts (snd (m s)) = bk_accounts s"
    and "\<And>s. bk_categories (snd (m s)) = bk_categories s"
  shows "reading m"
  unfolding read_of_def
proof (intro allI impI exI conjI)
  fix s r s' assume "m s = (r, s')"
  with assms [of s] show "reads s s' []" by (simp add: reads_def known_chart_def known_categories_def)
qed simp

lemma at_firefly_kept [simp]:
  "bk_exchanges (snd (at_firefly m s)) = bk_exchanges s" "bk_accounts (snd (at_firefly m s)) = bk_accounts s"
  "bk_categories (snd (at_firefly m s)) = bk_categories s"
  by (simp_all add: at_firefly_def split: prod.split)

lemma token_kept:
  "bk_exchanges (snd (resolveToken deps s)) = bk_exchanges s" "bk_accounts (snd (resolveToken deps s)) = bk_accounts s"
  "bk_categories (snd (resolveToken deps s)) = bk_categories s"
  by (auto simp: resolveToken_def at_firefly_def io_defs split: prod.splits sum.splits)

text \<open>A call either gets nothing from Firefly, or appends one exchange and returns its answer.\<close>

definition one_more :: "'w books \<Rightarrow> 'w books \<Rightarrow> exchange \<Rightarrow> bool" where
  "one_more s s' x \<longleftrightarrow> bk_exchanges s' = bk_exchanges s @ [x] \<and> bk_accounts s' = bk_accounts s \<and> bk_categories s' = bk_categories s"

definition unheard :: "'w books \<Rightarrow> 'w books \<Rightarrow> bool" where
  "unheard s s' \<longleftrightarrow> bk_exchanges s' = bk_exchanges s \<and> bk_accounts s' = bk_accounts s \<and> bk_categories s' = bk_categories s"

lemma call_once:
  assumes "call_firefly deps method route body s = (r, s')"
  shows "unheard s s' \<and> (\<forall>payload. r \<noteq> Inr (Inr payload)) \<and> (\<forall>e. r = Inr (Inl e) \<longrightarrow> fe_status e = 0) \<or>
    (\<exists>answer. r = Inr answer \<and> one_more s s' \<lparr>ex_method = method, ex_path = route, ex_body = body, ex_answer = answer\<rparr>)"
proof -
  obtain t s1 where t: "resolveToken deps s = (t, s1)" by fastforce
  have k: "unheard s s1" using token_kept [of deps s] t by (simp add: unheard_def)
  have z: "fe_status e = 0" if "t = Inr (Inl e)" for e
    using t that by (auto simp: resolveToken_def no_token_def io_defs split: prod.splits sum.splits if_splits)
  show ?thesis
  proof (cases t)
    case (Inl e)
    with assms t k show ?thesis by (auto simp: call_firefly_def bindE_def)
  next
    case (Inr y)
    show ?thesis
    proof (cases y)
      case (Inl e)
      with Inr assms t k z show ?thesis by (auto simp: call_firefly_def bindE_def returnE_def)
    next
      case inner: (Inr tok)
      obtain a s2 where f: "at_firefly (ff_fetch deps method (strip_slashes (ff_baseUrl deps) @ ''/api/v1'' @ route) (Some tok) body) s1 = (a, s2)"
        by fastforce
      then have "s2 = snd (at_firefly (ff_fetch deps method (strip_slashes (ff_baseUrl deps) @ ''/api/v1'' @ route) (Some tok) body) s1)"
        by simp
      with k have k2: "unheard s s2" by (simp only: unheard_def at_firefly_kept)
      show ?thesis
      proof (cases a)
        case (Inl e)
        with assms t Inr inner f have "r = Inl e" "s' = s2" by (simp_all add: call_firefly_def bindE_def)
        with k2 show ?thesis by simp
      next
        case got: (Inr response)
        let ?x = "\<lparr>ex_method = method, ex_path = route, ex_body = body, ex_answer = answer_of response\<rparr>"
        from assms t Inr inner f got have r: "r = Inr (answer_of response)" "s' = s2\<lparr>bk_exchanges := bk_exchanges s2 @ [?x]\<rparr>"
          by (simp_all add: call_firefly_def bindE_def returnE_def modifyE_def)
        with k2 have "one_more s s' ?x" by (simp add: unheard_def one_more_def)
        with r(1) show ?thesis by blast
      qed
    qed
  qed
qed

lemma unheard_reads: "unheard s s' \<Longrightarrow> reads s s' []"
  by (simp add: unheard_def reads_def known_chart_def known_categories_def)

lemma one_more_reads: "one_more s s' x \<Longrightarrow> ex_method x = ''GET'' \<Longrightarrow> reads s s' [x]"
  by (auto simp: one_more_def reads_def known_chart_def known_categories_def)

lemma get_reads:
  "read_of (call_firefly deps ''GET'' route body) (\<lambda>s xs answer. (\<forall>payload. answer = Inr payload \<longrightarrow>
     (\<exists>x. xs = [x] \<and> asked_for route x payload)))"
  unfolding read_of_def
proof (intro allI impI)
  fix s r s'
  assume "call_firefly deps ''GET'' route body s = (r, s')"
  from call_once [OF this] show "\<exists>xs. reads s s' xs \<and> (\<forall>answer. r = Inr answer \<longrightarrow> (\<forall>payload. answer = Inr payload \<longrightarrow>
     (\<exists>x. xs = [x] \<and> asked_for route x payload)))"
  proof
    assume "unheard s s' \<and> (\<forall>payload. r \<noteq> Inr (Inr payload)) \<and> (\<forall>e. r = Inr (Inl e) \<longrightarrow> fe_status e = 0)"
    then show ?thesis by (intro exI [of _ "[]"]) (auto intro: unheard_reads)
  next
    assume "\<exists>answer. r = Inr answer \<and> one_more s s' \<lparr>ex_method = ''GET'', ex_path = route, ex_body = body, ex_answer = answer\<rparr>"
    then obtain answer where a: "r = Inr answer" "one_more s s' \<lparr>ex_method = ''GET'', ex_path = route, ex_body = body, ex_answer = answer\<rparr>" by blast
    from one_more_reads [OF a(2)] a(1) show ?thesis
      by (intro exI [of _ "[\<lparr>ex_method = ''GET'', ex_path = route, ex_body = body, ex_answer = answer\<rparr>]"]) (simp add: asked_for_def)
  qed
qed

lemma call_reads: "read_of (call deps ''GET'' route body) (\<lambda>s xs payload. \<exists>x. xs = [x] \<and> asked_for route x payload)"
  unfolding call_def
  by (rule read_of_bind [OF get_reads, where R = "\<lambda>answer s xs payload. xs = [] \<and> answer = Inr payload"])
    (auto intro: read_of_return read_of_throw split: sum.split)

section \<open>Accounts and categories\<close>

text \<open>The one account a name stands for in a chart.\<close>

definition the_account :: "string \<Rightarrow> firefly_account list \<Rightarrow> firefly_account \<Rightarrow> bool" where
  "the_account name accounts a \<longleftrightarrow>
     (if name \<in> acc_name ` set accounts then filter (\<lambda>b. acc_name b = name) accounts = [a]
      else filter (\<lambda>b. toLowerCase (acc_name b) = toLowerCase (trim name)) accounts = [a])"

lemma pick_the_account: "pick_account name accounts = Inr (Some a) \<Longrightarrow> the_account name accounts a"
proof -
  have "filter (\<lambda>b. acc_name b = name) accounts = [] \<longleftrightarrow> name \<notin> acc_name ` set accounts"
    by (auto simp: filter_empty_conv)
  then show "pick_account name accounts = Inr (Some a) \<Longrightarrow> the_account name accounts a"
    by (auto simp: pick_account_def the_account_def split: list.splits)
qed

lemma remember_chart: "reads s s1 xs \<Longrightarrow> known_chart s xs accounts \<Longrightarrow> reads s (s1\<lparr>bk_accounts := Some accounts\<rparr>) xs"
  by (simp add: reads_def)

lemma remember_categories: "reads s s1 xs \<Longrightarrow> known_categories s xs cs \<Longrightarrow> reads s (s1\<lparr>bk_categories := Some cs\<rparr>) xs"
  by (simp add: reads_def)

lemma chart_reads: "read_of (listAccounts deps refresh) known_chart"
  unfolding read_of_def
proof (intro allI impI)
  fix s r s'
  assume run: "listAccounts deps refresh s = (r, s')"
  show "\<exists>xs. reads s s' xs \<and> (\<forall>accounts. r = Inr accounts \<longrightarrow> known_chart s xs accounts)"
  proof (cases "bk_accounts s \<noteq> None \<and> \<not> refresh")
    case True
    with run have "s' = s" "r = Inr (coalesce (bk_accounts s) [])" by (auto simp: listAccounts_def io_defs)
    with True show ?thesis by (intro exI [of _ "[]"]) (auto simp: known_chart_def)
  next
    case False
    obtain p s1 where c: "call deps ''GET'' ''/accounts?limit=200'' JUndef s = (p, s1)" by fastforce
    obtain xs where xs: "reads s s1 xs" "\<And>payload. p = Inr payload \<Longrightarrow> \<exists>x. xs = [x] \<and> asked_for ''/accounts?limit=200'' x payload"
      using read_ofD [OF call_reads c] by auto
    show ?thesis
    proof (cases "\<exists>payload accounts. p = Inr payload \<and> accounts_of payload = Inr accounts")
      case True
      then obtain payload accounts where p: "p = Inr payload" "accounts_of payload = Inr accounts" by blast
      with run False c have s': "s' = s1\<lparr>bk_accounts := Some accounts\<rparr>" "r = Inr accounts"
        by (auto simp: listAccounts_def bindE_def getE_def modifyE_def returnE_def)
      have "known_chart s xs accounts" using xs(2) [OF p(1)] p(2) by (auto simp: known_chart_def charted_def)
      with remember_chart [OF xs(1)] s' show ?thesis by blast
    next
      case other: False
      with run False c have "s' = s1" "\<And>x. r \<noteq> Inr x"
        by (cases p; cases "accounts_of (projr p)"; auto simp: listAccounts_def bindE_def getE_def throwE_def)+
      with xs(1) show ?thesis by blast
    qed
  qed
qed

lemma categories_read: "read_of (listCategories deps refresh) known_categories"
  unfolding read_of_def
proof (intro allI impI)
  fix s r s'
  assume run: "listCategories deps refresh s = (r, s')"
  let ?of = "\<lambda>payload. bindR (data_rows payload) (mapR category_of)"
  show "\<exists>xs. reads s s' xs \<and> (\<forall>categories. r = Inr categories \<longrightarrow> known_categories s xs categories)"
  proof (cases "bk_categories s \<noteq> None \<and> \<not> refresh")
    case True
    with run have "s' = s" "r = Inr (coalesce (bk_categories s) [])" by (auto simp: listCategories_def io_defs)
    with True show ?thesis by (intro exI [of _ "[]"]) (auto simp: known_categories_def)
  next
    case False
    obtain p s1 where c: "call deps ''GET'' ''/categories?limit=200'' JUndef s = (p, s1)" by fastforce
    obtain xs where xs: "reads s s1 xs" "\<And>payload. p = Inr payload \<Longrightarrow> \<exists>x. xs = [x] \<and> asked_for ''/categories?limit=200'' x payload"
      using read_ofD [OF call_reads c] by auto
    show ?thesis
    proof (cases "\<exists>payload categories. p = Inr payload \<and> ?of payload = Inr categories")
      case True
      then obtain payload categories where p: "p = Inr payload" "?of payload = Inr categories" by blast
      with run False c have s': "s' = s1\<lparr>bk_categories := Some categories\<rparr>" "r = Inr categories"
        by (auto simp: listCategories_def bindE_def getE_def modifyE_def returnE_def)
      have "known_categories s xs categories" using xs(2) [OF p(1)] p(2) by (auto simp: known_categories_def listed_categories_def)
      with remember_categories [OF xs(1)] s' show ?thesis by blast
    next
      case other: False
      with run False c have "s' = s1" "\<And>x. r \<noteq> Inr x"
        by (cases p; cases "?of (projr p)"; auto simp: listCategories_def bindE_def getE_def throwE_def)+
      with xs(1) show ?thesis by blast
    qed
  qed
qed

text \<open>An id a name resolves to is that of the one account the name stands for in a chart Firefly sent.\<close>

definition resolved_in :: "'w books \<Rightarrow> exchange list \<Rightarrow> string \<Rightarrow> json \<Rightarrow> bool" where
  "resolved_in s xs name i \<longleftrightarrow> (\<exists>accounts a. known_chart s xs accounts \<and> the_account name accounts a \<and> i = acc_id a)"

definition category_in :: "'w books \<Rightarrow> exchange list \<Rightarrow> string \<Rightarrow> json \<Rightarrow> bool" where
  "category_in s xs name i \<longleftrightarrow> (\<exists>categories c. known_categories s xs categories \<and> (i, c) \<in> set categories \<and>
     toLowerCase c = toLowerCase (trim name))"

lemma resolved_after: "reads s s' xs \<Longrightarrow> resolved_in s' ys name i \<Longrightarrow> resolved_in s (xs @ ys) name i"
  "reads s s' xs \<Longrightarrow> category_in s' ys name i \<Longrightarrow> category_in s (xs @ ys) name i"
  unfolding resolved_in_def category_in_def by (blast intro: known_chart_after known_categories_after)+

lemma resolved_grows: "resolved_in s xs name i \<Longrightarrow> resolved_in s (xs @ ys) name i"
  "category_in s xs name i \<Longrightarrow> category_in s (xs @ ys) name i"
  unfolding resolved_in_def category_in_def by (blast intro: known_grows)+

lemma account_id_read: "read_of (resolveAccountId deps name) (\<lambda>s xs i. resolved_in s xs name i)"
proof -
  have picked: "read_of (liftR (pick_account name accounts)) (\<lambda>s xs found. xs = [] \<and> (\<forall>a. found = Some a \<longrightarrow> the_account name accounts a))" for accounts
    by (rule read_of_lift) (auto intro: pick_the_account)
  have again: "read_of (bindE (listAccounts deps True) (\<lambda>refreshed. bindE (liftR (pick_account name refreshed)) (\<lambda>retry. case retry of
        Some a \<Rightarrow> returnE (acc_id a) | None \<Rightarrow> throwE (thrown_error (no_account name refreshed))))) (\<lambda>s xs i. resolved_in s xs name i)"
  proof (rule read_of_bind [OF chart_reads])
    fix accounts
    show "read_of (bindE (liftR (pick_account name accounts)) (\<lambda>retry. case retry of
        Some a \<Rightarrow> returnE (acc_id a) | None \<Rightarrow> throwE (thrown_error (no_account name accounts))))
      (\<lambda>s xs i. xs = [] \<and> (\<exists>a. the_account name accounts a \<and> i = acc_id a))"
      by (rule read_of_bind [OF picked, where R = "\<lambda>found s xs i. xs = [] \<and> (\<exists>a. found = Some a \<and> i = acc_id a)"])
        (auto intro: read_of_return read_of_throw split: option.split)
  qed (auto simp: resolved_in_def)
  show ?thesis
    unfolding resolveAccountId_def
  proof (rule read_of_bind [OF chart_reads])
    fix accounts
    show "read_of (bindE (liftR (pick_account name accounts)) (\<lambda>found. case found of Some a \<Rightarrow> returnE (acc_id a)
        | None \<Rightarrow> bindE (listAccounts deps True) (\<lambda>refreshed. bindE (liftR (pick_account name refreshed)) (\<lambda>retry. case retry of
            Some a \<Rightarrow> returnE (acc_id a) | None \<Rightarrow> throwE (thrown_error (no_account name refreshed))))))
      (\<lambda>s xs i. resolved_in s xs name i \<or> (\<exists>a. the_account name accounts a \<and> i = acc_id a))"
    proof (rule read_of_bind [OF picked])
      fix found
      show "read_of (case found of Some a \<Rightarrow> returnE (acc_id a)
        | None \<Rightarrow> bindE (listAccounts deps True) (\<lambda>refreshed. bindE (liftR (pick_account name refreshed)) (\<lambda>retry. case retry of
            Some a \<Rightarrow> returnE (acc_id a) | None \<Rightarrow> throwE (thrown_error (no_account name refreshed)))))
        (\<lambda>s xs i. resolved_in s xs name i \<or> (\<exists>a. found = Some a \<and> i = acc_id a))"
        using again by (auto simp: read_of_def returnE_def split: option.split) (use reads_refl in blast)+
    qed (auto dest: resolved_after(1) [where xs = "[]", simplified])
  next
    fix s s' xs accounts ys i
    assume "reads s s' xs" "known_chart s xs accounts" "resolved_in s' ys name i \<or> (\<exists>a. the_account name accounts a \<and> i = acc_id a)"
    then show "resolved_in s (xs @ ys) name i" using resolved_after(1) known_grows(1) unfolding resolved_in_def by blast
  qed
qed

lemma category_id_read: "read_of (resolveCategoryId deps name) (\<lambda>s xs i. category_in s xs name i)"
proof -
  have found: "category_in s xs name i" if "known_categories s xs cs" "find (category_named name) cs = Some (i, c)" for s xs cs i c
  proof -
    have "(i, c) \<in> set cs \<and> category_named name (i, c)" using that(2) by (metis find_Some_iff nth_mem)
    with that(1) show ?thesis by (auto simp: category_in_def category_named_def)
  qed
  show ?thesis
    unfolding resolveCategoryId_def
  proof (rule read_of_bind [OF categories_read])
    fix cs
    show "read_of (case find (category_named name) cs of Some (i, n) \<Rightarrow> returnE i
        | None \<Rightarrow> bindE (listCategories deps True) (\<lambda>refreshed. case find (category_named name) refreshed of
            Some (i, n) \<Rightarrow> returnE i | None \<Rightarrow> throwE (thrown_error (no_category name refreshed))))
      (\<lambda>s xs i. category_in s xs name i \<or> (xs = [] \<and> (\<exists>c. find (category_named name) cs = Some (i, c))))"
    proof (cases "find (category_named name) cs")
      case None
      have "read_of (bindE (listCategories deps True) (\<lambda>refreshed. case find (category_named name) refreshed of
            Some (i, n) \<Rightarrow> returnE i | None \<Rightarrow> throwE (thrown_error (no_category name refreshed)))) (\<lambda>s xs i. category_in s xs name i)"
        by (rule read_of_bind [OF categories_read, where R = "\<lambda>cs s xs i. xs = [] \<and> (\<exists>c. find (category_named name) cs = Some (i, c))"])
          (auto intro: read_of_return read_of_throw found split: option.split)
      with None show ?thesis by (auto simp: read_of_def)
    next
      case (Some p)
      then show ?thesis by (cases p) (auto intro: read_of_return)
    qed
  next
    fix s s' xs cs ys i
    assume "reads s s' xs" "known_categories s xs cs"
      "category_in s' ys name i \<or> (ys = [] \<and> (\<exists>c. find (category_named name) cs = Some (i, c)))"
    then show "category_in s (xs @ ys) name i" using resolved_after(2) found by auto
  qed
qed

section \<open>Preparing a posting\<close>

text \<open>The chart does not say that the source account keeps its books in another currency than the split is in.\<close>

definition currency_agrees :: "'w books \<Rightarrow> exchange list \<Rightarrow> posting_split \<Rightarrow> bool" where
  "currency_agrees s xs split \<longleftrightarrow> (truthy (ps_currencyCode split) \<longrightarrow> (\<exists>i accounts. resolved_in s xs (ps_sourceAccount split) i \<and>
     known_chart s xs accounts \<and> (\<forall>a cur. find (\<lambda>a. acc_id a = i) accounts = Some a \<longrightarrow> as_str (acc_currency a) = Some cur \<longrightarrow>
       cur = [] \<or> toUpperCase (coalesce (ps_currencyCode split) []) = toUpperCase cur)))"

definition category_fits :: "'w books \<Rightarrow> exchange list \<Rightarrow> posting_split \<Rightarrow> json option \<Rightarrow> bool" where
  "category_fits s xs split category \<longleftrightarrow> (case category of
     Some i \<Rightarrow> truthy (ps_categoryName split) \<and> category_in s xs (coalesce (ps_categoryName split) []) i
   | None \<Rightarrow> \<not> truthy (ps_categoryName split))"

lemma fits_after: "reads s s' xs \<Longrightarrow> category_fits s' ys split c \<Longrightarrow> category_fits s (xs @ ys) split c"
  by (auto simp: category_fits_def intro: resolved_after(2) split: option.splits)

lemma fits_grows: "category_fits s xs split c \<Longrightarrow> category_fits s (xs @ ys) split c"
  by (auto simp: category_fits_def intro: resolved_grows(2) split: option.splits)

definition prepared :: "'w firefly_deps \<Rightarrow> new_posting \<Rightarrow> 'w books \<Rightarrow> exchange list \<Rightarrow> posting_split \<Rightarrow> json \<Rightarrow> bool" where
  "prepared deps input s xs split row \<longleftrightarrow> (\<exists>source destination category. row = split_row (ff_uiBaseUrl deps) input split source destination category \<and>
     resolved_in s xs (ps_sourceAccount split) source \<and> resolved_in s xs (ps_destinationAccount split) destination \<and>
     currency_agrees s xs split \<and>
     category_fits s xs split category)"

lemma currency_after: "reads s s' xs \<Longrightarrow> currency_agrees s' ys split \<Longrightarrow> currency_agrees s (xs @ ys) split"
  unfolding currency_agrees_def by (blast intro: resolved_after known_chart_after)

lemma currency_grows: "currency_agrees s xs split \<Longrightarrow> currency_agrees s (xs @ ys) split"
  unfolding currency_agrees_def by (blast intro: resolved_grows known_grows)

lemma prepared_after: "reads s s' xs \<Longrightarrow> prepared deps input s' ys split row \<Longrightarrow> prepared deps input s (xs @ ys) split row"
  unfolding prepared_def by (blast intro: resolved_after(1) currency_after fits_after)

lemma prepared_grows: "prepared deps input s xs split row \<Longrightarrow> prepared deps input s (xs @ ys) split row"
  unfolding prepared_def by (blast intro: resolved_grows(1) currency_grows fits_grows)

lemma currency_read:
  "read_of (currencyOf deps name) (\<lambda>s xs cur. \<exists>i accounts. resolved_in s xs name i \<and> known_chart s xs accounts \<and>
     cur = (case find (\<lambda>a. acc_id a = i) accounts of None \<Rightarrow> None | Some a \<Rightarrow> as_str (acc_currency a)))"
  unfolding currencyOf_def
proof (rule read_of_bind [OF account_id_read])
  fix i
  show "read_of (bindE (listAccounts deps False) (\<lambda>accounts. returnE (case find (\<lambda>a. acc_id a = i) accounts of None \<Rightarrow> None | Some a \<Rightarrow> as_str (acc_currency a))))
    (\<lambda>s xs cur. \<exists>accounts. known_chart s xs accounts \<and>
       cur = (case find (\<lambda>a. acc_id a = i) accounts of None \<Rightarrow> None | Some a \<Rightarrow> as_str (acc_currency a)))"
    by (rule read_of_bind [OF chart_reads, where R = "\<lambda>accounts s xs cur. xs = [] \<and>
       cur = (case find (\<lambda>a. acc_id a = i) accounts of None \<Rightarrow> None | Some a \<Rightarrow> as_str (acc_currency a))"]) (auto intro: read_of_return)
qed (use resolved_grows(1) known_chart_after in blast)

lemma currency_checked: "read_of (check_currency deps split) (\<lambda>s xs u. currency_agrees s xs split)"
proof (cases "truthy (ps_currencyCode split)")
  case False
  then show ?thesis by (auto simp: check_currency_def currency_agrees_def intro: read_of_return)
next
  case True
  have "read_of (bindE (currencyOf deps (ps_sourceAccount split)) (\<lambda>cur.
      if truthy cur \<and> toUpperCase (coalesce (ps_currencyCode split) []) \<noteq> toUpperCase (coalesce cur [])
      then throwE (thrown_error (wrong_currency split (coalesce cur []) (coalesce (ps_currencyCode split) []))) else returnE ()))
    (\<lambda>s xs u. currency_agrees s xs split)"
  proof (rule read_of_bind [OF currency_read])
    fix cur
    show "read_of (if truthy cur \<and> toUpperCase (coalesce (ps_currencyCode split) []) \<noteq> toUpperCase (coalesce cur [])
      then throwE (thrown_error (wrong_currency split (coalesce cur []) (coalesce (ps_currencyCode split) []))) else returnE ())
      (\<lambda>s xs u. xs = [] \<and> (truthy cur \<longrightarrow> toUpperCase (coalesce (ps_currencyCode split) []) = toUpperCase (coalesce cur [])))"
      by (auto intro: read_of_return read_of_throw)
  next
    fix s s' :: "'a books" and xs ys :: "exchange list" and cur u
    assume "\<exists>i accounts. resolved_in s xs (ps_sourceAccount split) i \<and> known_chart s xs accounts \<and>
       cur = (case find (\<lambda>a. acc_id a = i) accounts of None \<Rightarrow> None | Some a \<Rightarrow> as_str (acc_currency a))"
      and "ys = [] \<and> (truthy cur \<longrightarrow> toUpperCase (coalesce (ps_currencyCode split) []) = toUpperCase (coalesce cur []))"
    then obtain i accounts where "resolved_in s xs (ps_sourceAccount split) i" "known_chart s xs accounts" and [simp]: "ys = []"
      and cur: "cur = (case find (\<lambda>a. acc_id a = i) accounts of None \<Rightarrow> None | Some a \<Rightarrow> as_str (acc_currency a))"
        "truthy cur \<longrightarrow> toUpperCase (coalesce (ps_currencyCode split) []) = toUpperCase (coalesce cur [])" by blast
    moreover have "code = [] \<or> toUpperCase (coalesce (ps_currencyCode split) []) = toUpperCase code"
      if "find (\<lambda>a. acc_id a = i) accounts = Some a" "as_str (acc_currency a) = Some code" for a code
      using cur that by auto
    ultimately show "currency_agrees s (xs @ ys) split" unfolding currency_agrees_def by auto
  qed
  with True show ?thesis by (simp add: check_currency_def)
qed

lemma category_chosen:
  "read_of (if truthy (ps_categoryName split) then bindE (resolveCategoryId deps (coalesce (ps_categoryName split) [])) (\<lambda>i. returnE (Some i))
     else returnE None) (\<lambda>s xs category. category_fits s xs split category)"
proof (cases "truthy (ps_categoryName split)")
  case True
  have "read_of (bindE (resolveCategoryId deps (coalesce (ps_categoryName split) [])) (\<lambda>i. returnE (Some i)))
    (\<lambda>s xs category. category_fits s xs split category)"
    by (rule read_of_bind [OF category_id_read, where R = "\<lambda>i s xs category. xs = [] \<and> category = Some i"])
      (use True in \<open>auto intro: read_of_return simp: category_fits_def\<close>)
  with True show ?thesis by simp
qed (auto intro: read_of_return simp: category_fits_def)

text \<open>What each step of a preparation adds, from the last one on.\<close>

lemma split_prepared: "read_of (prepare_split deps input split) (\<lambda>s xs row. prepared deps input s xs split row)"
proof -
  let ?row = "split_row (ff_uiBaseUrl deps) input split"
  let ?last = "\<lambda>source destination s xs row. \<exists>c. row = ?row source destination c \<and> category_fits s xs split c"
  let ?money = "\<lambda>source destination s xs row. currency_agrees s xs split \<and> ?last source destination s xs row"
  let ?to = "\<lambda>source s xs row. \<exists>destination. resolved_in s xs (ps_destinationAccount split) destination \<and> ?money source destination s xs row"
  show ?thesis
    unfolding prepare_split_def
  proof (rule read_of_bind [OF account_id_read, where R = ?to])
    fix source
    show "read_of (bindE (resolveAccountId deps (ps_destinationAccount split)) (\<lambda>destination. bindE (check_currency deps split) (\<lambda>_.
        bindE (if truthy (ps_categoryName split) then bindE (resolveCategoryId deps (coalesce (ps_categoryName split) [])) (\<lambda>i. returnE (Some i))
          else returnE None) (\<lambda>categoryId. returnE (?row source destination categoryId))))) (?to source)"
    proof (rule read_of_bind [OF account_id_read, where R = "?money source"])
      fix destination
      show "read_of (bindE (check_currency deps split) (\<lambda>_. bindE (if truthy (ps_categoryName split) then
          bindE (resolveCategoryId deps (coalesce (ps_categoryName split) [])) (\<lambda>i. returnE (Some i)) else returnE None)
          (\<lambda>categoryId. returnE (?row source destination categoryId)))) (?money source destination)"
      proof (rule read_of_bind [OF currency_checked, where R = "\<lambda>_. ?last source destination"])
        show "read_of (bindE (if truthy (ps_categoryName split) then bindE (resolveCategoryId deps (coalesce (ps_categoryName split) []))
            (\<lambda>i. returnE (Some i)) else returnE None) (\<lambda>categoryId. returnE (?row source destination categoryId))) (?last source destination)"
          by (rule read_of_bind [OF category_chosen, where R = "\<lambda>c s xs row. xs = [] \<and> row = ?row source destination c"])
            (auto intro: read_of_return)
      qed (blast intro: currency_grows fits_after)
    qed (blast intro: resolved_grows(1) currency_after fits_after)
  next
    fix s s' :: "'a books" and xs ys :: "exchange list" and source row
    assume "reads s s' xs" "resolved_in s xs (ps_sourceAccount split) source" "?to source s' ys row"
    then show "prepared deps input s (xs @ ys) split row"
      unfolding prepared_def by (blast intro: resolved_grows(1) resolved_after(1) currency_after fits_after)
  qed
qed

lemma splits_prepared:
  "read_of (mapE (prepare_split deps input) splits) (\<lambda>s xs items. list_all2 (prepared deps input s xs) splits items)"
proof (induction splits)
  case Nil
  then show ?case by (auto intro: read_of_return)
next
  case (Cons split rest)
  show ?case
    unfolding mapE.simps
  proof (rule read_of_bind [OF split_prepared])
    fix row
    show "read_of (bindE (mapE (prepare_split deps input) rest) (\<lambda>items. returnE (row # items)))
      (\<lambda>s xs items. \<exists>tail. items = row # tail \<and> list_all2 (prepared deps input s xs) rest tail)"
      by (rule read_of_bind [OF Cons.IH, where R = "\<lambda>tail s xs items. xs = [] \<and> items = row # tail"]) (auto intro: read_of_return)
  next
    fix s s' :: "'a books" and xs ys :: "exchange list" and row items
    assume "reads s s' xs" "prepared deps input s xs split row"
      "\<exists>tail. items = row # tail \<and> list_all2 (prepared deps input s' ys) rest tail"
    then show "list_all2 (prepared deps input s (xs @ ys)) (split # rest) items"
      by (auto intro: prepared_grows elim!: list_all2_mono dest: prepared_after)
  qed
qed

section \<open>Sending a posting\<close>

definition sends :: "new_posting \<Rightarrow> json list \<Rightarrow> bool \<Rightarrow> exchange \<Rightarrow> bool" where
  "sends input items flag x \<longleftrightarrow> ex_method x = ''POST'' \<and> ex_path x = ''/transactions'' \<and> ex_body x = transactions_body input items flag"

text \<open>Firefly said that the transaction is not there any more.\<close>

definition gone :: "string \<Rightarrow> exchange \<Rightarrow> bool" where
  "gone i x \<longleftrightarrow> ex_method x = ''GET'' \<and> ex_path x = ''/transactions/'' @ i \<and> (\<exists>e. ex_answer x = Inl e \<and> fe_status e \<in> {401, 404})"

definition refused_over :: "string \<Rightarrow> exchange \<Rightarrow> bool" where
  "refused_over i x \<longleftrightarrow> (\<exists>e. ex_answer x = Inl e \<and> duplicateHashVictim e = Inr (Some i))"

text \<open>
  The exchanges of one sending: at most the posting, and after a refusal that names a duplicate the question
  whether that is there, and only when it is gone the posting once more, without the check.
\<close>

definition sending :: "new_posting \<Rightarrow> json list \<Rightarrow> exchange list \<Rightarrow> bool" where
  "sending input items xs \<longleftrightarrow> xs = [] \<or> (\<exists>p rest. xs = p # rest \<and> sends input items True p \<and>
     (rest = [] \<or> (\<exists>i. refused_over i p \<and> ((\<exists>q. rest = [q] \<and> ex_method q = ''GET'') \<or>
        (\<exists>q again. rest = [q, again] \<and> gone i q \<and> sends input items False again)))))"

definition told_id :: "exchange list \<Rightarrow> json \<Rightarrow> bool" where
  "told_id xs i \<longleftrightarrow> xs \<noteq> [] \<and> (\<exists>payload. ex_answer (last xs) = Inr payload \<and> booked_now payload = Inr (i, False))"

lemma booked_now_new: "booked_now payload = Inr (i, b) \<Longrightarrow> \<not> b"
  by (auto simp: booked_now_def bindR_def split: sum.splits)

lemma call_posts:
  assumes "call deps method route body s = (r, s')"
  shows "bk_exchanges s' = bk_exchanges s \<and> (\<forall>payload. r \<noteq> Inr payload) \<or> (\<exists>answer. bk_exchanges s' = bk_exchanges s @
     [\<lparr>ex_method = method, ex_path = route, ex_body = body, ex_answer = answer\<rparr>] \<and> (\<forall>payload. r = Inr payload \<longrightarrow> answer = Inr payload))"
proof -
  obtain a where c: "call_firefly deps method route body s = (a, s')"
    and r: "r = (case a of Inl e \<Rightarrow> Inl e | Inr (Inl e) \<Rightarrow> Inl (thrown_error e) | Inr (Inr payload) \<Rightarrow> Inr payload)"
    using assms by (auto simp: call_def bindE_def throwE_def returnE_def split: prod.splits sum.splits)
  from call_once [OF c] show ?thesis
  proof
    assume "unheard s s' \<and> (\<forall>payload. a \<noteq> Inr (Inr payload)) \<and> (\<forall>e. a = Inr (Inl e) \<longrightarrow> fe_status e = 0)"
    then show ?thesis using r by (auto simp: unheard_def split: sum.splits)
  next
    assume "\<exists>answer. a = Inr answer \<and> one_more s s' \<lparr>ex_method = method, ex_path = route, ex_body = body, ex_answer = answer\<rparr>"
    then show ?thesis using r by (auto simp: one_more_def split: sum.splits)
  qed
qed

lemma exists_answer:
  assumes "transactionExists deps i s = (r, s')"
  shows "(\<exists>b. r = Inr b \<and> (bk_exchanges s' = bk_exchanges s \<and> b \<or> (\<exists>q. bk_exchanges s' = bk_exchanges s @ [q] \<and> ex_method q = ''GET'' \<and>
     (\<not> b \<longrightarrow> gone i q))))"
proof -
  obtain a where c: "call_firefly deps ''GET'' (''/transactions/'' @ i) JUndef s = (a, s')"
    and r: "r = Inr (case a of Inr (Inl e) \<Rightarrow> fe_status e \<noteq> 401 \<and> fe_status e \<noteq> 404 | _ \<Rightarrow> True)"
    using assms by (auto simp: transactionExists_def bindE_def attemptE_def returnE_def split: prod.splits)
  from call_once [OF c] show ?thesis
  proof
    assume "unheard s s' \<and> (\<forall>payload. a \<noteq> Inr (Inr payload)) \<and> (\<forall>e. a = Inr (Inl e) \<longrightarrow> fe_status e = 0)"
    then show ?thesis using r by (auto simp: unheard_def split: sum.splits)
  next
    let ?x = "\<lambda>answer. \<lparr>ex_method = ''GET'', ex_path = ''/transactions/'' @ i, ex_body = JUndef, ex_answer = answer\<rparr>"
    assume "\<exists>answer. a = Inr answer \<and> one_more s s' (?x answer)"
    then obtain answer where a: "a = Inr answer" "bk_exchanges s' = bk_exchanges s @ [?x answer]" by (auto simp: one_more_def)
    then show ?thesis using r by (cases answer) (auto simp: gone_def)
  qed
qed

lemma posting_sent:
  assumes "send_posting deps input items s = (r, s')"
  shows "\<exists>xs. bk_exchanges s' = bk_exchanges s @ xs \<and> sending input items xs \<and> (\<forall>i b. r = Inr (i, b) \<longrightarrow> \<not> b \<and> told_id xs i)"
proof -
  obtain a s1 where c: "call_firefly deps ''POST'' ''/transactions'' (transactions_body input items True) s = (a, s1)" by fastforce
  let ?p = "\<lambda>answer. \<lparr>ex_method = ''POST'', ex_path = ''/transactions'', ex_body = transactions_body input items True, ex_answer = answer\<rparr>"
  from call_once [OF c] show ?thesis
  proof
    assume u: "unheard s s1 \<and> (\<forall>payload. a \<noteq> Inr (Inr payload)) \<and> (\<forall>e. a = Inr (Inl e) \<longrightarrow> fe_status e = 0)"
    have "s' = s1 \<and> (\<forall>x. r \<noteq> Inr x)"
    proof (cases a)
      case (Inr y)
      with u obtain e where "a = Inr (Inl e)" "fe_status e = 0" by (cases y) auto
      with assms c show ?thesis by (auto simp: send_posting_def bindE_def duplicateHashVictim_def throwE_def returnE_def)
    qed (use assms c in \<open>auto simp: send_posting_def bindE_def\<close>)
    with u show ?thesis by (auto simp: unheard_def sending_def)
  next
    assume "\<exists>answer. a = Inr answer \<and> one_more s s1 (?p answer)"
    then obtain answer where a: "a = Inr answer" and s1: "bk_exchanges s1 = bk_exchanges s @ [?p answer]" by (auto simp: one_more_def)
    have p: "sends input items True (?p answer)" by (simp add: sends_def)
    show ?thesis
    proof (cases answer)
      case (Inr payload)
      with assms c a have "s' = s1" "r = booked_now payload" by (simp_all add: send_posting_def bindE_def liftR_def)
      with s1 p Inr show ?thesis
        by (intro exI [of _ "[?p answer]"]) (auto simp: sending_def told_id_def dest: booked_now_new)
    next
      case (Inl e)
      show ?thesis
      proof (cases "\<exists>i. duplicateHashVictim e = Inr (Some i)")
        case False
        with assms c a Inl have "s' = s1 \<and> (\<forall>x. r \<noteq> Inr x)"
          by (cases "duplicateHashVictim e") (auto simp: send_posting_def bindE_def throwE_def returnE_def split: option.splits)
        with s1 p show ?thesis by (intro exI [of _ "[?p answer]"]) (auto simp: sending_def)
      next
        case True
        then obtain i where i: "duplicateHashVictim e = Inr (Some i)" by blast
        then have over: "refused_over i (?p answer)" using Inl by (simp add: refused_over_def)
        obtain there s2 where x: "transactionExists deps i s1 = (there, s2)" by fastforce
        from exists_answer [OF x] obtain b where b: "there = Inr b"
          and q: "bk_exchanges s2 = bk_exchanges s1 \<and> b \<or> (\<exists>q. bk_exchanges s2 = bk_exchanges s1 @ [q] \<and> ex_method q = ''GET'' \<and> (\<not> b \<longrightarrow> gone i q))"
          by blast
        show ?thesis
        proof (cases b)
          case True
          with assms c a Inl i x b have "s' = s2" "\<And>y. r \<noteq> Inr y" by (auto simp: send_posting_def bindE_def throwE_def returnE_def)
          with q s1 p over show ?thesis unfolding sending_def by fastforce
        next
          case False
          with q obtain q where q: "bk_exchanges s2 = bk_exchanges s1 @ [q]" "ex_method q = ''GET''" "gone i q" by blast
          obtain a2 s3 where c2: "call deps ''POST'' ''/transactions'' (transactions_body input items False) s2 = (a2, s3)" by fastforce
          from False assms c a Inl i x b c2 have s': "s' = s3" and r: "r = (case a2 of Inl e \<Rightarrow> Inl e | Inr payload \<Rightarrow> booked_now payload)"
            by (auto simp: send_posting_def bindE_def liftR_def returnE_def split: sum.splits)
          let ?q = "\<lambda>answer. \<lparr>ex_method = ''POST'', ex_path = ''/transactions'', ex_body = transactions_body input items False, ex_answer = answer\<rparr>"
          from call_posts [OF c2] show ?thesis
          proof
            assume "bk_exchanges s3 = bk_exchanges s2 \<and> (\<forall>payload. a2 \<noteq> Inr payload)"
            with s' r q s1 p over show ?thesis
              by (intro exI [of _ "[?p answer, q]"]) (cases a2, auto simp: sending_def)
          next
            assume "\<exists>answer. bk_exchanges s3 = bk_exchanges s2 @ [?q answer] \<and> (\<forall>payload. a2 = Inr payload \<longrightarrow> answer = Inr payload)"
            then obtain answer2 where z: "bk_exchanges s3 = bk_exchanges s2 @ [?q answer2]" "\<And>payload. a2 = Inr payload \<Longrightarrow> answer2 = Inr payload" by blast
            have "sending input items [?p answer, q, ?q answer2]" using p over q by (auto simp: sending_def sends_def)
            moreover have "\<not> flag \<and> told_id [?p answer, q, ?q answer2] j" if "r = Inr (j, flag)" for j flag
              using that r z(2) booked_now_new by (cases a2) (auto simp: told_id_def)
            moreover have "bk_exchanges s' = bk_exchanges s @ [?p answer, q, ?q answer2]" using z(1) q(1) s1 s' by simp
            ultimately show ?thesis by blast
          qed
        qed
      qed
    qed
  qed
qed

section \<open>Posting\<close>

definition probe :: "new_posting \<Rightarrow> exchange \<Rightarrow> json option \<Rightarrow> bool" where
  "probe input x found \<longleftrightarrow> (\<exists>payload. asked_for (external_id_route (pt_externalId input)) x payload \<and> first_found payload = Inr found)"

text \<open>One of the answers names a group that books these very items for the Thing of the posting.\<close>

definition booked_before :: "new_posting \<Rightarrow> json list \<Rightarrow> exchange list \<Rightarrow> json \<Rightarrow> bool" where
  "booked_before input items xs i \<longleftrightarrow> truthy (pt_thingId input) \<and> (\<exists>x \<in> set xs. \<exists>payload.
     asked_for (tag_route (coalesce (pt_thingId input) [])) x payload \<and> bindR (data_rows payload) (same_posting items) = Inr (Some i))"

lemma probe_read: "read_of (findByExternalId deps (pt_externalId input)) (\<lambda>s xs found. \<exists>x. xs = [x] \<and> probe input x found)"
  unfolding findByExternalId_def
  by (rule read_of_bind [OF call_reads, where R = "\<lambda>payload s xs found. xs = [] \<and> first_found payload = Inr found"])
    (auto intro: read_of_lift simp: probe_def)

lemma before_read:
  "read_of (if truthy (pt_thingId input) then findSamePostingForThing deps (coalesce (pt_thingId input) []) items else returnE None)
    (\<lambda>s xs already. \<forall>i. already = Some i \<longrightarrow> booked_before input items xs i)"
proof (cases "truthy (pt_thingId input)")
  case True
  have "read_of (findSamePostingForThing deps (coalesce (pt_thingId input) []) items) (\<lambda>s xs already. \<forall>i. already = Some i \<longrightarrow> booked_before input items xs i)"
    unfolding findSamePostingForThing_def
    by (rule read_of_bind [OF call_reads, where R = "\<lambda>payload s xs already. xs = [] \<and> bindR (data_rows payload) (same_posting items) = Inr already"])
      (use True in \<open>auto intro: read_of_lift simp: booked_before_def\<close>)
  with True show ?thesis by simp
qed (auto intro: read_of_return)

text \<open>
  The exchanges of one posting: the search for its key, the reading that prepares its items, and the sending.
\<close>

lemma posting_exchanges:
  assumes "postOnce deps input s = (r, s')"
  shows "\<exists>xs ys items. bk_exchanges s' = bk_exchanges s @ xs @ ys \<and> (\<forall>x \<in> set xs. ex_method x = ''GET'') \<and> sending input items ys \<and>
    (ys \<noteq> [] \<longrightarrow> (\<exists>x rest. xs = x # rest \<and> probe input x None) \<and> list_all2 (prepared deps input s xs) (pt_splits input) items) \<and>
    (\<forall>i b. r = Inr (i, b) \<longrightarrow> (if b then ys = [] \<and> ((\<exists>x. xs = [x] \<and> probe input x (Some i)) \<or> booked_before input items xs i) else told_id ys i))"
proof -
  obtain a s1 where f: "findByExternalId deps (pt_externalId input) s = (a, s1)" by fastforce
  obtain xs1 where x1: "reads s s1 xs1" "\<And>found. a = Inr found \<Longrightarrow> \<exists>x. xs1 = [x] \<and> probe input x found"
    using read_ofD [OF probe_read f] by auto
  have only_reads: ?thesis if "reads s s' xs" "\<And>i b. r = Inr (i, b) \<Longrightarrow> b \<and> ((\<exists>x. xs = [x] \<and> probe input x (Some i)) \<or> booked_before input items xs i)"
    for xs items
  proof (intro exI conjI allI impI)
    show "bk_exchanges s' = bk_exchanges s @ xs @ []" "\<forall>x \<in> set xs. ex_method x = ''GET''" using that(1) by (simp_all add: reads_def)
    show "sending input items []" by (simp add: sending_def)
    fix i b assume "r = Inr (i, b)"
    from that(2) [OF this] show "if b then [] = [] \<and> ((\<exists>x. xs = [x] \<and> probe input x (Some i)) \<or> booked_before input items xs i) else told_id [] i"
      by simp
  qed simp_all
  show ?thesis
  proof (cases "a = Inr None")
    case False
    show ?thesis
    proof (cases a)
      case (Inl e)
      with assms f have "s' = s1" "r = Inl e" by (simp_all add: postOnce_def bindE_def)
      with x1(1) show ?thesis by (intro only_reads [of xs1]) simp_all
    next
      case (Inr found)
      with False obtain i where i: "found = Some i" by (cases found) auto
      with assms f Inr have "s' = s1" "r = Inr (i, True)" by (simp_all add: postOnce_def bindE_def returnE_def)
      with x1 Inr i show ?thesis by (intro only_reads [of xs1]) simp_all
    qed
  next
    case True
    then obtain x where x: "xs1 = [x]" "probe input x None" using x1(2) by blast
    obtain b s2 where m: "mapE (prepare_split deps input) (pt_splits input) s1 = (b, s2)" by fastforce
    obtain xs2 where x2: "reads s1 s2 xs2" "\<And>items. b = Inr items \<Longrightarrow> list_all2 (prepared deps input s1 xs2) (pt_splits input) items"
      using read_ofD [OF splits_prepared m] by auto
    show ?thesis
    proof (cases b)
      case (Inl e)
      with assms f True m have "s' = s2" "r = Inl e" by (simp_all add: postOnce_def bindE_def)
      with reads_trans [OF x1(1) x2(1)] show ?thesis by (intro only_reads [of "xs1 @ xs2"]) simp_all
    next
      case (Inr items)
      let ?look = "if truthy (pt_thingId input) then findSamePostingForThing deps (coalesce (pt_thingId input) []) items else returnE None"
      obtain c s3 where l: "?look s2 = (c, s3)" by fastforce
      obtain xs3 where x3: "reads s2 s3 xs3" "\<And>i. c = Inr (Some i) \<Longrightarrow> booked_before input items xs3 i"
        using read_ofD [OF before_read l] by auto
      let ?xs = "xs1 @ xs2 @ xs3"
      have all: "reads s s3 ?xs" using reads_trans [OF x1(1) reads_trans [OF x2(1) x3(1)]] .
      have rest: "(case c of Inl e \<Rightarrow> (Inl e, s3) | Inr (Some i) \<Rightarrow> (Inr (i, True), s3) | Inr None \<Rightarrow> send_posting deps input items s3) = (r, s')"
        using assms f True m Inr l by (simp add: postOnce_def bindE_def returnE_def split: sum.splits option.splits)
      show ?thesis
      proof (cases "c = Inr None")
        case False
        with rest have "s' = s3 \<and> (\<forall>i b. r = Inr (i, b) \<longrightarrow> b \<and> c = Inr (Some i))" by (auto split: sum.splits option.splits)
        with all x3(2) show ?thesis by (intro only_reads [of ?xs items]) (auto simp: booked_before_def)
      next
        case True
        with rest have "send_posting deps input items s3 = (r, s')" by simp
        from posting_sent [OF this] obtain ys where ys: "bk_exchanges s' = bk_exchanges s3 @ ys" "sending input items ys"
          "\<forall>i b. r = Inr (i, b) \<longrightarrow> \<not> b \<and> told_id ys i" by blast
        have "list_all2 (prepared deps input s ?xs) (pt_splits input) items"
          using x2(2) [OF Inr] by (rule list_all2_mono) (use prepared_after [OF x1(1)] prepared_grows in fastforce)
        with ys all x show ?thesis
          by (intro exI [of _ ?xs] exI [of _ ys] exI [of _ items]) (auto simp: reads_def)
      qed
    qed
  qed
qed

end
