(* ===== verification/FireflyProperties.thy ===== *)
theory FireflyProperties
  imports FireflyFacts
begin

text \<open>
  What the bookkeeping Connector promises (\<open>runtime/src/connectors/firefly.ts\<close>): nothing is booked that is
  booked already, and nothing on an account or a category Firefly did not list.
\<close>

section \<open>One booking\<close>

definition posted_lines :: "string list" where
  "posted_lines = [''{\"data\":[]}'',
     ''{\"data\":[{\"id\":\"1\",\"attributes\":{\"name\":\"Cash\"}},{\"id\":\"2\",\"attributes\":{\"name\":\"Food\"}}]}'',
     ''{\"data\":{\"id\":\"7\"}}'']"

definition ledger :: "nat firefly_deps" where
  "ledger = \<lparr>ff_baseUrl = ''http://f'', ff_tokenFile = None, ff_uiBaseUrl = ''http://ui'',
     ff_fetch = (\<lambda>method url token body n. (Inr \<lparr>hr_status = 200, hr_text = posted_lines ! n\<rparr>, Suc n)),
     ff_readFile = (\<lambda>file. throwE (JsError ''Error'' ''no file'')), ff_today = (\<lambda>n. ''2026-01-01'')\<rparr>"

definition opened :: "nat books" where
  "opened = \<lparr>bk_accounts = None, bk_categories = None, bk_token = ''t'', bk_world = 0, bk_exchanges = []\<rparr>"

definition lunch :: new_posting where
  "lunch = \<lparr>pt_groupTitle = None, pt_externalId = ''c:1'', pt_thingId = None, pt_splits = [\<lparr>ps_type = ''withdrawal'',
     ps_date = ''2026-01-01'', ps_amount = ''9.50'', ps_description = ''lunch'', ps_currencyCode = None, ps_sourceAccount = ''Cash'',
     ps_destinationAccount = ''food'', ps_budgetName = None, ps_categoryName = None, ps_notes = None\<rparr>]\<rparr>"

lemma lunch_posted: "fst (postOnce ledger lunch opened) = Inr (JStr ''7'', False)"
  by code_simp

text \<open>
  C9. Nothing is booked twice under one key. A posting is sent only after Firefly, asked for the key in the
  same call, named no transaction; at most one posting is accepted, for a second one is sent only after the
  first was refused over a transaction that Firefly, asked, said is gone. When the call says that the
  transaction was there already nothing was sent, and Firefly named it under the key or as a booking of the
  same items for the Thing; when it says that it is new, Firefly's answer to the last posting named it.
\<close>

theorem booking_asks_first:
  assumes "postOnce deps input s = (r, s')"
  shows "\<exists>xs ys items. bk_exchanges s' = bk_exchanges s @ xs @ ys \<and> (\<forall>x \<in> set xs. ex_method x = ''GET'') \<and>
    sending input items ys \<and> (ys \<noteq> [] \<longrightarrow> (\<exists>x rest. xs = x # rest \<and> probe input x None)) \<and>
    (\<forall>i. r = Inr (i, True) \<longrightarrow> ys = [] \<and> ((\<exists>x. xs = [x] \<and> probe input x (Some i)) \<or> booked_before input items xs i)) \<and>
    (\<forall>i. r = Inr (i, False) \<longrightarrow> told_id ys i)"
proof -
  from posting_exchanges [OF assms] obtain xs ys items where e: "bk_exchanges s' = bk_exchanges s @ xs @ ys"
    "\<forall>x \<in> set xs. ex_method x = ''GET''" "sending input items ys" "ys \<noteq> [] \<longrightarrow> (\<exists>x rest. xs = x # rest \<and> probe input x None)"
    and result: "\<forall>i b. r = Inr (i, b) \<longrightarrow> (if b then ys = [] \<and> ((\<exists>x. xs = [x] \<and> probe input x (Some i)) \<or> booked_before input items xs i)
      else told_id ys i)" by blast
  have there: "\<forall>i. r = Inr (i, True) \<longrightarrow> ys = [] \<and> ((\<exists>x. xs = [x] \<and> probe input x (Some i)) \<or> booked_before input items xs i)"
    and new: "\<forall>i. r = Inr (i, False) \<longrightarrow> told_id ys i"
    using result [rule_format] by fastforce+
  show ?thesis
    by (rule exI [of _ xs], rule exI [of _ ys], rule exI [of _ items]) (intro conjI e there new)
qed

theorem booking_asks_first_witness:
  "\<exists>s' xs ys items. postOnce ledger lunch opened = (Inr (JStr ''7'', False), s') \<and> bk_exchanges s' = xs @ ys \<and>
     sending lunch items ys \<and> told_id ys (JStr ''7'') \<and> (\<exists>x rest. xs = x # rest \<and> probe lunch x None)"
proof -
  obtain s' where run: "postOnce ledger lunch opened = (Inr (JStr ''7'', False), s')"
    using lunch_posted by (cases "postOnce ledger lunch opened") simp
  obtain xs ys items where e: "bk_exchanges s' = bk_exchanges opened @ xs @ ys"
    "sending lunch items ys" "ys \<noteq> [] \<longrightarrow> (\<exists>x rest. xs = x # rest \<and> probe lunch x None)"
    and told: "told_id ys (JStr ''7'')"
    using booking_asks_first [OF run] by (elim exE conjE) simp
  then have "ys \<noteq> []" by (simp add: told_id_def)
  with e(3) have "\<exists>x rest. xs = x # rest \<and> probe lunch x None" by simp
  moreover have "bk_exchanges s' = xs @ ys" using e(1) by (simp add: opened_def)
  ultimately show ?thesis using run e(2) told by blast
qed


lemma lunch_last: "(let xs = bk_exchanges (snd (postOnce ledger lunch opened)) in length xs = 3 \<and> ex_method (xs ! 2) = ''POST'')"
  by code_simp


section \<open>Where the code falls short\<close>

text \<open>
  Two groups of as many items count as the same when each wanted item agrees with some booked one: a group
  with one item twice counts as booked by a group that has that item once and another one besides.
\<close>

lemma repeated_item_taken_for_booked:
  assumes "sameSplit item first = Inr True" and "pget (obj_props (pget (obj_props grp) ''attributes'')) ''transactions'' = JArr [first, second]"
    and "grp = JObj ps" and "pget ps ''id'' = i"
  shows "same_posting [item, item] (grp # groups) = Inr (Some i)"
  using assms by (simp add: booked_splits_def row_prop_def obj_props_def nullish_def)

end
