(* ===== verification/Config.thy ===== *)
theory Config
  imports Inbound MailIngest Numbers
begin

text \<open>
  The configuration (\<open>runtime/src/config.ts\<close>): every value the Runtime reads from its environment, with what
  it does with one that is missing, empty or no number; and what is opened on the strength of it, the door
  outward (\<open>runtime/src/index.ts\<close>) and the letterbox (\<open>buildMailbox\<close> of \<open>runtime/src/services.ts\<close>). The
  environment is the list of its variables in their order.
\<close>

section \<open>Reading a variable\<close>

type_synonym environment = "(string \<times> string) list"

definition env_value :: "environment \<Rightarrow> string \<Rightarrow> string" where
  "env_value env name = coalesce (map_of env name) []"

definition required :: "environment \<Rightarrow> string \<Rightarrow> string result" where
  "required env name = (if env_value env name = []
     then Inl (JsError ''Error'' (''Missing required environment variable '' @ name)) else Inr (env_value env name))"

definition optional :: "environment \<Rightarrow> string \<Rightarrow> string \<Rightarrow> string" where
  "optional env name fallback = (if env_value env name = [] then fallback else env_value env name)"

definition number :: "environment \<Rightarrow> string \<Rightarrow> js_num \<Rightarrow> js_num result" where
  "number env name fallback =
     (let raw = env_value env name; parsed = string_to_number raw in
      if raw = [] then Inr fallback
      else if is_finite_num parsed then Inr parsed
      else Inl (JsError ''Error'' (''Environment variable '' @ name @ '' is not a number: '' @ raw)))"

definition list_of :: "environment \<Rightarrow> string \<Rightarrow> string list" where
  "list_of env name = filter (\<lambda>item. item \<noteq> []) (map trim (split_on (CHR '','') (env_value env name)))"

section \<open>Egresses\<close>

record egress_config =
  eg_url :: string
  eg_token :: string
  eg_tokenFile :: "string option"

record dynamic_operation_config =
  dc_timeoutMs :: js_num
  dc_maxBodyBytes :: js_num
  dc_memoryMb :: js_num
  dc_cacheTtlMs :: js_num
  dc_egresses :: "(string \<times> egress_config) list"

definition clampTimeoutMs :: "dynamic_operation_config \<Rightarrow> js_num option \<Rightarrow> js_num" where
  "clampTimeoutMs config requested = (case requested of
     None \<Rightarrow> dc_timeoutMs config
   | Some n \<Rightarrow> if \<not> is_finite_num n \<or> num_less_eq n (num_of_int 0) then dc_timeoutMs config
       else num_min n (dc_timeoutMs config))"

text \<open>\<open>/^EGRESS_(.+)_URL$/\<close>\<close>

definition egress_name :: "string \<Rightarrow> string option" where
  "egress_name key =
     (let name = drop 7 (take (length key - 4) key) in
      if starts_with ''EGRESS_'' key \<and> drop (length key - 4) key = ''_URL'' \<and> 12 \<le> length key \<and> \<not> CHR 0x0A \<in> set name
        \<and> \<not> CHR 0x0D \<in> set name
      then Some name else None)"

definition add_egress :: "environment \<Rightarrow> string \<Rightarrow> (string \<times> egress_config) list \<Rightarrow> (string \<times> egress_config) list" where
  "add_egress env key table = (case egress_name key of None \<Rightarrow> table
     | Some raw \<Rightarrow> if env_value env key = [] then table
         else AList.update (toLowerCase raw) \<lparr>eg_url = env_value env key, eg_token = env_value env (''EGRESS_'' @ raw @ ''_TOKEN''),
           eg_tokenFile = (let file = env_value env (''EGRESS_'' @ raw @ ''_TOKEN_FILE'') in if file = [] then None else Some file)\<rparr> table)"

definition egressTable :: "environment \<Rightarrow> (string \<times> egress_config) list \<Rightarrow> (string \<times> egress_config) list" where
  "egressTable env defaults = fold (add_egress env) (map fst env) defaults"

section \<open>The configuration\<close>

datatype mail_transport = ImapTransport | GmailTransport

fun transport_name :: "mail_transport \<Rightarrow> string" where
  "transport_name ImapTransport = ''imap''"
| "transport_name GmailTransport = ''gmail''"

record gmail_credentials =
  gc_user :: string
  gc_clientId :: string
  gc_clientSecret :: string
  gc_refreshToken :: string

record mail_settings =
  ms_host :: string
  ms_port :: js_num
  ms_user :: string
  ms_password :: string
  ms_secure :: bool
  ms_folderIncoming :: string
  ms_folderProcessed :: string
  ms_folderFailed :: string
  ms_folderRejected :: string
  ms_allowedSenders :: "string list"
  ms_pollIntervalMs :: js_num
  ms_maxPerPoll :: js_num
  ms_maxAttachmentBytes :: js_num
  ms_transport :: mail_transport
  ms_gmail :: gmail_credentials

record config =
  cf_thingStoreUrl :: string
  cf_thingStoreUser :: string
  cf_thingStorePassword :: string
  cf_bootstrapUser :: string
  cf_bootstrapPassword :: string
  cf_locale :: string
  cf_keycloakUrl :: string
  cf_keycloakRealm :: string
  cf_keycloakClientId :: string
  cf_fireflyUrl :: string
  cf_fireflyTokenFile :: string
  cf_fireflyToken :: string
  cf_llmConfigFile :: string
  cf_scanIntervalMs :: js_num
  cf_leaseSeconds :: js_num
  cf_maxBirthsPerHour :: js_num
  cf_maxEscalations :: js_num
  cf_llmMaxAttempts :: js_num
  cf_uiBaseUrl :: string
  cf_scheduleTimezone :: string
  cf_inboundPort :: js_num
  cf_inboundSecret :: string
  cf_clientCallable :: "string list"
  cf_mail :: mail_settings
  cf_visionMaxPages :: js_num
  cf_visionMaxBytes :: js_num
  cf_dynamicOperation :: dynamic_operation_config

definition gmail_of :: "environment \<Rightarrow> gmail_credentials" where
  "gmail_of env = \<lparr>gc_user = optional env ''GMAIL_USER'' [], gc_clientId = optional env ''GMAIL_CLIENT_ID'' [],
     gc_clientSecret = optional env ''GMAIL_CLIENT_SECRET'' [], gc_refreshToken = optional env ''GMAIL_REFRESH_TOKEN'' []\<rparr>"

definition transport_of :: "environment \<Rightarrow> mail_transport" where
  "transport_of env = (if optional env ''MAIL_TRANSPORT'' (if gc_refreshToken (gmail_of env) = [] then ''imap'' else ''gmail'') = ''gmail''
     then GmailTransport else ImapTransport)"

definition mail_settings_of :: "environment \<Rightarrow> mail_settings result" where
  "mail_settings_of env =
     bindR (number env ''MAIL_PORT'' (num_of_int 993)) (\<lambda>port.
     bindR (number env ''MAIL_POLL_INTERVAL_MS'' (num_of_int 60000)) (\<lambda>poll.
     bindR (number env ''MAIL_MAX_PER_POLL'' (num_of_int 20)) (\<lambda>most.
     bindR (number env ''MAIL_MAX_ATTACHMENT_BYTES'' (num_of_int (25 * 1024 * 1024))) (\<lambda>bytes.
     Inr \<lparr>ms_host = optional env ''MAIL_HOST'' [], ms_port = port, ms_user = optional env ''MAIL_USER'' [],
       ms_password = optional env ''MAIL_PASSWORD'' [], ms_secure = (optional env ''MAIL_SECURE'' ''true'' \<noteq> ''false''),
       ms_folderIncoming = optional env ''MAIL_FOLDER_INCOMING'' ''assistants'',
       ms_folderProcessed = optional env ''MAIL_FOLDER_PROCESSED'' ''assistants/processed'',
       ms_folderFailed = optional env ''MAIL_FOLDER_FAILED'' ''assistants/failed'',
       ms_folderRejected = optional env ''MAIL_FOLDER_REJECTED'' ''assistants/rejected'',
       ms_allowedSenders = map toLowerCase (list_of env ''MAIL_ALLOWED_SENDERS''),
       ms_pollIntervalMs = poll, ms_maxPerPoll = most, ms_maxAttachmentBytes = bytes,
       ms_transport = transport_of env, ms_gmail = gmail_of env\<rparr>))))"

definition bookkeeping_egress :: "environment \<Rightarrow> egress_config" where
  "bookkeeping_egress env = \<lparr>eg_url = optional env ''FIREFLY_URL'' ''http://firefly:8080'', eg_token = optional env ''FIREFLY_TOKEN'' [],
     eg_tokenFile = (let file = optional env ''FIREFLY_TOKEN_FILE'' ''/run/firefly/pat.txt'' in if file = [] then None else Some file)\<rparr>"

definition dynamic_operation_of :: "environment \<Rightarrow> dynamic_operation_config result" where
  "dynamic_operation_of env =
     bindR (number env ''DYNAMIC_OPERATION_TIMEOUT_MS'' (num_of_int 20000)) (\<lambda>timeout.
     bindR (number env ''DYNAMIC_OPERATION_MAX_BODY_BYTES'' (num_of_int (4 * 1024 * 1024))) (\<lambda>body.
     bindR (number env ''DYNAMIC_OPERATION_MEMORY_MB'' (num_of_int 128)) (\<lambda>memory.
     bindR (number env ''DYNAMIC_OPERATION_CACHE_TTL_MS'' (num_of_int 300000)) (\<lambda>ttl.
     Inr \<lparr>dc_timeoutMs = timeout, dc_maxBodyBytes = body, dc_memoryMb = memory, dc_cacheTtlMs = ttl,
       dc_egresses = egressTable env [(''bookkeeping'', bookkeeping_egress env)]\<rparr>))))"

text \<open>The variables that may stop the Runtime, in the order they are read.\<close>

definition loadConfig :: "environment \<Rightarrow> config result" where
  "loadConfig env =
     bindR (number env ''INBOUND_PORT'' (num_of_int 0)) (\<lambda>inboundPort.
     bindR (required env ''THINGSTORE_PASSWORD'') (\<lambda>password.
     bindR (number env ''SCAN_INTERVAL_MS'' (num_of_int 2000)) (\<lambda>scanInterval.
     bindR (number env ''LEASE_SECONDS'' (num_of_int 120)) (\<lambda>leaseSeconds.
     bindR (number env ''MAX_BIRTHS_PER_HOUR'' (num_of_int 200)) (\<lambda>births.
     bindR (number env ''MAX_ESCALATIONS'' (num_of_int 3)) (\<lambda>escalations.
     bindR (number env ''LLM_MAX_ATTEMPTS'' (num_of_int 3)) (\<lambda>attempts.
     bindR (if inboundPort = num_of_int 0 then Inr [] else required env ''INBOUND_SECRET'') (\<lambda>secret.
     bindR (mail_settings_of env) (\<lambda>mail.
     bindR (number env ''VISION_MAX_PAGES'' (num_of_int 10)) (\<lambda>pages.
     bindR (number env ''VISION_MAX_BYTES'' (num_of_int (16 * 1024 * 1024))) (\<lambda>bytes.
     bindR (dynamic_operation_of env) (\<lambda>dynamic.
     Inr \<lparr>cf_thingStoreUrl = optional env ''THINGSTORE_URL'' ''http://server:8080'',
       cf_thingStoreUser = optional env ''THINGSTORE_USER'' ''runtime'', cf_thingStorePassword = password,
       cf_bootstrapUser = optional env ''BOOTSTRAP_USER'' ''human'', cf_bootstrapPassword = optional env ''BOOTSTRAP_PASSWORD'' ''human'',
       cf_locale = optional env ''LOCALE'' ''en'', cf_keycloakUrl = optional env ''KEYCLOAK_URL'' ''http://keycloak:8080'',
       cf_keycloakRealm = optional env ''KEYCLOAK_REALM'' ''A12Realm'',
       cf_keycloakClientId = optional env ''KEYCLOAK_CLIENT_ID'' ''assistants-runtime-client'',
       cf_fireflyUrl = optional env ''FIREFLY_URL'' ''http://firefly:8080'',
       cf_fireflyTokenFile = optional env ''FIREFLY_TOKEN_FILE'' ''/run/firefly/pat.txt'',
       cf_fireflyToken = optional env ''FIREFLY_TOKEN'' [], cf_llmConfigFile = optional env ''LLM_CONFIG_FILE'' ''llm.json'',
       cf_scanIntervalMs = scanInterval, cf_leaseSeconds = leaseSeconds, cf_maxBirthsPerHour = births,
       cf_maxEscalations = escalations, cf_llmMaxAttempts = attempts,
       cf_uiBaseUrl = optional env ''UI_BASE_URL'' ''http://localhost:8081'',
       cf_scheduleTimezone = optional env ''SCHEDULE_TIMEZONE'' ''Europe/Berlin'',
       cf_inboundPort = inboundPort, cf_inboundSecret = secret, cf_clientCallable = list_of env ''CLIENT_CALLABLE_OPERATIONS'',
       cf_mail = mail, cf_visionMaxPages = pages, cf_visionMaxBytes = bytes, cf_dynamicOperation = dynamic\<rparr>))))))))))))"

section \<open>What is opened on its strength\<close>

text \<open>\<open>if (config.inboundPort > 0) startInbox(...)\<close>\<close>

definition inbox_of :: "config \<Rightarrow> 'w registry \<Rightarrow> 'w a12_client \<Rightarrow> 'w inbox_options option" where
  "inbox_of cf registry things = (if num_less_eq (cf_inboundPort cf) (num_of_int 0) then None
     else Some \<lparr>ib_secret = cf_inboundSecret cf, ib_allowlist = cf_clientCallable cf, ib_registry = registry, ib_things = Some things\<rparr>)"

text \<open>The settings as the ingest takes them; it counts messages and bytes in whole numbers.\<close>

definition whole :: "js_num \<Rightarrow> nat" where
  "whole n = nat (coalesce (num_floor n) 0)"

definition ingest_config :: "mail_settings \<Rightarrow> mail_config" where
  "ingest_config m = \<lparr>mc_host = ms_host m, mc_folderIncoming = ms_folderIncoming m, mc_folderProcessed = ms_folderProcessed m,
     mc_folderFailed = ms_folderFailed m, mc_folderRejected = ms_folderRejected m, mc_allowedSenders = ms_allowedSenders m,
     mc_maxPerPoll = whole (ms_maxPerPoll m), mc_maxAttachmentBytes = whole (ms_maxAttachmentBytes m),
     mc_transport = Some (transport_name (ms_transport m)), mc_gmailRefreshToken = Some (gc_refreshToken (ms_gmail m))\<rparr>"

datatype letterbox = GmailLetterbox gmail_credentials | ImapLetterbox string js_num string string bool

definition buildMailbox :: "config \<Rightarrow> letterbox option" where
  "buildMailbox cf =
     (let mail = cf_mail cf in
      if \<not> isConfigured (ingest_config mail) then None
      else if ms_transport mail = GmailTransport then
        (if gc_refreshToken (ms_gmail mail) = [] then None else Some (GmailLetterbox (ms_gmail mail)))
      else Some (ImapLetterbox (ms_host mail) (ms_port mail) (ms_user mail) (ms_password mail) (ms_secure mail)))"

end
