(* ===== verification/ConfigProperties.thy ===== *)
theory ConfigProperties
  imports Config
begin

text \<open>
  What a configuration that was accepted guarantees (\<open>runtime/src/config.ts\<close>), and what it means for the door
  outward, the letterbox and the time an Operation may take.
\<close>

section \<open>Steps that may throw\<close>

lemma bindR_eq_Inr: "bindR r k = Inr y \<longleftrightarrow> (\<exists>x. r = Inr x \<and> k x = Inr y)"
  by (cases r) simp_all

lemma number_finite: "number env name fallback = Inr n \<Longrightarrow> is_finite_num fallback \<Longrightarrow> is_finite_num n"
  by (auto simp: number_def Let_def split: if_splits)

lemma finite_num_of_int [simp]: "is_finite_num (num_of_int i)"
  by (simp add: num_of_int_def mk_num_def split: prod.split)

lemma num_zero: "num_of_int 0 = Fin 0 0"
  by code_simp

lemmas number_of_int = number_finite [OF _ finite_num_of_int]

lemma required_filled: "required env name = Inr v \<Longrightarrow> v \<noteq> []"
  by (auto simp: required_def split: if_splits)

lemma optional_filled: "fallback \<noteq> [] \<Longrightarrow> optional env name fallback \<noteq> []"
  by (simp add: optional_def)

section \<open>Lists that grant access\<close>

definition no_edges :: "string \<Rightarrow> bool" where
  "no_edges s \<longleftrightarrow> s = [] \<or> \<not> is_space (hd s) \<and> \<not> is_space (last s)"

lemma rev_dropWhile_hd: "rev (dropWhile p (rev s)) \<noteq> [] \<Longrightarrow> hd (rev (dropWhile p (rev s))) = hd s"
proof (induction s rule: rev_induct)
  case (snoc x xs)
  then show ?case by (cases xs) (auto split: if_splits)
qed simp

lemma trim_no_edges: "no_edges (trim s)"
proof -
  let ?t = "dropWhile is_space s"
  have l: "trim s \<noteq> [] \<Longrightarrow> \<not> is_space (last (trim s))"
    by (metis hd_dropWhile last_rev rev.simps(1) trim_def)
  have h: "trim s \<noteq> [] \<Longrightarrow> \<not> is_space (hd (trim s))"
  proof -
    assume n: "trim s \<noteq> []"
    then have "hd (trim s) = hd ?t" unfolding trim_def by (rule rev_dropWhile_hd)
    moreover have t: "?t \<noteq> []" using n unfolding trim_def by fastforce
    ultimately show ?thesis using hd_dropWhile [OF t] by simp
  qed
  from l h show ?thesis by (auto simp: no_edges_def)
qed

lemma no_edges_trim: "no_edges s \<Longrightarrow> trim s = s"
proof -
  assume "no_edges s"
  then consider "s = []" | c cs where "s = c # cs" "\<not> is_space c" "\<not> is_space (last s)" by (cases s) (auto simp: no_edges_def)
  then show ?thesis
  proof cases
    case 2
    obtain d ds where "rev s = d # ds" "\<not> is_space d" using 2 by (cases "rev s") (auto simp flip: hd_rev)
    then have "dropWhile is_space (rev s) = rev s" by simp
    moreover have "dropWhile is_space s = s" using 2 by simp
    ultimately show ?thesis by (simp only: trim_def rev_rev_ident)
  qed (simp add: trim_def)
qed

definition granting :: "string list \<Rightarrow> bool" where
  "granting xs \<longleftrightarrow> list_all (\<lambda>x. x \<noteq> [] \<and> trim x = x) xs"

lemma granting_list_of: "granting (list_of env name)"
  by (auto simp: granting_def list_of_def list_all_iff intro: no_edges_trim trim_no_edges)

lemma list_of_blank: "list_of [] name = []" "env_value env name = [] \<Longrightarrow> list_of env name = []"
  by (simp_all add: list_of_def env_value_def trim_def)

lemma lower_not_Nil [simp]: "toLowerCase s = [] \<longleftrightarrow> s = []"
  by (simp add: toLowerCase_def)

lemma of_lower_char: "(of_char (lower_char c) :: nat) = (let n = of_char c in if 65 \<le> n \<and> n \<le> 90 then n + 32 else n)"
  by (auto simp: lower_char_def Let_def of_char_of)

lemma lower_char_idem [simp]: "lower_char (lower_char c) = lower_char c"
proof -
  let ?n = "of_char c :: nat"
  have "(of_char (lower_char (lower_char c)) :: nat) = of_char (lower_char c)"
    by (cases "65 \<le> ?n \<and> ?n \<le> 90") (auto simp: of_lower_char Let_def)
  then show ?thesis by simp
qed

lemma lower_idem [simp]: "toLowerCase (toLowerCase s) = toLowerCase s"
  by (simp add: toLowerCase_def)

lemma code_space: "is_space c \<longleftrightarrow> (of_char c :: nat) = 32 \<or> 9 \<le> (of_char c :: nat) \<and> (of_char c :: nat) \<le> 13"
proof -
  have "(of_char (CHR '' '') :: nat) = 32" by simp
  then have "c = CHR '' '' \<longleftrightarrow> (of_char c :: nat) = 32" by (metis of_char_eq_iff)
  then show ?thesis by (simp add: is_space_def)
qed

lemma space_lower [simp]: "is_space (lower_char c) = is_space c"
  unfolding code_space of_lower_char Let_def by auto

lemma granting_lower: "granting xs \<Longrightarrow> granting (map toLowerCase xs)"
proof -
  have "no_edges s \<Longrightarrow> no_edges (toLowerCase s)" for s
    by (auto simp: no_edges_def toLowerCase_def hd_map last_map)
  moreover have "trim x = x \<Longrightarrow> no_edges x" for x using trim_no_edges [of x] by simp
  ultimately show "granting xs \<Longrightarrow> granting (map toLowerCase xs)"
    by (auto simp: granting_def list_all_iff intro!: no_edges_trim)
qed

section \<open>What was accepted\<close>

text \<open>Every number is one, and what must not be empty is not.\<close>

definition sound_egress :: "string \<times> egress_config \<Rightarrow> bool" where
  "sound_egress e \<longleftrightarrow> eg_url (snd e) \<noteq> [] \<and> toLowerCase (fst e) = fst e \<and> eg_tokenFile (snd e) \<noteq> Some []"

definition sound_table :: "(string \<times> egress_config) list \<Rightarrow> bool" where
  "sound_table table \<longleftrightarrow> list_all sound_egress table \<and> map_of table ''bookkeeping'' \<noteq> None \<and> distinct (map fst table)"

definition sound_dynamic :: "dynamic_operation_config \<Rightarrow> bool" where
  "sound_dynamic d \<longleftrightarrow> list_all is_finite_num [dc_timeoutMs d, dc_maxBodyBytes d, dc_memoryMb d, dc_cacheTtlMs d] \<and>
     sound_table (dc_egresses d)"

definition sound_mail :: "mail_settings \<Rightarrow> bool" where
  "sound_mail m \<longleftrightarrow> list_all is_finite_num [ms_port m, ms_pollIntervalMs m, ms_maxPerPoll m, ms_maxAttachmentBytes m] \<and>
     granting (ms_allowedSenders m) \<and> list_all (\<lambda>x. toLowerCase x = x) (ms_allowedSenders m) \<and>
     [] \<notin> set [ms_folderIncoming m, ms_folderProcessed m, ms_folderFailed m, ms_folderRejected m]"

definition sound_config :: "config \<Rightarrow> bool" where
  "sound_config c \<longleftrightarrow> list_all is_finite_num [cf_scanIntervalMs c, cf_leaseSeconds c, cf_maxBirthsPerHour c, cf_maxEscalations c,
       cf_llmMaxAttempts c, cf_inboundPort c, cf_visionMaxPages c, cf_visionMaxBytes c] \<and>
     [] \<notin> set [cf_thingStoreUrl c, cf_thingStoreUser c, cf_thingStorePassword c, cf_keycloakUrl c, cf_fireflyUrl c, cf_llmConfigFile c,
       cf_scheduleTimezone c] \<and>
     granting (cf_clientCallable c) \<and> (cf_inboundSecret c = [] \<longleftrightarrow> cf_inboundPort c = num_of_int 0) \<and>
     sound_mail (cf_mail c) \<and> sound_dynamic (cf_dynamicOperation c)"

lemma sound_mail_settings:
  assumes "mail_settings_of env = Inr m"
  shows "sound_mail m"
proof -
  from assms obtain port poll most bytes where n: "number env ''MAIL_PORT'' (num_of_int 993) = Inr port"
    "number env ''MAIL_POLL_INTERVAL_MS'' (num_of_int 60000) = Inr poll" "number env ''MAIL_MAX_PER_POLL'' (num_of_int 20) = Inr most"
    "number env ''MAIL_MAX_ATTACHMENT_BYTES'' (num_of_int (25 * 1024 * 1024)) = Inr bytes"
    and nums: "ms_port m = port" "ms_pollIntervalMs m = poll" "ms_maxPerPoll m = most" "ms_maxAttachmentBytes m = bytes"
    and senders: "ms_allowedSenders m = map toLowerCase (list_of env ''MAIL_ALLOWED_SENDERS'')"
    and folders: "ms_folderIncoming m = optional env ''MAIL_FOLDER_INCOMING'' ''assistants''"
      "ms_folderProcessed m = optional env ''MAIL_FOLDER_PROCESSED'' ''assistants/processed''"
      "ms_folderFailed m = optional env ''MAIL_FOLDER_FAILED'' ''assistants/failed''"
      "ms_folderRejected m = optional env ''MAIL_FOLDER_REJECTED'' ''assistants/rejected''"
    unfolding mail_settings_of_def bindR_eq_Inr by (elim exE conjE, simp only: Inr_inject sum.inject) (auto simp only: mail_settings.simps)
  have "list_all (\<lambda>x. toLowerCase x = x) (ms_allowedSenders m)" by (simp add: senders list_all_iff)
  moreover have "granting (ms_allowedSenders m)" unfolding senders by (rule granting_lower [OF granting_list_of])
  moreover have "[] \<notin> set [ms_folderIncoming m, ms_folderProcessed m, ms_folderFailed m, ms_folderRejected m]"
    unfolding folders by (simp add: optional_filled [symmetric])
  ultimately show ?thesis using n [THEN number_of_int] by (simp add: sound_mail_def nums)
qed

lemma update_sound: "sound_table table \<Longrightarrow> sound_egress (k, e) \<Longrightarrow> sound_table (AList.update k e table)"
proof -
  have "list_all sound_egress table \<Longrightarrow> sound_egress (k, e) \<Longrightarrow> list_all sound_egress (AList.update k e table)"
    by (induction table) auto
  then show "sound_table table \<Longrightarrow> sound_egress (k, e) \<Longrightarrow> sound_table (AList.update k e table)"
    by (auto simp only: sound_table_def update_conv' distinct_update fun_upd_apply split: if_splits)
qed

lemma add_egress_sound: "sound_table table \<Longrightarrow> sound_table (add_egress env key table)"
proof -
  assume s: "sound_table table"
  show ?thesis
  proof (cases "egress_name key = None \<or> env_value env key = []")
    case True
    with s show ?thesis by (auto simp: add_egress_def split: option.split)
  next
    case False
    then obtain raw where r: "egress_name key = Some raw" "env_value env key \<noteq> []" by auto
    have "sound_egress (toLowerCase raw, \<lparr>eg_url = env_value env key, eg_token = t,
        eg_tokenFile = (if u = [] then None else Some u)\<rparr>)" for t u
      using r(2) by (simp add: sound_egress_def)
    then show ?thesis unfolding add_egress_def r(1) Let_def option.case if_not_P [OF r(2)] by (rule update_sound [OF s])
  qed
qed

lemma egressTable_sound: "sound_table table \<Longrightarrow> sound_table (egressTable env table)"
proof -
  have "sound_table table \<Longrightarrow> sound_table (fold (add_egress env) keys table)" for keys
    by (induction keys arbitrary: table) (simp_all add: add_egress_sound)
  then show "sound_table table \<Longrightarrow> sound_table (egressTable env table)" by (simp add: egressTable_def)
qed

lemma bookkeeping_sound: "sound_table [(''bookkeeping'', bookkeeping_egress env)]"
proof -
  have "toLowerCase ''bookkeeping'' = ''bookkeeping''" by code_simp
  then show ?thesis by (simp add: sound_table_def sound_egress_def bookkeeping_egress_def Let_def optional_filled)
qed

lemma sound_dynamic_operation:
  assumes "dynamic_operation_of env = Inr d"
  shows "sound_dynamic d"
proof -
  from assms obtain timeout body memory ttl where n: "number env ''DYNAMIC_OPERATION_TIMEOUT_MS'' (num_of_int 20000) = Inr timeout"
    "number env ''DYNAMIC_OPERATION_MAX_BODY_BYTES'' (num_of_int (4 * 1024 * 1024)) = Inr body"
    "number env ''DYNAMIC_OPERATION_MEMORY_MB'' (num_of_int 128) = Inr memory"
    "number env ''DYNAMIC_OPERATION_CACHE_TTL_MS'' (num_of_int 300000) = Inr ttl"
    and d: "dc_timeoutMs d = timeout" "dc_maxBodyBytes d = body" "dc_memoryMb d = memory" "dc_cacheTtlMs d = ttl"
      "dc_egresses d = egressTable env [(''bookkeeping'', bookkeeping_egress env)]"
    unfolding dynamic_operation_of_def bindR_eq_Inr by (elim exE conjE, simp only: Inr_inject sum.inject) (auto simp only: dynamic_operation_config.simps)
  show ?thesis using n [THEN number_of_int] egressTable_sound [OF bookkeeping_sound] by (simp add: sound_dynamic_def d)
qed


text \<open>An environment of three variables.\<close>

definition small_env :: environment where
  "small_env = [(''THINGSTORE_PASSWORD'', ''x''), (''INBOUND_PORT'', ''1''), (''INBOUND_SECRET'', ''s'')]"

lemma number_unset: "env_value env name = [] \<Longrightarrow> number env name fallback = Inr fallback"
  by (simp add: number_def)

lemma small_env_values: "env_value small_env name = (if name = ''THINGSTORE_PASSWORD'' then ''x'' else if name = ''INBOUND_PORT'' then ''1''
    else if name = ''INBOUND_SECRET'' then ''s'' else [])"
  by (simp add: env_value_def small_env_def)

lemma small_port: "number small_env ''INBOUND_PORT'' (num_of_int 0) = Inr (Fin 1 0)"
proof -
  have "string_to_number ''1'' = Fin 1 0" by code_simp
  then show ?thesis by (simp add: number_def small_env_values)
qed

lemma small_mail: "\<exists>m. mail_settings_of small_env = Inr m"
  by (simp add: mail_settings_of_def number_unset small_env_values)

lemma small_dynamic: "\<exists>d. dynamic_operation_of small_env = Inr d"
  by (simp add: dynamic_operation_of_def number_unset small_env_values)

lemma small_config: "\<exists>c. loadConfig small_env = Inr c \<and> cf_inboundPort c = Fin 1 0 \<and> cf_inboundSecret c = ''s''"
proof -
  obtain m d where "mail_settings_of small_env = Inr m" "dynamic_operation_of small_env = Inr d" using small_mail small_dynamic by blast
  then show ?thesis
    by (simp add: loadConfig_def number_unset small_env_values small_port [unfolded num_zero] required_def num_zero)
qed


section \<open>What it opens\<close>

lemma mail_fields:
  assumes "mail_settings_of env = Inr m"
  shows "ms_host m = optional env ''MAIL_HOST'' [] \<and> ms_transport m = transport_of env \<and>
    ms_allowedSenders m = map toLowerCase (list_of env ''MAIL_ALLOWED_SENDERS'')"
proof -
  from assms obtain port poll most bytes where "\<lparr>ms_host = optional env ''MAIL_HOST'' [], ms_port = port, ms_user = optional env ''MAIL_USER'' [],
       ms_password = optional env ''MAIL_PASSWORD'' [], ms_secure = (optional env ''MAIL_SECURE'' ''true'' \<noteq> ''false''),
       ms_folderIncoming = optional env ''MAIL_FOLDER_INCOMING'' ''assistants'',
       ms_folderProcessed = optional env ''MAIL_FOLDER_PROCESSED'' ''assistants/processed'',
       ms_folderFailed = optional env ''MAIL_FOLDER_FAILED'' ''assistants/failed'',
       ms_folderRejected = optional env ''MAIL_FOLDER_REJECTED'' ''assistants/rejected'',
       ms_allowedSenders = map toLowerCase (list_of env ''MAIL_ALLOWED_SENDERS''),
       ms_pollIntervalMs = poll, ms_maxPerPoll = most, ms_maxAttachmentBytes = bytes,
       ms_transport = transport_of env, ms_gmail = gmail_of env\<rparr> = m"
    unfolding mail_settings_of_def bindR_eq_Inr by (elim exE conjE, simp only: sum.inject)
  then show ?thesis by (auto simp only: mail_settings.simps)
qed

text \<open>
  The door outward never opens without a secret, whatever the environment: where a configuration opens
  it, a request that does not present the very secret of the environment, which is not empty, changes nothing
  and is turned away, but for the question whether the Runtime is alive.
\<close>

theorem open_door_has_a_secret:
  assumes "loadConfig env = Inr c" and "inbox_of c registry things = Some opts"
    and "rq_secret rq \<noteq> Some (env_value env ''INBOUND_SECRET'')"
  shows "env_value env ''INBOUND_SECRET'' \<noteq> [] \<and> (\<exists>rsp. handle nobody opts rq w = (Inr rsp, w) \<and>
    (rs_status rsp \<in> {401, 404} \<or> rq_method rq = ''GET'' \<and> rq_pathname rq = ''/healthz''))"
proof -
  from assms(1) obtain port secret where p: "cf_inboundPort c = port" "cf_inboundSecret c = secret"
    and s: "(if port = num_of_int 0 then Inr [] else required env ''INBOUND_SECRET'') = Inr secret"
    unfolding loadConfig_def bindR_eq_Inr by (elim exE conjE, simp only: Inr_inject sum.inject) (auto simp only: config.simps)
  have "port \<noteq> num_of_int 0" and o: "ib_secret opts = secret"
    using assms(2) p by (auto simp: inbox_of_def num_zero split: if_splits)
  with s have e: "secret = env_value env ''INBOUND_SECRET''" "secret \<noteq> []" by (auto simp: required_def split: if_splits)
  with o assms(3) have "\<not> secretMatches (rq_secret rq) (ib_secret opts)" by (auto simp: secretMatches_def split: option.splits)
  then show ?thesis using e by (auto simp: handle_def refusal_def returnE_def)
qed

definition knock :: request where
  "knock = \<lparr>rq_method = ''POST'', rq_pathname = ''/operations/x'', rq_secret = Some [], rq_chunks = [], rq_end = BodyEnded\<rparr>"

theorem open_door_has_a_secret_witness:
  "\<forall>(things :: nat a12_client) nobody w. \<exists>c opts rsp. loadConfig small_env = Inr c \<and>
     inbox_of c \<lparr>operations = [], rg_host = None, describers = []\<rparr> things = Some opts \<and> ib_secret opts = ''s'' \<and>
     handle nobody opts knock w = (Inr rsp, w) \<and> rs_status rsp \<in> {401, 404}"
proof (intro allI)
  fix things :: "nat a12_client" and nobody w
  from small_config obtain c where c: "loadConfig small_env = Inr c" "cf_inboundPort c = Fin 1 0" "cf_inboundSecret c = ''s''" by blast
  obtain opts where o: "inbox_of c \<lparr>operations = [], rg_host = None, describers = []\<rparr> things = Some opts" "ib_secret opts = ''s''"
    using c(2,3) by (simp add: inbox_of_def num_zero)
  have "rq_secret knock \<noteq> Some (env_value small_env ''INBOUND_SECRET'')" by (simp add: knock_def small_env_values)
  from open_door_has_a_secret [OF c(1) o(1) this, of nobody w] c(1) o
  show "\<exists>c opts rsp. loadConfig small_env = Inr c \<and>
     inbox_of c \<lparr>operations = [], rg_host = None, describers = []\<rparr> things = Some opts \<and> ib_secret opts = ''s'' \<and>
     handle nobody opts knock w = (Inr rsp, w) \<and> rs_status rsp \<in> {401, 404}" by (auto simp: knock_def)
qed

text \<open>A mailbox that is built has what its transport needs, and no list of senders lets nobody post.\<close>

lemma mailbox_is_meant:
  assumes "loadConfig env = Inr c"
  shows "buildMailbox c = Some (GmailLetterbox g) \<Longrightarrow> gc_refreshToken g \<noteq> []"
    and "buildMailbox c = Some (ImapLetterbox host port user password secure) \<Longrightarrow> trim host \<noteq> []"
    and "env_value env ''MAIL_ALLOWED_SENDERS'' = [] \<Longrightarrow> \<not> isAllowedSender from (mc_allowedSenders (ingest_config (cf_mail c)))"
proof -
  show "buildMailbox c = Some (GmailLetterbox g) \<Longrightarrow> gc_refreshToken g \<noteq> []"
    by (auto simp: buildMailbox_def Let_def split: if_splits)
  show "buildMailbox c = Some (ImapLetterbox host port user password secure) \<Longrightarrow> trim host \<noteq> []"
    by (cases "ms_transport (cf_mail c)") (auto simp: buildMailbox_def Let_def isConfigured_def ingest_config_def split: if_splits)
  from assms obtain mail where m: "mail_settings_of env = Inr mail" and "cf_mail c = mail"
    unfolding loadConfig_def bindR_eq_Inr by (elim exE conjE, simp only: Inr_inject sum.inject) (auto simp only: config.simps)
  with mail_fields [OF m] have "ms_allowedSenders (cf_mail c) = map toLowerCase (list_of env ''MAIL_ALLOWED_SENDERS'')" by simp
  then show "env_value env ''MAIL_ALLOWED_SENDERS'' = [] \<Longrightarrow> \<not> isAllowedSender from (mc_allowedSenders (ingest_config (cf_mail c)))"
    by (simp add: ingest_config_def isAllowedSender_def list_of_blank)
qed

text \<open>With nothing but the password in the environment, nothing is opened.\<close>

lemma closed_by_default:
  assumes "\<And>name. name \<noteq> ''THINGSTORE_PASSWORD'' \<Longrightarrow> env_value env name = []" and "loadConfig env = Inr c"
  shows "inbox_of c registry things = None \<and> buildMailbox c = None"
proof -
  from assms(2) obtain port mail where n: "number env ''INBOUND_PORT'' (num_of_int 0) = Inr port" and m: "mail_settings_of env = Inr mail"
    and f: "cf_inboundPort c = port" "cf_mail c = mail"
    unfolding loadConfig_def bindR_eq_Inr by (elim exE conjE, simp only: Inr_inject sum.inject) (auto simp only: config.simps)
  have u: "optional env name fallback = fallback" if "name \<noteq> ''THINGSTORE_PASSWORD''" for name fallback
    using assms(1) [OF that] by (simp add: optional_def)
  have "transport_of env = ImapTransport" by (simp add: transport_of_def gmail_of_def u)
  then have "\<not> isConfigured (ingest_config mail)" using mail_fields [OF m] by (simp add: isConfigured_def ingest_config_def u trim_def)
  moreover have "port = Fin 0 0" using n number_unset [OF assms(1)] by (simp add: num_zero)
  ultimately show ?thesis by (simp add: f inbox_of_def buildMailbox_def Let_def num_zero)
qed

text \<open>A Thing may ask for less time than the ceiling, never for more.\<close>

lemma num_less_eq_refl: "is_finite_num n \<Longrightarrow> num_less_eq n n"
  by (cases n) simp_all

lemma num_less_eq_total: "is_finite_num m \<Longrightarrow> is_finite_num n \<Longrightarrow> num_less_eq m n \<or> num_less_eq n m"
  by (cases m; cases n) (auto simp: Let_def min.commute)

lemma clamped:
  assumes "is_finite_num (dc_timeoutMs d)"
  shows "num_less_eq (clampTimeoutMs d requested) (dc_timeoutMs d) \<and> is_finite_num (clampTimeoutMs d requested)"
proof (cases requested)
  case None
  with assms show ?thesis by (simp add: clampTimeoutMs_def num_less_eq_refl)
next
  case (Some n)
  then show ?thesis using assms num_less_eq_total [of n "dc_timeoutMs d"]
    by (auto simp: clampTimeoutMs_def num_min_def num_less_eq_refl)
qed

end
