(* ===== verification/Urls.thy ===== *)
theory Urls
  imports MemoryStore Numbers
begin

text \<open>
  Addresses as the code builds and the language reads them: \<open>new URL(...)\<close> of an address of \<open>http\<close> or
  \<open>https\<close> without blanks or control characters, whose fragment is dropped, and \<open>searchParams.set\<close>. Any other
  scheme counts as no address, since nothing can be fetched from it.
\<close>

section \<open>new URL\<close>

record url =
  u_scheme :: string
  u_authority :: string
  u_path :: "string list"
  u_query :: "string option"

definition is_slash :: "char \<Rightarrow> bool" where
  "is_slash c \<longleftrightarrow> c = CHR ''/'' \<or> c = CHR 0x5C"

definition ends_authority :: "char \<Rightarrow> bool" where
  "ends_authority c \<longleftrightarrow> is_slash c \<or> c = CHR ''?'' \<or> c = CHR ''#''"

definition ends_path :: "char \<Rightarrow> bool" where
  "ends_path c \<longleftrightarrow> c = CHR ''?'' \<or> c = CHR ''#''"

definition single_dot :: "string \<Rightarrow> bool" where
  "single_dot segment \<longleftrightarrow> toLowerCase segment \<in> set [''.'', ''%2e'']"

definition double_dot :: "string \<Rightarrow> bool" where
  "double_dot segment \<longleftrightarrow> toLowerCase segment \<in> set [''..'', ''.%2e'', ''%2e.'', ''%2e%2e'']"

text \<open>The segments of a path, walked from the root.\<close>

fun walk_path :: "string list \<Rightarrow> string list \<Rightarrow> string list" where
  "walk_path walked [] = walked"
| "walk_path walked (s # rest) = walk_path (if double_dot s then butlast walked else if single_dot s then walked else walked @ [s]) rest"

definition path_of :: "string list \<Rightarrow> string list" where
  "path_of segments = walk_path [] segments
     @ (if segments \<noteq> [] \<and> (single_dot (last segments) \<or> double_dot (last segments)) then [[]] else [])"

fun split_slashes :: "string \<Rightarrow> string list" where
  "split_slashes [] = [[]]"
| "split_slashes (c # cs) = (if is_slash c then [] # split_slashes cs
     else (case split_slashes cs of [] \<Rightarrow> [[c]] | w # ws \<Rightarrow> (c # w) # ws))"

definition segments_of :: "string \<Rightarrow> string list" where
  "segments_of pathtext = (case pathtext of [] \<Rightarrow> [[]] | c # cs \<Rightarrow> split_slashes cs)"

definition query_of :: "string \<Rightarrow> string option" where
  "query_of rest = (case rest of c # cs \<Rightarrow> if c = CHR ''?'' then Some (before_char (CHR ''#'') cs) else None | [] \<Rightarrow> None)"

definition after_scheme :: "string \<Rightarrow> string" where
  "after_scheme s = dropWhile is_slash (after_char (CHR '':'') s)"

definition parse_url :: "string \<Rightarrow> url option" where
  "parse_url s =
     (let scheme = toLowerCase (before_char (CHR '':'') s); rest = after_scheme s;
          authority = takeWhile (\<lambda>c. \<not> ends_authority c) rest; tail = dropWhile (\<lambda>c. \<not> ends_authority c) rest in
      if CHR '':'' \<in> set s \<and> scheme \<in> set [''http'', ''https''] \<and> authority \<noteq> []
      then Some \<lparr>u_scheme = scheme, u_authority = authority,
        u_path = path_of (segments_of (takeWhile (\<lambda>c. \<not> ends_path c) tail)),
        u_query = query_of (dropWhile (\<lambda>c. \<not> ends_path c) tail)\<rparr>
      else None)"

definition href :: "url \<Rightarrow> string" where
  "href u = u_scheme u @ ''://'' @ u_authority u @ concat (map (\<lambda>s. CHR ''/'' # s) (u_path u))
     @ (case u_query u of None \<Rightarrow> [] | Some q \<Rightarrow> CHR ''?'' # q)"

section \<open>searchParams.set\<close>

fun form_decode :: "string \<Rightarrow> string" where
  "form_decode [] = []"
| "form_decode (c # cs) =
     (if c = CHR ''+'' then CHR '' '' # form_decode cs
      else if c = CHR ''%'' then (case cs of a # b # rest \<Rightarrow>
          (case (digit_in 16 a, digit_in 16 b) of (Some x, Some y) \<Rightarrow> char_of (16 * x + y) # form_decode rest | _ \<Rightarrow> c # form_decode cs)
        | _ \<Rightarrow> c # form_decode cs)
      else c # form_decode cs)"

definition params_of :: "string option \<Rightarrow> (string \<times> string) list" where
  "params_of query = map (\<lambda>piece. if CHR ''='' \<in> set piece
       then (form_decode (before_char (CHR ''='') piece), form_decode (after_char (CHR ''='') piece)) else (form_decode piece, []))
     (filter (\<lambda>piece. piece \<noteq> []) (split_on (CHR ''&'') (coalesce query [])))"

text \<open>The first parameter of the name takes the value and the others of the name go.\<close>

fun set_param :: "string \<Rightarrow> string \<Rightarrow> (string \<times> string) list \<Rightarrow> (string \<times> string) list" where
  "set_param k v [] = [(k, v)]"
| "set_param k v ((k', v') # ps) = (if k' = k then (k, v) # filter (\<lambda>p. fst p \<noteq> k) ps else (k', v') # set_param k v ps)"

definition with_param :: "string \<Rightarrow> string \<Rightarrow> url \<Rightarrow> url" where
  "with_param k v u = u\<lparr>u_query := Some (query_string (set_param k v (params_of (u_query u))))\<rparr>"

lemma with_param_simps [simp]:
  "u_scheme (with_param k v u) = u_scheme u" "u_authority (with_param k v u) = u_authority u" "u_path (with_param k v u) = u_path u"
  by (simp_all add: with_param_def)

lemma parse_url_example:
  "map_option href (parse_url ''HTTP://h:80/a/./b/../c?x=1#f'') = Some ''http://h:80/a/c?x=1''"
  "map_option href (parse_url ''https://h'') = Some ''https://h/''"
  "parse_url ''ftp://h'' = None"
  "map_option (\<lambda>u. href (with_param ''x'' ''a b'' u)) (parse_url ''http://h/a?x=1&y=2&x=3'') = Some ''http://h/a?x=a+b&y=2''"
  by code_simp+

section \<open>An address below another\<close>

lemma split_slashes_not_Nil [simp]: "split_slashes s \<noteq> []"
  by (cases s) (simp_all split: list.split)

lemma split_slashes_append: "is_slash c \<Longrightarrow> split_slashes (s @ c # t) = split_slashes s @ split_slashes t"
  by (induction s) (auto split: list.split)

lemma split_slashes_free: "\<forall>c \<in> set s. \<not> is_slash c \<Longrightarrow> split_slashes s = [s]"
  by (induction s) auto

lemma split_slashes_join: "\<forall>w \<in> set ws. \<forall>c \<in> set w. \<not> is_slash c \<Longrightarrow> ws \<noteq> [] \<Longrightarrow> split_slashes (join ''/'' ws) = ws"
proof (induction ws rule: induct_list012)
  case (3 w x ws)
  have s: "is_slash (CHR ''/'')" by (simp add: is_slash_def)
  have "split_slashes (w @ CHR ''/'' # join ''/'' (x # ws)) = [w] @ (x # ws)"
    using 3 by (simp add: split_slashes_append [OF s] split_slashes_free)
  then show ?case by simp
qed (simp_all add: split_slashes_free)

lemma walk_path_append: "walk_path walked (xs @ ys) = walk_path (walk_path walked xs) ys"
  by (induction xs arbitrary: walked) simp_all

lemma walk_path_plain: "\<forall>s \<in> set ys. \<not> single_dot s \<and> \<not> double_dot s \<Longrightarrow> walk_path walked ys = walked @ ys"
  by (induction ys arbitrary: walked) auto

lemma strip_slashes_last: "s \<noteq> [] \<Longrightarrow> last s \<noteq> CHR ''/'' \<Longrightarrow> strip_slashes (s @ t) = s @ strip_slashes t"
proof -
  assume s: "s \<noteq> []" "last s \<noteq> CHR ''/''"
  then obtain x xs where r: "rev s = x # xs" "x \<noteq> CHR ''/''" by (cases "rev s") (auto simp flip: hd_rev)
  have "dropWhile (\<lambda>c. c = CHR ''/'') (rev t @ rev s) = dropWhile (\<lambda>c. c = CHR ''/'') (rev t) @ rev s"
    using r by (simp add: dropWhile_append)
  then show ?thesis by (simp add: strip_slashes_def)
qed

lemma strip_slashes_hd: "strip_slashes s \<noteq> [] \<Longrightarrow> hd (strip_slashes s) = hd s"
proof (induction s rule: rev_induct)
  case (snoc x xs)
  then show ?case by (cases xs) (auto simp: strip_slashes_def split: if_splits)
qed (simp add: strip_slashes_def)

lemma strip_slashes_tail:
  assumes "t = [] \<or> ends_authority (hd t)"
  shows "strip_slashes t @ CHR ''/'' # p \<noteq> [] \<and> ends_authority (hd (strip_slashes t @ CHR ''/'' # p))"
proof (cases "strip_slashes t")
  case Nil
  then show ?thesis by (simp add: ends_authority_def is_slash_def)
next
  case (Cons c cs)
  then have "t \<noteq> []" by (auto simp: strip_slashes_def)
  have "hd (strip_slashes t) = hd t" using Cons by (intro strip_slashes_hd) simp
  with Cons assms \<open>t \<noteq> []\<close> show ?thesis by (cases t) auto
qed

text \<open>A path put behind an address that is one keeps its scheme and its authority.\<close>

lemma parse_url_parts:
  assumes "CHR '':'' \<notin> set pre" and "\<forall>c \<in> set slashes. is_slash c" and "authority \<noteq> []"
    and "\<forall>c \<in> set authority. \<not> ends_authority c" and "tail = [] \<or> ends_authority (hd tail)"
  shows "parse_url (pre @ CHR '':'' # slashes @ authority @ tail) =
    (if toLowerCase pre \<in> set [''http'', ''https'']
     then Some \<lparr>u_scheme = toLowerCase pre, u_authority = authority,
       u_path = path_of (segments_of (takeWhile (\<lambda>c. \<not> ends_path c) tail)),
       u_query = query_of (dropWhile (\<lambda>c. \<not> ends_path c) tail)\<rparr>
     else None)"
proof -
  let ?s = "pre @ CHR '':'' # slashes @ authority @ tail"
  obtain a as where a: "authority = a # as" "\<not> is_slash a" using assms(3,4) by (cases authority) (auto simp: ends_authority_def)
  have "after_scheme ?s = authority @ tail"
    unfolding after_scheme_def after_char_append [OF assms(1)] using assms(2) a by simp
  moreover have "takeWhile (\<lambda>c. \<not> ends_authority c) (authority @ tail) = authority"
    "dropWhile (\<lambda>c. \<not> ends_authority c) (authority @ tail) = tail"
    using assms(4,5) by (cases tail; simp)+
  ultimately show ?thesis
    using assms(3) by (simp add: parse_url_def Let_def before_char_append [OF assms(1)])
qed

lemma parse_url_shape:
  assumes "parse_url s = Some u"
  obtains pre slashes tail where "s = pre @ CHR '':'' # slashes @ u_authority u @ tail" "CHR '':'' \<notin> set pre"
    "\<forall>c \<in> set slashes. is_slash c" "u_authority u \<noteq> []" "\<forall>c \<in> set (u_authority u). \<not> ends_authority c"
    "tail = [] \<or> ends_authority (hd tail)" "toLowerCase pre \<in> set [''http'', ''https'']" "u_scheme u = toLowerCase pre"
proof -
  let ?p = "\<lambda>c. \<not> ends_authority c" and ?rest = "after_char (CHR '':'') s"
  from assms have c: "CHR '':'' \<in> set s" "toLowerCase (before_char (CHR '':'') s) \<in> set [''http'', ''https'']"
    "takeWhile ?p (after_scheme s) \<noteq> []" "u_authority u = takeWhile ?p (after_scheme s)"
    "u_scheme u = toLowerCase (before_char (CHR '':'') s)"
    by (auto simp: parse_url_def Let_def split: if_splits)
  have "s = before_char (CHR '':'') s @ CHR '':'' # ?rest" by (rule before_after_char [OF c(1), symmetric])
  moreover have "?rest = takeWhile is_slash ?rest @ after_scheme s" by (simp add: after_scheme_def)
  moreover have "after_scheme s = u_authority u @ dropWhile ?p (after_scheme s)" by (simp add: c(4))
  ultimately have "s = before_char (CHR '':'') s @ CHR '':'' # takeWhile is_slash ?rest @ u_authority u @ dropWhile ?p (after_scheme s)"
    by metis
  moreover have "CHR '':'' \<notin> set (before_char (CHR '':'') s)" by (auto simp: before_char_def dest: set_takeWhileD)
  moreover have "dropWhile ?p (after_scheme s) = [] \<or> ends_authority (hd (dropWhile ?p (after_scheme s)))"
    by (metis hd_dropWhile)
  moreover have "\<forall>c \<in> set (takeWhile is_slash ?rest). is_slash c" "\<forall>c \<in> set (u_authority u). \<not> ends_authority c"
    by (auto simp: c(4) dest: set_takeWhileD)
  ultimately show ?thesis using c(2-5) by (intro that [of "before_char (CHR '':'') s" "takeWhile is_slash ?rest" "dropWhile ?p (after_scheme s)"]) simp_all
qed

lemma below_shape:
  assumes "s = pre @ CHR '':'' # slashes @ authority @ tail" and "authority \<noteq> []" and "\<forall>c \<in> set authority. \<not> ends_authority c"
  shows "strip_slashes s = pre @ CHR '':'' # slashes @ authority @ strip_slashes tail"
proof -
  have "last authority \<noteq> CHR ''/''" using assms(2,3) last_in_set [OF assms(2)] by (auto simp: ends_authority_def is_slash_def)
  then show ?thesis using strip_slashes_last [of "pre @ CHR '':'' # slashes @ authority" tail] assms(1,2) by simp
qed

lemma below_address:
  assumes "parse_url base = Some b" and "parse_url (strip_slashes base @ CHR ''/'' # p) = Some u"
  shows "u_scheme u = u_scheme b \<and> u_authority u = u_authority b"
proof -
  from assms(1) obtain pre slashes tail where d: "base = pre @ CHR '':'' # slashes @ u_authority b @ tail" "CHR '':'' \<notin> set pre"
    "\<forall>c \<in> set slashes. is_slash c" "u_authority b \<noteq> []" "\<forall>c \<in> set (u_authority b). \<not> ends_authority c"
    "tail = [] \<or> ends_authority (hd tail)" "toLowerCase pre \<in> set [''http'', ''https'']" "u_scheme b = toLowerCase pre"
    by (rule parse_url_shape)
  have "strip_slashes base @ CHR ''/'' # p = pre @ CHR '':'' # slashes @ u_authority b @ (strip_slashes tail @ CHR ''/'' # p)"
    by (simp add: below_shape [OF d(1,4,5)])
  moreover have "strip_slashes tail @ CHR ''/'' # p = [] \<or> ends_authority (hd (strip_slashes tail @ CHR ''/'' # p))"
    using strip_slashes_tail [OF d(6)] by blast
  ultimately show ?thesis using assms(2) parse_url_parts [OF d(2-5), of "strip_slashes tail @ CHR ''/'' # p"] d(7,8)
    by (auto split: if_splits)
qed

text \<open>
  The path such an address has when the base has no query and no fragment and no segment of what was added is
  a dot segment: the walked path of the base, then the segments that were added.
\<close>

definition base_path :: "string \<Rightarrow> string list" where
  "base_path base = (let rest = dropWhile (\<lambda>c. \<not> ends_authority c) (after_scheme (strip_slashes base)) in
     case rest of [] \<Rightarrow> [] | c # cs \<Rightarrow> walk_path [] (split_slashes cs))"

lemma below_path:
  assumes "parse_url base = Some b" and "parse_url (strip_slashes base @ CHR ''/'' # join ''/'' ws) = Some u"
    and "CHR ''?'' \<notin> set base" "CHR ''#'' \<notin> set base"
    and "ws \<noteq> []" "\<forall>w \<in> set ws. (\<forall>c \<in> set w. \<not> ends_authority c) \<and> \<not> single_dot w \<and> \<not> double_dot w"
  shows "u_path u = base_path base @ ws"
proof -
  let ?p = "join ''/'' ws"
  from assms(1) obtain pre slashes tail where d: "base = pre @ CHR '':'' # slashes @ u_authority b @ tail" "CHR '':'' \<notin> set pre"
    "\<forall>c \<in> set slashes. is_slash c" "u_authority b \<noteq> []" "\<forall>c \<in> set (u_authority b). \<not> ends_authority c"
    "tail = [] \<or> ends_authority (hd tail)" "toLowerCase pre \<in> set [''http'', ''https'']" "u_scheme b = toLowerCase pre"
    by (rule parse_url_shape)
  have s: "is_slash (CHR ''/'')" by (simp add: is_slash_def)
  have sub: "set (strip_slashes tail) \<subseteq> set base"
    using d(1) by (auto simp: strip_slashes_def dest!: set_dropWhileD)
  have ends: "strip_slashes tail = [] \<or> ends_authority (hd (strip_slashes tail))"
    using strip_slashes_tail [OF d(6), of p] by (cases "strip_slashes tail") auto
  have rest: "after_scheme (strip_slashes base) = u_authority b @ strip_slashes tail"
  proof -
    obtain a as where "u_authority b = a # as" "\<not> is_slash a" using d(4,5) by (cases "u_authority b") (auto simp: ends_authority_def)
    then show ?thesis using d(3) unfolding below_shape [OF d(1,4,5)] after_scheme_def after_char_append [OF d(2)] by simp
  qed
  have tail: "dropWhile (\<lambda>c. \<not> ends_authority c) (u_authority b @ strip_slashes tail) = strip_slashes tail"
    using d(5) ends by (cases "strip_slashes tail") simp_all
  have nq: "\<forall>c \<in> set (strip_slashes tail @ CHR ''/'' # ?p). \<not> ends_path c"
  proof -
    have "\<forall>c \<in> set (join ''/'' ws). c = CHR ''/'' \<or> (\<exists>w \<in> set ws. c \<in> set w)"
      by (induction ws rule: induct_list012) auto
    then have "c \<in> set base \<or> c = CHR ''/'' \<or> \<not> ends_authority c" if "c \<in> set (strip_slashes tail @ CHR ''/'' # ?p)" for c
      using that assms(6) sub by fastforce
    moreover have "\<not> ends_path c" if "c \<in> set base" for c using that assms(3,4) unfolding ends_path_def by metis
    moreover have "\<not> ends_path (CHR ''/'')" by (simp add: ends_path_def)
    moreover have "ends_path c \<Longrightarrow> ends_authority c" for c by (simp only: ends_authority_def ends_path_def simp_thms disj_ac)
    ultimately show ?thesis by metis
  qed
  have segs: "segments_of (strip_slashes tail @ CHR ''/'' # ?p) =
    (case strip_slashes tail of [] \<Rightarrow> [] | c # cs \<Rightarrow> split_slashes cs) @ ws"
  proof -
    have "split_slashes ?p = ws" using assms(5,6) by (intro split_slashes_join) (auto simp: ends_authority_def)
    then show ?thesis by (cases "strip_slashes tail") (simp_all add: segments_of_def split_slashes_append [OF s])
  qed
  have "strip_slashes base @ CHR ''/'' # ?p = pre @ CHR '':'' # slashes @ u_authority b @ (strip_slashes tail @ CHR ''/'' # ?p)"
    by (simp add: below_shape [OF d(1,4,5)])
  moreover have "strip_slashes tail @ CHR ''/'' # ?p = [] \<or> ends_authority (hd (strip_slashes tail @ CHR ''/'' # ?p))"
    using strip_slashes_tail [OF d(6)] by blast
  ultimately have "u_path u = path_of (segments_of (takeWhile (\<lambda>c. \<not> ends_path c) (strip_slashes tail @ CHR ''/'' # ?p)))"
    using assms(2) parse_url_parts [OF d(2-5), of "strip_slashes tail @ CHR ''/'' # ?p"] d(7) by (auto split: if_splits)
  also have "\<dots> = path_of ((case strip_slashes tail of [] \<Rightarrow> [] | c # cs \<Rightarrow> split_slashes cs) @ ws)"
    by (simp only: takeWhile_eq_all_conv [THEN iffD2, OF nq] segs)
  also have "\<dots> = walk_path [] (case strip_slashes tail of [] \<Rightarrow> [] | c # cs \<Rightarrow> split_slashes cs) @ ws"
  proof -
    have "\<not> single_dot (last ws)" "\<not> double_dot (last ws)" using assms(5,6) last_in_set by auto
    then show ?thesis using assms(5,6) by (simp add: path_of_def walk_path_append walk_path_plain)
  qed
  also have "\<dots> = base_path base @ ws" by (simp add: base_path_def rest tail split: list.split)
  finally show ?thesis .
qed

text \<open>A dot segment walks up, past the path of the base.\<close>

lemma dots_walk_up:
  "map_option href (parse_url (strip_slashes ''http://h/api/v1/'' @ ''/../../admin'')) = Some ''http://h/admin''"
  by code_simp

end
