(* ===== verification/Dynamic.thy ===== *)
theory Dynamic
  imports Config Operations Urls
begin

text \<open>
  The Operation Host (\<open>runtime/src/operations/dynamic\<close>): \<open>compile.ts\<close>, the cache, the run and the worker's
  supervision of \<open>host.ts\<close>, \<open>worker.ts\<close>, \<open>sandbox.ts\<close> and the HTTP client of \<open>http.ts\<close>. Parameters are the
  language's own compiler and digest, what a compiled Source declares, the network, the file of a token and
  the clock. A Source is the actions it takes on its \<open>host\<close>, one after the other, with what it does on the
  answer; it may go on for ever.
\<close>

section \<open>compile.ts\<close>

record toolchain =
  tc_sha256 :: "string \<Rightarrow> string"
  tc_stripTypeScriptTypes :: "string \<Rightarrow> string result"
  tc_syntaxError :: "string \<Rightarrow> js_error option"

definition is_word :: "char \<Rightarrow> bool" where
  "is_word c \<longleftrightarrow> is_alnum c \<or> c = CHR ''_''"

definition word_ends :: "string \<Rightarrow> bool" where
  "word_ends s = (case s of [] \<Rightarrow> True | c # _ \<Rightarrow> \<not> is_word c)"

text \<open>A test tried at the start of every line, and one tried at the start of every word.\<close>

fun later_line :: "(string \<Rightarrow> bool) \<Rightarrow> string \<Rightarrow> bool" where
  "later_line p [] = False"
| "later_line p (c # cs) = ((c = CHR 0x0A \<or> c = CHR 0x0D) \<and> p cs \<or> later_line p cs)"

definition at_line :: "(string \<Rightarrow> bool) \<Rightarrow> string \<Rightarrow> bool" where
  "at_line p s \<longleftrightarrow> p s \<or> later_line p s"

fun at_word :: "bool \<Rightarrow> (string \<Rightarrow> bool) \<Rightarrow> string \<Rightarrow> bool" where
  "at_word inside p [] = False"
| "at_word inside p (c # cs) = (\<not> inside \<and> p (c # cs) \<or> at_word (is_word c) p cs)"

definition keyword_first :: "string \<Rightarrow> string \<Rightarrow> bool" where
  "keyword_first word s = (let t = dropWhile is_space s in starts_with word t \<and> word_ends (drop (length word) t))"

definition word_then :: "string \<Rightarrow> string \<Rightarrow> string \<Rightarrow> bool" where
  "word_then word mark s \<longleftrightarrow> starts_with word s \<and> starts_with mark (dropWhile is_space (drop (length word) s))"

definition BANNED :: "(string \<times> (string \<Rightarrow> bool)) list" where
  "BANNED = [(''import'', at_line (keyword_first ''import'')), (''export'', at_line (keyword_first ''export'')),
     (''require'', at_word False (word_then ''require'' ''(''))]"

definition compile_error :: "string \<Rightarrow> js_error" where
  "compile_error message = JsError ''CompileError'' message"

fun error_message :: "js_error \<Rightarrow> string" where
  "error_message (JsError name message) = message"
| "error_message (TransientLlmError message) = message"
| "error_message (Thrown s) = s"

definition banned_message :: "string \<Rightarrow> string" where
  "banned_message token = ''Implementation Source may not use `'' @ token @ ''`: the Operation Host has no module system, and everything the Source may reach is handed to it on `host`.''"

definition compile_code :: "toolchain \<Rightarrow> string \<Rightarrow> operation_language \<Rightarrow> compiled_module result" where
  "compile_code tc source language =
     bindR (if language = Typescript
            then (case tc_stripTypeScriptTypes tc source of Inl e \<Rightarrow> Inl (compile_error (error_message e)) | Inr code \<Rightarrow> Inr code)
            else Inr source) (\<lambda>code.
       case find (\<lambda>(token, pattern). pattern code) BANNED of
         Some (token, pattern) \<Rightarrow> Inl (compile_error (banned_message token))
       | None \<Rightarrow> (case tc_syntaxError tc code of
           Some e \<Rightarrow> Inl (compile_error (error_message e))
         | None \<Rightarrow> Inr \<lparr>cm_hash = tc_sha256 tc source, cm_code = code, cm_language = language\<rparr>))"

definition cache_key :: "toolchain \<Rightarrow> string \<Rightarrow> operation_language \<Rightarrow> string" where
  "cache_key tc source language = language_name language @ '':'' @ tc_sha256 tc source"

definition compile :: "toolchain \<Rightarrow> string \<Rightarrow> operation_language \<Rightarrow> (string \<rightharpoonup> compiled_module) \<Rightarrow>
    compiled_module result \<times> (string \<rightharpoonup> compiled_module)" where
  "compile tc source language compiled =
     (let key = cache_key tc source language in
      case compiled key of
        Some m \<Rightarrow> (Inr m, compiled)
      | None \<Rightarrow> (case compile_code tc source language of Inl e \<Rightarrow> (Inl e, compiled) | Inr m \<Rightarrow> (Inr m, compiled(key \<mapsto> m))))"

section \<open>The cache of the host\<close>

record cache_entry =
  ce_value :: json
  ce_expiresAt :: int

type_synonym host_cache = "string \<Rightarrow> (string \<times> cache_entry) list"

datatype cache_mutation = SetEntry string json | DeleteEntry string

definition cache_snapshot :: "int \<Rightarrow> string \<Rightarrow> host_cache \<Rightarrow> (string \<times> json) list" where
  "cache_snapshot now' egress cache = map (\<lambda>(k, e). (k, ce_value e)) (filter (\<lambda>(k, e). now' < ce_expiresAt e) (cache egress))"

fun apply_mutation :: "int \<Rightarrow> cache_mutation \<Rightarrow> (string \<times> cache_entry) list \<Rightarrow> (string \<times> cache_entry) list" where
  "apply_mutation expiresAt (SetEntry k v) slots = AList.update k \<lparr>ce_value = v, ce_expiresAt = expiresAt\<rparr> slots"
| "apply_mutation expiresAt (DeleteEntry k) slots = AList.delete k slots"

definition applyMutations :: "int \<Rightarrow> int \<Rightarrow> string \<Rightarrow> cache_mutation list \<Rightarrow> host_cache \<Rightarrow> host_cache" where
  "applyMutations ttl now' egress mutations cache = cache(egress := fold (apply_mutation (now' + ttl)) mutations (cache egress))"

definition cache_get :: "int \<Rightarrow> string \<Rightarrow> string \<Rightarrow> host_cache \<Rightarrow> json option \<times> host_cache" where
  "cache_get now' egress key cache = (case map_of (cache egress) key of
     None \<Rightarrow> (None, cache)
   | Some e \<Rightarrow> if ce_expiresAt e \<le> now' then (None, cache(egress := AList.delete key (cache egress))) else (Some (ce_value e), cache))"

definition cache_set :: "int \<Rightarrow> int \<Rightarrow> string \<Rightarrow> string \<Rightarrow> json \<Rightarrow> host_cache \<Rightarrow> host_cache" where
  "cache_set ttl now' egress key v cache =
     cache(egress := AList.update key \<lparr>ce_value = v, ce_expiresAt = now' + ttl\<rparr> (cache egress))"

definition cache_delete :: "string \<Rightarrow> string \<Rightarrow> host_cache \<Rightarrow> host_cache" where
  "cache_delete egress key cache = cache(egress := AList.delete key (cache egress))"

section \<open>The Source\<close>

text \<open>What a Source throws: an \<open>OperationError\<close>, or anything else, of which only the log hears.\<close>

datatype source_error = OperationError string | Fault string

text \<open>A value, or what \<open>structuredClone\<close> says of one it cannot copy.\<close>

type_synonym source_value = "string + json"

record source_request =
  sq_method :: "string option"
  sq_path :: "string option"
  sq_query :: "(string \<times> json) list"
  sq_body :: json
  sq_headers :: "(string \<times> string) list"

record source_answer =
  sa_status :: int
  sa_ok :: bool
  sa_body :: json

datatype console_level = DebugLevel | InfoLevel | WarnLevel | ErrorLevel

codatatype source =
    Returns source_value
  | PendingSignal waiting_for "string option" "string option"
  | Throws source_error
  | Requests source_request "source_error + source_answer \<Rightarrow> source"
  | CacheGet string "source_value \<Rightarrow> source"
  | CacheSet string source_value source
  | CacheDelete string source
  | Logs console_level "json list" source

datatype 'v sandbox_result =
    ValueResult 'v
  | PendingResult waiting_for "string option" "string option"
  | NoFunction
  | ErrorResult string "string option" bool

definition errorResult :: "source_error \<Rightarrow> 'v sandbox_result" where
  "errorResult e = (case e of OperationError message \<Rightarrow> ErrorResult message None True
     | Fault detail \<Rightarrow> ErrorResult ''The Operation failed.'' (Some detail) False)"

section \<open>The worker\<close>

datatype worker_message =
    ConsoleMessage console_level "string list"
  | ResultMessage "json sandbox_result" "cache_mutation list"

record egress_credential =
  ec_url :: "string option"
  ec_token :: string

record worker_request =
  wr_code :: string
  wr_args :: json
  wr_idempotencyKey :: string
  wr_mode :: sandbox_mode
  wr_egressName :: string
  wr_egress :: "egress_credential option"
  wr_timeoutMs :: js_num
  wr_maxBodyBytes :: js_num
  wr_cacheSnapshot :: "(string \<times> json) list"
  wr_operationKey :: string

record sent_request =
  sr_method :: string
  sr_url :: url
  sr_headers :: "(string \<times> string) list"
  sr_body :: "string option"

record fetched_answer =
  fa_status :: int
  fa_contentType :: "string option"
  fa_chunks :: "string list option"
  fa_broken :: "js_error option"

record 'w worker =
  wk_view :: "(string \<times> source_value) list"
  wk_mutations :: "(string \<times> source_value option) list"
  wk_posted :: "worker_message list"
  wk_sent :: "sent_request list"
  wk_world :: 'w

record 'w host_deps =
  hd_config :: dynamic_operation_config
  hd_toolchain :: toolchain
  hd_clock :: "'w \<Rightarrow> int"
  hd_readFile :: "string \<Rightarrow> ('w, string) io"
  hd_fetch :: "sent_request \<Rightarrow> ('w, fetched_answer) io"
  hd_script :: "string \<Rightarrow> js_num \<Rightarrow> source_error + (sandbox_mode \<Rightarrow> (json \<Rightarrow> string \<Rightarrow> source) option)"

subsection \<open>The HTTP client\<close>

text \<open>\<open>/^[a-z][a-z0-9+.-]*:\/\/|^\/\//i\<close>\<close>

definition is_absolute :: "string \<Rightarrow> bool" where
  "is_absolute p \<longleftrightarrow> starts_with ''//'' p \<or> (case p of [] \<Rightarrow> False
     | c # cs \<Rightarrow> is_alnum c \<and> digit_val c = None \<and> starts_with ''://'' (dropWhile (\<lambda>c. is_alnum c \<or> c \<in> set ''+.-'') cs))"

definition segments :: "string \<Rightarrow> string list" where
  "segments p = map encodeURIComponent (filter (\<lambda>segment. segment \<noteq> []) (split_on (CHR ''/'') p))"

definition encoded_path :: "string \<Rightarrow> string" where
  "encoded_path p = CHR ''/'' # join ''/'' (segments p)"

definition target_url :: "string \<Rightarrow> string \<Rightarrow> (string \<times> json) list \<Rightarrow> url option" where
  "target_url base p query = map_option (\<lambda>u. fold (\<lambda>(k, v). with_param k (js_string v)) query u)
     (parse_url (strip_slashes base @ encoded_path p))"

definition sent_of :: "string \<Rightarrow> url \<Rightarrow> source_request \<Rightarrow> sent_request" where
  "sent_of token u request =
     (let hasBody = (sq_body request \<noteq> JUndef) in
      \<lparr>sr_method = toUpperCase (coalesce (sq_method request) ''GET''), sr_url = u,
       sr_headers = fold (\<lambda>(k, v). AList.update k v) (sq_headers request)
         ([(''Authorization'', ''Bearer '' @ token), (''Accept'', ''application/json'')]
          @ (if hasBody then [(''Content-Type'', ''application/json'')] else [])),
       sr_body = (if hasBody then Some (stringify (sq_body request)) else None)\<rparr>)"

text \<open>The chunks kept so far count \<open>total'\<close> bytes. A mark of the byte order is left out, as the decoder does.\<close>

fun readCapped :: "js_num \<Rightarrow> string \<Rightarrow> js_error option \<Rightarrow> nat \<Rightarrow> string list \<Rightarrow> source_error + string" where
  "readCapped maxBodyBytes egressName broken total' [] =
     (case broken of Some e \<Rightarrow> Inl (Fault (error_string e)) | None \<Rightarrow> Inr [])"
| "readCapped maxBodyBytes egressName broken total' (chunk # chunks) =
     (if num_less_eq (num_of_int (int (total' + length chunk))) maxBodyBytes
      then (case readCapped maxBodyBytes egressName broken (total' + length chunk) chunks of
              Inl e \<Rightarrow> Inl e | Inr rest \<Rightarrow> Inr (chunk @ rest))
      else Inl (OperationError (''response from egress '' @ quoted egressName @ '' exceeds the '' @ string_of_num maxBodyBytes @ ''-byte cap'')))"

definition decode_text :: "string \<Rightarrow> string" where
  "decode_text s = (if take 3 s = [CHR 0xEF, CHR 0xBB, CHR 0xBF] then drop 3 s else s)"

definition parseBody :: "string \<Rightarrow> string option \<Rightarrow> json" where
  "parseBody text' contentType =
     (if text' = [] then JUndef
      else if contains ''json'' (coalesce contentType []) then coalesce (json_parse text') (JStr text')
      else JStr text')"

definition answer_from :: "worker_request \<Rightarrow> fetched_answer \<Rightarrow> source_error + source_answer" where
  "answer_from wr answer =
     (case (case fa_chunks answer of None \<Rightarrow> Inr []
            | Some chunks \<Rightarrow> readCapped (wr_maxBodyBytes wr) (wr_egressName wr) (fa_broken answer) 0 chunks) of
        Inl e \<Rightarrow> Inl e
      | Inr bytes \<Rightarrow> Inr \<lparr>sa_status = fa_status answer, sa_ok = (200 \<le> fa_status answer \<and> fa_status answer \<le> 299),
          sa_body = parseBody (decode_text bytes) (fa_contentType answer)\<rparr>)"

definition unbound_egress :: "string \<Rightarrow> string" where
  "unbound_egress egressName = ''egress '' @ quoted egressName @ '' is not configured '' @ [CHR 0xE2, CHR 0x80, CHR 0x94]
     @ '' no base URL or credential is bound to it''"

definition absolute_path :: "string \<Rightarrow> string" where
  "absolute_path p = ''path '' @ quoted p @ '' is absolute; a Dynamic Operation may only reach its bound egress, so give a path like ''
     @ quoted ''/api/v1/accounts'' @ '', not a full URL''"

definition client_request :: "'w host_deps \<Rightarrow> worker_request \<Rightarrow> source_request \<Rightarrow> 'w worker \<Rightarrow> (source_error + source_answer) \<times> 'w worker" where
  "client_request deps wr request s =
     (let p = coalesce (sq_path request) [] in
      case wr_egress wr of
        None \<Rightarrow> (Inl (OperationError (unbound_egress (wr_egressName wr))), s)
      | Some credential \<Rightarrow>
          if is_absolute p then (Inl (OperationError (absolute_path p)), s)
          else (case Option.bind (ec_url credential) (\<lambda>base. target_url base p (sq_query request)) of
            None \<Rightarrow> (Inl (Fault ''TypeError: Invalid URL''), s)
          | Some u \<Rightarrow>
              let sent = sent_of (ec_token credential) u request in
              case hd_fetch deps sent (wk_world s) of (r, w) \<Rightarrow>
                ((case r of Inl e \<Rightarrow> Inl (Fault (error_string e)) | Inr answer \<Rightarrow> answer_from wr answer),
                 s\<lparr>wk_world := w, wk_sent := wk_sent s @ [sent]\<rparr>)))"

subsection \<open>The run of a Source\<close>

definition safe :: "json \<Rightarrow> string" where
  "safe v = (case v of JStr s \<Rightarrow> s | JUndef \<Rightarrow> ''undefined'' | _ \<Rightarrow> stringify v)"

definition view_get :: "string \<Rightarrow> 'w worker \<Rightarrow> source_value" where
  "view_get key s = coalesce (map_of (wk_view s) key) (Inr JUndef)"

definition view_set :: "string \<Rightarrow> source_value \<Rightarrow> 'w worker \<Rightarrow> 'w worker" where
  "view_set key v s = s\<lparr>wk_view := AList.update key v (wk_view s), wk_mutations := wk_mutations s @ [(key, Some v)]\<rparr>"

definition view_delete :: "string \<Rightarrow> 'w worker \<Rightarrow> 'w worker" where
  "view_delete key s = s\<lparr>wk_view := AList.delete key (wk_view s), wk_mutations := wk_mutations s @ [(key, None)]\<rparr>"

definition post :: "worker_message \<Rightarrow> 'w worker \<Rightarrow> 'w worker" where
  "post m s = s\<lparr>wk_posted := wk_posted s @ [m]\<rparr>"

text \<open>The first \<open>n\<close> actions of a Source, with its result if it has come to one by then.\<close>

fun run_source :: "'w host_deps \<Rightarrow> worker_request \<Rightarrow> nat \<Rightarrow> source \<Rightarrow> 'w worker \<Rightarrow> source_value sandbox_result option \<times> 'w worker" where
  "run_source deps wr 0 src s = (None, s)"
| "run_source deps wr (Suc n) src s = (case src of
     Returns v \<Rightarrow> (Some (ValueResult v), s)
   | PendingSignal who wakeAt' note' \<Rightarrow> (Some (PendingResult who wakeAt' note'), s)
   | Throws e \<Rightarrow> (Some (errorResult e), s)
   | Requests request k \<Rightarrow> (case client_request deps wr request s of (r, s') \<Rightarrow> run_source deps wr n (k r) s')
   | CacheGet key k \<Rightarrow> run_source deps wr n (k (view_get key s)) s
   | CacheSet key v src' \<Rightarrow> run_source deps wr n src' (view_set key v s)
   | CacheDelete key src' \<Rightarrow> run_source deps wr n src' (view_delete key s)
   | Logs level args src' \<Rightarrow> run_source deps wr n src' (post (ConsoleMessage level (map safe args)) s))"

definition runInSandbox :: "'w host_deps \<Rightarrow> worker_request \<Rightarrow> nat \<Rightarrow> 'w worker \<Rightarrow> source_value sandbox_result option \<times> 'w worker" where
  "runInSandbox deps wr n s =
     (case hd_script deps (wr_code wr) (wr_timeoutMs wr) of
        Inl e \<Rightarrow> (Some (errorResult e), s)
      | Inr declared \<Rightarrow> (case declared (wr_mode wr) of
          None \<Rightarrow> (Some NoFunction, s)
        | Some fn \<Rightarrow> run_source deps wr n (fn (wr_args wr) (wr_idempotencyKey wr)) s))"

text \<open>\<open>postMessage\<close> copies the result and the mutations, or throws.\<close>

fun clone_result :: "source_value sandbox_result \<Rightarrow> string + json sandbox_result" where
  "clone_result (ValueResult v) = (case v of Inl detail \<Rightarrow> Inl detail | Inr x \<Rightarrow> Inr (ValueResult x))"
| "clone_result (PendingResult who wakeAt' note') = Inr (PendingResult who wakeAt' note')"
| "clone_result NoFunction = Inr NoFunction"
| "clone_result (ErrorResult message detail exposed) = Inr (ErrorResult message detail exposed)"

fun clone_mutations :: "(string \<times> source_value option) list \<Rightarrow> string + cache_mutation list" where
  "clone_mutations [] = Inr []"
| "clone_mutations ((key, v) # ms) = (case v of Some (Inl detail) \<Rightarrow> Inl detail
     | Some (Inr x) \<Rightarrow> (case clone_mutations ms of Inl detail \<Rightarrow> Inl detail | Inr rest \<Rightarrow> Inr (SetEntry key x # rest))
     | None \<Rightarrow> (case clone_mutations ms of Inl detail \<Rightarrow> Inl detail | Inr rest \<Rightarrow> Inr (DeleteEntry key # rest)))"

definition result_message :: "source_value sandbox_result \<Rightarrow> (string \<times> source_value option) list \<Rightarrow> worker_message" where
  "result_message result mutations = (case (clone_result result, clone_mutations mutations) of
     (Inr r, Inr ms) \<Rightarrow> ResultMessage r ms
   | (Inl detail, _) \<Rightarrow> ResultMessage (ErrorResult ''The Operation failed.'' (Some detail) False) []
   | (_, Inl detail) \<Rightarrow> ResultMessage (ErrorResult ''The Operation failed.'' (Some detail) False) [])"

definition booted :: "worker_request \<Rightarrow> 'w \<Rightarrow> 'w worker" where
  "booted wr w = \<lparr>wk_view = map (\<lambda>(k, v). (k, Inr v)) (wr_cacheSnapshot wr), wk_mutations = [], wk_posted = [], wk_sent = [], wk_world = w\<rparr>"

definition worker_main :: "'w host_deps \<Rightarrow> worker_request \<Rightarrow> nat \<Rightarrow> 'w \<Rightarrow> 'w worker" where
  "worker_main deps wr n w = (case runInSandbox deps wr n (booted wr w) of
     (None, s) \<Rightarrow> s
   | (Some result, s) \<Rightarrow> post (result_message result (wk_mutations s)) s)"

section \<open>The host's side of a worker\<close>

datatype worker_event = MessageEvent worker_message | ErrorEvent string | ExitEvent | TimerEvent

record spawned =
  sp_settled :: bool
  sp_timerCleared :: bool
  sp_terminated :: nat
  sp_resolved :: "json sandbox_result list"
  sp_cache :: host_cache

definition failed_result :: "json sandbox_result" where
  "failed_result = ErrorResult ''The Operation failed.'' None False"

definition timed_out :: "json sandbox_result" where
  "timed_out = ErrorResult ''The Operation timed out.'' None False"

definition finish :: "int \<Rightarrow> int \<Rightarrow> string \<Rightarrow> json sandbox_result \<Rightarrow> cache_mutation list \<Rightarrow> spawned \<Rightarrow> spawned" where
  "finish ttl now' egress result mutations s =
     (if sp_settled s then s
      else s\<lparr>sp_settled := True, sp_timerCleared := True,
        sp_cache := (if mutations \<noteq> [] then applyMutations ttl now' egress mutations (sp_cache s) else sp_cache s),
        sp_terminated := sp_terminated s + 1, sp_resolved := sp_resolved s @ [result]\<rparr>)"

fun on_event :: "int \<Rightarrow> int \<Rightarrow> string \<Rightarrow> worker_event \<Rightarrow> spawned \<Rightarrow> spawned" where
  "on_event ttl now' egress (MessageEvent (ConsoleMessage level args)) s = s"
| "on_event ttl now' egress (MessageEvent (ResultMessage result mutations)) s = finish ttl now' egress result mutations s"
| "on_event ttl now' egress (ErrorEvent detail) s = finish ttl now' egress failed_result [] s"
| "on_event ttl now' egress ExitEvent s = finish ttl now' egress failed_result [] s"
| "on_event ttl now' egress TimerEvent s = (if sp_timerCleared s then s else finish ttl now' egress timed_out [] s)"

definition on_events :: "int \<Rightarrow> int \<Rightarrow> string \<Rightarrow> worker_event list \<Rightarrow> host_cache \<Rightarrow> spawned" where
  "on_events ttl now' egress events cache =
     fold (on_event ttl now' egress) events \<lparr>sp_settled = False, sp_timerCleared = False, sp_terminated = 0, sp_resolved = [], sp_cache = cache\<rparr>"

text \<open>
  How a worker that did not come to a result ends: with an error, by exiting, or silently, until the timer
  terminates it. One that did exits after its result.
\<close>

datatype ending = Crashes string | Quits | Silent

fun ending_events :: "ending \<Rightarrow> worker_event list" where
  "ending_events (Crashes detail) = [ErrorEvent detail, ExitEvent]"
| "ending_events Quits = [ExitEvent]"
| "ending_events Silent = [TimerEvent, ExitEvent]"

definition result_posted :: "worker_message list \<Rightarrow> bool" where
  "result_posted ms \<longleftrightarrow> list_ex (\<lambda>m. case m of ResultMessage _ _ \<Rightarrow> True | _ \<Rightarrow> False) ms"

definition worker_events :: "'w worker \<Rightarrow> ending \<Rightarrow> worker_event list" where
  "worker_events s e = map MessageEvent (wk_posted s) @ (if result_posted (wk_posted s) then [ExitEvent] else ending_events e)"

section \<open>OperationHost\<close>

record 'w host_state =
  hs_cache :: host_cache
  hs_world :: 'w

text \<open>
  What becomes of a worker: it could not be spawned, or it takes a number of actions and ends so if it has no
  result by then. Meanwhile the rest of the Runtime goes on and may change the cache and the world.
\<close>

type_synonym 'w fate = "worker_request \<Rightarrow> ('w host_state, nat \<times> ending) io"

datatype egress_entry = Configured egress_config | Inherited

text \<open>\<open>this.config.egresses[name]\<close>, which also finds what every object inherits.\<close>

definition egress_at :: "dynamic_operation_config \<Rightarrow> string \<Rightarrow> egress_entry option" where
  "egress_at config name = (case map_of (dc_egresses config) name of
     Some e \<Rightarrow> Some (Configured e) | None \<Rightarrow> if inherited_text name \<noteq> None then Some Inherited else None)"

definition hasEgress :: "dynamic_operation_config \<Rightarrow> string \<Rightarrow> bool" where
  "hasEgress config egress \<longleftrightarrow> egress \<noteq> [] \<and> egress_at config egress \<noteq> None"

definition declaresReconcile :: "compiled_module \<Rightarrow> bool" where
  "declaresReconcile m \<longleftrightarrow>
     at_word False (\<lambda>s. starts_with ''function'' s \<and> (let t = drop 8 s; u = dropWhile is_space t in
        u \<noteq> t \<and> starts_with ''reconcile'' u \<and> word_ends (drop 9 u))) (cm_code m) \<or>
     at_word False (word_then ''reconcile'' ''='') (cm_code m)"

definition in_world :: "('w, 'a) io \<Rightarrow> ('w host_state, 'a) io" where
  "in_world m = (\<lambda>s. case m (hs_world s) of (r, w) \<Rightarrow> (r, s\<lparr>hs_world := w\<rparr>))"

definition resolveEgressToken :: "'w host_deps \<Rightarrow> egress_config \<Rightarrow> ('w host_state, string) io" where
  "resolveEgressToken deps egress =
     (if eg_token egress \<noteq> [] then returnE (eg_token egress)
      else if truthy (eg_tokenFile egress)
      then bindE (in_world (hd_readFile deps (coalesce (eg_tokenFile egress) []))) (\<lambda>contents. returnE (trim contents))
      else returnE [])"

definition credential_of :: "'w host_deps \<Rightarrow> string \<Rightarrow> ('w host_state, egress_credential option) io" where
  "credential_of deps egressName = (case egress_at (hd_config deps) egressName of
     None \<Rightarrow> returnE None
   | Some Inherited \<Rightarrow> returnE (Some \<lparr>ec_url = None, ec_token = []\<rparr>)
   | Some (Configured e) \<Rightarrow> bindE (resolveEgressToken deps e) (\<lambda>token. returnE (Some \<lparr>ec_url = Some (eg_url e), ec_token = token\<rparr>)))"

text \<open>A time to live that is no whole number of milliseconds acts as the next one.\<close>

definition ttl_of :: "dynamic_operation_config \<Rightarrow> int" where
  "ttl_of config = (case dc_cacheTtlMs config of Fin m e \<Rightarrow> (if 0 \<le> e then m * 10 ^ nat e else - ((- m) div 10 ^ nat (- e))) | _ \<Rightarrow> 0)"

definition spawn :: "'w host_deps \<Rightarrow> 'w fate \<Rightarrow> worker_request \<Rightarrow> ('w host_state, json sandbox_result list) io" where
  "spawn deps fate wr =
     bindE (attemptE (fate wr)) (\<lambda>r. case r of
       Inl e \<Rightarrow> returnE [failed_result]
     | Inr (n, e) \<Rightarrow>
         bindE (getE (\<lambda>s. worker_main deps wr n (hs_world s))) (\<lambda>worker.
         bindE (getE (\<lambda>s. on_events (ttl_of (hd_config deps)) (hd_clock deps (wk_world worker)) (wr_egressName wr)
            (worker_events worker e) (hs_cache s))) (\<lambda>sp.
         bindE (modifyE (\<lambda>s. s\<lparr>hs_cache := sp_cache sp, hs_world := wk_world worker\<rparr>)) (\<lambda>_. returnE (sp_resolved sp)))))"

definition no_execute :: "string \<Rightarrow> string" where
  "no_execute opKey = ''Operation '' @ opKey @ '' declares no execute function''"

definition translate :: "json sandbox_result \<Rightarrow> sandbox_mode \<Rightarrow> string \<Rightarrow> outcome option" where
  "translate result mode opKey = (case result of
     ValueResult v \<Rightarrow> Some (OValue v)
   | PendingResult who wakeAt' note' \<Rightarrow> Some (OPending who wakeAt' None note')
   | ErrorResult message detail exposed \<Rightarrow> Some (OError message)
   | NoFunction \<Rightarrow> if mode = ReconcileMode then None else Some (OError (no_execute opKey)))"

definition no_credential :: "string \<Rightarrow> string" where
  "no_credential egressName = ''no credential is available for egress '' @ quoted egressName"

text \<open>A run whose worker never settles would not return; it is written as an exception.\<close>

definition request_for :: "'w host_deps \<Rightarrow> compiled_module \<Rightarrow> sandbox_mode \<Rightarrow> json \<Rightarrow> op_context \<Rightarrow> run_target \<Rightarrow>
    egress_credential option \<Rightarrow> 'w host_state \<Rightarrow> worker_request" where
  "request_for deps m mode args context target credential s =
     (let egressName = coalesce (rt_egress target) [] in
      \<lparr>wr_code = cm_code m, wr_args = args, wr_idempotencyKey = ctx_idempotencyKey context, wr_mode = mode, wr_egressName = egressName,
       wr_egress = credential, wr_timeoutMs = clampTimeoutMs (hd_config deps) (map_option num_of_int (rt_timeoutMs target)),
       wr_maxBodyBytes = dc_maxBodyBytes (hd_config deps),
       wr_cacheSnapshot = cache_snapshot (hd_clock deps (hs_world s)) egressName (hs_cache s), wr_operationKey = rt_key target\<rparr>)"

definition run :: "'w host_deps \<Rightarrow> 'w fate \<Rightarrow> compiled_module \<Rightarrow> sandbox_mode \<Rightarrow> json \<Rightarrow> op_context \<Rightarrow> run_target \<Rightarrow>
    ('w host_state, outcome option) io" where
  "run deps fate m mode args context target =
     bindE (attemptE (credential_of deps (coalesce (rt_egress target) []))) (\<lambda>r. case r of
       Inl e \<Rightarrow> returnE (Some (OError (no_credential (coalesce (rt_egress target) []))))
     | Inr credential \<Rightarrow>
         bindE (getE (request_for deps m mode args context target credential)) (\<lambda>wr.
         bindE (spawn deps fate wr) (\<lambda>resolved. case resolved of
           result # _ \<Rightarrow> returnE (translate result mode (rt_key target))
         | [] \<Rightarrow> throwE (Thrown ''the worker never settled''))))"

text \<open>The host as the registry takes it.\<close>

definition dynamic_host :: "'w host_deps \<Rightarrow> 'w fate \<Rightarrow> 'w host_state operation_host" where
  "dynamic_host deps fate = \<lparr>h_compile = (\<lambda>source language. compile_code (hd_toolchain deps) source (coalesce language Typescript)),
     h_hasEgress = hasEgress (hd_config deps), h_declaresReconcile = declaresReconcile, h_run = run deps fate\<rparr>"

end
