(* ===== verification/DynamicProperties.thy ===== *)
theory DynamicProperties
  imports Dynamic
begin

text \<open>
  What the Operation Host promises (\<open>runtime/src/operations/dynamic\<close>): a run always comes to an answer, a Source
  reaches nothing but its egress, what it leaves in its cache is what the next run finds, and the store of
  compiled Sources changes nothing but the work.
\<close>

section \<open>A worker settles once\<close>

fun settles :: "worker_event \<Rightarrow> (json sandbox_result \<times> cache_mutation list) option" where
  "settles (MessageEvent (ConsoleMessage level args)) = None"
| "settles (MessageEvent (ResultMessage result mutations)) = Some (result, mutations)"
| "settles (ErrorEvent detail) = Some (failed_result, [])"
| "settles ExitEvent = Some (failed_result, [])"
| "settles TimerEvent = Some (timed_out, [])"

fun first_settled :: "worker_event list \<Rightarrow> (json sandbox_result \<times> cache_mutation list) option" where
  "first_settled [] = None"
| "first_settled (e # es) = (case settles e of None \<Rightarrow> first_settled es | Some r \<Rightarrow> Some r)"

lemma on_event_settled: "sp_settled s \<Longrightarrow> sp_timerCleared s \<Longrightarrow> on_event ttl now' egress e s = s"
proof (cases e)
  case (MessageEvent m)
  then show "sp_settled s \<Longrightarrow> sp_timerCleared s \<Longrightarrow> ?thesis" by (cases m) (simp_all add: finish_def)
qed (simp_all add: finish_def)

lemma on_events_settled: "sp_settled s \<Longrightarrow> sp_timerCleared s \<Longrightarrow> fold (on_event ttl now' egress) es s = s"
  by (induction es) (simp_all add: on_event_settled)

text \<open>The first event that settles decides, and whatever comes later is not heard.\<close>

lemma on_events_first:
  "on_events ttl now' egress es cache = (case first_settled es of
     None \<Rightarrow> \<lparr>sp_settled = False, sp_timerCleared = False, sp_terminated = 0, sp_resolved = [], sp_cache = cache\<rparr>
   | Some (result, mutations) \<Rightarrow> \<lparr>sp_settled = True, sp_timerCleared = True, sp_terminated = 1, sp_resolved = [result],
       sp_cache = (if mutations \<noteq> [] then applyMutations ttl now' egress mutations cache else cache)\<rparr>)"
proof (induction es)
  case Nil
  then show ?case by (simp add: on_events_def)
next
  case (Cons e es)
  let ?s = "\<lparr>sp_settled = False, sp_timerCleared = False, sp_terminated = 0, sp_resolved = [], sp_cache = cache\<rparr>"
  show ?case
  proof (cases "settles e")
    case None
    then obtain level args where "e = MessageEvent (ConsoleMessage level args)" by (cases e rule: settles.cases) auto
    with Cons.IH show ?thesis by (simp add: on_events_def)
  next
    case (Some r)
    obtain result mutations where r: "r = (result, mutations)" by (cases r)
    have "on_event ttl now' egress e ?s = finish ttl now' egress result mutations ?s"
      using Some r by (cases e rule: settles.cases) auto
    moreover have "fold (on_event ttl now' egress) es (finish ttl now' egress result mutations ?s) = finish ttl now' egress result mutations ?s"
      by (rule on_events_settled) (simp_all add: finish_def)
    ultimately show ?thesis using Some r by (simp add: on_events_def) (simp add: finish_def)
  qed
qed

lemma first_settled_append: "first_settled (xs @ ys) = or_else (first_settled xs) (first_settled ys)"
  by (induction xs) (simp_all split: option.split)

lemma first_settled_consoles: "\<forall>m \<in> set ms. \<exists>level args. m = ConsoleMessage level args \<Longrightarrow> first_settled (map MessageEvent ms) = None"
  by (induction ms) auto

lemma ending_settles: "\<exists>r \<in> {failed_result, timed_out}. first_settled (ending_events e) = Some (r, [])"
  by (cases e) simp_all

section \<open>What a worker posts\<close>

definition consoles :: "worker_message list \<Rightarrow> bool" where
  "consoles ms \<longleftrightarrow> (\<forall>m \<in> set ms. \<exists>level args. m = ConsoleMessage level args)"

lemma consoles_simps [simp]: "consoles []" "consoles (ms @ [ConsoleMessage level args]) \<longleftrightarrow> consoles ms"
  by (auto simp: consoles_def)

lemma client_request_keeps:
  "client_request deps wr request s = (r, s') \<Longrightarrow> wk_posted s' = wk_posted s \<and> wk_view s' = wk_view s \<and> wk_mutations s' = wk_mutations s"
  by (auto simp: client_request_def Let_def split: option.splits if_splits prod.splits)

lemma worker_simps [simp]:
  "wk_posted (view_set key v s) = wk_posted s" "wk_posted (view_delete key s) = wk_posted s" "wk_posted (post m s) = wk_posted s @ [m]"
  "wk_view (view_set key v s) = AList.update key v (wk_view s)" "wk_view (view_delete key s) = AList.delete key (wk_view s)"
  "wk_view (post m s) = wk_view s" "wk_mutations (view_set key v s) = wk_mutations s @ [(key, Some v)]"
  "wk_mutations (view_delete key s) = wk_mutations s @ [(key, None)]" "wk_mutations (post m s) = wk_mutations s"
  "wk_sent (view_set key v s) = wk_sent s" "wk_sent (view_delete key s) = wk_sent s" "wk_sent (post m s) = wk_sent s"
  by (simp_all add: view_set_def view_delete_def post_def)

text \<open>What every action keeps, a whole run keeps.\<close>

lemma run_source_keeps:
  assumes "run_source deps wr n src s = (r, s')" and "I s"
    and "\<And>request s r s'. client_request deps wr request s = (r, s') \<Longrightarrow> I s \<Longrightarrow> I s'"
    and "\<And>key v s. I s \<Longrightarrow> I (view_set key v s)" and "\<And>key s. I s \<Longrightarrow> I (view_delete key s)"
    and "\<And>level args s. I s \<Longrightarrow> I (post (ConsoleMessage level args) s)"
  shows "I s'"
  using assms(1,2)
proof (induction n arbitrary: src s)
  case (Suc n)
  show ?case
  proof (cases src)
    case (Requests request k)
    obtain a s1 where "client_request deps wr request s = (a, s1)" by (cases "client_request deps wr request s")
    then show ?thesis using Suc.IH [of "k a" s1] Suc.prems assms(3) Requests by simp
  next
    case (CacheGet key k)
    then show ?thesis using Suc.IH [of "k (view_get key s)" s] Suc.prems by simp
  next
    case (CacheSet key v src')
    then show ?thesis using Suc.IH [of src' "view_set key v s"] Suc.prems assms(4) by simp
  next
    case (CacheDelete key src')
    then show ?thesis using Suc.IH [of src' "view_delete key s"] Suc.prems assms(5) by simp
  next
    case (Logs level args src')
    then show ?thesis using Suc.IH [of src' "post (ConsoleMessage level (map safe args)) s"] Suc.prems assms(6) by simp
  qed (use Suc.prems in simp_all)
qed simp

lemma run_source_consoles: "run_source deps wr n src s = (r, s') \<Longrightarrow> consoles (wk_posted s) \<Longrightarrow> consoles (wk_posted s')"
  by (erule run_source_keeps [where I = "\<lambda>s. consoles (wk_posted s)"]) (auto dest: client_request_keeps)

lemma runInSandbox_consoles: "runInSandbox deps wr n (booted wr w) = (r, s) \<Longrightarrow> consoles (wk_posted s)"
  by (auto simp: runInSandbox_def booted_def split: sum.splits option.splits dest: run_source_consoles)

lemma result_message_is: "\<exists>r ms. result_message result mutations = ResultMessage r ms"
  by (auto simp: result_message_def split: sum.split)

lemma worker_first_settled:
  assumes "runInSandbox deps wr n (booted wr w) = (result, s)"
  shows "first_settled (worker_events (worker_main deps wr n w) e) = (case result of
     None \<Rightarrow> first_settled (ending_events e) | Some r \<Rightarrow> settles (MessageEvent (result_message r (wk_mutations s))))"
proof -
  have c: "consoles (wk_posted s)" using runInSandbox_consoles [OF assms] .
  then have f: "first_settled (map MessageEvent (wk_posted s)) = None" by (intro first_settled_consoles) (simp add: consoles_def)
  have np: "\<not> result_posted (wk_posted s)" using c by (auto simp: result_posted_def consoles_def list_ex_iff)
  show ?thesis
  proof (cases result)
    case None
    then show ?thesis using f np by (simp add: worker_main_def assms worker_events_def first_settled_append)
  next
    case (Some r)
    obtain x ms where x: "result_message r (wk_mutations s) = ResultMessage x ms" using result_message_is by blast
    have "first_settled (map MessageEvent (wk_posted s @ [ResultMessage x ms]) @ events) = Some (x, ms)" for events
      using f by (simp add: first_settled_append)
    then show ?thesis using Some x by (simp add: worker_main_def assms worker_events_def post_def)
  qed
qed

section \<open>A run answers\<close>

lemma worker_settles: "\<exists>r ms. first_settled (worker_events (worker_main deps wr n w) e) = Some (r, ms) \<and>
    (r \<in> {failed_result, timed_out} \<or> (\<exists>ms. ResultMessage r ms \<in> set (wk_posted (worker_main deps wr n w))))"
proof -
  obtain result s where run: "runInSandbox deps wr n (booted wr w) = (result, s)" by (cases "runInSandbox deps wr n (booted wr w)")
  show ?thesis
  proof (cases result)
    case None
    then show ?thesis using worker_first_settled [OF run] ending_settles [of e] by auto
  next
    case (Some r)
    obtain x ms where "result_message r (wk_mutations s) = ResultMessage x ms" using result_message_is by blast
    then show ?thesis using worker_first_settled [OF run, of e] Some by (auto simp: worker_main_def run post_def)
  qed
qed

lemma spawn_settles: "\<exists>r s'. spawn deps fate wr s = (Inr [r], s') \<and>
    (r \<in> {failed_result, timed_out} \<or> (\<exists>n w ms. ResultMessage r ms \<in> set (wk_posted (worker_main deps wr n w))))"
proof (cases "fate wr s")
  case (Pair r s1)
  show ?thesis
  proof (cases r)
    case (Inl e)
    then show ?thesis using Pair by (simp add: spawn_def io_defs)
  next
    case (Inr ne)
    obtain n e where ne: "ne = (n, e)" by (cases ne)
    obtain x ms where x: "first_settled (worker_events (worker_main deps wr n (hs_world s1)) e) = Some (x, ms)"
      "x \<in> {failed_result, timed_out} \<or> (\<exists>ms. ResultMessage x ms \<in> set (wk_posted (worker_main deps wr n (hs_world s1))))"
      using worker_settles [of deps wr n "hs_world s1" e] by (elim exE conjE)
    then show ?thesis using Pair Inr ne by (auto simp: spawn_def io_defs on_events_first)
  qed
qed

definition told_or_hidden :: "'v sandbox_result \<Rightarrow> bool" where
  "told_or_hidden r = (case r of ErrorResult message detail exposed \<Rightarrow> message = ''The Operation failed.'' \<and> \<not> exposed \<or> detail = None \<and> exposed
     | _ \<Rightarrow> True)"

lemma told_or_hidden_simps [simp]:
  "told_or_hidden (ValueResult v)" "told_or_hidden (PendingResult who t n)" "told_or_hidden NoFunction" "told_or_hidden (errorResult e)"
  by (simp_all add: told_or_hidden_def errorResult_def split: source_error.split)

lemma run_source_told: "run_source deps wr n src s = (Some r, s') \<Longrightarrow> told_or_hidden r"
proof (induction n arbitrary: src s)
  case (Suc n)
  show ?case
  proof (cases src)
    case (Requests request k)
    obtain a s1 where "client_request deps wr request s = (a, s1)" by (cases "client_request deps wr request s")
    then show ?thesis using Suc.IH Suc.prems Requests by simp
  qed (use Suc.prems in \<open>auto elim: Suc.IH\<close>)
qed simp

lemma runInSandbox_told: "runInSandbox deps wr n s = (Some r, s') \<Longrightarrow> told_or_hidden r"
  by (auto simp: runInSandbox_def split: sum.splits option.splits dest: run_source_told)

lemma clone_result_told: "clone_result r = Inr x \<Longrightarrow> told_or_hidden r \<Longrightarrow> told_or_hidden x"
  by (cases r) (auto simp: told_or_hidden_def split: sum.splits)

lemma result_message_told: "result_message r mutations = ResultMessage x ms \<Longrightarrow> told_or_hidden r \<Longrightarrow> told_or_hidden x"
  by (auto simp: result_message_def split: sum.splits dest: clone_result_told) (simp_all add: told_or_hidden_def)

lemma result_error_exposed:
  assumes "ResultMessage x ms \<in> set (wk_posted (worker_main deps wr n w))"
  shows "told_or_hidden x"
proof -
  obtain result s where run: "runInSandbox deps wr n (booted wr w) = (result, s)" by (cases "runInSandbox deps wr n (booted wr w)")
  have c: "consoles (wk_posted s)" using runInSandbox_consoles [OF run] .
  show ?thesis
  proof (cases result)
    case None
    with assms c show ?thesis by (auto simp: worker_main_def run consoles_def)
  next
    case (Some r)
    with assms c have "result_message r (wk_mutations s) = ResultMessage x ms"
      by (auto simp: worker_main_def run consoles_def)
    with Some run show ?thesis using runInSandbox_told result_message_told by blast
  qed
qed


text \<open>A Source that speaks to the model.\<close>

definition spoken_code :: "source_error + (sandbox_mode \<Rightarrow> (json \<Rightarrow> string \<Rightarrow> source) option)" where
  "spoken_code = Inr (\<lambda>mode. if mode = ExecuteMode then Some (\<lambda>args key. Throws (OperationError ''no such account'')) else None)"

definition bank_config :: dynamic_operation_config where
  "bank_config = \<lparr>dc_timeoutMs = Fin 1 1, dc_maxBodyBytes = Fin 5 0, dc_memoryMb = Fin 1 0, dc_cacheTtlMs = Fin 9 0,
     dc_egresses = [(''bank'', \<lparr>eg_url = ''http://h/api/'', eg_token = ''t'', eg_tokenFile = None\<rparr>)]\<rparr>"

definition host_with :: "source_error + (sandbox_mode \<Rightarrow> (json \<Rightarrow> string \<Rightarrow> source) option) \<Rightarrow> nat host_deps" where
  "host_with declared = \<lparr>hd_config = bank_config,
     hd_toolchain = \<lparr>tc_sha256 = (\<lambda>s. s), tc_stripTypeScriptTypes = Inr, tc_syntaxError = (\<lambda>s. None)\<rparr>, hd_clock = int,
     hd_readFile = (\<lambda>file. throwE (JsError ''Error'' ''no file'')),
     hd_fetch = (\<lambda>sent. returnE \<lparr>fa_status = 200, fa_contentType = None, fa_chunks = Some [''ok''], fa_broken = None\<rparr>),
     hd_script = (\<lambda>code timeout. declared)\<rparr>"

definition call_target :: run_target where
  "call_target = \<lparr>rt_key = ''bank.pay'', rt_egress = Some ''bank'', rt_timeoutMs = None\<rparr>"

definition any_module :: compiled_module where
  "any_module = \<lparr>cm_hash = [], cm_code = [], cm_language = Typescript\<rparr>"

definition idle_host :: "nat host_state" where
  "idle_host = \<lparr>hs_cache = (\<lambda>egress. []), hs_world = 0\<rparr>"


section \<open>The cache\<close>

text \<open>What a Source would read: the entries that have not expired.\<close>

definition live :: "int \<Rightarrow> (string \<times> cache_entry) list \<Rightarrow> string \<rightharpoonup> json" where
  "live now' slots key = (case map_of slots key of Some e \<Rightarrow> if now' < ce_expiresAt e then Some (ce_value e) else None | None \<Rightarrow> None)"

lemma live_snapshot: "distinct (map fst (cache egress)) \<Longrightarrow> map_of (cache_snapshot now' egress cache) = live now' (cache egress)"
proof -
  have "distinct (map fst slots) \<Longrightarrow>
    map_of (map (\<lambda>(k, e). (k, ce_value e)) (filter (\<lambda>(k, e). now' < ce_expiresAt e) slots)) key = live now' slots key" for slots key
  proof (induction slots)
    case (Cons a slots)
    obtain k e where a: "a = (k, e)" by (cases a)
    have "map_of slots k = None" using Cons.prems a by (simp add: map_of_eq_None_iff)
    then show ?case using Cons a by (auto simp: live_def)
  qed (simp add: live_def)
  then show "distinct (map fst (cache egress)) \<Longrightarrow> ?thesis" by (auto simp: cache_snapshot_def)
qed

lemma live_get: "fst (cache_get now' egress key cache) = live now' (cache egress) key \<and>
    live now' (snd (cache_get now' egress key cache) egress) = live now' (cache egress)"
  by (auto simp: cache_get_def live_def delete_conv' split: option.split)

lemma live_set: "0 < ttl \<Longrightarrow> live now' (cache_set ttl now' egress key v cache egress) = (live now' (cache egress))(key \<mapsto> v)"
  by (auto simp: cache_set_def live_def update_conv')

lemma live_delete: "live now' (cache_delete egress key cache egress) = (live now' (cache egress))(key := None)"
  by (auto simp: cache_delete_def live_def delete_conv')

fun mutate :: "cache_mutation \<Rightarrow> (string \<rightharpoonup> json) \<Rightarrow> (string \<rightharpoonup> json)" where
  "mutate (SetEntry k v) m = m(k \<mapsto> v)"
| "mutate (DeleteEntry k) m = m(k := None)"

lemma live_mutation: "0 < ttl \<Longrightarrow> live now' (apply_mutation (now' + ttl) m slots) = mutate m (live now' slots)"
  by (cases m) (auto simp: live_def update_conv' delete_conv')

lemma live_mutations: "0 < ttl \<Longrightarrow> live now' (applyMutations ttl now' egress ms cache egress) = fold mutate ms (live now' (cache egress))"
proof -
  assume t: "0 < ttl"
  have "live now' (fold (apply_mutation (now' + ttl)) ms slots) = fold mutate ms (live now' slots)" for slots
    by (induction ms arbitrary: slots) (simp_all add: live_mutation [OF t])
  then show ?thesis by (simp add: applyMutations_def)
qed

definition touched :: "'w worker \<Rightarrow> string set" where
  "touched s = fst ` set (wk_mutations s)"

definition cloned :: "source_value option \<Rightarrow> json option" where
  "cloned v = (case v of Some (Inr x) \<Rightarrow> Some x | _ \<Rightarrow> None)"

text \<open>The last mutation of a key says what the view holds for it.\<close>

definition view_mutated :: "'w worker \<Rightarrow> bool" where
  "view_mutated s \<longleftrightarrow> (\<forall>key \<in> touched s. map_of (wk_view s) key = Option.bind (map_of (rev (wk_mutations s)) key) (\<lambda>v. v))"

lemma view_mutated_cong: "wk_view s' = wk_view s \<Longrightarrow> wk_mutations s' = wk_mutations s \<Longrightarrow> view_mutated s' = view_mutated s"
  by (simp add: view_mutated_def touched_def)

lemma view_mutated_run:
  assumes "run_source deps wr n src s = (r, s')" and "view_mutated s"
  shows "view_mutated s'"
proof (rule run_source_keeps [where I = view_mutated, OF assms])
  show "view_mutated s'" if "client_request deps wr request s = (r, s')" "view_mutated s" for request s r s'
    using client_request_keeps [OF that(1)] that(2) view_mutated_cong by metis
qed (auto simp: view_mutated_def touched_def update_conv' delete_conv')

lemma fold_mutate_last:
  "clone_mutations ms = Inr mutations \<Longrightarrow>
   fold mutate mutations m key = (if key \<in> fst ` set ms then cloned (Option.bind (map_of (rev ms) key) (\<lambda>v. v)) else m key)"
proof (induction ms arbitrary: mutations m)
  case (Cons a ms)
  obtain k v where a: "a = (k, v)" by (cases a)
  obtain rest x where r: "clone_mutations ms = Inr rest" "mutations = x # rest"
    "mutate x m = m(k := cloned v)"
    using Cons.prems a by (auto simp: cloned_def split: option.splits sum.splits)
  have "map_of (rev ms) key = None \<longleftrightarrow> key \<notin> fst ` set ms" by (simp add: map_of_eq_None_iff)
  then show ?case using Cons.IH [OF r(1)] r(2,3) a by (cases "map_of (rev ms) key") (auto simp: map_add_def)
qed simp

text \<open>
  C25. What a Source leaves in its cache is what the next run finds. When its worker has answered, the host's
  cache holds, for every key the Source set or deleted, what the Source itself would have read of it at the
  end, and for every other key what it held before the answer, whatever other runs wrote meanwhile; no other
  egress is touched, and the call is answered with the Source's own result, once, the worker terminated.
\<close>

theorem cache_follows_the_source:
  assumes "runInSandbox deps wr n (booted wr w) = (Some result, worker)"
    and "clone_result result = Inr posted" and "clone_mutations (wk_mutations worker) = Inr mutations" and "0 < ttl"
  shows "let settled = on_events ttl now' egress (worker_events (worker_main deps wr n w) e) cache in
    (\<forall>key. live now' (sp_cache settled egress) key =
       (if key \<in> touched worker then cloned (map_of (wk_view worker) key) else live now' (cache egress) key)) \<and>
    (\<forall>other. other \<noteq> egress \<longrightarrow> sp_cache settled other = cache other) \<and>
    sp_resolved settled = [posted] \<and> sp_terminated settled = 1"
proof -
  have m: "result_message result (wk_mutations worker) = ResultMessage posted mutations"
    using assms(2,3) by (simp add: result_message_def)
  have "view_mutated worker"
    using assms(1) by (auto simp: runInSandbox_def split: sum.splits option.splits dest!: view_mutated_run)
      (simp_all add: view_mutated_def touched_def booted_def)
  then have v: "key \<in> touched worker \<Longrightarrow> map_of (wk_view worker) key = Option.bind (map_of (rev (wk_mutations worker)) key) (\<lambda>v. v)" for key
    by (simp add: view_mutated_def)
  have e: "mutations = [] \<Longrightarrow> wk_mutations worker = []"
    using assms(3) by (cases "wk_mutations worker") (auto split: option.splits sum.splits prod.splits)
  have s: "on_events ttl now' egress (worker_events (worker_main deps wr n w) e) cache = \<lparr>sp_settled = True, sp_timerCleared = True,
    sp_terminated = 1, sp_resolved = [posted], sp_cache = (if mutations \<noteq> [] then applyMutations ttl now' egress mutations cache else cache)\<rparr>"
    using worker_first_settled [OF assms(1), of e] m by (simp add: on_events_first)
  have "live now' (sp_cache (on_events ttl now' egress (worker_events (worker_main deps wr n w) e) cache) egress) key =
       (if key \<in> touched worker then cloned (map_of (wk_view worker) key) else live now' (cache egress) key)" for key
  proof (cases "mutations = []")
    case True
    then show ?thesis using e s by (simp add: touched_def)
  next
    case False
    then show ?thesis using s live_mutations [OF assms(4)] fold_mutate_last [OF assms(3)] v by (simp add: touched_def)
  qed
  then show ?thesis using s by (simp add: applyMutations_def)
qed

text \<open>A Source that caches what it read.\<close>

definition caching :: source where
  "caching = CacheSet ''a'' (Inr (JStr ''1'')) (CacheGet ''b'' (\<lambda>v. CacheDelete ''b'' (Returns v)))"

definition caching_request :: worker_request where
  "caching_request = \<lparr>wr_code = [], wr_args = JObj [], wr_idempotencyKey = [], wr_mode = ExecuteMode, wr_egressName = ''bank'', wr_egress = None,
     wr_timeoutMs = Fin 1 0, wr_maxBodyBytes = Fin 1 0, wr_cacheSnapshot = [(''b'', JStr ''2'')], wr_operationKey = ''x''\<rparr>"

theorem cache_follows_the_source_witness:
  "let deps = host_with (Inr (\<lambda>mode. Some (\<lambda>args key. caching)));
       settled = on_events 5 0 ''bank'' (worker_events (worker_main deps caching_request 9 0) Quits)
         (\<lambda>egress. [(''b'', \<lparr>ce_value = JStr ''2'', ce_expiresAt = 3\<rparr>), (''c'', \<lparr>ce_value = JStr ''3'', ce_expiresAt = 3\<rparr>)])
   in live 0 (sp_cache settled ''bank'') ''a'' = Some (JStr ''1'') \<and> live 0 (sp_cache settled ''bank'') ''b'' = None \<and>
      live 0 (sp_cache settled ''bank'') ''c'' = Some (JStr ''3'') \<and> sp_resolved settled = [ValueResult (JStr ''2'')]"
proof -
  let ?deps = "host_with (Inr (\<lambda>mode. Some (\<lambda>args key. caching)))"
  let ?cache = "\<lambda>egress. [(''b'', \<lparr>ce_value = JStr ''2'', ce_expiresAt = 3 :: int\<rparr>), (''c'', \<lparr>ce_value = JStr ''3'', ce_expiresAt = 3\<rparr>)]"
  let ?final = "\<lparr>wk_view = [(''a'', Inr (JStr ''1''))], wk_mutations = [(''a'', Some (Inr (JStr ''1''))), (''b'', None)],
    wk_posted = [], wk_sent = [], wk_world = 0 :: nat\<rparr>"
  have run: "runInSandbox ?deps caching_request 9 (booted caching_request 0) = (Some (ValueResult (Inr (JStr ''2''))), ?final)"
    by (simp add: runInSandbox_def host_with_def caching_request_def caching_def booted_def numeral_eq_Suc view_set_def view_get_def view_delete_def)
  have "let settled = on_events 5 0 ''bank'' (worker_events (worker_main ?deps caching_request 9 0) Quits) ?cache in
    (\<forall>key. live 0 (sp_cache settled ''bank'') key =
       (if key \<in> touched ?final then cloned (map_of (wk_view ?final) key) else live 0 (?cache ''bank'') key)) \<and>
    (\<forall>other. other \<noteq> ''bank'' \<longrightarrow> sp_cache settled other = ?cache other) \<and>
    sp_resolved settled = [ValueResult (JStr ''2'')] \<and> sp_terminated settled = 1"
    by (rule cache_follows_the_source [OF run, where mutations = "[SetEntry ''a'' (JStr ''1''), DeleteEntry ''b'']"]) simp_all
  then show ?thesis by (simp add: Let_def touched_def cloned_def live_def)
qed

end
