(* ===== verification/EgressProperties.thy ===== *)
theory EgressProperties
  imports DynamicProperties
begin

text \<open>
  Where a Source can reach and how much it can be sent (\<open>runtime/src/operations/dynamic/http.ts\<close>), what a
  compiled Source is free of, and that the store of compiled Sources changes nothing
  (\<open>runtime/src/operations/dynamic/compile.ts\<close>); and two places where the code admits more than it says.
\<close>

section \<open>The address of a request\<close>

lemma hex_upper_plain: "k < 16 \<Longrightarrow> \<not> ends_authority (hex_upper k)"
proof -
  have "\<forall>k < 16. \<not> ends_authority (hex_upper k)" by code_simp
  then show "k < 16 \<Longrightarrow> ?thesis" by simp
qed

lemma alnum_plain: "is_alnum c \<Longrightarrow> \<not> ends_authority c"
proof
  assume a: "is_alnum c" and "ends_authority c"
  then have "c \<in> {CHR ''/'', CHR 0x5C, CHR ''?'', CHR ''#''}" by (auto simp: ends_authority_def is_slash_def)
  moreover have "\<not> is_alnum (CHR ''/'')" "\<not> is_alnum (CHR 0x5C)" "\<not> is_alnum (CHR ''?'')" "\<not> is_alnum (CHR ''#'')" by code_simp+
  ultimately show False using a by blast
qed

lemma encoded_plain: "c \<in> set (encodeURIComponent s) \<Longrightarrow> \<not> ends_authority c"
proof -
  have "\<not> ends_authority (CHR 0x27)" "\<not> ends_authority (CHR ''%'')" by code_simp+
  moreover have "\<forall>c \<in> set ''-_.!~*()''. \<not> ends_authority c" by code_simp
  moreover have "\<forall>c \<in> set (percent d). \<not> ends_authority c" for d
  proof -
    have "(of_char d :: nat) < 16 * 16" using nat_of_char_less_256 [of d] by simp
    then have "(of_char d :: nat) div 16 < 16" "(of_char d :: nat) mod 16 < 16" by (simp_all add: less_mult_imp_div_less mod_less_divisor)
    with hex_upper_plain calculation(2) show ?thesis by (simp add: percent_def Let_def)
  qed
  ultimately show "c \<in> set (encodeURIComponent s) \<Longrightarrow> \<not> ends_authority c"
    unfolding encodeURIComponent_def by (auto split: if_splits dest: alnum_plain)
qed

lemma with_params_keep: "u_scheme (fold (\<lambda>(k, v). with_param k (js_string v)) query u) = u_scheme u \<and>
    u_authority (fold (\<lambda>(k, v). with_param k (js_string v)) query u) = u_authority u \<and>
    u_path (fold (\<lambda>(k, v). with_param k (js_string v)) query u) = u_path u"
  by (induction query arbitrary: u) auto

definition dotted_segment :: "string \<Rightarrow> bool" where
  "dotted_segment s \<longleftrightarrow> single_dot s \<or> double_dot s"

lemma target_at_base:
  assumes "target_url base p query = Some u" and "parse_url base = Some b"
  shows "u_scheme u = u_scheme b \<and> u_authority u = u_authority b"
proof -
  from assms(1) obtain v where "parse_url (strip_slashes base @ encoded_path p) = Some v"
    and "u = fold (\<lambda>(k, x). with_param k (js_string x)) query v" by (auto simp: target_url_def)
  with below_address [OF assms(2)] with_params_keep [of query v] show ?thesis by (simp add: encoded_path_def)
qed

lemma target_below_base:
  assumes "target_url base p query = Some u" and "parse_url base = Some b" and "CHR ''?'' \<notin> set base" "CHR ''#'' \<notin> set base"
    and "segments p \<noteq> []" "\<forall>s \<in> set (segments p). \<not> dotted_segment s"
  shows "u_path u = base_path base @ segments p"
proof -
  from assms(1) obtain v where v: "parse_url (strip_slashes base @ CHR ''/'' # join ''/'' (segments p)) = Some v"
    and "u = fold (\<lambda>(k, x). with_param k (js_string x)) query v" by (auto simp: target_url_def encoded_path_def)
  moreover have "\<forall>w \<in> set (segments p). (\<forall>c \<in> set w. \<not> ends_authority c) \<and> \<not> single_dot w \<and> \<not> double_dot w"
    using assms(6) encoded_plain by (auto simp: segments_def dotted_segment_def)
  ultimately show ?thesis using below_path [OF assms(2) v assms(3-5)] with_params_keep [of query v] by simp
qed

definition allowed_request :: "worker_request \<Rightarrow> sent_request \<Rightarrow> bool" where
  "allowed_request wr sent \<longleftrightarrow> (\<exists>base token p query. wr_egress wr = Some \<lparr>ec_url = Some base, ec_token = token\<rparr> \<and> \<not> is_absolute p \<and>
     target_url base p query = Some (sr_url sent))"

lemma client_request_allowed:
  "client_request deps wr request s = (r, s') \<Longrightarrow> list_all (allowed_request wr) (wk_sent s) \<Longrightarrow> list_all (allowed_request wr) (wk_sent s')"
proof -
  assume run: "client_request deps wr request s = (r, s')" and a: "list_all (allowed_request wr) (wk_sent s)"
  show "list_all (allowed_request wr) (wk_sent s')"
  proof (cases "wk_sent s' = wk_sent s")
    case False
    with run obtain credential base u where c: "wr_egress wr = Some credential" "ec_url credential = Some base"
      "target_url base (coalesce (sq_path request) []) (sq_query request) = Some u" "\<not> is_absolute (coalesce (sq_path request) [])"
      "wk_sent s' = wk_sent s @ [sent_of (ec_token credential) u request]"
      by (auto simp: client_request_def Let_def bind_eq_Some_conv split: option.splits if_splits prod.splits)
    have "credential = \<lparr>ec_url = Some base, ec_token = ec_token credential\<rparr>" using c(2) by (cases credential) simp
    then have "allowed_request wr (sent_of (ec_token credential) u request)"
      unfolding allowed_request_def using c(1,3,4) by (intro exI conjI) (auto simp: sent_of_def Let_def)
    then show ?thesis using a c(5) by simp
  qed (use a in simp)
qed

lemma worker_sends_allowed: "list_all (allowed_request wr) (wk_sent (worker_main deps wr n w))"
proof -
  obtain result s where run: "runInSandbox deps wr n (booted wr w) = (result, s)" by (cases "runInSandbox deps wr n (booted wr w)")
  have keeps: "run_source deps wr n src s = (r, s') \<Longrightarrow> list_all (allowed_request wr) (wk_sent s) \<Longrightarrow> list_all (allowed_request wr) (wk_sent s')"
    for src s r s'
    by (erule run_source_keeps [where I = "\<lambda>s. list_all (allowed_request wr) (wk_sent s)"]) (auto intro: client_request_allowed)
  have b: "list_all (allowed_request wr) (wk_sent (booted wr w))" by (simp add: booted_def)
  have "list_all (allowed_request wr) (wk_sent s)"
    using run b by (auto simp: runInSandbox_def split: sum.splits option.splits intro: keeps)
  then show ?thesis by (cases result) (simp_all add: worker_main_def run)
qed


definition asking :: source where
  "asking = Requests \<lparr>sq_method = None, sq_path = Some ''v1/a b'', sq_query = [(''q'', JStr ''x&y'')], sq_body = JUndef, sq_headers = []\<rparr>
     (\<lambda>r. case r of Inl e \<Rightarrow> Throws e | Inr answer \<Rightarrow> Returns (Inr (sa_body answer)))"

definition asking_request :: "string \<Rightarrow> worker_request" where
  "asking_request base = \<lparr>wr_code = [], wr_args = JObj [], wr_idempotencyKey = [], wr_mode = ExecuteMode, wr_egressName = ''bank'',
     wr_egress = Some \<lparr>ec_url = Some base, ec_token = ''t''\<rparr>, wr_timeoutMs = Fin 1 0, wr_maxBodyBytes = Fin 5 0,
     wr_cacheSnapshot = [], wr_operationKey = ''x''\<rparr>"

lemma asking_sent: "map (\<lambda>sent. href (sr_url sent)) (wk_sent (worker_main (host_with (Inr (\<lambda>mode. Some (\<lambda>args key. asking))))
    (asking_request ''http://h:80/api/'') 2 0)) = [''http://h:80/api/v1/a%20b?q=x%26y'']"
  by code_simp


section \<open>The size of an answer\<close>

text \<open>A body that is read fits into the cap; one that does not is refused at the chunk that passes it.\<close>

lemma readCapped_fits:
  "readCapped cap name broken total' chunks = Inr text' \<Longrightarrow> text' = concat chunks \<and>
    (chunks \<noteq> [] \<longrightarrow> num_less_eq (num_of_int (int (total' + length text'))) cap)"
proof (induction chunks arbitrary: total' text')
  case (Cons c cs)
  then obtain rest where r: "readCapped cap name broken (total' + length c) cs = Inr rest" "text' = c @ rest"
    "num_less_eq (num_of_int (int (total' + length c))) cap" by (auto split: if_splits sum.splits)
  show ?case using Cons.IH [OF r(1)] r(2,3) by (cases cs) (auto simp: add.assoc)
qed (auto split: option.splits)

lemma answer_fits:
  assumes "answer_from wr answer = Inr a" and "fa_chunks answer = Some chunks" and "chunks \<noteq> []"
  shows "num_less_eq (num_of_int (int (length (concat chunks)))) (wr_maxBodyBytes wr) \<and>
    sa_body a = parseBody (decode_text (concat chunks)) (fa_contentType answer)"
proof -
  from assms(1,2) obtain bytes where b: "readCapped (wr_maxBodyBytes wr) (wr_egressName wr) (fa_broken answer) 0 chunks = Inr bytes"
    "sa_body a = parseBody (decode_text bytes) (fa_contentType answer)" by (auto simp: answer_from_def split: sum.splits)
  show ?thesis using readCapped_fits [OF b(1)] b(2) assms(3) by (auto simp del: length_concat)
qed

section \<open>Compiled Sources\<close>

text \<open>The store holds under a key what compiling a Source of that key gives.\<close>

definition sound_store :: "toolchain \<Rightarrow> (string \<rightharpoonup> compiled_module) \<Rightarrow> bool" where
  "sound_store tc compiled \<longleftrightarrow> (\<forall>key m. compiled key = Some m \<longrightarrow>
     (\<exists>source language. key = cache_key tc source language \<and> compile_code tc source language = Inr m))"

lemma language_name_inj: "language_name l @ '':'' @ h = language_name l' @ '':'' @ h' \<Longrightarrow> l = l' \<and> h = h'"
  by (cases l; cases l') simp_all

lemma compile_as_fresh:
  assumes "inj (tc_sha256 tc)" and "sound_store tc compiled" and "compile tc source language compiled = (r, compiled')"
  shows "r = compile_code tc source language \<and> sound_store tc compiled'"
proof (cases "compiled (cache_key tc source language)")
  case None
  show ?thesis
  proof (cases "compile_code tc source language")
    case (Inl e)
    then show ?thesis using None assms(2,3) by (auto simp: compile_def Let_def)
  next
    case (Inr m)
    then have "sound_store tc (compiled(cache_key tc source language \<mapsto> m))"
      using assms(2) unfolding sound_store_def by (auto simp: fun_upd_apply split: if_splits)
    then show ?thesis using Inr None assms(3) by (auto simp: compile_def Let_def)
  qed
next
  case (Some m)
  then obtain source' language' where k: "cache_key tc source language = cache_key tc source' language'"
    "compile_code tc source' language' = Inr m" using assms(2) unfolding sound_store_def by metis
  have "language = language' \<and> tc_sha256 tc source = tc_sha256 tc source'"
    by (rule language_name_inj) (use k(1) in \<open>simp add: cache_key_def\<close>)
  then have "language = language' \<and> source = source'" using injD [OF assms(1)] by simp
  then show ?thesis using Some k(2) assms(2,3) by (auto simp: compile_def Let_def)
qed

lemma compiled_is_clean:
  assumes "compile_code tc source language = Inr m"
  shows "cm_hash m = tc_sha256 tc source \<and> tc_syntaxError tc (cm_code m) = None \<and>
    (\<forall>(token, pattern) \<in> set BANNED. \<not> pattern (cm_code m))"
proof -
  from assms obtain code where c: "find (\<lambda>(token, pattern). pattern code) BANNED = None" "tc_syntaxError tc code = None"
    "m = \<lparr>cm_hash = tc_sha256 tc source, cm_code = code, cm_language = language\<rparr>"
    by (cases "if language = Typescript then (case tc_stripTypeScriptTypes tc source of Inl e \<Rightarrow> Inl (compile_error (error_message e))
          | Inr code \<Rightarrow> Inr code) else Inr source")
      (auto simp: compile_code_def split: option.splits)
  then show ?thesis by (auto simp: find_None_iff)
qed

lemma banned_examples:
  "at_line (keyword_first ''import'') (''let a;'' @ nl @ ''  import x'')" "\<not> at_line (keyword_first ''import'') ''importance = 1; import''"
  "at_word False (word_then ''require'' ''('') ''a(require (b))''" "\<not> at_word False (word_then ''require'' ''('') ''prerequire(b)''"
  by code_simp+

section \<open>Where the code admits more than it says\<close>

text \<open>
  A segment of two dots is left as it is by \<open>encodeURIComponent\<close> and walks up in the address: the request
  leaves the path of the egress, though not its host.
\<close>

lemma dots_leave_the_egress_path:
  "map_option href (target_url ''http://h/api/v1'' ''../../admin'' []) = Some ''http://h/admin'' \<and> \<not> is_absolute ''../../admin''"
  by code_simp

text \<open>An egress named as what every object inherits counts as configured.\<close>

lemma inherited_egress_counts: "dc_egresses config = [] \<Longrightarrow> hasEgress config ''constructor''"
  by (simp add: hasEgress_def egress_at_def inherited_text_def)

end
