(* ===== verification/Gmail.thy ===== *)
theory Gmail
  imports Config
begin

text \<open>
  The Gmail Connector (\<open>runtime/src/connectors/gmail.ts\<close>): the letterbox of the mail ingest over Gmail's REST
  API. The HTTP client, the digest and the clock are parameters. The state is what the connector keeps, its
  access token, and what a session keeps, the ids of the labels and of the messages by their number; it also
  records the requests sent, in order. A request that never ends is not modelled; logging is left out.
\<close>

section \<open>base64url\<close>

text \<open>\<open>Buffer.from(text, "base64url")\<close>: both alphabets, up to the first \<open>=\<close>, leaving out what is in neither.\<close>

definition sextet :: "char \<Rightarrow> nat option" where
  "sextet c = (let n = of_char c :: nat in
     if 65 \<le> n \<and> n \<le> 90 then Some (n - 65) else if 97 \<le> n \<and> n \<le> 122 then Some (n - 71)
     else if 48 \<le> n \<and> n \<le> 57 then Some (n + 4)
     else if c = CHR ''+'' \<or> c = CHR ''-'' then Some 62 else if c = CHR ''/'' \<or> c = CHR ''_'' then Some 63 else None)"

fun octets :: "nat list \<Rightarrow> string" where
  "octets (a # b # c # d # rest) =
     char_of (4 * a + b div 16) # char_of (16 * (b mod 16) + c div 4) # char_of (64 * (c mod 4) + d) # octets rest"
| "octets [a, b, c] = [char_of (4 * a + b div 16), char_of (16 * (b mod 16) + c div 4)]"
| "octets [a, b] = [char_of (4 * a + b div 16)]"
| "octets _ = []"

definition base64url :: "string \<Rightarrow> string" where
  "base64url s = octets (List.map_filter sextet (takeWhile (\<lambda>c. c \<noteq> CHR ''='') s))"

lemma base64url_examples: "base64url ''aGVsbG8'' = ''hello''" "base64url ''aGk='' = ''hi''"
  by code_simp+

section \<open>GmailHttp\<close>

record gmail_request =
  gq_method :: string
  gq_url :: string
  gq_token :: "string option"
  gq_body :: "string option"

record gmail_response =
  gr_status :: int
  gr_text :: string

record 'w gmail_deps =
  gd_options :: gmail_credentials
  gd_fetch :: "gmail_request \<Rightarrow> ('w, gmail_response) io"
  gd_now :: "'w \<Rightarrow> int"
  gd_sha256 :: "string \<Rightarrow> string"
  gd_disorder :: "message_metadata list \<Rightarrow> message_metadata list"

record 'w gmail =
  gm_token :: "(string \<times> js_num) option"
  gm_labelIds :: "(string \<times> json) list"
  gm_labelsListed :: bool
  gm_gmailIds :: "(int \<times> json) list"
  gm_sent :: "gmail_request list"
  gm_world :: 'w

definition GMAIL_API :: string where
  "GMAIL_API = ''https://gmail.googleapis.com/gmail/v1''"

definition TOKEN_URL :: string where
  "TOKEN_URL = ''https://oauth2.googleapis.com/token''"

definition TOKEN_SKEW_MS :: int where
  "TOKEN_SKEW_MS = 60000"

definition do_fetch :: "'w gmail_deps \<Rightarrow> gmail_request \<Rightarrow> ('w gmail, gmail_response) io" where
  "do_fetch deps q = (\<lambda>s. case gd_fetch deps q (gm_world s) of (r, w) \<Rightarrow> (r, s\<lparr>gm_world := w, gm_sent := gm_sent s @ [q]\<rparr>))"

definition clock_of :: "'w gmail_deps \<Rightarrow> ('w gmail, int) io" where
  "clock_of deps = getE (\<lambda>s. gd_now deps (gm_world s))"

definition response_ok :: "gmail_response \<Rightarrow> bool" where
  "response_ok r \<longleftrightarrow> 200 \<le> gr_status r \<and> gr_status r \<le> 299"

definition response_json :: "gmail_response \<Rightarrow> json result" where
  "response_json r = (case json_parse (gr_text r) of Some v \<Rightarrow> Inr v | None \<Rightarrow> Inl (JsError ''SyntaxError'' ''Unexpected token in JSON''))"

definition userPath :: "'w gmail_deps \<Rightarrow> string" where
  "userPath deps = (let user = trim (gc_user (gd_options deps)) in
     GMAIL_API @ ''/users/'' @ encodeURIComponent (if user = [] then ''me'' else user))"

definition token_request :: "'w gmail_deps \<Rightarrow> gmail_request" where
  "token_request deps = \<lparr>gq_method = ''POST'', gq_url = TOKEN_URL, gq_token = None,
     gq_body = Some (query_string [(''client_id'', gc_clientId (gd_options deps)), (''client_secret'', gc_clientSecret (gd_options deps)),
       (''refresh_token'', gc_refreshToken (gd_options deps)), (''grant_type'', ''refresh_token'')])\<rparr>"

definition fresh_token :: "(string \<times> js_num) option \<Rightarrow> int \<Rightarrow> string option" where
  "fresh_token token now' = (case token of
     Some (v, expiresAt) \<Rightarrow> if num_less_eq expiresAt (num_of_int (now' + TOKEN_SKEW_MS)) \<or> expiresAt = NaN then None else Some v
   | None \<Rightarrow> None)"

fun num_scale :: "int \<Rightarrow> js_num \<Rightarrow> js_num" where
  "num_scale k (Fin m e) = mk_num (k * m) e"
| "num_scale k n = n"

definition minted :: "gmail_response \<Rightarrow> int \<Rightarrow> (string \<times> js_num) result" where
  "minted response now' =
     (if \<not> response_ok response
      then Inl (JsError ''Error'' (''Gmail refused the refresh token: HTTP '' @ string_of_int (gr_status response) @ '' '' @ take 200 (gr_text response)))
      else bindR (response_json response) (\<lambda>payload. bindR (row_prop payload ''access_token'') (\<lambda>token.
        if \<not> json_truthy token then Inl (JsError ''Error'' ''Gmail accepted the refresh token but returned no access_token'')
        else (let lifetime = pget (obj_props payload) ''expires_in'' in
          Inr (js_string token, num_add (num_of_int now') (num_scale 1000 (if nullish lifetime then num_of_int 3600 else js_number lifetime)))))))"

definition accessToken :: "'w gmail_deps \<Rightarrow> ('w gmail, string) io" where
  "accessToken deps =
     bindE (clock_of deps) (\<lambda>now'. bindE (getE gm_token) (\<lambda>cached. case fresh_token cached now' of
       Some v \<Rightarrow> returnE v
     | None \<Rightarrow>
         bindE (do_fetch deps (token_request deps)) (\<lambda>response.
         bindE (clock_of deps) (\<lambda>later.
         bindE (liftR (minted response later)) (\<lambda>token.
         bindE (modifyE (\<lambda>s. s\<lparr>gm_token := Some token\<rparr>)) (\<lambda>_. returnE (fst token)))))))"

definition gmail_send :: "'w gmail_deps \<Rightarrow> string \<Rightarrow> string \<Rightarrow> json \<Rightarrow> string \<Rightarrow> ('w gmail, gmail_response) io" where
  "gmail_send deps method url body token =
     do_fetch deps \<lparr>gq_method = method, gq_url = url, gq_token = Some token, gq_body = (if body = JUndef then None else Some (stringify body))\<rparr>"

text \<open>Once more with a new token after a 401.\<close>

definition retried :: "'w gmail_deps \<Rightarrow> string \<Rightarrow> string \<Rightarrow> json \<Rightarrow> gmail_response \<Rightarrow> ('w gmail, gmail_response) io" where
  "retried deps method url body first =
     (if gr_status first = 401
      then bindE (modifyE (\<lambda>s. s\<lparr>gm_token := None\<rparr>)) (\<lambda>_. bindE (accessToken deps) (gmail_send deps method url body))
      else returnE first)"

definition answer_json :: "string \<Rightarrow> string \<Rightarrow> gmail_response \<Rightarrow> json result" where
  "answer_json method route response =
     (if \<not> response_ok response
      then Inl (JsError ''Error'' (''Gmail '' @ method @ '' '' @ route @ '' failed: HTTP '' @ string_of_int (gr_status response) @ '' ''
        @ take 300 (gr_text response)))
      else response_json response)"

definition gmail_json :: "'w gmail_deps \<Rightarrow> string \<Rightarrow> string \<Rightarrow> json \<Rightarrow> ('w gmail, json) io" where
  "gmail_json deps method route body =
     (let url = userPath deps @ route in
      bindE (accessToken deps) (\<lambda>token.
      bindE (gmail_send deps method url body token) (\<lambda>first.
      bindE (retried deps method url body first) (\<lambda>response. liftR (answer_json method route response)))))"

section \<open>GmailSession\<close>

definition ORIGIN_HOST :: string where
  "ORIGIN_HOST = ''gmail''"

text \<open>The label is an \<open>{ id, name }\<close> of which both are there.\<close>

definition named_label :: "json \<Rightarrow> (string \<times> json) option result" where
  "named_label label = bindR (row_prop label ''id'') (\<lambda>i. let name = pget (obj_props label) ''name'' in
     Inr (if json_truthy i \<and> json_truthy name then Some (js_string name, i) else None))"

definition listed_labels :: "json \<Rightarrow> (string \<times> json) option list result" where
  "listed_labels listed = bindR (row_prop listed ''labels'') (\<lambda>labels. bindR (array_items ''labels'' labels) (mapR named_label))"

fun add_labels :: "(string \<times> json) option list \<Rightarrow> (string \<times> json) list \<Rightarrow> (string \<times> json) list" where
  "add_labels [] known = known"
| "add_labels (None # ls) known = add_labels ls known"
| "add_labels (Some (name, i) # ls) known = add_labels ls (AList.update name i known)"

definition list_labels :: "'w gmail_deps \<Rightarrow> ('w gmail, unit) io" where
  "list_labels deps = bindE (getE gm_labelsListed) (\<lambda>listed.
     if listed then returnE ()
     else bindE (gmail_json deps ''GET'' ''/labels'' JUndef) (\<lambda>answer.
          bindE (liftR (listed_labels answer)) (\<lambda>labels.
          modifyE (\<lambda>s. s\<lparr>gm_labelIds := add_labels labels (gm_labelIds s), gm_labelsListed := True\<rparr>))))"

definition labelId :: "'w gmail_deps \<Rightarrow> string \<Rightarrow> bool \<Rightarrow> ('w gmail, json option) io" where
  "labelId deps name create =
     bindE (list_labels deps) (\<lambda>_. bindE (getE (\<lambda>s. map_of (gm_labelIds s) name)) (\<lambda>known.
       if known \<noteq> None \<or> \<not> create then returnE known
       else bindE (gmail_json deps ''POST'' ''/labels'' (JObj [(''name'', JStr name), (''labelListVisibility'', JStr ''labelShow''),
                (''messageListVisibility'', JStr ''show'')])) (\<lambda>answer.
            bindE (liftR (row_prop answer ''id'')) (\<lambda>i.
              if \<not> json_truthy i then throwE (JsError ''Error'' (''Gmail created the label '' @ quoted name @ '' but returned no id''))
              else bindE (modifyE (\<lambda>s. s\<lparr>gm_labelIds := AList.update name i (gm_labelIds s)\<rparr>)) (\<lambda>_. returnE (Some i))))))"

definition ensure_labels :: "'w gmail_deps \<Rightarrow> string list \<Rightarrow> ('w gmail, unit) io" where
  "ensure_labels deps folders = foldE (\<lambda>folder _. bindE (labelId deps folder True) (\<lambda>_. returnE ())) folders ()"

subsection \<open>The walk over the pages\<close>

definition page_route :: "json \<Rightarrow> nat \<Rightarrow> json \<Rightarrow> string" where
  "page_route label limit pageToken = ''/messages?'' @ query_string ([(''labelIds'', js_string label), (''maxResults'', string_of_nat limit)]
     @ (if json_truthy pageToken then [(''pageToken'', js_string pageToken)] else []))"

definition message_ids :: "json list \<Rightarrow> json list result" where
  "message_ids messages = bindR (mapR (\<lambda>m. row_prop m ''id'') messages) (\<lambda>ids. Inr (filter json_truthy ids))"

text \<open>What a page holds: its ids, the token of the next, and whether it listed no message at all.\<close>

definition page_of :: "json \<Rightarrow> (json list \<times> json \<times> bool) result" where
  "page_of page = bindR (row_prop page ''messages'') (\<lambda>m. bindR (array_items ''page.messages'' m) (\<lambda>messages.
     bindR (message_ids messages) (\<lambda>ids. Inr (ids, pget (obj_props page) ''nextPageToken'', messages = []))))"

definition list_page :: "'w gmail_deps \<Rightarrow> json \<Rightarrow> nat \<Rightarrow> json \<Rightarrow> ('w gmail, json list \<times> json \<times> bool) io" where
  "list_page deps label limit pageToken =
     bindE (gmail_json deps ''GET'' (page_route label limit pageToken) JUndef) (\<lambda>page. liftR (page_of page))"

text \<open>The walk may never end; then it has no value.\<close>

partial_function (option) listMessageIds :: "'w gmail_deps \<Rightarrow> json \<Rightarrow> nat \<Rightarrow> json list \<Rightarrow> json \<Rightarrow> 'w gmail
    \<Rightarrow> (json list result \<times> 'w gmail) option" where
  "listMessageIds deps label limit ids pageToken s =
     (if length ids < limit then
        (case list_page deps label (limit - length ids) pageToken s of
           (Inl e, s') \<Rightarrow> Some (Inl e, s')
         | (Inr (found, nextToken, none), s') \<Rightarrow>
             if \<not> json_truthy nextToken \<or> none then Some (Inr (take limit (ids @ found)), s')
             else listMessageIds deps label limit (ids @ found) nextToken s')
      else Some (Inr (take limit ids), s))"

declare listMessageIds.simps [code]

text \<open>A walk that never ends is written as an exception no code throws.\<close>

definition message_walk :: "'w gmail_deps \<Rightarrow> json \<Rightarrow> nat \<Rightarrow> ('w gmail, json list) io" where
  "message_walk deps label limit = (\<lambda>s. case listMessageIds deps label limit [] JUndef s of
     Some r \<Rightarrow> r | None \<Rightarrow> (Inl (Thrown ''the walk never ends''), s))"

subsection \<open>A batch\<close>

definition numericUid :: "(string \<Rightarrow> string) \<Rightarrow> string \<Rightarrow> int" where
  "numericUid sha256 gmailId = int (coalesce (digits_in 16 0 (take 12 (sha256 gmailId))) 0)"

definition originGeneration :: "string \<Rightarrow> string" where
  "originGeneration gmailId = gmailId"

fun find_header :: "string \<Rightarrow> json list \<Rightarrow> json result" where
  "find_header name [] = Inr JUndef"
| "find_header name (entry # rest) = bindR (row_prop entry ''name'') (\<lambda>n.
     if toLowerCase (text_of [] n) = toLowerCase name then Inr entry else find_header name rest)"

definition headerAddress :: "json \<Rightarrow> string \<Rightarrow> string result" where
  "headerAddress headers name = bindR (array_items ''headers'' headers) (\<lambda>items. bindR (find_header name items) (\<lambda>header.
     let v = text_of [] (pget (obj_props header) ''value'') in Inr (envelopeAddress (Some [Some (coalesce (angled v) v)]))))"

definition date_of_number :: "js_num \<Rightarrow> js_date" where
  "date_of_number n = (case n of
     Fin m e \<Rightarrow> let i = (if 0 \<le> e then m * 10 ^ nat e else sgn m * (\<bar>m\<bar> div 10 ^ nat (- e))) in
       if \<bar>i\<bar> \<le> 8640000000000000 then Instant i else InvalidDate
   | _ \<Rightarrow> InvalidDate)"

definition metadata_route :: "json \<Rightarrow> string" where
  "metadata_route i = ''/messages/'' @ encodeURIComponent (js_string i) @ ''?format=metadata&metadataHeaders=From''"

definition raw_route :: "json \<Rightarrow> string" where
  "raw_route i = ''/messages/'' @ encodeURIComponent (js_string i) @ ''?format=raw''"

definition candidate_of :: "'w gmail_deps \<Rightarrow> int \<Rightarrow> json \<Rightarrow> json \<Rightarrow> message_metadata result" where
  "candidate_of deps now' i metadata = bindR (row_prop metadata ''sizeEstimate'') (\<lambda>size'.
     let payload = pget (obj_props metadata) ''payload''; internalDate = pget (obj_props metadata) ''internalDate'' in
     bindR (headerAddress (pget (obj_props payload) ''headers'') ''From'') (\<lambda>from'.
       Inr \<lparr>mm_uid = numericUid (gd_sha256 deps) (js_string i), mm_size = (if nullish size' then 0 else whole (js_number size')),
         mm_envelopeFrom = from',
         mm_internalDate = (if nullish internalDate then Instant now' else date_of_number (js_number internalDate))\<rparr>))"

definition candidate :: "'w gmail_deps \<Rightarrow> json \<Rightarrow> ('w gmail, message_metadata) io" where
  "candidate deps i =
     bindE (gmail_json deps ''GET'' (metadata_route i) JUndef) (\<lambda>metadata.
     bindE (modifyE (\<lambda>s. s\<lparr>gm_gmailIds := AList.update (numericUid (gd_sha256 deps) (js_string i)) i (gm_gmailIds s)\<rparr>)) (\<lambda>_.
     bindE (clock_of deps) (\<lambda>now'. liftR (candidate_of deps now' i metadata))))"

text \<open>The order is the engine's own where a date is not valid, for then the comparison is not a number.\<close>

fun instant_of :: "js_date \<Rightarrow> int" where
  "instant_of (Instant i) = i"
| "instant_of InvalidDate = 0"

definition oldest_first :: "'w gmail_deps \<Rightarrow> message_metadata list \<Rightarrow> message_metadata list" where
  "oldest_first deps candidates = (if list_ex (\<lambda>c. mm_internalDate c = InvalidDate) candidates then gd_disorder deps candidates
     else sort_key (\<lambda>c. instant_of (mm_internalDate c)) candidates)"

definition message_of :: "string \<Rightarrow> message_metadata \<Rightarrow> json \<Rightarrow> json \<Rightarrow> fetched_message option" where
  "message_of folder c i raw = (if raw = JUndef then None
     else Some \<lparr>fm_uid = mm_uid c, fm_raw = base64url (js_string raw), fm_internalDate = mm_internalDate c,
       fm_envelopeFrom = mm_envelopeFrom c,
       fm_origin = Some \<lparr>mo_host = ORIGIN_HOST, mo_folder = folder, mo_uidValidity = originGeneration (js_string i)\<rparr>\<rparr>)"

definition gmail_download :: "'w gmail_deps \<Rightarrow> string \<Rightarrow> message_metadata \<Rightarrow> fetched_message list \<Rightarrow> ('w gmail, fetched_message list) io" where
  "gmail_download deps folder c got =
     bindE (getE (\<lambda>s. coalesce (map_of (gm_gmailIds s) (mm_uid c)) (JStr []))) (\<lambda>i.
     bindE (gmail_json deps ''GET'' (raw_route i) JUndef) (\<lambda>answer.
     bindE (liftR (row_prop answer ''raw'')) (\<lambda>raw.
       if raw = JNull then throwE (JsError ''TypeError'' ''The first argument must be a string'') else returnE (got @ (case message_of folder c i raw of None \<Rightarrow> [] | Some m \<Rightarrow> [m])))))"

definition fetch_labelled :: "'w gmail_deps \<Rightarrow> string \<Rightarrow> nat \<Rightarrow> nat \<Rightarrow> nat \<Rightarrow> json \<Rightarrow> ('w gmail, fetch_result) io" where
  "fetch_labelled deps folder limit most_bytes all_bytes label =
     bindE (message_walk deps label limit) (\<lambda>ids.
     bindE (mapE (candidate deps) ids) (\<lambda>candidates.
       let plan = planFetch (oldest_first deps candidates) most_bytes all_bytes in
       bindE (foldE (gmail_download deps folder) (fp_wanted plan) []) (\<lambda>messages.
         returnE \<lparr>fr_messages = messages, fr_oversized = fp_oversized plan, fr_budgetExhausted = fp_budgetExhausted plan\<rparr>)))"

definition gmail_fetchBatch :: "'w gmail_deps \<Rightarrow> string \<Rightarrow> nat \<Rightarrow> fetch_limits \<Rightarrow> ('w gmail, fetch_result) io" where
  "gmail_fetchBatch deps folder limit limits =
     (let most_bytes = coalesce (maxMessageBytes limits) DEFAULT_MAX_MESSAGE_BYTES;
          all_bytes = coalesce (maxTotalBytes limits) DEFAULT_MAX_TOTAL_BYTES in
      bindE (labelId deps folder False) (\<lambda>label. case label of
        None \<Rightarrow> returnE \<lparr>fr_messages = [], fr_oversized = [], fr_budgetExhausted = False\<rparr>
      | Some l \<Rightarrow> fetch_labelled deps folder limit most_bytes all_bytes l))"

definition move_body :: "json option \<Rightarrow> json option \<Rightarrow> json" where
  "move_body to from' = JObj [(''addLabelIds'', JArr [coalesce to JUndef]), (''removeLabelIds'', JArr [coalesce from' JUndef])]"

definition modify_route :: "json \<Rightarrow> string" where
  "modify_route i = ''/messages/'' @ encodeURIComponent (js_string i) @ ''/modify''"

definition gmail_move :: "'w gmail_deps \<Rightarrow> int \<Rightarrow> string \<Rightarrow> string \<Rightarrow> ('w gmail, unit) io" where
  "gmail_move deps uid fromFolder toFolder =
     bindE (getE (\<lambda>s. map_of (gm_gmailIds s) uid)) (\<lambda>known. case known of
       None \<Rightarrow> throwE (JsError ''Error'' (''no Gmail message is known for uid '' @ string_of_int uid @ '' in this session''))
     | Some i \<Rightarrow>
         bindE (labelId deps fromFolder True) (\<lambda>from'.
         bindE (labelId deps toFolder True) (\<lambda>to.
         bindE (gmail_json deps ''POST'' (modify_route i) (move_body to from')) (\<lambda>_. returnE ()))))"

section \<open>GmailConnector\<close>

text \<open>A session starts without labels and messages; the token stays with the connector.\<close>

definition gmail_session :: "'w gmail_deps \<Rightarrow> 'w gmail mail_session" where
  "gmail_session deps = \<lparr>ms_fetchBatch = gmail_fetchBatch deps, ms_move = gmail_move deps, ms_ensureFolders = ensure_labels deps\<rparr>"

definition gmail_mailbox :: "'w gmail_deps \<Rightarrow> 'w gmail mailbox" where
  "gmail_mailbox deps = \<lparr>
     mb_open = bindE (modifyE (\<lambda>s. s\<lparr>gm_labelIds := [], gm_labelsListed := False, gm_gmailIds := []\<rparr>)) (\<lambda>_. returnE (gmail_session deps)),
     mb_close = returnE ()\<rparr>"

end
