(* ===== verification/GmailProperties.thy ===== *)
theory GmailProperties
  imports Gmail
begin

text \<open>
  What the Gmail mailbox promises the ingest (\<open>runtime/src/connectors/gmail.ts\<close>): a poll ends within a number of
  requests, and a message is moved by the id it was fetched under.
\<close>

section \<open>What a request changes\<close>

definition same_session :: "'w gmail \<Rightarrow> 'w gmail \<Rightarrow> bool" where
  "same_session s s' \<longleftrightarrow> gm_labelIds s' = gm_labelIds s \<and> gm_labelsListed s' = gm_labelsListed s \<and> gm_gmailIds s' = gm_gmailIds s"

text \<open>At most \<open>n\<close> requests were sent.\<close>

definition within :: "nat \<Rightarrow> 'w gmail \<Rightarrow> 'w gmail \<Rightarrow> bool" where
  "within n s s' \<longleftrightarrow> length (gm_sent s') \<le> length (gm_sent s) + n"

lemma same_session_refl [simp]: "same_session s s"
  by (simp add: same_session_def)

lemma same_session_trans: "same_session s s' \<Longrightarrow> same_session s' s'' \<Longrightarrow> same_session s s''"
  by (simp add: same_session_def)

lemma within_refl [simp]: "within n s s"
  by (simp add: within_def)

lemma within_trans: "within m s s' \<Longrightarrow> within n s' s'' \<Longrightarrow> within (m + n) s s''"
  by (simp add: within_def)

lemma within_mono: "within m s s' \<Longrightarrow> m \<le> n \<Longrightarrow> within n s s'"
  by (simp add: within_def)

lemma bindE_run: "bindE m k s = (r, s') \<longleftrightarrow>
    (\<exists>e. m s = (Inl e, s') \<and> r = Inl e) \<or> (\<exists>x s1. m s = (Inr x, s1) \<and> k x s1 = (r, s'))"
  by (auto simp: bindE_def split: prod.splits sum.splits)

definition answered_by :: "'w gmail_deps \<Rightarrow> gmail_request \<Rightarrow> gmail_response \<Rightarrow> 'w gmail \<Rightarrow> bool" where
  "answered_by deps q response s \<longleftrightarrow> (\<exists>sent w w'. gm_sent s = sent @ [q] \<and> gd_fetch deps q w = (Inr response, w'))"

lemma do_fetch_run:
  "do_fetch deps q s = (r, s') \<Longrightarrow> same_session s s' \<and> within 1 s s' \<and> (\<forall>response. r = Inr response \<longrightarrow> answered_by deps q response s')"
  by (auto simp: do_fetch_def same_session_def within_def answered_by_def split: prod.splits)

lemma accessToken_run: "accessToken deps s = (r, s') \<Longrightarrow> same_session s s' \<and> within 1 s s'"
proof -
  assume run: "accessToken deps s = (r, s')"
  show "same_session s s' \<and> within 1 s s'"
  proof (cases "fresh_token (gm_token s) (gd_now deps (gm_world s))")
    case (Some v)
    with run show ?thesis by (simp add: accessToken_def clock_of_def io_defs)
  next
    case None
    with run have "(bindE (do_fetch deps (token_request deps)) (\<lambda>response. bindE (clock_of deps) (\<lambda>later.
       bindE (liftR (minted response later)) (\<lambda>token. bindE (modifyE (\<lambda>s. s\<lparr>gm_token := Some token\<rparr>)) (\<lambda>_. returnE (fst token)))))) s = (r, s')"
      by (simp add: accessToken_def clock_of_def io_defs)
    then show ?thesis
      unfolding bindE_run by (auto simp: clock_of_def io_defs liftR_def same_session_def within_def dest!: do_fetch_run)
  qed
qed

lemma gmail_send_run: "gmail_send deps method url body token s = (r, s') \<Longrightarrow> same_session s s' \<and> within 1 s s' \<and>
    (\<forall>response. r = Inr response \<longrightarrow> answered_by deps \<lparr>gq_method = method, gq_url = url, gq_token = Some token,
       gq_body = (if body = JUndef then None else Some (stringify body))\<rparr> response s')"
  unfolding gmail_send_def by (rule do_fetch_run)

text \<open>The request of a call with the token it was sent with.\<close>

definition authorised :: "'w gmail_deps \<Rightarrow> string \<Rightarrow> string \<Rightarrow> json \<Rightarrow> gmail_request \<Rightarrow> bool" where
  "authorised deps method route body q \<longleftrightarrow> gq_method q = method \<and> gq_url q = userPath deps @ route \<and> gq_token q \<noteq> None \<and>
     gq_body q = (if body = JUndef then None else Some (stringify body))"

lemma send_authorised:
  assumes "gmail_send deps method (userPath deps @ route) body token s = (r, s')"
  shows "same_session s s' \<and> within 1 s s' \<and>
    (\<forall>response. r = Inr response \<longrightarrow> (\<exists>q. authorised deps method route body q \<and> answered_by deps q response s'))"
proof -
  have "authorised deps method route body \<lparr>gq_method = method, gq_url = userPath deps @ route, gq_token = Some token,
       gq_body = (if body = JUndef then None else Some (stringify body))\<rparr>" by (simp add: authorised_def)
  with gmail_send_run [OF assms] show ?thesis by blast
qed

lemma retried_run:
  assumes "retried deps method (userPath deps @ route) body first s = (r, s')"
    and "\<exists>q. authorised deps method route body q \<and> answered_by deps q first s"
  shows "same_session s s' \<and> within 2 s s' \<and>
    (\<forall>response. r = Inr response \<longrightarrow> (\<exists>q. authorised deps method route body q \<and> answered_by deps q response s'))"
proof (cases "gr_status first = 401")
  case False
  with assms show ?thesis by (auto simp: retried_def returnE_def)
next
  case True
  let ?s0 = "s\<lparr>gm_token := None\<rparr>"
  from True assms(1) have "bindE (accessToken deps) (gmail_send deps method (userPath deps @ route) body) ?s0 = (r, s')"
    by (simp add: retried_def bindE_def modifyE_def)
  then consider e where "accessToken deps ?s0 = (Inl e, s')" "r = Inl e"
    | token s1 where "accessToken deps ?s0 = (Inr token, s1)" "gmail_send deps method (userPath deps @ route) body token s1 = (r, s')"
    unfolding bindE_run by blast
  then show ?thesis
  proof cases
    case 1
    then show ?thesis using accessToken_run [OF 1(1)] by (simp add: same_session_def within_def)
  next
    case 2
    then show ?thesis using accessToken_run [OF 2(1)] send_authorised [OF 2(2)] by (simp add: same_session_def within_def)
  qed
qed

lemma gmail_json_run:
  assumes "gmail_json deps method route body s = (r, s')"
  shows "same_session s s' \<and> within 4 s s' \<and> (\<forall>v. r = Inr v \<longrightarrow>
    (\<exists>q response. authorised deps method route body q \<and> answered_by deps q response s' \<and> response_json response = Inr v))"
proof -
  let ?url = "userPath deps @ route"
  from assms consider e where "accessToken deps s = (Inl e, s')" "r = Inl e"
    | token s1 e where "accessToken deps s = (Inr token, s1)" "gmail_send deps method ?url body token s1 = (Inl e, s')" "r = Inl e"
    | token s1 first s2 e where "accessToken deps s = (Inr token, s1)" "gmail_send deps method ?url body token s1 = (Inr first, s2)"
      "retried deps method ?url body first s2 = (Inl e, s')" "r = Inl e"
    | token s1 first s2 response where "accessToken deps s = (Inr token, s1)" "gmail_send deps method ?url body token s1 = (Inr first, s2)"
      "retried deps method ?url body first s2 = (Inr response, s')" "r = answer_json method route response"
    unfolding gmail_json_def Let_def bindE_run liftR_def prod.inject by blast
  then show ?thesis
  proof cases
    case 1
    then show ?thesis using accessToken_run [OF 1(1)] by (simp add: within_def)
  next
    case 2
    then show ?thesis using accessToken_run [OF 2(1)] send_authorised [OF 2(2)] by (simp add: within_def same_session_def)
  next
    case 3
    note b = send_authorised [OF 3(2)]
    then have "\<exists>q. authorised deps method route body q \<and> answered_by deps q first s2" by simp
    from accessToken_run [OF 3(1)] b retried_run [OF 3(3) this] 3(4) show ?thesis by (simp add: within_def same_session_def)
  next
    case 4
    note b = send_authorised [OF 4(2)]
    then have "\<exists>q. authorised deps method route body q \<and> answered_by deps q first s2" by simp
    note c = retried_run [OF 4(3) this]
    then obtain q where q: "authorised deps method route body q" "answered_by deps q response s'" by blast
    have "same_session s s' \<and> within 4 s s'" using accessToken_run [OF 4(1)] b c by (simp add: within_def same_session_def)
    moreover have "r = Inr v \<Longrightarrow> response_json response = Inr v" for v using 4(4) by (simp add: answer_json_def split: if_splits)
    ultimately show ?thesis using q by blast
  qed
qed

section \<open>A poll ends\<close>

text \<open>
  Gmail's promise: a message it lists has an id; and the order an engine leaves keeps the messages.
\<close>

definition names_messages :: "'w gmail_deps \<Rightarrow> bool" where
  "names_messages deps \<longleftrightarrow> (\<forall>q w response w' page ids token nomore. gd_fetch deps q w = (Inr response, w') \<and>
     response_json response = Inr page \<and> page_of page = Inr (ids, token, nomore) \<and> ids = [] \<longrightarrow> nomore)"

lemma list_page_run:
  assumes "list_page deps label limit token s = (r, s')"
  shows "same_session s s' \<and> within 4 s s' \<and> (names_messages deps \<longrightarrow> (\<forall>found following nomore. r = Inr (found, following, nomore) \<and> found = [] \<longrightarrow> nomore))"
proof -
  from assms consider e where "gmail_json deps ''GET'' (page_route label limit token) JUndef s = (Inl e, s')" "r = Inl e"
    | page where "gmail_json deps ''GET'' (page_route label limit token) JUndef s = (Inr page, s')" "r = page_of page"
    unfolding list_page_def bindE_run liftR_def prod.inject by blast
  then show ?thesis
  proof cases
    case 1
    then show ?thesis using gmail_json_run [OF 1(1)] by simp
  next
    case 2
    from gmail_json_run [OF 2(1)] obtain q response where "answered_by deps q response s'" "response_json response = Inr page" by blast
    moreover obtain w w' where "gd_fetch deps q w = (Inr response, w')" using calculation(1) by (auto simp: answered_by_def)
    ultimately have "nomore" if "names_messages deps" "r = Inr (found, following, nomore)" "found = []" for found following nomore
      using that 2(2) unfolding names_messages_def by metis
    then have "names_messages deps \<longrightarrow> (\<forall>found following nomore. r = Inr (found, following, nomore) \<and> found = [] \<longrightarrow> nomore)" by fast
    with gmail_json_run [OF 2(1)] show ?thesis by simp
  qed
qed

lemma walk_run:
  assumes "names_messages deps"
  shows "\<exists>r s'. listMessageIds deps label limit ids token s = Some (r, s') \<and> same_session s s' \<and> within (4 * (limit - length ids)) s s' \<and>
    (\<forall>found. r = Inr found \<longrightarrow> length found \<le> limit)"
proof (induction "limit - length ids" arbitrary: ids token s rule: less_induct)
  case less
  show ?case
  proof (cases "length ids < limit")
    case False
    then show ?thesis by (subst listMessageIds.simps) simp
  next
    case True
    obtain r s1 where run: "list_page deps label (limit - length ids) token s = (r, s1)" by (cases "list_page deps label (limit - length ids) token s")
    note p = list_page_run [OF run]
    have w: "within (4 * (limit - length ids)) s s1" using p True by (auto intro: within_mono)
    show ?thesis
    proof (cases r)
      case (Inl e)
      then show ?thesis using True run p w by (subst listMessageIds.simps) simp
    next
      case (Inr page)
      obtain found following nomore where page: "page = (found, following, nomore)" by (cases page)
      show ?thesis
      proof (cases "\<not> json_truthy following \<or> nomore")
        case stop: True
        then show ?thesis using True run Inr page p w by (subst listMessageIds.simps) auto
      next
        case False
        with p assms Inr page have found: "found \<noteq> []" by blast
        then have lt: "limit - length (ids @ found) < limit - length ids" using True by (cases found) auto
        obtain x s2 where rest: "listMessageIds deps label limit (ids @ found) following s1 = Some (x, s2)" "same_session s1 s2"
          "within (4 * (limit - length (ids @ found))) s1 s2" "\<forall>found. x = Inr found \<longrightarrow> length found \<le> limit"
          using less [OF lt, of following s1] by blast
        have "4 + 4 * (limit - length (ids @ found)) \<le> 4 * (limit - length ids)" using lt by simp
        then have "within (4 * (limit - length ids)) s s2" using within_trans [OF _ rest(3)] p within_mono by blast
        moreover have "listMessageIds deps label limit ids token s = Some (x, s2)"
          using True run Inr page False rest(1) by (subst listMessageIds.simps) simp
        ultimately show ?thesis using rest(2,4) p same_session_trans by blast
      qed
    qed
  qed
qed

lemma list_labels_run:
  assumes "list_labels deps s = (r, s')"
  shows "gm_gmailIds s' = gm_gmailIds s \<and> within 4 s s' \<and> (gm_labelsListed s \<longrightarrow> s' = s) \<and> (r = Inr () \<longrightarrow> gm_labelsListed s')"
proof (cases "gm_labelsListed s")
  case True
  with assms show ?thesis by (auto simp: list_labels_def io_defs)
next
  case False
  let ?labelled = "\<lambda>labels s. s\<lparr>gm_labelIds := add_labels labels (gm_labelIds s), gm_labelsListed := True\<rparr>"
  from False assms have "bindE (gmail_json deps ''GET'' ''/labels'' JUndef) (\<lambda>answer. bindE (liftR (listed_labels answer)) (\<lambda>labels.
    modifyE (?labelled labels))) s = (r, s')" by (simp add: list_labels_def bindE_def getE_def)
  then consider e where "gmail_json deps ''GET'' ''/labels'' JUndef s = (Inl e, s')" "r = Inl e"
    | answer e where "gmail_json deps ''GET'' ''/labels'' JUndef s = (Inr answer, s')" "r = Inl e"
    | answer s1 labels where "gmail_json deps ''GET'' ''/labels'' JUndef s = (Inr answer, s1)" "s' = ?labelled labels s1"
    unfolding bindE_run liftR_def modifyE_def prod.inject by blast
  then show ?thesis
  proof cases
    case 1
    then show ?thesis using False gmail_json_run [OF 1(1)] by (simp add: same_session_def)
  next
    case 2
    then show ?thesis using False gmail_json_run [OF 2(1)] by (simp add: same_session_def)
  next
    case 3
    then show ?thesis using False gmail_json_run [OF 3(1)] by (simp add: same_session_def within_def)
  qed
qed

text \<open>A label that is known stays known, and one that was asked for is known.\<close>

definition knows_more :: "'w gmail \<Rightarrow> 'w gmail \<Rightarrow> bool" where
  "knows_more s s' \<longleftrightarrow> gm_gmailIds s' = gm_gmailIds s \<and>
     (gm_labelsListed s \<longrightarrow> gm_labelsListed s' \<and> (\<forall>name i. map_of (gm_labelIds s) name = Some i \<longrightarrow> map_of (gm_labelIds s') name = Some i))"

lemma labelId_run:
  assumes "labelId deps name create s = (r, s')"
  shows "knows_more s s' \<and> within (if create then 8 else 4) s s' \<and>
    (\<forall>label. r = Inr label \<longrightarrow> gm_labelsListed s' \<and> map_of (gm_labelIds s') name = label \<and> (create \<longrightarrow> label \<noteq> None))"
proof -
  from assms consider e where "list_labels deps s = (Inl e, s')" "r = Inl e"
    | s1 where "list_labels deps s = (Inr (), s1)" "(if map_of (gm_labelIds s1) name \<noteq> None \<or> \<not> create then returnE (map_of (gm_labelIds s1) name)
       else bindE (gmail_json deps ''POST'' ''/labels'' (JObj [(''name'', JStr name), (''labelListVisibility'', JStr ''labelShow''),
                (''messageListVisibility'', JStr ''show'')])) (\<lambda>answer.
            bindE (liftR (row_prop answer ''id'')) (\<lambda>i.
              if \<not> json_truthy i then throwE (JsError ''Error'' (''Gmail created the label '' @ quoted name @ '' but returned no id''))
              else bindE (modifyE (\<lambda>s. s\<lparr>gm_labelIds := AList.update name i (gm_labelIds s)\<rparr>)) (\<lambda>_. returnE (Some i))))) s1 = (r, s')"
    unfolding labelId_def bindE_run [of "list_labels deps"] by (auto simp: bindE_def getE_def)
  then show ?thesis
  proof cases
    case 1
    from list_labels_run [OF 1(1)] 1(2) show ?thesis by (auto simp: knows_more_def within_def)
  next
    case 2
    note l = list_labels_run [OF 2(1)]
    show ?thesis
    proof (cases "map_of (gm_labelIds s1) name \<noteq> None \<or> \<not> create")
      case True
      with 2 l show ?thesis by (auto simp: returnE_def knows_more_def within_def)
    next
      case False
      let ?body = "JObj [(''name'', JStr name), (''labelListVisibility'', JStr ''labelShow''), (''messageListVisibility'', JStr ''show'')]"
      from False 2(2) obtain x s2 where j: "gmail_json deps ''POST'' ''/labels'' ?body s1 = (x, s2)"
        and t: "(\<exists>e. r = Inl e) \<and> s' = s2 \<or> (\<exists>i. r = Inr (Some i) \<and> s' = s2\<lparr>gm_labelIds := AList.update name i (gm_labelIds s2)\<rparr>)"
        by (auto simp: bindE_run liftR_def throwE_def returnE_def modifyE_def split: if_splits)
      note g = gmail_json_run [OF j]
      from t show ?thesis
      proof
        assume "(\<exists>e. r = Inl e) \<and> s' = s2"
        with l g False show ?thesis by (auto simp: knows_more_def within_def same_session_def)
      next
        assume "\<exists>i. r = Inr (Some i) \<and> s' = s2\<lparr>gm_labelIds := AList.update name i (gm_labelIds s2)\<rparr>"
        then obtain i where i: "r = Inr (Some i)" "s' = s2\<lparr>gm_labelIds := AList.update name i (gm_labelIds s2)\<rparr>" by blast
        have "within 8 s s'" using l g i(2) by (simp add: within_def)
        moreover have "knows_more s s'" using l g i(2) False by (auto simp: knows_more_def same_session_def update_conv')
        ultimately show ?thesis using l g i False by (simp add: update_conv' same_session_def)
      qed
    qed
  qed
qed

section \<open>What a batch holds\<close>

lemma candidate_run:
  assumes "candidate deps i s = (r, s')"
  shows "within 4 s s' \<and> (gm_gmailIds s' = gm_gmailIds s \<or> gm_gmailIds s' = AList.update (numericUid (gd_sha256 deps) (js_string i)) i (gm_gmailIds s)) \<and>
    (\<forall>c. r = Inr c \<longrightarrow> map_of (gm_gmailIds s') (mm_uid c) \<noteq> None)"
proof -
  let ?keep = "\<lambda>s. s\<lparr>gm_gmailIds := AList.update (numericUid (gd_sha256 deps) (js_string i)) i (gm_gmailIds s)\<rparr>"
  from assms consider e where "gmail_json deps ''GET'' (metadata_route i) JUndef s = (Inl e, s')" "r = Inl e"
    | metadata s1 where "gmail_json deps ''GET'' (metadata_route i) JUndef s = (Inr metadata, s1)" "s' = ?keep s1"
      "r = candidate_of deps (gd_now deps (gm_world s1)) i metadata"
    by (auto simp: candidate_def bindE_run liftR_def modifyE_def clock_of_def getE_def)
  then show ?thesis
  proof cases
    case 1
    then show ?thesis using gmail_json_run [OF 1(1)] by (simp add: same_session_def)
  next
    case 2
    have "r = Inr c \<Longrightarrow> mm_uid c = numericUid (gd_sha256 deps) (js_string i)" for c
      using 2(3) by (auto simp: candidate_of_def bindR_def Let_def split: sum.splits)
    then show ?thesis using 2(2) gmail_json_run [OF 2(1)] by (auto simp: within_def same_session_def update_conv')
  qed
qed

definition registered :: "'w gmail \<Rightarrow> message_metadata list \<Rightarrow> bool" where
  "registered s cs \<longleftrightarrow> (\<forall>c \<in> set cs. map_of (gm_gmailIds s) (mm_uid c) \<noteq> None)"

lemma candidates_run:
  assumes "mapE (candidate deps) ids s = (r, s')"
  shows "within (4 * length ids) s s' \<and> dom (map_of (gm_gmailIds s)) \<subseteq> dom (map_of (gm_gmailIds s')) \<and>
    (\<forall>cs. r = Inr cs \<longrightarrow> length cs = length ids \<and> registered s' cs)"
  using assms
proof (induction ids arbitrary: s r)
  case Nil
  then show ?case by (auto simp: returnE_def registered_def)
next
  case (Cons i ids)
  from Cons.prems consider e where "candidate deps i s = (Inl e, s')" "r = Inl e"
    | c s1 x where "candidate deps i s = (Inr c, s1)" "mapE (candidate deps) ids s1 = (x, s')" "\<forall>cs. r = Inr cs \<longrightarrow> (\<exists>rest. x = Inr rest \<and> cs = c # rest)"
    by (auto simp: bindE_run returnE_def)
  then show ?case
  proof cases
    case 1
    then show ?thesis using candidate_run [OF 1(1)] by (auto simp: within_def update_conv')
  next
    case 2
    note a = candidate_run [OF 2(1)] and b = Cons.IH [OF 2(2)]
    have "dom (map_of (gm_gmailIds s)) \<subseteq> dom (map_of (gm_gmailIds s1))" using a by (auto simp: update_conv')
    with a b have "dom (map_of (gm_gmailIds s)) \<subseteq> dom (map_of (gm_gmailIds s'))" by blast
    moreover have "map_of (gm_gmailIds s') (mm_uid c) \<noteq> None" using a b by (auto simp: dom_def)
    moreover have "within (4 * length (i # ids)) s s'" using a b by (simp add: within_def)
    ultimately show ?thesis using b 2(3) by (auto simp: registered_def split: sum.splits)
  qed
qed

text \<open>A message that was fetched says in its origin which Gmail message its number stands for.\<close>

definition fetched_as :: "'w gmail \<Rightarrow> string \<Rightarrow> fetched_message \<Rightarrow> bool" where
  "fetched_as s folder m \<longleftrightarrow> (\<exists>i. map_of (gm_gmailIds s) (fm_uid m) = Some i \<and>
     fm_origin m = Some \<lparr>mo_host = ORIGIN_HOST, mo_folder = folder, mo_uidValidity = originGeneration (js_string i)\<rparr>)"

lemma download_run:
  assumes "gmail_download deps folder c got s = (r, s')" and "map_of (gm_gmailIds s) (mm_uid c) \<noteq> None"
  shows "same_session s s' \<and> within 4 s s' \<and> (\<forall>got'. r = Inr got' \<longrightarrow> (\<forall>m \<in> set got'. m \<in> set got \<or> fetched_as s folder m))"
proof -
  obtain i where i: "map_of (gm_gmailIds s) (mm_uid c) = Some i" using assms(2) by blast
  from assms(1) i obtain x where j: "gmail_json deps ''GET'' (raw_route i) JUndef s = (x, s')"
    and t: "\<forall>got'. r = Inr got' \<longrightarrow> (\<exists>raw. got' = got @ (case message_of folder c i raw of None \<Rightarrow> [] | Some m \<Rightarrow> [m]))"
    by (auto simp: gmail_download_def bindE_run liftR_def throwE_def returnE_def getE_def split: if_splits)
  have "fetched_as s folder m" if "message_of folder c i raw = Some m" for m raw
    using that i by (auto simp: message_of_def fetched_as_def split: if_splits)
  with t gmail_json_run [OF j] show ?thesis by (auto split: option.splits)
qed

lemma fetched_as_same: "same_session s s' \<Longrightarrow> fetched_as s' folder m = fetched_as s folder m"
  by (simp add: fetched_as_def same_session_def)

lemma downloads_run:
  assumes "foldE (gmail_download deps folder) cs got s = (r, s')" and "registered s cs" and "\<forall>m \<in> set got. fetched_as s folder m"
  shows "same_session s s' \<and> within (4 * length cs) s s' \<and> (\<forall>got'. r = Inr got' \<longrightarrow> (\<forall>m \<in> set got'. fetched_as s' folder m))"
  using assms
proof (induction cs arbitrary: got s)
  case Nil
  then show ?case by (auto simp: returnE_def)
next
  case (Cons c cs)
  have reg: "map_of (gm_gmailIds s) (mm_uid c) \<noteq> None" using Cons.prems(2) by (simp add: registered_def)
  from Cons.prems(1) consider e where "gmail_download deps folder c got s = (Inl e, s')" "r = Inl e"
    | got1 s1 where "gmail_download deps folder c got s = (Inr got1, s1)" "foldE (gmail_download deps folder) cs got1 s1 = (r, s')"
    by (auto simp: bindE_run)
  then show ?case
  proof cases
    case 1
    then show ?thesis using download_run [OF 1(1) reg] by (auto simp: within_def)
  next
    case 2
    note a = download_run [OF 2(1) reg]
    have "registered s1 cs" using Cons.prems(2) a by (simp add: registered_def same_session_def)
    moreover have "\<forall>m \<in> set got1. fetched_as s1 folder m" using a Cons.prems(3) fetched_as_same by blast
    ultimately have "same_session s1 s' \<and> within (4 * length cs) s1 s' \<and> (\<forall>got'. r = Inr got' \<longrightarrow> (\<forall>m \<in> set got'. fetched_as s' folder m))"
      by (rule Cons.IH [OF 2(2)])
    with a show ?thesis by (auto simp: within_def same_session_def)
  qed
qed

lemma planned: "length (fp_wanted (plan_from a b cs budget plan)) \<le> length (fp_wanted plan) + length cs \<and>
    set (fp_wanted (plan_from a b cs budget plan)) \<subseteq> set (fp_wanted plan) \<union> set cs"
proof (induction a b cs budget plan rule: plan_from.induct)
  case (2 maxMessage maxTotal c cs budget plan)
  then show ?case by (auto split: if_splits)
qed simp

lemma planFetch_wanted: "length (fp_wanted (planFetch cs a b)) \<le> length cs \<and> set (fp_wanted (planFetch cs a b)) \<subseteq> set cs"
  using planned [of a b cs 0 "\<lparr>fp_wanted = [], fp_oversized = [], fp_budgetExhausted = False\<rparr>"] by (simp add: planFetch_def)

definition keeps_messages :: "'w gmail_deps \<Rightarrow> bool" where
  "keeps_messages deps \<longleftrightarrow> (\<forall>cs. mset (gd_disorder deps cs) = mset cs)"

lemma oldest_first_mset: "keeps_messages deps \<Longrightarrow> mset (oldest_first deps cs) = mset cs"
  by (simp add: oldest_first_def keeps_messages_def)

lemma labelled_run:
  assumes "fetch_labelled deps folder limit a b l s = (r, s')" and "names_messages deps" and "keeps_messages deps"
  shows "within (12 * limit) s s' \<and> (\<forall>batch. r = Inr batch \<longrightarrow> (\<forall>m \<in> set (fr_messages batch). fetched_as s' folder m))"
proof -
  let ?plan = "\<lambda>cs. planFetch (oldest_first deps cs) a b"
  obtain y s1 where w: "message_walk deps l limit s = (y, s1)" "within (4 * limit) s s1" "\<forall>ids. y = Inr ids \<longrightarrow> length ids \<le> limit"
    using walk_run [OF assms(2), of l limit "[]" JUndef s] by (auto simp: message_walk_def)
  show ?thesis
  proof (cases y)
    case (Inl e)
    with assms(1) w show ?thesis by (auto simp: fetch_labelled_def bindE_run within_def)
  next
    case (Inr ids)
    obtain z s2 where c: "mapE (candidate deps) ids s1 = (z, s2)" by (cases "mapE (candidate deps) ids s1")
    note cr = candidates_run [OF c]
    have l: "length ids \<le> limit" using w(3) Inr by simp
    show ?thesis
    proof (cases z)
      case zl: (Inl e)
      with assms(1) w(1) Inr c have "r = Inl e" "s' = s2" by (simp_all add: fetch_labelled_def bindE_def)
      then show ?thesis using cr w(2) l by (simp add: within_def)
    next
      case zr: (Inr cs)
      obtain x s3 where d: "foldE (gmail_download deps folder) (fp_wanted (?plan cs)) [] s2 = (x, s3)"
        by (cases "foldE (gmail_download deps folder) (fp_wanted (?plan cs)) [] s2")
      have e: "s' = s3 \<and> (\<forall>batch. r = Inr batch \<longrightarrow> x = Inr (fr_messages batch))"
        using assms(1) w(1) Inr c zr d by (cases x) (auto simp: fetch_labelled_def bindE_def Let_def returnE_def)
      have o: "mset (oldest_first deps cs) = mset cs" by (rule oldest_first_mset [OF assms(3)])
      have p: "set (fp_wanted (?plan cs)) \<subseteq> set cs" "length (fp_wanted (?plan cs)) \<le> length cs"
        using planFetch_wanted [of "oldest_first deps cs"] mset_eq_setD [OF o] mset_eq_length [OF o] by simp_all
      then have "registered s2 (fp_wanted (?plan cs))" using cr zr by (auto simp: registered_def)
      from downloads_run [OF d this] have "within (4 * length (fp_wanted (?plan cs))) s2 s3"
        "\<forall>got'. x = Inr got' \<longrightarrow> (\<forall>m \<in> set got'. fetched_as s3 folder m)" by simp_all
      then show ?thesis using w(2) cr zr p(2) l e by (auto simp: within_def)
    qed
  qed
qed

lemma batch_run:
  assumes "gmail_fetchBatch deps folder limit limits s = (r, s')" and "names_messages deps" and "keeps_messages deps"
  shows "within (4 + 12 * limit) s s' \<and> (\<forall>batch. r = Inr batch \<longrightarrow> (\<forall>m \<in> set (fr_messages batch). fetched_as s' folder m))"
proof -
  obtain x s1 where l: "labelId deps folder False s = (x, s1)" by (cases "labelId deps folder False s")
  have lw: "within 4 s s1" using labelId_run [OF l] by simp
  consider "s' = s1" "\<forall>batch. r = Inr batch \<longrightarrow> fr_messages batch = []" | a b label where "fetch_labelled deps folder limit a b label s1 = (r, s')"
    using assms(1) l by (cases x) (auto simp: gmail_fetchBatch_def bindE_def returnE_def Let_def split: option.splits)
  then show ?thesis
  proof cases
    case 1
    with lw show ?thesis by (auto simp: within_def)
  next
    case 2
    from labelled_run [OF this assms(2,3)] lw show ?thesis by (auto simp: within_def)
  qed
qed

text \<open>A move leaves the numbers of the session as they are and knows both labels.\<close>

lemma move_run:
  assumes "gmail_move deps uid fromFolder toFolder s = (r, s')"
  shows "gm_gmailIds s' = gm_gmailIds s \<and> (r = Inr () \<longrightarrow> (\<exists>i f t q response. map_of (gm_gmailIds s) uid = Some i \<and>
    map_of (gm_labelIds s') fromFolder = Some f \<and> map_of (gm_labelIds s') toFolder = Some t \<and>
    authorised deps ''POST'' (modify_route i) (move_body (Some t) (Some f)) q \<and> answered_by deps q response s'))"
proof (cases "map_of (gm_gmailIds s) uid")
  case None
  with assms show ?thesis by (auto simp: gmail_move_def io_defs)
next
  case (Some i)
  obtain x s1 where a: "labelId deps fromFolder True s = (x, s1)" by (cases "labelId deps fromFolder True s")
  note ar = labelId_run [OF a]
  show ?thesis
  proof (cases x)
    case (Inl e)
    with assms Some a ar show ?thesis by (auto simp: gmail_move_def bindE_def getE_def knows_more_def)
  next
    case xr: (Inr from')
    obtain y s2 where b: "labelId deps toFolder True s1 = (y, s2)" by (cases "labelId deps toFolder True s1")
    note br = labelId_run [OF b]
    show ?thesis
    proof (cases y)
      case (Inl e)
      with assms Some a b xr ar br show ?thesis by (auto simp: gmail_move_def bindE_def getE_def knows_more_def)
    next
      case yr: (Inr to)
      obtain z s3 where c: "gmail_json deps ''POST'' (modify_route i) (move_body to from') s2 = (z, s3)"
        by (cases "gmail_json deps ''POST'' (modify_route i) (move_body to from') s2")
      note cr = gmail_json_run [OF c]
      have e: "s' = s3" "r = Inr () \<Longrightarrow> \<exists>v. z = Inr v"
        using assms Some a b xr yr c by (cases z; simp add: gmail_move_def bindE_def getE_def returnE_def)+
      have keep: "gm_gmailIds s' = gm_gmailIds s" using ar br cr e(1) by (simp add: knows_more_def same_session_def)
      obtain f t where ft: "from' = Some f" "to = Some t" "map_of (gm_labelIds s1) fromFolder = Some f" "map_of (gm_labelIds s2) toFolder = Some t"
        using ar br xr yr by auto
      have "map_of (gm_labelIds s3) fromFolder = Some f" "map_of (gm_labelIds s3) toFolder = Some t"
        using ar br cr ft xr by (auto simp: knows_more_def same_session_def)
      then show ?thesis using keep e cr ft Some by blast
    qed
  qed
qed

text \<open>
  C29. A poll over Gmail ends. Where Gmail gives every message it lists an id, the walk over the pages of a label
  comes to its end, with no more ids than were asked for, however Gmail cuts the pages, and a whole batch
  sends at most four requests for the label and twelve for each message that was asked for, new tokens
  included, whatever fails.
\<close>

theorem gmail_poll_ends:
  assumes "names_messages deps" and "keeps_messages deps"
  shows "(\<exists>r s'. listMessageIds deps label limit [] JUndef s = Some (r, s') \<and> (\<forall>ids. r = Inr ids \<longrightarrow> length ids \<le> limit)) \<and>
    length (gm_sent (snd (gmail_fetchBatch deps folder limit limits s))) \<le> length (gm_sent s) + (4 + 12 * limit)"
proof -
  have "within (4 + 12 * limit) s (snd (gmail_fetchBatch deps folder limit limits s))"
    using batch_run [OF prod.collapse [symmetric] assms] by blast
  with walk_run [OF assms(1), of label limit "[]" JUndef s] show ?thesis by (auto simp: within_def)
qed

text \<open>
  C30. A message is moved by the id it was fetched under. When a move of a message of a batch returns, in the
  session that fetched it, Gmail was asked to modify the very message that its origin names, by adding the
  label of the one folder and removing that of the other, as Gmail itself knows them.
\<close>

theorem gmail_moves_what_it_fetched:
  assumes "gmail_fetchBatch deps folder limit limits s = (Inr batch, s1)" and "m \<in> set (fr_messages batch)"
    and "gm_gmailIds s2 = gm_gmailIds s1" and "gmail_move deps (fm_uid m) fromFolder toFolder s2 = (Inr (), s3)"
    and "names_messages deps" and "keeps_messages deps"
  shows "\<exists>i f t q response. fm_origin m = Some \<lparr>mo_host = ORIGIN_HOST, mo_folder = folder, mo_uidValidity = js_string i\<rparr> \<and>
    map_of (gm_labelIds s3) fromFolder = Some f \<and> map_of (gm_labelIds s3) toFolder = Some t \<and> answered_by deps q response s3 \<and>
    gq_method q = ''POST'' \<and> gq_url q = userPath deps @ ''/messages/'' @ encodeURIComponent (js_string i) @ ''/modify'' \<and>
    gq_body q = Some (stringify (JObj [(''addLabelIds'', JArr [t]), (''removeLabelIds'', JArr [f])]))"
proof -
  from batch_run [OF assms(1,5,6)] assms(2) have "fetched_as s1 folder m" by blast
  then obtain i where i: "map_of (gm_gmailIds s1) (fm_uid m) = Some i"
    "fm_origin m = Some \<lparr>mo_host = ORIGIN_HOST, mo_folder = folder, mo_uidValidity = js_string i\<rparr>"
    by (auto simp: fetched_as_def originGeneration_def)
  from move_run [OF assms(4)] assms(3) i(1) obtain f t q response where "map_of (gm_labelIds s3) fromFolder = Some f"
    "map_of (gm_labelIds s3) toFolder = Some t" "authorised deps ''POST'' (modify_route i) (move_body (Some t) (Some f)) q"
    "answered_by deps q response s3" by auto
  with i(2) show ?thesis by (intro exI [of _ i] exI [of _ f] exI [of _ t] exI [of _ q] exI [of _ response])
    (simp add: authorised_def modify_route_def move_body_def)
qed

section \<open>One letter\<close>

definition gmail_answers :: "string list" where
  "gmail_answers = [''{\"labels\":[{\"id\":\"L1\",\"name\":\"in\"},{\"id\":\"L2\",\"name\":\"done\"}]}'',
     ''{\"messages\":[{\"id\":\"ab\"}],\"nextPageToken\":\"\"}'', ''{\"sizeEstimate\":2,\"internalDate\":\"5\"}'', ''{\"raw\":\"aGk\"}'', ''{}'']"

definition letter_deps :: "nat gmail_deps" where
  "letter_deps = \<lparr>gd_options = \<lparr>gc_user = [], gc_clientId = [], gc_clientSecret = [], gc_refreshToken = ''r''\<rparr>,
     gd_fetch = (\<lambda>q n. (Inr \<lparr>gr_status = 200, gr_text = (if n < 5 then gmail_answers ! n else [])\<rparr>, Suc n)),
     gd_now = (\<lambda>n. - 60000), gd_sha256 = (\<lambda>s. ''1''), gd_disorder = (\<lambda>cs. cs)\<rparr>"

definition letter_start :: "nat gmail" where
  "letter_start = \<lparr>gm_token = Some (''a'', Infinite False), gm_labelIds = [], gm_labelsListed = False, gm_gmailIds = [], gm_sent = [], gm_world = 0\<rparr>"

definition small_limits :: fetch_limits where
  "small_limits = \<lparr>maxMessageBytes = Some 9, maxTotalBytes = Some 9\<rparr>"

lemma letter_pages: "\<forall>n < 5. case json_parse (gmail_answers ! n) of None \<Rightarrow> True
    | Some page \<Rightarrow> (case page_of page of Inr (ids, token, nomore) \<Rightarrow> ids \<noteq> [] \<or> nomore | Inl e \<Rightarrow> True)"
  by code_simp

lemma letter_named: "names_messages letter_deps"
proof -
  have "json_parse [] = None" by code_simp
  then have "case json_parse (if n < 5 then gmail_answers ! n else []) of None \<Rightarrow> True
    | Some page \<Rightarrow> (case page_of page of Inr (ids, token, nomore) \<Rightarrow> ids \<noteq> [] \<or> nomore | Inl e \<Rightarrow> True)" for n
    using letter_pages by simp
  then have p: "page_of page = Inr (ids, token, nomore) \<Longrightarrow> json_parse (if n < 5 then gmail_answers ! n else []) = Some page \<Longrightarrow> ids = [] \<Longrightarrow> nomore"
    for page ids token nomore n using spec [of "\<lambda>n. case json_parse (if n < 5 then gmail_answers ! n else []) of None \<Rightarrow> True
    | Some page \<Rightarrow> (case page_of page of Inr (ids, token, nomore) \<Rightarrow> ids \<noteq> [] \<or> nomore | Inl e \<Rightarrow> True)" n] by simp
  have "json_parse (if n < 5 then gmail_answers ! n else []) = Some page"
    if "gd_fetch letter_deps q n = (Inr response, w')" "response_json response = Inr page" for q n response w' page
    using that by (auto simp: letter_deps_def response_json_def split: option.splits)
  with p show ?thesis unfolding names_messages_def by blast
qed

lemma letter_kept: "keeps_messages letter_deps"
  by (simp add: keeps_messages_def letter_deps_def)

theorem gmail_poll_ends_witness:
  "\<exists>r s'. listMessageIds letter_deps (JStr ''L1'') 1 [] JUndef letter_start = Some (r, s') \<and>
     length (gm_sent (snd (gmail_fetchBatch letter_deps ''in'' 1 small_limits letter_start))) \<le> 16"
  using gmail_poll_ends [OF letter_named letter_kept, of "JStr ''L1''" 1 letter_start "''in''" small_limits]
  by (auto simp: letter_start_def)

lemma small_batch: "gmail_fetchBatch deps folder limit small_limits = bindE (labelId deps folder False) (\<lambda>label. case label of
    None \<Rightarrow> returnE \<lparr>fr_messages = [], fr_oversized = [], fr_budgetExhausted = False\<rparr> | Some l \<Rightarrow> fetch_labelled deps folder limit 9 9 l)"
  by (simp add: gmail_fetchBatch_def small_limits_def)

definition letter_done :: bool where
  "letter_done \<longleftrightarrow> (case bindE (labelId letter_deps ''in'' False) (\<lambda>label. case label of
      None \<Rightarrow> returnE \<lparr>fr_messages = [], fr_oversized = [], fr_budgetExhausted = False\<rparr> | Some l \<Rightarrow> fetch_labelled letter_deps ''in'' 1 9 9 l) letter_start of
    (Inr batch, s1) \<Rightarrow> map fm_raw (fr_messages batch) = [''hi''] \<and>
      (case gmail_move letter_deps (fm_uid (hd (fr_messages batch))) ''in'' ''done'' s1 of (Inr _, s3) \<Rightarrow> gm_world s3 = 5 | _ \<Rightarrow> False)
  | _ \<Rightarrow> False)"

lemma letter_moved: letter_done
  by code_simp

theorem gmail_moves_what_it_fetched_witness:
  "\<exists>batch s1 m s3 (q :: gmail_request) i. gmail_fetchBatch letter_deps ''in'' 1 small_limits letter_start = (Inr batch, s1) \<and> m \<in> set (fr_messages batch) \<and>
     gmail_move letter_deps (fm_uid m) ''in'' ''done'' s1 = (Inr (), s3) \<and>
     gq_url q = userPath letter_deps @ ''/messages/'' @ encodeURIComponent (js_string i) @ ''/modify''"
proof -
  obtain batch s1 where f: "gmail_fetchBatch letter_deps ''in'' 1 small_limits letter_start = (Inr batch, s1)"
    and raw: "map fm_raw (fr_messages batch) = [''hi'']"
    and mv: "case gmail_move letter_deps (fm_uid (hd (fr_messages batch))) ''in'' ''done'' s1 of (Inr _, s3) \<Rightarrow> gm_world s3 = 5 | _ \<Rightarrow> False"
  proof -
    let ?run = "gmail_fetchBatch letter_deps ''in'' 1 small_limits letter_start"
    have d: "case ?run of (Inr batch, s1) \<Rightarrow> map fm_raw (fr_messages batch) = [''hi''] \<and>
      (case gmail_move letter_deps (fm_uid (hd (fr_messages batch))) ''in'' ''done'' s1 of (Inr _, s3) \<Rightarrow> gm_world s3 = 5 | _ \<Rightarrow> False)
      | _ \<Rightarrow> False" using letter_moved unfolding letter_done_def small_batch .
    obtain r s1 where run: "?run = (r, s1)" by (cases ?run)
    with d show thesis by (cases r) (use that run in auto)
  qed
  obtain m where m: "fr_messages batch = [m]" using raw by auto
  obtain s3 where s3: "gmail_move letter_deps (fm_uid m) ''in'' ''done'' s1 = (Inr (), s3)"
    using mv m by (auto split: prod.splits sum.splits)
  have mem: "m \<in> set (fr_messages batch)" using m by simp
  from gmail_moves_what_it_fetched [OF f mem refl s3 letter_named letter_kept]
  obtain i and q :: gmail_request where q: "gq_url q = userPath letter_deps @ ''/messages/'' @ encodeURIComponent (js_string i) @ ''/modify''"
    by (elim exE conjE) (rule that)
  show ?thesis
    by (rule exI [of _ batch], rule exI [of _ s1], rule exI [of _ m], rule exI [of _ s3], rule exI [of _ q], rule exI [of _ i]) (intro conjI f mem s3 q)
qed

end
