(* ===== verification/Providers.thy ===== *)
theory Providers
  imports Operations
begin

text \<open>
  The providers that reach a model over HTTP: the chat completions of \<open>runtime/src/llm/openai.ts\<close> with the
  reading of tool calls a gateway left in the text, the messages of \<open>runtime/src/llm/anthropic.ts\<close>, and the
  reader of scans of \<open>runtime/src/llm/vision.ts\<close>. \<open>fetch\<close> and the digest are parameters. Where the code
  only casts a value of an answer to a string or a number, as it does with the id and the name of a call, its
  text and its usage, a value of another type is read as its text or its number.
\<close>

section \<open>HTTP\<close>

record http_post =
  hp_url :: string
  hp_headers :: "(string \<times> string) list"
  hp_body :: string

text \<open>An answer; reading its body may fail.\<close>

record http_answer =
  ha_status :: int
  ha_body :: "string result"

definition http_ok :: "http_answer \<Rightarrow> bool" where
  "http_ok a \<longleftrightarrow> 200 \<le> ha_status a \<and> ha_status a \<le> 299"

definition http_json :: "http_answer \<Rightarrow> json result" where
  "http_json a = bindR (ha_body a) (\<lambda>text. case json_parse text of
     Some v \<Rightarrow> Inr v | None \<Rightarrow> Inl (JsError ''SyntaxError'' ''Unexpected token in JSON''))"

text \<open>\<open>value[0]\<close> of a value that is not nullish.\<close>

definition first_of :: "json \<Rightarrow> json" where
  "first_of v = (case v of JArr (x # xs) \<Rightarrow> x | JStr (c # cs) \<Rightarrow> JStr [c] | JObj ps \<Rightarrow> pget ps ''0'' | _ \<Rightarrow> JUndef)"

text \<open>\<open>(value ?? [])\<close> where the code calls a method of arrays.\<close>

definition method_items :: "string \<Rightarrow> json \<Rightarrow> json list result" where
  "method_items what v = (if nullish v then Inr [] else case v of JArr xs \<Rightarrow> Inr xs
     | _ \<Rightarrow> Inl (JsError ''TypeError'' (what @ '' is not a function'')))"

definition http_refused :: "string \<Rightarrow> http_answer \<Rightarrow> string" where
  "http_refused what a = what @ '' HTTP '' @ string_of_int (ha_status a) @ '': ''
     @ take 400 (case ha_body a of Inr text \<Rightarrow> text | Inl e \<Rightarrow> [])"

text \<open>A status outside 2xx: worth another attempt, or an answer that is an error.\<close>

definition refused_response :: "http_answer \<Rightarrow> llm_response result" where
  "refused_response a = (let message = http_refused ''LLM'' a in
     if isTransientStatus (ha_status a) then Inl (TransientLlmError message)
     else Inr \<lparr>r_text = [], r_toolCalls = [], r_finishReason = LError,
       r_error = Some \<lparr>le_message = message, le_transient = False\<rparr>, r_usage = None\<rparr>)"

definition token_count :: "json \<Rightarrow> string \<Rightarrow> js_num" where
  "token_count usage key = (let n = pget (obj_props usage) key in if nullish n then num_of_int 0 else js_number n)"

definition usage_of :: "string \<Rightarrow> string \<Rightarrow> json \<Rightarrow> llm_usage option" where
  "usage_of prompt completion payload = (let usage = pget (obj_props payload) ''usage'' in
     if json_truthy usage then Some \<lparr>promptTokens = token_count usage prompt, completionTokens = token_count usage completion\<rparr>
     else None)"

text \<open>How an answer without a fault ends: \<open>clean\<close> are its ordinary reasons, \<open>capped_by\<close> the one of the length.\<close>

definition abnormal_reason :: "string list \<Rightarrow> string \<Rightarrow> json \<Rightarrow> bool" where
  "abnormal_reason clean capped_by reason \<longleftrightarrow> \<not> nullish reason \<and> reason \<noteq> JStr [] \<and> reason \<notin> JStr ` set clean \<and> reason \<noteq> JStr capped_by"

definition finished_response :: "string list \<Rightarrow> string \<Rightarrow> string \<Rightarrow> json \<Rightarrow> string \<Rightarrow> llm_tool_call list \<Rightarrow> llm_usage option \<Rightarrow> llm_response" where
  "finished_response clean capped_by field reason text toolCalls usage =
     (let abnormal = toolCalls = [] \<and> abnormal_reason clean capped_by reason in
      \<lparr>r_text = text, r_toolCalls = toolCalls,
       r_finishReason = (if toolCalls \<noteq> [] then LWantsTools else if reason = JStr capped_by then LLength
         else if abnormal then LError else LAnswered),
       r_error = (if abnormal then Some \<lparr>le_message = ''The model stopped with '' @ field @ '' '' @ quoted (js_string reason)
         @ '' and returned no usable completion.'', le_transient = False\<rparr> else None),
       r_usage = usage\<rparr>)"

section \<open>The request of openai.ts\<close>

record openai_provider =
  op_baseUrl :: string
  op_apiKey :: string
  op_temperature :: "js_num option"
  op_maxTokens :: int
  op_systemSuffix :: "string option"

definition withSystemSuffix :: "llm_message list \<Rightarrow> string option \<Rightarrow> llm_message list" where
  "withSystemSuffix messages suffix =
     (if \<not> truthy suffix then messages
      else case List.extract (\<lambda>m. m_role m = ''system'') messages of
        None \<Rightarrow> plain_message ''system'' (the suffix) # messages
      | Some (before, m, after) \<Rightarrow> before @ m\<lparr>m_content := m_content m @ nl @ nl @ the suffix\<rparr> # after)"

definition opt_text :: "string option \<Rightarrow> json" where
  "opt_text s = (case s of None \<Rightarrow> JUndef | Some t \<Rightarrow> JStr t)"

definition calls_made :: "llm_message \<Rightarrow> llm_tool_call list" where
  "calls_made m = coalesce (m_toolCalls m) []"

definition wire_call :: "llm_tool_call \<Rightarrow> json" where
  "wire_call call = JObj [(''id'', JStr (tc_id call)), (''type'', JStr ''function''),
     (''function'', JObj [(''name'', JStr (tc_name call)), (''arguments'', JStr (stringify (tc_arguments call)))])]"

definition wire_message :: "llm_message \<Rightarrow> json" where
  "wire_message m =
     (if m_role m = ''tool'' then JObj [(''role'', JStr ''tool''), (''content'', JStr (m_content m)), (''tool_call_id'', opt_text (m_toolCallId m))]
      else if m_role m = ''assistant'' \<and> calls_made m \<noteq> []
      then JObj [(''role'', JStr ''assistant''), (''content'', if m_content m = [] then JNull else JStr (m_content m)),
        (''tool_calls'', JArr (map wire_call (calls_made m)))]
      else JObj [(''role'', JStr (m_role m)), (''content'', JStr (m_content m))])"

definition wire_tool :: "tool_schema \<Rightarrow> json" where
  "wire_tool tool = JObj [(''type'', JStr ''function''), (''function'', JObj [(''name'', JStr (ts_name tool)),
     (''description'', JStr (ts_description tool)), (''parameters'', ts_parameters tool)])]"

definition openai_body :: "openai_provider \<Rightarrow> llm_request \<Rightarrow> json" where
  "openai_body p rq = JObj ([(''model'', JStr (rq_model rq)), (''max_tokens'', JNum (num_of_int (op_maxTokens p)))]
     @ (case op_temperature p of None \<Rightarrow> [] | Some t \<Rightarrow> [(''temperature'', JNum t)])
     @ [(''messages'', JArr (map wire_message (withSystemSuffix (rq_messages rq) (op_systemSuffix p))))]
     @ (if rq_tools rq = [] then [] else [(''tools'', JArr (map wire_tool (rq_tools rq))), (''tool_choice'', JStr ''auto'')]))"

definition openai_request :: "openai_provider \<Rightarrow> llm_request \<Rightarrow> http_post" where
  "openai_request p rq = \<lparr>hp_url = strip_slashes (op_baseUrl p) @ ''/chat/completions'',
     hp_headers = [(''Content-Type'', ''application/json''), (''Authorization'', ''Bearer '' @ op_apiKey p)],
     hp_body = stringify (openai_body p rq)\<rparr>"

section \<open>Calls left in the text\<close>

text \<open>\<open>/<tool_call>|<function=/\<close>\<close>

definition MALFORMED_TOOL_CALL :: "string \<Rightarrow> bool" where
  "MALFORMED_TOOL_CALL text \<longleftrightarrow> contains ''<tool_call>'' text \<or> contains ''<function='' text"

text \<open>What stands before the first \<open>closing\<close>, and what after it: the lazy \<open>[\s\S]*?\<close>.\<close>

fun up_to :: "string \<Rightarrow> string \<Rightarrow> (string \<times> string) option" where
  "up_to closing [] = (if closing = [] then Some ([], []) else None)"
| "up_to closing (c # cs) = (if starts_with closing (c # cs) then Some ([], drop (length closing) (c # cs))
     else map_option (\<lambda>(b, r). (c # b, r)) (up_to closing cs))"

definition tag_char :: "char \<Rightarrow> bool" where
  "tag_char c \<longleftrightarrow> is_alnum c \<or> c \<in> set ''_.-''"

text \<open>An element at the head of a text: its name, its body and the rest.\<close>

definition markup_element :: "string \<Rightarrow> string \<Rightarrow> string \<Rightarrow> ((string \<times> string) \<times> string) option" where
  "markup_element opening closing s =
     (let r = drop (length opening) s; name = takeWhile tag_char r; rest = dropWhile tag_char r in
      if starts_with opening s \<and> name \<noteq> [] \<and> starts_with ''>'' rest
      then map_option (\<lambda>(body, after). ((name, body), after)) (up_to closing (tl rest)) else None)"

definition MARKUP_CALL :: "string \<Rightarrow> ((string \<times> string) \<times> string) option" where
  "MARKUP_CALL s = markup_element ''<function='' ''</function>'' s"

definition MARKUP_PARAMETER :: "string \<Rightarrow> ((string \<times> string) \<times> string) option" where
  "MARKUP_PARAMETER s = markup_element ''<parameter='' ''</parameter>'' s"

text \<open>\<open><tool_call>...</tool_call>\<close> at the head of a text: its body and the rest.\<close>

definition wrapper :: "string \<Rightarrow> (string \<times> string) option" where
  "wrapper s = (if starts_with ''<tool_call>'' s then up_to ''</tool_call>'' (drop 11 s) else None)"

definition MARKUP_JSON_CALL :: "string \<Rightarrow> (string \<times> string) option" where
  "MARKUP_JSON_CALL s = map_option (\<lambda>(body, after). (trim body, after)) (wrapper s)"

definition wrapper_tag :: "string \<Rightarrow> (unit \<times> string) option" where
  "wrapper_tag s = (if starts_with ''<tool_call>'' s then Some ((), drop 11 s)
     else if starts_with ''</tool_call>'' s then Some ((), drop 12 s) else None)"

text \<open>
  \<open>matchAll\<close> and \<open>replace(..., "")\<close> of a global pattern that consumes what it matches: the matches from the
  left, each after the end of the one before, and what is left without them.
\<close>

function match_all :: "(string \<Rightarrow> ('a \<times> string) option) \<Rightarrow> string \<Rightarrow> 'a list" where
  "match_all m [] = []"
| "match_all m (c # cs) = (case m (c # cs) of
     Some (x, rest) \<Rightarrow> x # match_all m (if length rest \<le> length cs then rest else cs)
   | None \<Rightarrow> match_all m cs)"
  by pat_completeness auto
termination
  by (relation "measure (\<lambda>(m, s). length s)") auto

function remove_all :: "(string \<Rightarrow> ('a \<times> string) option) \<Rightarrow> string \<Rightarrow> string" where
  "remove_all m [] = []"
| "remove_all m (c # cs) = (case m (c # cs) of
     Some (x, rest) \<Rightarrow> remove_all m (if length rest \<le> length cs then rest else cs)
   | None \<Rightarrow> c # remove_all m cs)"
  by pat_completeness auto
termination
  by (relation "measure (\<lambda>(m, s). length s)") auto

definition declaredType :: "tool_schema \<Rightarrow> string \<Rightarrow> string" where
  "declaredType tool parameter =
     (case pget (obj_props (pget (obj_props (pget (obj_props (ts_parameters tool)) ''properties'')) parameter)) ''type'' of
        JStr t \<Rightarrow> t | _ \<Rightarrow> ''string'')"

definition coerce :: "string \<Rightarrow> string \<Rightarrow> json" where
  "coerce v type =
     (if type = ''number'' \<or> type = ''integer''
      then (let parsed = string_to_number v in if is_finite_num parsed then JNum parsed else JStr v)
      else if type = ''boolean'' then (if v = ''true'' then JBool True else if v = ''false'' then JBool False else JStr v)
      else if type = ''object'' \<or> type = ''array'' then coalesce (json_parse v) (JStr v)
      else JStr v)"

text \<open>\<open>args[key] = value\<close>; the key \<open>__proto__\<close> makes no property of its own.\<close>

definition assign :: "string \<Rightarrow> json \<Rightarrow> props \<Rightarrow> props" where
  "assign key v args = (if key = ''__proto__'' then args else set_prop key v args)"

definition markup_args :: "tool_schema \<Rightarrow> string \<Rightarrow> props" where
  "markup_args tool body = fold (\<lambda>(key, raw) args. assign key (coerce (trim raw) (declaredType tool key)) args)
     (match_all MARKUP_PARAMETER body) []"

definition markup_id :: "(string \<Rightarrow> string) \<Rightarrow> nat \<Rightarrow> string \<Rightarrow> string" where
  "markup_id sha1 n hashed = ''markup_'' @ string_of_nat n @ ''_'' @ take 8 (sha1 hashed)"

definition offered_tool :: "tool_schema list \<Rightarrow> string \<Rightarrow> tool_schema option" where
  "offered_tool tools name = find (\<lambda>t. ts_name t = name) (rev tools)"

definition add_call :: "(string \<Rightarrow> string) \<Rightarrow> tool_schema list \<Rightarrow> string \<times> string \<Rightarrow> llm_tool_call list \<Rightarrow> llm_tool_call list" where
  "add_call sha1 tools found calls = (case found of (name, body) \<Rightarrow> case offered_tool tools name of
     None \<Rightarrow> calls
   | Some tool \<Rightarrow> calls @ [\<lparr>tc_id = markup_id sha1 (length calls) (name @ body), tc_name = name,
       tc_arguments = JObj (markup_args tool body)\<rparr>])"

definition object_or_empty :: "json \<Rightarrow> json" where
  "object_or_empty v = (case v of JObj ps \<Rightarrow> v | JArr xs \<Rightarrow> v | _ \<Rightarrow> JObj [])"

definition add_json_call :: "(string \<Rightarrow> string) \<Rightarrow> tool_schema list \<Rightarrow> string \<Rightarrow> llm_tool_call list \<Rightarrow> llm_tool_call list" where
  "add_json_call sha1 tools body calls =
     (case json_parse body of
        Some (JObj ps) \<Rightarrow> (case pget ps ''name'' of
          JStr name \<Rightarrow> if offered_tool tools name = None then calls
            else calls @ [\<lparr>tc_id = markup_id sha1 (length calls) body, tc_name = name,
              tc_arguments = object_or_empty (pget ps ''arguments'')\<rparr>]
        | _ \<Rightarrow> calls)
      | _ \<Rightarrow> calls)"

definition toolCallsFromMarkup :: "(string \<Rightarrow> string) \<Rightarrow> string \<Rightarrow> tool_schema list \<Rightarrow> llm_tool_call list" where
  "toolCallsFromMarkup sha1 text tools =
     fold (add_json_call sha1 tools) (match_all MARKUP_JSON_CALL text)
       (fold (add_call sha1 tools) (match_all MARKUP_CALL text) [])"

definition withoutMarkup :: "string \<Rightarrow> string" where
  "withoutMarkup text = trim (remove_all wrapper_tag (remove_all wrapper (remove_all MARKUP_CALL text)))"

section \<open>The answer of openai.ts\<close>

definition parseArguments :: "json \<Rightarrow> json" where
  "parseArguments raw =
     (case json_parse (if json_truthy raw then js_string raw else ''{}'') of
        Some (JObj ps) \<Rightarrow> JObj ps
      | _ \<Rightarrow> JObj [(''__malformed'', raw)])"

definition openai_call :: "json \<Rightarrow> llm_tool_call result" where
  "openai_call call = bindR (row_prop call ''id'') (\<lambda>i. let f = pget (obj_props call) ''function'' in
     bindR (row_prop f ''name'') (\<lambda>name. Inr \<lparr>tc_id = js_string i, tc_name = js_string name,
       tc_arguments = parseArguments (pget (obj_props f) ''arguments'')\<rparr>))"

definition openai_calls :: "json \<Rightarrow> llm_tool_call list result" where
  "openai_calls message = bindR (row_prop message ''tool_calls'') (\<lambda>calls.
     bindR (method_items ''(choice.message.tool_calls ?? []).map'' calls) (mapR openai_call))"

definition markup_error :: js_error where
  "markup_error = TransientLlmError (''The model emitted a tool call as text rather than as a structured call, so nothing '' @ ''was invoked.'')"

definition openai_choice :: "(string \<Rightarrow> string) \<Rightarrow> llm_request \<Rightarrow> json \<Rightarrow> json \<Rightarrow> llm_response result" where
  "openai_choice sha1 rq payload choice =
     bindR (row_prop choice ''message'') (\<lambda>message. bindR (openai_calls message) (\<lambda>toolCalls.
       let text = text_of [] (pget (obj_props message) ''content'');
           usage = usage_of ''prompt_tokens'' ''completion_tokens'' payload;
           recovered = toolCallsFromMarkup sha1 text (rq_tools rq) in
       if toolCalls = [] \<and> MALFORMED_TOOL_CALL text then
         (if recovered \<noteq> [] then Inr \<lparr>r_text = withoutMarkup text, r_toolCalls = recovered, r_finishReason = LWantsTools,
            r_error = None, r_usage = usage\<rparr>
          else Inl markup_error)
       else Inr (finished_response [''stop''] ''length'' ''finish_reason'' (pget (obj_props choice) ''finish_reason'') text toolCalls usage)))"

definition openai_payload :: "(string \<Rightarrow> string) \<Rightarrow> llm_request \<Rightarrow> json \<Rightarrow> llm_response result" where
  "openai_payload sha1 rq payload =
     bindR (row_prop payload ''choices'') (\<lambda>choices. let choice = first_of choices in
       if \<not> json_truthy choice then Inl (TransientLlmError ''LLM returned no choices'')
       else openai_choice sha1 rq payload choice)"

definition openai_response :: "(string \<Rightarrow> string) \<Rightarrow> llm_request \<Rightarrow> http_answer \<Rightarrow> llm_response result" where
  "openai_response sha1 rq a = (if \<not> http_ok a then refused_response a
     else bindR (http_json a) (openai_payload sha1 rq))"

definition openai_complete :: "(string \<Rightarrow> string) \<Rightarrow> (http_post \<Rightarrow> ('w, http_answer) io) \<Rightarrow> openai_provider \<Rightarrow> llm_request \<Rightarrow> ('w, llm_response) io" where
  "openai_complete sha1 fetch p rq = bindE (fetch (openai_request p rq)) (\<lambda>a. liftR (openai_response sha1 rq a))"

section \<open>anthropic.ts\<close>

record anthropic_provider =
  ap_baseUrl :: string
  ap_apiKey :: string
  ap_systemSuffix :: "string option"

definition system_text :: "anthropic_provider \<Rightarrow> llm_request \<Rightarrow> string" where
  "system_text p rq = join (nl @ nl) (map m_content (filter (\<lambda>m. m_role m = ''system'') (rq_messages rq))
     @ (if truthy (ap_systemSuffix p) then [the (ap_systemSuffix p)] else []))"

definition tool_use :: "llm_tool_call \<Rightarrow> json" where
  "tool_use call = JObj [(''type'', JStr ''tool_use''), (''id'', JStr (tc_id call)), (''name'', JStr (tc_name call)), (''input'', tc_arguments call)]"

definition anthropic_message :: "llm_message \<Rightarrow> json" where
  "anthropic_message m =
     (if m_role m = ''tool'' then JObj [(''role'', JStr ''user''), (''content'', JArr [JObj [(''type'', JStr ''tool_result''),
        (''tool_use_id'', opt_text (m_toolCallId m)), (''content'', JStr (m_content m))]])]
      else if m_role m = ''assistant'' \<and> calls_made m \<noteq> []
      then JObj [(''role'', JStr ''assistant''), (''content'', JArr
        ((if m_content m = [] then [] else [JObj [(''type'', JStr ''text''), (''text'', JStr (m_content m))]])
         @ map tool_use (calls_made m)))]
      else JObj [(''role'', JStr (m_role m)), (''content'', JStr (m_content m))])"

definition anthropic_tool :: "tool_schema \<Rightarrow> json" where
  "anthropic_tool tool = JObj [(''name'', JStr (ts_name tool)), (''description'', JStr (ts_description tool)),
     (''input_schema'', ts_parameters tool)]"

definition anthropic_body :: "anthropic_provider \<Rightarrow> llm_request \<Rightarrow> json" where
  "anthropic_body p rq = JObj ([(''model'', JStr (rq_model rq)), (''max_tokens'', JNum (num_of_int 4096))]
     @ (if system_text p rq = [] then [] else [(''system'', JStr (system_text p rq))])
     @ [(''messages'', JArr (map anthropic_message (filter (\<lambda>m. m_role m \<noteq> ''system'') (rq_messages rq))))]
     @ (if rq_tools rq = [] then [] else [(''tools'', JArr (map anthropic_tool (rq_tools rq)))]))"

definition anthropic_request :: "anthropic_provider \<Rightarrow> llm_request \<Rightarrow> http_post" where
  "anthropic_request p rq = \<lparr>hp_url = strip_slashes (ap_baseUrl p) @ ''/v1/messages'',
     hp_headers = [(''Content-Type'', ''application/json''), (''x-api-key'', ap_apiKey p), (''anthropic-version'', ''2023-06-01'')],
     hp_body = stringify (anthropic_body p rq)\<rparr>"

text \<open>The blocks of one type, and the text of the others.\<close>

definition blocks_of :: "string \<Rightarrow> json list \<Rightarrow> json list result" where
  "blocks_of type blocks = bindR (mapR (\<lambda>b. row_prop b ''type'') blocks)
     (\<lambda>types. Inr (map fst (filter (\<lambda>(b, t). t = JStr type) (zip blocks types))))"

definition block_text :: "json list \<Rightarrow> string" where
  "block_text blocks = concat (map (\<lambda>b. text_of [] (pget (obj_props b) ''text'')) blocks)"

definition anthropic_call :: "json \<Rightarrow> llm_tool_call" where
  "anthropic_call block = (let input = pget (obj_props block) ''input'' in
     \<lparr>tc_id = text_of [] (pget (obj_props block) ''id''), tc_name = text_of [] (pget (obj_props block) ''name''),
      tc_arguments = (if nullish input then JObj [] else input)\<rparr>)"

definition anthropic_payload :: "json \<Rightarrow> llm_response result" where
  "anthropic_payload payload =
     bindR (row_prop payload ''content'') (\<lambda>content.
     bindR (method_items ''blocks.filter'' content) (\<lambda>blocks.
     bindR (blocks_of ''text'' blocks) (\<lambda>texts.
     bindR (blocks_of ''tool_use'' blocks) (\<lambda>uses.
       Inr (finished_response [''end_turn'', ''stop_sequence''] ''max_tokens'' ''stop_reason'' (pget (obj_props payload) ''stop_reason'')
         (block_text texts) (map anthropic_call uses) (usage_of ''input_tokens'' ''output_tokens'' payload))))))"

definition anthropic_response :: "http_answer \<Rightarrow> llm_response result" where
  "anthropic_response a = (if \<not> http_ok a then refused_response a else bindR (http_json a) anthropic_payload)"

definition anthropic_complete :: "(http_post \<Rightarrow> ('w, http_answer) io) \<Rightarrow> anthropic_provider \<Rightarrow> llm_request \<Rightarrow> ('w, llm_response) io" where
  "anthropic_complete fetch p rq = bindE (fetch (anthropic_request p rq)) (\<lambda>a. liftR (anthropic_response a))"

end
