(* ===== verification/Profiles.thy ===== *)
theory Profiles
  imports Providers Config
begin

text \<open>
  The profiles of the models (\<open>runtime/src/llm/profiles.ts\<close>): which modelId takes the Turns and which reads
  scans, with every error of a half-finished edit; the provider that is built for a profile (\<open>buildProvider\<close>
  of \<open>services.ts\<close>) and the reader of scans (\<open>runtime/src/llm/vision.ts\<close>). The file system and the wording
  of a syntax error are parameters.
\<close>

section \<open>Profiles\<close>

datatype llm_provider_name = OpenAiName | AnthropicName | ScriptedName

fun provider_text :: "llm_provider_name \<Rightarrow> string" where
  "provider_text OpenAiName = ''openai''"
| "provider_text AnthropicName = ''anthropic''"
| "provider_text ScriptedName = ''scripted''"

definition PROVIDERS :: "llm_provider_name list" where
  "PROVIDERS = [OpenAiName, AnthropicName, ScriptedName]"

fun DEFAULT_BASE_URL :: "llm_provider_name \<Rightarrow> string" where
  "DEFAULT_BASE_URL OpenAiName = ''https://api.openai.com/v1''"
| "DEFAULT_BASE_URL AnthropicName = ''https://api.anthropic.com''"
| "DEFAULT_BASE_URL ScriptedName = []"

definition DEFAULT_SCRIPT_FILE :: string where
  "DEFAULT_SCRIPT_FILE = ''/run/fixtures/llm-script.json''"

text \<open>\<open>/^[A-Za-z][A-Za-z0-9_]*$/\<close>\<close>

definition is_letter :: "char \<Rightarrow> bool" where
  "is_letter c = (let n = of_char c :: nat in (65 \<le> n \<and> n \<le> 90) \<or> (97 \<le> n \<and> n \<le> 122))"

definition NAME :: "string \<Rightarrow> bool" where
  "NAME s \<longleftrightarrow> s \<noteq> [] \<and> is_letter (hd s) \<and> list_all (\<lambda>c. is_alnum c \<or> c = CHR ''_'') s"

definition ConfigurationError :: "string \<Rightarrow> js_error" where
  "ConfigurationError message = JsError ''ConfigurationError'' message"

record llm_profile =
  lp_name :: string
  lp_provider :: llm_provider_name
  lp_baseUrl :: string
  lp_model :: string
  lp_temperature :: "js_num option"
  lp_systemSuffix :: "string option"
  lp_scriptFile :: string
  lp_apiKey :: string
  lp_apiKeyVariable :: string

record profile_files =
  pf_resolve :: "string \<Rightarrow> string"
  pf_read :: "string \<Rightarrow> string + string"
  pf_syntax :: "string \<Rightarrow> string"

record catalogue =
  ct_where :: string
  ct_parsed :: json
  ct_profiles :: props
  ct_known :: "string list"

definition blank_line :: string where
  "blank_line = nl @ nl"

definition variableFor :: "string \<Rightarrow> string" where
  "variableFor profile = toUpperCase profile @ ''_KEY''"

text \<open>\<open>string\<close> of the code: a field that is missing, or a text.\<close>

definition string_field :: "json \<Rightarrow> string \<Rightarrow> string \<Rightarrow> string \<Rightarrow> string \<Rightarrow> string result" where
  "string_field raw fallback profile field where' =
     (if nullish raw then Inr fallback
      else case raw of JStr s \<Rightarrow> Inr s
      | _ \<Rightarrow> Inl (ConfigurationError (''The LLM profile '' @ quoted profile @ '' in '' @ where' @ '' has a '' @ quoted field
          @ '' that is not a string: '' @ stringify raw)))"

section \<open>The file\<close>

definition readProfilesFile :: "profile_files \<Rightarrow> string \<Rightarrow> string \<Rightarrow> json result" where
  "readProfilesFile files file' where' =
     (case pf_read files file' of
        Inl message \<Rightarrow> Inl (ConfigurationError (''Cannot read the LLM configuration file '' @ where' @ ''.'' @ blank_line
          @ ''  '' @ message @ blank_line
          @ ''That file names every LLM configuration and says which one is active. The project ''
          @ ''ships one at its root; set LLM_CONFIG_FILE to read it from somewhere else.''))
      | Inr text \<Rightarrow> (case json_parse text of
          Some v \<Rightarrow> Inr v
        | None \<Rightarrow> Inl (ConfigurationError (where' @ '' is not valid JSON.'' @ blank_line @ ''  '' @ pf_syntax files text))))"

definition readCatalogue :: "profile_files \<Rightarrow> string \<Rightarrow> catalogue result" where
  "readCatalogue files file' =
     (let where' = pf_resolve files file' in
      bindR (readProfilesFile files file' where') (\<lambda>parsed.
      bindR (row_prop parsed ''profiles'') (\<lambda>profiles. case profiles of
        JObj ps \<Rightarrow> if ps = [] then Inl (ConfigurationError (where' @ '' defines no profiles under '' @ quoted ''profiles'' @ ''.''))
          else Inr \<lparr>ct_where = where', ct_parsed = parsed, ct_profiles = ps, ct_known = sort (map fst ps)\<rparr>
      | _ \<Rightarrow> Inl (ConfigurationError (where' @ '' has no '' @ quoted ''profiles'' @ '' object. It must map a name to a configuration.'')))))"

section \<open>One profile\<close>

definition keyless :: "catalogue \<Rightarrow> string \<Rightarrow> bool" where
  "keyless cat profile = (let raw = obj_props (pget (ct_profiles cat) profile) in
     pget raw ''provider'' = JStr ''scripted'' \<or> pget raw ''requiresKey'' = JBool False)"

definition missingKeyMessage :: "catalogue \<Rightarrow> string \<Rightarrow> string \<Rightarrow> llm_provider_name \<Rightarrow> string \<Rightarrow> string \<Rightarrow> string" where
  "missingKeyMessage cat selector active name baseUrl modelId =
     (let keyless' = filter (keyless cat) (ct_known cat) in
      join nl ([''The LLM profile '' @ quoted active @ '' has no API key.'',
       [],
       ''  profile     '' @ active,
       ''  selected    by '' @ quoted selector @ '' in '' @ ct_where cat,
       ''  provider    '' @ provider_text name,
       ''  endpoint    '' @ baseUrl,
       ''  model       '' @ modelId,
       [],
       ''Add its key to .env in the project root '' @ em_dash @ '' the gitignored file `just setup` writes, which'',
       ''is where every secret in this stack lives:'',
       [],
       ''  '' @ variableFor active @ ''='' @ [CHR 0x27] @ ''<the key for '' @ active @ ''>'' @ [CHR 0x27],
       [],
       ''Then `just restart runtime`. The variable is named after the profile, so each profile'',
       ''keeps its own key and switching '' @ quoted ''active'' @ '' needs no other edit.'']
      @ (if keyless' = [] then [] else [[], ''Profiles that need no key: '' @ join '', '' keyless' @ ''.''])))"

definition is_finite_json :: "json \<Rightarrow> bool" where
  "is_finite_json v = (case v of JNum n \<Rightarrow> is_finite_num n | _ \<Rightarrow> False)"

definition temperature_of :: "string \<Rightarrow> string \<Rightarrow> json \<Rightarrow> js_num option result" where
  "temperature_of active where' raw =
     (if nullish raw then Inr None
      else if is_finite_json raw then Inr (Some (js_number raw))
      else Inl (ConfigurationError (''The LLM profile '' @ quoted active @ '' in '' @ where' @ '' has a '' @ quoted ''temperature''
            @ '' that is not a number: '' @ stringify raw)))"

definition no_sentence :: "string \<Rightarrow> string \<Rightarrow> json \<Rightarrow> js_error" where
  "no_sentence active where' raw = ConfigurationError (''The LLM profile '' @ quoted active @ '' in '' @ where' @ '' has a ''
     @ quoted ''systemSuffix'' @ '' that is not a sentence: '' @ stringify raw @ blank_line
     @ ''  It is text appended to the system prompt of every Turn on this profile. ''
     @ ''Remove the key rather than setting it empty.'')"

definition suffix_of :: "string \<Rightarrow> string \<Rightarrow> json \<Rightarrow> string option result" where
  "suffix_of active where' raw =
     (if nullish raw then Inr None
      else case raw of
        JStr s \<Rightarrow> if trim s = [] then Inl (no_sentence active where' raw) else Inr (Some (trim s))
      | _ \<Rightarrow> Inl (no_sentence active where' raw))"

definition provider_of :: "string \<Rightarrow> string \<Rightarrow> json \<Rightarrow> llm_provider_name result" where
  "provider_of active where' raw =
     (case find (\<lambda>p. raw = JStr (provider_text p)) PROVIDERS of
        Some p \<Rightarrow> Inr p
      | None \<Rightarrow> Inl (ConfigurationError (''The LLM profile '' @ quoted active @ '' in '' @ where' @ '' has provider ''
          @ stringify (if nullish raw then JNull else raw) @ ''.'' @ blank_line
          @ ''  supported   '' @ join '', '' (map provider_text PROVIDERS))))"

text \<open>The key, under the variable in capitals or in the profile's own spelling.\<close>

definition api_key_of :: "environment \<Rightarrow> string \<Rightarrow> string" where
  "api_key_of env active = (if env_value env (variableFor active) \<noteq> [] then env_value env (variableFor active)
     else env_value env (active @ ''_key''))"

definition unknown_profile :: "catalogue \<Rightarrow> string \<Rightarrow> string \<Rightarrow> js_error" where
  "unknown_profile cat selector active = ConfigurationError (ct_where cat @ '' selects the profile '' @ quoted active
     @ '', which it does not define.'' @ blank_line @ ''  known profiles   '' @ join '', '' (ct_known cat) @ blank_line
     @ ''Set '' @ quoted selector @ '' to one of those, or add '' @ quoted active @ '' under '' @ quoted ''profiles'' @ ''.'')"

definition unusable_name :: "catalogue \<Rightarrow> string \<Rightarrow> js_error" where
  "unusable_name cat active = ConfigurationError (''The LLM profile name '' @ quoted active @ '' in '' @ ct_where cat
     @ '' cannot be used.'' @ blank_line @ ''A profile name becomes the name of its key in .env '' @ em_dash @ '' '' @ quoted active
     @ '' would need '' @ variableFor active @ '' '' @ em_dash @ '' so it may contain only letters, digits and underscores, ''
     @ ''and must start with a letter.'')"

definition no_model :: "catalogue \<Rightarrow> string \<Rightarrow> js_error" where
  "no_model cat active = ConfigurationError (''The LLM profile '' @ quoted active @ '' in '' @ ct_where cat @ '' names no ''
     @ quoted ''model'' @ ''.'' @ blank_line @ ''The profile is where the model lives: an Assistant that carries its own overrides ''
     @ ''it, but the ones that do not ask for this.'')"

text \<open>
  A name every object inherits is found in the table as what is inherited, which has no provider; the check
  of the provider refuses it.
\<close>

definition raw_profile :: "catalogue \<Rightarrow> string \<Rightarrow> json" where
  "raw_profile cat active = (if has_key (ct_profiles cat) active then pget (ct_profiles cat) active
     else if inherited_text active \<noteq> None then JObj [] else JUndef)"

definition resolveProfile :: "catalogue \<Rightarrow> string \<Rightarrow> string \<Rightarrow> environment \<Rightarrow> llm_profile result" where
  "resolveProfile cat selector active env =
     (let raw = raw_profile cat active; where' = ct_where cat in
      if raw = JUndef then Inl (unknown_profile cat selector active)
      else if \<not> NAME active then Inl (unusable_name cat active)
      else
        bindR (row_prop raw ''provider'') (\<lambda>provider.
        bindR (provider_of active where' provider) (\<lambda>name.
        bindR (string_field (pget (obj_props raw) ''scriptFile'') DEFAULT_SCRIPT_FILE active ''scriptFile'' where') (\<lambda>scriptFile.
        bindR (string_field (pget (obj_props raw) ''baseUrl'') (DEFAULT_BASE_URL name) active ''baseUrl'' where') (\<lambda>baseUrl.
        bindR (string_field (pget (obj_props raw) ''model'') [] active ''model'' where') (\<lambda>modelId.
          if name \<noteq> ScriptedName \<and> modelId = [] then Inl (no_model cat active)
          else
            bindR (temperature_of active where' (pget (obj_props raw) ''temperature'')) (\<lambda>temperature.
            bindR (suffix_of active where' (pget (obj_props raw) ''systemSuffix'')) (\<lambda>systemSuffix.
              let apiKey = api_key_of env active;
                  requiresKey = name \<noteq> ScriptedName \<and> pget (obj_props raw) ''requiresKey'' \<noteq> JBool False in
              if requiresKey \<and> apiKey = [] then Inl (ConfigurationError (missingKeyMessage cat selector active name baseUrl modelId))
              else Inr \<lparr>lp_name = active, lp_provider = name, lp_baseUrl = baseUrl, lp_model = modelId,
                lp_temperature = temperature, lp_systemSuffix = systemSuffix, lp_scriptFile = scriptFile,
                lp_apiKey = apiKey, lp_apiKeyVariable = variableFor active\<rparr>))))))))"

definition none_active :: "catalogue \<Rightarrow> js_error" where
  "none_active cat = ConfigurationError (ct_where cat @ '' does not say which profile is active.'' @ blank_line
     @ ''  Set '' @ quoted ''active'' @ '' to one of: '' @ join '', '' (ct_known cat))"

definition loadLlmProfile :: "profile_files \<Rightarrow> string \<Rightarrow> environment \<Rightarrow> llm_profile result" where
  "loadLlmProfile files file' env = bindR (readCatalogue files file') (\<lambda>cat.
     case pget (obj_props (ct_parsed cat)) ''active'' of
       JStr active \<Rightarrow> if active = [] then Inl (none_active cat) else resolveProfile cat ''active'' active env
     | _ \<Rightarrow> Inl (none_active cat))"

definition vision_unnamed :: "catalogue \<Rightarrow> json \<Rightarrow> js_error" where
  "vision_unnamed cat vision = ConfigurationError (ct_where cat @ '' has a '' @ quoted ''vision'' @ '' that names no profile: ''
     @ stringify vision @ ''.'' @ blank_line @ ''  known profiles   '' @ join '', '' (ct_known cat) @ blank_line
     @ ''Set '' @ quoted ''vision'' @ '' to one of those, or remove the key altogether '' @ em_dash @ '' without it there is ''
     @ ''no vision model, reading a scan is unavailable, and an Assistant that meets a PDF ''
     @ ''with no text layer asks the User to type it instead.'')"

definition loadVisionProfile :: "profile_files \<Rightarrow> string \<Rightarrow> environment \<Rightarrow> llm_profile option result" where
  "loadVisionProfile files file' env = bindR (readCatalogue files file') (\<lambda>cat.
     let vision = pget (obj_props (ct_parsed cat)) ''vision'' in
     if nullish vision then Inr None
     else case vision of
       JStr name \<Rightarrow> if name = [] then Inl (vision_unnamed cat vision)
         else bindR (resolveProfile cat ''vision'' name env) (\<lambda>p. Inr (Some p))
     | _ \<Rightarrow> Inl (vision_unnamed cat vision))"

end
