(* ===== verification/Vision.thy ===== *)
theory Vision
  imports Profiles Gmail
begin

text \<open>
  The reader of scans over HTTP (\<open>runtime/src/llm/vision.ts\<close>), and what \<open>runtime/src/services.ts\<close> builds
  for a profile: the provider of the loop (\<open>buildProvider\<close>) and the reader of \<open>document.readScan\<close>.
\<close>

section \<open>base64\<close>

text \<open>\<open>buffer.toString("base64")\<close>: padded, never wrapped.\<close>

definition base64_char :: "nat \<Rightarrow> char" where
  "base64_char n = (if n < 26 then char_of (n + 65) else if n < 52 then char_of (n + 71) else if n < 62 then char_of (n - 4)
     else if n = 62 then CHR ''+'' else CHR ''/'')"

fun base64_of :: "nat list \<Rightarrow> string" where
  "base64_of (a # b # c # rest) = base64_char (a div 4) # base64_char (16 * (a mod 4) + b div 16)
     # base64_char (4 * (b mod 16) + c div 64) # base64_char (c mod 64) # base64_of rest"
| "base64_of [a, b] = [base64_char (a div 4), base64_char (16 * (a mod 4) + b div 16), base64_char (4 * (b mod 16)), CHR ''='']"
| "base64_of [a] = [base64_char (a div 4), base64_char (16 * (a mod 4)), CHR ''='', CHR ''='']"
| "base64_of [] = []"

definition base64 :: "string \<Rightarrow> string" where
  "base64 s = base64_of (map of_char s)"

lemma base64_examples: "base64 ''hello'' = ''aGVsbG8=''" "base64 ''hi!'' = ''aGkh''" "base64 ''h'' = ''aA==''"
  by code_simp+

text \<open>What was encoded, the decoder of the mailbox reads back.\<close>

lemma sextet_base64: "n < 64 \<Longrightarrow> sextet (base64_char n) = Some n"
  by (auto simp: sextet_def base64_char_def Let_def)

lemma base64_no_padding: "n < 64 \<Longrightarrow> base64_char n \<noteq> CHR ''=''"
proof -
  assume "n < 64"
  then have "of_char (base64_char n) \<noteq> (61 :: nat)" by (auto simp: base64_char_def)
  then show ?thesis by auto
qed

lemma octets_base64: "\<forall>n \<in> set ns. n < 256 \<Longrightarrow>
   octets (List.map_filter sextet (takeWhile (\<lambda>c. c \<noteq> CHR ''='') (base64_of ns))) = map char_of ns"
proof (induction ns rule: base64_of.induct)
  case (1 a b c rest)
  then have "a < 256" "b < 256" "c < 256" by simp_all
  then have "a div 4 < 64" "16 * (a mod 4) + b div 16 < 64" "4 * (b mod 16) + c div 64 < 64" "c mod 64 < 64" by auto
  moreover have "4 * (a div 4) + (16 * (a mod 4) + b div 16) div 16 = a" using \<open>b < 256\<close> by auto
  moreover have "16 * ((16 * (a mod 4) + b div 16) mod 16) + (4 * (b mod 16) + c div 64) div 4 = b"
    using \<open>b < 256\<close> \<open>c < 256\<close> by auto
  moreover have "64 * ((4 * (b mod 16) + c div 64) mod 4) + c mod 64 = c" using \<open>c < 256\<close> by auto
  ultimately show ?case using 1 by (simp add: List.map_filter_simps sextet_base64 base64_no_padding)
qed (auto simp: List.map_filter_simps sextet_base64 base64_no_padding)

lemma base64_round_trip: "base64url (base64 s) = s"
  using octets_base64 [of "map of_char s"] by (simp add: base64url_def base64_def comp_def)

section \<open>The reader\<close>

definition PROMPT :: string where
  "PROMPT = ''Transcribe the readable contents of this document as plain markdown. ''
     @ ''Preserve every figure, date and amount exactly as printed, and keep the reading order of the ''
     @ ''pages. Output the transcription only: no commentary, no preamble, no explanation.''"

definition MAX_TOKENS :: int where
  "MAX_TOKENS = 8000"

definition vision_body :: "string \<Rightarrow> string \<Rightarrow> json" where
  "vision_body modelId pdf = JObj [(''model'', JStr modelId), (''max_tokens'', JNum (num_of_int MAX_TOKENS)),
     (''messages'', JArr [JObj [(''role'', JStr ''user''), (''content'', JArr
        [JObj [(''type'', JStr ''document''), (''source'', JObj [(''type'', JStr ''base64''),
           (''media_type'', JStr ''application/pdf''), (''data'', JStr (base64 pdf))])],
         JObj [(''type'', JStr ''text''), (''text'', JStr PROMPT)]])]])]"

definition vision_request :: "string \<Rightarrow> string \<Rightarrow> string \<Rightarrow> string \<Rightarrow> http_post" where
  "vision_request baseUrl modelId apiKey pdf = \<lparr>hp_url = strip_slashes baseUrl @ ''/v1/messages'',
     hp_headers = [(''content-type'', ''application/json''), (''x-api-key'', apiKey), (''anthropic-version'', ''2023-06-01'')],
     hp_body = stringify (vision_body modelId pdf)\<rparr>"

definition vision_payload :: "json \<Rightarrow> vision_result result" where
  "vision_payload payload =
     bindR (row_prop payload ''content'') (\<lambda>content.
     bindR (method_items ''(payload.content ?? []).filter'' content) (\<lambda>blocks.
     bindR (blocks_of ''text'' blocks) (\<lambda>texts.
       Inr \<lparr>vr_text = block_text texts, vr_usage = usage_of ''input_tokens'' ''output_tokens'' payload\<rparr>)))"

definition vision_answer :: "http_answer \<Rightarrow> vision_result result" where
  "vision_answer a =
     (if \<not> http_ok a then (let message = http_refused ''Vision'' a in
        if isTransientStatus (ha_status a) then Inl (TransientLlmError message) else Inl (JsError ''Error'' message))
      else bindR (http_json a) vision_payload)"

definition anthropicVisionReader :: "(http_post \<Rightarrow> ('w, http_answer) io) \<Rightarrow> string \<Rightarrow> string \<Rightarrow> string \<Rightarrow> 'w vision_reader" where
  "anthropicVisionReader fetch baseUrl modelId apiKey = \<lparr>v_available = True, v_name = ''anthropic'',
     v_read = (\<lambda>pdf pageCount. bindE (fetch (vision_request baseUrl modelId apiKey pdf)) (\<lambda>a. liftR (vision_answer a)))\<rparr>"

definition wrong_vision_provider :: "llm_profile \<Rightarrow> js_error" where
  "wrong_vision_provider p = ConfigurationError (''The LLM profile '' @ quoted (lp_name p) @ '' is selected by '' @ quoted ''vision''
     @ '' in llm.json, but its provider is '' @ provider_text (lp_provider p) @ ''.'' @ blank_line
     @ ''  supported for vision   anthropic'' @ blank_line
     @ ''Reading a scan sends the PDF as an Anthropic `document` content block, and no ''
     @ ''other provider has an implementation here. Point '' @ quoted ''vision'' @ '' at an anthropic ''
     @ ''profile, or remove the key altogether '' @ em_dash @ '' without it there is no vision model, ''
     @ ''reading a scan is unavailable, and an Assistant that meets a PDF with no text ''
     @ ''layer asks the User to type it instead.'')"

text \<open>\<open>requiresKey\<close> is an optional field the profiles never carry.\<close>

definition createVisionReader :: "(http_post \<Rightarrow> ('w, http_answer) io) \<Rightarrow> llm_profile option \<Rightarrow> string option \<Rightarrow> bool option
    \<Rightarrow> 'w vision_reader result" where
  "createVisionReader fetch profile apiKey requiresKey = (case profile of
     None \<Rightarrow> Inr NULL_VISION_READER
   | Some p \<Rightarrow>
       if lp_provider p \<noteq> AnthropicName then Inl (wrong_vision_provider p)
       else (let key = coalesce apiKey (lp_apiKey p) in
         if key = [] \<and> requiresKey \<noteq> Some False then Inr NULL_VISION_READER
         else Inr (anthropicVisionReader fetch (lp_baseUrl p) (lp_model p) key)))"

section \<open>What services.ts builds\<close>

text \<open>The recorded provider reads its file; it is a parameter here and modelled in the theory of the providers' interface.\<close>

record 'w transports =
  tp_fetch :: "http_post \<Rightarrow> ('w, http_answer) io"
  tp_sha1 :: "string \<Rightarrow> string"
  tp_scripted :: "string \<Rightarrow> llm_request \<Rightarrow> ('w, llm_response) io"

definition openai_of :: "llm_profile \<Rightarrow> openai_provider" where
  "openai_of p = \<lparr>op_baseUrl = lp_baseUrl p, op_apiKey = lp_apiKey p, op_temperature = lp_temperature p, op_maxTokens = 4096,
     op_systemSuffix = lp_systemSuffix p\<rparr>"

definition anthropic_of :: "llm_profile \<Rightarrow> anthropic_provider" where
  "anthropic_of p = \<lparr>ap_baseUrl = lp_baseUrl p, ap_apiKey = lp_apiKey p, ap_systemSuffix = lp_systemSuffix p\<rparr>"

definition buildProvider :: "'w transports \<Rightarrow> llm_profile \<Rightarrow> llm_request \<Rightarrow> ('w, llm_response) io" where
  "buildProvider t p = (case lp_provider p of
     OpenAiName \<Rightarrow> openai_complete (tp_sha1 t) (tp_fetch t) (openai_of p)
   | AnthropicName \<Rightarrow> anthropic_complete (tp_fetch t) (anthropic_of p)
   | ScriptedName \<Rightarrow> tp_scripted t (lp_scriptFile p))"

text \<open>The reader \<open>buildRuntime\<close> hands to the Operations.\<close>

definition visionReaderOf :: "'w transports \<Rightarrow> llm_profile option \<Rightarrow> 'w vision_reader result" where
  "visionReaderOf t profile = createVisionReader (tp_fetch t) profile (map_option lp_apiKey profile) None"

end
