(* ===== verification/ProviderProperties.thy ===== *)
theory ProviderProperties
  imports Vision LoopOutcome
begin

text \<open>
  What the providers promise the loop (\<open>runtime/src/llm/openai.ts\<close>, \<open>anthropic.ts\<close>, \<open>profiles.ts\<close>,
  \<open>vision.ts\<close>): an answer is only what ended as one, a call read out of the text names a tool that was
  offered, a record in order stays paired on the wire, and a profile that was accepted can be used.
\<close>

section \<open>What ends as an answer\<close>

text \<open>The reason an answer of 2xx gives for its end.\<close>

definition answer_json_of :: "http_answer \<Rightarrow> json" where
  "answer_json_of a = (case http_json a of Inr v \<Rightarrow> v | Inl e \<Rightarrow> JUndef)"

definition first_choice :: "http_answer \<Rightarrow> json" where
  "first_choice a = first_of (pget (obj_props (answer_json_of a)) ''choices'')"

definition end_reason :: "llm_profile \<Rightarrow> http_answer \<Rightarrow> json" where
  "end_reason p a = (if lp_provider p = OpenAiName then pget (obj_props (first_choice a)) ''finish_reason''
     else pget (obj_props (answer_json_of a)) ''stop_reason'')"

definition clean_reasons :: "llm_profile \<Rightarrow> string list" where
  "clean_reasons p = (if lp_provider p = OpenAiName then [''stop''] else [''end_turn'', ''stop_sequence''])"

text \<open>The calls of an answer that a gateway parsed.\<close>

definition structured_calls :: "http_answer \<Rightarrow> llm_tool_call list" where
  "structured_calls a = (case openai_calls (pget (obj_props (first_choice a)) ''message'') of Inr calls \<Rightarrow> calls | Inl e \<Rightarrow> [])"

definition post_of :: "llm_profile \<Rightarrow> llm_request \<Rightarrow> http_post" where
  "post_of p rq = (if lp_provider p = OpenAiName then openai_request (openai_of p) rq else anthropic_request (anthropic_of p) rq)"

lemma bindR_Inr: "bindR r k = Inr y \<longleftrightarrow> (\<exists>x. r = Inr x \<and> k x = Inr y)"
  by (cases r) simp_all

lemma row_prop_Inr: "row_prop row key = Inr v \<Longrightarrow> v = pget (obj_props row) key"
  by (simp add: row_prop_def split: if_splits)

lemma finished_response_ends:
  "(r_finishReason (finished_response clean capped_by field reason text calls usage) = LWantsTools) = (calls \<noteq> [])"
  "(r_finishReason (finished_response clean capped_by field reason text calls usage) = LError)
     = (r_error (finished_response clean capped_by field reason text calls usage) \<noteq> None)"
  "r_finishReason (finished_response clean capped_by field reason text calls usage) = LAnswered \<Longrightarrow>
     calls = [] \<and> (nullish reason \<or> reason \<in> JStr ` set ([] # clean))"
  "r_toolCalls (finished_response clean capped_by field reason text calls usage) = calls"
  "r_text (finished_response clean capped_by field reason text calls usage) = text"
  by (auto simp: finished_response_def abnormal_reason_def Let_def split: if_splits)

lemma refused_response_ends:
  "refused_response a = Inr resp \<Longrightarrow> r_finishReason resp = LError \<and> r_error resp \<noteq> None \<and> r_toolCalls resp = []"
  by (auto simp: refused_response_def Let_def split: if_splits)

lemma find_in: "find P xs = Some x \<Longrightarrow> x \<in> set xs \<and> P x"
  by (induction xs) (auto split: if_splits)

lemma offered_tool_name: "offered_tool tools name = Some tool \<Longrightarrow> name \<in> ts_name ` set tools"
  using find_in [of _ "rev tools"] by (fastforce simp: offered_tool_def)

lemma add_call_offered:
  "\<forall>c \<in> set calls. tc_name c \<in> ts_name ` set tools \<Longrightarrow>
   \<forall>c \<in> set (add_call sha1 tools found calls). tc_name c \<in> ts_name ` set tools"
  using offered_tool_name by (auto simp: add_call_def split: prod.splits option.splits)

lemma add_json_call_offered:
  "\<forall>c \<in> set calls. tc_name c \<in> ts_name ` set tools \<Longrightarrow>
   \<forall>c \<in> set (add_json_call sha1 tools body calls). tc_name c \<in> ts_name ` set tools"
  using offered_tool_name [of tools] by (auto simp: add_json_call_def split: json.splits option.splits)

lemma fold_keeps: "P a \<Longrightarrow> (\<And>x b. P b \<Longrightarrow> P (f x b)) \<Longrightarrow> P (fold f xs a)"
  by (induction xs arbitrary: a) simp_all

lemma recovered_calls_are_offered:
  assumes "c \<in> set (toolCallsFromMarkup sha1 text tools)"
  shows "tc_name c \<in> ts_name ` set tools"
proof -
  let ?ok = "\<lambda>calls. \<forall>c \<in> set calls. tc_name c \<in> ts_name ` set tools"
  have "?ok (toolCallsFromMarkup sha1 text tools)"
    unfolding toolCallsFromMarkup_def
    by (intro fold_keeps [where P = ?ok] add_call_offered add_json_call_offered) simp_all
  with assms show ?thesis by blast
qed

text \<open>What holds of a response, given the reason, the clean reasons and the calls the gateway parsed.\<close>

definition honest :: "json \<Rightarrow> string list \<Rightarrow> llm_response \<Rightarrow> bool" where
  "honest reason clean resp \<longleftrightarrow>
     (r_finishReason resp = LWantsTools) = (r_toolCalls resp \<noteq> []) \<and>
     (r_finishReason resp = LError) = (r_error resp \<noteq> None) \<and>
     (r_finishReason resp = LAnswered \<longrightarrow> nullish reason \<or> reason \<in> JStr ` set ([] # clean))"

lemma honest_finished: "honest reason clean (finished_response clean capped_by field reason text calls usage)"
  using finished_response_ends [of clean capped_by field reason "text" calls usage] by (auto simp: honest_def)

lemma openai_choice_honest:
  assumes "openai_choice sha1 rq payload choice = Inr resp"
  shows "honest (pget (obj_props choice) ''finish_reason'') [''stop''] resp
    \<and> (r_finishReason resp = LAnswered \<longrightarrow> \<not> MALFORMED_TOOL_CALL (r_text resp))
    \<and> (openai_calls (pget (obj_props choice) ''message'') = Inr (r_toolCalls resp)
       \<or> (\<forall>c \<in> set (r_toolCalls resp). tc_name c \<in> ts_name ` set (rq_tools rq)))"
proof -
  let ?message = "pget (obj_props choice) ''message''" and ?reason = "pget (obj_props choice) ''finish_reason''"
  let ?txt = "text_of [] (pget (obj_props ?message) ''content'')" and ?usage = "usage_of ''prompt_tokens'' ''completion_tokens'' payload"
  from assms obtain calls where calls: "openai_calls ?message = Inr calls"
    and r: "(if calls = [] \<and> MALFORMED_TOOL_CALL ?txt then
         (if toolCallsFromMarkup sha1 ?txt (rq_tools rq) \<noteq> [] then Inr \<lparr>r_text = withoutMarkup ?txt,
            r_toolCalls = toolCallsFromMarkup sha1 ?txt (rq_tools rq), r_finishReason = LWantsTools, r_error = None, r_usage = ?usage\<rparr>
          else Inl markup_error)
       else Inr (finished_response [''stop''] ''length'' ''finish_reason'' ?reason ?txt calls ?usage)) = Inr resp"
    by (auto simp: openai_choice_def bindR_Inr Let_def dest!: row_prop_Inr)
  show ?thesis
  proof (cases "calls = [] \<and> MALFORMED_TOOL_CALL ?txt")
    case True
    with r have "resp = \<lparr>r_text = withoutMarkup ?txt, r_toolCalls = toolCallsFromMarkup sha1 ?txt (rq_tools rq),
        r_finishReason = LWantsTools, r_error = None, r_usage = ?usage\<rparr>" and "toolCallsFromMarkup sha1 ?txt (rq_tools rq) \<noteq> []"
      by (simp_all split: if_splits)
    then show ?thesis using recovered_calls_are_offered by (auto simp: honest_def)
  next
    case False
    with r have resp: "resp = finished_response [''stop''] ''length'' ''finish_reason'' ?reason ?txt calls ?usage" by auto
    then show ?thesis
      using False calls honest_finished finished_response_ends [of "[''stop'']" "''length''" "''finish_reason''" ?reason ?txt calls ?usage]
      by auto
  qed
qed

lemma refused_honest: "refused_response a = Inr resp \<Longrightarrow> honest reason clean resp \<and> r_finishReason resp \<noteq> LAnswered \<and> r_toolCalls resp = []"
  using refused_response_ends [of a resp] by (auto simp: honest_def)

lemma openai_response_honest:
  assumes "openai_response sha1 rq a = Inr resp"
  shows "honest (pget (obj_props (first_choice a)) ''finish_reason'') [''stop''] resp
    \<and> (r_finishReason resp = LAnswered \<longrightarrow> http_ok a \<and> \<not> MALFORMED_TOOL_CALL (r_text resp))
    \<and> (r_toolCalls resp = structured_calls a \<or> (\<forall>c \<in> set (r_toolCalls resp). tc_name c \<in> ts_name ` set (rq_tools rq)))"
proof (cases "http_ok a")
  case True
  with assms obtain payload choices where p: "http_json a = Inr payload" and c: "row_prop payload ''choices'' = Inr choices"
    and o': "openai_choice sha1 rq payload (first_of choices) = Inr resp"
    by (auto simp: openai_response_def openai_payload_def bindR_Inr Let_def split: if_splits)
  have "first_of choices = first_choice a" using p row_prop_Inr [OF c] by (simp add: first_choice_def answer_json_of_def)
  with openai_choice_honest [OF o'] True show ?thesis by (auto simp: structured_calls_def)
next
  case False
  with assms have "refused_response a = Inr resp" by (simp add: openai_response_def)
  from refused_honest [OF this] show ?thesis by simp
qed

lemma anthropic_response_honest:
  assumes "anthropic_response a = Inr resp"
  shows "honest (pget (obj_props (answer_json_of a)) ''stop_reason'') [''end_turn'', ''stop_sequence''] resp
    \<and> (r_finishReason resp = LAnswered \<longrightarrow> http_ok a)"
proof (cases "http_ok a")
  case True
  with assms obtain payload where p: "http_json a = Inr payload" and r: "anthropic_payload payload = Inr resp"
    by (auto simp: anthropic_response_def bindR_Inr)
  from r obtain prose calls usage where "resp = finished_response [''end_turn'', ''stop_sequence''] ''max_tokens'' ''stop_reason''
      (pget (obj_props payload) ''stop_reason'') prose calls usage"
    by (auto simp: anthropic_payload_def bindR_Inr)
  then show ?thesis using p True honest_finished by (simp add: answer_json_of_def)
next
  case False
  with assms have "refused_response a = Inr resp" by (simp add: anthropic_response_def)
  from refused_honest [OF this] show ?thesis by simp
qed


text \<open>A gateway that left a call in the text: it is read out, and nothing of its markup stays.\<close>

definition sample_tool :: tool_schema where
  "sample_tool = \<lparr>ts_name = ''pay'', ts_description = [], ts_parameters = JObj [(''properties'', JObj
     [(''amount'', JObj [(''type'', JStr ''number'')])])]\<rparr>"

definition sample_rq :: llm_request where
  "sample_rq = \<lparr>rq_model = ''m'', rq_messages = [], rq_tools = [sample_tool]\<rparr>"

definition sample_profile :: llm_profile where
  "sample_profile = \<lparr>lp_name = ''local'', lp_provider = OpenAiName, lp_baseUrl = ''http://x/'', lp_model = ''m'', lp_temperature = None,
     lp_systemSuffix = None, lp_scriptFile = [], lp_apiKey = [], lp_apiKeyVariable = ''LOCAL_KEY''\<rparr>"

definition marked_up :: string where
  "marked_up = ''ok <function=pay><parameter=amount> 5 </parameter></function></tool_call>''"

definition sample_transports :: "unit transports" where
  "sample_transports = \<lparr>tp_fetch = (\<lambda>q. returnE \<lparr>ha_status = 200, ha_body = Inr (stringify (JObj [(''choices'', JArr
     [JObj [(''message'', JObj [(''content'', JStr marked_up)]), (''finish_reason'', JStr ''stop'')]])]))\<rparr>),
     tp_sha1 = (\<lambda>s. ''0123456789''), tp_scripted = (\<lambda>f rq. throwE (Thrown []))\<rparr>"

definition sample_response :: llm_response where
  "sample_response = \<lparr>r_text = ''ok'', r_toolCalls = [\<lparr>tc_id = ''markup_0_01234567'', tc_name = ''pay'',
     tc_arguments = JObj [(''amount'', JNum (Fin 5 0))]\<rparr>], r_finishReason = LWantsTools, r_error = None, r_usage = None\<rparr>"

lemma sample_run: "buildProvider sample_transports sample_profile sample_rq () = (Inr sample_response, ())"
  by code_simp


text \<open>A parameter of a number that was left empty becomes zero, and the tool layer has nothing to reject.\<close>

lemma empty_number_becomes_zero: "coerce [] ''number'' = JNum (Fin 0 0)"
  by code_simp

text \<open>A transcription that was cut at the cap on its tokens, or refused, reads as a whole one.\<close>

lemma cut_transcription_reads_whole:
  "vision_payload (JObj [(''content'', JArr [JObj [(''type'', JStr ''text''), (''text'', JStr ''Page 1'')]]), (''stop_reason'', JStr ''max_tokens'')])
     = Inr \<lparr>vr_text = ''Page 1'', vr_usage = None\<rparr>"
  by code_simp

section \<open>The wire\<close>

text \<open>
  Chat completions: the calls of a message are answered by the tool messages right after it. Messages: the
  blocks \<open>tool_use\<close> of a message are answered by the blocks \<open>tool_result\<close> of the messages right after it.
\<close>

definition wire_ids :: "json \<Rightarrow> json list" where
  "wire_ids m = (case pget (obj_props m) ''tool_calls'' of JArr calls \<Rightarrow> map (\<lambda>c. pget (obj_props c) ''id'') calls | _ \<Rightarrow> [])"

definition wire_role :: "json \<Rightarrow> json" where
  "wire_role m = pget (obj_props m) ''role''"

fun wire_answered :: "json list \<Rightarrow> json list \<Rightarrow> bool" where
  "wire_answered pending [] = (pending = [])"
| "wire_answered [] (m # ms) = (wire_role m \<noteq> JStr ''tool'' \<and> wire_answered (wire_ids m) ms)"
| "wire_answered (p # ps) (m # ms) = (wire_role m = JStr ''tool'' \<and> pget (obj_props m) ''tool_call_id'' = p \<and> wire_answered ps ms)"

definition block_ids :: "string \<Rightarrow> string \<Rightarrow> json \<Rightarrow> json list" where
  "block_ids type key m = (case pget (obj_props m) ''content'' of
     JArr blocks \<Rightarrow> map (\<lambda>b. pget (obj_props b) key) (filter (\<lambda>b. pget (obj_props b) ''type'' = JStr type) blocks) | _ \<Rightarrow> [])"

fun blocks_answered :: "json list \<Rightarrow> json list \<Rightarrow> bool" where
  "blocks_answered pending [] = (pending = [])"
| "blocks_answered [] (m # ms) = (block_ids ''tool_result'' ''tool_use_id'' m = [] \<and> blocks_answered (block_ids ''tool_use'' ''id'' m) ms)"
| "blocks_answered (p # ps) (m # ms) = (wire_role m = JStr ''user'' \<and> block_ids ''tool_result'' ''tool_use_id'' m = [p]
     \<and> block_ids ''tool_use'' ''id'' m = [] \<and> blocks_answered ps ms)"

text \<open>Only the assistant calls.\<close>

definition assistant_calls :: "llm_message \<Rightarrow> bool" where
  "assistant_calls m \<longleftrightarrow> (calls_made m \<noteq> [] \<longrightarrow> m_role m = ''assistant'')"

lemma wire_ids_message: "assistant_calls m \<Longrightarrow> m_role m \<noteq> ''tool'' \<Longrightarrow> wire_ids (wire_message m) = map (JStr o tc_id) (calls_made m)"
  by (auto simp: wire_message_def wire_ids_def wire_call_def obj_props_def assistant_calls_def)

lemma wire_role_message: "wire_role (wire_message m) = JStr (m_role m)"
  by (simp add: wire_message_def wire_role_def obj_props_def)

lemma answered_on_the_wire:
  "answered ps ms \<Longrightarrow> list_all assistant_calls ms \<Longrightarrow> wire_answered (map JStr ps) (map wire_message ms)"
proof (induction ps ms rule: answered.induct)
  case (2 m ms)
  then show ?case by (simp add: wire_ids_message wire_role_message calls_made_def comp_def)
next
  case (3 p ps m ms)
  then show ?case by (simp add: wire_role_message) (simp add: wire_message_def obj_props_def opt_text_def)
qed simp

lemma block_ids_plain: "m_role m \<noteq> ''tool'' \<Longrightarrow> block_ids ''tool_result'' ''tool_use_id'' (anthropic_message m) = []"
  by (auto simp: anthropic_message_def block_ids_def obj_props_def tool_use_def filter_empty_conv)

lemma block_ids_calls:
  "assistant_calls m \<Longrightarrow> m_role m \<noteq> ''tool'' \<Longrightarrow> block_ids ''tool_use'' ''id'' (anthropic_message m) = map (JStr o tc_id) (calls_made m)"
  by (auto simp: anthropic_message_def block_ids_def obj_props_def tool_use_def assistant_calls_def filter_map comp_def)

lemma block_ids_tool:
  "m_role m = ''tool'' \<Longrightarrow> m_toolCallId m = Some p \<Longrightarrow> wire_role (anthropic_message m) = JStr ''user''
     \<and> block_ids ''tool_result'' ''tool_use_id'' (anthropic_message m) = [JStr p] \<and> block_ids ''tool_use'' ''id'' (anthropic_message m) = []"
  by (simp add: anthropic_message_def block_ids_def obj_props_def opt_text_def wire_role_def)

lemma answered_in_blocks:
  "answered ps ms \<Longrightarrow> list_all assistant_calls ms \<Longrightarrow>
   blocks_answered (map JStr ps) (map anthropic_message (filter (\<lambda>m. m_role m \<noteq> ''system'') ms))"
proof (induction ps ms rule: answered.induct)
  case (2 m ms)
  show ?case
  proof (cases "m_role m = ''system''")
    case True
    with 2 have "calls_made m = []" by (auto simp: assistant_calls_def)
    with 2 True show ?thesis by (simp add: calls_made_def)
  next
    case False
    with 2 show ?thesis by (simp add: block_ids_plain block_ids_calls calls_made_def comp_def)
  qed
qed (simp_all add: block_ids_tool)

lemma entry_messages_callers: "list_all assistant_calls (entry_messages e)"
  by (simp add: entry_messages_def Let_def plain_message_def assistant_calls_def calls_made_def)

lemma built_callers: "list_all assistant_calls (buildMessages a c)"
  using entry_messages_callers
  by (auto simp: buildMessages_def plain_message_def assistant_calls_def calls_made_def list_all_iff)

lemma suffix_on_system:
  "withSystemSuffix (plain_message ''system'' s # ms) suffix
     = plain_message ''system'' (if truthy suffix then s @ nl @ nl @ the suffix else s) # ms"
  by (simp add: withSystemSuffix_def plain_message_def extract_Cons_code)

text \<open>
  C14. What a provider sends for a record in order keeps its calls paired on the wire, whichever provider and
  whatever sentence its profile adds: among the chat completions each call is answered by the tool messages
  right after it, among the messages each \<open>tool_use\<close> by the \<open>tool_result\<close> right after it.
\<close>

theorem calls_stay_paired_on_the_wire:
  assumes "record_ok i None c" and "rq_messages rq = buildMessages a c"
  shows "(\<exists>ws. pget (obj_props (openai_body p rq)) ''messages'' = JArr ws \<and> wire_answered [] ws)
    \<and> (\<exists>ws. pget (obj_props (anthropic_body q rq)) ''messages'' = JArr ws \<and> blocks_answered [] ws)"
proof (rule conjI)
  have m: "answered [] (buildMessages a c)" and k: "list_all assistant_calls (buildMessages a c)"
    using answered_messages [OF assms(1)] built_callers by auto
  have s: "answered [] (withSystemSuffix (buildMessages a c) suffix) \<and> list_all assistant_calls (withSystemSuffix (buildMessages a c) suffix)" for suffix
    using m k by (simp add: buildMessages_def suffix_on_system) (simp add: plain_message_def assistant_calls_def calls_made_def)
  show "\<exists>ws. pget (obj_props (openai_body p rq)) ''messages'' = JArr ws \<and> wire_answered [] ws"
    using answered_on_the_wire [of "[]" "withSystemSuffix (buildMessages a c) (op_systemSuffix p)"] s
    by (simp add: openai_body_def obj_props_def pget_append assms(2) split: option.splits)
  show "\<exists>ws. pget (obj_props (anthropic_body q rq)) ''messages'' = JArr ws \<and> blocks_answered [] ws"
    using answered_in_blocks [OF m k] by (simp add: anthropic_body_def obj_props_def pget_append assms(2))
qed

definition settled_record :: conversation where
  "settled_record = interrupted\<lparr>entries := Some (entry_list interrupted @ [(result_entry ''read'' ''done'' (call_key ''c'' 2))\<lparr>e_seq := Some 3\<rparr>])\<rparr>"

definition settled_rq :: llm_request where
  "settled_rq = \<lparr>rq_model = ''m'', rq_messages = buildMessages (data clerk) settled_record, rq_tools = []\<rparr>"

lemma settled_in_order: "record_ok ''c'' None settled_record"
  by code_simp

theorem calls_stay_paired_on_the_wire_witness:
  "rq_messages settled_rq = buildMessages (data clerk) settled_record
    \<and> (\<exists>ws. pget (obj_props (openai_body (openai_of sample_profile) settled_rq)) ''messages'' = JArr ws \<and> wire_answered [] ws)
    \<and> (\<exists>ws. pget (obj_props (anthropic_body (anthropic_of sample_profile) settled_rq)) ''messages'' = JArr ws \<and> blocks_answered [] ws)"
proof -
  have m: "rq_messages settled_rq = buildMessages (data clerk) settled_record" by (simp add: settled_rq_def)
  from calls_stay_paired_on_the_wire [OF settled_in_order m] m show ?thesis by blast
qed

section \<open>Profiles\<close>

text \<open>
  A profile that was accepted can be used: its name can name a variable, it has a model unless it replays a
  script, a finite temperature and a sentence that is not empty if any, and a key of the environment unless the
  file says that it needs none.
\<close>

lemma resolved_profile_is_usable:
  assumes "resolveProfile cat selector active env = Inr p"
  shows "lp_name p = active \<and> NAME active \<and> (lp_provider p \<noteq> ScriptedName \<longrightarrow> lp_model p \<noteq> [])
    \<and> (\<forall>t. lp_temperature p = Some t \<longrightarrow> is_finite_num t) \<and> (\<forall>s. lp_systemSuffix p = Some s \<longrightarrow> s \<noteq> [])
    \<and> lp_apiKey p = api_key_of env active \<and> (lp_apiKey p = [] \<longrightarrow> keyless cat active)"
proof -
  let ?raw = "raw_profile cat active"
  from assms obtain provider where pr: "row_prop ?raw ''provider'' = Inr provider"
    and n: "provider_of active (ct_where cat) provider = Inr (lp_provider p)"
    and t: "temperature_of active (ct_where cat) (pget (obj_props ?raw) ''temperature'') = Inr (lp_temperature p)"
    and s: "suffix_of active (ct_where cat) (pget (obj_props ?raw) ''systemSuffix'') = Inr (lp_systemSuffix p)"
    and rest: "lp_name p = active" "NAME active" "lp_provider p \<noteq> ScriptedName \<longrightarrow> lp_model p \<noteq> []"
      "lp_apiKey p = api_key_of env active"
      "lp_apiKey p = [] \<longrightarrow> lp_provider p = ScriptedName \<or> pget (obj_props ?raw) ''requiresKey'' = JBool False"
    by (auto simp: resolveProfile_def Let_def bindR_Inr split: if_splits)
  have "provider = pget (obj_props ?raw) ''provider''" using row_prop_Inr [OF pr] .
  moreover have "lp_provider p = ScriptedName \<Longrightarrow> provider = JStr ''scripted''"
    using n by (auto simp: provider_of_def PROVIDERS_def split: if_splits)
  moreover have "obj_props ?raw = obj_props (pget (ct_profiles cat) active)"
    by (auto simp: raw_profile_def obj_props_def pget_absent)
  ultimately have "lp_apiKey p = [] \<longrightarrow> keyless cat active" using rest(5) by (auto simp: keyless_def Let_def)
  moreover have "is_finite_num u" if "lp_temperature p = Some u" for u
    using t that by (auto simp: temperature_of_def is_finite_json_def js_number_def split: if_splits json.splits)
  moreover have "u \<noteq> []" if "lp_systemSuffix p = Some u" for u
    using s that by (auto simp: suffix_of_def split: if_splits json.splits)
  ultimately show ?thesis using rest by blast
qed

text \<open>
  Where a profile reads scans, \<open>document.readScan\<close> is available exactly when the profile has a key; any
  provider but the one that has a reader is refused while the Runtime starts.
\<close>

lemma vision_reader_available:
  "visionReaderOf t None = Inr NULL_VISION_READER"
  "lp_provider p \<noteq> AnthropicName \<Longrightarrow> visionReaderOf t (Some p) = Inl (wrong_vision_provider p)"
  "lp_provider p = AnthropicName \<Longrightarrow> \<exists>r. visionReaderOf t (Some p) = Inr r \<and> v_available r = (lp_apiKey p \<noteq> [])"
  by (auto simp: visionReaderOf_def createVisionReader_def anthropicVisionReader_def NULL_VISION_READER_def Let_def)

end
