(* ===== verification/Transport.thy ===== *)
theory Transport
  imports Providers
begin

text \<open>
  The ThingStore and the Content Store over HTTP: \<open>A12Client\<close> (\<open>runtime/src/a12/client.ts\<close>) with its login,
  its batches of JSON-RPC and its operations, and \<open>ContentStoreClient\<close> (\<open>runtime/src/a12/content.ts\<close>), which
  shares its token. \<open>fetch\<close>, the clock and the stack of an error are parameters. The state is the token the
  client keeps; it also records every exchange, in order. Time limits and logging are left out, and the number
  of all hits of a query, which nothing uses.
\<close>

section \<open>The exchange\<close>

record store_request =
  sq_method :: string
  sq_url :: string
  sq_headers :: "(string \<times> string) list"
  sq_body :: string

record client_options =
  co_baseUrl :: string
  co_username :: string
  co_password :: string
  co_keycloakUrl :: string
  co_keycloakRealm :: string
  co_keycloakClientId :: string
  co_locale :: "string option"

record 'w transport_deps =
  td_options :: client_options
  td_fetch :: "store_request \<Rightarrow> ('w, http_answer) io"
  td_now :: "'w \<Rightarrow> int"
  td_stack :: "js_error \<Rightarrow> string"

record 'w session =
  ss_token :: "string option"
  ss_log :: "(store_request \<times> http_answer result) list"
  ss_world :: 'w

definition store_fetch :: "'w transport_deps \<Rightarrow> store_request \<Rightarrow> ('w session, http_answer) io" where
  "store_fetch deps q = (\<lambda>s. case td_fetch deps q (ss_world s) of
     (r, w) \<Rightarrow> (r, s\<lparr>ss_world := w, ss_log := ss_log s @ [(q, r)]\<rparr>))"

definition body_text :: "http_answer \<Rightarrow> string" where
  "body_text a = (case ha_body a of Inr text \<Rightarrow> text | Inl e \<Rightarrow> [])"

definition base_of :: "'w transport_deps \<Rightarrow> string" where
  "base_of deps = strip_slashes (co_baseUrl (td_options deps))"

definition locale_of :: "'w transport_deps \<Rightarrow> string" where
  "locale_of deps = coalesce (co_locale (td_options deps)) ''en''"

section \<open>The token\<close>

definition login_request :: "'w transport_deps \<Rightarrow> store_request" where
  "login_request deps = (let options = td_options deps in
     \<lparr>sq_method = ''POST'', sq_url = strip_slashes (co_keycloakUrl options) @ ''/realms/'' @ co_keycloakRealm options
        @ ''/protocol/openid-connect/token'',
      sq_headers = [(''Content-Type'', ''application/x-www-form-urlencoded''), (''Accept'', ''application/json'')],
      sq_body = query_string [(''grant_type'', ''password''), (''client_id'', co_keycloakClientId options),
        (''username'', co_username options), (''password'', co_password options)]\<rparr>)"

definition granted_token :: "'w transport_deps \<Rightarrow> http_answer \<Rightarrow> string result" where
  "granted_token deps response =
     (if \<not> http_ok response then Inl (JsError ''Error'' (''Login as '' @ co_username (td_options deps) @ '' failed: HTTP ''
        @ string_of_int (ha_status response) @ '' '' @ take 200 (body_text response)))
      else bindR (http_json response) (\<lambda>payload. bindR (row_prop payload ''access_token'') (\<lambda>token.
        if \<not> json_truthy token then Inl (JsError ''Error'' ''Keycloak accepted the credentials but returned no access_token'')
        else Inr (js_string token))))"

definition login :: "'w transport_deps \<Rightarrow> ('w session, unit) io" where
  "login deps = bindE (store_fetch deps (login_request deps)) (\<lambda>response.
     bindE (liftR (granted_token deps response)) (\<lambda>token. modifyE (\<lambda>s. s\<lparr>ss_token := Some token\<rparr>)))"

definition ensureToken :: "'w transport_deps \<Rightarrow> ('w session, string) io" where
  "ensureToken deps = bindE (getE ss_token) (\<lambda>token.
     bindE (if truthy token then returnE () else login deps) (\<lambda>_. getE (\<lambda>s. coalesce (ss_token s) ''undefined'')))"

definition currentToken :: "'w transport_deps \<Rightarrow> ('w session, string) io" where
  "currentToken deps = ensureToken deps"

definition invalidateToken :: "('w session, unit) io" where
  "invalidateToken = modifyE (\<lambda>s. s\<lparr>ss_token := None\<rparr>)"

text \<open>A request with the token; once more, after a new login, when the answer is 401.\<close>

definition with_token :: "'w transport_deps \<Rightarrow> (string \<Rightarrow> store_request) \<Rightarrow> ('w session, http_answer) io" where
  "with_token deps request_with =
     bindE (currentToken deps) (\<lambda>token.
     bindE (store_fetch deps (request_with token)) (\<lambda>first.
       if ha_status first = 401
       then bindE invalidateToken (\<lambda>_. bindE (currentToken deps) (\<lambda>token'. store_fetch deps (request_with token')))
       else returnE first))"

section \<open>JSON-RPC\<close>

record rpc_request =
  rr_id :: string
  rr_method :: string
  rr_params :: json

definition ellipsis :: string where
  "ellipsis = [CHR 0xE2, CHR 0x80, CHR 0xA6]"

text \<open>\<open>replace(/\s+/g, " ").trim()\<close>\<close>

fun one_line :: "string \<Rightarrow> string" where
  "one_line [] = []"
| "one_line (c # cs) = (if is_space c then (case one_line cs of [] \<Rightarrow> [CHR '' ''] | d # ds \<Rightarrow> if d = CHR '' '' then d # ds else CHR '' '' # d # ds)
     else c # one_line cs)"

definition reasonOf :: "json \<Rightarrow> string option result" where
  "reasonOf rpcError = (case pget (obj_props (pget (obj_props (pget (obj_props rpcError) ''data'')) ''description'')) ''default'' of
     JStr s \<Rightarrow> if s = [] then Inr None
       else (let oneLine = trim (one_line s) in Inr (Some (if 500 < length oneLine then take 500 oneLine @ ellipsis else oneLine)))
   | v \<Rightarrow> if json_truthy v then Inl (JsError ''TypeError'' ''description.replace is not a function'') else Inr None)"

definition rpc_error :: "string \<Rightarrow> json \<Rightarrow> js_error" where
  "rpc_error method rpcError = (case reasonOf rpcError of
     Inl e \<Rightarrow> e
   | Inr reason \<Rightarrow> JsError ''A12RpcError'' (method @ '' failed: '' @ js_string (pget (obj_props rpcError) ''message'')
       @ '' (code '' @ js_string (pget (obj_props rpcError) ''code'') @ '')''
       @ (if truthy reason then '' '' @ em_dash @ '' '' @ the reason else [])))"

definition rpc_body :: "rpc_request list \<Rightarrow> string" where
  "rpc_body requests = stringify (JArr (map (\<lambda>r. JObj [(''jsonrpc'', JStr ''2.0''), (''id'', JStr (rr_id r)), (''method'', JStr (rr_method r)),
     (''params'', rr_params r)]) requests))"

definition rpc_url :: "'w transport_deps \<Rightarrow> string" where
  "rpc_url deps = base_of deps @ ''/api/v2/rpc''"

definition rpc_post :: "'w transport_deps \<Rightarrow> rpc_request list \<Rightarrow> string \<Rightarrow> store_request" where
  "rpc_post deps requests token = \<lparr>sq_method = ''POST'', sq_url = rpc_url deps,
     sq_headers = [(''Accept'', ''application/json''), (''Accept-Language'', locale_of deps),
       (''Content-Type'', ''application/json;charset=utf8''), (''Authorization'', ''Bearer '' @ token)],
     sq_body = rpc_body requests\<rparr>"

definition responses_of :: "json \<Rightarrow> (json \<times> json) list result" where
  "responses_of payload = mapR (\<lambda>r. bindR (row_prop r ''id'') (\<lambda>i. Inr (i, r))) (case payload of JArr rs \<Rightarrow> rs | _ \<Rightarrow> [payload])"

text \<open>Of two responses of one id the later counts.\<close>

definition result_for :: "(json \<times> json) list \<Rightarrow> rpc_request \<Rightarrow> json result" where
  "result_for byId request = (case map_of (rev byId) (JStr (rr_id request)) of
     None \<Rightarrow> Inl (JsError ''Error'' (''No response for request '' @ rr_id request @ '' ('' @ rr_method request @ '')''))
   | Some result \<Rightarrow> let e = pget (obj_props result) ''error'' in
       if json_truthy e then Inl (rpc_error (rr_method request) e) else Inr (pget (obj_props result) ''result''))"

definition rpc_results :: "rpc_request list \<Rightarrow> http_answer \<Rightarrow> json list result" where
  "rpc_results requests response =
     (if \<not> http_ok response then Inl (JsError ''Error'' (''RPC failed: HTTP '' @ string_of_int (ha_status response) @ '' ''
        @ take 500 (body_text response)))
      else bindR (http_json response) (\<lambda>payload. bindR (responses_of payload) (\<lambda>byId. mapR (result_for byId) requests)))"

definition rpc :: "'w transport_deps \<Rightarrow> rpc_request list \<Rightarrow> ('w session, json list) io" where
  "rpc deps requests = (if requests = [] then returnE []
     else bindE (with_token deps (rpc_post deps requests)) (\<lambda>response. liftR (rpc_results requests response)))"

definition rpc_one :: "'w transport_deps \<Rightarrow> string \<Rightarrow> string \<Rightarrow> props \<Rightarrow> ('w session, json) io" where
  "rpc_one deps i method params =
     bindE (rpc deps [\<lparr>rr_id = i, rr_method = method, rr_params = JObj params\<rparr>]) (\<lambda>results. returnE (hd results))"

section \<open>The operations\<close>

definition http_addDocument :: "'w transport_deps \<Rightarrow> string \<Rightarrow> props \<Rightarrow> ('w session, string) io" where
  "http_addDocument deps documentModelName document =
     bindE (rpc_one deps ''add'' ''ADD_DOCUMENT'' [(''document'', JObj document), (''documentModelName'', JStr documentModelName),
       (''locale'', JStr (locale_of deps))]) (\<lambda>result.
     bindE (liftR (row_prop result ''docRef'')) (\<lambda>ref. returnE (js_string ref)))"

definition doc_spec_of :: "json \<Rightarrow> doc_spec result" where
  "doc_spec_of v = bindR (row_prop v ''docRef'') (\<lambda>ref. Inr \<lparr>ds_docRef = js_string ref,
     ds_model = js_string (pget (obj_props v) ''documentModelName''), ds_document = obj_props (pget (obj_props v) ''document'')\<rparr>)"

definition http_getDocument :: "'w transport_deps \<Rightarrow> string \<Rightarrow> ('w session, doc_spec) io" where
  "http_getDocument deps ref = bindE (rpc_one deps ''get'' ''GET_DOCUMENT'' [(''docRef'', JStr ref)]) (\<lambda>result. liftR (doc_spec_of result))"

definition http_modifyDocument :: "'w transport_deps \<Rightarrow> string \<Rightarrow> props \<Rightarrow> ('w session, unit) io" where
  "http_modifyDocument deps ref document = bindE (rpc_one deps ''mod'' ''MODIFY_DOCUMENT'' [(''docRef'', JStr ref), (''document'', JObj document),
     (''locale'', JStr (locale_of deps))]) (\<lambda>_. returnE ())"

definition http_deleteDocument :: "'w transport_deps \<Rightarrow> string \<Rightarrow> ('w session, unit) io" where
  "http_deleteDocument deps ref = bindE (rpc_one deps ''del'' ''DELETE_DOCUMENT'' [(''docRef'', JStr ref), (''locale'', JStr (locale_of deps))])
     (\<lambda>_. returnE ())"

text \<open>A constraint as \<open>a12/things.ts\<close> builds it.\<close>

fun constraint_json :: "constraint \<Rightarrow> json" where
  "constraint_json (ExactMatch f v) = JObj [(''operator'', JStr ''exact_match''), (''field'', JStr f), (''value'', JStr v)]"
| "constraint_json (UndefinedMatch f) = JObj [(''operator'', JStr ''undefined_match''), (''field'', JStr f)]"
| "constraint_json (CNot c) = JObj [(''operator'', JStr ''not''), (''operand'', constraint_json c)]"
| "constraint_json (CAnd cs) = JObj [(''operator'', JStr ''and''), (''operands'', JArr (map constraint_json cs))]"
| "constraint_json (COr cs) = JObj [(''operator'', JStr ''or''), (''operands'', JArr (map constraint_json cs))]"
| "constraint_json (DateRange f from to) = JObj [(''operator'', JStr ''date_range''), (''field'', JStr f), (''from'', opt_text from), (''to'', opt_text to)]"

definition sort_json :: "sort_term \<Rightarrow> json" where
  "sort_json t = JObj [(''field'', JStr (st_field t)), (''direction'', JStr (case st_direction t of ASC \<Rightarrow> ''ASC'' | DESC \<Rightarrow> ''DESC'')),
     (''nullHandling'', JStr (if st_nulls_last t then ''NULLS_LAST'' else ''NULLS_FIRST'')), (''ignoreCase'', JBool (st_ignoreCase t))]"

definition query_json :: "query_spec \<Rightarrow> json" where
  "query_json q = JObj ([(''targetDocumentModel'', JStr (qs_target q)), (''projectionName'', JStr ''document''),
     (''paging'', JObj [(''pageNumber'', JNum (num_of_int (int (qs_pageNumber q)))), (''pageSize'', JNum (num_of_int (int (qs_pageSize q))))])]
     @ (case qs_constraint q of None \<Rightarrow> [] | Some c \<Rightarrow> [(''constraint'', constraint_json c)])
     @ (if qs_sort q = [] then [] else [(''sort'', JArr (map sort_json (qs_sort q)))]))"

definition http_query :: "'w transport_deps \<Rightarrow> query_spec \<Rightarrow> ('w session, doc_spec list) io" where
  "http_query deps q = bindE (rpc_one deps ''q'' ''QUERY'' [(''query'', query_json q)]) (\<lambda>result.
     bindE (liftR (row_prop result ''entries'')) (\<lambda>found.
     bindE (liftR (method_items ''result.entries.map'' found)) (\<lambda>rows'. liftR (mapR doc_spec_of rows'))))"

definition store_isReachable :: "'w transport_deps \<Rightarrow> ('w session, bool) io" where
  "store_isReachable deps = bindE (attemptE (store_fetch deps \<lparr>sq_method = ''GET'', sq_url = base_of deps @ ''/actuator/health'', sq_headers = [], sq_body = []\<rparr>))
     (\<lambda>r. returnE (case r of Inl e \<Rightarrow> False | Inr response \<Rightarrow> http_ok response))"

definition http_client :: "'w transport_deps \<Rightarrow> 'w session a12_client" where
  "http_client deps = \<lparr>cl_getDocument = http_getDocument deps, cl_modifyDocument = http_modifyDocument deps,
     cl_addDocument = http_addDocument deps, cl_deleteDocument = http_deleteDocument deps, cl_query = http_query deps,
     cl_now = (\<lambda>s. td_now deps (ss_world s))\<rparr>"

section \<open>The Content Store\<close>

definition ContentStoreUploadError :: "int \<Rightarrow> string \<Rightarrow> string \<Rightarrow> js_error" where
  "ContentStoreUploadError code filename detail = JsError ''ContentStoreUploadError'' (''Uploading '' @ [CHR 0x27] @ filename @ [CHR 0x27]
     @ '' to the Content Store failed: HTTP '' @ string_of_int code @ (if detail = [] then [] else '' '' @ em_dash @ '' '' @ detail))"

definition ContentStoreDownloadError :: "int \<Rightarrow> string \<Rightarrow> string \<Rightarrow> js_error" where
  "ContentStoreDownloadError code attachmentId detail = JsError ''ContentStoreDownloadError'' (''Downloading attachment '' @ [CHR 0x27]
     @ attachmentId @ [CHR 0x27] @ '' from the Content Store failed: HTTP '' @ string_of_int code
     @ (if detail = [] then [] else '' '' @ em_dash @ '' '' @ detail))"

text \<open>The Model and the path as the Runtime leaves them, at their defaults.\<close>

definition upload_url :: "'w transport_deps \<Rightarrow> string \<Rightarrow> string" where
  "upload_url deps filename = base_of deps @ ''/api/v2/attachment?filename='' @ encodeURIComponent filename
     @ ''&documentModelName='' @ encodeURIComponent ''Document_DM'' @ ''&pathToField='' @ encodeURIComponent ''/Document/Attachment''"

definition upload_request :: "'w transport_deps \<Rightarrow> string \<Rightarrow> string \<Rightarrow> string \<Rightarrow> store_request" where
  "upload_request deps filename bytes token = \<lparr>sq_method = ''POST'', sq_url = upload_url deps filename,
     sq_headers = [(''Accept'', ''application/json''), (''Content-Type'', ''application/json;charset=utf8''), (''Authorization'', ''Bearer '' @ token)],
     sq_body = bytes\<rparr>"

definition isAttachmentHeader :: "json \<Rightarrow> bool" where
  "isAttachmentHeader v = (case pget (obj_props v) ''attachmentId'' of JStr i \<Rightarrow> i \<noteq> [] | _ \<Rightarrow> False)"

definition readHeader :: "'w transport_deps \<Rightarrow> http_answer \<Rightarrow> string \<Rightarrow> json result" where
  "readHeader deps response filename = (case http_json response of
     Inl e \<Rightarrow> Inl (ContentStoreUploadError (ha_status response) filename (''the response was not JSON ('' @ td_stack deps e @ '')''))
   | Inr payload \<Rightarrow> if isAttachmentHeader payload then Inr payload
       else Inl (ContentStoreUploadError (ha_status response) filename (''the response carried no attachmentId: '' @ take 200 (stringify payload))))"

definition or_value :: "json \<Rightarrow> json \<Rightarrow> json" where
  "or_value v dflt = (if nullish v then dflt else v)"

definition uploaded :: "string \<Rightarrow> string \<Rightarrow> string \<Rightarrow> json \<Rightarrow> props" where
  "uploaded filename mimeType bytes header =
     [(''original_filename'', JStr filename), (''internal_filename'', or_value (pget (obj_props header) ''filename'') (JStr filename)),
      (''attachment_id'', pget (obj_props header) ''attachmentId''),
      (''size'', or_value (pget (obj_props header) ''size'') (JNum (num_of_int (int (length bytes))))),
      (''mime_type'', or_value (pget (obj_props header) ''mimeType'') (JStr mimeType))]"

definition cs_upload :: "'w transport_deps \<Rightarrow> string \<Rightarrow> string \<Rightarrow> string \<Rightarrow> ('w session, props) io" where
  "cs_upload deps filename mimeType bytes =
     bindE (with_token deps (upload_request deps filename bytes)) (\<lambda>response.
       if \<not> http_ok response then throwE (ContentStoreUploadError (ha_status response) filename (take 500 (body_text response)))
       else bindE (liftR (readHeader deps response filename)) (\<lambda>header. returnE (uploaded filename mimeType bytes header)))"

definition download_request :: "'w transport_deps \<Rightarrow> string \<Rightarrow> string \<Rightarrow> store_request" where
  "download_request deps attachmentId token = \<lparr>sq_method = ''GET'', sq_url = base_of deps @ ''/cs/download/'' @ encodeURIComponent attachmentId,
     sq_headers = [(''Accept'', ''*/*''), (''Authorization'', ''Bearer '' @ token)], sq_body = []\<rparr>"

definition cs_download :: "'w transport_deps \<Rightarrow> string \<Rightarrow> ('w session, string) io" where
  "cs_download deps attachmentId =
     bindE (with_token deps (download_request deps attachmentId)) (\<lambda>response.
       if \<not> http_ok response then throwE (ContentStoreDownloadError (ha_status response) attachmentId (take 500 (body_text response)))
       else liftR (ha_body response))"

end
