(* ===== verification/TransportProperties.thy ===== *)
theory TransportProperties
  imports Transport
begin

text \<open>
  What the clients of the stores promise (\<open>runtime/src/a12/client.ts\<close>, \<open>content.ts\<close>): a batch or a file is sent
  again only after the store refused it with 401, each result is that of the response with the id of its
  request, and an attachment is a reference.
\<close>

section \<open>What is sent\<close>

text \<open>The exchanges that are no login.\<close>

definition posts :: "'w transport_deps \<Rightarrow> (store_request \<times> http_answer result) list \<Rightarrow> (store_request \<times> http_answer result) list" where
  "posts deps sent = filter (\<lambda>(q, x). q \<noteq> login_request deps) sent"

lemma posts_simps [simp]:
  "posts deps [] = []" "posts deps (xs @ ys) = posts deps xs @ posts deps ys"
  "posts deps ((q, x) # xs) = (if q = login_request deps then posts deps xs else (q, x) # posts deps xs)"
  by (simp_all add: posts_def)

definition refused_401 :: "store_request \<times> http_answer result \<Rightarrow> bool" where
  "refused_401 e \<longleftrightarrow> (\<exists>a. snd e = Inr a \<and> ha_status a = 401)"

lemma store_fetch_log: "store_fetch deps q s = (r, s') \<Longrightarrow> ss_log s' = ss_log s @ [(q, r)] \<and> ss_token s' = ss_token s"
  by (auto simp: store_fetch_def split: prod.splits)

lemma login_log: "login deps s = (r, s') \<Longrightarrow> \<exists>x. ss_log s' = ss_log s @ [(login_request deps, x)]"
  by (auto simp: login_def io_defs liftR_def split: prod.splits sum.splits dest!: store_fetch_log)

lemma currentToken_log:
  assumes "currentToken deps s = (r, s')"
  shows "\<exists>sent. ss_log s' = ss_log s @ sent \<and> posts deps sent = []"
proof (cases "truthy (ss_token s)")
  case True
  with assms show ?thesis by (intro exI [of _ "[]"]) (simp add: currentToken_def ensureToken_def io_defs)
next
  case False
  obtain r1 s1 where l: "login deps s = (r1, s1)" by fastforce
  with assms False have "s' = s1" by (auto simp: currentToken_def ensureToken_def io_defs split: sum.splits)
  with login_log [OF l] show ?thesis by auto
qed

lemma with_token_log:
  assumes "with_token deps req s = (r, s')" and "\<And>t. req t \<noteq> login_request deps"
  shows "\<exists>sent. ss_log s' = ss_log s @ sent \<and> length (posts deps sent) \<le> 2 \<and> list_all refused_401 (butlast (posts deps sent))
    \<and> (\<forall>e \<in> set (posts deps sent). \<exists>t. fst e = req t)
    \<and> (\<forall>a. r = Inr a \<longrightarrow> posts deps sent \<noteq> [] \<and> snd (last (posts deps sent)) = Inr a)"
proof -
  obtain r1 s1 where 1: "currentToken deps s = (r1, s1)" by fastforce
  obtain sent1 where l1: "ss_log s1 = ss_log s @ sent1" and p1: "posts deps sent1 = []" using currentToken_log [OF 1] by blast
  show ?thesis
  proof (cases r1)
    case (Inl e)
    with assms(1) 1 have "s' = s1" "r = Inl e" by (simp_all add: with_token_def io_defs)
    with l1 p1 show ?thesis by (intro exI [of _ sent1]) simp
  next
    case (Inr t)
    obtain r2 s2 where 2: "store_fetch deps (req t) s1 = (r2, s2)" by fastforce
    have l2: "ss_log s2 = ss_log s @ sent1 @ [(req t, r2)]" using store_fetch_log [OF 2] l1 by simp
    show ?thesis
    proof (cases "\<exists>a. r2 = Inr a \<and> ha_status a = 401")
      case False
      with assms(1) 1 2 Inr have "s' = s2" "r = r2" by (auto simp: with_token_def io_defs split: sum.splits)
      with l2 p1 assms(2) show ?thesis by (intro exI [of _ "sent1 @ [(req t, r2)]"]) auto
    next
      case True
      then obtain a where a: "r2 = Inr a" "ha_status a = 401" by blast
      obtain r3 s3 where 3: "currentToken deps (s2\<lparr>ss_token := None\<rparr>) = (r3, s3)" by fastforce
      obtain sent3 where l3: "ss_log s3 = ss_log s2 @ sent3" and p3: "posts deps sent3 = []" using currentToken_log [OF 3] by auto
      show ?thesis
      proof (cases r3)
        case (Inl e)
        with assms(1) 1 2 3 \<open>r1 = Inr t\<close> a have "s' = s3" "r = Inl e" by (simp_all add: with_token_def io_defs invalidateToken_def)
        with l2 l3 p1 p3 assms(2) show ?thesis by (intro exI [of _ "sent1 @ [(req t, r2)] @ sent3"]) auto
      next
        case (Inr t')
        obtain r4 s4 where 4: "store_fetch deps (req t') s3 = (r4, s4)" by fastforce
        with assms(1) 1 2 3 \<open>r1 = Inr t\<close> Inr a have "s' = s4" "r = r4" by (simp_all add: with_token_def io_defs invalidateToken_def)
        moreover have "ss_log s4 = ss_log s @ sent1 @ [(req t, r2)] @ sent3 @ [(req t', r4)]" using store_fetch_log [OF 4] l2 l3 by simp
        ultimately show ?thesis using p1 p3 assms(2) a
          by (intro exI [of _ "sent1 @ [(req t, r2)] @ sent3 @ [(req t', r4)]"]) (auto simp: refused_401_def)
      qed
    qed
  qed
qed

section \<open>JSON-RPC\<close>

text \<open>The results an answer holds for the requests, in their order.\<close>

definition responds :: "http_answer \<Rightarrow> rpc_request \<Rightarrow> json \<Rightarrow> bool" where
  "responds a request v \<longleftrightarrow> (\<exists>payload response. http_json a = Inr payload
     \<and> response \<in> set (case payload of JArr rs \<Rightarrow> rs | _ \<Rightarrow> [payload])
     \<and> pget (obj_props response) ''id'' = JStr (rr_id request) \<and> \<not> json_truthy (pget (obj_props response) ''error'')
     \<and> v = pget (obj_props response) ''result'')"

lemma bindR_Inr_iff: "bindR r k = Inr y \<longleftrightarrow> (\<exists>x. r = Inr x \<and> k x = Inr y)"
  by (cases r) simp_all

lemma mapR_all2: "mapR f xs = Inr ys \<Longrightarrow> list_all2 (\<lambda>x y. f x = Inr y) xs ys"
  by (induction xs arbitrary: ys) (auto simp: bindR_Inr_iff)

lemma responses_of_pairs:
  assumes "responses_of payload = Inr byId" and "(i, r) \<in> set byId"
  shows "r \<in> set (case payload of JArr rs \<Rightarrow> rs | _ \<Rightarrow> [payload]) \<and> i = pget (obj_props r) ''id''"
proof -
  have "list_all2 (\<lambda>r p. bindR (row_prop r ''id'') (\<lambda>i. Inr (i, r)) = Inr p) (case payload of JArr rs \<Rightarrow> rs | _ \<Rightarrow> [payload]) byId"
    using mapR_all2 assms(1) by (simp add: responses_of_def)
  then show ?thesis using assms(2)
    by (auto simp: list_all2_conv_all_nth in_set_conv_nth bindR_Inr_iff row_prop_def split: if_splits) (metis nth_mem snd_conv)+
qed

lemma rpc_results_respond:
  assumes "rpc_results requests a = Inr results"
  shows "http_ok a \<and> list_all2 (responds a) requests results"
proof -
  from assms obtain payload byId where ok: "http_ok a" and p: "http_json a = Inr payload" and b: "responses_of payload = Inr byId"
    and m: "mapR (result_for byId) requests = Inr results"
    by (auto simp: rpc_results_def bindR_Inr_iff split: if_splits)
  have "responds a request v" if "result_for byId request = Inr v" for request v
  proof -
    from that obtain response where r: "map_of (rev byId) (JStr (rr_id request)) = Some response"
      and "\<not> json_truthy (pget (obj_props response) ''error'')" "v = pget (obj_props response) ''result''"
      by (auto simp: result_for_def Let_def split: option.splits if_splits)
    with p responses_of_pairs [OF b, of "JStr (rr_id request)" response] map_of_SomeD [OF r] show ?thesis
      by (auto simp: responds_def)
  qed
  with list_all2_mono [OF mapR_all2 [OF m]] ok show ?thesis by blast
qed

lemma rpc_post_no_login: "rpc_post deps requests t \<noteq> login_request deps"
  by (simp add: rpc_post_def login_request_def Let_def)

text \<open>
  C28. A batch of JSON-RPC goes to the ThingStore at most twice, the same each time, and a second time only
  where the store refused the first with 401; and what the caller gets are, request by request, the results of
  responses of the last answer that carry the request's id and no error.
\<close>

theorem batch_sent_again_only_after_401:
  assumes "rpc deps requests s = (r, s')"
  shows "\<exists>sent. ss_log s' = ss_log s @ sent \<and> length (posts deps sent) \<le> 2 \<and> list_all refused_401 (butlast (posts deps sent))
    \<and> (\<forall>e \<in> set (posts deps sent). sq_url (fst e) = rpc_url deps \<and> sq_body (fst e) = rpc_body requests)
    \<and> (\<forall>results. r = Inr results \<and> requests \<noteq> [] \<longrightarrow> (\<exists>q a. posts deps sent \<noteq> [] \<and> last (posts deps sent) = (q, Inr a)
        \<and> http_ok a \<and> list_all2 (responds a) requests results))"
proof (cases "requests = []")
  case True
  with assms show ?thesis by (intro exI [of _ "[]"]) (auto simp: rpc_def returnE_def)
next
  case False
  obtain r1 s1 where w: "with_token deps (rpc_post deps requests) s = (r1, s1)" by fastforce
  with assms False have s': "s' = s1" and r: "r = (case r1 of Inl e \<Rightarrow> Inl e | Inr a \<Rightarrow> rpc_results requests a)"
    by (auto simp: rpc_def io_defs liftR_def split: sum.splits)
  from with_token_log [OF w rpc_post_no_login] obtain sent where sent: "ss_log s1 = ss_log s @ sent" "length (posts deps sent) \<le> 2"
    "list_all refused_401 (butlast (posts deps sent))" "\<forall>e \<in> set (posts deps sent). \<exists>t. fst e = rpc_post deps requests t"
    "\<forall>a. r1 = Inr a \<longrightarrow> posts deps sent \<noteq> [] \<and> snd (last (posts deps sent)) = Inr a" by blast
  have "\<forall>e \<in> set (posts deps sent). sq_url (fst e) = rpc_url deps \<and> sq_body (fst e) = rpc_body requests"
    using sent(4) by (auto simp: rpc_post_def)
  moreover have "\<exists>q a. posts deps sent \<noteq> [] \<and> last (posts deps sent) = (q, Inr a) \<and> http_ok a \<and> list_all2 (responds a) requests results"
    if res: "r = Inr results" for results
  proof -
    from res r obtain a where a: "r1 = Inr a" "rpc_results requests a = Inr results" by (auto split: sum.splits)
    with sent(5) have "posts deps sent \<noteq> []" "snd (last (posts deps sent)) = Inr a" by simp_all
    with rpc_results_respond [OF a(2)] show ?thesis by (metis prod.collapse)
  qed
  ultimately show ?thesis using sent s' by blast
qed

text \<open>A store that took the token for stale once.\<close>

definition stale_options :: client_options where
  "stale_options = \<lparr>co_baseUrl = ''http://ts/'', co_username = ''u'', co_password = ''p'', co_keycloakUrl = ''http://kc'', co_keycloakRealm = ''r'',
     co_keycloakClientId = ''c'', co_locale = None\<rparr>"

definition stale_deps :: "nat transport_deps" where
  "stale_deps = \<lparr>td_options = stale_options, td_fetch = (\<lambda>q n. (Inr (if n = 0 then \<lparr>ha_status = 401, ha_body = Inr []\<rparr>
       else if n = 1 then \<lparr>ha_status = 200, ha_body = Inr (stringify (JObj [(''access_token'', JStr ''new'')]))\<rparr>
       else \<lparr>ha_status = 200, ha_body = Inr (stringify (JArr [JObj [(''id'', JStr ''add''), (''result'', JNum (Fin 7 0))]]))\<rparr>), n + 1)),
     td_now = int, td_stack = (\<lambda>e. [])\<rparr>"

definition stale_session :: "nat session" where
  "stale_session = \<lparr>ss_token = Some ''old'', ss_log = [], ss_world = 0\<rparr>"

definition one_request :: rpc_request where
  "one_request = \<lparr>rr_id = ''add'', rr_method = ''ADD_DOCUMENT'', rr_params = JObj []\<rparr>"

lemma stale_run: "fst (rpc stale_deps [one_request] stale_session) = Inr [JNum (Fin 7 0)]"
  by code_simp

theorem batch_sent_again_only_after_401_witness:
  "\<exists>s' sent. rpc stale_deps [one_request] stale_session = (Inr [JNum (Fin 7 0)], s') \<and> ss_log s' = sent
    \<and> length (posts stale_deps sent) \<le> 2 \<and> list_all refused_401 (butlast (posts stale_deps sent)) \<and> posts stale_deps sent \<noteq> []"
proof -
  obtain s' where run: "rpc stale_deps [one_request] stale_session = (Inr [JNum (Fin 7 0)], s')"
    using stale_run by (metis prod.collapse)
  from batch_sent_again_only_after_401 [OF run] run show ?thesis by (auto simp: stale_session_def)
qed

section \<open>The Content Store\<close>

text \<open>
  An attachment refers to what was stored and carries no content of its own; a file is sent again only after a
  401 too.
\<close>

lemma uploaded_is_a_reference:
  assumes "cs_upload deps filename mimeType bytes s = (Inr attachment, s')"
  shows "pget attachment ''content'' = JUndef \<and> (\<exists>i. i \<noteq> [] \<and> pget attachment ''attachment_id'' = JStr i)"
proof -
  from assms obtain response header where h: "readHeader deps response filename = Inr header"
    and a: "attachment = uploaded filename mimeType bytes header"
    by (auto simp: cs_upload_def io_defs liftR_def split: prod.splits sum.splits if_splits)
  from h have "isAttachmentHeader header" by (auto simp: readHeader_def split: sum.splits if_splits)
  with a show ?thesis by (auto simp: uploaded_def isAttachmentHeader_def split: json.splits)
qed

lemma file_sent_again_only_after_401:
  assumes "with_token deps (upload_request deps filename bytes) s = (r, s')"
  shows "\<exists>sent. ss_log s' = ss_log s @ sent \<and> length (posts deps sent) \<le> 2 \<and> list_all refused_401 (butlast (posts deps sent))"
  using with_token_log [OF assms] by (auto simp: upload_request_def login_request_def Let_def)

end
