(* ===== verification/Bootstrap.thy ===== *)
theory Bootstrap
  imports WatcherStore StoreProperties
begin

text \<open>
  Loading what the system is (\<open>runtime/src/bootstrap/bootstrap.ts\<close>): the catalogue, the Assistants and the
  RuntimeState, the switch of the pause; and the health probe (\<open>runtime/src/health.ts\<close>). The seeds, which are
  data, are parameters; so is the clock, behind the client.
\<close>

section \<open>Seeds\<close>

text \<open>The seed of an Operation with the fields of a dynamic one.\<close>

record seed_carrier = operation_seed +
  dy_implementation :: "string option"
  dy_source :: "string option"
  dy_language :: "string option"
  dy_egress :: "string option"
  dy_timeoutMs :: "js_num option"
  dy_clientReadable :: "bool option"

record bootstrap_operation =
  bo_name :: string
  bo_mutating :: bool
  bo_seed :: seed_carrier

record assistant_seed =
  as_key :: string
  as_name :: string
  as_description :: string
  as_systemPrompt :: string
  as_llmModel :: string
  as_isEnabled :: bool
  as_maxTurns :: js_num
  as_skills :: json
  as_triggers :: json
  as_grants :: "string list"

record bootstrap_report =
  br_created :: "string list"
  br_updated :: "string list"
  br_kept :: "string list"
  br_operationsCreated :: "string list"
  br_operationsUpdated :: "string list"
  br_divergedDescriptions :: "string list"
  br_divergedSource :: "string list"

definition no_report :: bootstrap_report where
  "no_report = \<lparr>br_created = [], br_updated = [], br_kept = [], br_operationsCreated = [], br_operationsUpdated = [],
     br_divergedDescriptions = [], br_divergedSource = []\<rparr>"

section \<open>The catalogue\<close>

definition operation_id :: "bootstrap_operation \<Rightarrow> string" where
  "operation_id b = ''operation:'' @ bo_name b"

definition mirror :: "bootstrap_operation \<Rightarrow> props" where
  "mirror b = (let seed = bo_seed b in
     [(''system'', JStr (sd_system seed)), (''kind'', JStr (sd_kind seed)), (''parameters'', JStr (stringify (JObj (sd_parameters seed)))),
      (''mutating'', JBool (bo_mutating b)), (''implementation'', JStr (coalesce (dy_implementation seed) ''built-in''))])"

definition or_dflt :: "json \<Rightarrow> json \<Rightarrow> json" where
  "or_dflt dflt v = (if nullish v then dflt else v)"

definition mirror_differs :: "bootstrap_operation \<Rightarrow> props \<Rightarrow> bool" where
  "mirror_differs b d \<longleftrightarrow>
     or_dflt (JStr []) (pget d ''system'') \<noteq> pget (mirror b) ''system'' \<or>
     or_dflt (JStr []) (pget d ''kind'') \<noteq> pget (mirror b) ''kind'' \<or>
     or_dflt (JStr []) (pget d ''parameters'') \<noteq> pget (mirror b) ''parameters'' \<or>
     or_dflt (JBool False) (pget d ''mutating'') \<noteq> pget (mirror b) ''mutating'' \<or>
     or_dflt (JStr ''built-in'') (pget d ''implementation'') \<noteq> pget (mirror b) ''implementation''"

definition shown_as :: "bootstrap_operation \<Rightarrow> props \<Rightarrow> string" where
  "shown_as b d = (if json_truthy (pget d ''name'') then js_string (pget d ''name'') else sd_name (bo_seed b)) @ '' ('' @ bo_name b @ '')''"

definition opt_field :: "string \<Rightarrow> ('a \<Rightarrow> json) \<Rightarrow> 'a option \<Rightarrow> props" where
  "opt_field key f v = (case v of None \<Rightarrow> [] | Some x \<Rightarrow> [(key, f x)])"

definition operation_birth :: "bootstrap_operation \<Rightarrow> props" where
  "operation_birth b = (let seed = bo_seed b in
     [(''key'', JStr (bo_name b)), (''name'', JStr (sd_name seed)), (''description'', JStr (sd_description seed))]
     @ mirror b
     @ [(''requiresApproval'', JBool (coalesce (sd_requiresApproval seed) False))]
     @ opt_field ''source'' JStr (dy_source seed) @ opt_field ''language'' JStr (dy_language seed)
     @ opt_field ''egress'' JStr (dy_egress seed) @ opt_field ''timeoutMs'' JNum (dy_timeoutMs seed)
     @ opt_field ''clientReadable'' JBool (dy_clientReadable seed)
     @ [(''enabled'', JBool True), (''idempotencyKey'', JStr (operation_id b))])"

text \<open>What differs from the code is written, what differs from a decision is only named.\<close>

definition noted_divergence :: "bootstrap_operation \<Rightarrow> props \<Rightarrow> bootstrap_report \<Rightarrow> bootstrap_report" where
  "noted_divergence b d rep =
     (let seed = bo_seed b;
          rep1 = (if or_dflt (JStr []) (pget d ''description'') \<noteq> JStr (sd_description seed)
            then rep\<lparr>br_divergedDescriptions := br_divergedDescriptions rep @ [shown_as b d]\<rparr> else rep) in
      if dy_source seed \<noteq> None \<and> or_dflt (JStr []) (pget d ''source'') \<noteq> JStr (the (dy_source seed))
      then rep1\<lparr>br_divergedSource := br_divergedSource rep1 @ [shown_as b d]\<rparr> else rep1)"

definition seed_operation :: "'w a12_client \<Rightarrow> bootstrap_operation \<Rightarrow> bootstrap_report \<Rightarrow> ('w, bootstrap_report) io" where
  "seed_operation cl b rep =
     bindE (findByIdempotencyKey cl Operation_spec (operation_id b)) (\<lambda>existing. case existing of
       Some t \<Rightarrow>
         bindE (if mirror_differs b (data t)
                then bindE (repo_update cl Operation_spec (docRef t) (mirror b)) (\<lambda>_.
                  returnE (rep\<lparr>br_operationsUpdated := br_operationsUpdated rep @ [bo_name b]\<rparr>))
                else returnE rep) (\<lambda>rep1. returnE (noted_divergence b (data t) rep1))
     | None \<Rightarrow>
         bindE (repo_create cl Operation_spec (operation_birth b)) (\<lambda>_.
           returnE (rep\<lparr>br_operationsCreated := br_operationsCreated rep @ [bo_name b]\<rparr>)))"

section \<open>The Assistants\<close>

definition assistant_fields :: "assistant_seed \<Rightarrow> props" where
  "assistant_fields s = [(''key'', JStr (as_key s)), (''name'', JStr (as_name s)), (''description'', JStr (as_description s)),
     (''systemPrompt'', JStr (as_systemPrompt s)), (''llmModel'', JStr (as_llmModel s)), (''enabled'', JBool (as_isEnabled s)),
     (''maxTurns'', JNum (as_maxTurns s)), (''skills'', as_skills s), (''triggers'', as_triggers s),
     (''grants'', JArr (map (\<lambda>k. JObj [(''operationKey'', JStr k)]) (as_grants s))),
     (''idempotencyKey'', JStr (''assistant:'' @ as_key s))]"

definition seed_assistant :: "'w a12_client \<Rightarrow> assistant_seed \<Rightarrow> bootstrap_report \<Rightarrow> ('w, bootstrap_report) io" where
  "seed_assistant cl s rep =
     bindE (findByIdempotencyKey cl Assistant_spec (''assistant:'' @ as_key s)) (\<lambda>existing. case existing of
       Some t \<Rightarrow> bindE (repo_update cl Assistant_spec (docRef t) (assistant_fields s)) (\<lambda>_.
         returnE (rep\<lparr>br_updated := br_updated rep @ [as_key s]\<rparr>))
     | None \<Rightarrow> bindE (repo_create cl Assistant_spec (assistant_fields s)) (\<lambda>_.
         returnE (rep\<lparr>br_created := br_created rep @ [as_key s]\<rparr>)))"

section \<open>The RuntimeState\<close>

definition state_birth :: "int \<Rightarrow> props" where
  "state_birth t = [(''singletonKey'', JStr RUNTIME_STATE_KEY), (''paused'', JBool False), (''birthsThisHour'', JNum (num_of_int 0)),
     (''birthWindowStartedAt'', JStr (nowIso t)), (''watermark'', JStr (nowIso t)),
     (''idempotencyKey'', JStr (''runtime-state:'' @ RUNTIME_STATE_KEY))]"

definition seed_state :: "'w a12_client \<Rightarrow> bootstrap_report \<Rightarrow> ('w, bootstrap_report) io" where
  "seed_state cl rep =
     bindE (findByIdempotencyKey cl RuntimeState_spec (''runtime-state:'' @ RUNTIME_STATE_KEY)) (\<lambda>existing. case existing of
       Some t \<Rightarrow> returnE (rep\<lparr>br_kept := br_kept rep @ [''runtime-state'']\<rparr>)
     | None \<Rightarrow> bindE (getE (cl_now cl)) (\<lambda>t. bindE (repo_create cl RuntimeState_spec (state_birth t)) (\<lambda>_.
         returnE (rep\<lparr>br_created := br_created rep @ [''runtime-state'']\<rparr>))))"

definition bootstrap :: "'w a12_client \<Rightarrow> bootstrap_operation list \<Rightarrow> assistant_seed list \<Rightarrow> ('w, bootstrap_report) io" where
  "bootstrap cl implementations seeds =
     bindE (foldE (seed_operation cl) implementations no_report) (\<lambda>rep.
     bindE (foldE (seed_assistant cl) seeds rep) (seed_state cl))"

section \<open>The pause\<close>

definition find_state :: "'w a12_client \<Rightarrow> ('w, props stored list) io" where
  "find_state cl = repo_search cl RuntimeState_spec (Some (eq (fieldPath RuntimeState_spec ''singletonKey'') (JStr RUNTIME_STATE_KEY))) 2 []"

definition setPaused :: "'w a12_client \<Rightarrow> bool \<Rightarrow> ('w, unit) io" where
  "setPaused cl p = bindE (find_state cl) (\<lambda>found. case found of
     [] \<Rightarrow> throwE (JsError ''Error'' (''No RuntimeState '' @ [CHR 0xE2, CHR 0x80, CHR 0x94] @ '' run `just bootstrap` first.''))
   | t # _ \<Rightarrow> repo_update cl RuntimeState_spec (docRef t) [(''paused'', JBool p)])"

definition isPaused :: "'w a12_client \<Rightarrow> ('w, bool) io" where
  "isPaused cl = bindE (find_state cl) (\<lambda>found. returnE (case found of [] \<Rightarrow> False | t # _ \<Rightarrow> pget (data t) ''paused'' = JBool True))"

section \<open>The health probe\<close>

definition STALE_AFTER_MS :: int where
  "STALE_AFTER_MS = 90000"

text \<open>Whether the container is healthy, and the line the probe writes. \<open>Math.round\<close> rounds a half up.\<close>

definition seconds_of :: "int \<Rightarrow> string" where
  "seconds_of age = string_of_int ((age + 500) div 1000)"

definition health_of :: "props stored list \<Rightarrow> int \<Rightarrow> bool \<times> string" where
  "health_of found now' = (case found of
     [] \<Rightarrow> (False, ''no RuntimeState '' @ [CHR 0xE2, CHR 0x80, CHR 0x94] @ '' the watcher has never completed a scan'' @ nl)
   | t # _ \<Rightarrow>
       if json_truthy (pget (data t) ''paused'') then (True, ''paused'' @ nl)
       else (case parseIso (as_str (pget (data t) ''heartbeatAt'')) of
         None \<Rightarrow> (False, ''RuntimeState exists but has never been stamped '' @ [CHR 0xE2, CHR 0x80, CHR 0x94] @ '' no scan has completed'' @ nl)
       | Some heartbeat \<Rightarrow> let age = now' - heartbeat in
           if STALE_AFTER_MS < age
           then (False, ''heartbeat is '' @ seconds_of age @ ''s old '' @ [CHR 0xE2, CHR 0x80, CHR 0x94] @ '' the watcher is stuck'' @ nl)
           else (True, ''ok, heartbeat '' @ seconds_of age @ ''s old'' @ nl)))"

definition health :: "'w a12_client \<Rightarrow> ('w, bool \<times> string) io" where
  "health cl = bindE (attemptE (find_state cl)) (\<lambda>r. case r of
     Inl e \<Rightarrow> returnE (False, ''health check failed: '' @ error_string e @ nl)
   | Inr found \<Rightarrow> bindE (getE (cl_now cl)) (\<lambda>t. returnE (health_of found t)))"

section \<open>What a load leaves alone\<close>

text \<open>The properties that mirror the code; \<open>update\<close> stamps the last.\<close>

definition MIRRORED :: "string list" where
  "MIRRORED = [''system'', ''kind'', ''parameters'', ''mutating'', ''implementation'', ''updatedAt'']"

definition kept_document :: "string \<Rightarrow> props \<Rightarrow> props \<Rightarrow> bool" where
  "kept_document m doc doc' \<longleftrightarrow>
     (if m = model_name Operation_DM
      then (\<forall>(a, b) \<in> set (ms_fields Operation_spec). a \<notin> set MIRRORED \<longrightarrow> pget (body_of Operation_spec doc') b = pget (body_of Operation_spec doc) b)
      else m = model_name Assistant_DM \<or> doc' = doc)"

definition decisions_kept :: "view \<Rightarrow> view \<Rightarrow> bool" where
  "decisions_kept v v' \<longleftrightarrow> (\<forall>ref m doc. v ref = Some (m, doc) \<longrightarrow> (\<exists>doc'. v' ref = Some (m, doc') \<and> kept_document m doc doc'))"

lemma decisions_kept_refl: "decisions_kept v v"
  by (auto simp: decisions_kept_def kept_document_def)

lemma kept_document_trans: "kept_document m d d' \<Longrightarrow> kept_document m d' d'' \<Longrightarrow> kept_document m d d''"
  by (auto simp: kept_document_def split: if_splits) (fastforce+)?

lemma decisions_kept_trans: "decisions_kept v v' \<Longrightarrow> decisions_kept v' v'' \<Longrightarrow> decisions_kept v v''"
  unfolding decisions_kept_def using kept_document_trans by meson

lemma mirror_named: "a \<notin> set MIRRORED \<Longrightarrow> pget (mirror b) a = JUndef"
  by (simp add: mirror_def MIRRORED_def Let_def)

context thing_client
begin

definition leaves :: "('w, 'a) io \<Rightarrow> bool" where
  "leaves m \<longleftrightarrow> (\<forall>w x w'. inv w \<longrightarrow> m w = (Inr x, w') \<longrightarrow> inv w' \<and> decisions_kept (view w) (view w'))"

lemma leavesD: "leaves m \<Longrightarrow> inv w \<Longrightarrow> m w = (Inr x, w') \<Longrightarrow> inv w' \<and> decisions_kept (view w) (view w')"
  by (simp add: leaves_def)

lemma leaves_return: "leaves (returnE x)"
  by (simp add: leaves_def returnE_def decisions_kept_refl)

lemma leaves_bind:
  assumes "leaves m" and "\<And>x. leaves (k x)"
  shows "leaves (bindE m k)"
  unfolding leaves_def
proof (intro allI impI)
  fix w y w' assume i: "inv w" and run: "bindE m k w = (Inr y, w')"
  then obtain x w1 where "m w = (Inr x, w1)" and 2: "k x w1 = (Inr y, w')"
    by (auto simp: bindE_def split: prod.splits sum.splits)
  with assms(1) i have 1: "inv w1" "decisions_kept (view w) (view w1)" by (auto simp: leaves_def)
  from assms(2) 1(1) 2 have "inv w'" "decisions_kept (view w1) (view w')" by (auto simp: leaves_def)
  with 1 decisions_kept_trans show "inv w' \<and> decisions_kept (view w) (view w')" by blast
qed

lemma find_step:
  assumes "inv w" and "findByIdempotencyKey cl spec k w = (Inr r, w1)"
  shows "view w1 = view w \<and> inv w1"
  using find_result(1) [OF assms] inv_repo(4) [of spec k] assms by (metis keepsD snd_conv)

lemma leaves_fold: "(\<And>x a. leaves (f x a)) \<Longrightarrow> leaves (foldE f xs a)"
  by (induction xs arbitrary: a) (auto intro: leaves_return leaves_bind)

lemma update_step: "inv w \<Longrightarrow> repo_update cl spec ref d w = (Inr u, w') \<Longrightarrow> inv w'"
  using keepsD [OF inv_repo(2) [of spec ref d], of w] by simp

lemma leaves_create: "leaves (repo_create cl spec d)"
  unfolding leaves_def
proof (intro allI impI)
  fix w t w' assume i: "inv w" and c: "repo_create cl spec d w = (Inr t, w')"
  have "inv w'" using inv_create i c by (metis keepsD snd_conv)
  have ext: "decisions_kept (view u) (view u')" if "inv u" "add_and_converge cl spec d k u = (Inr t, u')" for u k u'
  proof -
    from add_and_converge_result [OF that] obtain n ref where "view u ref = None" "view u' = (view u)(ref \<mapsto> n)" by blast
    then show ?thesis by (auto simp: decisions_kept_def kept_document_def)
  qed
  have "decisions_kept (view w) (view w')"
  proof (cases "as_str (pget d ''idempotencyKey'')")
    case None
    with c ext [OF i] show ?thesis by (simp add: repo_create_def)
  next
    case (Some k)
    with c obtain r w1 where f: "findByIdempotencyKey cl spec k w = (Inr r, w1)"
      and k: "(case r of Some t \<Rightarrow> returnE t | None \<Rightarrow> add_and_converge cl spec d (Some k)) w1 = (Inr t, w')"
      by (auto simp: repo_create_def Let_def bindE_def throwE_def split: prod.splits sum.splits)
    note step = find_step [OF i f]
    show ?thesis
    proof (cases r)
      case None
      with k have "add_and_converge cl spec d (Some k) w1 = (Inr t, w')" by simp
      from ext [OF _ this] step show ?thesis by simp
    next
      case (Some x)
      with k step show ?thesis by (simp add: returnE_def decisions_kept_refl)
    qed
  qed
  with \<open>inv w'\<close> show "inv w' \<and> decisions_kept (view w) (view w')" by simp
qed

lemma leaves_seed_operation: "leaves (seed_operation cl b rep)"
  unfolding leaves_def
proof (intro allI impI)
  fix w x w' assume i: "inv w" and run: "seed_operation cl b rep w = (Inr x, w')"
  from run obtain r w1 where f: "findByIdempotencyKey cl Operation_spec (operation_id b) w = (Inr r, w1)"
    by (auto simp: seed_operation_def bindE_def split: prod.splits sum.splits)
  have v: "view w1 = view w" and i1: "inv w1" using find_step [OF i f] by simp_all
  show "inv w' \<and> decisions_kept (view w) (view w')"
  proof (cases r)
    case None
    with run f have "bindE (repo_create cl Operation_spec (operation_birth b)) (\<lambda>_.
        returnE (rep\<lparr>br_operationsCreated := br_operationsCreated rep @ [bo_name b]\<rparr>)) w1 = (Inr x, w')"
      by (simp add: seed_operation_def bindE_def)
    from leavesD [OF leaves_bind [OF leaves_create leaves_return] i1 this] v show ?thesis by simp
  next
    case (Some t)
    from find_result(2) [OF i f Some] obtain doc0 where d0: "view w (docRef t) = Some (model_name Operation_DM, doc0)"
      by (auto simp: Operation_spec_def)
    show ?thesis
    proof (cases "mirror_differs b (data t)")
      case False
      with run f Some have "w' = w1" by (simp add: seed_operation_def bindE_def returnE_def)
      with i1 v show ?thesis by (simp add: decisions_kept_refl)
    next
      case True
      with run f Some obtain w2 where up: "repo_update cl Operation_spec (docRef t) (mirror b) w1 = (Inr (), w2)" and w2: "w' = w2"
        by (auto simp: seed_operation_def bindE_def returnE_def split: prod.splits sum.splits)
      from update_result [OF up] d0 v obtain tm where
        up': "view w2 = (view w)(docRef t \<mapsto> (model_name Operation_DM, merged_document Operation_spec doc0 tm (mirror b)))" by auto
      have "kept_document (model_name Operation_DM) doc0 (merged_document Operation_spec doc0 tm (mirror b))"
        using merged_field [OF wf_SPECS [of Operation_DM, simplified], of _ _ doc0 tm "mirror b"] mirror_named
        by (auto simp: kept_document_def MIRRORED_def)
      with up' d0 have "decisions_kept (view w) (view w2)"
        by (auto simp: decisions_kept_def kept_document_def)
      moreover have "inv w2" by (rule update_step [OF i1 up])
      ultimately show ?thesis using w2 by simp
    qed
  qed
qed

lemma leaves_seed_assistant: "leaves (seed_assistant cl s rep)"
  unfolding leaves_def
proof (intro allI impI)
  fix w x w' assume i: "inv w" and run: "seed_assistant cl s rep w = (Inr x, w')"
  from run obtain r w1 where f: "findByIdempotencyKey cl Assistant_spec (''assistant:'' @ as_key s) w = (Inr r, w1)"
    by (auto simp: seed_assistant_def bindE_def split: prod.splits sum.splits)
  have v: "view w1 = view w" and i1: "inv w1" using find_step [OF i f] by simp_all
  show "inv w' \<and> decisions_kept (view w) (view w')"
  proof (cases r)
    case None
    with run f have "bindE (repo_create cl Assistant_spec (assistant_fields s)) (\<lambda>_.
        returnE (rep\<lparr>br_created := br_created rep @ [as_key s]\<rparr>)) w1 = (Inr x, w')"
      by (simp add: seed_assistant_def bindE_def)
    from leavesD [OF leaves_bind [OF leaves_create leaves_return] i1 this] v show ?thesis by simp
  next
    case (Some t)
    from find_result(2) [OF i f Some] obtain doc0 where d0: "view w (docRef t) = Some (model_name Assistant_DM, doc0)"
      by (auto simp: Assistant_spec_def)
    from run f Some obtain w2 where up: "repo_update cl Assistant_spec (docRef t) (assistant_fields s) w1 = (Inr (), w2)" and w2: "w' = w2"
      by (auto simp: seed_assistant_def bindE_def returnE_def split: prod.splits sum.splits)
    from update_result [OF up] d0 v obtain d' where "view w2 = (view w)(docRef t \<mapsto> (model_name Assistant_DM, d'))" by auto
    with d0 have "decisions_kept (view w) (view w2)"
      by (auto simp: decisions_kept_def kept_document_def)
    moreover have "inv w2" by (rule update_step [OF i1 up])
    ultimately show ?thesis using w2 by simp
  qed
qed

lemma leaves_find: "leaves (findByIdempotencyKey cl spec k)"
  using find_step by (auto simp: leaves_def decisions_kept_refl)

lemma leaves_clock: "leaves (getE (cl_now cl))"
  by (simp add: leaves_def getE_def decisions_kept_refl)

lemma leaves_seed_state: "leaves (seed_state cl rep)"
  unfolding seed_state_def
proof (rule leaves_bind [OF leaves_find])
  fix x :: "props stored option"
  show "leaves (case x of Some t \<Rightarrow> returnE (rep\<lparr>br_kept := br_kept rep @ [''runtime-state'']\<rparr>)
     | None \<Rightarrow> bindE (getE (cl_now cl)) (\<lambda>t. bindE (repo_create cl RuntimeState_spec (state_birth t)) (\<lambda>_.
         returnE (rep\<lparr>br_created := br_created rep @ [''runtime-state'']\<rparr>))))"
    by (cases x) (auto intro: leaves_bind leaves_return leaves_create leaves_clock)
qed

lemma leaves_bootstrap: "leaves (bootstrap cl implementations seeds)"
  unfolding bootstrap_def
  by (intro leaves_bind leaves_fold leaves_seed_operation leaves_seed_assistant leaves_seed_state)

end

text \<open>Where an Operation already mirrors the code, nothing is written, so its audit stamp stays.\<close>

lemma mirrored_operation_unwritten:
  assumes "findByIdempotencyKey cl Operation_spec (operation_id b) w = (Inr (Some t), w1)" and "\<not> mirror_differs b (data t)"
  shows "seed_operation cl b rep w = (Inr (noted_divergence b (data t) rep), w1)"
  using assms by (simp add: seed_operation_def io_defs)

text \<open>Once it was written, it does.\<close>

lemma written_operation_mirrors: "\<not> mirror_differs b (fromDocument Operation_spec (merged_document Operation_spec doc tm (mirror b)))"
proof -
  let ?d = "fromDocument Operation_spec (merged_document Operation_spec doc tm (mirror b))"
  have "pget ?d a = pget (mirror b) a" if "(a, g) \<in> set (ms_fields Operation_spec)" "a \<noteq> ''updatedAt''" "pget (mirror b) a \<noteq> JUndef" for a g
    using merged_field [OF wf_SPECS [of Operation_DM, simplified] that(1,2), of doc tm "mirror b"]
      body_data_field [OF wf_SPECS [of Operation_DM, simplified] that(1)] that(3)
    by (simp add: fromDocument_alt body_of_def)
  from this [of "''system''" "''System''"] this [of "''kind''" "''Kind''"] this [of "''parameters''" "''Parameters''"]
    this [of "''mutating''" "''Mutating''"] this [of "''implementation''" "''Implementation''"]
  show ?thesis by (simp add: mirror_differs_def mirror_def Let_def Operation_spec_def or_dflt_def nullish_def)
qed

text \<open>
  C12. Loading the system again re-applies what the code knows and no decision: whatever seeds are loaded, every
  stored Operation keeps every field but the mirror of the code, its approval, its switch, its description and
  its Source among them; the RuntimeState, with its pause and its watermark, and every Thing of the household
  are as they were; and no Thing is lost.
\<close>

theorem load_keeps_decisions:
  assumes "store_ok w" and "bootstrap memory_client implementations seeds w = (Inr rep, w')"
    and "store_view w ref = Some (m, doc)"
  shows "\<exists>doc'. store_view w' ref = Some (m, doc')
    \<and> (m = ''Operation_DM'' \<longrightarrow> (\<forall>(a, b) \<in> set (ms_fields Operation_spec).
         a \<notin> {''system'', ''kind'', ''parameters'', ''mutating'', ''implementation'', ''updatedAt''} \<longrightarrow>
         pget (body_of Operation_spec doc') b = pget (body_of Operation_spec doc) b))
    \<and> (m \<notin> {''Operation_DM'', ''Assistant_DM''} \<longrightarrow> doc' = doc)"
proof -
  have "decisions_kept (store_view w) (store_view w')"
    using mem.leavesD [OF mem.leaves_bootstrap assms(1,2)] by blast
  with assms(3) show ?thesis by (fastforce simp: decisions_kept_def kept_document_def MIRRORED_def)
qed

definition paying :: bootstrap_operation where
  "paying = \<lparr>bo_name = ''pay'', bo_mutating = True, bo_seed =
     \<lparr>sd_name = ''Pay'', sd_system = ''bank'', sd_kind = ''k'', sd_description = ''Pays.'', sd_parameters = [], sd_requiresApproval = Some True,
      dy_implementation = None, dy_source = None, dy_language = None, dy_egress = None, dy_timeoutMs = None, dy_clientReadable = None\<rparr>\<rparr>"

definition halted_store :: mem_store where
  "halted_store = (empty_store 0)\<lparr>counter := 2, rows := [(seed_ref ''Operation_DM'' 1, ''Operation_DM'',
     [(''Operation'', JObj [(''Key'', JStr ''pay''), (''Enabled'', JBool False), (''IdempotencyKey'', JStr ''operation:pay'')])]),
     (seed_ref ''RuntimeState_DM'' 2, ''RuntimeState_DM'',
     [(''RuntimeState'', JObj [(''SingletonKey'', JStr ''the-one''), (''Paused'', JBool True), (''IdempotencyKey'', JStr ''runtime-state:the-one'')])])]\<rparr>"

lemma halted_store_ok: "store_ok halted_store"
proof -
  have "seed_ref ''Operation_DM'' 1 \<noteq> seed_ref ''RuntimeState_DM'' 2" by code_simp
  moreover have "\<exists>m n. n \<le> 2 \<and> seed_ref m' n' = seed_ref m n" if "n' \<le> 2" for m' n'
    using that by blast
  ultimately show ?thesis unfolding store_ok_def halted_store_def by simp
qed

lemma mem_lookup_total: "\<exists>r. findByIdempotencyKey memory_client spec k w = (Inr r, w)"
  by (simp add: findByIdempotencyKey_def repo_search_def memory_client_def mem_defs io_defs Let_def)

lemma mem_seed_state_total:
  assumes "failNextAdd w = None"
  shows "\<exists>rep' w'. seed_state memory_client rep w = (Inr rep', w')"
proof -
  obtain r where f: "findByIdempotencyKey memory_client RuntimeState_spec (''runtime-state:'' @ RUNTIME_STATE_KEY) w = (Inr r, w)"
    using mem_lookup_total by blast
  have k: "as_str (pget (state_birth t) ''idempotencyKey'') = Some ''runtime-state:the-one''" for t
    by (simp add: state_birth_def RUNTIME_STATE_KEY_def as_str_def)
  have c: "check_key RuntimeState_spec ''runtime-state:the-one'' = Inr ()" by code_simp
  obtain t w' where "repo_create memory_client RuntimeState_spec (state_birth (cl_now memory_client w)) w = (Inr t, w')"
    using mem_create_total [OF assms k c] by blast
  with f show ?thesis by (cases r) (simp_all add: seed_state_def bindE_def getE_def returnE_def)
qed

lemma halted_store_load: "\<exists>rep w'. bootstrap memory_client [paying] [] halted_store = (Inr rep, w')"
proof -
  have "case fst (findByIdempotencyKey memory_client Operation_spec ''operation:pay'' halted_store) of
      Inr (Some t) \<Rightarrow> mirror_differs paying (data t) \<and> docRef t = seed_ref ''Operation_DM'' 1 | _ \<Rightarrow> False" by code_simp
  with mem_lookup_total [of Operation_spec "''operation:pay''" halted_store] obtain t where
    f: "findByIdempotencyKey memory_client Operation_spec ''operation:pay'' halted_store = (Inr (Some t), halted_store)"
    and t: "mirror_differs paying (data t)" "docRef t = seed_ref ''Operation_DM'' 1" by (auto split: option.splits)
  obtain w1 where u: "repo_update memory_client Operation_spec (seed_ref ''Operation_DM'' 1) (mirror paying) halted_store = (Inr (), w1)"
    and n: "failNextAdd w1 = None"
    by (auto simp: repo_update_def memory_client_def mem_defs io_defs halted_store_def empty_store_def)
  have "operation_id paying = ''operation:pay''" by (simp add: operation_id_def paying_def)
  with f t u obtain rep where "seed_operation memory_client paying no_report halted_store = (Inr rep, w1)"
    by (auto simp: seed_operation_def bindE_def returnE_def)
  moreover obtain rep' w' where "seed_state memory_client rep w1 = (Inr rep', w')" using mem_seed_state_total [OF n] by blast
  ultimately show ?thesis by (auto simp: bootstrap_def bindE_def returnE_def)
qed

theorem load_keeps_decisions_witness:
  "\<exists>rep w' doc'. bootstrap memory_client [paying] [] halted_store = (Inr rep, w')
    \<and> store_view w' (seed_ref ''Operation_DM'' 1) = Some (''Operation_DM'', doc')
    \<and> pget (body_of Operation_spec doc') ''Enabled'' = JBool False"
proof -
  obtain rep w' where run: "bootstrap memory_client [paying] [] halted_store = (Inr rep, w')" using halted_store_load by blast
  have v: "store_view halted_store (seed_ref ''Operation_DM'' 1) = Some (''Operation_DM'',
      [(''Operation'', JObj [(''Key'', JStr ''pay''), (''Enabled'', JBool False), (''IdempotencyKey'', JStr ''operation:pay'')])])"
    by (simp add: store_view_def halted_store_def)
  have f: "(''enabled'', ''Enabled'') \<in> set (ms_fields Operation_spec)" by code_simp
  have b: "pget (body_of Operation_spec [(''Operation'', JObj [(''Key'', JStr ''pay''), (''Enabled'', JBool False),
      (''IdempotencyKey'', JStr ''operation:pay'')])]) ''Enabled'' = JBool False" by code_simp
  from load_keeps_decisions [OF halted_store_ok run v] f b run show ?thesis by fastforce
qed

text \<open>
  A load overwrites the prompt of an Assistant, and switches it on again where the seed says so.
\<close>

lemma load_overwrites_prompt:
  "pget (body_of Assistant_spec (merged_document Assistant_spec doc tm (assistant_fields s))) ''SystemPrompt'' = JStr (as_systemPrompt s)"
  "pget (body_of Assistant_spec (merged_document Assistant_spec doc tm (assistant_fields s))) ''Enabled'' = JBool (as_isEnabled s)"
proof -
  have f: "(''systemPrompt'', ''SystemPrompt'') \<in> set (ms_fields Assistant_spec)" "(''enabled'', ''Enabled'') \<in> set (ms_fields Assistant_spec)"
    by code_simp+
  show "pget (body_of Assistant_spec (merged_document Assistant_spec doc tm (assistant_fields s))) ''SystemPrompt'' = JStr (as_systemPrompt s)"
    using merged_field [OF wf_SPECS [of Assistant_DM, simplified] f(1)] by (simp add: assistant_fields_def)
  show "pget (body_of Assistant_spec (merged_document Assistant_spec doc tm (assistant_fields s))) ''Enabled'' = JBool (as_isEnabled s)"
    using merged_field [OF wf_SPECS [of Assistant_DM, simplified] f(2)] by (simp add: assistant_fields_def)
qed

text \<open>The switch of the pause writes the pause alone.\<close>

lemma pausing_writes_only_the_pause:
  assumes "store_ok w" and "setPaused memory_client p w = (Inr u, w')" and "(a, b) \<in> set (ms_fields RuntimeState_spec)"
    and "a \<notin> {''paused'', ''updatedAt''}"
  shows "\<exists>ref doc doc'. store_view w ref = Some (''RuntimeState_DM'', doc) \<and> store_view w' = (store_view w)(ref \<mapsto> (''RuntimeState_DM'', doc'))
    \<and> pget (body_of RuntimeState_spec doc') b = pget (body_of RuntimeState_spec doc) b
    \<and> pget (body_of RuntimeState_spec doc') ''Paused'' = JBool p"
proof -
  from assms(2) obtain t rest w1 where f: "find_state memory_client w = (Inr (t # rest), w1)"
    and up: "repo_update memory_client RuntimeState_spec (docRef t) [(''paused'', JBool p)] w1 = (Inr u, w')"
    by (auto simp: setPaused_def bindE_def throwE_def split: prod.splits sum.splits list.splits)
  note found = mem.search_result [OF assms(1) f [unfolded find_state_def]]
  from found(3) [of t] obtain doc where d: "store_view w (docRef t) = Some (''RuntimeState_DM'', doc)"
    by (auto simp: RuntimeState_spec_def)
  from mem.update_result [OF up] d found(1) obtain tm where
    v': "store_view w' = (store_view w)(docRef t \<mapsto> (''RuntimeState_DM'', merged_document RuntimeState_spec doc tm [(''paused'', JBool p)]))" by auto
  note mf = merged_field [OF wf_SPECS [of RuntimeState_DM, simplified]]
  have "pget (body_of RuntimeState_spec (merged_document RuntimeState_spec doc tm [(''paused'', JBool p)])) b = pget (body_of RuntimeState_spec doc) b"
    using mf [OF assms(3)] assms(4) by simp
  moreover have "(''paused'', ''Paused'') \<in> set (ms_fields RuntimeState_spec)" by code_simp
  ultimately show ?thesis using mf [of "''paused''" "''Paused''"] d v'
    by (intro exI [of _ "docRef t"] exI [of _ doc] exI [of _ "merged_document RuntimeState_spec doc tm [(''paused'', JBool p)]"]) simp
qed

end
