(* ===== verification/Spec2Isabelle.thy ===== *)
theory Spec2Isabelle
  imports StoreProperties LoopOutcome Inbound Services WatcherProperties PassProperties MailProperties OperationProperties FireflyProperties ConfigProperties EgressProperties GmailProperties ProviderProperties TransportProperties Bootstrap
begin

text \<open>
  The Assistants Runtime (\<open>runtime/src\<close>).
\<close>

end
